(* ===== verification/Prelude.thy ===== *)
theory Prelude
  imports Main "HOL-Library.Word" "HOL-Library.Signed_Division"
begin

text \<open>
  Shared ground of the development: the machine types of the firmware, C arrays as lists of a
  fixed length, C strings inside character buffers with the functions of \<^verbatim>\<open>string.h\<close> that the
  source calls, C integer division, and the collections of facts the component proofs use.

  An array of the source is a list of the array's length. A store goes through
  \<open>poke\<close> (one element) or \<open>blit\<close> (a block). Both make the list longer exactly when they reach
  past its end, so an invariant that fixes the length of a buffer is the statement that
  no store of the code leaves the buffer.
\<close>

unbundle bit_operations_syntax

named_theorems buf_simps \<open>lengths and contents of buffers after stores\<close>
named_theorems cstr_simps \<open>C strings inside buffers\<close>

type_synonym u8 = "8 word"
type_synonym u16 = "16 word"
type_synonym u32 = "32 word"

section \<open>Arrays\<close>

definition poke :: "'a list \<Rightarrow> nat \<Rightarrow> 'a \<Rightarrow> 'a list" where
  "poke xs i v = take i xs @ v # drop (Suc i) xs"

definition blit :: "'a list \<Rightarrow> nat \<Rightarrow> 'a list \<Rightarrow> 'a list" where
  "blit xs i src = take i xs @ src @ drop (i + length src) xs"

definition slice :: "'a list \<Rightarrow> nat \<Rightarrow> nat \<Rightarrow> 'a list" where
  "slice xs i n = take n (drop i xs)"

lemma poke_in_range: "i < length xs \<Longrightarrow> poke xs i v = xs[i := v]"
  by (simp add: poke_def upd_conv_take_nth_drop)

lemma length_poke [buf_simps]: "i < length xs \<Longrightarrow> length (poke xs i v) = length xs"
  by (simp add: poke_def)

lemma length_poke_iff: "length (poke xs i v) = length xs \<longleftrightarrow> i < length xs"
  by (auto simp: poke_def min_def)

lemma nth_poke [buf_simps]:
  "i < length xs \<Longrightarrow> j < length xs \<Longrightarrow> poke xs i v ! j = (if j = i then v else xs ! j)"
  by (simp add: poke_in_range)

lemma take_poke [buf_simps]: "n \<le> i \<Longrightarrow> i < length xs \<Longrightarrow> take n (poke xs i v) = take n xs"
  by (simp add: poke_in_range)

lemma take_Suc_poke [buf_simps]:
  "i < length xs \<Longrightarrow> take (Suc i) (poke xs i v) = take i xs @ [v]"
  by (simp add: poke_def)

lemma drop_poke [buf_simps]: "i < n \<Longrightarrow> i < length xs \<Longrightarrow> drop n (poke xs i v) = drop n xs"
  by (simp add: poke_in_range)

lemma length_blit [buf_simps]:
  "i + length src \<le> length xs \<Longrightarrow> length (blit xs i src) = length xs"
  by (simp add: blit_def)

lemma length_blit_iff:
  "i \<le> length xs \<Longrightarrow> length (blit xs i src) = length xs \<longleftrightarrow> i + length src \<le> length xs"
  by (auto simp: blit_def)

lemma take_blit_before [buf_simps]:
  "n \<le> i \<Longrightarrow> i \<le> length xs \<Longrightarrow> take n (blit xs i src) = take n xs"
  by (simp add: blit_def min_def)

lemma take_blit_upto [buf_simps]:
  "i \<le> length xs \<Longrightarrow> take (i + length src) (blit xs i src) = take i xs @ src"
  by (simp add: blit_def min_def)

lemma drop_blit_after [buf_simps]:
  "i + length src \<le> n \<Longrightarrow> i + length src \<le> length xs \<Longrightarrow> drop n (blit xs i src) = drop n xs"
  by (simp add: blit_def)

lemma slice_blit_same [buf_simps]:
  "i + length src \<le> length xs \<Longrightarrow> slice (blit xs i src) i (length src) = src"
  by (simp add: blit_def slice_def)

lemma slice_blit_disjoint [buf_simps]:
  assumes "i + length src \<le> length xs" "j + n \<le> i \<or> i + length src \<le> j"
  shows "slice (blit xs i src) j n = slice xs j n"
proof (cases "j + n \<le> i")
  case True
  have "slice (blit xs i src) j n = drop j (take (j + n) (blit xs i src))"
    by (simp add: slice_def drop_take)
  also have "\<dots> = slice xs j n"
    using True assms(1) by (simp add: take_blit_before slice_def drop_take)
  finally show ?thesis .
next
  case False
  with assms show ?thesis by (simp add: slice_def drop_blit_after)
qed

lemma length_slice [buf_simps]: "i + n \<le> length xs \<Longrightarrow> length (slice xs i n) = n"
  by (simp add: slice_def)

lemma slice_append_left [simp]: "slice (xs @ ys) 0 (length xs) = xs"
  by (simp add: slice_def)

lemma blit_slice_same: "i + n \<le> length xs \<Longrightarrow> blit xs i (slice xs i n) = xs"
  by (simp add: blit_def slice_def)
    (metis append.assoc append_take_drop_id drop_drop add.commute)

section \<open>C strings\<close>

text \<open>
  A C string is what a character buffer holds before its first NUL. The literal
  \<^verbatim>\<open>"abc"\<close> is the list \<open>''abc''\<close>: reading past the end of a list gives NUL, as the literal's
  implicit terminator does.
\<close>

definition NUL :: char where
  "NUL = CHR 0x00"

definition cstr :: "char list \<Rightarrow> string" where
  "cstr buf = takeWhile (\<lambda>c. c \<noteq> NUL) buf"

definition strlen :: "char list \<Rightarrow> nat" where
  "strlen buf = length (cstr buf)"

definition charAt :: "char list \<Rightarrow> nat \<Rightarrow> char" where
  "charAt buf i = (if i < length buf then buf ! i else NUL)"

text \<open>\<open>strncmp_eq n a b\<close> is \<^verbatim>\<open>strncmp(a, b, n) == 0\<close>, and \<open>strcmp_eq a b\<close> is \<^verbatim>\<open>strcmp(a, b) == 0\<close>.\<close>

definition strncmp_eq :: "nat \<Rightarrow> char list \<Rightarrow> char list \<Rightarrow> bool" where
  "strncmp_eq n a b \<longleftrightarrow> take n (cstr a) = take n (cstr b)"

definition strcmp_eq :: "char list \<Rightarrow> char list \<Rightarrow> bool" where
  "strcmp_eq a b \<longleftrightarrow> cstr a = cstr b"

text \<open>
  \<^verbatim>\<open>strncpy(dst, src, n)\<close> writes exactly \<open>n\<close> characters, padding with NULs;
  \<^verbatim>\<open>strncat(dst, src, n)\<close> writes at most \<open>n\<close> characters of \<open>src\<close> and then a NUL.
\<close>

definition strncpy_src :: "char list \<Rightarrow> nat \<Rightarrow> char list" where
  "strncpy_src src n = take n (cstr src) @ replicate (n - strlen src) NUL"

definition strncpy :: "char list \<Rightarrow> char list \<Rightarrow> nat \<Rightarrow> char list" where
  "strncpy dst src n = blit dst 0 (strncpy_src src n)"

definition strncat :: "char list \<Rightarrow> char list \<Rightarrow> nat \<Rightarrow> char list" where
  "strncat dst src n = blit dst (strlen dst) (take n (cstr src) @ [NUL])"

text \<open>\<^verbatim>\<open>strstr(hay, needle)\<close>: the offset of the first occurrence, or None for a null result.\<close>

definition is_prefix :: "char list \<Rightarrow> char list \<Rightarrow> bool" where
  "is_prefix p s \<longleftrightarrow> take (length p) s = p"

fun find_sub :: "string \<Rightarrow> string \<Rightarrow> nat option" where
  "find_sub [] p = (if p = [] then Some 0 else None)"
| "find_sub (c # s) p =
     (if is_prefix p (c # s) then Some 0 else map_option Suc (find_sub s p))"

definition strstr :: "char list \<Rightarrow> char list \<Rightarrow> nat option" where
  "strstr hay needle = find_sub (cstr hay) (cstr needle)"

text \<open>A terminated buffer, and a string without embedded NULs.\<close>

definition terminated :: "char list \<Rightarrow> bool" where
  "terminated buf \<longleftrightarrow> NUL \<in> set buf"

definition plain :: "string \<Rightarrow> bool" where
  "plain s \<longleftrightarrow> NUL \<notin> set s"

lemma cstr_plain [cstr_simps]: "plain s \<Longrightarrow> cstr s = s"
  by (auto simp: cstr_def plain_def takeWhile_eq_all_conv)

lemma plain_cstr [simp]: "plain (cstr buf)"
  by (auto simp: plain_def cstr_def dest: set_takeWhileD)

lemma cstr_append_nul [cstr_simps]: "plain s \<Longrightarrow> cstr (s @ NUL # rest) = s"
  by (auto simp: cstr_def plain_def takeWhile_append)

lemma cstr_append [cstr_simps]: "plain s \<Longrightarrow> cstr (s @ rest) = s @ cstr rest"
  by (auto simp: cstr_def plain_def takeWhile_append)

lemma cstr_Nil [simp]: "cstr [] = []"
  by (simp add: cstr_def)

lemma cstr_nul_Cons [simp]: "cstr (NUL # xs) = []"
  by (simp add: cstr_def)

lemma cstr_Cons [cstr_simps]: "c \<noteq> NUL \<Longrightarrow> cstr (c # xs) = c # cstr xs"
  by (simp add: cstr_def)

lemma cstr_cstr [simp]: "cstr (cstr s) = cstr s"
  by (simp add: cstr_plain)

lemma plain_append [simp]: "plain (s @ t) \<longleftrightarrow> plain s \<and> plain t"
  by (auto simp: plain_def)

lemma plain_Nil [simp]: "plain []"
  by (simp add: plain_def)

lemma plain_Cons [simp]: "plain (c # s) \<longleftrightarrow> c \<noteq> NUL \<and> plain s"
  by (auto simp: plain_def)

lemma plain_take [simp]: "plain s \<Longrightarrow> plain (take n s)"
  by (auto simp: plain_def dest: in_set_takeD)

lemma plain_drop [simp]: "plain s \<Longrightarrow> plain (drop n s)"
  by (auto simp: plain_def dest: in_set_dropD)

lemma strlen_le: "strlen buf \<le> length buf"
  by (simp add: strlen_def cstr_def length_takeWhile_le)

lemma strlen_less_terminated: "terminated buf \<longleftrightarrow> strlen buf < length buf"
  unfolding terminated_def strlen_def cstr_def
  by (induction buf) auto

lemma take_strlen: "take (strlen buf) buf = cstr buf"
  unfolding strlen_def cstr_def by (metis takeWhile_eq_take)

lemma terminated_split:
  assumes "terminated buf"
  obtains rest where "buf = cstr buf @ NUL # rest"
proof -
  have d: "dropWhile (\<lambda>c. c \<noteq> NUL) buf \<noteq> []"
    using assms by (auto simp: terminated_def dropWhile_eq_Nil_conv)
  then have "hd (dropWhile (\<lambda>c. c \<noteq> NUL) buf) = NUL"
    using hd_dropWhile [OF d] by simp
  with d have "dropWhile (\<lambda>c. c \<noteq> NUL) buf = NUL # tl (dropWhile (\<lambda>c. c \<noteq> NUL) buf)"
    by (metis list.collapse)
  then show ?thesis
    using that by (metis cstr_def takeWhile_dropWhile_id)
qed

lemma cstr_poke_nul:
  assumes "i < length buf" "i \<le> strlen buf"
  shows "cstr (poke buf i NUL) = take i (cstr buf)"
proof -
  have "take i buf = take i (cstr buf)"
    using assms(2) take_strlen [of buf] by (metis min.absorb1 take_take)
  then show ?thesis
    by (simp add: poke_def cstr_append_nul)
qed

lemma takeWhile_take_stop: "\<not> P x \<Longrightarrow> takeWhile P (take i xs @ x # ys) = take i (takeWhile P xs)"
  by (induction xs arbitrary: i) (auto simp: take_Cons split: nat.split)

lemma cstr_poke_nul_any: "cstr (poke buf i NUL) = take i (cstr buf)"
  by (simp add: cstr_def poke_def takeWhile_take_stop)

lemma cstr_drop: "n \<le> strlen buf \<Longrightarrow> cstr (drop n buf) = drop n (cstr buf)"
proof (induction buf arbitrary: n)
  case Nil
  then show ?case by simp
next
  case (Cons c buf)
  then show ?case by (cases n) (auto simp: strlen_def cstr_def split: if_splits)
qed

lemma terminated_poke_nul: "i < length buf \<Longrightarrow> terminated (poke buf i NUL)"
  by (simp add: poke_def terminated_def)

lemma charAt_0: "charAt buf 0 = NUL \<longleftrightarrow> cstr buf = []"
  by (cases buf) (auto simp: charAt_def cstr_def)

subsection \<open>Copying and appending\<close>

lemma length_strncpy_src [simp]: "length (strncpy_src src n) = n"
  by (simp add: strncpy_src_def strlen_def)

lemma length_strncpy [buf_simps]: "n \<le> length dst \<Longrightarrow> length (strncpy dst src n) = length dst"
  by (simp add: strncpy_def length_blit)

lemma length_strncat [buf_simps]:
  assumes "strlen dst + n < length dst"
  shows "length (strncat dst src n) = length dst"
  using assms by (simp add: strncat_def length_blit)

lemma cstr_strncat:
  assumes "strlen dst + n < length dst"
  shows "cstr (strncat dst src n) = cstr dst @ take n (cstr src)"
proof -
  have "strncat dst src n =
      (cstr dst @ take n (cstr src)) @ NUL # drop (strlen dst + Suc (length (take n (cstr src)))) dst"
    by (simp add: strncat_def blit_def take_strlen)
  then show ?thesis
    by (simp only:) (rule cstr_append_nul, simp)
qed

text \<open>
  The idiom of the source: \<^verbatim>\<open>strncpy(dst, src, n); dst[n] = 0\<close> on a buffer of \<open>n + 1\<close>
  characters stores the first \<open>n\<close> characters of \<open>src\<close>, terminated.
\<close>

lemma cstr_strncpy_terminated:
  assumes "length dst = Suc n"
  shows "cstr (poke (strncpy dst src n) n NUL) = take n (cstr src)"
    and "length (poke (strncpy dst src n) n NUL) = Suc n"
    and "terminated (poke (strncpy dst src n) n NUL)"
proof -
  have len: "length (strncpy dst src n) = Suc n"
    using assms by (simp add: length_strncpy)
  have "take n (strncpy dst src n) = strncpy_src src n"
    using assms by (simp add: strncpy_def blit_def)
  then have "poke (strncpy dst src n) n NUL = strncpy_src src n @ [NUL]"
    using len by (simp add: poke_def)
  moreover have "cstr (strncpy_src src n @ [NUL]) = take n (cstr src)"
  proof (cases "strlen src < n")
    case True
    then obtain k where "n - strlen src = Suc k"
      by (metis Suc_diff_Suc)
    then show ?thesis
      by (simp add: strncpy_src_def cstr_append_nul)
  next
    case False
    then show ?thesis by (simp add: strncpy_src_def cstr_append_nul)
  qed
  ultimately show "cstr (poke (strncpy dst src n) n NUL) = take n (cstr src)"
    by simp
  show "length (poke (strncpy dst src n) n NUL) = Suc n"
    using len by (simp add: length_poke)
  show "terminated (poke (strncpy dst src n) n NUL)"
    using len by (simp add: terminated_poke_nul)
qed

text \<open>Terminating a buffer at its last cell changes nothing in a string that is terminated already.\<close>

lemma cstr_poke_end:
  assumes "length buf = Suc n" "strlen buf \<le> n"
  shows "cstr (poke buf n NUL) = cstr buf"
proof -
  have "strlen buf < length buf" using assms by simp
  then have "terminated buf" by (simp add: strlen_less_terminated)
  then obtain rest where buf: "buf = cstr buf @ NUL # rest" by (rule terminated_split)
  show ?thesis
  proof (cases "strlen buf = n")
    case True
    then show ?thesis using assms by (simp add: cstr_poke_nul strlen_def)
  next
    case False
    then obtain k where "n = strlen buf + Suc k"
      using assms(2) by (metis add_Suc_right le_neq_implies_less less_iff_Suc_add)
    then have "poke (cstr buf @ NUL # rest) n NUL = cstr buf @ NUL # poke rest k NUL"
      by (simp add: poke_def strlen_def)
    then show ?thesis
      using buf by (metis cstr_append_nul plain_cstr)
  qed
qed

subsection \<open>Comparing and searching\<close>

lemma strncmp_eq_refl [simp]: "strncmp_eq n a a"
  by (simp add: strncmp_eq_def)

lemma strncmp_eq_sym: "strncmp_eq n a b \<Longrightarrow> strncmp_eq n b a"
  by (simp add: strncmp_eq_def)

lemma strncmp_eq_trans: "strncmp_eq n a b \<Longrightarrow> strncmp_eq n b c \<Longrightarrow> strncmp_eq n a c"
  by (simp add: strncmp_eq_def)

lemma strncmp_eq_code: "strncmp_eq n a b \<longleftrightarrow> take n (cstr a) = take n (cstr b)"
  by (rule strncmp_eq_def)

lemma find_sub_Some:
  "find_sub s p = Some i \<Longrightarrow> i + length p \<le> length s \<and> take (length p) (drop i s) = p"
proof (induction s arbitrary: i)
  case Nil
  then show ?case by (simp split: if_splits)
next
  case (Cons c s)
  then show ?case
    by (force simp: is_prefix_def split: if_splits
        dest: arg_cong [where f = length and x = "take (length p) (c # s)"])
qed

lemma find_sub_append:
  assumes "\<And>i. i < length a \<Longrightarrow> \<not> is_prefix p (drop i (a @ p @ b))"
  shows "find_sub (a @ p @ b) p = Some (length a)"
  using assms
proof (induction a)
  case Nil
  show ?case
  proof (cases "p @ b")
    case Nil
    then show ?thesis by simp
  next
    case (Cons d s)
    moreover have "take (length p) (p @ b) = p" by simp
    ultimately show ?thesis by (simp add: is_prefix_def)
  qed
next
  case (Cons c a)
  have "\<not> is_prefix p (drop 0 ((c # a) @ p @ b))"
    using Cons.prems [of 0] by simp
  moreover have "find_sub (a @ p @ b) p = Some (length a)"
  proof (rule Cons.IH)
    fix i assume "i < length a"
    then show "\<not> is_prefix p (drop i (a @ p @ b))"
      using Cons.prems [of "Suc i"] by simp
  qed
  ultimately show ?case by simp
qed

section \<open>C integers\<close>

text \<open>
  \<^verbatim>\<open>/\<close> and \<^verbatim>\<open>%\<close> of C round towards zero: \<open>sdiv\<close> and \<open>smod\<close> of the library.
  \<open>chr_of_int\<close> is the conversion of an \<^verbatim>\<open>int\<close> to \<^verbatim>\<open>char\<close>, which keeps the low eight bits.
\<close>

definition chr_of_int :: "int \<Rightarrow> char" where
  "chr_of_int n = char_of (n mod 256)"

definition int_of_chr :: "char \<Rightarrow> int" where
  "int_of_chr c = of_char c"

lemma smod_nonneg: "0 \<le> a \<Longrightarrow> 0 < b \<Longrightarrow> a smod b = a mod (b::int)"
  by (simp add: signed_modulo_int_def signed_divide_int_def sgn_if minus_mult_div_eq_mod [symmetric]
      algebra_simps)

lemma sdiv_nonneg: "0 \<le> a \<Longrightarrow> 0 < b \<Longrightarrow> a sdiv b = a div (b::int)"
  by (auto simp: signed_divide_int_def sgn_if)

text \<open>The low byte of a small integer.\<close>

lemma uint_u8_of_int: "0 \<le> n \<Longrightarrow> n < 256 \<Longrightarrow> uint (word_of_int n :: u8) = n"
  by (simp add: uint_word_of_int)

lemma unat_u8_of_nat: "n < 256 \<Longrightarrow> unat (of_nat n :: u8) = n"
  by (simp add: unat_of_nat)

lemma unat_u8_less: "unat (x :: u8) < 256"
proof -
  have "unat x < 2 ^ LENGTH(8)" by (rule unsigned_less)
  then show ?thesis by simp
qed

lemma unat_u8_add: "unat (x :: u8) + n < 256 \<Longrightarrow> unat (x + of_nat n) = unat x + n"
  by (simp add: unat_word_ariths unat_of_nat)

text \<open>The signed value of a word of 32 bits.\<close>

lemma sint_32: "sint (i :: u32) = (if uint i < 2 ^ 31 then uint i else uint i - 2 ^ 32)"
proof -
  have r: "0 \<le> uint i" "uint i < 2 ^ 32" using unsigned_less [of i, where 'a = int] by simp_all
  show ?thesis
  proof (cases "uint i < 2 ^ 31")
    case True
    then show ?thesis using signed_take_bit_int_eq_self [of 31 "uint i"] r(1) by (simp add: sint_uint)
  next
    case False
    have "signed_take_bit 31 (uint i) = signed_take_bit 31 (uint i - 2 ^ 32)"
      by (simp add: signed_take_bit_eq_iff_take_bit_eq take_bit_eq_mod)
    also have "\<dots> = uint i - 2 ^ 32" using False r by (intro signed_take_bit_int_eq_self) simp_all
    finally show ?thesis using False by (simp add: sint_uint)
  qed
qed

end
