(* ===== verification/NetTypes.thy ===== *)
theory NetTypes
  imports Prelude
begin

text \<open>
  The data of the Sigfox application: the sizes and timeouts of \<^verbatim>\<open>src/platform.h\<close> and
  \<^verbatim>\<open>src/sigfox.h\<close>, the zone bits of a country, and the structs of \<^verbatim>\<open>src/sensor.h\<close>, \<^verbatim>\<open>src/uart.h\<close> and
  \<^verbatim>\<open>src/wisol.h\<close>. Field names carry the struct's prefix (\<open>sm\<close> SensorMsg, \<open>um\<close> UARTMsg,
  \<open>uc\<close> UARTContext, \<open>cmd\<close> NetworkCmd, \<open>nc\<close> NetworkContext).
\<close>

section \<open>Sizes and timeouts\<close>

abbreviation MAX_SENSOR_COUNT :: nat where "MAX_SENSOR_COUNT \<equiv> 3"
abbreviation MAX_PORT_COUNT :: nat where "MAX_PORT_COUNT \<equiv> 4"
abbreviation MAX_UART_SEND_MSG_SIZE :: nat where "MAX_UART_SEND_MSG_SIZE \<equiv> 35"
abbreviation MAX_UART_RESPONSE_MSG_SIZE :: nat where "MAX_UART_RESPONSE_MSG_SIZE \<equiv> 36"
abbreviation MAX_DEVICE_ID_SIZE :: nat where "MAX_DEVICE_ID_SIZE \<equiv> 8"
abbreviation MAX_DEVICE_CODE_SIZE :: nat where "MAX_DEVICE_CODE_SIZE \<equiv> 16"
abbreviation MAX_MESSAGE_SIZE :: nat where "MAX_MESSAGE_SIZE \<equiv> 12"
abbreviation MAX_SENSOR_DATA_SIZE :: nat where "MAX_SENSOR_DATA_SIZE \<equiv> 3"
abbreviation MAX_SENSOR_NAME_SIZE :: nat where "MAX_SENSOR_NAME_SIZE \<equiv> 3"
abbreviation MAX_NETWORK_CMD_LIST_SIZE :: nat where "MAX_NETWORK_CMD_LIST_SIZE \<equiv> 5"

abbreviation COMMAND_TIMEOUT :: u32 where "COMMAND_TIMEOUT \<equiv> 10000"
abbreviation UPLINK_TIMEOUT :: u32 where "UPLINK_TIMEOUT \<equiv> 20000"
abbreviation DOWNLINK_TIMEOUT :: u32 where "DOWNLINK_TIMEOUT \<equiv> 60000"
abbreviation MAX_TIMEOUT :: u32 where "MAX_TIMEOUT \<equiv> DOWNLINK_TIMEOUT"
abbreviation SEND_INTERVAL :: u32 where "SEND_INTERVAL \<equiv> 20000"

abbreviation SENSOR_NOT_READY :: u8 where "SENSOR_NOT_READY \<equiv> 255"

definition BEGIN_SENSOR_NAME :: string where "BEGIN_SENSOR_NAME = ''000''"
definition RESPONSE_SENSOR_NAME :: string where "RESPONSE_SENSOR_NAME = ''RES''"

section \<open>Zones\<close>

definition RCZ_MASK :: int where "RCZ_MASK = push_bit 14 3"
definition RCZ1 :: int where "RCZ1 = push_bit 14 0"
definition RCZ2 :: int where "RCZ2 = push_bit 14 1"
definition RCZ3 :: int where "RCZ3 = push_bit 14 2"
definition RCZ4 :: int where "RCZ4 = push_bit 14 3"

text \<open>The value of an enumerator: zone in bits 14 and 15, the letters in bits 0 to 6 and 7 to 13.\<close>

definition country_enum :: "int \<Rightarrow> char \<Rightarrow> char \<Rightarrow> int" where
  "country_enum rcz a b = rcz + int_of_chr a + push_bit 7 (int_of_chr b)"

section \<open>Sensor messages\<close>

text \<open>
  A sensor value is a C \<^verbatim>\<open>float\<close>. A finite single-precision value is \<open>m * 2 ^ e\<close> with an integer
  significand of at most 24 bits.
\<close>

datatype f32 = F32 (mantissa: int) (exponent: int)

abbreviation f32_zero :: f32 where "f32_zero \<equiv> F32 0 0"

record SensorMsg =
  sm_signal :: u8
  sm_name :: "char list"
  sm_data :: "f32 list"
  sm_count :: u8

definition zero_SensorMsg :: SensorMsg where
  "zero_SensorMsg = \<lparr>sm_signal = 0, sm_name = replicate (MAX_SENSOR_NAME_SIZE + 1) NUL,
     sm_data = replicate MAX_SENSOR_DATA_SIZE f32_zero, sm_count = 0\<rparr>"

text \<open>The arrays of a message have the lengths of the struct, and its name is terminated.\<close>

definition sensor_msg_wf :: "SensorMsg \<Rightarrow> bool" where
  "sensor_msg_wf m \<longleftrightarrow> length (sm_name m) = MAX_SENSOR_NAME_SIZE + 1 \<and> terminated (sm_name m) \<and>
     length (sm_data m) = MAX_SENSOR_DATA_SIZE"

section \<open>UART messages and context\<close>

record UARTMsg =
  um_sendData :: "char list"
  um_timeout :: u32
  um_markerChar :: char
  um_expectedMarkerCount :: u8
  um_successEvent :: u8
  um_failureEvent :: u8
  um_responseMsg :: "SensorMsg option"
  um_responseTaskID :: u8

record UARTContext =
  uc_status :: bool
  uc_sendIndex :: nat
  uc_sentTime :: u32
  uc_response :: "char list"
  uc_actualMarkerCount :: u8
  uc_msg :: "UARTMsg option"

section \<open>Wisol commands and network context\<close>

text \<open>
  The function pointers of the source become the enumeration of the functions they point to. A
  pointer to a static buffer is an optional token: the buffer itself is kept once, in the state.
\<close>

datatype process_func = GetID | GetPAC | CheckChannel | GetDownlink

datatype static_ptr = StaticMsg | StaticCmdList | UartResponse

record NetworkCmd =
  cmd_sendData :: "string option"
  cmd_expectedMarkerCount :: u8
  cmd_processFunc :: "process_func option"
  cmd_payload :: "string option"
  cmd_sendData2 :: "string option"

definition endOfList :: NetworkCmd where
  "endOfList = \<lparr>cmd_sendData = None, cmd_expectedMarkerCount = 0, cmd_processFunc = None,
     cmd_payload = None, cmd_sendData2 = None\<rparr>"

record NetworkContext =
  nc_uartTaskID :: u8
  nc_zone :: int
  nc_country :: int
  nc_useEmulator :: bool
  nc_device :: "char list"
  nc_pac :: "char list"
  nc_status :: bool
  nc_pendingResponse :: bool
  nc_pendingProcessFunc :: "process_func option"
  nc_lastSend :: u32
  nc_msg :: "static_ptr option"
  nc_downlinkData :: "static_ptr option"
  nc_cmdList :: "static_ptr option"
  nc_cmdIndex :: nat

section \<open>Facts about the data\<close>

lemma int_of_chr_bounds: "0 \<le> int_of_chr c" "int_of_chr c < 256"
proof -
  have "of_char c mod (256 :: int) = of_char c" by simp
  then have "int_of_chr c = int_of_chr c mod 256" by (simp add: int_of_chr_def)
  then show "0 \<le> int_of_chr c" "int_of_chr c < 256"
    using pos_mod_bound [of 256 "int_of_chr c"] pos_mod_sign [of 256 "int_of_chr c"] by simp_all
qed

lemma int_of_chr_inject: "int_of_chr a = int_of_chr b \<longleftrightarrow> a = b"
  by (simp add: int_of_chr_def)

text \<open>Masking with \<open>RCZ_MASK\<close> keeps bits 14 and 15.\<close>

lemma and_RCZ_MASK: "n AND RCZ_MASK = 16384 * (n div 16384 mod 4)"
proof -
  have m: "RCZ_MASK = push_bit 14 (mask 2)" by (simp add: RCZ_MASK_def mask_eq_exp_minus_1)
  have "n AND RCZ_MASK = push_bit 14 (take_bit 2 (drop_bit 14 n))"
    unfolding m by (rule bit_eqI) (auto simp: bit_simps)
  then show ?thesis by (simp add: push_bit_eq_mult take_bit_eq_mod drop_bit_eq_div)
qed

lemma zone_of_enum:
  assumes "rcz \<in> {RCZ1, RCZ2, RCZ3, RCZ4}" "int_of_chr a < 128" "int_of_chr b < 128"
  shows "country_enum rcz a b AND RCZ_MASK = rcz"
proof -
  obtain k where k: "rcz = 16384 * k" "0 \<le> k" "k < 4"
    using assms(1) by (auto simp: RCZ1_def RCZ2_def RCZ3_def RCZ4_def push_bit_eq_mult)
  let ?l = "int_of_chr a + 128 * int_of_chr b"
  have "0 \<le> ?l" "?l < 16384"
    using assms(2,3) int_of_chr_bounds [of a] int_of_chr_bounds [of b] by linarith+
  moreover have "country_enum rcz a b = ?l + k * 16384"
    using k by (simp add: country_enum_def push_bit_eq_mult)
  ultimately have "country_enum rcz a b div 16384 = k"
    by simp
  then show ?thesis
    using k by (simp add: and_RCZ_MASK)
qed

lemma sensor_msg_wf_zero [simp]: "sensor_msg_wf zero_SensorMsg"
  by (simp add: sensor_msg_wf_def zero_SensorMsg_def terminated_def)

end
