(* ===== verification/Countries.thy ===== *)
theory Countries
  imports NetTypes
begin

text \<open>
  The countries of \<^verbatim>\<open>src/sigfox.h\<close>: every enumerator with its zone and its two letters. The zone a
  device uses is \<^verbatim>\<open>country & RCZ_MASK\<close> (\<^verbatim>\<open>setup_wisol\<close>).
\<close>

datatype Country =
    COUNTRY_AR | COUNTRY_AU | COUNTRY_BE | COUNTRY_BR | COUNTRY_CL | COUNTRY_CO
  | COUNTRY_CR | COUNTRY_HR | COUNTRY_CZ | COUNTRY_DK | COUNTRY_EC | COUNTRY_SV
  | COUNTRY_EE | COUNTRY_FI | COUNTRY_FR | COUNTRY_GF | COUNTRY_PF | COUNTRY_DE
  | COUNTRY_GP | COUNTRY_HK | COUNTRY_HU | COUNTRY_IR | COUNTRY_IE | COUNTRY_IT
  | COUNTRY_JP | COUNTRY_LU | COUNTRY_MY | COUNTRY_MT | COUNTRY_MQ | COUNTRY_MX
  | COUNTRY_NL | COUNTRY_NC | COUNTRY_NZ | COUNTRY_OM | COUNTRY_PA | COUNTRY_PT
  | COUNTRY_RE | COUNTRY_SG | COUNTRY_SK | COUNTRY_ZA | COUNTRY_KR | COUNTRY_ES
  | COUNTRY_SE | COUNTRY_CH | COUNTRY_TW | COUNTRY_TH | COUNTRY_TN | COUNTRY_GB
  | COUNTRY_AE | COUNTRY_US

text \<open>The zone and the two letters each enumerator is written with, and its value.\<close>

fun country_parts :: "Country \<Rightarrow> int \<times> char \<times> char" where
  "country_parts COUNTRY_AR = (RCZ4, CHR ''A'', CHR ''R'')"
| "country_parts COUNTRY_AU = (RCZ4, CHR ''A'', CHR ''U'')"
| "country_parts COUNTRY_BE = (RCZ1, CHR ''B'', CHR ''E'')"
| "country_parts COUNTRY_BR = (RCZ2, CHR ''B'', CHR ''R'')"
| "country_parts COUNTRY_CL = (RCZ4, CHR ''C'', CHR ''L'')"
| "country_parts COUNTRY_CO = (RCZ4, CHR ''C'', CHR ''O'')"
| "country_parts COUNTRY_CR = (RCZ4, CHR ''C'', CHR ''R'')"
| "country_parts COUNTRY_HR = (RCZ1, CHR ''H'', CHR ''R'')"
| "country_parts COUNTRY_CZ = (RCZ1, CHR ''C'', CHR ''Z'')"
| "country_parts COUNTRY_DK = (RCZ1, CHR ''D'', CHR ''K'')"
| "country_parts COUNTRY_EC = (RCZ4, CHR ''E'', CHR ''C'')"
| "country_parts COUNTRY_SV = (RCZ4, CHR ''S'', CHR ''V'')"
| "country_parts COUNTRY_EE = (RCZ1, CHR ''E'', CHR ''E'')"
| "country_parts COUNTRY_FI = (RCZ1, CHR ''F'', CHR ''I'')"
| "country_parts COUNTRY_FR = (RCZ1, CHR ''F'', CHR ''R'')"
| "country_parts COUNTRY_GF = (RCZ1, CHR ''G'', CHR ''F'')"
| "country_parts COUNTRY_PF = (RCZ1, CHR ''P'', CHR ''F'')"
| "country_parts COUNTRY_DE = (RCZ1, CHR ''D'', CHR ''E'')"
| "country_parts COUNTRY_GP = (RCZ1, CHR ''G'', CHR ''P'')"
| "country_parts COUNTRY_HK = (RCZ4, CHR ''H'', CHR ''K'')"
| "country_parts COUNTRY_HU = (RCZ1, CHR ''H'', CHR ''U'')"
| "country_parts COUNTRY_IR = (RCZ1, CHR ''I'', CHR ''R'')"
| "country_parts COUNTRY_IE = (RCZ1, CHR ''I'', CHR ''E'')"
| "country_parts COUNTRY_IT = (RCZ1, CHR ''I'', CHR ''T'')"
| "country_parts COUNTRY_JP = (RCZ3, CHR ''J'', CHR ''P'')"
| "country_parts COUNTRY_LU = (RCZ1, CHR ''L'', CHR ''U'')"
| "country_parts COUNTRY_MY = (RCZ4, CHR ''M'', CHR ''Y'')"
| "country_parts COUNTRY_MT = (RCZ1, CHR ''M'', CHR ''T'')"
| "country_parts COUNTRY_MQ = (RCZ1, CHR ''M'', CHR ''Q'')"
| "country_parts COUNTRY_MX = (RCZ2, CHR ''M'', CHR ''X'')"
| "country_parts COUNTRY_NL = (RCZ1, CHR ''N'', CHR ''L'')"
| "country_parts COUNTRY_NC = (RCZ1, CHR ''N'', CHR ''C'')"
| "country_parts COUNTRY_NZ = (RCZ4, CHR ''N'', CHR ''Z'')"
| "country_parts COUNTRY_OM = (RCZ1, CHR ''O'', CHR ''M'')"
| "country_parts COUNTRY_PA = (RCZ4, CHR ''P'', CHR ''A'')"
| "country_parts COUNTRY_PT = (RCZ1, CHR ''P'', CHR ''T'')"
| "country_parts COUNTRY_RE = (RCZ1, CHR ''R'', CHR ''E'')"
| "country_parts COUNTRY_SG = (RCZ4, CHR ''S'', CHR ''G'')"
| "country_parts COUNTRY_SK = (RCZ1, CHR ''S'', CHR ''K'')"
| "country_parts COUNTRY_ZA = (RCZ1, CHR ''Z'', CHR ''A'')"
| "country_parts COUNTRY_KR = (RCZ3, CHR ''K'', CHR ''R'')"
| "country_parts COUNTRY_ES = (RCZ1, CHR ''E'', CHR ''S'')"
| "country_parts COUNTRY_SE = (RCZ1, CHR ''S'', CHR ''E'')"
| "country_parts COUNTRY_CH = (RCZ1, CHR ''C'', CHR ''H'')"
| "country_parts COUNTRY_TW = (RCZ4, CHR ''T'', CHR ''W'')"
| "country_parts COUNTRY_TH = (RCZ4, CHR ''T'', CHR ''H'')"
| "country_parts COUNTRY_TN = (RCZ1, CHR ''T'', CHR ''N'')"
| "country_parts COUNTRY_GB = (RCZ1, CHR ''G'', CHR ''B'')"
| "country_parts COUNTRY_AE = (RCZ1, CHR ''A'', CHR ''E'')"
| "country_parts COUNTRY_US = (RCZ2, CHR ''U'', CHR ''S'')"

definition all_countries :: "Country list" where
  "all_countries = [COUNTRY_AR, COUNTRY_AU, COUNTRY_BE, COUNTRY_BR, COUNTRY_CL, COUNTRY_CO, COUNTRY_CR,
    COUNTRY_HR, COUNTRY_CZ, COUNTRY_DK, COUNTRY_EC, COUNTRY_SV, COUNTRY_EE, COUNTRY_FI,
    COUNTRY_FR, COUNTRY_GF, COUNTRY_PF, COUNTRY_DE, COUNTRY_GP, COUNTRY_HK, COUNTRY_HU,
    COUNTRY_IR, COUNTRY_IE, COUNTRY_IT, COUNTRY_JP, COUNTRY_LU, COUNTRY_MY, COUNTRY_MT,
    COUNTRY_MQ, COUNTRY_MX, COUNTRY_NL, COUNTRY_NC, COUNTRY_NZ, COUNTRY_OM, COUNTRY_PA,
    COUNTRY_PT, COUNTRY_RE, COUNTRY_SG, COUNTRY_SK, COUNTRY_ZA, COUNTRY_KR, COUNTRY_ES,
    COUNTRY_SE, COUNTRY_CH, COUNTRY_TW, COUNTRY_TH, COUNTRY_TN, COUNTRY_GB, COUNTRY_AE,
    COUNTRY_US]"

definition country_code :: "Country \<Rightarrow> int" where
  "country_code c = (case country_parts c of (rcz, a, b) \<Rightarrow> country_enum rcz a b)"

section \<open>The encoding can be taken apart\<close>

lemma country_zone_cases: "fst (country_parts c) \<in> {RCZ1, RCZ2, RCZ3, RCZ4}"
  by (cases c) simp_all

lemma country_letters_ascii:
  "int_of_chr (fst (snd (country_parts c))) < 128" "int_of_chr (snd (snd (country_parts c))) < 128"
  by (cases c; simp add: int_of_chr_def)+

lemma country_code_split:
  "country_code c = country_enum (fst (country_parts c)) (fst (snd (country_parts c)))
     (snd (snd (country_parts c)))"
  by (simp add: country_code_def split: prod.split)

lemma country_code_mod:
  "country_code c mod 16384 =
     int_of_chr (fst (snd (country_parts c))) + 128 * int_of_chr (snd (snd (country_parts c)))"
proof -
  obtain rcz a b where p: "country_parts c = (rcz, a, b)" by (metis prod_cases3)
  obtain k where k: "rcz = 16384 * k"
    using country_zone_cases [of c] p
    by (auto simp: RCZ1_def RCZ2_def RCZ3_def RCZ4_def push_bit_eq_mult)
  let ?l = "int_of_chr a + 128 * int_of_chr b"
  have "0 \<le> ?l" "?l < 16384"
    using country_letters_ascii [of c] p int_of_chr_bounds [of a] int_of_chr_bounds [of b]
    by simp_all
  moreover have "country_code c = ?l + k * 16384"
    using p k by (simp add: country_code_def country_enum_def push_bit_eq_mult)
  ultimately show ?thesis using p by simp
qed

lemma country_enums_UNIV: "c \<in> set all_countries"
  by (cases c) (simp_all add: all_countries_def)

lemma inj_country_letters: "inj (\<lambda>c. snd (country_parts c))"
proof -
  have "distinct (map (\<lambda>c. snd (country_parts c)) all_countries)"
    by (simp add: all_countries_def)
  moreover have "set all_countries = UNIV"
    using country_enums_UNIV by blast
  ultimately show ?thesis by (simp add: distinct_map)
qed

lemma base_128_digits:
  assumes "x + 128 * y = u + 128 * (v :: int)" "0 \<le> x" "x < 128" "0 \<le> u" "u < 128"
  shows "x = u \<and> y = v"
proof -
  have "x = (x + 128 * y) mod 128" "u = (u + 128 * v) mod 128"
    using assms(2-5) by simp_all
  then have "x = u" using assms(1) by simp
  with assms(1) show ?thesis by simp
qed

text \<open>
  A country's enumerator determines the country and carries its zone: distinct countries have
  distinct values, and masking a value with \<^verbatim>\<open>RCZ_MASK\<close>, as \<^verbatim>\<open>setup_wisol\<close> does, gives exactly the
  zone the enumerator was declared with.
\<close>

theorem country_code_sound:
  "inj country_code \<and> (\<forall>c. country_code c AND RCZ_MASK = fst (country_parts c))"
proof (intro conjI allI injI)
  fix c
  show "country_code c AND RCZ_MASK = fst (country_parts c)"
    unfolding country_code_split
    by (rule zone_of_enum) (rule country_zone_cases country_letters_ascii)+
next
  fix c d assume "country_code c = country_code d"
  then have e: "int_of_chr (fst (snd (country_parts c))) + 128 * int_of_chr (snd (snd (country_parts c))) =
      int_of_chr (fst (snd (country_parts d))) + 128 * int_of_chr (snd (snd (country_parts d)))"
    by (metis country_code_mod)
  note b = country_letters_ascii [of c] country_letters_ascii [of d]
    int_of_chr_bounds [of "fst (snd (country_parts c))"]
    int_of_chr_bounds [of "fst (snd (country_parts d))"]
  have "snd (country_parts c) = snd (country_parts d)"
    using base_128_digits [OF e] b by (simp add: prod_eq_iff int_of_chr_inject)
  then show "c = d" by (rule injD [OF inj_country_letters])
qed

end
