(* ===== verification/WisolCmd.thy ===== *)
theory WisolCmd
  imports NetTypes
begin

text \<open>
  \<^verbatim>\<open>src/wisol.cpp\<close>, the part below the Network Task: the list of Wisol AT commands (\<^verbatim>\<open>addCmd\<close>,
  \<^verbatim>\<open>getCmdIndex\<close>), the Begin and Send Steps that fill it, the functions that process a response
  (\<^verbatim>\<open>getID\<close>, \<^verbatim>\<open>getPAC\<close>, \<^verbatim>\<open>checkChannel\<close>, \<^verbatim>\<open>getDownlink\<close>, \<^verbatim>\<open>processResponse\<close>) and the conversion of a
  command to a UART message. The static buffers the functions share are the fields of \<open>Net\<close>.
\<close>

section \<open>Commands\<close>

abbreviation CMD_NONE :: string where "CMD_NONE \<equiv> ''AT''"
abbreviation CMD_OUTPUT_POWER_MAX :: string where "CMD_OUTPUT_POWER_MAX \<equiv> ''ATS302=15''"
abbreviation CMD_GET_CHANNEL :: string where "CMD_GET_CHANNEL \<equiv> ''AT$GI?''"
abbreviation CMD_RESET_CHANNEL :: string where "CMD_RESET_CHANNEL \<equiv> ''AT$RC''"
abbreviation CMD_SEND_MESSAGE :: string where "CMD_SEND_MESSAGE \<equiv> ''AT$SF=''"
abbreviation CMD_SEND_MESSAGE_RESPONSE :: string where "CMD_SEND_MESSAGE_RESPONSE \<equiv> '',1''"
abbreviation CMD_GET_ID :: string where "CMD_GET_ID \<equiv> ''AT$I=10''"
abbreviation CMD_GET_PAC :: string where "CMD_GET_PAC \<equiv> ''AT$I=11''"
abbreviation CMD_EMULATOR_DISABLE :: string where "CMD_EMULATOR_DISABLE \<equiv> ''ATS410=0''"
abbreviation CMD_EMULATOR_ENABLE :: string where "CMD_EMULATOR_ENABLE \<equiv> ''ATS410=1''"

abbreviation END_OF_RESPONSE :: char where "END_OF_RESPONSE \<equiv> CHR 0x0D"

definition mk_cmd :: "string \<Rightarrow> u8 \<Rightarrow> process_func option \<Rightarrow> string option \<Rightarrow> string option \<Rightarrow> NetworkCmd"
where
  "mk_cmd send markers f payload send2 = \<lparr>cmd_sendData = Some send, cmd_expectedMarkerCount = markers,
     cmd_processFunc = f, cmd_payload = payload, cmd_sendData2 = send2\<rparr>"

text \<open>
  \<^verbatim>\<open>getCmdIndex\<close>: the loop reads \<^verbatim>\<open>list[i]\<close> before it compares \<open>i\<close> with the size, so \<open>i\<close> reaches at
  most \<open>listSize - 1\<close>. Subtraction on \<open>nat\<close> stops at 0, which is the \<^verbatim>\<open>if (i < 0) i = 0\<close> of the source.
\<close>

function cmdIndexFrom :: "NetworkCmd list \<Rightarrow> nat \<Rightarrow> nat \<Rightarrow> nat" where
  "cmdIndexFrom list listSize i =
     (if cmd_sendData (list ! i) \<noteq> None \<and> i < listSize - 1
      then cmdIndexFrom list listSize (Suc i) else i)"
  by pat_completeness auto
termination by (relation "measure (\<lambda>(_, n, i). n - i)") auto

declare cmdIndexFrom.simps [simp del]

definition getCmdIndex :: "NetworkCmd list \<Rightarrow> nat \<Rightarrow> nat" where
  "getCmdIndex list listSize =
     (let i = cmdIndexFrom list listSize 0 in if i \<ge> listSize - 1 then listSize - 2 else i)"

definition addCmd :: "NetworkCmd list \<Rightarrow> nat \<Rightarrow> NetworkCmd \<Rightarrow> NetworkCmd list" where
  "addCmd list listSize cmd =
     (let i = getCmdIndex list listSize in poke (poke list i cmd) (Suc i) endOfList)"

section \<open>Steps\<close>

definition getStepBegin :: "NetworkContext \<Rightarrow> NetworkCmd list \<Rightarrow> nat \<Rightarrow> NetworkCmd list" where
  "getStepBegin context list listSize =
     (let list = addCmd list listSize
            (mk_cmd (if nc_useEmulator context then CMD_EMULATOR_ENABLE else CMD_EMULATOR_DISABLE)
               1 None None None);
          list = addCmd list listSize (mk_cmd CMD_GET_ID 1 (Some GetID) None None)
      in addCmd list listSize (mk_cmd CMD_GET_PAC 1 (Some GetPAC) None None))"

definition getStepPowerChannel :: "NetworkContext \<Rightarrow> NetworkCmd list \<Rightarrow> nat \<Rightarrow> NetworkCmd list" where
  "getStepPowerChannel context list listSize =
     (if nc_zone context = RCZ1 \<or> nc_zone context = RCZ3 then
        addCmd list listSize (mk_cmd CMD_OUTPUT_POWER_MAX 1 None None None)
      else if nc_zone context = RCZ2 \<or> nc_zone context = RCZ4 then
        addCmd (addCmd list listSize (mk_cmd CMD_GET_CHANNEL 1 (Some CheckChannel) None None))
          listSize (mk_cmd CMD_RESET_CHANNEL 1 None None None)
      else list)"

definition getStepSend ::
  "NetworkContext \<Rightarrow> NetworkCmd list \<Rightarrow> nat \<Rightarrow> string \<Rightarrow> bool \<Rightarrow> NetworkCmd list" where
  "getStepSend context list listSize payload enableDownlink =
     (let list = getStepPowerChannel context list listSize;
          markers = (if enableDownlink then 2 else 1);
          processFunc = (if enableDownlink then Some GetDownlink else None);
          sendData2 = (if enableDownlink then Some CMD_SEND_MESSAGE_RESPONSE else None)
      in addCmd list listSize (mk_cmd CMD_SEND_MESSAGE markers processFunc (Some payload) sendData2))"

section \<open>Response processing\<close>

text \<open>
  The data the response functions work on: the context of the Network Task, its static command
  list and the context of the UART Task, which holds the response. A result of None is a
  dereference of the null \<^verbatim>\<open>cmdList\<close> pointer.
\<close>

record Net =
  ns_ctx :: NetworkContext
  ns_cmdList :: "NetworkCmd list"
  ns_uart :: UARTContext

definition getID :: "Net \<Rightarrow> char list \<Rightarrow> Net \<times> bool" where
  "getID s response =
     (let d = strncpy (nc_device (ns_ctx s)) response MAX_DEVICE_ID_SIZE
      in (s\<lparr>ns_ctx := (ns_ctx s)\<lparr>nc_device := poke d MAX_DEVICE_ID_SIZE NUL\<rparr>\<rparr>, True))"

definition getPAC :: "Net \<Rightarrow> char list \<Rightarrow> Net \<times> bool" where
  "getPAC s response =
     (let d = strncpy (nc_pac (ns_ctx s)) response MAX_DEVICE_CODE_SIZE
      in (s\<lparr>ns_ctx := (ns_ctx s)\<lparr>nc_pac := poke d MAX_DEVICE_CODE_SIZE NUL\<rparr>\<rparr>, True))"

definition checkChannel :: "Net \<Rightarrow> char list \<Rightarrow> (Net \<times> bool) option" where
  "checkChannel s response =
     (if strlen response < 3 then Some (s, False)
      else
        let x = int_of_chr (charAt response 0) - int_of_chr CHR ''0'';
            y = int_of_chr (charAt response 2) - int_of_chr CHR ''0''
        in if x \<noteq> 0 \<and> y \<ge> 3 then
             let cmdIndex = Suc (nc_cmdIndex (ns_ctx s))
             in if cmdIndex \<ge> MAX_NETWORK_CMD_LIST_SIZE then Some (s, False)
                else if nc_cmdList (ns_ctx s) = None then None
                else if cmd_sendData (ns_cmdList s ! cmdIndex) = None then Some (s, False)
                else Some (s\<lparr>ns_cmdList := poke (ns_cmdList s) cmdIndex
                       ((ns_cmdList s ! cmdIndex)\<lparr>cmd_sendData := Some CMD_NONE\<rparr>)\<rparr>, True)
           else Some (s, True))"

text \<open>The loop of \<^verbatim>\<open>getDownlink\<close> that removes spaces and newlines in place.\<close>

function compact :: "char list \<Rightarrow> nat \<Rightarrow> nat \<Rightarrow> char list" where
  "compact response src dst =
     (if src \<ge> MAX_UART_SEND_MSG_SIZE then response
      else if charAt response src = CHR '' '' \<or> charAt response src = CHR 0x0A
        then compact response (Suc src) dst
      else
        let response = (if dst \<noteq> src then poke response dst (charAt response src) else response)
        in if charAt response dst = NUL then response
           else compact response (Suc src) (Suc dst))"
  by pat_completeness auto
termination by (relation "measure (\<lambda>(_, src, _). MAX_UART_SEND_MSG_SIZE - src)") auto

declare compact.simps [simp del]

definition downlinkPrefix :: string where
  "downlinkPrefix = ''OK'' @ [CHR 0x0A] @ ''RX=''"

text \<open>
  \<open>after\<close> points into the buffer that \<^verbatim>\<open>strncat\<close> appends to; the characters are read before they
  are overwritten, since they move to lower addresses.
\<close>

definition getDownlink :: "Net \<Rightarrow> Net \<times> bool" where
  "getDownlink s =
     (let response = uc_response (ns_uart s);
          (response, status) =
            (case strstr response downlinkPrefix of
               Some found \<Rightarrow>
                 (let after = drop (found + strlen downlinkPrefix) response;
                      response = poke response found NUL;
                      response = strncat response after (MAX_UART_SEND_MSG_SIZE - strlen response)
                  in (poke response MAX_UART_SEND_MSG_SIZE NUL, nc_status (ns_ctx s)))
             | None \<Rightarrow> (response, False));
          response = compact response 0 0;
          response = poke response MAX_UART_SEND_MSG_SIZE NUL
      in (s\<lparr>ns_ctx := (ns_ctx s)\<lparr>nc_status := status, nc_downlinkData := Some UartResponse\<rparr>,
            ns_uart := (ns_uart s)\<lparr>uc_response := response\<rparr>\<rparr>, True))"

definition run_process :: "process_func \<Rightarrow> Net \<Rightarrow> (Net \<times> bool) option" where
  "run_process f s =
     (let response = uc_response (ns_uart s)
      in case f of
           GetID \<Rightarrow> Some (getID s response)
         | GetPAC \<Rightarrow> Some (getPAC s response)
         | CheckChannel \<Rightarrow> checkChannel s response
         | GetDownlink \<Rightarrow> Some (getDownlink s))"

definition set_status :: "Net \<Rightarrow> bool \<Rightarrow> Net" where
  "set_status s b = s\<lparr>ns_ctx := (ns_ctx s)\<lparr>nc_status := b\<rparr>\<rparr>"

definition check_uart_status :: "Net \<Rightarrow> Net" where
  "check_uart_status s = (if uc_status (ns_uart s) then s else set_status s False)"

definition processResponse :: "Net \<Rightarrow> Net option" where
  "processResponse s =
     (case nc_pendingProcessFunc (ns_ctx s) of
        None \<Rightarrow> Some (check_uart_status s)
      | Some f \<Rightarrow>
          (case run_process f s of
             None \<Rightarrow> None
           | Some (s', ok) \<Rightarrow> Some (if ok then check_uart_status s' else set_status s' False)))"

section \<open>Conversion to a UART message\<close>

text \<open>
  \<^verbatim>\<open>convertCmdToUART\<close> fills the static buffer \<^verbatim>\<open>uartData\<close> and the message that points to it; the
  message holds the contents of the buffer when it is posted.
\<close>

definition uart_append :: "char list \<Rightarrow> string \<Rightarrow> char list" where
  "uart_append uartData text =
     poke (strncat uartData text (MAX_UART_SEND_MSG_SIZE - strlen uartData)) MAX_UART_SEND_MSG_SIZE NUL"

definition convertCmdToUART ::
  "NetworkCmd \<Rightarrow> UARTMsg \<Rightarrow> char list \<Rightarrow> u8 \<Rightarrow> u8 \<Rightarrow> SensorMsg \<Rightarrow> u8 \<Rightarrow> UARTMsg \<times> char list" where
  "convertCmdToUART cmd uartMsg uartData successEvent0 failureEvent0 responseMsg responseTaskID =
     (let uartData = poke uartData 0 NUL;
          uartMsg = uartMsg\<lparr>um_timeout := COMMAND_TIMEOUT, um_responseMsg := None\<rparr>;
          uartData = (case cmd_sendData cmd of
              None \<Rightarrow> uartData
            | Some t \<Rightarrow> poke (strncpy uartData t (MAX_UART_SEND_MSG_SIZE - strlen uartData))
                        MAX_UART_SEND_MSG_SIZE NUL);
          (uartData, uartMsg) = (case cmd_payload cmd of
              None \<Rightarrow> (uartData, uartMsg)
            | Some t \<Rightarrow> (uart_append uartData t,
                uartMsg\<lparr>um_timeout := UPLINK_TIMEOUT, um_responseMsg := Some responseMsg,
                  um_responseTaskID := responseTaskID\<rparr>));
          (uartData, uartMsg) = (case cmd_sendData2 cmd of
              None \<Rightarrow> (uartData, uartMsg)
            | Some t \<Rightarrow> (uart_append uartData t, uartMsg\<lparr>um_timeout := DOWNLINK_TIMEOUT\<rparr>));
          uartData = uart_append uartData [END_OF_RESPONSE]
      in (uartMsg\<lparr>um_sendData := uartData, um_markerChar := END_OF_RESPONSE,
            um_expectedMarkerCount := cmd_expectedMarkerCount cmd,
            um_successEvent := successEvent0, um_failureEvent := failureEvent0\<rparr>, uartData))"

definition setup_wisol :: "NetworkContext \<Rightarrow> u8 \<Rightarrow> int \<Rightarrow> bool \<Rightarrow> u32 \<Rightarrow> NetworkContext" where
  "setup_wisol context uartTaskID country0 useEmulator0 millis =
     context\<lparr>nc_uartTaskID := uartTaskID, nc_country := country0, nc_useEmulator := useEmulator0,
       nc_device := poke (nc_device context) 0 NUL, nc_pac := poke (nc_pac context) 0 NUL,
       nc_zone := country0 AND RCZ_MASK,
       nc_lastSend := millis + SEND_INTERVAL + SEND_INTERVAL, nc_pendingResponse := False\<rparr>"

definition createSensorMsg :: "SensorMsg \<Rightarrow> string \<Rightarrow> SensorMsg" where
  "createSensorMsg m name = m\<lparr>sm_count := 0,
     sm_name := poke (strncpy (sm_name m) name MAX_SENSOR_NAME_SIZE) MAX_SENSOR_NAME_SIZE NUL\<rparr>"

end
