(* ===== verification/CmdList.thy ===== *)
theory CmdList
  imports WisolCmd
begin

text \<open>
  The command list as an abstract list: what the Steps of \<^verbatim>\<open>wisol.cpp\<close> rely on when they call
  \<^verbatim>\<open>addCmd\<close> is the interface \<open>command_list\<close>; the array with its end marker provides it.
\<close>

section \<open>The interface\<close>

locale command_list =
  fixes inv :: "'l \<Rightarrow> bool"
    and cmds :: "'l \<Rightarrow> 'c list"
    and add :: "'l \<Rightarrow> 'c \<Rightarrow> 'l"
    and real :: "'c \<Rightarrow> bool"
    and cap :: nat
  assumes add_inv: "inv l \<Longrightarrow> real c \<Longrightarrow> inv (add l c)"
    and cmds_add: "inv l \<Longrightarrow> real c \<Longrightarrow> cmds (add l c) = take (cap - 1) (cmds l) @ [c]"
    and cap_pos: "0 < cap"
begin

lemma cmds_add_room:
  "inv l \<Longrightarrow> real c \<Longrightarrow> length (cmds l) < cap \<Longrightarrow> cmds (add l c) = cmds l @ [c]"
  by (simp add: cmds_add)

lemma length_cmds_add: "inv l \<Longrightarrow> real c \<Longrightarrow> length (cmds (add l c)) \<le> cap"
  using cap_pos by (simp add: cmds_add)

lemma cmds_add_full:
  "inv l \<Longrightarrow> real c \<Longrightarrow> length (cmds l) = cap \<Longrightarrow> cmds (add l c) = butlast (cmds l) @ [c]"
  by (simp add: cmds_add butlast_conv_take)

lemma foldl_add:
  assumes "inv l" "list_all real cs" "length (cmds l) + length cs \<le> cap"
  shows "inv (foldl add l cs)" "cmds (foldl add l cs) = cmds l @ cs"
proof -
  have "inv (foldl add l cs) \<and> cmds (foldl add l cs) = cmds l @ cs"
    using assms
  proof (induction cs arbitrary: l)
    case Nil
    then show ?case by simp
  next
    case (Cons c cs)
    then show ?case
      by (simp add: add_inv cmds_add_room)
  qed
  then show "inv (foldl add l cs)" "cmds (foldl add l cs) = cmds l @ cs" by simp_all
qed

end

section \<open>The array\<close>

definition is_cmd :: "NetworkCmd \<Rightarrow> bool" where
  "is_cmd c \<longleftrightarrow> cmd_sendData c \<noteq> None"

definition cmds :: "NetworkCmd list \<Rightarrow> NetworkCmd list" where
  "cmds list = takeWhile is_cmd list"

text \<open>An array of \<open>n\<close> entries that holds an end marker.\<close>

definition cmd_list_wf :: "nat \<Rightarrow> NetworkCmd list \<Rightarrow> bool" where
  "cmd_list_wf n list \<longleftrightarrow> length list = n \<and> length (cmds list) < n"

lemma is_cmd_mk_cmd [simp]: "is_cmd (mk_cmd s m f p t)"
  by (simp add: is_cmd_def mk_cmd_def)

lemma not_is_cmd_endOfList [simp]: "\<not> is_cmd endOfList"
  by (simp add: is_cmd_def endOfList_def)

lemma is_cmd_nth_iff:
  assumes "i \<le> length (cmds list)" "i < length list"
  shows "is_cmd (list ! i) \<longleftrightarrow> i < length (cmds list)"
proof (cases "i < length (cmds list)")
  case True
  then have "list ! i = cmds list ! i" by (simp add: cmds_def takeWhile_nth)
  moreover have "is_cmd (cmds list ! i)"
    using nth_mem [OF True] by (auto simp: cmds_def dest: set_takeWhileD)
  ultimately show ?thesis using True by simp
next
  case False
  with assms have "i = length (cmds list)" by simp
  with assms(2) show ?thesis
    by (simp add: cmds_def nth_length_takeWhile)
qed

lemma cmdIndexFrom_eq:
  assumes "0 < n" "n \<le> length list" "i \<le> n - 1" "i \<le> length (cmds list)"
  shows "cmdIndexFrom list n i = min (length (cmds list)) (n - 1)"
  using assms
proof (induction list n i rule: cmdIndexFrom.induct)
  case (1 list n i)
  have r: "is_cmd (list ! i) \<longleftrightarrow> i < length (cmds list)"
    using "1.prems" by (intro is_cmd_nth_iff) simp_all
  show ?case
  proof (cases "is_cmd (list ! i) \<and> i < n - 1")
    case True
    then have "cmdIndexFrom list n i = cmdIndexFrom list n (Suc i)"
      by (subst cmdIndexFrom.simps) (simp add: is_cmd_def)
    with True r "1.prems" "1.IH" show ?thesis
      by (simp add: is_cmd_def)
  next
    case False
    then have "cmdIndexFrom list n i = i"
      by (subst cmdIndexFrom.simps) (auto simp: is_cmd_def)
    with False r "1.prems" show ?thesis by auto
  qed
qed

lemma getCmdIndex_eq:
  assumes "2 \<le> n" "n \<le> length list"
  shows "getCmdIndex list n = min (length (cmds list)) (n - 2)"
proof -
  have "cmdIndexFrom list n 0 = min (length (cmds list)) (n - 1)"
    using assms by (simp add: cmdIndexFrom_eq)
  then show ?thesis
    using assms by (cases "length (cmds list) \<ge> n - 1") (simp_all add: getCmdIndex_def)
qed

lemma cmds_poke_end:
  assumes "i \<le> length (cmds list)" "Suc i < length list" "is_cmd c"
  shows "cmds (poke (poke list i c) (Suc i) endOfList) = take i (cmds list) @ [c]"
proof -
  have t: "take i list = take i (cmds list)"
    using assms(1) unfolding cmds_def by (metis min.absorb1 take_take takeWhile_eq_take)
  have "poke (poke list i c) (Suc i) endOfList =
      take i (cmds list) @ c # endOfList # drop (Suc (Suc i)) list"
    using assms(1,2) t by (simp add: poke_def)
  moreover have "takeWhile is_cmd (take i (cmds list) @ c # endOfList # rest) =
      take i (cmds list) @ [c]" for rest
  proof -
    have "\<And>x. x \<in> set (take i (cmds list)) \<Longrightarrow> is_cmd x"
      by (auto simp: cmds_def dest!: in_set_takeD set_takeWhileD)
    then show ?thesis using assms(3) by (simp add: takeWhile_append2)
  qed
  ultimately show ?thesis unfolding cmds_def [of "poke _ _ _"] by simp
qed

lemma cmds_addCmd:
  assumes "cmd_list_wf n list" "2 \<le> n" "is_cmd c"
  shows "cmds (addCmd list n c) = take (n - 2) (cmds list) @ [c]"
    and "length (addCmd list n c) = n"
proof -
  let ?i = "min (length (cmds list)) (n - 2)"
  have i: "getCmdIndex list n = ?i"
    using assms by (simp add: getCmdIndex_eq cmd_list_wf_def)
  have "take ?i (cmds list) = take (n - 2) (cmds list)" by (simp add: min_def)
  then show "cmds (addCmd list n c) = take (n - 2) (cmds list) @ [c]"
    using assms cmds_poke_end [of ?i list c] i by (simp add: addCmd_def cmd_list_wf_def Let_def)
  show "length (addCmd list n c) = n"
    using assms i by (simp add: addCmd_def cmd_list_wf_def length_poke Let_def)
qed

lemma cmd_list_wf_addCmd:
  "cmd_list_wf n list \<Longrightarrow> 2 \<le> n \<Longrightarrow> is_cmd c \<Longrightarrow> cmd_list_wf n (addCmd list n c)"
  unfolding cmd_list_wf_def [of n "addCmd list n c"] by (simp add: cmds_addCmd)

text \<open>The list of \<^verbatim>\<open>wisol.cpp\<close> has five entries, the end marker included.\<close>

interpretation wl: command_list "cmd_list_wf MAX_NETWORK_CMD_LIST_SIZE" cmds
    "\<lambda>list. addCmd list MAX_NETWORK_CMD_LIST_SIZE" is_cmd "MAX_NETWORK_CMD_LIST_SIZE - 1"
  by unfold_locales (simp_all add: cmds_addCmd cmd_list_wf_addCmd)

text \<open>Clearing the list, as \<^verbatim>\<open>network_task\<close> does: \<^verbatim>\<open>cmdList[0] = endOfList\<close>.\<close>

lemma cmds_clear:
  assumes "length list = MAX_NETWORK_CMD_LIST_SIZE"
  shows "cmds (poke list 0 endOfList) = []" "cmd_list_wf MAX_NETWORK_CMD_LIST_SIZE (poke list 0 endOfList)"
  using assms by (simp_all add: cmds_def cmd_list_wf_def poke_def)

section \<open>The commands of the Steps\<close>

definition begin_cmds :: "bool \<Rightarrow> NetworkCmd list" where
  "begin_cmds emulator =
    [mk_cmd (if emulator then CMD_EMULATOR_ENABLE else CMD_EMULATOR_DISABLE) 1 None None None,
     mk_cmd CMD_GET_ID 1 (Some GetID) None None,
     mk_cmd CMD_GET_PAC 1 (Some GetPAC) None None]"

definition zone_cmds :: "int \<Rightarrow> NetworkCmd list" where
  "zone_cmds zone =
    (if zone \<in> {RCZ1, RCZ3} then [mk_cmd CMD_OUTPUT_POWER_MAX 1 None None None]
     else if zone \<in> {RCZ2, RCZ4} then
       [mk_cmd CMD_GET_CHANNEL 1 (Some CheckChannel) None None,
        mk_cmd CMD_RESET_CHANNEL 1 None None None]
     else [])"

definition send_cmd :: "string \<Rightarrow> bool \<Rightarrow> NetworkCmd" where
  "send_cmd payload downlink = (if downlink
     then mk_cmd CMD_SEND_MESSAGE 2 (Some GetDownlink) (Some payload) (Some CMD_SEND_MESSAGE_RESPONSE)
     else mk_cmd CMD_SEND_MESSAGE 1 None (Some payload) None)"

lemma getStepBegin_foldl:
  "getStepBegin ctx list n = foldl (\<lambda>list. addCmd list n) list (begin_cmds (nc_useEmulator ctx))"
  by (simp add: getStepBegin_def begin_cmds_def)

lemma getStepSend_foldl:
  "getStepSend ctx list n payload d =
     foldl (\<lambda>list. addCmd list n) list (zone_cmds (nc_zone ctx) @ [send_cmd payload d])"
  by (simp add: getStepSend_def getStepPowerChannel_def zone_cmds_def send_cmd_def)

lemma zone_cmds_real: "list_all is_cmd (zone_cmds z @ [send_cmd p d])"
  by (simp add: zone_cmds_def send_cmd_def)

lemma length_zone_cmds: "length (zone_cmds z) \<le> 2"
  by (simp add: zone_cmds_def)

text \<open>
  \<^verbatim>\<open>addCmd\<close> never stores outside a list of \<open>n \<ge> 2\<close> entries, keeps it terminated, and appends
  the command while there is room for it and the end marker; when the list is full, the new
  command replaces the last one.
\<close>

theorem addCmd_bounded_append:
  assumes "length list = n" "length (cmds list) < n" "2 \<le> n" "cmd_sendData c \<noteq> None"
  shows "length (addCmd list n c) = n \<and> length (cmds (addCmd list n c)) < n \<and>
     cmds (addCmd list n c) = (if length (cmds list) < n - 1 then cmds list @ [c]
                               else butlast (cmds list) @ [c])"
proof -
  have wf: "cmd_list_wf n list" and c: "is_cmd c"
    using assms by (simp_all add: cmd_list_wf_def is_cmd_def)
  have "cmds (addCmd list n c) = take (n - 2) (cmds list) @ [c]"
    using wf c assms(3) by (simp add: cmds_addCmd)
  moreover have "length (cmds list) \<ge> n - 1 \<Longrightarrow> take (n - 2) (cmds list) = butlast (cmds list)"
  proof -
    assume "length (cmds list) \<ge> n - 1"
    with assms(2) have "length (cmds list) = n - 1" by simp
    moreover have "n - 1 - 1 = n - 2" by simp
    ultimately show ?thesis by (simp add: butlast_conv_take)
  qed
  ultimately show ?thesis
    using wf c assms(3) cmds_addCmd(2) [OF wf assms(3) c] by auto
qed

lemma addCmd_bounded_append_witness:
  "length (addCmd [endOfList, endOfList] 2 (mk_cmd CMD_NONE 1 None None None)) = 2"
  using addCmd_bounded_append [of "[endOfList, endOfList]" 2 "mk_cmd CMD_NONE 1 None None None"]
  by (simp add: cmds_def mk_cmd_def)

lemma step_cmds_begin:
  assumes "length list = MAX_NETWORK_CMD_LIST_SIZE"
  shows "cmds (getStepBegin ctx (poke list 0 endOfList) MAX_NETWORK_CMD_LIST_SIZE) =
      begin_cmds (nc_useEmulator ctx)"
    and "cmd_list_wf MAX_NETWORK_CMD_LIST_SIZE
      (getStepBegin ctx (poke list 0 endOfList) MAX_NETWORK_CMD_LIST_SIZE)"
  using wl.foldl_add [OF cmds_clear(2) [OF assms], of "begin_cmds (nc_useEmulator ctx)"]
  by (simp_all add: cmds_clear [OF assms] getStepBegin_foldl, simp_all add: begin_cmds_def)

lemma step_cmds_send:
  assumes "length list = MAX_NETWORK_CMD_LIST_SIZE"
  shows "cmds (getStepSend ctx (poke list 0 endOfList) MAX_NETWORK_CMD_LIST_SIZE payload downlink) =
      zone_cmds (nc_zone ctx) @ [send_cmd payload downlink]"
    and "cmd_list_wf MAX_NETWORK_CMD_LIST_SIZE
      (getStepSend ctx (poke list 0 endOfList) MAX_NETWORK_CMD_LIST_SIZE payload downlink)"
  using wl.foldl_add [OF cmds_clear(2) [OF assms], of "zone_cmds (nc_zone ctx) @ [send_cmd payload downlink]"]
    length_zone_cmds [of "nc_zone ctx"] zone_cmds_real [of "nc_zone ctx" payload downlink]
  by (simp_all add: cmds_clear [OF assms] getStepSend_foldl)

text \<open>
  The Begin Step asks for exactly three commands, in this order: emulation mode, device ID,
  PAC; and the Send Step for the commands of the zone (output power in zones 1 and 3, channel check
  and channel reset in zones 2 and 4) followed by the payload with its downlink suffix. With the
  list of five entries nothing is dropped or replaced, whatever the list held before.
\<close>

theorem step_commands:
  assumes "length list = MAX_NETWORK_CMD_LIST_SIZE"
  shows "cmds (getStepBegin ctx (poke list 0 endOfList) MAX_NETWORK_CMD_LIST_SIZE) =
       begin_cmds (nc_useEmulator ctx) \<and>
     cmds (getStepSend ctx (poke list 0 endOfList) MAX_NETWORK_CMD_LIST_SIZE payload downlink) =
       zone_cmds (nc_zone ctx) @ [send_cmd payload downlink]"
  using step_cmds_begin(1) [OF assms] step_cmds_send(1) [OF assms] by simp

lemma step_commands_witness:
  "\<forall>ctx. cmds (getStepBegin ctx (poke (replicate 5 endOfList) 0 endOfList) 5) =
     begin_cmds (nc_useEmulator ctx)"
  using step_commands [of "replicate 5 endOfList"] by simp

end
