(* ===== verification/Response.thy ===== *)
theory Response
  imports CmdList
begin

text \<open>
  What the functions of \<^verbatim>\<open>wisol.cpp\<close> that process a response compute, and the text a command becomes
  on the UART. The buffer of the response has 37 characters, the buffer of the UART data 36.
\<close>

section \<open>Invariant of the shared data\<close>

definition net_wf :: "Net \<Rightarrow> bool" where
  "net_wf s \<longleftrightarrow>
     length (nc_device (ns_ctx s)) = MAX_DEVICE_ID_SIZE + 1 \<and> terminated (nc_device (ns_ctx s)) \<and>
     length (nc_pac (ns_ctx s)) = MAX_DEVICE_CODE_SIZE + 1 \<and> terminated (nc_pac (ns_ctx s)) \<and>
     cmd_list_wf MAX_NETWORK_CMD_LIST_SIZE (ns_cmdList s) \<and>
     length (uc_response (ns_uart s)) = MAX_UART_RESPONSE_MSG_SIZE + 1 \<and>
     terminated (uc_response (ns_uart s))"

section \<open>Removing spaces and newlines\<close>

abbreviation not_blank :: "char \<Rightarrow> bool" where
  "not_blank c \<equiv> c \<noteq> CHR '' '' \<and> c \<noteq> CHR 0x0A"

lemma NUL_not_blank [simp]: "not_blank NUL"
  by (simp add: NUL_def)

lemma compact_done: "MAX_UART_SEND_MSG_SIZE \<le> src \<Longrightarrow> compact buf src dst = buf"
  by (subst compact.simps) simp

lemma compact_blank:
  "src < MAX_UART_SEND_MSG_SIZE \<Longrightarrow> \<not> not_blank (charAt buf src) \<Longrightarrow>
     compact buf src dst = compact buf (Suc src) dst"
  by (subst compact.simps) auto

lemma compact_copy:
  assumes "src < MAX_UART_SEND_MSG_SIZE" "not_blank (charAt buf src)"
    and "b = (if dst \<noteq> src then poke buf dst (charAt buf src) else buf)"
  shows "compact buf src dst = (if charAt b dst = NUL then b else compact b (Suc src) (Suc dst))"
  using assms by (subst compact.simps) (simp add: Let_def)

lemmas compact_cases = compact_done compact_blank compact_copy [OF _ _ refl]

lemma length_compact:
  "dst \<le> src \<Longrightarrow> MAX_UART_SEND_MSG_SIZE \<le> length buf \<Longrightarrow> length (compact buf src dst) = length buf"
proof (induction "MAX_UART_SEND_MSG_SIZE - src" arbitrary: buf src dst rule: less_induct)
  case less
  show ?case
  proof (cases "src < MAX_UART_SEND_MSG_SIZE")
    case True
    then show ?thesis
      using less by (cases "not_blank (charAt buf src)") (auto simp: compact_cases length_poke)
  qed (simp add: compact_done)
qed

text \<open>
  The loop invariant: what is before \<open>dst\<close> is copied, what is from \<open>src\<close> on is still to be read.
\<close>

lemma compact_correct:
  assumes "buf = pre @ mid @ post" "length pre = dst" "length mid = src - dst" "dst \<le> src"
    and "plain pre" "terminated post" "src + strlen post < MAX_UART_SEND_MSG_SIZE"
  shows "cstr (compact buf src dst) = pre @ filter not_blank (cstr post)"
  using assms
proof (induction post arbitrary: buf src dst pre mid)
  case Nil
  then show ?case by (simp add: terminated_def)
next
  case (Cons c cs)
  have lt: "src < MAX_UART_SEND_MSG_SIZE" and at: "charAt buf src = c"
    using Cons.prems by (simp_all add: charAt_def nth_append)
  have cs: "terminated cs" "Suc src + strlen cs < MAX_UART_SEND_MSG_SIZE" if "c \<noteq> NUL"
    using Cons.prems that by (auto simp: terminated_def strlen_def cstr_Cons)
  show ?case
  proof (cases "not_blank c")
    case False
    then have nz: "c \<noteq> NUL" by (auto simp: NUL_def)
    have "cstr (compact buf (Suc src) dst) = pre @ filter not_blank (cstr cs)"
      using Cons.prems cs [OF nz] by (intro Cons.IH [where mid = "mid @ [c]"]) simp_all
    then show ?thesis
      using False nz compact_blank [of src buf dst] lt at by (simp add: cstr_Cons)
  next
    case True
    define b where "b = (if dst \<noteq> src then poke buf dst c else buf)"
    obtain mid' where b: "b = (pre @ [c]) @ mid' @ cs" "length mid' = src - dst"
    proof (cases mid)
      case Nil
      then show ?thesis using that [of "[]"] Cons.prems by (simp add: b_def)
    next
      case (Cons m ms)
      moreover from this have "dst \<noteq> src" using Cons.prems(3) by auto
      ultimately show ?thesis using that [of "ms @ [c]"] Cons.prems by (simp add: b_def poke_def)
    qed
    have at_b: "charAt b dst = c"
      using b Cons.prems(2) by (simp add: charAt_def nth_append)
    have b_at: "b = (if dst \<noteq> src then poke buf dst (charAt buf src) else buf)"
      by (simp add: b_def at)
    have step: "compact buf src dst = (if c = NUL then b else compact b (Suc src) (Suc dst))"
      using compact_copy [OF lt _ b_at] True at at_b by simp
    show ?thesis
    proof (cases "c = NUL")
      case True
      then show ?thesis using step b Cons.prems(5) by (simp add: cstr_append)
    next
      case nz: False
      have "cstr (compact b (Suc src) (Suc dst)) = (pre @ [c]) @ filter not_blank (cstr cs)"
        using Cons.prems cs [OF nz] b nz by (intro Cons.IH [where mid = mid']) simp_all
      then show ?thesis using step nz True by (simp add: cstr_Cons)
    qed
  qed
qed

lemma cstr_compact:
  "terminated buf \<Longrightarrow> strlen buf < MAX_UART_SEND_MSG_SIZE \<Longrightarrow>
     cstr (compact buf 0 0) = filter not_blank (cstr buf)"
  using compact_correct [of buf "[]" "[]" buf 0 0] by simp

section \<open>The downlink response\<close>

lemma strstr_bounds:
  assumes "strstr hay needle = Some i" "plain needle"
  shows "i + length needle \<le> strlen hay" "take (length needle) (drop i (cstr hay)) = needle"
  using find_sub_Some [of "cstr hay" "cstr needle" i] assms
  by (simp_all add: strstr_def strlen_def cstr_plain)

lemma plain_downlinkPrefix [simp]: "plain downlinkPrefix"
  by (simp add: downlinkPrefix_def NUL_def)

lemma length_downlinkPrefix [simp]: "length downlinkPrefix = 6" "strlen downlinkPrefix = 6"
  by (simp_all add: downlinkPrefix_def strlen_def cstr_def NUL_def)

lemma strlen_downlink_found:
  assumes "length R = MAX_UART_RESPONSE_MSG_SIZE + 1" "terminated R"
    and "strstr R downlinkPrefix = Some i"
  shows "i + 6 \<le> strlen R" "strlen R \<le> MAX_UART_RESPONSE_MSG_SIZE"
  using strstr_bounds [OF assms(3)] assms(1) assms(2) [unfolded strlen_less_terminated] by simp_all

text \<open>The response with its prefix cut out, before spaces are removed.\<close>

lemma cut_prefix:
  fixes R i
  defines "R1 \<equiv> poke R i NUL"
  defines "R2 \<equiv> strncat R1 (drop (i + 6) R) (MAX_UART_SEND_MSG_SIZE - strlen R1)"
  defines "R3 \<equiv> poke R2 MAX_UART_SEND_MSG_SIZE NUL"
  assumes R: "length R = MAX_UART_RESPONSE_MSG_SIZE + 1" "terminated R"
    and found: "strstr R downlinkPrefix = Some i"
  shows "cstr R3 = take i (cstr R) @ drop (i + 6) (cstr R)"
    and "length R3 = MAX_UART_RESPONSE_MSG_SIZE + 1" "terminated R3"
    and "strlen R3 + 6 \<le> MAX_UART_RESPONSE_MSG_SIZE"
proof -
  note b = strlen_downlink_found [OF R found]
  have R1: "cstr R1 = take i (cstr R)" "strlen R1 = i" "length R1 = length R"
    using b R by (simp_all add: R1_def cstr_poke_nul strlen_def length_poke)
  have "cstr R2 = cstr R1 @ take (MAX_UART_SEND_MSG_SIZE - strlen R1) (cstr (drop (i + 6) R))"
    unfolding R2_def using R R1 b by (intro cstr_strncat) simp
  then have R2: "cstr R2 = take i (cstr R) @ drop (i + 6) (cstr R)"
    using b by (simp add: R1 cstr_drop take_all strlen_def)
  have "length R2 = length R"
    unfolding R2_def using R R1 b by (subst length_strncat) simp_all
  then show "length R3 = MAX_UART_RESPONSE_MSG_SIZE + 1" "terminated R3"
    using R by (simp_all add: R3_def length_poke terminated_poke_nul)
  show R3: "cstr R3 = take i (cstr R) @ drop (i + 6) (cstr R)"
    using R2 b \<open>length R2 = length R\<close> R by (simp add: R3_def cstr_poke_nul_any take_all strlen_def)
  show "strlen R3 + 6 \<le> MAX_UART_RESPONSE_MSG_SIZE"
    using b by (simp add: strlen_def R3)
qed

lemma getDownlink_found:
  assumes wf: "net_wf s" and found: "strstr (uc_response (ns_uart s)) downlinkPrefix = Some i"
  shows "cstr (uc_response (ns_uart (fst (getDownlink s)))) =
      filter not_blank (take i (cstr (uc_response (ns_uart s))) @ drop (i + 6) (cstr (uc_response (ns_uart s))))"
    and "nc_status (ns_ctx (fst (getDownlink s))) = nc_status (ns_ctx s)"
proof -
  let ?R = "uc_response (ns_uart s)"
  let ?R1 = "poke ?R i NUL"
  let ?R3 = "poke (strncat ?R1 (drop (i + 6) ?R) (MAX_UART_SEND_MSG_SIZE - strlen ?R1))
    MAX_UART_SEND_MSG_SIZE NUL"
  have R: "length ?R = MAX_UART_RESPONSE_MSG_SIZE + 1" "terminated ?R"
    using wf by (simp_all add: net_wf_def)
  note cut = cut_prefix [OF R found]
  have 1: "uc_response (ns_uart (fst (getDownlink s))) = poke (compact ?R3 0 0) MAX_UART_SEND_MSG_SIZE NUL"
    using found by (simp add: getDownlink_def Let_def)
  have "cstr (compact ?R3 0 0) = filter not_blank (cstr ?R3)"
    using cut(3,4) by (intro cstr_compact) simp_all
  moreover have "length (filter not_blank (cstr ?R3)) \<le> strlen ?R3"
    by (simp add: strlen_def)
  moreover have "length (compact ?R3 0 0) = MAX_UART_RESPONSE_MSG_SIZE + 1"
    using cut(2) by (subst length_compact) simp_all
  ultimately have "cstr (poke (compact ?R3 0 0) MAX_UART_SEND_MSG_SIZE NUL) = filter not_blank (cstr ?R3)"
    using cut(4) by (simp add: cstr_poke_nul_any take_all)
  then show "cstr (uc_response (ns_uart (fst (getDownlink s)))) =
      filter not_blank (take i (cstr ?R) @ drop (i + 6) (cstr ?R))"
    by (simp add: 1 cut(1))
  show "nc_status (ns_ctx (fst (getDownlink s))) = nc_status (ns_ctx s)"
    using found by (simp add: getDownlink_def Let_def)
qed

text \<open>
  A downlink response that contains the prefix \<^verbatim>\<open>"OK\nRX="\<close> is replaced in the UART buffer by the
  text before and after the prefix with all spaces and newlines removed, whatever its length: the
  status stays as it was, and the downlink pointer is set to the buffer.
\<close>

theorem getDownlink_success:
  assumes "net_wf s" "strstr (uc_response (ns_uart s)) downlinkPrefix = Some i"
  shows "\<exists>s'. getDownlink s = (s', True) \<and>
     cstr (uc_response (ns_uart s')) =
       filter not_blank (take i (cstr (uc_response (ns_uart s))) @
                         drop (i + strlen downlinkPrefix) (cstr (uc_response (ns_uart s)))) \<and>
     nc_status (ns_ctx s') = nc_status (ns_ctx s) \<and>
     nc_downlinkData (ns_ctx s') = Some UartResponse"
proof -
  have "getDownlink s = (fst (getDownlink s), True)"
    "nc_downlinkData (ns_ctx (fst (getDownlink s))) = Some UartResponse"
    by (simp_all add: getDownlink_def Let_def split: option.split)
  then show ?thesis using getDownlink_found [OF assms] by auto
qed

definition demo_uart :: "char list \<Rightarrow> UARTContext" where
  "demo_uart r = \<lparr>uc_status = True, uc_sendIndex = 0, uc_sentTime = 0,
     uc_response = r @ replicate (MAX_UART_RESPONSE_MSG_SIZE + 1 - length r) NUL,
     uc_actualMarkerCount = 0, uc_msg = None\<rparr>"

definition demo_ctx :: NetworkContext where
  "demo_ctx = \<lparr>nc_uartTaskID = 1, nc_zone = RCZ4, nc_country = 0, nc_useEmulator = False,
     nc_device = replicate (MAX_DEVICE_ID_SIZE + 1) NUL, nc_pac = replicate (MAX_DEVICE_CODE_SIZE + 1) NUL,
     nc_status = True, nc_pendingResponse = False, nc_pendingProcessFunc = None, nc_lastSend = 0,
     nc_msg = None, nc_downlinkData = None, nc_cmdList = Some StaticCmdList, nc_cmdIndex = 0\<rparr>"

definition demo_net :: "char list \<Rightarrow> Net" where
  "demo_net r = \<lparr>ns_ctx = demo_ctx, ns_cmdList = replicate 5 endOfList, ns_uart = demo_uart r\<rparr>"

lemma net_wf_demo:
  "length r \<le> MAX_UART_RESPONSE_MSG_SIZE \<Longrightarrow> net_wf (demo_net r)"
  by (simp add: net_wf_def demo_net_def demo_ctx_def demo_uart_def cmd_list_wf_def cmds_def
      terminated_def endOfList_def is_cmd_def eval_nat_numeral)

text \<open>The example of the comment in \<^verbatim>\<open>getDownlink\<close>.\<close>

lemma getDownlink_success_witness:
  "\<exists>s'. getDownlink (demo_net (downlinkPrefix @ ''01 23 45 67 89 AB CD EF'')) = (s', True) \<and>
     cstr (uc_response (ns_uart s')) = ''0123456789ABCDEF''"
proof -
  let ?r = "downlinkPrefix @ ''01 23 45 67 89 AB CD EF''"
  have wf: "net_wf (demo_net ?r)" by (rule net_wf_demo) simp
  have c: "cstr (uc_response (ns_uart (demo_net ?r))) = ?r"
    by (simp add: demo_net_def demo_uart_def cstr_def downlinkPrefix_def NUL_def)
  have f: "strstr (uc_response (ns_uart (demo_net ?r))) downlinkPrefix = Some 0"
    by (simp add: strstr_def c, simp add: downlinkPrefix_def is_prefix_def cstr_def NUL_def)
  show ?thesis
    using getDownlink_success [OF wf f] by (auto simp: c)
qed

text \<open>
  A response without the prefix, such as a timeout error, makes the status false; up to 34
  characters it is kept with its spaces and newlines removed.
\<close>

theorem getDownlink_error:
  assumes "net_wf s" "strstr (uc_response (ns_uart s)) downlinkPrefix = None"
  shows "\<exists>s'. getDownlink s = (s', True) \<and> \<not> nc_status (ns_ctx s') \<and>
     (strlen (uc_response (ns_uart s)) < MAX_UART_SEND_MSG_SIZE \<longrightarrow>
        cstr (uc_response (ns_uart s')) = filter not_blank (cstr (uc_response (ns_uart s))))"
proof -
  let ?R = "uc_response (ns_uart s)"
  have R: "length ?R = MAX_UART_RESPONSE_MSG_SIZE + 1" "terminated ?R"
    using assms(1) by (simp_all add: net_wf_def)
  have "length (filter not_blank (cstr ?R)) \<le> strlen ?R"
    by (simp add: strlen_def)
  then have "strlen ?R < MAX_UART_SEND_MSG_SIZE \<Longrightarrow>
      cstr (poke (compact ?R 0 0) MAX_UART_SEND_MSG_SIZE NUL) = filter not_blank (cstr ?R)"
    using R cstr_compact [of ?R] by (simp add: cstr_poke_nul_any take_all)
  then show ?thesis
    using assms(2) by (simp add: getDownlink_def Let_def)
qed

lemma getDownlink_error_witness:
  "\<exists>s'. getDownlink (demo_net (''ERR'' @ [CHR 0x0A])) = (s', True) \<and> \<not> nc_status (ns_ctx s') \<and>
     cstr (uc_response (ns_uart s')) = ''ERR''"
proof -
  let ?s = "demo_net (''ERR'' @ [CHR 0x0A])"
  have wf: "net_wf ?s" by (rule net_wf_demo) simp
  have c: "cstr (uc_response (ns_uart ?s)) = ''ERR'' @ [CHR 0x0A]"
    by (simp add: demo_net_def demo_uart_def cstr_def NUL_def)
  have f: "strstr (uc_response (ns_uart ?s)) downlinkPrefix = None"
    unfolding strstr_def c by (simp add: downlinkPrefix_def is_prefix_def cstr_def NUL_def)
  show ?thesis
    using getDownlink_error [OF wf f] unfolding strlen_def c by auto
qed

text \<open>
  The loop that removes spaces stops after 35 characters without terminating the text it has
  moved, so a longer error response with a space in it keeps stale characters at its end.
\<close>

theorem getDownlink_stale_tail:
  "cstr (uc_response (ns_uart (fst (getDownlink (demo_net (''E '' @ replicate 33 CHR ''X''))))))
     = ''E'' @ replicate 34 CHR ''X''"
  by code_simp

section \<open>Every response function keeps the shared data well formed\<close>

lemma net_wf_getID:
  "net_wf s \<Longrightarrow> net_wf (fst (getID s r))"
  using cstr_strncpy_terminated [of "nc_device (ns_ctx s)" MAX_DEVICE_ID_SIZE r]
  by (simp add: net_wf_def getID_def)

lemma net_wf_getPAC:
  "net_wf s \<Longrightarrow> net_wf (fst (getPAC s r))"
  using cstr_strncpy_terminated [of "nc_pac (ns_ctx s)" MAX_DEVICE_CODE_SIZE r]
  by (simp add: net_wf_def getPAC_def)

lemma cmds_update_next:
  assumes "cmd_list_wf n list" "i < n" "is_cmd (list ! i)" "is_cmd c"
  shows "cmd_list_wf n (poke list i c)" "cmds (poke list i c) = (cmds list)[i := c]"
proof -
  have len: "length list = n" using assms(1) by (simp add: cmd_list_wf_def)
  have "takeWhile is_cmd (list[i := c]) = (takeWhile is_cmd list)[i := c]"
    using assms(2-4) len
  proof (induction list arbitrary: i n)
    case (Cons a list)
    then show ?case by (cases i) auto
  qed simp
  then show c: "cmds (poke list i c) = (cmds list)[i := c]"
    using assms(2) len by (simp add: cmds_def poke_in_range)
  show "cmd_list_wf n (poke list i c)"
    using assms(1,2) len unfolding cmd_list_wf_def c by (simp add: length_poke)
qed

lemma net_wf_checkChannel:
  assumes "net_wf s" "checkChannel s r = Some (s', ok)"
  shows "net_wf s'"
proof -
  let ?i = "Suc (nc_cmdIndex (ns_ctx s))"
  let ?c = "(ns_cmdList s ! ?i)\<lparr>cmd_sendData := Some CMD_NONE\<rparr>"
  have "s' = s \<or> (?i < MAX_NETWORK_CMD_LIST_SIZE \<and> is_cmd (ns_cmdList s ! ?i) \<and>
      s' = s\<lparr>ns_cmdList := poke (ns_cmdList s) ?i ?c\<rparr>)"
    using assms(2) by (auto simp: checkChannel_def Let_def is_cmd_def split: if_splits)
  then show ?thesis
  proof
    assume "s' = s" then show ?thesis using assms(1) by simp
  next
    assume u: "?i < MAX_NETWORK_CMD_LIST_SIZE \<and> is_cmd (ns_cmdList s ! ?i) \<and>
      s' = s\<lparr>ns_cmdList := poke (ns_cmdList s) ?i ?c\<rparr>"
    have "is_cmd ?c" by (simp add: is_cmd_def)
    then have "cmd_list_wf MAX_NETWORK_CMD_LIST_SIZE (poke (ns_cmdList s) ?i ?c)"
      using assms(1) u by (intro cmds_update_next) (simp_all add: net_wf_def)
    then show ?thesis using assms(1) u by (simp add: net_wf_def)
  qed
qed

lemma net_wf_getDownlink:
  assumes wf: "net_wf s"
  shows "net_wf (fst (getDownlink s))"
proof -
  let ?R = "uc_response (ns_uart s)"
  have R: "length ?R = MAX_UART_RESPONSE_MSG_SIZE + 1" "terminated ?R"
    using wf by (simp_all add: net_wf_def)
  have len: "length (compact b 0 0) = MAX_UART_RESPONSE_MSG_SIZE + 1"
    if "length b = MAX_UART_RESPONSE_MSG_SIZE + 1" for b
    using that by (subst length_compact) simp_all
  show ?thesis
  proof (cases "strstr ?R downlinkPrefix")
    case None
    then show ?thesis
      using wf len [OF R(1)]
      by (simp add: net_wf_def getDownlink_def Let_def length_poke terminated_poke_nul)
  next
    case (Some i)
    show ?thesis
      using wf len [OF cut_prefix(2) [OF R Some]] Some
      by (simp add: net_wf_def getDownlink_def Let_def length_poke terminated_poke_nul)
  qed
qed

lemma net_wf_run_process:
  "net_wf s \<Longrightarrow> run_process f s = Some (s', ok) \<Longrightarrow> net_wf s'"
  by (cases f)
    (simp_all add: run_process_def Let_def,
      (metis fst_conv net_wf_getID net_wf_getPAC net_wf_checkChannel net_wf_getDownlink)+)

lemma net_wf_set_status [simp]: "net_wf (set_status s b) = net_wf s"
  by (simp add: set_status_def net_wf_def)

lemma net_wf_check_uart_status [simp]: "net_wf (check_uart_status s) = net_wf s"
  by (simp add: check_uart_status_def)

lemma processResponse_total:
  assumes "net_wf s" "nc_cmdList (ns_ctx s) \<noteq> None"
  shows "\<exists>s'. processResponse s = Some s' \<and> net_wf s'"
proof (cases "nc_pendingProcessFunc (ns_ctx s)")
  case None
  then show ?thesis using assms by (simp add: processResponse_def)
next
  case (Some f)
  have "\<exists>s' ok. run_process f s = Some (s', ok)"
    using assms(2)
    by (cases f) (auto simp: run_process_def Let_def checkChannel_def)
  then show ?thesis
    using Some assms(1) net_wf_run_process [of s f] by (auto simp: processResponse_def)
qed



section \<open>The channel check\<close>

text \<open>
  In zones 2 and 4 the response \<^verbatim>\<open>"X,Y"\<close> to the first command of the Send Step decides what the
  second command is: it stays the channel reset when X is 0 or Y below 3, and becomes the empty
  command \<^verbatim>\<open>AT\<close> otherwise. The payload command after it is untouched. A response of fewer than
  three characters is an error that changes nothing.
\<close>

theorem checkChannel_decides:
  assumes "cmds (ns_cmdList s) = zone_cmds RCZ2 @ [send_cmd payload downlink]"
    and "cmd_list_wf MAX_NETWORK_CMD_LIST_SIZE (ns_cmdList s)"
    and "nc_cmdIndex (ns_ctx s) = 0" "nc_cmdList (ns_ctx s) \<noteq> None"
  shows "if strlen response < 3 then checkChannel s response = Some (s, False)
     else \<exists>s'. checkChannel s response = Some (s', True) \<and>
       map cmd_sendData (cmds (ns_cmdList s')) =
         [Some CMD_GET_CHANNEL,
          Some (if charAt response 0 = CHR ''0'' \<or> int_of_chr (charAt response 2) < int_of_chr CHR ''3''
                then CMD_RESET_CHANNEL else CMD_NONE),
          Some CMD_SEND_MESSAGE]"
proof -
  let ?l = "ns_cmdList s"
  let ?c = "(?l ! 1)\<lparr>cmd_sendData := Some CMD_NONE\<rparr>"
  have z: "cmds ?l = [mk_cmd CMD_GET_CHANNEL 1 (Some CheckChannel) None None,
      mk_cmd CMD_RESET_CHANNEL 1 None None None, send_cmd payload downlink]"
    using assms(1) by (simp add: zone_cmds_def RCZ1_def RCZ2_def RCZ3_def)
  then have m: "map cmd_sendData (cmds ?l) = [Some CMD_GET_CHANNEL, Some CMD_RESET_CHANNEL, Some CMD_SEND_MESSAGE]"
    by (simp add: mk_cmd_def send_cmd_def)
  have real: "is_cmd (?l ! 1)"
    using z assms(2) is_cmd_nth_iff [of 1 ?l] by (simp add: cmd_list_wf_def)
  then have nn: "cmd_sendData (?l ! Suc 0) \<noteq> None" by (simp add: is_cmd_def)
  have "cmds (poke ?l 1 ?c) = (cmds ?l)[1 := ?c]"
    using real assms(2) by (intro cmds_update_next) (auto simp: is_cmd_def)
  then have upd: "map cmd_sendData (cmds (poke ?l (Suc 0) ?c)) =
      [Some CMD_GET_CHANNEL, Some CMD_NONE, Some CMD_SEND_MESSAGE]"
    using m by (simp add: map_update)
  have zero: "int_of_chr (charAt response 0) = int_of_chr CHR ''0'' \<longleftrightarrow> charAt response 0 = CHR ''0''"
    by (rule int_of_chr_inject)
  have three: "int_of_chr CHR ''3'' = int_of_chr CHR ''0'' + 3"
    by (simp add: int_of_chr_def)
  show ?thesis
  proof (cases "strlen response < 3")
    case True
    then show ?thesis by (simp add: checkChannel_def)
  next
    case False
    then show ?thesis
      using nn m upd assms(3,4) zero
      by (auto simp: checkChannel_def Let_def three)
  qed
qed

lemma checkChannel_decides_witness:
  "\<exists>s'. checkChannel ((demo_net [])\<lparr>ns_cmdList := getStepSend demo_ctx (replicate 5 endOfList) 5 ''00'' False\<rparr>) ''1,7''
       = Some (s', True) \<and> map cmd_sendData (cmds (ns_cmdList s')) = [Some ''AT$GI?'', Some ''AT'', Some ''AT$SF='']"
proof -
  let ?s = "(demo_net [])\<lparr>ns_cmdList := getStepSend demo_ctx (replicate 5 endOfList) 5 ''00'' False\<rparr>"
  have "cmds (ns_cmdList ?s) = zone_cmds RCZ2 @ [send_cmd ''00'' False]"
    "cmd_list_wf MAX_NETWORK_CMD_LIST_SIZE (ns_cmdList ?s)"
    by code_simp+
  from checkChannel_decides [OF this, of "''1,7''"] show ?thesis
    by (simp add: demo_net_def demo_ctx_def strlen_def cstr_def NUL_def charAt_def int_of_chr_def)
qed

section \<open>The text of a command\<close>

lemma length_uart_append:
  assumes "length buf = MAX_UART_SEND_MSG_SIZE + 1" "terminated buf"
  shows "length (uart_append buf t) = MAX_UART_SEND_MSG_SIZE + 1" "terminated (uart_append buf t)"
    and "cstr (uart_append buf t) = take MAX_UART_SEND_MSG_SIZE (cstr buf @ cstr t)"
proof -
  have le: "strlen buf \<le> MAX_UART_SEND_MSG_SIZE"
    using assms by (simp add: strlen_less_terminated)
  let ?b = "strncat buf t (MAX_UART_SEND_MSG_SIZE - strlen buf)"
  have len: "length ?b = MAX_UART_SEND_MSG_SIZE + 1"
    using assms(1) le by (subst length_strncat) simp_all
  then show "length (uart_append buf t) = MAX_UART_SEND_MSG_SIZE + 1" "terminated (uart_append buf t)"
    by (simp_all add: uart_append_def length_poke terminated_poke_nul)
  have "cstr ?b = cstr buf @ take (MAX_UART_SEND_MSG_SIZE - strlen buf) (cstr t)"
    using assms(1) le by (intro cstr_strncat) simp
  then show "cstr (uart_append buf t) = take MAX_UART_SEND_MSG_SIZE (cstr buf @ cstr t)"
    using le by (simp add: uart_append_def cstr_poke_nul_any strlen_def)
qed

lemma take_append_take: "take n (take n xs @ ys) = take n (xs @ ys)"
  by (cases "length xs \<le> n") simp_all

definition opt_text :: "string option \<Rightarrow> string" where
  "opt_text t = (case t of None \<Rightarrow> [] | Some t \<Rightarrow> cstr t)"

lemma convert_facts:
  assumes "length uartData = MAX_UART_SEND_MSG_SIZE + 1" "cmd_sendData cmd = Some t"
  shows "\<exists>m b. convertCmdToUART cmd uartMsg uartData ok fail resp tid = (m, b) \<and>
     um_sendData m = b \<and> length b = MAX_UART_SEND_MSG_SIZE + 1 \<and>
     cstr b = take MAX_UART_SEND_MSG_SIZE
       (cstr t @ opt_text (cmd_payload cmd) @ opt_text (cmd_sendData2 cmd) @ [END_OF_RESPONSE]) \<and>
     um_timeout m = (if cmd_sendData2 cmd \<noteq> None then DOWNLINK_TIMEOUT
                     else if cmd_payload cmd \<noteq> None then UPLINK_TIMEOUT else COMMAND_TIMEOUT) \<and>
     um_responseMsg m = (if cmd_payload cmd \<noteq> None then Some resp else None) \<and>
     um_expectedMarkerCount m = cmd_expectedMarkerCount cmd"
proof -
  let ?b0 = "poke uartData 0 NUL"
  let ?b1 = "poke (strncpy ?b0 t (MAX_UART_SEND_MSG_SIZE - strlen ?b0)) MAX_UART_SEND_MSG_SIZE NUL"
  let ?ap = "\<lambda>b x. case x of None \<Rightarrow> b | Some t \<Rightarrow> uart_append b t"
  have b0: "length ?b0 = MAX_UART_SEND_MSG_SIZE + 1" "strlen ?b0 = 0"
    using assms(1) by (simp_all add: length_poke strlen_def cstr_poke_nul_any)
  have b1: "length ?b1 = MAX_UART_SEND_MSG_SIZE + 1" "terminated ?b1" "cstr ?b1 = take MAX_UART_SEND_MSG_SIZE (cstr t)"
    using cstr_strncpy_terminated [of ?b0 MAX_UART_SEND_MSG_SIZE t] b0 by simp_all
  have ap: "length (?ap b x) = MAX_UART_SEND_MSG_SIZE + 1 \<and> terminated (?ap b x) \<and>
      cstr (?ap b x) = take MAX_UART_SEND_MSG_SIZE (w @ opt_text x)"
    if "length b = MAX_UART_SEND_MSG_SIZE + 1" "terminated b" "cstr b = take MAX_UART_SEND_MSG_SIZE w" for b x w
  proof (cases x)
    case None
    then show ?thesis using that by (simp add: opt_text_def)
  next
    case (Some u)
    then show ?thesis
      using that length_uart_append [of b u]
      by (simp only: opt_text_def option.case take_append_take append_assoc simp_thms)
  qed
  let ?b2 = "?ap ?b1 (cmd_payload cmd)"
  let ?b3 = "?ap ?b2 (cmd_sendData2 cmd)"
  note b2 = ap [OF b1, of "cmd_payload cmd"]
  note b3 = ap [OF b2 [THEN conjunct1] b2 [THEN conjunct2, THEN conjunct1]
      b2 [THEN conjunct2, THEN conjunct2], of "cmd_sendData2 cmd"]
  have cr: "cstr [END_OF_RESPONSE] = [END_OF_RESPONSE]" by (simp add: cstr_def NUL_def)
  have snd: "snd (convertCmdToUART cmd uartMsg uartData ok fail resp tid) = uart_append ?b3 [END_OF_RESPONSE]"
    using assms(2) by (simp add: convertCmdToUART_def Let_def split: option.split)
  obtain b3 where b3_eq: "b3 = ?b3" by blast
  have b3': "length b3 = MAX_UART_SEND_MSG_SIZE + 1" "terminated b3"
      "cstr b3 = take MAX_UART_SEND_MSG_SIZE
         ((cstr t @ opt_text (cmd_payload cmd)) @ opt_text (cmd_sendData2 cmd))"
    unfolding b3_eq using b3 by blast+
  have "length (uart_append b3 [END_OF_RESPONSE]) = MAX_UART_SEND_MSG_SIZE + 1"
    using b3'(1,2) by (rule length_uart_append)
  moreover have "cstr (uart_append b3 [END_OF_RESPONSE]) = take MAX_UART_SEND_MSG_SIZE
      (cstr t @ opt_text (cmd_payload cmd) @ opt_text (cmd_sendData2 cmd) @ [END_OF_RESPONSE])"
    using length_uart_append(3) [OF b3'(1,2), of "[END_OF_RESPONSE]"]
    by (simp only: b3'(3) cr take_append_take append_assoc)
  moreover have "um_sendData (fst (convertCmdToUART cmd uartMsg uartData ok fail resp tid)) =
      snd (convertCmdToUART cmd uartMsg uartData ok fail resp tid)"
    by (simp add: convertCmdToUART_def Let_def split: option.split prod.split)
  moreover have "um_timeout (fst (convertCmdToUART cmd uartMsg uartData ok fail resp tid)) =
      (if cmd_sendData2 cmd \<noteq> None then DOWNLINK_TIMEOUT
       else if cmd_payload cmd \<noteq> None then UPLINK_TIMEOUT else COMMAND_TIMEOUT)"
    "um_responseMsg (fst (convertCmdToUART cmd uartMsg uartData ok fail resp tid)) =
      (if cmd_payload cmd \<noteq> None then Some resp else None)"
    "um_expectedMarkerCount (fst (convertCmdToUART cmd uartMsg uartData ok fail resp tid)) =
      cmd_expectedMarkerCount cmd"
    by (simp_all add: convertCmdToUART_def Let_def split: option.split)
  ultimately show ?thesis
    by (metis prod.collapse snd b3_eq)
qed

lemma convert_events:
  "um_successEvent (fst (convertCmdToUART cmd uartMsg uartData ok fail resp tid)) = ok"
  "um_failureEvent (fst (convertCmdToUART cmd uartMsg uartData ok fail resp tid)) = fail"
  "um_markerChar (fst (convertCmdToUART cmd uartMsg uartData ok fail resp tid)) = END_OF_RESPONSE"
  by (simp_all add: convertCmdToUART_def Let_def split: option.split)

lemma convert_laws:
  assumes "length uartData = MAX_UART_SEND_MSG_SIZE + 1" "cmd_sendData cmd = Some t"
    and "convertCmdToUART cmd uartMsg uartData ok fail resp tid = (m, b)"
  shows "length b = MAX_UART_SEND_MSG_SIZE + 1"
    and "cstr (um_sendData m) = take MAX_UART_SEND_MSG_SIZE
       (cstr t @ opt_text (cmd_payload cmd) @ opt_text (cmd_sendData2 cmd) @ [END_OF_RESPONSE])"
    and "um_responseMsg m = (if cmd_payload cmd \<noteq> None then Some resp else None)"
    and "um_expectedMarkerCount m = cmd_expectedMarkerCount cmd"
    and "um_successEvent m = ok" "um_failureEvent m = fail" "um_markerChar m = END_OF_RESPONSE"
  using convert_facts [OF assms(1,2), of uartMsg ok fail resp tid] assms(3)
    convert_events [of cmd uartMsg uartData ok fail resp tid]
  by auto

text \<open>
  The text of a command on the UART is its three parts in order, ended by a carriage return, cut
  at 35 characters; the buffer is never overrun. The timeout is the one of the longest operation the
  command asks for, and a reply message is requested exactly for commands with a payload.
\<close>

theorem convertCmdToUART_text:
  assumes "length uartData = MAX_UART_SEND_MSG_SIZE + 1" "cmd_sendData cmd = Some t"
  shows "\<exists>m b. convertCmdToUART cmd uartMsg uartData ok fail resp tid = (m, b) \<and>
     um_sendData m = b \<and> length b = MAX_UART_SEND_MSG_SIZE + 1 \<and>
     cstr b = take MAX_UART_SEND_MSG_SIZE
       (cstr t @ opt_text (cmd_payload cmd) @ opt_text (cmd_sendData2 cmd) @ [END_OF_RESPONSE]) \<and>
     um_timeout m = (if cmd_sendData2 cmd \<noteq> None then DOWNLINK_TIMEOUT
                     else if cmd_payload cmd \<noteq> None then UPLINK_TIMEOUT else COMMAND_TIMEOUT) \<and>
     um_responseMsg m = (if cmd_payload cmd \<noteq> None then Some resp else None) \<and>
     um_expectedMarkerCount m = cmd_expectedMarkerCount cmd"
  using convert_facts [OF assms] .

lemma convertCmdToUART_text_witness:
  "\<exists>m. fst (convertCmdToUART (send_cmd ''0102'' True)
       \<lparr>um_sendData = [], um_timeout = 0, um_markerChar = NUL, um_expectedMarkerCount = 0,
        um_successEvent = 0, um_failureEvent = 0, um_responseMsg = None, um_responseTaskID = 0\<rparr>
       (replicate 36 NUL) 1 2 zero_SensorMsg 3) = m \<and>
     cstr (um_sendData m) = ''AT$SF=0102,1'' @ [CHR 0x0D] \<and> um_timeout m = 60000"
  using convertCmdToUART_text [of "replicate 36 NUL" "send_cmd ''0102'' True" "''AT$SF=''"
      "\<lparr>um_sendData = [], um_timeout = 0, um_markerChar = NUL, um_expectedMarkerCount = 0,
        um_successEvent = 0, um_failureEvent = 0, um_responseMsg = None, um_responseTaskID = 0\<rparr>"
      1 2 zero_SensorMsg 3]
  by (auto simp: send_cmd_def mk_cmd_def opt_text_def cstr_def NUL_def)

end
