(* ===== verification/UartTask.thy ===== *)
theory UartTask
  imports Response
begin

text \<open>
  \<^verbatim>\<open>src/uart.cpp\<close>: the UART Task, which sends a message character by character and collects the
  response until it has seen the expected markers or the timeout has passed, and its log of what it
  received. The UART port is an argument: \<open>UartPort\<close> and \<open>UartSim\<close> are the two that
  \<^verbatim>\<open>stm32/uartint/uartint.cpp\<close> has. \<open>now\<close> is what \<^verbatim>\<open>millis()\<close> returns.
\<close>

section \<open>The task\<close>

abbreviation delayReceive :: u32 where "delayReceive \<equiv> 1000"
abbreviation markerPosMax :: nat where "markerPosMax \<equiv> 5"

record 'p Uart =
  us_ctx :: UARTContext
  us_markerPos :: "nat list"
  us_port :: 'p

definition uart_begin :: "UARTMsg \<Rightarrow> UARTContext \<Rightarrow> UARTContext" where
  "uart_begin msg ctx = ctx\<lparr>uc_msg := Some msg, uc_status := True, uc_sendIndex := 0,
     uc_sentTime := 0, uc_response := poke (uc_response ctx) 0 NUL, uc_actualMarkerCount := 0\<rparr>"

text \<open>The transmit loop; \<open>clock i\<close> is the time at which character \<open>i\<close> is written.\<close>

function uart_transmit ::
  "('p \<Rightarrow> u32 \<Rightarrow> char \<Rightarrow> 'p) \<Rightarrow> (nat \<Rightarrow> u32) \<Rightarrow> UARTMsg \<Rightarrow> 'p Uart \<Rightarrow> 'p Uart" where
  "uart_transmit wr clock msg s =
     (let i = uc_sendIndex (us_ctx s)
      in if i \<ge> strlen (um_sendData msg) \<or> i \<ge> MAX_UART_SEND_MSG_SIZE then s
         else uart_transmit wr clock msg
           (s\<lparr>us_port := wr (us_port s) (clock i) (charAt (um_sendData msg) i),
              us_ctx := (us_ctx s)\<lparr>uc_sendIndex := Suc i\<rparr>\<rparr>))"
  by pat_completeness auto
termination
  by (relation "measure (\<lambda>(_, _, _, s). MAX_UART_SEND_MSG_SIZE - uc_sendIndex (us_ctx s))") auto

declare uart_transmit.simps [simp del]

definition rememberMarker :: "'p Uart \<Rightarrow> 'p Uart" where
  "rememberMarker s =
     (if unat (uc_actualMarkerCount (us_ctx s)) < markerPosMax
      then s\<lparr>us_markerPos := poke (us_markerPos s) (unat (uc_actualMarkerCount (us_ctx s)))
                (strlen (uc_response (us_ctx s)))\<rparr>
      else s)"

definition append_response :: "char \<Rightarrow> UARTContext \<Rightarrow> UARTContext" where
  "append_response c ctx =
     (let len = strlen (uc_response ctx)
      in if len \<ge> MAX_UART_RESPONSE_MSG_SIZE then ctx
         else ctx\<lparr>uc_response := poke (poke (uc_response ctx) len c) (len + 1) NUL\<rparr>)"

text \<open>What an iteration of the receive loop ends in.\<close>

datatype rx_out =
    RxWait      \<comment> \<open>no data, and time for a wait of \<open>delayReceive\<close>\<close>
  | RxRetry     \<comment> \<open>no data, checked again at once\<close>
  | RxNext      \<comment> \<open>a character received\<close>
  | RxDone      \<comment> \<open>the last expected marker received\<close>
  | RxTimeout

definition rx_char :: "UARTMsg \<Rightarrow> char \<Rightarrow> 'p Uart \<Rightarrow> rx_out \<times> 'p Uart" where
  "rx_char msg c s =
     (if c = um_markerChar msg then
        let s = rememberMarker s;
            n = uc_actualMarkerCount (us_ctx s) + 1;
            s = s\<lparr>us_ctx := (us_ctx s)\<lparr>uc_actualMarkerCount := n\<rparr>\<rparr>
        in (if n \<ge> um_expectedMarkerCount msg then RxDone else RxNext, s)
      else (RxNext, s\<lparr>us_ctx := append_response c (us_ctx s)\<rparr>))"

definition rx_step ::
  "('p \<Rightarrow> u32 \<Rightarrow> nat) \<Rightarrow> ('p \<Rightarrow> u32 \<Rightarrow> 'p \<times> char option) \<Rightarrow> UARTMsg \<Rightarrow> u32 \<Rightarrow> 'p Uart \<Rightarrow> rx_out \<times> 'p Uart"
where
  "rx_step available read msg now s =
     (let elapsedTime = now - uc_sentTime (us_ctx s)
      in if available (us_port s) now = 0 then
           if elapsedTime > um_timeout msg then (RxTimeout, s)
           else if um_timeout msg - elapsedTime > 2 * delayReceive then (RxWait, s)
           else (RxRetry, s)
         else
           case read (us_port s) now of
             (p, None) \<Rightarrow> (RxRetry, s\<lparr>us_port := p\<rparr>)
           | (p, Some c) \<Rightarrow> rx_char msg c (s\<lparr>us_port := p\<rparr>))"

text \<open>
  The receive loop along the times of its iterations. Before an iteration the receive interrupt may
  have delivered bytes to the port (\<open>isr\<close>). The result is None when the loop is still running after
  the last iteration of the list.
\<close>

fun uart_receive ::
  "('p \<Rightarrow> 'e \<Rightarrow> 'p) \<Rightarrow> ('p \<Rightarrow> u32 \<Rightarrow> nat) \<Rightarrow> ('p \<Rightarrow> u32 \<Rightarrow> 'p \<times> char option) \<Rightarrow> UARTMsg
    \<Rightarrow> (u32 \<times> 'e) list \<Rightarrow> 'p Uart \<Rightarrow> (rx_out \<times> 'p Uart) option" where
  "uart_receive isr available read msg [] s = None"
| "uart_receive isr available read msg ((now, e) # es) s =
     (case rx_step available read msg now (s\<lparr>us_port := isr (us_port s) e\<rparr>) of
        (out, s') \<Rightarrow> if out = RxDone \<or> out = RxTimeout then Some (out, s')
                     else uart_receive isr available read msg es s')"

text \<open>After the loop: the status, and how the caller is told.\<close>

datatype uart_action = PostMsg u8 SensorMsg | SignalEvent u8

definition uart_finish :: "UARTMsg \<Rightarrow> UARTContext \<Rightarrow> UARTContext \<times> uart_action" where
  "uart_finish msg ctx =
     (let ctx = (if uc_actualMarkerCount ctx < um_expectedMarkerCount msg then ctx\<lparr>uc_status := False\<rparr> else ctx)
      in (ctx, case um_responseMsg msg of
                 Some m \<Rightarrow> PostMsg (um_responseTaskID msg) m
               | None \<Rightarrow> if uc_status ctx then SignalEvent (um_successEvent msg)
                         else SignalEvent (um_failureEvent msg)))"

text \<open>
  The body of the loop of \<^verbatim>\<open>uart_task\<close> for one received message: \<open>clock i\<close> is the time at which
  character \<open>i\<close> is written, \<open>sent\<close> the time after the last one, \<open>es\<close> the iterations of the receive loop.
\<close>

record ('p, 'e) PortOps =
  po_begin :: "'p \<Rightarrow> 'p"
  po_listen :: "'p \<Rightarrow> 'p"
  po_write :: "'p \<Rightarrow> u32 \<Rightarrow> char \<Rightarrow> 'p"
  po_isr :: "'p \<Rightarrow> 'e \<Rightarrow> 'p"
  po_available :: "'p \<Rightarrow> u32 \<Rightarrow> nat"
  po_read :: "'p \<Rightarrow> u32 \<Rightarrow> 'p \<times> char option"
  po_end :: "'p \<Rightarrow> 'p"

definition uart_run ::
  "('p, 'e) PortOps \<Rightarrow> UARTMsg \<Rightarrow> (nat \<Rightarrow> u32) \<Rightarrow> u32 \<Rightarrow> (u32 \<times> 'e) list \<Rightarrow> 'p Uart
    \<Rightarrow> ('p Uart \<times> uart_action) option" where
  "uart_run port msg clock sent es s =
     (let s = s\<lparr>us_ctx := uart_begin msg (us_ctx s), us_port := po_listen port (po_begin port (us_port s))\<rparr>;
          s = uart_transmit (po_write port) clock msg s;
          s = s\<lparr>us_ctx := (us_ctx s)\<lparr>uc_sentTime := sent\<rparr>\<rparr>
      in case uart_receive (po_isr port) (po_available port) (po_read port) msg es s of
           None \<Rightarrow> None
         | Some (_, s) \<Rightarrow>
             let (ctx, action) = uart_finish msg (us_ctx s)
             in Some (s\<lparr>us_ctx := ctx, us_port := po_end port (us_port s)\<rparr>, action))"

section \<open>The log of a response\<close>

definition nibbleToHex :: string where
  "nibbleToHex = ''0123456789abcdef''"

definition logChar :: "char \<Rightarrow> string" where
  "logChar ch = ''[0x'' @ [charAt nibbleToHex (nat (int_of_chr ch div 16)),
     charAt nibbleToHex (nat (int_of_chr ch mod 16))] @ '']''"

definition log_plain :: "char \<Rightarrow> string" where
  "log_plain ch = (if int_of_chr ch < int_of_chr CHR '' '' \<or> int_of_chr ch > int_of_chr CHR ''~''
     then logChar ch else [ch])"

text \<open>The loop of \<^verbatim>\<open>logBuffer\<close> from index \<open>i\<close>, with \<open>m\<close> markers shown so far.\<close>

fun log_loop :: "string \<Rightarrow> char \<Rightarrow> nat list \<Rightarrow> nat \<Rightarrow> nat \<Rightarrow> nat \<Rightarrow> string" where
  "log_loop [] markerChar markerPos markerCount i m =
     (if m < markerCount \<and> markerPos ! m = i then logChar markerChar else [])"
| "log_loop (ch # chs) markerChar markerPos markerCount i m =
     (if m < markerCount \<and> markerPos ! m = i
      then logChar markerChar @ log_plain ch @ log_loop chs markerChar markerPos markerCount (Suc i) (Suc m)
      else log_plain ch @ log_loop chs markerChar markerPos markerCount (Suc i) m)"

definition logBuffer :: "string \<Rightarrow> char list \<Rightarrow> char \<Rightarrow> nat list \<Rightarrow> nat \<Rightarrow> string" where
  "logBuffer prefix data markerChar markerPos markerCount =
     prefix @ log_loop (cstr data) markerChar markerPos markerCount 0 0 @ [CHR 0x0A]"

definition logSendReceive :: "UARTMsg \<Rightarrow> 'p Uart \<Rightarrow> string" where
  "logSendReceive msg s = logBuffer ''<< '' (uc_response (us_ctx s)) (um_markerChar msg)
     (us_markerPos s) (unat (uc_actualMarkerCount (us_ctx s)))"

end
