(* ===== verification/UartLaws.thy ===== *)
theory UartLaws
  imports UartTask
begin

text \<open>
  What the UART Task computes from the bytes a port delivers. \<open>uart_port\<close> is the interface of a
  port: bytes wait in a queue, are available from some time on, and are read in order. The receive
  loop is verified against it once.
\<close>

section \<open>One character\<close>

definition payload_of :: "char \<Rightarrow> string \<Rightarrow> string" where
  "payload_of m bs = filter (\<lambda>c. c \<noteq> m \<and> c \<noteq> NUL) bs"

definition markers_in :: "char \<Rightarrow> string \<Rightarrow> nat" where
  "markers_in m bs = length (filter (\<lambda>c. c = m) bs)"

lemma payload_of_append [simp]: "payload_of m (a @ b) = payload_of m a @ payload_of m b"
  by (simp add: payload_of_def)

lemma markers_in_append [simp]: "markers_in m (a @ b) = markers_in m a + markers_in m b"
  by (simp add: markers_in_def)

lemma plain_payload_of [simp]: "plain (payload_of m bs)"
  by (auto simp: payload_of_def plain_def)

text \<open>The context after the bytes \<open>rcv\<close>, and the buffer bound that goes with it.\<close>

definition rx_inv :: "UARTMsg \<Rightarrow> string \<Rightarrow> 'p Uart \<Rightarrow> bool" where
  "rx_inv msg rcv s \<longleftrightarrow>
     length (uc_response (us_ctx s)) = MAX_UART_RESPONSE_MSG_SIZE + 1 \<and>
     terminated (uc_response (us_ctx s)) \<and>
     cstr (uc_response (us_ctx s)) = take MAX_UART_RESPONSE_MSG_SIZE (payload_of (um_markerChar msg) rcv) \<and>
     unat (uc_actualMarkerCount (us_ctx s)) = markers_in (um_markerChar msg) rcv \<and>
     uc_status (us_ctx s)"

lemma append_response_buffer:
  fixes r :: "char list" and c :: char
  defines "r' \<equiv> poke (poke r (strlen r) c) (strlen r + 1) NUL"
  assumes "length r = MAX_UART_RESPONSE_MSG_SIZE + 1" "strlen r < MAX_UART_RESPONSE_MSG_SIZE"
  shows "length r' = MAX_UART_RESPONSE_MSG_SIZE + 1" "terminated r'"
    and "cstr r' = cstr r @ (if c = NUL then [] else [c])"
proof -
  let ?b = "poke r (strlen r) c"
  have b: "length ?b = MAX_UART_RESPONSE_MSG_SIZE + 1"
    using assms(2,3) by (simp add: length_poke)
  then show "length r' = MAX_UART_RESPONSE_MSG_SIZE + 1" "terminated r'"
    using assms(3) by (simp_all add: r'_def length_poke terminated_poke_nul)
  have "?b = cstr r @ c # drop (Suc (strlen r)) r"
    by (simp add: poke_def take_strlen)
  then have "cstr ?b = cstr r @ cstr (c # drop (Suc (strlen r)) r)"
    by (simp add: cstr_append)
  then show "cstr r' = cstr r @ (if c = NUL then [] else [c])"
    unfolding r'_def cstr_poke_nul_any
    by (cases "c = NUL") (simp_all add: cstr_Cons strlen_def take_Cons')
qed

lemma rx_char_law:
  assumes inv: "rx_inv msg rcv s" and m: "um_markerChar msg \<noteq> NUL"
    and lt: "markers_in (um_markerChar msg) rcv < unat (um_expectedMarkerCount msg)"
  shows "rx_inv msg (rcv @ [c]) (snd (rx_char msg c s))"
    and "us_port (snd (rx_char msg c s)) = us_port s"
    and "uc_sentTime (us_ctx (snd (rx_char msg c s))) = uc_sentTime (us_ctx s)"
    and "fst (rx_char msg c s) =
      (if markers_in (um_markerChar msg) (rcv @ [c]) \<ge> unat (um_expectedMarkerCount msg)
       then RxDone else RxNext)"
proof -
  let ?m = "um_markerChar msg" and ?n = "uc_actualMarkerCount (us_ctx s)"
  have n: "unat ?n = markers_in ?m rcv"
    using inv by (simp add: rx_inv_def)
  then have n1: "unat (?n + 1) = markers_in ?m rcv + 1"
    using lt unat_u8_less [of "um_expectedMarkerCount msg"]
    by (subst unat_add_lem [THEN iffD1]) simp_all
  have le: "um_expectedMarkerCount msg \<le> ?n + 1 \<longleftrightarrow> unat (um_expectedMarkerCount msg) \<le> markers_in ?m rcv + 1"
    by (simp add: word_le_nat_alt n1)
  have rm: "us_ctx (rememberMarker s) = us_ctx s" "us_port (rememberMarker s) = us_port s"
    by (simp_all add: rememberMarker_def)
  show "us_port (snd (rx_char msg c s)) = us_port s"
    "uc_sentTime (us_ctx (snd (rx_char msg c s))) = uc_sentTime (us_ctx s)"
    "fst (rx_char msg c s) =
      (if markers_in ?m (rcv @ [c]) \<ge> unat (um_expectedMarkerCount msg) then RxDone else RxNext)"
    using lt by (auto simp: rx_char_def Let_def rm le append_response_def markers_in_def)
  show "rx_inv msg (rcv @ [c]) (snd (rx_char msg c s))"
  proof (cases "c = ?m")
    case True
    then show ?thesis
      using inv n1 by (simp add: rx_char_def Let_def rm rx_inv_def payload_of_def markers_in_def)
  next
    case False
    let ?r = "uc_response (us_ctx s)"
    have r: "length ?r = MAX_UART_RESPONSE_MSG_SIZE + 1"
      "cstr ?r = take MAX_UART_RESPONSE_MSG_SIZE (payload_of ?m rcv)"
      using inv by (simp_all add: rx_inv_def)
    show ?thesis
    proof (cases "strlen ?r \<ge> MAX_UART_RESPONSE_MSG_SIZE")
      case True
      then have "MAX_UART_RESPONSE_MSG_SIZE \<le> length (payload_of ?m rcv)"
        using r(2) by (simp add: strlen_def)
      then show ?thesis
        using True False inv
        by (simp add: rx_char_def append_response_def rx_inv_def markers_in_def Let_def)
    next
      case short: False
      note b = append_response_buffer [OF r(1), of c]
      have "length (payload_of ?m rcv) < MAX_UART_RESPONSE_MSG_SIZE"
        using short r(2) by (simp add: strlen_def)
      then have "cstr ?r @ (if c = NUL then [] else [c]) =
          take MAX_UART_RESPONSE_MSG_SIZE (payload_of ?m (rcv @ [c]))"
        using r(2) False by (simp add: payload_of_def)
      then show ?thesis
        using b short False inv
        by (simp add: rx_char_def append_response_def rx_inv_def markers_in_def Let_def)
    qed
  qed
qed

section \<open>The interface of a port\<close>

locale uart_port =
  fixes inv :: "'p \<Rightarrow> bool"
    and pending :: "'p \<Rightarrow> string"
    and ready :: "'p \<Rightarrow> u32 \<Rightarrow> bool"
    and available :: "'p \<Rightarrow> u32 \<Rightarrow> nat"
    and read :: "'p \<Rightarrow> u32 \<Rightarrow> 'p \<times> char option"
    and isr :: "'p \<Rightarrow> 'e \<Rightarrow> 'p"
    and arrived :: "'p \<Rightarrow> 'e \<Rightarrow> string"
  assumes available: "inv p \<Longrightarrow> available p now = (if ready p now then length (pending p) else 0)"
    and read: "inv p \<Longrightarrow> available p now \<noteq> 0 \<Longrightarrow>
         \<exists>p'. read p now = (p', Some (hd (pending p))) \<and> inv p' \<and> pending p' = tl (pending p) \<and>
           (\<forall>t. ready p' t = ready p t)"
    and isr: "inv p \<Longrightarrow> inv (isr p e) \<and> pending (isr p e) = pending p @ arrived p e \<and>
         (\<forall>t. ready (isr p e) t = ready p t)"
begin

abbreviation receive where
  "receive \<equiv> uart_receive isr available read"

text \<open>An iteration reads the next byte when there is one, and otherwise leaves the task alone.\<close>

lemma rx_step_cases:
  assumes "inv (us_port s)" "rx_inv msg rcv s" "um_markerChar msg \<noteq> NUL"
    and "markers_in (um_markerChar msg) rcv < unat (um_expectedMarkerCount msg)"
    and "rx_step available read msg now s = (out, s')"
  shows "(available (us_port s) now = 0 \<and> s' = s \<and> out \<noteq> RxDone \<and>
      (out = RxTimeout \<longleftrightarrow> now - uc_sentTime (us_ctx s) > um_timeout msg)) \<or>
    (\<exists>c. available (us_port s) now \<noteq> 0 \<and> pending (us_port s) = c # pending (us_port s') \<and>
      inv (us_port s') \<and> rx_inv msg (rcv @ [c]) s' \<and>
      uc_sentTime (us_ctx s') = uc_sentTime (us_ctx s) \<and>
      (\<forall>t. ready (us_port s') t = ready (us_port s) t) \<and>
      out = (if markers_in (um_markerChar msg) (rcv @ [c]) \<ge> unat (um_expectedMarkerCount msg)
             then RxDone else RxNext))"
proof (cases "available (us_port s) now = 0")
  case True
  then show ?thesis using assms(5) by (auto simp: rx_step_def Let_def split: if_splits)
next
  case False
  obtain p' where p': "read (us_port s) now = (p', Some (hd (pending (us_port s))))"
    "inv p'" "pending p' = tl (pending (us_port s))" "\<forall>t. ready p' t = ready (us_port s) t"
    using read [OF assms(1) False] by blast
  let ?c = "hd (pending (us_port s))"
  have ne: "pending (us_port s) = ?c # pending p'"
    using False available [OF assms(1), of now] p'(3) by (cases "pending (us_port s)") (auto split: if_splits)
  have i: "rx_inv msg rcv (s\<lparr>us_port := p'\<rparr>)"
    using assms(2) by (simp add: rx_inv_def)
  have e: "rx_step available read msg now s = rx_char msg ?c (s\<lparr>us_port := p'\<rparr>)"
    using False p'(1) by (simp add: rx_step_def Let_def)
  note l = rx_char_law [OF i assms(3,4), of ?c]
  have "out = fst (rx_char msg ?c (s\<lparr>us_port := p'\<rparr>))" "s' = snd (rx_char msg ?c (s\<lparr>us_port := p'\<rparr>))"
    using assms(5) e by simp_all
  then show ?thesis
    using False ne l p' by (intro disjI2 exI [of _ ?c]) simp
qed

text \<open>What the port accepted of the arrivals of the first iterations, iteration by iteration.\<close>

definition delivered :: "(u32 \<times> 'e) list \<Rightarrow> string list \<Rightarrow> bool" where
  "delivered es xs \<longleftrightarrow> length xs \<le> length es \<and>
     (\<forall>i < length xs. \<exists>p. xs ! i = arrived p (snd (es ! i)))"

lemma delivered_Cons: "delivered es xs \<Longrightarrow> delivered ((t, e) # es) (arrived p e # xs)"
  by (auto simp: delivered_def nth_Cons split: nat.split)

lemma delivered_one: "delivered ((t, e) # es) [arrived p e]"
  by (auto simp: delivered_def)

text \<open>
  Whatever the times and the arrivals: when the loop ends, the context holds what it has read, in the
  order of arrival, and it has read the expected markers or waited longer than the timeout.
\<close>

lemma receive_correct:
  assumes "inv (us_port s)" "rx_inv msg rcv s" "um_markerChar msg \<noteq> NUL"
    and "markers_in (um_markerChar msg) rcv < unat (um_expectedMarkerCount msg)"
    and "receive msg es s = Some (out, s')"
  shows "\<exists>got xs. rx_inv msg (rcv @ got) s' \<and>
    got @ pending (us_port s') = pending (us_port s) @ concat xs \<and> delivered es xs \<and>
    (if out = RxDone then markers_in (um_markerChar msg) (rcv @ got) = unat (um_expectedMarkerCount msg)
     else out = RxTimeout \<and> markers_in (um_markerChar msg) (rcv @ got) < unat (um_expectedMarkerCount msg) \<and>
       (\<exists>(now, e) \<in> set es. now - uc_sentTime (us_ctx s) > um_timeout msg))"
  using assms
proof (induction es arbitrary: s rcv)
  case Nil
  then show ?case by simp
next
  case (Cons te es)
  obtain now e where te: "te = (now, e)" by (cases te)
  let ?s = "s\<lparr>us_port := isr (us_port s) e\<rparr>"
  have i: "inv (us_port ?s)" "rx_inv msg rcv ?s" "pending (us_port ?s) = pending (us_port s) @ arrived (us_port s) e"
    "uc_sentTime (us_ctx ?s) = uc_sentTime (us_ctx s)"
    using isr [OF Cons.prems(1), of e] Cons.prems(2) by (simp_all add: rx_inv_def)
  obtain o1 s1 where st: "rx_step available read msg now ?s = (o1, s1)" by fastforce
  have rec: "(if o1 = RxDone \<or> o1 = RxTimeout then Some (o1, s1) else receive msg es s1) = Some (out, s')"
    using Cons.prems(5) te st by simp
  from rx_step_cases [OF i(1,2) Cons.prems(3,4) st] show ?case
  proof (elim disjE exE conjE)
    assume z: "s1 = ?s" "o1 \<noteq> RxDone" "o1 = RxTimeout \<longleftrightarrow> um_timeout msg < now - uc_sentTime (us_ctx ?s)"
    show ?thesis
    proof (cases "o1 = RxTimeout")
      case True
      then show ?thesis
        using rec z i Cons.prems(4) te
        by (intro exI [of _ "[]"] exI [of _ "[arrived (us_port s) e]"]) (auto simp: delivered_one)
    next
      case False
      then have r: "receive msg es ?s = Some (out, s')" using rec z by simp
      from Cons.IH [OF i(1,2) Cons.prems(3,4) r] obtain got xs where
        "rx_inv msg (rcv @ got) s'" "got @ pending (us_port s') = pending (us_port ?s) @ concat xs" "delivered es xs"
        "if out = RxDone then markers_in (um_markerChar msg) (rcv @ got) = unat (um_expectedMarkerCount msg)
         else out = RxTimeout \<and> markers_in (um_markerChar msg) (rcv @ got) < unat (um_expectedMarkerCount msg) \<and>
           (\<exists>(now, e) \<in> set es. now - uc_sentTime (us_ctx ?s) > um_timeout msg)"
        by blast
      then show ?thesis
        using i te
        by (intro exI [of _ got] exI [of _ "arrived (us_port s) e # xs"])
          (auto simp: delivered_Cons split: if_splits)
    qed
  next
    fix c
    assume c: "pending (us_port ?s) = c # pending (us_port s1)" "inv (us_port s1)"
      "rx_inv msg (rcv @ [c]) s1" "uc_sentTime (us_ctx s1) = uc_sentTime (us_ctx ?s)"
      "o1 = (if markers_in (um_markerChar msg) (rcv @ [c]) \<ge> unat (um_expectedMarkerCount msg) then RxDone else RxNext)"
    show ?thesis
    proof (cases "o1 = RxDone")
      case True
      then have "markers_in (um_markerChar msg) (rcv @ [c]) = unat (um_expectedMarkerCount msg)"
        using c(5) Cons.prems(4) by (simp add: markers_in_def split: if_splits)
      then show ?thesis
        using True rec c i te
        by (intro exI [of _ "[c]"] exI [of _ "[arrived (us_port s) e]"]) (auto simp: delivered_one)
    next
      case False
      then have lt: "markers_in (um_markerChar msg) (rcv @ [c]) < unat (um_expectedMarkerCount msg)"
        and r: "receive msg es s1 = Some (out, s')"
        using c(5) rec by (auto split: if_splits)
      from Cons.IH [OF c(2,3) Cons.prems(3) lt r] obtain got xs where
        "rx_inv msg ((rcv @ [c]) @ got) s'" "got @ pending (us_port s') = pending (us_port s1) @ concat xs" "delivered es xs"
        "if out = RxDone then markers_in (um_markerChar msg) ((rcv @ [c]) @ got) = unat (um_expectedMarkerCount msg)
         else out = RxTimeout \<and> markers_in (um_markerChar msg) ((rcv @ [c]) @ got) < unat (um_expectedMarkerCount msg) \<and>
           (\<exists>(now, e) \<in> set es. now - uc_sentTime (us_ctx s1) > um_timeout msg)"
        by blast
      then show ?thesis
        using i c te
        by (intro exI [of _ "c # got"] exI [of _ "arrived (us_port s) e # xs"])
          (auto simp: delivered_Cons split: if_splits)
    qed
  qed
qed

definition quiet :: "(u32 \<times> 'e) list \<Rightarrow> bool" where
  "quiet es \<longleftrightarrow> (\<forall>(t, e) \<in> set es. \<forall>p. arrived p e = [])"

text \<open>Once the timeout has passed and nothing more arrives, the loop ends as soon as the queue is empty.\<close>

lemma receive_stops:
  assumes "inv (us_port s)" "rx_inv msg rcv s" "um_markerChar msg \<noteq> NUL"
    and "markers_in (um_markerChar msg) rcv < unat (um_expectedMarkerCount msg)"
    and "quiet es" "list_all (\<lambda>(now, e). now - uc_sentTime (us_ctx s) > um_timeout msg) es"
    and "length (pending (us_port s)) < length es"
  shows "receive msg es s \<noteq> None"
  using assms
proof (induction es arbitrary: s rcv)
  case Nil
  then show ?case by simp
next
  case (Cons te es)
  obtain now e where te: "te = (now, e)" by (cases te)
  let ?s = "s\<lparr>us_port := isr (us_port s) e\<rparr>"
  have i: "inv (us_port ?s)" "rx_inv msg rcv ?s" "pending (us_port ?s) = pending (us_port s)"
    using isr [OF Cons.prems(1), of e] Cons.prems(2,5) te by (auto simp: rx_inv_def quiet_def)
  obtain o1 s1 where st: "rx_step available read msg now ?s = (o1, s1)" by fastforce
  from rx_step_cases [OF i(1,2) Cons.prems(3,4) st] show ?case
  proof (elim disjE exE conjE)
    assume "o1 = RxTimeout \<longleftrightarrow> um_timeout msg < now - uc_sentTime (us_ctx ?s)"
    then show ?thesis using Cons.prems(6) te st by simp
  next
    fix c
    assume c: "pending (us_port ?s) = c # pending (us_port s1)" "inv (us_port s1)"
      "rx_inv msg (rcv @ [c]) s1" "uc_sentTime (us_ctx s1) = uc_sentTime (us_ctx ?s)"
      "o1 = (if markers_in (um_markerChar msg) (rcv @ [c]) \<ge> unat (um_expectedMarkerCount msg) then RxDone else RxNext)"
    show ?thesis
    proof (cases "o1 = RxDone")
      case True
      then show ?thesis using te st by simp
    next
      case False
      have q: "quiet es" using Cons.prems(5) by (simp add: quiet_def)
      have "length (pending (us_port s)) = Suc (length (pending (us_port s1)))"
        using c(1) i(3) by (metis length_Cons)
      then have "receive msg es s1 \<noteq> None"
        using c False Cons.prems(3,6,7) i(3) q
        by (intro Cons.IH) (auto split: if_splits)
      then show ?thesis using te st by simp
    qed
  qed
qed

text \<open>
  A response that becomes ready before the timeout is received completely: the bytes up to the last
  expected marker, and no more.
\<close>

lemma receive_ready:
  assumes "inv (us_port s)" "rx_inv msg rcv s" "um_markerChar msg \<noteq> NUL"
    and "markers_in (um_markerChar msg) rcv < unat (um_expectedMarkerCount msg)"
    and "quiet es" "list_all (\<lambda>(now, e). ready (us_port s) now) es"
    and "pending (us_port s) = got @ rest" "length es = length got" "got \<noteq> []"
    and "markers_in (um_markerChar msg) (rcv @ butlast got) < unat (um_expectedMarkerCount msg)"
    and "markers_in (um_markerChar msg) (rcv @ got) = unat (um_expectedMarkerCount msg)"
  shows "\<exists>s'. receive msg es s = Some (RxDone, s') \<and> rx_inv msg (rcv @ got) s' \<and> pending (us_port s') = rest"
  using assms
proof (induction es arbitrary: s rcv got)
  case Nil
  then show ?case by simp
next
  case (Cons te es)
  obtain now e where te: "te = (now, e)" by (cases te)
  obtain b got' where got: "got = b # got'" using Cons.prems(9) by (cases got) auto
  let ?s = "s\<lparr>us_port := isr (us_port s) e\<rparr>"
  have i: "inv (us_port ?s)" "rx_inv msg rcv ?s" "pending (us_port ?s) = pending (us_port s)"
    "\<forall>t. ready (us_port ?s) t = ready (us_port s) t"
    using isr [OF Cons.prems(1), of e] Cons.prems(2,5) te by (auto simp: rx_inv_def quiet_def)
  have av: "available (us_port ?s) now \<noteq> 0"
    using available [OF i(1), of now] i(3,4) Cons.prems(6,7) te got by simp
  obtain o1 s1 where st: "rx_step available read msg now ?s = (o1, s1)" by fastforce
  from rx_step_cases [OF i(1,2) Cons.prems(3,4) st] av obtain c where
    c: "pending (us_port ?s) = c # pending (us_port s1)" "inv (us_port s1)"
      "rx_inv msg (rcv @ [c]) s1" "\<forall>t. ready (us_port s1) t = ready (us_port ?s) t"
      "o1 = (if markers_in (um_markerChar msg) (rcv @ [c]) \<ge> unat (um_expectedMarkerCount msg) then RxDone else RxNext)"
    by blast
  have b: "c = b" "pending (us_port s1) = got' @ rest"
    using c(1) i(3) Cons.prems(7) got by simp_all
  show ?case
  proof (cases "got' = []")
    case True
    then show ?thesis
      using te st c b got Cons.prems(11) by simp
  next
    case False
    have "markers_in (um_markerChar msg) (rcv @ [b]) \<le> markers_in (um_markerChar msg) (rcv @ butlast got)"
      using got False by (simp add: markers_in_def)
    then have lt: "markers_in (um_markerChar msg) (rcv @ [b]) < unat (um_expectedMarkerCount msg)"
      using Cons.prems(10) by linarith
    have q: "quiet es" using Cons.prems(5) by (simp add: quiet_def)
    have "\<exists>s'. receive msg es s1 = Some (RxDone, s') \<and> rx_inv msg ((rcv @ [b]) @ got') s' \<and> pending (us_port s') = rest"
      using c b lt q False got Cons.prems(3,6,8,10,11) i(4) by (intro Cons.IH) auto
    then show ?thesis
      using te st c(5) lt b got by simp
  qed
qed

lemma receive_waits:
  assumes "inv (us_port s)" "quiet es"
    and "list_all (\<lambda>(now, e). \<not> ready (us_port s) now \<and> now - uc_sentTime (us_ctx s) \<le> um_timeout msg) es"
  shows "\<exists>p. inv p \<and> pending p = pending (us_port s) \<and> (\<forall>t. ready p t = ready (us_port s) t) \<and>
     receive msg (es @ es') s = receive msg es' (s\<lparr>us_port := p\<rparr>)"
  using assms
proof (induction es arbitrary: s)
  case Nil
  then show ?case by (intro exI [of _ "us_port s"]) simp
next
  case (Cons te es)
  obtain now e where te: "te = (now, e)" by (cases te)
  let ?p = "isr (us_port s) e"
  let ?s = "s\<lparr>us_port := ?p\<rparr>"
  have i: "inv ?p" "pending ?p = pending (us_port s)" "\<forall>t. ready ?p t = ready (us_port s) t"
    using isr [OF Cons.prems(1), of e] Cons.prems(2) te by (auto simp: quiet_def)
  have "available ?p now = 0" using available [OF i(1), of now] i(3) Cons.prems(3) te by simp
  then have st: "fst (rx_step available read msg now ?s) \<in> {RxWait, RxRetry}"
    "snd (rx_step available read msg now ?s) = ?s"
    using Cons.prems(3) te by (auto simp: rx_step_def Let_def)
  have "receive msg ((te # es) @ es') s = receive msg (es @ es') ?s"
    using st te by (auto split: prod.split)
  moreover have "\<exists>p. inv p \<and> pending p = pending (us_port ?s) \<and> (\<forall>t. ready p t = ready (us_port ?s) t) \<and>
     receive msg (es @ es') ?s = receive msg es' (?s\<lparr>us_port := p\<rparr>)"
    using Cons.prems i by (intro Cons.IH) (auto simp: quiet_def)
  ultimately show ?case using i by auto
qed

end

end
