(* ===== verification/UartPort.thy ===== *)
theory UartPort
  imports UartLaws
begin

text \<open>
  The two UART ports of \<^verbatim>\<open>stm32/uartint/uartint.cpp\<close>: the interrupt-driven USART2, whose receive queue is
  the vendored lock-free queue used as a bounded queue of 37 bytes, and the simulated Wisol module.
  Both provide the interface the UART Task is verified against.
\<close>

section \<open>USART2 with its receive interrupt\<close>

record RealPort =
  rp_queue :: string
  rp_sent :: string      \<comment> \<open>the bytes given to \<^verbatim>\<open>usart_send\<close>, in order\<close>
  rp_rxneie :: bool
  rp_enabled :: bool

abbreviation queue_capacity :: nat where "queue_capacity \<equiv> MAX_UART_RESPONSE_MSG_SIZE + 1"

definition push_queue :: "string \<Rightarrow> char \<Rightarrow> string" where
  "push_queue q ch = (if length q < queue_capacity then q @ [ch] else q)"

text \<open>\<^verbatim>\<open>usart2_isr\<close> with the receive flag set and the byte \<open>ch\<close> in the data register.\<close>

definition usart2_isr :: "RealPort \<Rightarrow> char \<Rightarrow> RealPort" where
  "usart2_isr p ch = (if rp_rxneie p then p\<lparr>rp_queue := push_queue (rp_queue p) ch\<rparr> else p)"

definition real_begin :: "RealPort \<Rightarrow> RealPort" where
  "real_begin p = p\<lparr>rp_queue := []\<rparr>"

definition real_listen :: "RealPort \<Rightarrow> RealPort" where
  "real_listen p = p\<lparr>rp_rxneie := True, rp_enabled := True\<rparr>"

definition real_end :: "RealPort \<Rightarrow> RealPort" where
  "real_end p = p\<lparr>rp_rxneie := False, rp_enabled := False\<rparr>"

definition real_available :: "RealPort \<Rightarrow> u32 \<Rightarrow> nat" where
  "real_available p now = length (rp_queue p)"

definition real_read :: "RealPort \<Rightarrow> u32 \<Rightarrow> RealPort \<times> char option" where
  "real_read p now = (case rp_queue p of
       [] \<Rightarrow> (p, None)
     | ch # q \<Rightarrow> (p\<lparr>rp_queue := q\<rparr>, Some ch))"

definition real_write :: "RealPort \<Rightarrow> u32 \<Rightarrow> char \<Rightarrow> RealPort" where
  "real_write p now ch = p\<lparr>rp_sent := rp_sent p @ [ch]\<rparr>"

definition real_isr :: "RealPort \<Rightarrow> string \<Rightarrow> RealPort" where
  "real_isr p bytes = foldl usart2_isr p bytes"

lemma real_isr_eq:
  "real_isr p bytes = (if rp_rxneie p
     then p\<lparr>rp_queue := rp_queue p @ take (queue_capacity - length (rp_queue p)) bytes\<rparr> else p)"
  unfolding real_isr_def
proof (induction bytes arbitrary: p)
  case (Cons ch bytes)
  then show ?case
    by (auto simp: usart2_isr_def push_queue_def take_Cons' Suc_diff_Suc)
qed simp

interpretation real: uart_port "\<lambda>p. length (rp_queue p) \<le> queue_capacity" rp_queue "\<lambda>_ _. True"
    real_available real_read real_isr
    "\<lambda>p bytes. if rp_rxneie p then take (queue_capacity - length (rp_queue p)) bytes else []"
  by unfold_locales
    (auto simp: real_available_def real_read_def real_isr_eq neq_Nil_conv split: list.split)

definition real_ops :: "(RealPort, string) PortOps" where
  "real_ops = \<lparr>po_begin = real_begin, po_listen = real_listen, po_write = real_write,
     po_isr = real_isr, po_available = real_available, po_read = real_read, po_end = real_end\<rparr>"

section \<open>The simulated Wisol module\<close>

record SimPort =
  sp_command :: "char list"
  sp_data :: "char list"
  sp_dataLength :: nat
  sp_dataIndex :: nat
  sp_dataTimestamp :: u32

definition sim_begin :: "SimPort \<Rightarrow> SimPort" where
  "sim_begin p = p\<lparr>sp_command := poke (sp_command p) 0 NUL, sp_dataIndex := 0, sp_dataLength := 0,
     sp_dataTimestamp := 0\<rparr>"

definition sim_available :: "SimPort \<Rightarrow> u32 \<Rightarrow> nat" where
  "sim_available p now =
     (if sp_dataIndex p \<ge> sp_dataLength p then 0
      else if now < sp_dataTimestamp p then 0
      else sp_dataLength p - sp_dataIndex p)"

definition sim_read :: "SimPort \<Rightarrow> u32 \<Rightarrow> SimPort \<times> char option" where
  "sim_read p now =
     (if sim_available p now = 0 then (p, None)
      else (p\<lparr>sp_dataIndex := Suc (sp_dataIndex p)\<rparr>, Some (charAt (sp_data p) (sp_dataIndex p))))"

definition downlink_response :: string where
  "downlink_response = ''OK'' @ [CHR 0x0D, CHR 0x0A] @ ''RX=01 23 45 67 89 AB CD EF''"

text \<open>The response to a command and the delay after which it is delivered.\<close>

definition sim_reply :: "char list \<Rightarrow> string \<times> u32" where
  "sim_reply cmd =
     (if strcmp_eq cmd CMD_NONE then (''OK'', 2000)
      else if strcmp_eq cmd CMD_OUTPUT_POWER_MAX then (''OK'', 2000)
      else if strcmp_eq cmd CMD_GET_CHANNEL then (''0,3'', 2000)
      else if strcmp_eq cmd CMD_RESET_CHANNEL then (''OK'', 2000)
      else if strcmp_eq cmd CMD_GET_ID then (''002C2EA1'', 2000)
      else if strcmp_eq cmd CMD_GET_PAC then (''5BEB8CF64E869BD1'', 2000)
      else if strcmp_eq cmd CMD_EMULATOR_DISABLE then (''OK'', 2000)
      else if strcmp_eq cmd CMD_EMULATOR_ENABLE then (''OK'', 2000)
      else if strncmp_eq (strlen CMD_SEND_MESSAGE) cmd CMD_SEND_MESSAGE then
        let pos = strlen cmd - strlen CMD_SEND_MESSAGE_RESPONSE
        in if strcmp_eq (drop pos cmd) CMD_SEND_MESSAGE_RESPONSE
           then (downlink_response, DOWNLINK_TIMEOUT) else (''OK'', UPLINK_TIMEOUT)
      else (''OK'', 2000))"

definition simulateCommand :: "SimPort \<Rightarrow> u32 \<Rightarrow> char list \<Rightarrow> SimPort" where
  "simulateCommand p now cmd =
     (let p = p\<lparr>sp_data := poke (sp_data p) 0 NUL, sp_dataIndex := 0, sp_dataLength := 0\<rparr>;
          (response, delay) = sim_reply cmd;
          p = p\<lparr>sp_dataTimestamp := now + delay\<rparr>;
          responseLength = strlen response
      in if responseLength \<ge> MAX_UART_RESPONSE_MSG_SIZE - 1 then p
         else
           let data = strncpy (sp_data p) response MAX_UART_RESPONSE_MSG_SIZE;
               data = poke data MAX_UART_RESPONSE_MSG_SIZE NUL;
               data = poke data responseLength END_OF_RESPONSE;
               data = poke data (responseLength + 1) NUL
           in p\<lparr>sp_data := data, sp_dataLength := strlen data\<rparr>)"

definition sim_write :: "SimPort \<Rightarrow> u32 \<Rightarrow> char \<Rightarrow> SimPort" where
  "sim_write p now ch =
     (if ch \<noteq> END_OF_RESPONSE then
        let commandLength = strlen (sp_command p)
        in if commandLength \<ge> MAX_UART_SEND_MSG_SIZE then p
           else p\<lparr>sp_command := poke (poke (sp_command p) commandLength ch) (commandLength + 1) NUL\<rparr>
      else
        let p = simulateCommand p now (sp_command p)
        in p\<lparr>sp_command := poke (sp_command p) 0 NUL\<rparr>)"

definition sim_isr :: "SimPort \<Rightarrow> unit \<Rightarrow> SimPort" where
  "sim_isr p _ = p"

definition sim_ops :: "(SimPort, unit) PortOps" where
  "sim_ops = \<lparr>po_begin = sim_begin, po_listen = \<lambda>p. p, po_write = sim_write, po_isr = sim_isr,
     po_available = sim_available, po_read = sim_read, po_end = \<lambda>p. p\<rparr>"

definition sim_wf :: "SimPort \<Rightarrow> bool" where
  "sim_wf p \<longleftrightarrow> length (sp_command p) = MAX_UART_SEND_MSG_SIZE + 1 \<and> terminated (sp_command p) \<and>
     length (sp_data p) = MAX_UART_RESPONSE_MSG_SIZE + 1 \<and>
     sp_dataLength p \<le> strlen (sp_data p) \<and> sp_dataIndex p \<le> sp_dataLength p"

definition sim_pending :: "SimPort \<Rightarrow> string" where
  "sim_pending p = slice (sp_data p) (sp_dataIndex p) (sp_dataLength p - sp_dataIndex p)"

lemma length_sim_pending: "sim_wf p \<Longrightarrow> length (sim_pending p) = sp_dataLength p - sp_dataIndex p"
  using strlen_le [of "sp_data p"] by (simp add: sim_pending_def sim_wf_def length_slice)

lemma sim_pending_Cons:
  assumes "sim_wf p" "sp_dataIndex p < sp_dataLength p"
  shows "sim_pending p = charAt (sp_data p) (sp_dataIndex p) #
    sim_pending (p\<lparr>sp_dataIndex := Suc (sp_dataIndex p)\<rparr>)"
proof -
  have lt: "sp_dataIndex p < length (sp_data p)"
    using assms strlen_le [of "sp_data p"] by (simp add: sim_wf_def)
  moreover have "sp_dataLength p - sp_dataIndex p = Suc (sp_dataLength p - Suc (sp_dataIndex p))"
    using assms(2) by simp
  ultimately show ?thesis
    using Cons_nth_drop_Suc [OF lt, symmetric]
    by (simp add: sim_pending_def slice_def charAt_def del: Cons_nth_drop_Suc)
qed

interpretation sim: uart_port sim_wf sim_pending "\<lambda>p now. \<not> now < sp_dataTimestamp p"
    sim_available sim_read sim_isr "\<lambda>_ _. []"
proof unfold_locales
  fix p now assume "sim_wf p"
  then show "sim_available p now = (if \<not> now < sp_dataTimestamp p then length (sim_pending p) else 0)"
    by (auto simp: sim_available_def length_sim_pending)
next
  fix p now assume wf: "sim_wf p" and av: "sim_available p now \<noteq> 0"
  then have lt: "sp_dataIndex p < sp_dataLength p"
    by (auto simp: sim_available_def split: if_splits)
  show "\<exists>p'. sim_read p now = (p', Some (hd (sim_pending p))) \<and> sim_wf p' \<and>
      sim_pending p' = tl (sim_pending p) \<and>
      (\<forall>t. (\<not> t < sp_dataTimestamp p') = (\<not> t < sp_dataTimestamp p))"
    using wf av lt sim_pending_Cons [OF wf lt] by (simp add: sim_read_def sim_wf_def)
qed (simp add: sim_isr_def)

end
