(* ===== verification/UartSession.thy ===== *)
theory UartSession
  imports UartPort
begin

text \<open>
  Whole exchanges of the UART Task with a port: what is transmitted, what a run of the task ends
  with, and the commands of the Network Task answered by the simulated Wisol module.
\<close>

section \<open>Transmitting\<close>

primrec writes :: "('p \<Rightarrow> u32 \<Rightarrow> char \<Rightarrow> 'p) \<Rightarrow> (nat \<Rightarrow> u32) \<Rightarrow> nat \<Rightarrow> string \<Rightarrow> 'p \<Rightarrow> 'p" where
  "writes wr clock i [] p = p"
| "writes wr clock i (c # cs) p = writes wr clock (Suc i) cs (wr p (clock i) c)"

lemma writes_append:
  "writes wr clock i (a @ b) p = writes wr clock (i + length a) b (writes wr clock i a p)"
  by (induction a arbitrary: i p) simp_all

lemma uart_transmit_writes:
  defines "wire msg \<equiv> take MAX_UART_SEND_MSG_SIZE (cstr (um_sendData msg))"
  assumes "uc_sendIndex (us_ctx s) \<le> length (wire msg)"
  shows "uart_transmit wr clock msg s =
    s\<lparr>us_port := writes wr clock (uc_sendIndex (us_ctx s)) (drop (uc_sendIndex (us_ctx s)) (wire msg)) (us_port s),
      us_ctx := (us_ctx s)\<lparr>uc_sendIndex := length (wire msg)\<rparr>\<rparr>"
  using assms(2)
proof (induction wr clock msg s rule: uart_transmit.induct)
  case (1 wr clock msg s)
  let ?i = "uc_sendIndex (us_ctx s)" and ?t = "wire msg"
  have len: "length ?t = min (strlen (um_sendData msg)) MAX_UART_SEND_MSG_SIZE"
    by (simp add: wire_def strlen_def)
  show ?case
  proof (cases "?i < length ?t")
    case True
    have at: "charAt (um_sendData msg) ?i = ?t ! ?i"
    proof -
      have "?i < strlen (um_sendData msg)" using True len by simp
      moreover have "strlen (um_sendData msg) \<le> length (um_sendData msg)" by (rule strlen_le)
      moreover have "cstr (um_sendData msg) ! ?i = um_sendData msg ! ?i"
        using calculation take_strlen [of "um_sendData msg"] by (metis nth_take)
      ultimately show ?thesis using True by (simp add: charAt_def wire_def)
    qed
    have d: "drop ?i ?t = ?t ! ?i # drop (Suc ?i) ?t"
      using True by (simp add: Cons_nth_drop_Suc)
    show ?thesis
      using True len "1.IH" [OF refl] d at by (subst uart_transmit.simps) (simp add: Let_def)
  next
    case False
    then have "?i = length ?t" using "1.prems" by simp
    then show ?thesis using len by (subst uart_transmit.simps) (auto simp: Let_def)
  qed
qed

section \<open>The simulated module\<close>

lemma CR_not_NUL [simp]: "END_OF_RESPONSE \<noteq> NUL"
  by (simp add: NUL_def)


lemma strcmp_eq_cstr: "cstr a = cstr b \<Longrightarrow> strcmp_eq a c = strcmp_eq b c"
  by (simp add: strcmp_eq_def)

lemma sim_reply_cstr:
  assumes "cstr a = cstr b"
  shows "sim_reply a = sim_reply b"
proof -
  have "strlen a = strlen b" using assms by (simp add: strlen_def)
  then have "strcmp_eq (drop (strlen a - n) a) c = strcmp_eq (drop (strlen b - n) b) c" for c n
    using assms by (simp add: strcmp_eq_def cstr_drop)
  then show ?thesis
    using assms by (simp add: sim_reply_def strcmp_eq_def strncmp_eq_def Let_def \<open>strlen a = strlen b\<close>)
qed

lemma sim_reply_length: "strlen (fst (sim_reply cmd)) < MAX_UART_RESPONSE_MSG_SIZE - 1"
  "plain (fst (sim_reply cmd))"
  by (simp_all add: sim_reply_def Let_def downlink_response_def strlen_def cstr_def NUL_def)

lemma simulateCommand_pending:
  assumes "sim_wf p"
  shows "sim_wf (simulateCommand p now cmd)"
    and "sim_pending (simulateCommand p now cmd) = fst (sim_reply cmd) @ [END_OF_RESPONSE]"
    and "sp_dataTimestamp (simulateCommand p now cmd) = now + snd (sim_reply cmd)"
    and "sp_command (simulateCommand p now cmd) = sp_command p"
proof -
  obtain r d where r: "sim_reply cmd = (r, d)" by fastforce
  have rl: "strlen r < MAX_UART_RESPONSE_MSG_SIZE - 1" "plain r" "length r = strlen r"
    using sim_reply_length [of cmd] r by (simp_all add: strlen_def cstr_plain)
  let ?b0 = "poke (sp_data p) 0 NUL"
  let ?b1 = "poke (strncpy ?b0 r MAX_UART_RESPONSE_MSG_SIZE) MAX_UART_RESPONSE_MSG_SIZE NUL"
  let ?b2 = "poke ?b1 (strlen r) END_OF_RESPONSE"
  let ?b3 = "poke ?b2 (strlen r + 1) NUL"
  have b0: "length ?b0 = MAX_UART_RESPONSE_MSG_SIZE + 1"
    using assms by (simp add: sim_wf_def length_poke)
  have b1: "length ?b1 = MAX_UART_RESPONSE_MSG_SIZE + 1" "cstr ?b1 = r"
    using cstr_strncpy_terminated [of ?b0 MAX_UART_RESPONSE_MSG_SIZE r] b0 rl
    by (simp_all add: cstr_plain)
  have l2: "length ?b2 = MAX_UART_RESPONSE_MSG_SIZE + 1" "length ?b3 = MAX_UART_RESPONSE_MSG_SIZE + 1"
    using b1 rl by (simp_all add: length_poke)
  have "take (strlen r) ?b1 = r"
    using take_strlen [of ?b1] b1(2) rl(3) by (simp add: strlen_def [of ?b1])
  then have "?b2 = (r @ [END_OF_RESPONSE]) @ drop (Suc (strlen r)) ?b1"
    by (simp add: poke_def)
  then have "cstr ?b2 = (r @ [END_OF_RESPONSE]) @ cstr (drop (Suc (strlen r)) ?b1)"
    using rl(2) by (simp add: cstr_append cstr_Cons)
  then have b3: "cstr ?b3 = r @ [END_OF_RESPONSE]"
    using rl(3) by (simp add: cstr_poke_nul_any)
  have sc: "simulateCommand p now cmd = p\<lparr>sp_data := ?b3, sp_dataIndex := 0, sp_dataLength := strlen ?b3,
      sp_dataTimestamp := now + d\<rparr>"
    using r rl(1) by (simp add: simulateCommand_def Let_def)
  show "sim_wf (simulateCommand p now cmd)"
    using assms l2 by (simp add: sc sim_wf_def)
  have "take (strlen ?b3) ?b3 = r @ [END_OF_RESPONSE]"
    by (simp only: take_strlen b3)
  then show "sim_pending (simulateCommand p now cmd) = fst (sim_reply cmd) @ [END_OF_RESPONSE]"
    by (simp add: sc sim_pending_def slice_def r)
  show "sp_dataTimestamp (simulateCommand p now cmd) = now + snd (sim_reply cmd)"
    "sp_command (simulateCommand p now cmd) = sp_command p"
    by (simp_all add: sc r)
qed

lemma sim_writes_text:
  assumes "sim_wf p" "plain t" "END_OF_RESPONSE \<notin> set t"
    and "strlen (sp_command p) + length t \<le> MAX_UART_SEND_MSG_SIZE"
  shows "sim_wf (writes sim_write clock i t p) \<and>
    cstr (sp_command (writes sim_write clock i t p)) = cstr (sp_command p) @ t"
  using assms
proof (induction t arbitrary: i p)
  case Nil
  then show ?case by simp
next
  case (Cons c t)
  let ?r = "sp_command p" and ?q = "sim_write p (clock i) c"
  have c: "c \<noteq> NUL" "c \<noteq> END_OF_RESPONSE" "strlen ?r < MAX_UART_SEND_MSG_SIZE"
    using Cons.prems by auto
  have q: "?q = p\<lparr>sp_command := poke (poke ?r (strlen ?r) c) (strlen ?r + 1) NUL\<rparr>"
    using c by (simp add: sim_write_def Let_def)
  have len: "length ?r = MAX_UART_SEND_MSG_SIZE + 1" using Cons.prems by (simp add: sim_wf_def)
  have "poke ?r (strlen ?r) c = (cstr ?r @ [c]) @ drop (Suc (strlen ?r)) ?r"
    by (simp add: poke_def take_strlen)
  then have cs: "cstr (sp_command ?q) = cstr ?r @ [c]"
    using c(1) by (simp add: q cstr_poke_nul_any cstr_append cstr_Cons strlen_def)
  have wf: "sim_wf ?q"
    using Cons.prems(1) len c(3) by (simp add: q sim_wf_def length_poke terminated_poke_nul)
  have "strlen (sp_command ?q) = strlen ?r + 1" by (simp add: strlen_def cs)
  then have "sim_wf (writes sim_write clock (Suc i) t ?q) \<and>
      cstr (sp_command (writes sim_write clock (Suc i) t ?q)) = cstr (sp_command ?q) @ t"
    using Cons.prems wf by (intro Cons.IH) simp_all
  then show ?case by (simp add: cs)
qed

section \<open>A run of the task\<close>

text \<open>The context when the receive loop starts, and what the end of the loop makes of it.\<close>

definition wire_text :: "UARTMsg \<Rightarrow> string" where
  "wire_text msg = take MAX_UART_SEND_MSG_SIZE (cstr (um_sendData msg))"

definition rx_start :: "('p, 'e) PortOps \<Rightarrow> UARTMsg \<Rightarrow> (nat \<Rightarrow> u32) \<Rightarrow> u32 \<Rightarrow> 'p Uart \<Rightarrow> 'p Uart" where
  "rx_start port msg clock sent s =
     s\<lparr>us_ctx := (uart_begin msg (us_ctx s))\<lparr>uc_sendIndex := length (wire_text msg), uc_sentTime := sent\<rparr>,
       us_port := writes (po_write port) clock 0 (wire_text msg) (po_listen port (po_begin port (us_port s)))\<rparr>"

lemma transmit_start:
  fixes s :: "'p Uart" and port :: "('p, 'e) PortOps" and msg :: UARTMsg
  defines "s1 \<equiv> s\<lparr>us_ctx := uart_begin msg (us_ctx s), us_port := po_listen port (po_begin port (us_port s))\<rparr>"
  shows "(uart_transmit (po_write port) clock msg s1)\<lparr>us_ctx :=
      (us_ctx (uart_transmit (po_write port) clock msg s1))\<lparr>uc_sentTime := sent\<rparr>\<rparr> = rx_start port msg clock sent s"
  by (cases s, cases "us_ctx s")
    (simp add: s1_def uart_transmit_writes uart_begin_def rx_start_def wire_text_def)

lemma uart_run_eq:
  "uart_run port msg clock sent es s =
     (case uart_receive (po_isr port) (po_available port) (po_read port) msg es (rx_start port msg clock sent s) of
        None \<Rightarrow> None
      | Some (_, s) \<Rightarrow> Some (s\<lparr>us_ctx := fst (uart_finish msg (us_ctx s)), us_port := po_end port (us_port s)\<rparr>,
          snd (uart_finish msg (us_ctx s))))"
  by (simp add: uart_run_def Let_def transmit_start split: prod.split option.split)

lemma rx_inv_start:
  assumes "length (uc_response (us_ctx s)) = MAX_UART_RESPONSE_MSG_SIZE + 1"
  shows "rx_inv msg [] (rx_start port msg clock sent s)"
  using assms
  by (simp add: rx_inv_def rx_start_def uart_begin_def length_poke terminated_poke_nul
      cstr_poke_nul_any payload_of_def markers_in_def)

lemma uart_finish_law:
  assumes "rx_inv msg rcv s" "markers_in (um_markerChar msg) rcv \<le> unat (um_expectedMarkerCount msg)"
  shows "uc_response (fst (uart_finish msg (us_ctx s))) = uc_response (us_ctx s)"
    and "uc_status (fst (uart_finish msg (us_ctx s))) \<longleftrightarrow>
      markers_in (um_markerChar msg) rcv = unat (um_expectedMarkerCount msg)"
    and "snd (uart_finish msg (us_ctx s)) = (case um_responseMsg msg of
        Some m \<Rightarrow> PostMsg (um_responseTaskID msg) m
      | None \<Rightarrow> SignalEvent (if markers_in (um_markerChar msg) rcv = unat (um_expectedMarkerCount msg)
                  then um_successEvent msg else um_failureEvent msg))"
  using assms
  by (auto simp: uart_finish_def Let_def rx_inv_def word_less_nat_alt split: option.split)

section \<open>The real port\<close>

lemma real_writes: "writes real_write clock i t p = p\<lparr>rp_sent := rp_sent p @ t\<rparr>"
  by (induction t arbitrary: i p) (simp_all add: real_write_def)

lemma real_receive_sent:
  "uart_receive real_isr real_available real_read msg es s = Some (out, s') \<Longrightarrow>
     rp_sent (us_port s') = rp_sent (us_port s)"
proof (induction es arbitrary: s)
  case (Cons te es)
  obtain now e where te: "te = (now, e)" by (cases te)
  have isr: "rp_sent (real_isr p e) = rp_sent p" for p
    by (simp add: real_isr_eq)
  have rd: "real_read p now = (p', c) \<Longrightarrow> rp_sent p' = rp_sent p" for p p' c
    by (auto simp: real_read_def split: list.splits)
  have ch: "us_port (snd (rx_char msg c t)) = us_port t" for c t
    by (simp add: rx_char_def rememberMarker_def Let_def)
  have st: "rp_sent (us_port (snd (rx_step real_available real_read msg now t))) = rp_sent (us_port t)"
    for t :: "RealPort Uart"
    by (auto simp: rx_step_def Let_def ch split: prod.split option.split dest: rd)
  show ?case
    using Cons st [of "s\<lparr>us_port := real_isr (us_port s) e\<rparr>"] te
    by (auto simp: isr split: prod.splits if_splits)
qed simp


definition demo_msg :: "string \<Rightarrow> u8 \<Rightarrow> UARTMsg" where
  "demo_msg t n = \<lparr>um_sendData = t, um_timeout = 10000, um_markerChar = END_OF_RESPONSE,
     um_expectedMarkerCount = n, um_successEvent = 1, um_failureEvent = 2, um_responseMsg = None,
     um_responseTaskID = 0\<rparr>"

definition demo_real :: "RealPort Uart" where
  "demo_real = \<lparr>us_ctx = demo_uart [], us_markerPos = replicate 5 0,
     us_port = \<lparr>rp_queue = [], rp_sent = [], rp_rxneie = False, rp_enabled = False\<rparr>\<rparr>"


text \<open>
  The receive loop cannot run for ever: on the interrupt-driven port, once no more bytes arrive
  and the timeout has passed, it ends within one iteration more than the bytes still queued.
\<close>

theorem uart_receive_stops:
  assumes "length (rp_queue (us_port s)) \<le> queue_capacity" "rx_inv msg rcv s"
    and "um_markerChar msg \<noteq> NUL"
    and "markers_in (um_markerChar msg) rcv < unat (um_expectedMarkerCount msg)"
    and "list_all (\<lambda>(now, e). e = [] \<and> now - uc_sentTime (us_ctx s) > um_timeout msg) es"
    and "length (rp_queue (us_port s)) < length es"
  shows "\<exists>out s'. uart_receive real_isr real_available real_read msg es s = Some (out, s')"
proof -
  have "real.quiet es"
    using assms(5) by (auto simp: real.quiet_def list_all_iff)
  moreover have "list_all (\<lambda>(now, e). now - uc_sentTime (us_ctx s) > um_timeout msg) es"
    using assms(5) by (auto simp: list_all_iff)
  ultimately show ?thesis
    using real.receive_stops [OF assms(1-4)] assms(6) by auto
qed

lemma uart_receive_stops_witness:
  "\<exists>out s'. uart_receive real_isr real_available real_read (demo_msg ''AT'' 1) [(20000, [])]
     (rx_start real_ops (demo_msg ''AT'' 1) (\<lambda>_. 0) 0 demo_real) = Some (out, s')"
proof (rule uart_receive_stops)
  show "rx_inv (demo_msg ''AT'' 1) [] (rx_start real_ops (demo_msg ''AT'' 1) (\<lambda>_. 0) 0 demo_real)"
    by (rule rx_inv_start) (simp add: demo_real_def demo_uart_def)
qed (simp_all add: demo_msg_def markers_in_def rx_start_def real_ops_def real_writes real_listen_def
    real_begin_def)

section \<open>The simulated Wisol module\<close>

lemma sim_run_pending:
  assumes "sim_wf p" "wire_text msg = t @ [END_OF_RESPONSE]" "END_OF_RESPONSE \<notin> set t"
  shows "sim_wf (writes sim_write clock 0 (wire_text msg) (sim_begin p))"
    and "sim_pending (writes sim_write clock 0 (wire_text msg) (sim_begin p)) = fst (sim_reply t) @ [END_OF_RESPONSE]"
    and "sp_dataTimestamp (writes sim_write clock 0 (wire_text msg) (sim_begin p)) = clock (length t) + snd (sim_reply t)"
proof -
  let ?p0 = "sim_begin p"
  have wf0: "sim_wf ?p0" "cstr (sp_command ?p0) = []"
    using assms(1) by (simp_all add: sim_begin_def sim_wf_def length_poke terminated_poke_nul cstr_poke_nul_any)
  have "plain (wire_text msg)" "length (wire_text msg) \<le> MAX_UART_SEND_MSG_SIZE"
    by (simp_all add: wire_text_def)
  then have t: "plain t" "length t < MAX_UART_SEND_MSG_SIZE"
    using assms(2) by simp_all
  let ?p1 = "writes sim_write clock 0 t ?p0"
  have p1: "sim_wf ?p1" "cstr (sp_command ?p1) = t"
    using sim_writes_text [OF wf0(1) t(1) assms(3), of clock 0] t(2) wf0(2) by (simp_all add: strlen_def)
  let ?p2 = "simulateCommand ?p1 (clock (length t)) (sp_command ?p1)"
  have w: "writes sim_write clock 0 (wire_text msg) ?p0 = ?p2\<lparr>sp_command := poke (sp_command ?p2) 0 NUL\<rparr>"
    by (simp add: assms(2) writes_append sim_write_def Let_def)
  have r: "sim_reply (sp_command ?p1) = sim_reply t"
    using p1(2) t(1) by (intro sim_reply_cstr) (simp add: cstr_plain)
  note sc = simulateCommand_pending [OF p1(1), of "clock (length t)" "sp_command ?p1"]
  show "sim_wf (writes sim_write clock 0 (wire_text msg) (sim_begin p))"
    using sc(1) unfolding w by (simp add: sim_wf_def length_poke terminated_poke_nul)
  show "sim_pending (writes sim_write clock 0 (wire_text msg) (sim_begin p)) = fst (sim_reply t) @ [END_OF_RESPONSE]"
    using sc(2) unfolding w by (simp add: sim_pending_def r)
  show "sp_dataTimestamp (writes sim_write clock 0 (wire_text msg) (sim_begin p)) = clock (length t) + snd (sim_reply t)"
    unfolding w by (simp add: sc(3) r)
qed

lemma wisol_session_lemma:
  assumes "sim_wf (us_port s)" "length (uc_response (us_ctx s)) = MAX_UART_RESPONSE_MSG_SIZE + 1"
    and "take MAX_UART_SEND_MSG_SIZE (cstr (um_sendData msg)) = t @ [END_OF_RESPONSE]" "END_OF_RESPONSE \<notin> set t"
    and "um_markerChar msg = END_OF_RESPONSE"
    and "unat (um_expectedMarkerCount msg) = Suc (markers_in END_OF_RESPONSE (fst (sim_reply t)))"
    and "due = clock (length t) + snd (sim_reply t)"
    and "list_all (\<lambda>(now, e). now < due \<and> now - sent \<le> um_timeout msg) waits"
    and "list_all (\<lambda>(now, e). \<not> now < due) polls" "length polls = Suc (length (fst (sim_reply t)))"
  shows "\<exists>s' act. uart_run sim_ops msg clock sent (waits @ polls) s = Some (s', act) \<and>
    cstr (uc_response (us_ctx s')) = payload_of END_OF_RESPONSE (fst (sim_reply t)) \<and>
    length (uc_response (us_ctx s')) = MAX_UART_RESPONSE_MSG_SIZE + 1 \<and>
    uc_status (us_ctx s') \<and>
    act = (case um_responseMsg msg of Some m \<Rightarrow> PostMsg (um_responseTaskID msg) m
           | None \<Rightarrow> SignalEvent (um_successEvent msg))"
proof -
  let ?s = "rx_start sim_ops msg clock sent s" and ?r = "fst (sim_reply t)"
  let ?got = "?r @ [END_OF_RESPONSE]"
  have w: "wire_text msg = t @ [END_OF_RESPONSE]" using assms(3) by (simp add: wire_text_def)
  have port: "us_port ?s = writes sim_write clock 0 (wire_text msg) (sim_begin (us_port s))"
    by (simp add: rx_start_def sim_ops_def)
  have st: "uc_sentTime (us_ctx ?s) = sent"
    by (simp add: rx_start_def)
  note p = sim_run_pending [OF assms(1) w assms(4), of clock, folded port]
  have nz: "um_markerChar msg \<noteq> NUL" using assms(5) by simp
  have q: "sim.quiet es" for es by (auto simp: sim.quiet_def)
  have 1: "list_all (\<lambda>(now, e). \<not> \<not> now < sp_dataTimestamp (us_port ?s) \<and>
      now - uc_sentTime (us_ctx ?s) \<le> um_timeout msg) waits"
    using assms(7,8) p(3) st by (simp add: list_all_iff split_beta)
  obtain q1 where q1: "sim_wf q1" "sim_pending q1 = sim_pending (us_port ?s)"
    "\<forall>t. (\<not> t < sp_dataTimestamp q1) = (\<not> t < sp_dataTimestamp (us_port ?s))"
    "uart_receive sim_isr sim_available sim_read msg (waits @ polls) ?s =
       uart_receive sim_isr sim_available sim_read msg polls (?s\<lparr>us_port := q1\<rparr>)"
    using sim.receive_waits [OF p(1) q 1] by blast
  let ?s1 = "?s\<lparr>us_port := q1\<rparr>"
  have i1: "rx_inv msg [] ?s1"
    using rx_inv_start [OF assms(2), of msg sim_ops clock sent] by (simp add: rx_inv_def)
  have e2: "list_all (\<lambda>(now, e). \<not> now < sp_dataTimestamp (us_port ?s1)) polls"
    using assms(7,9) p(3) q1(3) by (auto simp: list_all_iff)
  have m: "markers_in (um_markerChar msg) ([] @ butlast ?got) < unat (um_expectedMarkerCount msg)"
    "markers_in (um_markerChar msg) ([] @ ?got) = unat (um_expectedMarkerCount msg)"
    using assms(5,6) by (simp_all add: markers_in_def)
  obtain s2 where s2: "uart_receive sim_isr sim_available sim_read msg polls ?s1 = Some (RxDone, s2)"
    "rx_inv msg ([] @ ?got) s2"
    using sim.receive_ready [OF _ i1 nz _ q e2 _ _ _ m, where rest = "[]"] q1 p(2) assms(6,10)
    by (auto simp: markers_in_def)
  have le: "markers_in (um_markerChar msg) ([] @ ?got) \<le> unat (um_expectedMarkerCount msg)"
    using m(2) by simp
  note f = uart_finish_law [OF s2(2) le]
  have pl: "payload_of END_OF_RESPONSE [END_OF_RESPONSE] = []"
    by (simp add: payload_of_def)
  have "length (payload_of END_OF_RESPONSE ?r) \<le> MAX_UART_RESPONSE_MSG_SIZE"
  proof -
    have "length (payload_of END_OF_RESPONSE ?r) \<le> length ?r" by (simp add: payload_of_def)
    also have "\<dots> = strlen ?r" using sim_reply_length(2) [of t] by (simp add: strlen_def cstr_plain)
    also have "\<dots> \<le> MAX_UART_RESPONSE_MSG_SIZE" using sim_reply_length(1) [of t] by simp
    finally show ?thesis .
  qed
  then have r: "cstr (uc_response (us_ctx s2)) = payload_of END_OF_RESPONSE ?r"
    "length (uc_response (us_ctx s2)) = MAX_UART_RESPONSE_MSG_SIZE + 1"
    using s2(2) pl assms(5) by (simp_all add: rx_inv_def)
  have "uart_run sim_ops msg clock sent (waits @ polls) s = Some
      (s2\<lparr>us_ctx := fst (uart_finish msg (us_ctx s2)), us_port := po_end sim_ops (us_port s2)\<rparr>,
       snd (uart_finish msg (us_ctx s2)))"
    unfolding uart_run_eq by (simp add: sim_ops_def q1(4) [unfolded sim_ops_def] s2(1) [unfolded sim_ops_def])
  then show ?thesis
    using f m(2) r by simp
qed

text \<open>
  A command sent to the simulated Wisol module is answered: if the loop polls until the reply is
  due without reaching the timeout, and then once for every byte of the reply, the task succeeds and
  its response is the reply of the module without the end-of-response markers.
\<close>

theorem wisol_session:
  assumes "sim_wf (us_port s)" "length (uc_response (us_ctx s)) = MAX_UART_RESPONSE_MSG_SIZE + 1"
    and "take MAX_UART_SEND_MSG_SIZE (cstr (um_sendData msg)) = t @ [END_OF_RESPONSE]" "END_OF_RESPONSE \<notin> set t"
    and "um_markerChar msg = END_OF_RESPONSE"
    and "unat (um_expectedMarkerCount msg) = Suc (markers_in END_OF_RESPONSE (fst (sim_reply t)))"
    and "due = clock (length t) + snd (sim_reply t)"
    and "list_all (\<lambda>(now, e). now < due \<and> now - sent \<le> um_timeout msg) waits"
    and "list_all (\<lambda>(now, e). \<not> now < due) polls" "length polls = Suc (length (fst (sim_reply t)))"
  shows "\<exists>s' act. uart_run sim_ops msg clock sent (waits @ polls) s = Some (s', act) \<and>
    cstr (uc_response (us_ctx s')) = payload_of END_OF_RESPONSE (fst (sim_reply t)) \<and>
    length (uc_response (us_ctx s')) = MAX_UART_RESPONSE_MSG_SIZE + 1 \<and>
    uc_status (us_ctx s') \<and>
    act = (case um_responseMsg msg of Some m \<Rightarrow> PostMsg (um_responseTaskID msg) m
           | None \<Rightarrow> SignalEvent (um_successEvent msg))"
  by (rule wisol_session_lemma [where t = t and due = due and clock = clock]) (fact assms)+

definition demo_sim :: "SimPort Uart" where
  "demo_sim = \<lparr>us_ctx = demo_uart [], us_markerPos = replicate 5 0,
     us_port = \<lparr>sp_command = replicate 36 NUL, sp_data = replicate 37 NUL, sp_dataLength = 0,
       sp_dataIndex = 0, sp_dataTimestamp = 0\<rparr>\<rparr>"

lemma sim_wf_demo: "sim_wf (us_port demo_sim)"
  by (simp add: demo_sim_def sim_wf_def terminated_def)

lemma wisol_session_witness:
  "\<exists>s' act. uart_run sim_ops (demo_msg (CMD_GET_ID @ [CHR 0x0D]) 1) (\<lambda>i. 10 * of_nat i) 80
       ([(80, ()), (1080, ())] @ map (\<lambda>t. (t, ())) [2080, 2081, 2082, 2083, 2084, 2085, 2086, 2087, 2088])
       demo_sim = Some (s', act) \<and>
     cstr (uc_response (us_ctx s')) = ''002C2EA1'' \<and> act = SignalEvent 1"
proof -
  have r: "sim_reply CMD_GET_ID = (''002C2EA1'', 2000)"
    by (simp add: sim_reply_def strcmp_eq_def cstr_def NUL_def)
  have pl: "payload_of END_OF_RESPONSE ''002C2EA1'' = ''002C2EA1''"
    by (simp add: payload_of_def NUL_def)
  have h: "take MAX_UART_SEND_MSG_SIZE (cstr (um_sendData (demo_msg (CMD_GET_ID @ [CHR 0x0D]) 1))) =
      CMD_GET_ID @ [END_OF_RESPONSE]"
    "END_OF_RESPONSE \<notin> set CMD_GET_ID" "length (uc_response (us_ctx demo_sim)) = MAX_UART_RESPONSE_MSG_SIZE + 1"
    by (simp_all add: demo_msg_def demo_sim_def demo_uart_def cstr_def NUL_def)
  show ?thesis
    using wisol_session [OF sim_wf_demo h(3,1,2), where clock = "\<lambda>i. 10 * of_nat i" and sent = 80
        and waits = "[(80, ()), (1080, ())]"
        and polls = "map (\<lambda>t. (t, ())) [2080, 2081, 2082, 2083, 2084, 2085, 2086, 2087, 2088]"]
    by (auto simp: r demo_msg_def markers_in_def pl)
qed

end
