(* ===== verification/Aggregate.thy ===== *)
theory Aggregate
  imports Response
begin

text \<open>
  \<^verbatim>\<open>src/aggregate.cpp\<close>: the last value of each sensor (\<^verbatim>\<open>recallSensor\<close>, \<^verbatim>\<open>copySensorData\<close>), the payload
  of decimal digits (\<^verbatim>\<open>addPayloadInt\<close>), and \<^verbatim>\<open>aggregate_sensor_data\<close>, which throttles and composes the
  Send Step. The statics of the file are the fields of \<open>Agg\<close>.
\<close>

section \<open>Single-precision values\<close>

text \<open>
  \<^verbatim>\<open>data * 10\<close> on a float is the exact product rounded to 24 significant bits, ties to even. The
  conversion to \<^verbatim>\<open>int\<close> drops the fraction. Overflow of either is undefined in C and not modelled.
\<close>

fun excess_bits :: "nat \<Rightarrow> nat" where
  "excess_bits m = (if m < 2 ^ 24 then 0 else Suc (excess_bits (m div 2)))"

declare excess_bits.simps [simp del]

definition round_half_even :: "nat \<Rightarrow> nat \<Rightarrow> nat" where
  "round_half_even m k =
     (let q = m div 2 ^ k; r = m mod 2 ^ k
      in if 2 * r > 2 ^ k \<or> 2 * r = 2 ^ k \<and> odd q then q + 1 else q)"

definition f32_round :: "int \<Rightarrow> int \<Rightarrow> f32" where
  "f32_round m e =
     (let a = nat \<bar>m\<bar>; k = excess_bits a
      in if k = 0 then F32 m e else F32 (sgn m * int (round_half_even a k)) (e + int k))"

definition f32_times_10 :: "f32 \<Rightarrow> f32" where
  "f32_times_10 x = f32_round (mantissa x * 10) (exponent x)"

definition f32_to_int :: "f32 \<Rightarrow> int" where
  "f32_to_int x = (if exponent x \<ge> 0 then mantissa x * 2 ^ nat (exponent x)
     else mantissa x sdiv 2 ^ nat (- exponent x))"

section \<open>The saved sensors\<close>

abbreviation PAYLOAD_SIZE :: nat where "PAYLOAD_SIZE \<equiv> 25"

record Agg =
  ag_sensorData :: "SensorMsg list"
  ag_payload :: "char list"
  ag_sequenceNumber :: int

text \<open>The search loop of \<^verbatim>\<open>recallSensor\<close>: the slot of the name, or the first empty slot.\<close>

function recall_loop :: "SensorMsg list \<Rightarrow> string \<Rightarrow> nat \<Rightarrow> nat option \<Rightarrow> nat + nat option" where
  "recall_loop sensorData name i emptyIndex =
     (if i \<ge> MAX_SENSOR_COUNT then Inr emptyIndex
      else if strncmp_eq MAX_SENSOR_NAME_SIZE name (sm_name (sensorData ! i)) then Inl i
      else recall_loop sensorData name (Suc i)
             (if emptyIndex = None \<and> charAt (sm_name (sensorData ! i)) 0 = NUL then Some i
              else emptyIndex))"
  by pat_completeness auto
termination by (relation "measure (\<lambda>(_, _, i, _). MAX_SENSOR_COUNT - i)") auto

declare recall_loop.simps [simp del]

definition alloc_sensor :: "SensorMsg \<Rightarrow> string \<Rightarrow> SensorMsg" where
  "alloc_sensor m name = m\<lparr>
     sm_name := poke (strncpy (sm_name m) name MAX_SENSOR_NAME_SIZE) MAX_SENSOR_NAME_SIZE NUL,
     sm_count := 0, sm_data := poke (sm_data m) 0 f32_zero\<rparr>"

definition recallSensor :: "SensorMsg list \<Rightarrow> string \<Rightarrow> SensorMsg list \<times> nat option" where
  "recallSensor sensorData name =
     (case recall_loop sensorData name 0 None of
        Inl i \<Rightarrow> (sensorData, Some i)
      | Inr None \<Rightarrow> (sensorData, None)
      | Inr (Some e) \<Rightarrow> (poke sensorData e (alloc_sensor (sensorData ! e) name), Some e))"

fun copy_loop :: "f32 list \<Rightarrow> f32 list \<Rightarrow> nat \<Rightarrow> nat \<Rightarrow> f32 list" where
  "copy_loop dest src i 0 = dest"
| "copy_loop dest src i (Suc n) = copy_loop (poke dest i (src ! i)) src (Suc i) n"

definition copySensorData :: "SensorMsg \<Rightarrow> SensorMsg \<Rightarrow> SensorMsg" where
  "copySensorData dest src =
     dest\<lparr>sm_data := copy_loop (sm_data dest) (sm_data src) 0 (unat (sm_count src)),
          sm_count := sm_count src\<rparr>"

definition setup_aggregate :: "Agg \<Rightarrow> Agg" where
  "setup_aggregate a = a\<lparr>ag_sensorData :=
     map (\<lambda>m. m\<lparr>sm_name := poke (sm_name m) 0 NUL, sm_count := 0\<rparr>) (ag_sensorData a)\<rparr>"

section \<open>The payload\<close>

fun put_digits :: "char list \<Rightarrow> nat \<Rightarrow> nat \<Rightarrow> int \<Rightarrow> char list" where
  "put_digits buf len 0 data = buf"
| "put_digits buf len (Suc i) data =
     put_digits (poke buf (len + i) (chr_of_int (int_of_chr CHR ''0'' + data smod 10)))
       len i (data sdiv 10)"

definition addPayloadInt :: "char list \<Rightarrow> nat \<Rightarrow> string \<Rightarrow> int \<Rightarrow> nat \<Rightarrow> char list" where
  "addPayloadInt payloadBuffer payloadSize name data numDigits =
     (let length = strlen payloadBuffer
      in if length + numDigits \<ge> payloadSize then payloadBuffer
         else poke (put_digits payloadBuffer length numDigits data) (length + numDigits) NUL)"

definition sendSensors :: "string list" where
  "sendSensors = [''tmp'', ''hmd'', ''alt'']"

definition sensor_value :: "SensorMsg list \<Rightarrow> nat option \<Rightarrow> f32" where
  "sensor_value sensorData i = (case i of None \<Rightarrow> f32_zero | Some i \<Rightarrow> sm_data (sensorData ! i) ! 0)"

fun add_sensors :: "Agg \<Rightarrow> string list \<Rightarrow> Agg" where
  "add_sensors a [] = a"
| "add_sensors a (sensorName # names) =
     (let (sensorData, i) = recallSensor (ag_sensorData a) sensorName;
          scaledData = f32_to_int (f32_times_10 (sensor_value sensorData i))
      in add_sensors (a\<lparr>ag_sensorData := sensorData,
           ag_payload := addPayloadInt (ag_payload a) PAYLOAD_SIZE sensorName scaledData 4\<rparr>) names)"

definition pad_payload :: "char list \<Rightarrow> char list" where
  "pad_payload payload =
     (let length = strlen payload
      in if odd length \<and> length < PAYLOAD_SIZE - 1
         then poke (poke payload length CHR ''0'') (length + 1) NUL else payload)"

definition compose_payload :: "Agg \<Rightarrow> Agg" where
  "compose_payload a =
     (let payload = addPayloadInt (poke (ag_payload a) 0 NUL) PAYLOAD_SIZE ''seq'' (ag_sequenceNumber a) 4;
          a = add_sensors (a\<lparr>ag_payload := payload, ag_sequenceNumber := ag_sequenceNumber a + 1\<rparr>) sendSensors
      in a\<lparr>ag_payload := pad_payload (ag_payload a)\<rparr>)"

text \<open>
  \<^verbatim>\<open>aggregate_sensor_data\<close>. The payload of the composed command is the contents of the payload buffer.
  Timestamps are 32-bit words: both the sum and the comparison are the machine's.
\<close>

definition aggregate_sensor_data ::
  "NetworkContext \<Rightarrow> SensorMsg \<Rightarrow> NetworkCmd list \<Rightarrow> nat \<Rightarrow> u32 \<Rightarrow> Agg
    \<Rightarrow> NetworkContext \<times> NetworkCmd list \<times> Agg \<times> bool" where
  "aggregate_sensor_data context msg cmdList cmdListSize millis a =
     (if strncmp_eq MAX_SENSOR_NAME_SIZE (sm_name msg) BEGIN_SENSOR_NAME
      then (context, getStepBegin context cmdList cmdListSize, a, True)
      else
        case recallSensor (ag_sensorData a) (sm_name msg) of
          (sensorData, None) \<Rightarrow> (context, cmdList, a\<lparr>ag_sensorData := sensorData\<rparr>, False)
        | (sensorData, Some i) \<Rightarrow>
            let a = a\<lparr>ag_sensorData := poke sensorData i (copySensorData (sensorData ! i) msg)\<rparr>
            in if nc_lastSend context + SEND_INTERVAL > millis then (context, cmdList, a, False)
               else
                 let context = context\<lparr>nc_lastSend := millis + MAX_TIMEOUT\<rparr>;
                     a = compose_payload a
                 in (context,
                     getStepSend context cmdList cmdListSize (cstr (ag_payload a)) True, a, True))"

end
