(* ===== verification/SensorStore.thy ===== *)
theory SensorStore
  imports Aggregate
begin

text \<open>
  The saved sensors of \<^verbatim>\<open>aggregate.cpp\<close> as a map from names to readings. \<open>sensor_map\<close> is what the
  aggregator relies on: recall finds or allocates the slot of a name, and storing a message in a
  slot changes the reading of that name only. The array of three messages provides it.
\<close>

section \<open>The interface\<close>

locale sensor_map =
  fixes inv :: "'s \<Rightarrow> bool"
    and reading :: "'s \<Rightarrow> 'k \<Rightarrow> 'v option"
    and recall :: "'s \<Rightarrow> 'n \<Rightarrow> 's \<times> 'i option"
    and store :: "'s \<Rightarrow> 'i \<Rightarrow> 'm \<Rightarrow> 's"
    and holds :: "'s \<Rightarrow> 'i \<Rightarrow> 'k \<Rightarrow> bool"
    and key :: "'n \<Rightarrow> 'k"
    and named :: "'n \<Rightarrow> bool"
    and val :: "'m \<Rightarrow> 'v"
    and valid :: "'m \<Rightarrow> bool"
    and zero :: "'v"
  assumes recall_full:
      "inv s \<Longrightarrow> named n \<Longrightarrow> recall s n = (s', None) \<Longrightarrow> s' = s \<and> reading s (key n) = None"
    and recall_slot:
      "inv s \<Longrightarrow> named n \<Longrightarrow> recall s n = (s', Some i) \<Longrightarrow>
         inv s' \<and> holds s' i (key n) \<and>
         reading s' = (if reading s (key n) = None then (reading s)(key n \<mapsto> zero) else reading s)"
    and store_slot:
      "inv s \<Longrightarrow> holds s i k \<Longrightarrow> valid m \<Longrightarrow>
         inv (store s i m) \<and> reading (store s i m) = (reading s)(k \<mapsto> val m)"
begin

definition save :: "'s \<Rightarrow> 'n \<Rightarrow> 'm \<Rightarrow> 's" where
  "save s n m = (case recall s n of (s', None) \<Rightarrow> s' | (s', Some i) \<Rightarrow> store s' i m)"

lemma recall_inv: "inv s \<Longrightarrow> named n \<Longrightarrow> inv (fst (recall s n))"
  using recall_full [of s n] recall_slot [of s n] by (cases "recall s n"; cases "snd (recall s n)") auto

lemma save_inv: "inv s \<Longrightarrow> named n \<Longrightarrow> valid m \<Longrightarrow> inv (save s n m)"
  using recall_full [of s n] recall_slot [of s n] store_slot
  by (auto simp: save_def split: prod.split option.split)

lemma reading_save:
  assumes "inv s" "named n" "valid m" "reading s (key n) \<noteq> None \<or> snd (recall s n) \<noteq> None"
  shows "reading (save s n m) = (reading s)(key n \<mapsto> val m)"
proof -
  obtain s' i where r: "recall s n = (s', Some i)"
    using assms recall_full [of s n] by (cases "recall s n"; cases "snd (recall s n)") auto
  then show ?thesis
    using assms recall_slot [of s n s' i] store_slot [of s' i "key n" m]
    by (auto simp: save_def)
qed

text \<open>A name that is known once is never refused, and its last message is what is read.\<close>

lemma save_keeps_known:
  assumes "inv s" "named n" "valid m" "reading s k \<noteq> None"
  shows "reading (save s n m) k \<noteq> None"
proof (cases "snd (recall s n)")
  case None
  then show ?thesis
    using assms recall_full [of s n "fst (recall s n)"]
    by (cases "recall s n") (auto simp: save_def)
next
  case (Some i)
  then have "reading (save s n m) = (reading s)(key n \<mapsto> val m)"
    using assms by (intro reading_save) simp_all
  then show ?thesis using assms(4) by auto
qed

lemma reading_save_known:
  "inv s \<Longrightarrow> named n \<Longrightarrow> valid m \<Longrightarrow> reading s (key n) \<noteq> None \<Longrightarrow>
     reading (save s n m) = (reading s)(key n \<mapsto> val m)"
  by (rule reading_save) simp_all

lemma reading_saves:
  assumes "inv s" "list_all (\<lambda>(n, m). named n \<and> valid m \<and> reading s (key n) \<noteq> None) ms"
  shows "reading (foldl (\<lambda>s (n, m). save s n m) s ms) =
    (reading s) ++ map_of (rev (map (\<lambda>(n, m). (key n, val m)) ms))"
  using assms
proof (induction ms arbitrary: s)
  case Nil
  then show ?case by simp
next
  case (Cons nm ms)
  obtain n m where nm: "nm = (n, m)" by (cases nm)
  have s: "inv (save s n m)" "reading (save s n m) = (reading s)(key n \<mapsto> val m)"
    using Cons.prems nm by (simp_all add: save_inv reading_save_known)
  have "list_all (\<lambda>(n', m'). named n' \<and> valid m' \<and> reading (save s n m) (key n') \<noteq> None) ms"
    using Cons.prems(2) unfolding s(2) by (auto simp: list_all_iff)
  then show ?case
    using Cons.IH [OF s(1)] nm by (simp add: s(2) del: fun_upd_apply)
qed

end

section \<open>The array of sensors\<close>

definition slot_key :: "SensorMsg \<Rightarrow> string" where
  "slot_key m = cstr (sm_name m)"

definition name_key :: "string \<Rightarrow> string" where
  "name_key name = take MAX_SENSOR_NAME_SIZE (cstr name)"

definition reading :: "SensorMsg list \<Rightarrow> string \<Rightarrow> f32 option" where
  "reading sd = map_of (map (\<lambda>m. (slot_key m, sm_data m ! 0)) (filter (\<lambda>m. slot_key m \<noteq> []) sd))"

definition store_wf :: "SensorMsg list \<Rightarrow> bool" where
  "store_wf sd \<longleftrightarrow> length sd = MAX_SENSOR_COUNT \<and> list_all sensor_msg_wf sd \<and>
     distinct (map slot_key (filter (\<lambda>m. slot_key m \<noteq> []) sd))"

definition slot_holds :: "SensorMsg list \<Rightarrow> nat \<Rightarrow> string \<Rightarrow> bool" where
  "slot_holds sd i k \<longleftrightarrow> i < length sd \<and> slot_key (sd ! i) = k \<and> k \<noteq> []"

text \<open>A message that carries at least one value and at most as many as its array holds.\<close>

definition data_msg :: "SensorMsg \<Rightarrow> bool" where
  "data_msg m \<longleftrightarrow> length (sm_data m) = MAX_SENSOR_DATA_SIZE \<and> 1 \<le> unat (sm_count m) \<and>
     unat (sm_count m) \<le> MAX_SENSOR_DATA_SIZE"

definition named_sensor :: "string \<Rightarrow> bool" where
  "named_sensor name \<longleftrightarrow> cstr name \<noteq> []"

lemma strncmp_slot:
  assumes "sensor_msg_wf m"
  shows "strncmp_eq MAX_SENSOR_NAME_SIZE name (sm_name m) \<longleftrightarrow> name_key name = slot_key m"
proof -
  have "strlen (sm_name m) \<le> MAX_SENSOR_NAME_SIZE"
    using assms by (simp add: sensor_msg_wf_def strlen_less_terminated)
  then show ?thesis
    by (simp add: strncmp_eq_def name_key_def slot_key_def strlen_def)
qed

lemma slot_empty: "charAt (sm_name m) 0 = NUL \<longleftrightarrow> slot_key m = []"
  by (simp add: charAt_0 slot_key_def)

lemma recall_loop_3:
  assumes "list_all sensor_msg_wf [a, b, c]"
  shows "recall_loop [a, b, c] name 0 None =
    (if name_key name = slot_key a then Inl 0 else if name_key name = slot_key b then Inl 1
     else if name_key name = slot_key c then Inl 2
     else Inr (if slot_key a = [] then Some 0 else if slot_key b = [] then Some 1
               else if slot_key c = [] then Some 2 else None))"
  using assms
  by (simp add: recall_loop.simps [of _ _ 0] recall_loop.simps [of _ _ "Suc 0"]
      recall_loop.simps [of _ _ "Suc (Suc 0)"] recall_loop.simps [of _ _ "Suc (Suc (Suc 0))"]
      strncmp_slot slot_empty)

lemma alloc_sensor:
  assumes "sensor_msg_wf m"
  shows "slot_key (alloc_sensor m name) = name_key name" "sensor_msg_wf (alloc_sensor m name)"
    "sm_data (alloc_sensor m name) ! 0 = f32_zero"
  using assms cstr_strncpy_terminated [of "sm_name m" MAX_SENSOR_NAME_SIZE name]
  by (simp_all add: alloc_sensor_def slot_key_def name_key_def sensor_msg_wf_def length_poke nth_poke)

lemma copy_loop_eq:
  "i + n \<le> length dest \<Longrightarrow> i + n \<le> length src \<Longrightarrow>
     copy_loop dest src i n = take i dest @ slice src i n @ drop (i + n) dest"
proof (induction dest src i n rule: copy_loop.induct)
  case (1 dest src i)
  then show ?case by (simp add: slice_def)
next
  case (2 dest src i n)
  have "slice src i (Suc n) = src ! i # slice src (Suc i) n"
    using "2.prems"(2) by (simp add: slice_def Cons_nth_drop_Suc [symmetric] del: Cons_nth_drop_Suc)
  moreover have "i < length dest" using "2.prems"(1) by simp
  ultimately show ?case
    using 2 by (simp add: length_poke take_Suc_poke drop_poke)
qed

lemma copySensorData_msg:
  assumes "sensor_msg_wf m" "data_msg src"
  shows "sensor_msg_wf (copySensorData m src)" "slot_key (copySensorData m src) = slot_key m"
    "sm_data (copySensorData m src) ! 0 = sm_data src ! 0"
    "sm_data (copySensorData m src) =
       take (unat (sm_count src)) (sm_data src) @ drop (unat (sm_count src)) (sm_data m)"
proof -
  let ?n = "unat (sm_count src)"
  have n: "1 \<le> ?n" "?n \<le> MAX_SENSOR_DATA_SIZE" "length (sm_data src) = MAX_SENSOR_DATA_SIZE"
    "length (sm_data m) = MAX_SENSOR_DATA_SIZE"
    using assms by (simp_all add: data_msg_def sensor_msg_wf_def)
  show d: "sm_data (copySensorData m src) = take ?n (sm_data src) @ drop ?n (sm_data m)"
    using n by (simp add: copySensorData_def copy_loop_eq slice_def)
  show "sm_data (copySensorData m src) ! 0 = sm_data src ! 0"
    unfolding d using n by (simp add: nth_append)
  show "sensor_msg_wf (copySensorData m src)"
    using assms(1) n d by (simp add: sensor_msg_wf_def copySensorData_def)
  show "slot_key (copySensorData m src) = slot_key m"
    by (simp add: slot_key_def copySensorData_def)
qed

lemma store_wf_cases:
  assumes "store_wf sd"
  obtains a b c where "sd = [a, b, c]"
  using assms by (auto simp: store_wf_def eval_nat_numeral length_Suc_conv)


lemma reading_3:
  "reading [a, b, c] k = (if k = [] then None else if slot_key a = k then Some (sm_data a ! 0)
     else if slot_key b = k then Some (sm_data b ! 0)
     else if slot_key c = k then Some (sm_data c ! 0) else None)"
  by (auto simp: reading_def)

lemma store_wf_3:
  "store_wf [a, b, c] \<longleftrightarrow> list_all sensor_msg_wf [a, b, c] \<and>
     (slot_key a \<noteq> [] \<longrightarrow> slot_key a \<noteq> slot_key b \<and> slot_key a \<noteq> slot_key c) \<and>
     (slot_key b \<noteq> [] \<longrightarrow> slot_key b \<noteq> slot_key c)"
  by (auto simp: store_wf_def)

lemma slot_holds_3:
  "slot_holds [a, b, c] i k \<longleftrightarrow> k \<noteq> [] \<and>
     (i = 0 \<and> slot_key a = k \<or> i = 1 \<and> slot_key b = k \<or> i = 2 \<and> slot_key c = k)"
  by (auto simp: slot_holds_def less_Suc_eq numeral_3_eq_3)

lemma poke_3: "poke [a, b, c] 0 x = [x, b, c]" "poke [a, b, c] (Suc 0) x = [a, x, c]"
  "poke [a, b, c] 2 x = [a, b, x]"
  by (simp_all add: poke_def)

lemmas slots_3 = reading_3 store_wf_3 slot_holds_3 poke_3

lemma name_key_nonempty: "named_sensor n \<Longrightarrow> name_key n \<noteq> []"
  by (simp add: named_sensor_def name_key_def)

interpretation agg: sensor_map store_wf reading recallSensor
    "\<lambda>sd i m. poke sd i (copySensorData (sd ! i) m)" slot_holds name_key named_sensor
    "\<lambda>m. sm_data m ! 0" data_msg f32_zero
proof unfold_locales
  fix sd :: "SensorMsg list" and n sd'
  assume wf: "store_wf sd" and n: "named_sensor n" and r: "recallSensor sd n = (sd', None)"
  obtain a b c where sd: "sd = [a, b, c]" using wf by (rule store_wf_cases)
  show "sd' = sd \<and> reading sd (name_key n) = None"
    using wf r name_key_nonempty [OF n] unfolding sd recallSensor_def
    by (auto simp: recall_loop_3 slots_3 split: if_splits)
next
  fix sd :: "SensorMsg list" and n sd' i
  assume wf: "store_wf sd" and n: "named_sensor n" and r: "recallSensor sd n = (sd', Some i)"
  obtain a b c where sd: "sd = [a, b, c]" using wf by (rule store_wf_cases)
  show "store_wf sd' \<and> slot_holds sd' i (name_key n) \<and>
      reading sd' = (if reading sd (name_key n) = None then (reading sd)(name_key n \<mapsto> f32_zero) else reading sd)"
    using wf r name_key_nonempty [OF n] unfolding sd recallSensor_def
    by (auto simp: recall_loop_3 slots_3 alloc_sensor fun_eq_iff split: if_splits)
next
  fix sd :: "SensorMsg list" and i k and m :: SensorMsg
  assume wf: "store_wf sd" and h: "slot_holds sd i k" and m: "data_msg m"
  obtain a b c where sd: "sd = [a, b, c]" using wf by (rule store_wf_cases)
  show "store_wf (poke sd i (copySensorData (sd ! i) m)) \<and>
      reading (poke sd i (copySensorData (sd ! i) m)) = (reading sd)(k \<mapsto> sm_data m ! 0)"
    using wf h m unfolding sd
    by (auto simp: slots_3 copySensorData_msg(1-3) fun_eq_iff)
qed

lemma reading_slot:
  assumes "store_wf sd" "slot_holds sd i k"
  shows "reading sd k = Some (sm_data (sd ! i) ! 0)"
proof -
  obtain a b c where "sd = [a, b, c]" using assms(1) by (rule store_wf_cases)
  then show ?thesis using assms by (auto simp: slots_3)
qed

section \<open>The aggregator's use of the map\<close>

text \<open>What \<^verbatim>\<open>aggregate_sensor_data\<close> does with a message before it looks at the time.\<close>

definition save_sensor :: "SensorMsg list \<Rightarrow> SensorMsg \<Rightarrow> SensorMsg list" where
  "save_sensor sd m = (case recallSensor sd (sm_name m) of
       (sd', None) \<Rightarrow> sd'
     | (sd', Some i) \<Rightarrow> poke sd' i (copySensorData (sd' ! i) m))"

lemma save_sensor_eq: "save_sensor sd m = agg.save sd (sm_name m) m"
  by (simp add: save_sensor_def agg.save_def)

lemma store_wf_save_sensors:
  "store_wf sd \<Longrightarrow> list_all (\<lambda>m. named_sensor (sm_name m) \<and> data_msg m) ms \<Longrightarrow>
     store_wf (foldl save_sensor sd ms)"
  by (induction ms arbitrary: sd) (simp_all add: save_sensor_eq agg.save_inv)


definition named_msg :: "string \<Rightarrow> f32 \<Rightarrow> SensorMsg" where
  "named_msg n x = \<lparr>sm_signal = 0, sm_name = n @ replicate (4 - length n) NUL,
     sm_data = [x, f32_zero, f32_zero], sm_count = 1\<rparr>"


end
