(* ===== verification/Payload.thy ===== *)
theory Payload
  imports SensorStore
begin

text \<open>
  The payload of \<^verbatim>\<open>aggregate.cpp\<close>: the digits \<^verbatim>\<open>addPayloadInt\<close> writes and what they mean, and the
  whole of \<^verbatim>\<open>aggregate_sensor_data\<close>: throttling, payload and command list.
\<close>

section \<open>Digits\<close>

primrec dec_text :: "nat \<Rightarrow> int \<Rightarrow> string" where
  "dec_text 0 d = []"
| "dec_text (Suc n) d = dec_text n (d sdiv 10) @ [chr_of_int (int_of_chr CHR ''0'' + d smod 10)]"

definition parse_dec :: "string \<Rightarrow> int" where
  "parse_dec s = foldl (\<lambda>a c. 10 * a + (int_of_chr c - int_of_chr CHR ''0'')) 0 s"

definition is_digit :: "char \<Rightarrow> bool" where
  "is_digit c \<longleftrightarrow> int_of_chr CHR ''0'' \<le> int_of_chr c \<and> int_of_chr c \<le> int_of_chr CHR ''9''"

lemma int_of_chr_of_int: "int_of_chr (chr_of_int n) = n mod 256"
  by (simp add: int_of_chr_def chr_of_int_def)

lemma chr_of_int_nonzero: "n mod 256 \<noteq> 0 \<Longrightarrow> chr_of_int n \<noteq> NUL"
  using int_of_chr_of_int [of n] by (auto simp: NUL_def int_of_chr_def)

lemma digit_0: "int_of_chr CHR ''0'' = 48" "int_of_chr CHR ''9'' = 57"
  by (simp_all add: int_of_chr_def)

lemma smod_10: "- 9 \<le> d smod 10" "d smod 10 \<le> (9 :: int)"
  using smod_int_range [of 10 d] by auto

lemma length_dec_text [simp]: "length (dec_text n d) = n"
  by (induction n arbitrary: d) simp_all

lemma plain_dec_text [simp]: "plain (dec_text n d)"
proof (induction n arbitrary: d)
  case (Suc n)
  have "(48 + d smod 10) mod 256 = 48 + d smod 10"
    using smod_10 [of d] by simp
  then have "chr_of_int (48 + d smod 10) \<noteq> NUL"
    using smod_10 [of d] by (intro chr_of_int_nonzero) simp
  with Suc show ?case by (simp add: digit_0)
qed simp

lemma digit_chr:
  assumes "0 \<le> k" "k \<le> 9"
  shows "int_of_chr (chr_of_int (int_of_chr CHR ''0'' + k)) = int_of_chr CHR ''0'' + k"
  using assms by (simp add: int_of_chr_of_int digit_0)

lemma dec_text_digits: "0 \<le> d \<Longrightarrow> list_all is_digit (dec_text n d)"
proof (induction n arbitrary: d)
  case (Suc n)
  moreover have "0 \<le> d smod 10" using Suc.prems by (simp add: smod_nonneg)
  ultimately show ?case
    using smod_10 [of d] by (simp add: sdiv_nonneg is_digit_def digit_chr, simp add: digit_0)
qed simp

lemma parse_dec_text: "0 \<le> d \<Longrightarrow> parse_dec (dec_text n d) = d mod 10 ^ n"
proof (induction n arbitrary: d)
  case 0
  then show ?case by (simp add: parse_dec_def)
next
  case (Suc n)
  have "parse_dec (dec_text (Suc n) d) = 10 * parse_dec (dec_text n (d sdiv 10)) + d smod 10"
    using Suc.prems smod_10 [of d] by (simp add: parse_dec_def digit_chr smod_nonneg)
  also have "\<dots> = 10 * (d div 10 mod 10 ^ n) + d mod 10"
    using Suc by (simp add: sdiv_nonneg smod_nonneg)
  also have "\<dots> = d mod 10 ^ Suc n"
    by (simp add: zmod_zmult2_eq)
  finally show ?case .
qed

section \<open>addPayloadInt\<close>

lemma put_digits_eq:
  "len + n \<le> length buf \<Longrightarrow> put_digits buf len n d = take len buf @ dec_text n d @ drop (len + n) buf"
proof (induction n arbitrary: buf d)
  case (Suc n)
  let ?c = "chr_of_int (int_of_chr CHR ''0'' + d smod 10)"
  have "drop (len + n) (poke buf (len + n) ?c) = ?c # drop (len + Suc n) buf"
    using Suc.prems by (simp add: poke_def)
  then show ?case
    using Suc by (simp add: length_poke take_poke)
qed simp

lemma addPayloadInt_room:
  assumes "length buf = sz" "strlen buf + n < sz"
  shows "cstr (addPayloadInt buf sz name d n) = cstr buf @ dec_text n d"
    and "length (addPayloadInt buf sz name d n) = sz"
proof -
  have d: "put_digits buf (strlen buf) n d = cstr buf @ dec_text n d @ drop (strlen buf + n) buf"
    using assms by (simp add: put_digits_eq take_strlen)
  have e: "addPayloadInt buf sz name d n = poke (put_digits buf (strlen buf) n d) (strlen buf + n) NUL"
    using assms(2) by (simp add: addPayloadInt_def Let_def)
  have "cstr (put_digits buf (strlen buf) n d) = cstr buf @ dec_text n d @ cstr (drop (strlen buf + n) buf)"
    unfolding d by (simp add: cstr_append)
  then show "cstr (addPayloadInt buf sz name d n) = cstr buf @ dec_text n d"
    unfolding e by (simp add: cstr_poke_nul_any strlen_def)
  have "length (put_digits buf (strlen buf) n d) = sz"
    unfolding d using assms strlen_le [of buf] by (simp add: strlen_def)
  then show "length (addPayloadInt buf sz name d n) = sz"
    unfolding e using assms(2) by (simp add: length_poke)
qed

lemma addPayloadInt_full: "strlen buf + n \<ge> sz \<Longrightarrow> addPayloadInt buf sz name d n = buf"
  by (simp add: addPayloadInt_def)

text \<open>
  A non-negative number added to the payload appears at its end as \<open>n\<close> decimal digits that
  read back as the number modulo \<open>10 ^ n\<close>, inside the buffer; when there is no room for the digits and
  the terminator nothing changes.
\<close>

theorem addPayloadInt_roundtrip:
  assumes "length buf = sz" "terminated buf" "0 \<le> d"
  shows "if strlen buf + n < sz
    then \<exists>ds. cstr (addPayloadInt buf sz name d n) = cstr buf @ ds \<and> length ds = n \<and>
      list_all is_digit ds \<and> parse_dec ds = d mod 10 ^ n \<and>
      length (addPayloadInt buf sz name d n) = sz
    else addPayloadInt buf sz name d n = buf"
  using assms addPayloadInt_room [of buf sz n name d] dec_text_digits [of d n]
  by (auto simp: parse_dec_text addPayloadInt_full)

lemma addPayloadInt_roundtrip_witness:
  "\<exists>ds. cstr (addPayloadInt (''0042'' @ replicate 21 NUL) 25 ''tmp'' 12345 4) = ''0042'' @ ds \<and>
     parse_dec ds = 2345"
proof -
  have "cstr (''0042'' @ replicate 21 NUL) = ''0042''" by code_simp
  then show ?thesis
    using addPayloadInt_roundtrip [of "''0042'' @ replicate 21 NUL" 25 12345 4 "''tmp''"]
    by (auto simp: strlen_def terminated_def)
qed

text \<open>
  A negative reading is not sent as digits: minus 5.0 degrees, scaled to -50, becomes the text
  \<^verbatim>\<open>00+0\<close>, which is not a hexadecimal payload.
\<close>

theorem addPayloadInt_negative:
  "cstr (addPayloadInt (replicate 25 NUL) 25 ''tmp'' (f32_to_int (f32_times_10 (F32 (- 5) 0))) 4) = ''00+0''"
proof -
  have "f32_to_int (f32_times_10 (F32 (- 5) 0)) = - 50"
    by (simp add: f32_to_int_def f32_times_10_def f32_round_def excess_bits.simps [of 50])
  moreover have "dec_text 4 (- 50) = ''00+0''"
    by (simp add: eval_nat_numeral digit_0 chr_of_int_def char_of_def signed_divide_int_def
        signed_modulo_int_def)
  moreover have "cstr (replicate 25 NUL) = []"
    by (simp add: eval_nat_numeral)
  ultimately show ?thesis
    by (simp add: addPayloadInt_room strlen_def)
qed

section \<open>The payload of the saved sensors\<close>

definition tenths :: "(string \<Rightarrow> f32 option) \<Rightarrow> string \<Rightarrow> int" where
  "tenths r k = (case r k of None \<Rightarrow> 0 | Some x \<Rightarrow> f32_to_int (f32_times_10 x))"

lemma scaled_zero: "f32_to_int (f32_times_10 f32_zero) = 0"
  by (simp add: f32_to_int_def f32_times_10_def f32_round_def excess_bits.simps)

lemma tenths_alloc: "tenths (r(k \<mapsto> f32_zero)) = (\<lambda>j. if j = k then 0 else tenths r j)"
  by (auto simp: tenths_def scaled_zero fun_eq_iff)

lemma recall_tenths:
  assumes "store_wf sd" "named_sensor n" "recallSensor sd n = (sd', i)"
  shows "store_wf sd'" "tenths (reading sd') = tenths (reading sd)"
    "f32_to_int (f32_times_10 (sensor_value sd' i)) = tenths (reading sd) (name_key n)"
proof -
  have "store_wf sd' \<and> tenths (reading sd') = tenths (reading sd) \<and>
      f32_to_int (f32_times_10 (sensor_value sd' i)) = tenths (reading sd) (name_key n)"
  proof (cases i)
    case None
    then have "sd' = sd" "reading sd (name_key n) = None"
      using agg.recall_full [of sd n sd'] assms by simp_all
    then show ?thesis
      using assms(1) None by (simp add: sensor_value_def scaled_zero, simp add: tenths_def)
  next
    case (Some j)
    then have r: "store_wf sd'" "slot_holds sd' j (name_key n)"
      "reading sd' = (if reading sd (name_key n) = None then (reading sd)(name_key n \<mapsto> f32_zero) else reading sd)"
      using agg.recall_slot [of sd n sd' j] assms by simp_all
    then have t: "tenths (reading sd') = tenths (reading sd)"
      by (auto simp: tenths_def scaled_zero fun_eq_iff)
    have "f32_to_int (f32_times_10 (sensor_value sd' i)) = tenths (reading sd') (name_key n)"
      using reading_slot [OF r(1,2)] Some by (simp add: tenths_def sensor_value_def)
    then show ?thesis using r(1) t by simp
  qed
  then show "store_wf sd'" "tenths (reading sd') = tenths (reading sd)"
    "f32_to_int (f32_times_10 (sensor_value sd' i)) = tenths (reading sd) (name_key n)"
    by simp_all
qed

definition agg_wf :: "Agg \<Rightarrow> bool" where
  "agg_wf a \<longleftrightarrow> store_wf (ag_sensorData a) \<and> length (ag_payload a) = PAYLOAD_SIZE"

definition sensors_text :: "(string \<Rightarrow> f32 option) \<Rightarrow> string list \<Rightarrow> string" where
  "sensors_text r names = concat (map (\<lambda>n. dec_text 4 (tenths r (name_key n))) names)"

lemma add_sensors_text:
  assumes "agg_wf a" "strlen (ag_payload a) + 4 * length names < PAYLOAD_SIZE" "list_all named_sensor names"
  shows "agg_wf (add_sensors a names) \<and>
    cstr (ag_payload (add_sensors a names)) =
      cstr (ag_payload a) @ sensors_text (reading (ag_sensorData a)) names \<and>
    tenths (reading (ag_sensorData (add_sensors a names))) = tenths (reading (ag_sensorData a)) \<and>
    ag_sequenceNumber (add_sensors a names) = ag_sequenceNumber a"
  using assms
proof (induction names arbitrary: a)
  case Nil
  then show ?case by (simp add: sensors_text_def)
next
  case (Cons n names)
  obtain sd' i where r: "recallSensor (ag_sensorData a) n = (sd', i)" by fastforce
  note t = recall_tenths [OF _ _ r]
  have wf: "store_wf (ag_sensorData a)" "named_sensor n" "length (ag_payload a) = PAYLOAD_SIZE"
    using Cons.prems by (simp_all add: agg_wf_def)
  let ?d = "tenths (reading (ag_sensorData a)) (name_key n)"
  let ?p = "addPayloadInt (ag_payload a) PAYLOAD_SIZE n ?d 4"
  let ?a = "a\<lparr>ag_sensorData := sd', ag_payload := ?p\<rparr>"
  have p: "cstr ?p = cstr (ag_payload a) @ dec_text 4 ?d" "length ?p = PAYLOAD_SIZE"
    using Cons.prems wf(3) by (auto intro!: addPayloadInt_room)
  have step: "add_sensors a (n # names) = add_sensors ?a names"
    using r t wf by simp
  have sens: "sensors_text (reading sd') names = sensors_text (reading (ag_sensorData a)) names"
    using t(2) [OF wf(1,2)] by (simp add: sensors_text_def)
  have "strlen ?p = strlen (ag_payload a) + 4"
    by (simp add: strlen_def p)
  then have "agg_wf (add_sensors ?a names) \<and>
      cstr (ag_payload (add_sensors ?a names)) = cstr ?p @ sensors_text (reading sd') names \<and>
      tenths (reading (ag_sensorData (add_sensors ?a names))) = tenths (reading sd') \<and>
      ag_sequenceNumber (add_sensors ?a names) = ag_sequenceNumber a"
    using Cons.IH [of ?a] Cons.prems t(1) [OF wf(1,2)] p by (simp add: agg_wf_def)
  then show ?case
    unfolding step sens t(2) [OF wf(1,2)] p(1) by (simp add: sensors_text_def)
qed

lemma sendSensors_keys: "list_all named_sensor sendSensors" "map name_key sendSensors = sendSensors"
  "length sendSensors = 3"
  by (simp_all add: sendSensors_def named_sensor_def name_key_def cstr_def NUL_def)

definition payload_text :: "int \<Rightarrow> (string \<Rightarrow> f32 option) \<Rightarrow> string" where
  "payload_text seq r = dec_text 4 seq @ dec_text 4 (tenths r ''tmp'') @
     dec_text 4 (tenths r ''hmd'') @ dec_text 4 (tenths r ''alt'')"

lemma payload_text_eq: "payload_text seq r = dec_text 4 seq @ sensors_text r sendSensors"
  using sendSensors_keys(2) by (simp add: payload_text_def sensors_text_def sendSensors_def)

lemma length_payload_text [simp]: "length (payload_text seq r) = 16"
  by (simp add: payload_text_def)

lemma plain_payload_text [simp]: "plain (payload_text seq r)"
  by (simp add: payload_text_def)

lemma compose_payload_text:
  assumes "agg_wf a"
  shows "agg_wf (compose_payload a)"
    and "cstr (ag_payload (compose_payload a)) = payload_text (ag_sequenceNumber a) (reading (ag_sensorData a))"
    and "ag_sequenceNumber (compose_payload a) = ag_sequenceNumber a + 1"
    and "tenths (reading (ag_sensorData (compose_payload a))) = tenths (reading (ag_sensorData a))"
proof -
  let ?b = "poke (ag_payload a) 0 NUL"
  let ?p = "addPayloadInt ?b PAYLOAD_SIZE ''seq'' (ag_sequenceNumber a) 4"
  let ?a = "a\<lparr>ag_payload := ?p, ag_sequenceNumber := ag_sequenceNumber a + 1\<rparr>"
  have b: "length ?b = PAYLOAD_SIZE" "cstr ?b = []" "strlen ?b = 0"
    using assms by (simp_all add: agg_wf_def length_poke cstr_poke_nul_any strlen_def)
  have p: "cstr ?p = dec_text 4 (ag_sequenceNumber a)" "length ?p = PAYLOAD_SIZE"
    using addPayloadInt_room [of ?b PAYLOAD_SIZE 4 "''seq''" "ag_sequenceNumber a"] b by simp_all
  have "agg_wf ?a" "strlen (ag_payload ?a) + 4 * length sendSensors < PAYLOAD_SIZE"
    using assms p by (simp_all add: agg_wf_def strlen_def sendSensors_keys)
  note s = add_sensors_text [OF this sendSensors_keys(1)]
  have "cstr (ag_payload (add_sensors ?a sendSensors)) =
      payload_text (ag_sequenceNumber a) (reading (ag_sensorData a))"
    using s p by (simp add: payload_text_eq)
  moreover from this have "pad_payload (ag_payload (add_sensors ?a sendSensors)) = ag_payload (add_sensors ?a sendSensors)"
    by (simp add: pad_payload_def strlen_def Let_def)
  ultimately show "agg_wf (compose_payload a)"
    "cstr (ag_payload (compose_payload a)) = payload_text (ag_sequenceNumber a) (reading (ag_sensorData a))"
    "ag_sequenceNumber (compose_payload a) = ag_sequenceNumber a + 1"
    "tenths (reading (ag_sensorData (compose_payload a))) = tenths (reading (ag_sensorData a))"
    using s by (simp_all add: compose_payload_def Let_def)
qed

section \<open>aggregate_sensor_data\<close>

text \<open>A message the aggregator saves: not the begin message, with a name, data, and a slot.\<close>

definition accepted :: "Agg \<Rightarrow> SensorMsg \<Rightarrow> bool" where
  "accepted a msg \<longleftrightarrow> agg_wf a \<and> data_msg msg \<and> named_sensor (sm_name msg) \<and>
     name_key (sm_name msg) \<noteq> BEGIN_SENSOR_NAME \<and> snd (recallSensor (ag_sensorData a) (sm_name msg)) \<noteq> None"

lemma strncmp_begin:
  "strncmp_eq MAX_SENSOR_NAME_SIZE name BEGIN_SENSOR_NAME \<longleftrightarrow> name_key name = BEGIN_SENSOR_NAME"
  by (simp add: strncmp_eq_def name_key_def BEGIN_SENSOR_NAME_def cstr_def NUL_def)

definition save_msg :: "Agg \<Rightarrow> SensorMsg \<Rightarrow> Agg" where
  "save_msg a msg = a\<lparr>ag_sensorData := save_sensor (ag_sensorData a) msg\<rparr>"

lemma save_msg_laws:
  assumes "accepted a msg"
  shows "agg_wf (save_msg a msg)"
    and "reading (ag_sensorData (save_msg a msg)) =
           (reading (ag_sensorData a))(name_key (sm_name msg) \<mapsto> sm_data msg ! 0)"
    and "ag_sequenceNumber (save_msg a msg) = ag_sequenceNumber a"
  using assms agg.reading_save [of "ag_sensorData a" "sm_name msg" msg]
    agg.save_inv [of "ag_sensorData a" "sm_name msg" msg]
  by (simp_all add: save_msg_def accepted_def agg_wf_def save_sensor_eq)

lemma aggregate_accepted:
  assumes "accepted a msg"
  shows "aggregate_sensor_data ctx msg list n now a =
    (if nc_lastSend ctx + SEND_INTERVAL > now then (ctx, list, save_msg a msg, False)
     else (ctx\<lparr>nc_lastSend := now + MAX_TIMEOUT\<rparr>,
           getStepSend (ctx\<lparr>nc_lastSend := now + MAX_TIMEOUT\<rparr>) list n
             (cstr (ag_payload (compose_payload (save_msg a msg)))) True,
           compose_payload (save_msg a msg), True))"
  using assms
  by (auto simp: aggregate_sensor_data_def strncmp_begin accepted_def save_msg_def save_sensor_def
      Let_def split: prod.split option.split)

text \<open>
  C19. A sensor message that arrives when the throttle allows sending is composed into one Send Step:
  the payload is the running number and the latest tmp, hmd and alt readings in tenths (0 for a
  sensor that never reported), four characters each, the new reading included; the number grows by
  one and the throttle is closed for the longest timeout.
\<close>

theorem aggregate_sends:
  assumes "accepted a msg" "length list = MAX_NETWORK_CMD_LIST_SIZE"
    and "\<not> nc_lastSend ctx + SEND_INTERVAL > now"
  shows "\<exists>list' a'. aggregate_sensor_data ctx msg (poke list 0 endOfList) MAX_NETWORK_CMD_LIST_SIZE now a =
      (ctx\<lparr>nc_lastSend := now + MAX_TIMEOUT\<rparr>, list', a', True) \<and>
    cmds list' = zone_cmds (nc_zone ctx) @ [send_cmd (payload_text (ag_sequenceNumber a)
      ((reading (ag_sensorData a))(name_key (sm_name msg) \<mapsto> sm_data msg ! 0))) True] \<and>
    agg_wf a' \<and> ag_sequenceNumber a' = ag_sequenceNumber a + 1 \<and>
    tenths (reading (ag_sensorData a')) =
      tenths ((reading (ag_sensorData a))(name_key (sm_name msg) \<mapsto> sm_data msg ! 0))"
proof -
  note sv = save_msg_laws [OF assms(1)]
  note c = compose_payload_text [OF sv(1)]
  have "cmds (getStepSend (ctx\<lparr>nc_lastSend := now + MAX_TIMEOUT\<rparr>) (poke list 0 endOfList)
      MAX_NETWORK_CMD_LIST_SIZE payload True) = zone_cmds (nc_zone ctx) @ [send_cmd payload True]" for payload
    using step_cmds_send [OF assms(2)] by simp
  then show ?thesis
    using assms(3) c sv by (simp add: aggregate_accepted [OF assms(1)])
qed

definition demo_agg :: Agg where
  "demo_agg = \<lparr>ag_sensorData = [named_msg ''tmp'' (F32 27 0), zero_SensorMsg, zero_SensorMsg],
     ag_payload = replicate 25 NUL, ag_sequenceNumber = 3\<rparr>"

lemma accepted_demo: "accepted demo_agg (named_msg ''hmd'' (F32 163 (- 1)))"
  by code_simp

text \<open>27 degrees and 81.5 percent: the payload is \<^verbatim>\<open>0003027008150000\<close>.\<close>

lemma aggregate_sends_witness:
  "\<exists>list' a'. aggregate_sensor_data demo_ctx (named_msg ''hmd'' (F32 163 (- 1)))
       (poke (replicate 5 endOfList) 0 endOfList) 5 40000 demo_agg =
      (demo_ctx\<lparr>nc_lastSend := 100000\<rparr>, list', a', True) \<and>
    cmds list' = zone_cmds RCZ4 @ [send_cmd ''0003027008150000'' True]"
proof -
  have "reading (ag_sensorData demo_agg) = [''tmp'' \<mapsto> F32 27 0]"
    by (simp add: demo_agg_def named_msg_def reading_3 fun_eq_iff slot_key_def cstr_def NUL_def
        zero_SensorMsg_def eval_nat_numeral)
  moreover have "payload_text 3 [''tmp'' \<mapsto> F32 27 0, ''hmd'' \<mapsto> F32 163 (- 1)] = ''0003027008150000''"
  proof -
    have "f32_to_int (f32_times_10 (F32 27 0)) = 270" "f32_to_int (f32_times_10 (F32 163 (- 1))) = 815"
      by (simp_all add: f32_to_int_def f32_times_10_def f32_round_def sdiv_nonneg
          excess_bits.simps [of 270] excess_bits.simps [of 1630])
    moreover have "dec_text 4 3 = ''0003''" "dec_text 4 270 = ''0270''" "dec_text 4 815 = ''0815''"
      "dec_text 4 0 = ''0000''"
      by (simp_all add: eval_nat_numeral digit_0 chr_of_int_def char_of_def sdiv_nonneg smod_nonneg)
    ultimately show ?thesis
      by (simp add: payload_text_def tenths_def)
  qed
  moreover have "name_key (sm_name (named_msg ''hmd'' x)) = ''hmd''" "sm_data (named_msg ''hmd'' x) ! 0 = x" for x
    by (simp_all add: named_msg_def name_key_def cstr_def NUL_def)
  moreover have z: "nc_lastSend demo_ctx = 0" "nc_zone demo_ctx = RCZ4" "ag_sequenceNumber demo_agg = 3"
    by (simp_all add: demo_ctx_def demo_agg_def)
  ultimately show ?thesis
    using aggregate_sends [OF accepted_demo, where list = "replicate 5 endOfList" and ctx = demo_ctx and now = 40000]
    by (auto simp: z)
qed

text \<open>
  While the throttle is closed a message is saved but nothing is sent and the network context
  and the command list stay as they are; and as long as the timestamp has not wrapped, the throttle
  is closed exactly until \<^verbatim>\<open>SEND_INTERVAL\<close> after the last send.
\<close>

theorem aggregate_throttles:
  assumes "accepted a msg" "unat (nc_lastSend ctx) + unat SEND_INTERVAL < 2 ^ 32"
  shows "(snd (snd (snd (aggregate_sensor_data ctx msg list n now a))) \<longleftrightarrow>
       unat now \<ge> unat (nc_lastSend ctx) + unat SEND_INTERVAL) \<and>
    (unat now < unat (nc_lastSend ctx) + unat SEND_INTERVAL \<longrightarrow>
       aggregate_sensor_data ctx msg list n now a = (ctx, list, save_msg a msg, False))"
proof -
  have "unat (nc_lastSend ctx + SEND_INTERVAL) = unat (nc_lastSend ctx) + unat SEND_INTERVAL"
    using assms(2) by (subst unat_add_lem [THEN iffD1]) simp_all
  then have "nc_lastSend ctx + SEND_INTERVAL > now \<longleftrightarrow>
      unat now < unat (nc_lastSend ctx) + unat SEND_INTERVAL"
    by (simp add: word_less_nat_alt)
  then show ?thesis
    by (simp add: aggregate_accepted [OF assms(1)])
qed

lemma aggregate_throttles_witness:
  "aggregate_sensor_data demo_ctx (named_msg ''hmd'' (F32 1 0)) [] 0 19999 demo_agg =
     (demo_ctx, [], save_msg demo_agg (named_msg ''hmd'' (F32 1 0)), False)"
proof -
  have "accepted demo_agg (named_msg ''hmd'' (F32 1 0))" by code_simp
  from aggregate_throttles [OF this, where ctx = demo_ctx and now = 19999 and list = "[]" and n = 0]
  show ?thesis by (simp add: demo_ctx_def)
qed

text \<open>
  The comparison of timestamps does not survive the wrap of the millisecond counter: with the
  last send a minute before the wrap, 70 seconds later (10 seconds after it) the throttle
  is still closed, whatever the message.
\<close>

theorem throttle_wraps:
  "let last = - 60000 :: u32; now = 10000 :: u32 in
     now - last = 70000 \<and> SEND_INTERVAL < now - last \<and>
     (\<forall>ctx. snd (snd (snd (aggregate_sensor_data (ctx\<lparr>nc_lastSend := last\<rparr>)
        (named_msg ''hmd'' (F32 1 0)) [] 0 now demo_agg))) = False)"
proof -
  have "accepted demo_agg (named_msg ''hmd'' (F32 1 0))" by code_simp
  then show ?thesis by (simp add: aggregate_accepted)
qed

end
