(* ===== verification/Network.thy ===== *)
theory Network
  imports Payload
begin

text \<open>
  \<^verbatim>\<open>network_task\<close> of \<^verbatim>\<open>src/wisol.cpp\<close> as a state machine. The task is a cocoOS coroutine: it runs
  without interruption between the calls that may wait, so its program counter is the call it waits
  in (\<open>pc\<close>), and a step is what it does from one wait to the next. The environment gives the message
  received, the semaphore, or the event, and the time of the step; the UART Task may change its own
  context while the Network Task waits. The result of a step is the new state and the messages it
  posts; None is a dereference of a null pointer.
\<close>

section \<open>State\<close>

datatype pc = AtReceive | AtSemWait | AtEventWait

record Task =
  nt_pc :: pc
  nt_net :: Net
  nt_msg :: SensorMsg
  nt_responseMsg :: SensorMsg
  nt_uartMsg :: UARTMsg
  nt_uartData :: "char list"
  nt_agg :: Agg
  nt_successEvent :: u8
  nt_failureEvent :: u8
  nt_tid :: u8
  nt_sendSemaphore :: nat

datatype net_action =
    PostUart u8 UARTMsg
  | ProcessDownlink bool string

text \<open>Updates of the context inside the state.\<close>

definition upd_ctx :: "(NetworkContext \<Rightarrow> NetworkContext) \<Rightarrow> Task \<Rightarrow> Task" where
  "upd_ctx f t = t\<lparr>nt_net := (nt_net t)\<lparr>ns_ctx := f (ns_ctx (nt_net t))\<rparr>\<rparr>"

abbreviation ctx_of :: "Task \<Rightarrow> NetworkContext" where
  "ctx_of t \<equiv> ns_ctx (nt_net t)"

section \<open>The command loop\<close>

text \<open>What follows the loop: erase the begin message, clear the pointers, release the semaphore.\<close>

definition net_finish :: "Task \<Rightarrow> Task" where
  "net_finish t =
     (let t = t\<lparr>nt_msg := (nt_msg t)\<lparr>sm_name := poke (sm_name (nt_msg t)) 0 NUL\<rparr>\<rparr>;
          t = upd_ctx (\<lambda>c. c\<lparr>nc_msg := None, nc_cmdList := None\<rparr>) t
      in t\<lparr>nt_sendSemaphore := nt_sendSemaphore t + 1, nt_pc := AtReceive\<rparr>)"

text \<open>One pass of the loop, up to the wait for the events or out of the loop.\<close>

definition net_next_cmd :: "u32 \<Rightarrow> Task \<Rightarrow> Task \<times> net_action list" where
  "net_next_cmd now t =
     (let t = upd_ctx (\<lambda>c. c\<lparr>nc_lastSend := now\<rparr>) t;
          i = nc_cmdIndex (ctx_of t)
      in if i \<ge> MAX_NETWORK_CMD_LIST_SIZE then (net_finish t, [])
         else
           let cmd = ns_cmdList (nt_net t) ! i
           in if cmd_sendData cmd = None then (net_finish t, [])
              else
                let (uartMsg, uartData) = convertCmdToUART cmd (nt_uartMsg t) (nt_uartData t)
                      (nt_successEvent t) (nt_failureEvent t) (nt_responseMsg t) (nt_tid t);
                    t = t\<lparr>nt_uartMsg := uartMsg, nt_uartData := uartData\<rparr>;
                    t = upd_ctx (\<lambda>c. c\<lparr>nc_lastSend := now + um_timeout uartMsg,
                          nc_pendingProcessFunc := cmd_processFunc cmd\<rparr>) t;
                    post = PostUart (nc_uartTaskID (ctx_of t)) uartMsg
                in if um_responseMsg uartMsg \<noteq> None
                   then (net_finish (upd_ctx (\<lambda>c. c\<lparr>nc_pendingResponse := True\<rparr>) t), [post])
                   else (t\<lparr>nt_pc := AtEventWait\<rparr>, [post]))"

section \<open>Steps\<close>

definition net_event :: "u32 \<Rightarrow> Task \<Rightarrow> (Task \<times> net_action list) option" where
  "net_event now t =
     (case processResponse (nt_net t) of
        None \<Rightarrow> None
      | Some net \<Rightarrow>
          let t = t\<lparr>nt_net := net\<rparr>
          in Some (if \<not> nc_status (ctx_of t) then (net_finish t, [])
                   else net_next_cmd now (upd_ctx (\<lambda>c. c\<lparr>nc_cmdIndex := Suc (nc_cmdIndex c)\<rparr>) t)))"

definition net_sem :: "u32 \<Rightarrow> Task \<Rightarrow> Task \<times> net_action list" where
  "net_sem now t =
     (let t = t\<lparr>nt_sendSemaphore := nt_sendSemaphore t - 1\<rparr>;
          t = upd_ctx (\<lambda>c. c\<lparr>nc_status := True, nc_pendingResponse := False, nc_msg := Some StaticMsg,
                nc_downlinkData := None, nc_cmdList := Some StaticCmdList, nc_cmdIndex := 0,
                nc_lastSend := now + MAX_TIMEOUT\<rparr>) t
      in net_next_cmd now t)"

definition processPendingResponse :: "u32 \<Rightarrow> Task \<Rightarrow> (Task \<times> net_action list) option" where
  "processPendingResponse now t =
     (if \<not> nc_pendingResponse (ctx_of t) then Some (t, [])
      else
        let t = upd_ctx (\<lambda>c. c\<lparr>nc_pendingResponse := False\<rparr>) t
        in case processResponse (nt_net t) of
             None \<Rightarrow> None
           | Some net \<Rightarrow>
               let t = upd_ctx (\<lambda>c. c\<lparr>nc_lastSend := now\<rparr>) (t\<lparr>nt_net := net\<rparr>)
               in Some (t, if nc_downlinkData (ctx_of t) \<noteq> None
                           then [ProcessDownlink (nc_status (ctx_of t))
                                   (cstr (uc_response (ns_uart (nt_net t))))] else []))"

text \<open>The task with its message in \<open>nt_msg\<close>: the begin message at the start, then those received.\<close>

definition net_dispatch :: "u32 \<Rightarrow> Task \<Rightarrow> (Task \<times> net_action list) option" where
  "net_dispatch now t =
     (if strncmp_eq MAX_SENSOR_NAME_SIZE (sm_name (nt_msg t)) RESPONSE_SENSOR_NAME
      then map_option (\<lambda>(t, acts). (t\<lparr>nt_pc := AtReceive\<rparr>, acts)) (processPendingResponse now t)
      else
        let cmdList = poke (ns_cmdList (nt_net t)) 0 endOfList;
            (context, cmdList, agg, shouldSend) =
              aggregate_sensor_data (ctx_of t) (nt_msg t) cmdList MAX_NETWORK_CMD_LIST_SIZE now (nt_agg t);
            t = t\<lparr>nt_net := (nt_net t)\<lparr>ns_ctx := context, ns_cmdList := cmdList\<rparr>, nt_agg := agg\<rparr>
        in Some (t\<lparr>nt_pc := (if shouldSend then AtSemWait else AtReceive)\<rparr>, []))"

definition net_receive :: "u32 \<Rightarrow> SensorMsg \<Rightarrow> Task \<Rightarrow> (Task \<times> net_action list) option" where
  "net_receive now m t = net_dispatch now (t\<lparr>nt_msg := m\<rparr>)"

text \<open>The start of the task: the events, the two static messages and the begin message.\<close>

definition net_start :: "u8 \<Rightarrow> u8 \<Rightarrow> u32 \<Rightarrow> Task \<Rightarrow> (Task \<times> net_action list) option" where
  "net_start success failure now t =
     net_dispatch now (t\<lparr>nt_successEvent := success, nt_failureEvent := failure,
       nt_msg := createSensorMsg (nt_msg t) BEGIN_SENSOR_NAME,
       nt_responseMsg := createSensorMsg (nt_responseMsg t) RESPONSE_SENSOR_NAME\<rparr>)"

section \<open>Runs\<close>

text \<open>
  A label is what the environment contributes. \<open>UartWrites\<close> is the UART Task changing its context; the
  other labels are enabled at the wait they answer.
\<close>

datatype net_label =
    Receive u32 SensorMsg
  | Granted u32
  | Event u32
  | UartWrites UARTContext

inductive net_step :: "Task \<Rightarrow> net_label \<Rightarrow> Task \<times> net_action list \<Rightarrow> bool" where
  receive: "nt_pc t = AtReceive \<Longrightarrow> net_receive now m t = Some r \<Longrightarrow> net_step t (Receive now m) r"
| granted: "nt_pc t = AtSemWait \<Longrightarrow> 0 < nt_sendSemaphore t \<Longrightarrow> net_sem now t = r \<Longrightarrow> net_step t (Granted now) r"
| event: "nt_pc t = AtEventWait \<Longrightarrow> net_event now t = Some r \<Longrightarrow> net_step t (Event now) r"
| uart: "r = (t\<lparr>nt_net := (nt_net t)\<lparr>ns_uart := u\<rparr>\<rparr>, []) \<Longrightarrow> net_step t (UartWrites u) r"

inductive_cases net_stepE:
  "net_step t (Receive now m) r" "net_step t (Granted now) r" "net_step t (Event now) r"
  "net_step t (UartWrites u) r"

text \<open>A run accumulates the actions in order.\<close>

inductive net_run :: "Task \<Rightarrow> net_label list \<Rightarrow> Task \<Rightarrow> net_action list \<Rightarrow> bool" where
  stop: "net_run t [] t []"
| step: "net_step t l (t', as) \<Longrightarrow> net_run t' ls t'' bs \<Longrightarrow> net_run t (l # ls) t'' (as @ bs)"

inductive_cases net_run_NilE: "net_run t [] t' as"
inductive_cases net_run_ConsE: "net_run t (l # ls) t' as"

end
