(* ===== verification/NetworkLaws.thy ===== *)
theory NetworkLaws
  imports Network
begin

text \<open>
  The invariant of the Network Task and the properties that follow from it: no buffer is overrun and
  no null pointer followed, the send semaphore is held exactly while the task waits for the UART,
  and the task only waits for an event that the UART Task will signal.
\<close>

section \<open>The invariant\<close>

text \<open>A command with a payload is never the channel check: its response is processed without a list.\<close>

definition cmd_ok :: "NetworkCmd \<Rightarrow> bool" where
  "cmd_ok c \<longleftrightarrow> (cmd_payload c \<noteq> None \<longrightarrow> cmd_processFunc c \<noteq> Some CheckChannel)"

definition waiting_ok :: "Task \<Rightarrow> bool" where
  "waiting_ok t \<longleftrightarrow> nc_cmdList (ctx_of t) \<noteq> None \<and>
     nc_cmdIndex (ctx_of t) < length (cmds (ns_cmdList (nt_net t))) \<and>
     um_responseMsg (nt_uartMsg t) = None \<and> \<not> nc_pendingResponse (ctx_of t) \<and>
     um_successEvent (nt_uartMsg t) = nt_successEvent t \<and>
     um_failureEvent (nt_uartMsg t) = nt_failureEvent t"

definition idle_ok :: "Task \<Rightarrow> bool" where
  "idle_ok t \<longleftrightarrow> (nc_pendingResponse (ctx_of t) \<longrightarrow> nc_pendingProcessFunc (ctx_of t) \<noteq> Some CheckChannel)"

definition net_inv :: "Task \<Rightarrow> bool" where
  "net_inv t \<longleftrightarrow> net_wf (nt_net t) \<and> agg_wf (nt_agg t) \<and>
     length (nt_uartData t) = MAX_UART_SEND_MSG_SIZE + 1 \<and>
     sensor_msg_wf (nt_msg t) \<and> list_all cmd_ok (cmds (ns_cmdList (nt_net t))) \<and>
     nt_sendSemaphore t = (if nt_pc t = AtEventWait then 0 else 1) \<and>
     (if nt_pc t = AtEventWait then waiting_ok t else idle_ok t) \<and>
     (nt_pc t = AtReceive \<longrightarrow> name_key (sm_name (nt_msg t)) \<noteq> BEGIN_SENSOR_NAME)"

text \<open>What the environment may contribute: well-formed messages with data, and a UART Task that respects its buffer.\<close>

definition msg_ok :: "SensorMsg \<Rightarrow> bool" where
  "msg_ok m \<longleftrightarrow> sensor_msg_wf m \<and>
     (name_key (sm_name m) \<in> {BEGIN_SENSOR_NAME, RESPONSE_SENSOR_NAME} \<or>
      named_sensor (sm_name m) \<and> data_msg m)"

fun label_ok :: "net_label \<Rightarrow> bool" where
  "label_ok (Receive now m) = msg_ok m"
| "label_ok (UartWrites u) = (length (uc_response u) = MAX_UART_RESPONSE_MSG_SIZE + 1 \<and> terminated (uc_response u))"
| "label_ok _ = True"

section \<open>Pieces of a step\<close>

lemma upd_ctx_simps [simp]:
  "nt_pc (upd_ctx f t) = nt_pc t" "ctx_of (upd_ctx f t) = f (ctx_of t)"
  "ns_cmdList (nt_net (upd_ctx f t)) = ns_cmdList (nt_net t)"
  "ns_uart (nt_net (upd_ctx f t)) = ns_uart (nt_net t)"
  "nt_msg (upd_ctx f t) = nt_msg t" "nt_agg (upd_ctx f t) = nt_agg t"
  "nt_uartMsg (upd_ctx f t) = nt_uartMsg t" "nt_uartData (upd_ctx f t) = nt_uartData t"
  "nt_sendSemaphore (upd_ctx f t) = nt_sendSemaphore t"
  "nt_successEvent (upd_ctx f t) = nt_successEvent t" "nt_failureEvent (upd_ctx f t) = nt_failureEvent t"
  "nt_tid (upd_ctx f t) = nt_tid t" "nt_responseMsg (upd_ctx f t) = nt_responseMsg t"
  by (simp_all add: upd_ctx_def)

lemma net_wf_ctx:
  "nc_device c = nc_device (ns_ctx n) \<Longrightarrow> nc_pac c = nc_pac (ns_ctx n) \<Longrightarrow>
     net_wf (n\<lparr>ns_ctx := c\<rparr>) = net_wf n"
  by (simp add: net_wf_def)

lemma net_wf_upd_ctx:
  assumes "\<And>c. nc_device (f c) = nc_device c" "\<And>c. nc_pac (f c) = nc_pac c"
  shows "net_wf (nt_net (upd_ctx f t)) = net_wf (nt_net t)"
  using assms by (simp add: upd_ctx_def net_wf_ctx)

text \<open>The static data of the task, whatever the program counter.\<close>

definition core_inv :: "Task \<Rightarrow> bool" where
  "core_inv t \<longleftrightarrow> net_wf (nt_net t) \<and> agg_wf (nt_agg t) \<and>
     length (nt_uartData t) = MAX_UART_SEND_MSG_SIZE + 1 \<and>
     sensor_msg_wf (nt_msg t) \<and> list_all cmd_ok (cmds (ns_cmdList (nt_net t)))"

lemma net_inv_core:
  "net_inv t \<longleftrightarrow> core_inv t \<and> nt_sendSemaphore t = (if nt_pc t = AtEventWait then 0 else 1) \<and>
     (if nt_pc t = AtEventWait then waiting_ok t else idle_ok t) \<and>
     (nt_pc t = AtReceive \<longrightarrow> name_key (sm_name (nt_msg t)) \<noteq> BEGIN_SENSOR_NAME)"
  by (auto simp: net_inv_def core_inv_def)

lemma name_key_erased: "name_key (poke n 0 NUL) = []"
  by (simp add: name_key_def cstr_poke_nul_any)

lemma sensor_msg_wf_erased:
  "sensor_msg_wf m \<Longrightarrow> sensor_msg_wf (m\<lparr>sm_name := poke (sm_name m) 0 NUL\<rparr>)"
  by (simp add: sensor_msg_wf_def length_poke terminated_poke_nul)

lemma finish_inv:
  assumes "core_inv t" "nt_sendSemaphore t = 0" "idle_ok t"
  shows "net_inv (net_finish t)"
  using assms
  by (auto simp: net_inv_core core_inv_def net_finish_def Let_def idle_ok_def upd_ctx_def net_wf_ctx
      sensor_msg_wf_erased name_key_erased BEGIN_SENSOR_NAME_def)

lemma cmds_nth_ok:
  assumes "cmd_list_wf n list" "list_all cmd_ok (cmds list)" "i < n" "cmd_sendData (list ! i) \<noteq> None"
    and "i \<le> length (cmds list)"
  shows "i < length (cmds list)" "cmd_ok (list ! i)"
proof -
  show i: "i < length (cmds list)"
    using assms is_cmd_nth_iff [of i list] by (simp add: cmd_list_wf_def is_cmd_def)
  then have "list ! i = cmds list ! i" by (simp add: cmds_def takeWhile_nth)
  then show "cmd_ok (list ! i)" using assms(2) i by (simp add: list_all_length)
qed

text \<open>
  One pass of the command loop. The index is at most the number of commands, so the pass ends at the
  end marker at the latest.
\<close>

lemma next_cmd_inv:
  assumes core: "core_inv t" and sem: "nt_sendSemaphore t = 0" and idx: "nc_cmdIndex (ctx_of t) \<le> length (cmds (ns_cmdList (nt_net t)))"
    and list: "nc_cmdList (ctx_of t) \<noteq> None" and pend: "\<not> nc_pendingResponse (ctx_of t)"
  shows "net_inv (fst (net_next_cmd now t))"
proof -
  let ?t = "upd_ctx (\<lambda>c. c\<lparr>nc_lastSend := now\<rparr>) t"
  let ?i = "nc_cmdIndex (ctx_of t)"
  let ?cmd = "ns_cmdList (nt_net t) ! ?i"
  have c1: "core_inv ?t"
    using core by (simp add: core_inv_def net_wf_upd_ctx)
  have wf: "cmd_list_wf MAX_NETWORK_CMD_LIST_SIZE (ns_cmdList (nt_net t))"
    using core by (simp add: core_inv_def net_wf_def)
  have fin: "net_inv (net_finish ?t)"
    using c1 sem pend by (intro finish_inv) (simp_all add: idle_ok_def)
  show ?thesis
  proof (cases "?i \<ge> MAX_NETWORK_CMD_LIST_SIZE \<or> cmd_sendData ?cmd = None")
    case True
    then show ?thesis using fin by (auto simp: net_next_cmd_def Let_def)
  next
    case False
    then obtain w where w: "cmd_sendData ?cmd = Some w" by auto
    have i: "?i < length (cmds (ns_cmdList (nt_net t)))" "cmd_ok ?cmd"
      using False idx wf core cmds_nth_ok [of MAX_NETWORK_CMD_LIST_SIZE "ns_cmdList (nt_net t)" ?i]
      by (auto simp: core_inv_def)
    obtain m b where conv: "convertCmdToUART ?cmd (nt_uartMsg t) (nt_uartData t) (nt_successEvent t)
        (nt_failureEvent t) (nt_responseMsg t) (nt_tid t) = (m, b)" by fastforce
    have mb: "length b = MAX_UART_SEND_MSG_SIZE + 1"
      "um_responseMsg m = (if cmd_payload ?cmd \<noteq> None then Some (nt_responseMsg t) else None)"
      "um_successEvent m = nt_successEvent t" "um_failureEvent m = nt_failureEvent t"
      using convert_laws [OF _ w conv] core by (auto simp: core_inv_def)
    let ?u = "upd_ctx (\<lambda>c. c\<lparr>nc_lastSend := now + um_timeout m, nc_pendingProcessFunc := cmd_processFunc ?cmd\<rparr>)
        (?t\<lparr>nt_uartMsg := m, nt_uartData := b\<rparr>)"
    have cu: "core_inv ?u"
      using core mb(1) by (simp add: core_inv_def net_wf_upd_ctx)
    have step: "net_next_cmd now t =
        (if um_responseMsg m \<noteq> None
         then (net_finish (upd_ctx (\<lambda>c. c\<lparr>nc_pendingResponse := True\<rparr>) ?u), [PostUart (nc_uartTaskID (ctx_of ?u)) m])
         else (?u\<lparr>nt_pc := AtEventWait\<rparr>, [PostUart (nc_uartTaskID (ctx_of ?u)) m]))"
      using False conv by (auto simp: net_next_cmd_def Let_def)
    show ?thesis
    proof (cases "cmd_payload ?cmd = None")
      case True
      then have "fst (net_next_cmd now t) = ?u\<lparr>nt_pc := AtEventWait\<rparr>"
        using step mb(2) by simp
      moreover have "net_inv (?u\<lparr>nt_pc := AtEventWait\<rparr>)"
        using cu i(1) sem list mb True pend
        by (simp add: net_inv_core core_inv_def waiting_ok_def)
      ultimately show ?thesis by simp
    next
      case payload: False
      have "net_inv (net_finish (upd_ctx (\<lambda>c. c\<lparr>nc_pendingResponse := True\<rparr>) ?u))"
        using cu sem i(2) payload
        by (intro finish_inv) (simp_all add: core_inv_def idle_ok_def cmd_ok_def net_wf_upd_ctx)
      then show ?thesis using step mb(2) payload by simp
    qed
  qed
qed

section \<open>Processing a response leaves the rest of the context alone\<close>

definition same_frame :: "Net \<Rightarrow> Net \<Rightarrow> bool" where
  "same_frame s s' \<longleftrightarrow>
     nc_cmdList (ns_ctx s') = nc_cmdList (ns_ctx s) \<and> nc_cmdIndex (ns_ctx s') = nc_cmdIndex (ns_ctx s) \<and>
     nc_pendingResponse (ns_ctx s') = nc_pendingResponse (ns_ctx s) \<and>
     nc_pendingProcessFunc (ns_ctx s') = nc_pendingProcessFunc (ns_ctx s) \<and>
     nc_uartTaskID (ns_ctx s') = nc_uartTaskID (ns_ctx s) \<and>
     length (cmds (ns_cmdList s')) = length (cmds (ns_cmdList s)) \<and>
     (list_all cmd_ok (cmds (ns_cmdList s)) \<longrightarrow> list_all cmd_ok (cmds (ns_cmdList s')))"

lemma same_frame_refl [simp]: "same_frame s s"
  by (simp add: same_frame_def)

lemma checkChannel_frame:
  assumes "net_wf s" "checkChannel s r = Some (s', ok)"
  shows "same_frame s s'"
proof -
  let ?l = "ns_cmdList s" and ?i = "Suc (nc_cmdIndex (ns_ctx s))"
  let ?c = "(?l ! ?i)\<lparr>cmd_sendData := Some CMD_NONE\<rparr>"
  have "s' = s \<or> (?i < MAX_NETWORK_CMD_LIST_SIZE \<and> is_cmd (?l ! ?i) \<and> s' = s\<lparr>ns_cmdList := poke ?l ?i ?c\<rparr>)"
    using assms(2) by (auto simp: checkChannel_def Let_def is_cmd_def split: if_splits)
  then show ?thesis
  proof
    assume u: "?i < MAX_NETWORK_CMD_LIST_SIZE \<and> is_cmd (?l ! ?i) \<and> s' = s\<lparr>ns_cmdList := poke ?l ?i ?c\<rparr>"
    have wf: "cmd_list_wf MAX_NETWORK_CMD_LIST_SIZE ?l" using assms(1) by (simp add: net_wf_def)
    have c: "cmds (poke ?l ?i ?c) = (cmds ?l)[?i := ?c]"
      using u wf by (intro cmds_update_next [OF wf]) (auto simp: is_cmd_def)
    have "list_all cmd_ok ((cmds ?l)[?i := ?c])" if ok: "list_all cmd_ok (cmds ?l)"
    proof (cases "?i < length (cmds ?l)")
      case True
      then have "cmd_ok (?l ! ?i)" using ok by (simp add: list_all_length cmds_def takeWhile_nth)
      then have "cmd_ok ?c" by (simp add: cmd_ok_def)
      then show ?thesis
        using ok set_update_subset_insert [of "cmds ?l" ?i ?c] by (auto simp: list_all_iff)
    next
      case False
      then show ?thesis using ok by (simp add: list_update_beyond)
    qed
    then show ?thesis using u c by (simp add: same_frame_def)
  qed simp
qed

lemma processResponse_frame:
  assumes "net_wf s" "processResponse s = Some s'"
  shows "same_frame s s'"
proof -
  have st: "same_frame s (check_uart_status n) = same_frame s n" "same_frame s (set_status n b) = same_frame s n"
    for n b by (simp_all add: same_frame_def check_uart_status_def set_status_def)
  have dl: "same_frame s (fst (getDownlink s))"
    by (simp add: same_frame_def getDownlink_def Let_def split: option.split)
  show ?thesis
  proof (cases "nc_pendingProcessFunc (ns_ctx s)")
    case None
    then show ?thesis using assms(2) by (auto simp: processResponse_def st)
  next
    case (Some f)
    then obtain n ok where r: "run_process f s = Some (n, ok)" and s': "s' = check_uart_status n \<or> s' = set_status n False"
      using assms(2) by (auto simp: processResponse_def split: option.splits if_splits)
    have "same_frame s n"
      using r dl checkChannel_frame [OF assms(1)]
      by (cases f) (auto simp: run_process_def Let_def getID_def getPAC_def same_frame_def)
    then show ?thesis using s' by (auto simp: st)
  qed
qed

text \<open>Without a channel check no list is needed.\<close>

lemma processResponse_no_list:
  assumes "net_wf s" "nc_pendingProcessFunc (ns_ctx s) \<noteq> Some CheckChannel"
  shows "\<exists>s'. processResponse s = Some s' \<and> net_wf s'"
proof (cases "nc_pendingProcessFunc (ns_ctx s)")
  case None
  then show ?thesis using assms by (simp add: processResponse_def)
next
  case (Some f)
  have "\<exists>s' ok. run_process f s = Some (s', ok)"
    using assms(2) Some by (cases f) (auto simp: run_process_def Let_def)
  then show ?thesis
    using Some assms(1) net_wf_run_process [of s f] by (auto simp: processResponse_def)
qed

section \<open>The steps keep the invariant\<close>

lemma event_inv:
  assumes inv: "net_inv t" and pc: "nt_pc t = AtEventWait"
  shows "\<exists>t' acts. net_event now t = Some (t', acts) \<and> net_inv t'"
proof -
  have t: "core_inv t" "nt_sendSemaphore t = 0" "waiting_ok t"
    using inv pc by (simp_all add: net_inv_core)
  have wf: "net_wf (nt_net t)" and list: "nc_cmdList (ctx_of t) \<noteq> None"
    using t by (simp_all add: core_inv_def waiting_ok_def)
  obtain n where n: "processResponse (nt_net t) = Some n" "net_wf n"
    using processResponse_total [OF wf list] by auto
  have fr: "same_frame (nt_net t) n" using processResponse_frame [OF wf n(1)] .
  let ?t = "t\<lparr>nt_net := n\<rparr>"
  let ?u = "upd_ctx (\<lambda>c. c\<lparr>nc_cmdIndex := Suc (nc_cmdIndex c)\<rparr>) ?t"
  have c: "core_inv ?t" using t(1) n(2) fr by (simp add: core_inv_def same_frame_def)
  have np: "\<not> nc_pendingResponse (ctx_of t)"
    using t(3) by (simp add: waiting_ok_def)
  show ?thesis
  proof (cases "nc_status (ns_ctx n)")
    case True
    have "net_inv (fst (net_next_cmd now ?u))"
      using c t fr list np
      by (intro next_cmd_inv) (simp_all add: core_inv_def net_wf_upd_ctx same_frame_def waiting_ok_def)
    then show ?thesis
      using True n(1) by (cases "net_next_cmd now ?u") (auto simp: net_event_def Let_def)
  next
    case False
    then show ?thesis
      using n(1) finish_inv [OF c] t(2) fr np by (simp add: net_event_def Let_def same_frame_def idle_ok_def)
  qed
qed

lemma sem_inv:
  assumes inv: "net_inv t" and pc: "nt_pc t = AtSemWait"
  shows "net_inv (fst (net_sem now t))"
proof -
  let ?t = "upd_ctx (\<lambda>c. c\<lparr>nc_status := True, nc_pendingResponse := False, nc_msg := Some StaticMsg,
        nc_downlinkData := None, nc_cmdList := Some StaticCmdList, nc_cmdIndex := 0,
        nc_lastSend := now + MAX_TIMEOUT\<rparr>) (t\<lparr>nt_sendSemaphore := nt_sendSemaphore t - 1\<rparr>)"
  have "core_inv ?t" "nt_sendSemaphore ?t = 0"
    using inv pc by (simp_all add: net_inv_core core_inv_def net_wf_upd_ctx)
  then show ?thesis
    unfolding net_sem_def Let_def by (intro next_cmd_inv) simp_all
qed

lemma pending_inv:
  assumes core: "core_inv t" and idle: "idle_ok t"
  shows "\<exists>t' acts. processPendingResponse now t = Some (t', acts) \<and> core_inv t' \<and> idle_ok t' \<and>
    nt_sendSemaphore t' = nt_sendSemaphore t \<and> nt_msg t' = nt_msg t"
proof (cases "nc_pendingResponse (ctx_of t)")
  case False
  then show ?thesis using core idle by (simp add: processPendingResponse_def)
next
  case True
  let ?t = "upd_ctx (\<lambda>c. c\<lparr>nc_pendingResponse := False\<rparr>) t"
  have c: "core_inv ?t" using core by (simp add: core_inv_def net_wf_upd_ctx)
  then have wf: "net_wf (nt_net ?t)" by (simp add: core_inv_def)
  have "nc_pendingProcessFunc (ctx_of ?t) \<noteq> Some CheckChannel"
    using idle True by (simp add: idle_ok_def)
  then obtain n where n: "processResponse (nt_net ?t) = Some n" "net_wf n"
    using processResponse_no_list [OF wf] by auto
  have fr: "same_frame (nt_net ?t) n" using processResponse_frame [OF wf n(1)] .
  have "core_inv (upd_ctx (\<lambda>c. c\<lparr>nc_lastSend := now\<rparr>) (?t\<lparr>nt_net := n\<rparr>))"
    using c n(2) fr by (simp add: core_inv_def net_wf_upd_ctx same_frame_def)
  moreover have "idle_ok (upd_ctx (\<lambda>c. c\<lparr>nc_lastSend := now\<rparr>) (?t\<lparr>nt_net := n\<rparr>))"
    using fr by (simp add: idle_ok_def same_frame_def)
  ultimately show ?thesis
    using True n(1) by (simp add: processPendingResponse_def Let_def)
qed

section \<open>Aggregation keeps the invariant\<close>

lemma begin_cmds_ok: "list_all cmd_ok (begin_cmds e)"
  by (simp add: begin_cmds_def cmd_ok_def mk_cmd_def)

lemma send_cmds_ok: "list_all cmd_ok (zone_cmds z @ [send_cmd p d])"
  by (simp add: zone_cmds_def send_cmd_def cmd_ok_def mk_cmd_def)

text \<open>What \<^verbatim>\<open>aggregate_sensor_data\<close> may change, given the emptied command list.\<close>

lemma aggregate_frame:
  assumes len: "length list = MAX_NETWORK_CMD_LIST_SIZE" and wf: "agg_wf a"
    and m: "name_key (sm_name m) = BEGIN_SENSOR_NAME \<or> named_sensor (sm_name m) \<and> data_msg m"
    and r: "aggregate_sensor_data ctx m (poke list 0 endOfList) MAX_NETWORK_CMD_LIST_SIZE now a = (ctx', list', a', send)"
  shows "agg_wf a'" "\<exists>x. ctx' = ctx\<lparr>nc_lastSend := x\<rparr>"
    "cmd_list_wf MAX_NETWORK_CMD_LIST_SIZE list'" "list_all cmd_ok (cmds list')"
    "name_key (sm_name m) = BEGIN_SENSOR_NAME \<Longrightarrow> send"
proof -
  have ls: "\<exists>x. ctx = ctx\<lparr>nc_lastSend := x\<rparr>" by (intro exI [of _ "nc_lastSend ctx"]) simp
  note clear = cmds_clear [OF len]
  have "agg_wf a' \<and> (\<exists>x. ctx' = ctx\<lparr>nc_lastSend := x\<rparr>) \<and> cmd_list_wf MAX_NETWORK_CMD_LIST_SIZE list' \<and>
    list_all cmd_ok (cmds list') \<and> (name_key (sm_name m) = BEGIN_SENSOR_NAME \<longrightarrow> send)"
  proof (cases "name_key (sm_name m) = BEGIN_SENSOR_NAME")
    case True
    then show ?thesis
      using r wf ls step_cmds_begin [OF len, of ctx] begin_cmds_ok
      by (auto simp: aggregate_sensor_data_def strncmp_begin)
  next
    case nb: False
    then have nm: "named_sensor (sm_name m)" "data_msg m" using m by simp_all
    show ?thesis
    proof (cases "snd (recallSensor (ag_sensorData a) (sm_name m))")
      case None
      then have rc: "recallSensor (ag_sensorData a) (sm_name m) = (ag_sensorData a, None)"
        using agg.recall_full [of "ag_sensorData a" "sm_name m"] wf nm(1)
        by (cases "recallSensor (ag_sensorData a) (sm_name m)") (auto simp: agg_wf_def)
      then show ?thesis
        using r nb wf ls clear by (auto simp: aggregate_sensor_data_def strncmp_begin)
    next
      case (Some i)
      then have acc: "accepted a m" using wf nm nb by (simp add: accepted_def)
      note sv = save_msg_laws(1) [OF acc]
      show ?thesis
      proof (cases "nc_lastSend ctx + SEND_INTERVAL > now")
        case True
        then have "ctx' = ctx" "list' = poke list 0 endOfList" "a' = save_msg a m"
          using r by (simp_all add: aggregate_accepted [OF acc])
        then show ?thesis using nb sv ls clear by simp
      next
        case False
        let ?c = "ctx\<lparr>nc_lastSend := now + MAX_TIMEOUT\<rparr>"
        have "ctx' = ?c" "a' = compose_payload (save_msg a m)"
          "list' = getStepSend ?c (poke list 0 endOfList) MAX_NETWORK_CMD_LIST_SIZE
             (cstr (ag_payload (compose_payload (save_msg a m)))) True"
          using r False by (auto simp: aggregate_accepted [OF acc])
        then show ?thesis
          using nb compose_payload_text(1) [OF sv] step_cmds_send [OF len] send_cmds_ok by auto
      qed
    qed
  qed
  then show "agg_wf a'" "\<exists>x. ctx' = ctx\<lparr>nc_lastSend := x\<rparr>"
    "cmd_list_wf MAX_NETWORK_CMD_LIST_SIZE list'" "list_all cmd_ok (cmds list')"
    "name_key (sm_name m) = BEGIN_SENSOR_NAME \<Longrightarrow> send" by simp_all
qed

lemma strncmp_res:
  "strncmp_eq MAX_SENSOR_NAME_SIZE name RESPONSE_SENSOR_NAME \<longleftrightarrow> name_key name = RESPONSE_SENSOR_NAME"
  by (simp add: strncmp_eq_def name_key_def RESPONSE_SENSOR_NAME_def cstr_def NUL_def)

lemma dispatch_inv:
  assumes core: "core_inv t" and sem: "nt_sendSemaphore t = 1" and idle: "idle_ok t" and m: "msg_ok (nt_msg t)"
  shows "\<exists>t' acts. net_dispatch now t = Some (t', acts) \<and> net_inv t'"
proof (cases "name_key (sm_name (nt_msg t)) = RESPONSE_SENSOR_NAME")
  case True
  obtain t' acts where p: "processPendingResponse now t = Some (t', acts)" "core_inv t'" "idle_ok t'"
    "nt_sendSemaphore t' = nt_sendSemaphore t" "nt_msg t' = nt_msg t"
    using pending_inv [OF core idle] by blast
  have "net_inv (t'\<lparr>nt_pc := AtReceive\<rparr>)"
    using p(2-) True sem
    by (auto simp: net_inv_core core_inv_def idle_ok_def RESPONSE_SENSOR_NAME_def BEGIN_SENSOR_NAME_def)
  then show ?thesis using p(1) True by (simp add: net_dispatch_def strncmp_res)
next
  case False
  have len: "length (ns_cmdList (nt_net t)) = MAX_NETWORK_CMD_LIST_SIZE"
    using core by (simp add: core_inv_def net_wf_def cmd_list_wf_def)
  obtain ctx' list' a' send where r: "aggregate_sensor_data (ctx_of t) (nt_msg t)
      (poke (ns_cmdList (nt_net t)) 0 endOfList) MAX_NETWORK_CMD_LIST_SIZE now (nt_agg t) = (ctx', list', a', send)"
    by (metis prod_cases4)
  have mm: "name_key (sm_name (nt_msg t)) = BEGIN_SENSOR_NAME \<or> named_sensor (sm_name (nt_msg t)) \<and> data_msg (nt_msg t)"
    using m False by (auto simp: msg_ok_def)
  have agg: "agg_wf (nt_agg t)" using core by (simp add: core_inv_def)
  note fr = aggregate_frame [OF len agg mm r]
  obtain x where x: "ctx' = (ctx_of t)\<lparr>nc_lastSend := x\<rparr>" using fr(2) by blast
  show ?thesis
    using r False core sem idle fr(1,3,4,5) x
    by (auto simp: net_dispatch_def strncmp_res Let_def net_inv_core core_inv_def idle_ok_def net_wf_def)
qed

section \<open>Every reachable state\<close>

lemma net_step_inv:
  assumes "net_step t l (t', as)" "net_inv t" "label_ok l"
  shows "net_inv t'"
proof (cases l)
  case (Receive now m)
  then have "core_inv (t\<lparr>nt_msg := m\<rparr>)" "nt_sendSemaphore t = 1" "idle_ok (t\<lparr>nt_msg := m\<rparr>)" "msg_ok m"
    "net_receive now m t = Some (t', as)"
    using assms by (auto elim!: net_stepE simp: net_inv_core core_inv_def idle_ok_def msg_ok_def)
  then show ?thesis
    using dispatch_inv [of "t\<lparr>nt_msg := m\<rparr>" now] by (auto simp: net_receive_def)
next
  case (Granted now)
  then show ?thesis using assms sem_inv [of t now] by (auto elim!: net_stepE)
next
  case (Event now)
  then show ?thesis using assms event_inv [of t now] by (auto elim!: net_stepE)
next
  case (UartWrites u)
  then show ?thesis
    using assms by (auto elim!: net_stepE simp: net_inv_def net_wf_def waiting_ok_def idle_ok_def)
qed

lemma net_run_inv: "net_run t ls t' as \<Longrightarrow> net_inv t \<Longrightarrow> list_all label_ok ls \<Longrightarrow> net_inv t'"
  by (induction rule: net_run.induct) (auto dest: net_step_inv)

lemma net_step_total:
  assumes "net_inv t"
  shows "case nt_pc t of
      AtReceive \<Rightarrow> \<forall>now m. msg_ok m \<longrightarrow> (\<exists>r. net_step t (Receive now m) r)
    | AtSemWait \<Rightarrow> \<forall>now. \<exists>r. net_step t (Granted now) r
    | AtEventWait \<Rightarrow> \<forall>now. \<exists>r. net_step t (Event now) r"
proof (cases "nt_pc t")
  case AtReceive
  have "\<exists>r. net_step t (Receive now m) r" if ok: "msg_ok m" for now m
  proof -
    have "core_inv (t\<lparr>nt_msg := m\<rparr>)" "nt_sendSemaphore (t\<lparr>nt_msg := m\<rparr>) = 1" "idle_ok (t\<lparr>nt_msg := m\<rparr>)"
      using assms AtReceive ok by (auto simp: net_inv_core core_inv_def idle_ok_def msg_ok_def)
    then obtain r where "net_receive now m t = Some r"
      using dispatch_inv [of "t\<lparr>nt_msg := m\<rparr>" now] ok by (auto simp: net_receive_def)
    then show ?thesis using net_step.receive [OF AtReceive] by blast
  qed
  then show ?thesis using AtReceive by simp
next
  case AtSemWait
  then have "0 < nt_sendSemaphore t" using assms by (simp add: net_inv_core)
  then have "net_step t (Granted now) (net_sem now t)" for now
    using net_step.granted [OF AtSemWait _ refl] by blast
  then show ?thesis using AtSemWait by (auto simp del: split_paired_Ex)
next
  case AtEventWait
  then have "\<exists>r. net_step t (Event now) r" for now
    using event_inv [OF assms AtEventWait, of now] net_step.event [OF AtEventWait, of now] by blast
  then show ?thesis using AtEventWait by (auto simp del: split_paired_Ex)
qed

text \<open>The task as its setup leaves it, with clean buffers of the declared sizes.\<close>

definition net_initial :: "Task \<Rightarrow> bool" where
  "net_initial t \<longleftrightarrow> net_wf (nt_net t) \<and> agg_wf (nt_agg t) \<and>
     length (nt_uartData t) = MAX_UART_SEND_MSG_SIZE + 1 \<and> sensor_msg_wf (nt_msg t) \<and>
     list_all cmd_ok (cmds (ns_cmdList (nt_net t))) \<and> nt_sendSemaphore t = 1 \<and>
     \<not> nc_pendingResponse (ctx_of t)"

lemma createSensorMsg_wf:
  assumes "sensor_msg_wf m"
  shows "sensor_msg_wf (createSensorMsg m n)"
    and "cstr (sm_name (createSensorMsg m n)) = take MAX_SENSOR_NAME_SIZE (cstr n)"
  using assms cstr_strncpy_terminated [of "sm_name m" MAX_SENSOR_NAME_SIZE n]
  by (simp_all add: createSensorMsg_def sensor_msg_wf_def)

lemma net_start_inv:
  assumes "net_initial t"
  shows "\<exists>t' as. net_start success failure now t = Some (t', as) \<and> net_inv t'"
  unfolding net_start_def
proof (rule dispatch_inv)
  let ?m = "createSensorMsg (nt_msg t) BEGIN_SENSOR_NAME"
  have wf: "sensor_msg_wf (nt_msg t)" using assms by (simp add: net_initial_def)
  note m = createSensorMsg_wf [OF wf, of BEGIN_SENSOR_NAME]
  have "name_key (sm_name ?m) = BEGIN_SENSOR_NAME"
    by (simp add: name_key_def m(2)) (simp add: BEGIN_SENSOR_NAME_def cstr_def NUL_def)
  then show "msg_ok (nt_msg (t\<lparr>nt_successEvent := success, nt_failureEvent := failure, nt_msg := ?m,
      nt_responseMsg := createSensorMsg (nt_responseMsg t) RESPONSE_SENSOR_NAME\<rparr>))"
    using m(1) by (simp add: msg_ok_def)
  show "core_inv (t\<lparr>nt_successEvent := success, nt_failureEvent := failure, nt_msg := ?m,
      nt_responseMsg := createSensorMsg (nt_responseMsg t) RESPONSE_SENSOR_NAME\<rparr>)"
    using assms m(1) by (simp add: net_initial_def core_inv_def)
qed (use assms in \<open>simp_all add: net_initial_def idle_ok_def\<close>)



section \<open>The Begin Step\<close>

text \<open>Posting a command without a payload, and the step after its response.\<close>

lemma next_cmd_post:
  assumes core: "core_inv t" and i: "nc_cmdIndex (ctx_of t) < MAX_NETWORK_CMD_LIST_SIZE"
    and cmd: "ns_cmdList (nt_net t) ! nc_cmdIndex (ctx_of t) = mk_cmd w k f None None"
    and w: "plain w" "length w < MAX_UART_SEND_MSG_SIZE"
  shows "\<exists>t' msg x. net_next_cmd now t = (t', [PostUart (nc_uartTaskID (ctx_of t)) msg]) \<and>
    cstr (um_sendData msg) = w @ [END_OF_RESPONSE] \<and> um_expectedMarkerCount msg = k \<and>
    core_inv t' \<and> nt_pc t' = AtEventWait \<and> ns_cmdList (nt_net t') = ns_cmdList (nt_net t) \<and>
    ctx_of t' = (ctx_of t)\<lparr>nc_lastSend := x, nc_pendingProcessFunc := f\<rparr> \<and>
    nt_sendSemaphore t' = nt_sendSemaphore t"
proof -
  let ?cmd = "mk_cmd w k f None None"
  obtain m b where conv: "convertCmdToUART ?cmd (nt_uartMsg t) (nt_uartData t) (nt_successEvent t)
      (nt_failureEvent t) (nt_responseMsg t) (nt_tid t) = (m, b)" by fastforce
  have sd: "cmd_sendData ?cmd = Some w" by (simp add: mk_cmd_def)
  note l = convert_laws [OF _ sd conv]
  have len: "length (nt_uartData t) = MAX_UART_SEND_MSG_SIZE + 1" using core by (simp add: core_inv_def)
  have m: "cstr (um_sendData m) = w @ [END_OF_RESPONSE]" "um_responseMsg m = None"
    "um_expectedMarkerCount m = k" "length b = MAX_UART_SEND_MSG_SIZE + 1"
    using l [OF len] w by (simp_all add: mk_cmd_def opt_text_def cstr_plain)
  have "net_next_cmd now t =
      ((upd_ctx (\<lambda>c. c\<lparr>nc_lastSend := now + um_timeout m, nc_pendingProcessFunc := f\<rparr>)
        ((upd_ctx (\<lambda>c. c\<lparr>nc_lastSend := now\<rparr>) t)\<lparr>nt_uartMsg := m, nt_uartData := b\<rparr>))\<lparr>nt_pc := AtEventWait\<rparr>,
       [PostUart (nc_uartTaskID (ctx_of t)) m])"
    using i cmd conv m(2) sd by (simp add: net_next_cmd_def Let_def, simp add: mk_cmd_def)
  then show ?thesis
    using m core by (auto simp: core_inv_def net_wf_upd_ctx)
qed

text \<open>A successful response to a command whose function is \<open>f\<close>.\<close>

definition after_ok :: "process_func option \<Rightarrow> char list \<Rightarrow> Net \<Rightarrow> Net" where
  "after_ok f r n = (case f of Some GetID \<Rightarrow> fst (getID n r) | Some GetPAC \<Rightarrow> fst (getPAC n r) | _ \<Rightarrow> n)"

lemma event_ok:
  assumes "nc_pendingProcessFunc (ctx_of t) = f" "f \<in> {None, Some GetID, Some GetPAC}"
    and "uc_status (ns_uart (nt_net t))" "nc_status (ctx_of t)"
  shows "net_event now t = Some (net_next_cmd now
    (upd_ctx (\<lambda>c. c\<lparr>nc_cmdIndex := Suc (nc_cmdIndex c)\<rparr>)
      (t\<lparr>nt_net := after_ok f (uc_response (ns_uart (nt_net t))) (nt_net t)\<rparr>)))"
  using assms
  by (auto simp: net_event_def processResponse_def run_process_def after_ok_def check_uart_status_def
      getID_def getPAC_def Let_def)

text \<open>Waiting for the response to command \<open>i\<close> of the list \<open>L\<close>, device and PAC being \<open>d\<close> and \<open>p\<close>.\<close>

definition awaiting :: "NetworkCmd list \<Rightarrow> nat \<Rightarrow> string \<Rightarrow> string \<Rightarrow> Task \<Rightarrow> bool" where
  "awaiting L i d p t \<longleftrightarrow> core_inv t \<and> nt_pc t = AtEventWait \<and> nt_sendSemaphore t = 0 \<and>
     ns_cmdList (nt_net t) = L \<and> nc_cmdIndex (ctx_of t) = i \<and> nc_status (ctx_of t) \<and>
     nc_pendingProcessFunc (ctx_of t) = cmd_processFunc (L ! i) \<and>
     cstr (nc_device (ctx_of t)) = d \<and> cstr (nc_pac (ctx_of t)) = p"

definition uart_ok :: "UARTContext \<Rightarrow> bool" where
  "uart_ok u \<longleftrightarrow> length (uc_response u) = MAX_UART_RESPONSE_MSG_SIZE + 1 \<and> terminated (uc_response u) \<and> uc_status u"

fun post_text :: "net_action \<Rightarrow> string" where
  "post_text (PostUart tid m) = cstr (um_sendData m)"
| "post_text (ProcessDownlink status data) = []"

definition new_device :: "process_func option \<Rightarrow> UARTContext \<Rightarrow> string \<Rightarrow> string" where
  "new_device f u d = (if f = Some GetID then take MAX_DEVICE_ID_SIZE (cstr (uc_response u)) else d)"

definition new_pac :: "process_func option \<Rightarrow> UARTContext \<Rightarrow> string \<Rightarrow> string" where
  "new_pac f u p = (if f = Some GetPAC then take MAX_DEVICE_CODE_SIZE (cstr (uc_response u)) else p)"

lemma after_ok_laws:
  assumes "net_wf n" "f \<in> {None, Some GetID, Some GetPAC}" "r = uc_response u"
  shows "net_wf (after_ok f r n)" "ns_cmdList (after_ok f r n) = ns_cmdList n" "ns_uart (after_ok f r n) = ns_uart n"
    and "nc_cmdIndex (ns_ctx (after_ok f r n)) = nc_cmdIndex (ns_ctx n)"
    and "nc_status (ns_ctx (after_ok f r n)) = nc_status (ns_ctx n)"
    and "nc_uartTaskID (ns_ctx (after_ok f r n)) = nc_uartTaskID (ns_ctx n)"
    and "nc_pendingResponse (ns_ctx (after_ok f r n)) = nc_pendingResponse (ns_ctx n)"
    and "cstr (nc_device (ns_ctx (after_ok f r n))) = new_device f u (cstr (nc_device (ns_ctx n)))"
    and "cstr (nc_pac (ns_ctx (after_ok f r n))) = new_pac f u (cstr (nc_pac (ns_ctx n)))"
  using assms net_wf_getID [of n r] net_wf_getPAC [of n r]
    cstr_strncpy_terminated(1) [of "nc_device (ns_ctx n)" MAX_DEVICE_ID_SIZE r]
    cstr_strncpy_terminated(1) [of "nc_pac (ns_ctx n)" MAX_DEVICE_CODE_SIZE r]
  by (auto simp: after_ok_def new_device_def new_pac_def getID_def getPAC_def net_wf_def)

lemma respond:
  assumes a: "awaiting L i d p t" and u: "uart_ok u" and f: "cmd_processFunc (L ! i) \<in> {None, Some GetID, Some GetPAC}"
  shows "\<exists>t'. net_step t (UartWrites u) (t', []) \<and> core_inv t' \<and> nt_pc t' = AtEventWait \<and>
    (\<exists>v. net_event now t' = Some (net_next_cmd now v) \<and> core_inv v \<and> ns_cmdList (nt_net v) = L \<and>
      nt_sendSemaphore v = 0 \<and> nc_cmdIndex (ctx_of v) = Suc i \<and> nc_status (ctx_of v) \<and>
      cstr (nc_device (ctx_of v)) = new_device (cmd_processFunc (L ! i)) u d \<and>
      cstr (nc_pac (ctx_of v)) = new_pac (cmd_processFunc (L ! i)) u p)"
proof -
  let ?t = "t\<lparr>nt_net := (nt_net t)\<lparr>ns_uart := u\<rparr>\<rparr>" and ?f = "cmd_processFunc (L ! i)"
  let ?n = "(nt_net t)\<lparr>ns_uart := u\<rparr>"
  have c: "core_inv ?t" using a u by (auto simp: awaiting_def core_inv_def net_wf_def uart_ok_def)
  then have wf: "net_wf ?n" by (simp add: core_inv_def)
  note l = after_ok_laws [OF wf f refl, of u]
  let ?v = "upd_ctx (\<lambda>c. c\<lparr>nc_cmdIndex := Suc (nc_cmdIndex c)\<rparr>) (?t\<lparr>nt_net := after_ok ?f (uc_response u) ?n\<rparr>)"
  have "net_event now ?t = Some (net_next_cmd now ?v)"
    using event_ok [of ?t ?f now] a f u by (simp add: awaiting_def uart_ok_def)
  moreover have "core_inv ?v"
    using c l by (simp add: core_inv_def net_wf_upd_ctx)
  ultimately show ?thesis
    using a c l by (intro exI [of _ ?t] conjI exI [of _ ?v] net_step.uart) (simp_all add: awaiting_def)
qed

lemma advance:
  assumes a: "awaiting L i d p t" and u: "uart_ok u" and f: "cmd_processFunc (L ! i) \<in> {None, Some GetID, Some GetPAC}"
    and i: "Suc i < MAX_NETWORK_CMD_LIST_SIZE" and cmd: "L ! Suc i = mk_cmd w k g None None"
    and w: "plain w" "length w < MAX_UART_SEND_MSG_SIZE"
  shows "\<exists>t' as. net_run t [UartWrites u, Event now] t' as \<and> map post_text as = [w @ [END_OF_RESPONSE]] \<and>
    awaiting L (Suc i) (new_device (cmd_processFunc (L ! i)) u d) (new_pac (cmd_processFunc (L ! i)) u p) t'"
proof -
  obtain t1 v where r: "net_step t (UartWrites u) (t1, [])" "nt_pc t1 = AtEventWait"
    "net_event now t1 = Some (net_next_cmd now v)" "core_inv v" "ns_cmdList (nt_net v) = L"
    "nt_sendSemaphore v = 0" "nc_cmdIndex (ctx_of v) = Suc i" "nc_status (ctx_of v)"
    "cstr (nc_device (ctx_of v)) = new_device (cmd_processFunc (L ! i)) u d"
    "cstr (nc_pac (ctx_of v)) = new_pac (cmd_processFunc (L ! i)) u p"
    using respond [OF a u f, of now] by (elim exE conjE) (rule that)
  obtain t' msg x where n: "net_next_cmd now v = (t', [PostUart (nc_uartTaskID (ctx_of v)) msg])"
    "cstr (um_sendData msg) = w @ [END_OF_RESPONSE]" "core_inv t'" "nt_pc t' = AtEventWait"
    "ns_cmdList (nt_net t') = L" "ctx_of t' = (ctx_of v)\<lparr>nc_lastSend := x, nc_pendingProcessFunc := g\<rparr>"
    "nt_sendSemaphore t' = 0"
    using next_cmd_post [OF r(4), of w k g now] i cmd w r by auto
  have st: "net_step t1 (Event now) (t', [PostUart (nc_uartTaskID (ctx_of v)) msg])"
    using r(2,3) n(1) by (intro net_step.event) simp_all
  have "net_run t [UartWrites u, Event now] t' ([] @ [PostUart (nc_uartTaskID (ctx_of v)) msg] @ [])"
    by (rule net_run.step [OF r(1) net_run.step [OF st net_run.stop]])
  then have "net_run t [UartWrites u, Event now] t' [PostUart (nc_uartTaskID (ctx_of v)) msg]" by simp
  moreover have "awaiting L (Suc i) (new_device (cmd_processFunc (L ! i)) u d) (new_pac (cmd_processFunc (L ! i)) u p) t'"
    using n r cmd by (simp add: awaiting_def) (simp add: mk_cmd_def)
  ultimately show ?thesis
    using n(2) by (intro exI [of _ t'] exI [of _ "[PostUart (nc_uartTaskID (ctx_of v)) msg]"]) simp
qed

lemma net_run_append: "net_run t ls t' as \<Longrightarrow> net_run t' ls' t'' bs \<Longrightarrow> net_run t (ls @ ls') t'' (as @ bs)"
  by (induction rule: net_run.induct) (auto intro: net_run.step)

lemma cmds_nth:
  assumes "cmds L = cs" "length L = n"
  shows "i < length cs \<Longrightarrow> L ! i = cs ! i" "length cs < n \<Longrightarrow> cmd_sendData (L ! length cs) = None"
  using assms nth_length_takeWhile [of is_cmd L]
  by (auto simp: cmds_def takeWhile_nth is_cmd_def)

lemma begin_list:
  assumes "cmds L = begin_cmds e" "length L = MAX_NETWORK_CMD_LIST_SIZE"
  shows "L ! 0 = mk_cmd (if e then CMD_EMULATOR_ENABLE else CMD_EMULATOR_DISABLE) 1 None None None"
    and "L ! Suc 0 = mk_cmd CMD_GET_ID 1 (Some GetID) None None"
    and "L ! Suc (Suc 0) = mk_cmd CMD_GET_PAC 1 (Some GetPAC) None None"
    and "cmd_sendData (L ! Suc (Suc (Suc 0))) = None"
  using cmds_nth(1) [OF assms, of 0] cmds_nth(1) [OF assms, of "Suc 0"] cmds_nth(1) [OF assms, of "Suc (Suc 0)"]
    cmds_nth(2) [OF assms]
  by (simp_all add: begin_cmds_def)

text \<open>After the last command the loop ends.\<close>

lemma next_cmd_end:
  assumes "cmd_sendData (ns_cmdList (nt_net v) ! nc_cmdIndex (ctx_of v)) = None"
  shows "net_next_cmd now v = (net_finish (upd_ctx (\<lambda>c. c\<lparr>nc_lastSend := now\<rparr>) v), [])"
  using assms by (simp add: net_next_cmd_def Let_def)

lemma finish_simps [simp]:
  "nt_pc (net_finish t) = AtReceive" "nt_sendSemaphore (net_finish t) = nt_sendSemaphore t + 1"
  "nc_device (ctx_of (net_finish t)) = nc_device (ctx_of t)" "nc_pac (ctx_of (net_finish t)) = nc_pac (ctx_of t)"
  "nc_cmdList (ctx_of (net_finish t)) = None" "nc_pendingResponse (ctx_of (net_finish t)) = nc_pendingResponse (ctx_of t)"
  by (simp_all add: net_finish_def Let_def upd_ctx_def)

lemma complete:
  assumes a: "awaiting L i d p t" and u: "uart_ok u" and f: "cmd_processFunc (L ! i) \<in> {None, Some GetID, Some GetPAC}"
    and last: "cmd_sendData (L ! Suc i) = None"
  shows "\<exists>t'. net_run t [UartWrites u, Event now] t' [] \<and> nt_pc t' = AtReceive \<and> nt_sendSemaphore t' = 1 \<and>
    cstr (nc_device (ctx_of t')) = new_device (cmd_processFunc (L ! i)) u d \<and>
    cstr (nc_pac (ctx_of t')) = new_pac (cmd_processFunc (L ! i)) u p"
proof -
  obtain t1 v where r: "net_step t (UartWrites u) (t1, [])" "nt_pc t1 = AtEventWait"
    "net_event now t1 = Some (net_next_cmd now v)" "ns_cmdList (nt_net v) = L"
    "nt_sendSemaphore v = 0" "nc_cmdIndex (ctx_of v) = Suc i"
    "cstr (nc_device (ctx_of v)) = new_device (cmd_processFunc (L ! i)) u d"
    "cstr (nc_pac (ctx_of v)) = new_pac (cmd_processFunc (L ! i)) u p"
    using respond [OF a u f, of now] by (elim exE conjE) (rule that)
  let ?t' = "net_finish (upd_ctx (\<lambda>c. c\<lparr>nc_lastSend := now\<rparr>) v)"
  have "net_next_cmd now v = (?t', [])"
    using last r by (intro next_cmd_end) simp
  then have st: "net_step t1 (Event now) (?t', [])"
    using r(2,3) by (intro net_step.event) simp_all
  have "net_run t [UartWrites u, Event now] ?t' ([] @ [] @ [])"
    by (rule net_run.step [OF r(1) net_run.step [OF st net_run.stop]])
  then show ?thesis using r by (intro exI [of _ ?t']) simp
qed

lemma grant:
  assumes inv: "net_inv t" and pc: "nt_pc t = AtSemWait" and cmd: "ns_cmdList (nt_net t) ! 0 = mk_cmd w k f None None"
    and w: "plain w" "length w < MAX_UART_SEND_MSG_SIZE"
  shows "\<exists>t' as. net_run t [Granted now] t' as \<and> map post_text as = [w @ [END_OF_RESPONSE]] \<and>
    awaiting (ns_cmdList (nt_net t)) 0 (cstr (nc_device (ctx_of t))) (cstr (nc_pac (ctx_of t))) t'"
proof -
  let ?v = "upd_ctx (\<lambda>c. c\<lparr>nc_status := True, nc_pendingResponse := False, nc_msg := Some StaticMsg,
        nc_downlinkData := None, nc_cmdList := Some StaticCmdList, nc_cmdIndex := 0,
        nc_lastSend := now + MAX_TIMEOUT\<rparr>) (t\<lparr>nt_sendSemaphore := nt_sendSemaphore t - 1\<rparr>)"
  have v: "core_inv ?v" "nt_sendSemaphore ?v = 0" "nt_sendSemaphore t = 1"
    using inv pc by (simp_all add: net_inv_core core_inv_def net_wf_upd_ctx)
  obtain t' msg x where n: "net_next_cmd now ?v = (t', [PostUart (nc_uartTaskID (ctx_of ?v)) msg])"
    "cstr (um_sendData msg) = w @ [END_OF_RESPONSE]" "core_inv t'" "nt_pc t' = AtEventWait"
    "ns_cmdList (nt_net t') = ns_cmdList (nt_net ?v)" "ctx_of t' = (ctx_of ?v)\<lparr>nc_lastSend := x, nc_pendingProcessFunc := f\<rparr>"
    "nt_sendSemaphore t' = nt_sendSemaphore ?v"
    using next_cmd_post [OF v(1), of w k f now] cmd w by auto
  have "net_sem now t = (t', [PostUart (nc_uartTaskID (ctx_of ?v)) msg])"
    using n(1) by (simp add: net_sem_def Let_def)
  then have st: "net_step t (Granted now) (t', [PostUart (nc_uartTaskID (ctx_of ?v)) msg])"
    using pc v(3) by (intro net_step.granted) simp_all
  have "net_run t [Granted now] t' ([PostUart (nc_uartTaskID (ctx_of ?v)) msg] @ [])"
    by (rule net_run.step [OF st net_run.stop])
  then have "net_run t [Granted now] t' [PostUart (nc_uartTaskID (ctx_of ?v)) msg]" by simp
  moreover have "awaiting (ns_cmdList (nt_net t)) 0 (cstr (nc_device (ctx_of t))) (cstr (nc_pac (ctx_of t))) t'"
    using n(2-) v cmd by (simp add: awaiting_def) (simp add: mk_cmd_def)
  ultimately show ?thesis
    using n(2) by (intro exI [of _ t'] exI [of _ "[PostUart (nc_uartTaskID (ctx_of ?v)) msg]"]) simp
qed

lemma net_start_begin:
  assumes "net_initial t0" "net_start success failure now t0 = Some (t1, as)"
  shows "net_inv t1" "nt_pc t1 = AtSemWait" "as = []"
    "cmds (ns_cmdList (nt_net t1)) = begin_cmds (nc_useEmulator (ctx_of t0))"
    "length (ns_cmdList (nt_net t1)) = MAX_NETWORK_CMD_LIST_SIZE"
proof -
  show inv: "net_inv t1"
    using net_start_inv [OF assms(1), of success failure now] assms(2) by auto
  then show "length (ns_cmdList (nt_net t1)) = MAX_NETWORK_CMD_LIST_SIZE"
    by (simp add: net_inv_def net_wf_def cmd_list_wf_def)
  have wf: "sensor_msg_wf (nt_msg t0)" "length (ns_cmdList (nt_net t0)) = MAX_NETWORK_CMD_LIST_SIZE"
    using assms(1) by (simp_all add: net_initial_def net_wf_def cmd_list_wf_def)
  have k: "name_key (sm_name (createSensorMsg (nt_msg t0) BEGIN_SENSOR_NAME)) = BEGIN_SENSOR_NAME"
    by (simp add: name_key_def createSensorMsg_wf(2) [OF wf(1)]) (simp add: BEGIN_SENSOR_NAME_def cstr_def NUL_def)
  moreover have "BEGIN_SENSOR_NAME \<noteq> RESPONSE_SENSOR_NAME"
    by (simp add: BEGIN_SENSOR_NAME_def RESPONSE_SENSOR_NAME_def)
  ultimately show "nt_pc t1 = AtSemWait" "as = []"
    "cmds (ns_cmdList (nt_net t1)) = begin_cmds (nc_useEmulator (ctx_of t0))"
    using assms(2) step_cmds_begin(1) [OF wf(2), of "ctx_of t0"]
    by (auto simp: net_start_def net_dispatch_def strncmp_res aggregate_sensor_data_def strncmp_begin)
qed

text \<open>
  The Begin Step: when the module answers every command, the task posts exactly the emulation
  mode, the device ID and the PAC command, one after the response to the other; it ends idle with
  the semaphore released, the device ID being the first 8 characters of the second response and
  the PAC the first 16 of the third.
\<close>

theorem begin_step_exchange:
  assumes "net_initial t0" "net_start success failure now t0 = Some (t1, as)"
    and "uart_ok u1" "uart_ok u2" "uart_ok u3"
  shows "\<exists>t posts. net_run t1 [Granted n1, UartWrites u1, Event n2, UartWrites u2, Event n3, UartWrites u3, Event n4] t posts \<and>
    map post_text posts =
      [(if nc_useEmulator (ctx_of t0) then CMD_EMULATOR_ENABLE else CMD_EMULATOR_DISABLE) @ [END_OF_RESPONSE],
       CMD_GET_ID @ [END_OF_RESPONSE], CMD_GET_PAC @ [END_OF_RESPONSE]] \<and>
    nt_pc t = AtReceive \<and> nt_sendSemaphore t = 1 \<and>
    cstr (nc_device (ctx_of t)) = take MAX_DEVICE_ID_SIZE (cstr (uc_response u2)) \<and>
    cstr (nc_pac (ctx_of t)) = take MAX_DEVICE_CODE_SIZE (cstr (uc_response u3))"
proof -
  note b = net_start_begin [OF assms(1,2)]
  let ?L = "ns_cmdList (nt_net t1)" and ?d = "cstr (nc_device (ctx_of t1))" and ?p = "cstr (nc_pac (ctx_of t1))"
  let ?e = "if nc_useEmulator (ctx_of t0) then CMD_EMULATOR_ENABLE else CMD_EMULATOR_DISABLE"
  note l = begin_list [OF b(4,5)]
  have pl: "plain ?e" "length ?e < MAX_UART_SEND_MSG_SIZE" "plain CMD_GET_ID" "plain CMD_GET_PAC"
    by (simp_all add: NUL_def)
  have f: "cmd_processFunc (?L ! 0) = None" "cmd_processFunc (?L ! Suc 0) = Some GetID"
    "cmd_processFunc (?L ! Suc (Suc 0)) = Some GetPAC"
    unfolding l by (simp_all add: mk_cmd_def)
  obtain t2 a2 where r2: "net_run t1 [Granted n1] t2 a2" "map post_text a2 = [?e @ [END_OF_RESPONSE]]"
    "awaiting ?L 0 ?d ?p t2"
    using grant [OF b(1,2) l(1) pl(1,2), of n1] by (elim exE conjE) (rule that)
  obtain t3 a3 where r3: "net_run t2 [UartWrites u1, Event n2] t3 a3"
    "map post_text a3 = [CMD_GET_ID @ [END_OF_RESPONSE]]" "awaiting ?L (Suc 0) ?d ?p t3"
    using advance [OF r2(3) assms(3) _ _ l(2) pl(3), of n2] f by (auto simp: new_device_def new_pac_def)
  obtain t4 a4 where r4: "net_run t3 [UartWrites u2, Event n3] t4 a4"
    "map post_text a4 = [CMD_GET_PAC @ [END_OF_RESPONSE]]"
    "awaiting ?L (Suc (Suc 0)) (take MAX_DEVICE_ID_SIZE (cstr (uc_response u2))) ?p t4"
    using advance [OF r3(3) assms(4) _ _ l(3) pl(4), of n3] f by (auto simp: new_device_def new_pac_def)
  obtain t5 where r5: "net_run t4 [UartWrites u3, Event n4] t5 []" "nt_pc t5 = AtReceive" "nt_sendSemaphore t5 = 1"
    "cstr (nc_device (ctx_of t5)) = take MAX_DEVICE_ID_SIZE (cstr (uc_response u2))"
    "cstr (nc_pac (ctx_of t5)) = take MAX_DEVICE_CODE_SIZE (cstr (uc_response u3))"
    using complete [OF r4(3) assms(5) _ l(4), of n4] f by (auto simp: new_device_def new_pac_def)
  have "net_run t1 ([Granted n1] @ [UartWrites u1, Event n2] @ [UartWrites u2, Event n3] @ [UartWrites u3, Event n4])
      t5 (a2 @ a3 @ a4 @ [])"
    using r2(1) r3(1) r4(1) r5(1) by (intro net_run_append)
  then show ?thesis using r2(2) r3(2) r4(2) r5(2-) by (intro exI [of _ t5] exI [of _ "a2 @ a3 @ a4"]) simp
qed

definition demo_task :: Task where
  "demo_task = \<lparr>nt_pc = AtReceive, nt_net = demo_net [], nt_msg = zero_SensorMsg, nt_responseMsg = zero_SensorMsg,
     nt_uartMsg = \<lparr>um_sendData = [], um_timeout = 0, um_markerChar = NUL, um_expectedMarkerCount = 0,
        um_successEvent = 0, um_failureEvent = 0, um_responseMsg = None, um_responseTaskID = 0\<rparr>,
     nt_uartData = replicate 36 NUL, nt_agg = demo_agg, nt_successEvent = 0, nt_failureEvent = 0,
     nt_tid = 2, nt_sendSemaphore = 1\<rparr>"

lemma demo_initial: "net_initial demo_task"
proof -
  have "agg_wf demo_agg" using accepted_demo by (simp add: accepted_def)
  moreover have "cmds (replicate 5 endOfList) = []" by (simp add: cmds_def eval_nat_numeral)
  ultimately show ?thesis
    using net_wf_demo [of "[]"] by (simp add: net_initial_def demo_task_def) (simp add: demo_net_def demo_ctx_def)
qed

lemma uart_ok_demo: "length r \<le> MAX_UART_RESPONSE_MSG_SIZE \<Longrightarrow> uart_ok (demo_uart r)"
  by (simp add: uart_ok_def demo_uart_def terminated_def)

lemma begin_step_exchange_witness:
  "\<exists>t1 t posts. net_start 1 2 0 demo_task = Some (t1, []) \<and>
    net_run t1 [Granted 1, UartWrites (demo_uart ''OK''), Event 2, UartWrites (demo_uart ''002C2EA1''), Event 3,
      UartWrites (demo_uart ''5BEB8CF64E869BD1''), Event 4] t posts \<and>
    map post_text posts = [''ATS410=0'' @ [CHR 0x0D], ''AT$I=10'' @ [CHR 0x0D], ''AT$I=11'' @ [CHR 0x0D]] \<and>
    cstr (nc_device (ctx_of t)) = ''002C2EA1'' \<and> cstr (nc_pac (ctx_of t)) = ''5BEB8CF64E869BD1''"
proof -
  obtain t1 as where st: "net_start 1 2 0 demo_task = Some (t1, as)"
    using net_start_inv [OF demo_initial, of 1 2 0] by auto
  have c: "cstr (uc_response (demo_uart ''002C2EA1'')) = ''002C2EA1''"
    "cstr (uc_response (demo_uart ''5BEB8CF64E869BD1'')) = ''5BEB8CF64E869BD1''"
    "\<not> nc_useEmulator (ctx_of demo_task)"
    by (simp_all add: demo_uart_def demo_task_def demo_net_def demo_ctx_def cstr_def NUL_def)
  have u: "uart_ok (demo_uart ''OK'')" "uart_ok (demo_uart ''002C2EA1'')" "uart_ok (demo_uart ''5BEB8CF64E869BD1'')"
    by (simp_all add: uart_ok_demo)
  obtain t posts where "net_run t1 [Granted 1, UartWrites (demo_uart ''OK''), Event 2,
      UartWrites (demo_uart ''002C2EA1''), Event 3, UartWrites (demo_uart ''5BEB8CF64E869BD1''), Event 4] t posts"
    "map post_text posts = [''ATS410=0'' @ [CHR 0x0D], ''AT$I=10'' @ [CHR 0x0D], ''AT$I=11'' @ [CHR 0x0D]]"
    "cstr (nc_device (ctx_of t)) = ''002C2EA1''" "cstr (nc_pac (ctx_of t)) = ''5BEB8CF64E869BD1''"
    using begin_step_exchange [OF demo_initial st u, of 1 2 3 4] c by auto
  then show ?thesis
    using net_start_begin(3) [OF demo_initial st] st by (intro exI conjI) simp_all
qed



end
