(* ===== verification/Simulator.thy ===== *)
theory Simulator
  imports Prelude
begin

text \<open>
  \<^verbatim>\<open>stm32/simulator/simulator.cpp\<close>, the operations on a simulator alone: its configuration, and the trail in
  which the SPI packets of a sensor are captured and from which they are replayed and simulated. The
  operations that reach into the SPI port (open, replay, close) are in theory \<open>Spi\<close>.
\<close>

section \<open>State\<close>

abbreviation MAX_SIM_NAME_SIZE :: nat where "MAX_SIM_NAME_SIZE \<equiv> 3"
abbreviation MAX_TRAIL_SIZE :: nat where "MAX_TRAIL_SIZE \<equiv> 64"
abbreviation MAX_MERGED_SIZE :: nat where "MAX_MERGED_SIZE \<equiv> MAX_TRAIL_SIZE"

datatype Simulator_Fails =
    Simulator_Ok | Simulator_Invalid_Size | Simulator_Trail_Overflow | Simulator_Missing_Port
  | Simulator_Write_Timeout | Simulator_Read_Timeout

datatype Simulator_Mode =
    Simulator_Capture | Simulator_Replay | Simulator_Simulate | Simulator_Mismatch | Simulator_Disabled

record Simulator_Control =
  si_id :: u8
  si_name :: "char list"
  si_trail :: "u8 list"
  si_merged_tx :: "u8 list"
  si_merged_rx :: "u8 list"
  si_index :: nat
  si_length :: nat
  si_merged_length :: nat
  si_capture_enabled :: bool
  si_replay_enabled :: bool
  si_simulate_enabled :: bool
  si_merge_enabled :: bool
  si_replayed_merge :: bool
  si_mode :: Simulator_Mode
  si_semaphore :: u8
  si_port :: bool        \<comment> \<open>whether the pointer to the SPI port is set\<close>
  si_failCode :: Simulator_Fails

section \<open>Errors and configuration\<close>

fun simulator_msg :: "Simulator_Fails \<Rightarrow> string" where
  "simulator_msg Simulator_Ok = ''OK''"
| "simulator_msg Simulator_Invalid_Size = ''Invalid size''"
| "simulator_msg Simulator_Trail_Overflow = ''Trail overflow''"
| "simulator_msg Simulator_Missing_Port = ''Missing port''"
| "simulator_msg Simulator_Write_Timeout = ''Write timeout''"
| "simulator_msg Simulator_Read_Timeout = ''Read timeout''"

definition sim_showError :: "Simulator_Control \<Rightarrow> Simulator_Fails \<Rightarrow> Simulator_Control \<times> Simulator_Fails" where
  "sim_showError sim fc = (sim\<lparr>si_failCode := fc\<rparr>, fc)"

definition simulator_configure ::
  "Simulator_Control \<Rightarrow> u8 \<Rightarrow> string option \<Rightarrow> bool \<Rightarrow> bool \<Rightarrow> bool \<Rightarrow> bool \<Rightarrow> bool \<Rightarrow> u8 \<Rightarrow> Simulator_Control" where
  "simulator_configure sim sid name port capture_enabled replay_enabled simulate_enabled merge_enabled semaphore =
     (let sim = sim\<lparr>si_index := 0, si_length := 0, si_merged_length := 0, si_id := sid, si_port := port,
            si_capture_enabled := capture_enabled, si_replay_enabled := replay_enabled,
            si_simulate_enabled := simulate_enabled, si_merge_enabled := merge_enabled,
            si_replayed_merge := False, si_semaphore := semaphore\<rparr>;
          sim = (case name of
              None \<Rightarrow> sim
            | Some n \<Rightarrow> sim\<lparr>si_name := poke (strncpy (si_name sim) n MAX_SIM_NAME_SIZE) MAX_SIM_NAME_SIZE NUL\<rparr>)
      in sim\<lparr>si_mode := (if capture_enabled then Simulator_Capture else Simulator_Disabled)\<rparr>)"

definition simulator_should_poll_sensor :: "Simulator_Control \<Rightarrow> bool" where
  "simulator_should_poll_sensor sim =
     (if si_mode sim = Simulator_Disabled then True
      else if si_mode sim = Simulator_Replay then False else True)"

section \<open>Capturing\<close>

text \<open>A \<^verbatim>\<open>uint8_t\<close> field holds the sum modulo 256; a packet is the list of its bytes.\<close>

definition simulator_overflow :: "Simulator_Control \<Rightarrow> Simulator_Control \<times> Simulator_Fails" where
  "simulator_overflow sim = sim_showError (sim\<lparr>si_mode := Simulator_Mismatch\<rparr>) Simulator_Trail_Overflow"

definition simulator_capture_size :: "Simulator_Control \<Rightarrow> int \<Rightarrow> Simulator_Control \<times> Simulator_Fails" where
  "simulator_capture_size sim sz =
     (if sz \<le> 0 then sim_showError sim Simulator_Invalid_Size
      else if si_index sim + 1 \<ge> MAX_TRAIL_SIZE + 1 then simulator_overflow sim
      else if si_mode sim = Simulator_Mismatch then (sim, Simulator_Trail_Overflow)
      else
        let sim = sim\<lparr>si_trail := poke (si_trail sim) (si_index sim) (of_int sz)\<rparr>;
            sim = sim\<lparr>si_index := (si_index sim + 1) mod 256\<rparr>
        in (sim\<lparr>si_length := si_index sim\<rparr>, Simulator_Ok))"

definition simulator_capture_packet ::
  "Simulator_Control \<Rightarrow> u8 list option \<Rightarrow> int \<Rightarrow> Simulator_Control \<times> Simulator_Fails" where
  "simulator_capture_packet sim packet sz =
     (case packet of
        None \<Rightarrow> sim_showError sim Simulator_Invalid_Size
      | Some bytes \<Rightarrow>
          if sz \<le> 0 then sim_showError sim Simulator_Invalid_Size
          else if int (si_index sim) + sz \<ge> int MAX_TRAIL_SIZE + 1 then simulator_overflow sim
          else if si_mode sim = Simulator_Mismatch then (sim, Simulator_Trail_Overflow)
          else
            let sim = sim\<lparr>si_trail := blit (si_trail sim) (si_index sim) (take (nat sz) bytes)\<rparr>;
                sim = sim\<lparr>si_index := (si_index sim + nat sz) mod 256\<rparr>
            in (sim\<lparr>si_length := si_index sim\<rparr>, Simulator_Ok))"

definition simulator_merge_packet ::
  "Simulator_Control \<Rightarrow> u8 list option \<Rightarrow> int \<Rightarrow> u8 list option \<Rightarrow> int \<Rightarrow> Simulator_Control \<times> Simulator_Fails" where
  "simulator_merge_packet sim tx_packet tx_size rx_packet rx_size =
     (if tx_size \<le> 0 \<or> tx_packet = None then sim_showError sim Simulator_Invalid_Size
      else if rx_size \<le> 0 \<or> rx_packet = None then sim_showError sim Simulator_Invalid_Size
      else if tx_size \<noteq> rx_size then sim_showError sim Simulator_Invalid_Size
      else if int (si_merged_length sim) + tx_size \<ge> int MAX_MERGED_SIZE + 1 then simulator_overflow sim
      else if si_mode sim = Simulator_Mismatch then (sim, Simulator_Trail_Overflow)
      else
        (sim\<lparr>si_merged_tx := blit (si_merged_tx sim) (si_merged_length sim) (take (nat tx_size) (the tx_packet)),
             si_merged_rx := blit (si_merged_rx sim) (si_merged_length sim) (take (nat rx_size) (the rx_packet)),
             si_merged_length := (si_merged_length sim + nat tx_size) mod 256\<rparr>, Simulator_Ok))"

definition simulator_should_replay_merged_trail :: "Simulator_Control \<Rightarrow> bool" where
  "simulator_should_replay_merged_trail sim \<longleftrightarrow> si_merge_enabled sim \<and> si_merged_length sim > 0"

section \<open>Reading the trail\<close>

text \<open>A size is -1 on error; a packet is its offset in the trail, None for a null pointer.\<close>

definition simulator_replay_size :: "Simulator_Control \<Rightarrow> Simulator_Control \<times> int" where
  "simulator_replay_size sim =
     (if si_index sim + 1 \<ge> MAX_TRAIL_SIZE + 1 \<or> si_index sim + 1 \<ge> si_length sim + 1 then (sim, - 1)
      else (sim\<lparr>si_index := (si_index sim + 1) mod 256\<rparr>, uint (si_trail sim ! si_index sim)))"

definition simulator_replay_packet :: "Simulator_Control \<Rightarrow> int \<Rightarrow> Simulator_Control \<times> nat option" where
  "simulator_replay_packet sim sz =
     (if sz \<le> 0 then (sim, None)
      else if int (si_index sim) + sz \<ge> int MAX_TRAIL_SIZE + 1 \<or>
        int (si_index sim) + sz \<ge> int (si_length sim) + 1 then (sim, None)
      else (sim\<lparr>si_index := (si_index sim + nat sz) mod 256\<rparr>, Some (si_index sim)))"

definition simulator_simulate_size :: "Simulator_Control \<Rightarrow> Simulator_Control \<times> int" where
  "simulator_simulate_size sim = simulator_replay_size sim"

definition simulator_simulate_packet :: "Simulator_Control \<Rightarrow> int \<Rightarrow> Simulator_Control \<times> nat option" where
  "simulator_simulate_packet sim sz = simulator_replay_packet sim sz"

text \<open>The four reads by which the SPI code takes the next command from the trail.\<close>

definition next_command :: "Simulator_Control \<Rightarrow> Simulator_Control \<times> int \<times> nat option \<times> int \<times> nat option" where
  "next_command sim =
     (let (sim, tx_len) = simulator_replay_size sim;
          (sim, tx_buf) = simulator_replay_packet sim tx_len;
          (sim, rx_len) = simulator_replay_size sim;
          (sim, rx_buf) = simulator_replay_packet sim rx_len
      in (sim, tx_len, tx_buf, rx_len, rx_buf))"

end
