(* ===== verification/Trail.thy ===== *)
theory Trail
  imports Simulator
begin

text \<open>
  The simulator trail as a list of commands, each a transmitted and a received packet:
  \<^verbatim>\<open>[tx_length] [tx bytes] [rx_length] [rx bytes] ...\<close> as \<^verbatim>\<open>simulator.h\<close> lays it out. \<open>packet_trail\<close> is
  what the SPI code relies on: commands are read back in the order of their capture.
\<close>

section \<open>The interface\<close>

locale packet_trail =
  fixes holds :: "'s \<Rightarrow> 'p list \<Rightarrow> nat \<Rightarrow> bool"
    and capture :: "'s \<Rightarrow> 'p \<Rightarrow> 's"
    and fits :: "'p list \<Rightarrow> 'p \<Rightarrow> bool"
    and rewind :: "'s \<Rightarrow> 's"
    and next_cmd :: "'s \<Rightarrow> 's \<times> 'p option"
  assumes capture: "holds s ps (length ps) \<Longrightarrow> fits ps p \<Longrightarrow> holds (capture s p) (ps @ [p]) (Suc (length ps))"
    and rewind: "holds s ps k \<Longrightarrow> holds (rewind s) ps 0"
    and next_some: "holds s ps k \<Longrightarrow> k < length ps \<Longrightarrow>
         snd (next_cmd s) = Some (ps ! k) \<and> holds (fst (next_cmd s)) ps (Suc k)"
    and next_none: "holds s ps (length ps) \<Longrightarrow> snd (next_cmd s) = None"
begin

primrec all_fit :: "'p list \<Rightarrow> 'p list \<Rightarrow> bool" where
  "all_fit ps [] = True"
| "all_fit ps (q # qs) = (fits ps q \<and> all_fit (ps @ [q]) qs)"

primrec read_n :: "nat \<Rightarrow> 's \<Rightarrow> 'p option list" where
  "read_n 0 s = []"
| "read_n (Suc n) s = snd (next_cmd s) # read_n n (fst (next_cmd s))"

lemma captures:
  "holds s ps (length ps) \<Longrightarrow> all_fit ps qs \<Longrightarrow>
     holds (foldl capture s qs) (ps @ qs) (length (ps @ qs))"
proof (induction qs arbitrary: s ps)
  case (Cons q qs)
  then show ?case using capture [of s ps q] Cons.IH [of "capture s q" "ps @ [q]"] by simp
qed simp

lemma read_all:
  "holds s ps k \<Longrightarrow> k + n = length ps \<Longrightarrow> read_n n s = map Some (drop k ps)"
proof (induction n arbitrary: s k)
  case (Suc n)
  then show ?case
    using next_some [of s ps k] Suc.IH [of "fst (next_cmd s)" "Suc k"]
    by (simp add: Cons_nth_drop_Suc [symmetric])
qed simp

text \<open>What was captured is read back, in order, and nothing after it.\<close>

lemma roundtrip:
  assumes "holds s [] 0" "all_fit [] qs"
  shows "read_n (length qs) (rewind (foldl capture s qs)) = map Some qs"
  using captures [of s "[]" qs] rewind read_all [of _ qs 0 "length qs"] assms by simp

end

section \<open>The encoding\<close>

type_synonym command = "u8 list \<times> u8 list"

fun enc_cmd :: "command \<Rightarrow> u8 list" where
  "enc_cmd (tx, rx) = of_nat (length tx) # tx @ of_nat (length rx) # rx"

definition enc :: "command list \<Rightarrow> u8 list" where
  "enc ps = concat (map enc_cmd ps)"

lemma enc_simps [simp]: "enc [] = []" "enc (p # ps) = enc_cmd p @ enc ps" "enc (ps @ qs) = enc ps @ enc qs"
  by (simp_all add: enc_def)

lemma length_enc_cmd [simp]: "length (enc_cmd p) = length (fst p) + length (snd p) + 2"
  by (cases p) simp

definition cmd_nonempty :: "command \<Rightarrow> bool" where
  "cmd_nonempty p \<longleftrightarrow> fst p \<noteq> [] \<and> snd p \<noteq> []"

definition trail_wf :: "Simulator_Control \<Rightarrow> command list \<Rightarrow> bool" where
  "trail_wf sim ps \<longleftrightarrow> length (si_trail sim) = MAX_TRAIL_SIZE \<and> si_length sim = length (enc ps) \<and>
     length (enc ps) \<le> MAX_TRAIL_SIZE \<and> take (length (enc ps)) (si_trail sim) = enc ps \<and> list_all cmd_nonempty ps"

definition trail_at :: "Simulator_Control \<Rightarrow> command list \<Rightarrow> nat \<Rightarrow> bool" where
  "trail_at sim ps k \<longleftrightarrow> trail_wf sim ps \<and> k \<le> length ps \<and> si_index sim = length (enc (take k ps))"

section \<open>Reading\<close>

lemma enc_split: "k < length ps \<Longrightarrow> enc ps = enc (take k ps) @ enc_cmd (ps ! k) @ enc (drop (Suc k) ps)"
  by (metis enc_simps(2,3) id_take_nth_drop)

lemma next_command_some:
  assumes at: "trail_at sim ps k" and k: "k < length ps" and p: "ps ! k = (tx, rx)"
  shows "next_command sim = (sim\<lparr>si_index := length (enc (take (Suc k) ps))\<rparr>,
      int (length tx), Some (si_index sim + 1), int (length rx), Some (si_index sim + length tx + 2))"
    and "slice (si_trail sim) (si_index sim + 1) (length tx) = tx"
    and "slice (si_trail sim) (si_index sim + length tx + 2) (length rx) = rx"
    and "si_index sim + length tx + 2 + length rx \<le> si_length sim"
    and "length (enc (take (Suc k) ps)) = si_index sim + length tx + length rx + 2"
proof -
  let ?i = "si_index sim"
  have wf: "trail_wf sim ps" and i: "?i = length (enc (take k ps))"
    using at by (simp_all add: trail_at_def)
  have ne: "tx \<noteq> []" "rx \<noteq> []"
    using wf k p by (auto simp: trail_wf_def list_all_length cmd_nonempty_def)
  have t: "take (si_length sim) (si_trail sim) = enc ps" using wf by (simp add: trail_wf_def)
  have "si_trail sim = enc ps @ drop (si_length sim) (si_trail sim)"
    using append_take_drop_id [of "si_length sim" "si_trail sim", unfolded t] by (rule sym)
  then obtain rest where rest: "si_trail sim = enc (take k ps) @ enc_cmd (tx, rx) @ rest"
    using enc_split [OF k] p by simp
  have suc: "length (enc (take (Suc k) ps)) = ?i + length tx + length rx + 2"
    using k p i by (simp add: take_Suc_conv_app_nth)
  have le: "?i + length tx + 2 + length rx \<le> si_length sim" "si_length sim \<le> MAX_TRAIL_SIZE"
    using wf enc_split [OF k] p i by (simp_all add: trail_wf_def)
  have size_tx: "uint (si_trail sim ! ?i) = int (length tx)"
    using i le by (simp add: rest nth_append unsigned_of_nat take_bit_eq_mod)
  have size_rx: "uint (si_trail sim ! (?i + length tx + 1)) = int (length rx)"
    using i le by (simp add: rest nth_append nth_Cons' unsigned_of_nat take_bit_eq_mod)
  show "slice (si_trail sim) (?i + 1) (length tx) = tx" "slice (si_trail sim) (?i + length tx + 2) (length rx) = rx"
    unfolding rest slice_def using i by simp_all
  show "?i + length tx + 2 + length rx \<le> si_length sim" "length (enc (take (Suc k) ps)) = ?i + length tx + length rx + 2"
    by (fact le(1), fact suc)
  have s1: "simulator_replay_size sim = (sim\<lparr>si_index := ?i + 1\<rparr>, int (length tx))"
    using le size_tx by (simp add: simulator_replay_size_def)
  have s2: "simulator_replay_packet (sim\<lparr>si_index := ?i + 1\<rparr>) (int (length tx)) =
      (sim\<lparr>si_index := ?i + length tx + 1\<rparr>, Some (?i + 1))"
    using le ne by (simp add: simulator_replay_packet_def)
  have s3: "simulator_replay_size (sim\<lparr>si_index := ?i + length tx + 1\<rparr>) =
      (sim\<lparr>si_index := ?i + length tx + 2\<rparr>, int (length rx))"
    using le ne size_rx by (simp add: simulator_replay_size_def)
  have s4: "simulator_replay_packet (sim\<lparr>si_index := ?i + length tx + 2\<rparr>) (int (length rx)) =
      (sim\<lparr>si_index := ?i + length tx + length rx + 2\<rparr>, Some (?i + length tx + 2))"
    using le ne by (simp add: simulator_replay_packet_def)
  show "next_command sim = (sim\<lparr>si_index := length (enc (take (Suc k) ps))\<rparr>,
      int (length tx), Some (?i + 1), int (length rx), Some (?i + length tx + 2))"
    by (simp only: next_command_def Let_def s1 s2 s3 s4 suc prod.case)
qed

lemma next_command_none:
  assumes "trail_at sim ps (length ps)"
  shows "next_command sim = (sim, - 1, None, - 1, None)"
proof -
  have "si_index sim = si_length sim" using assms by (simp add: trail_at_def trail_wf_def)
  then show ?thesis
    by (simp add: next_command_def simulator_replay_size_def simulator_replay_packet_def)
qed

section \<open>Capturing\<close>

text \<open>The four calls by which \<^verbatim>\<open>spi_transceive_wait\<close> captures a command into the trail.\<close>

definition capture_command :: "Simulator_Control \<Rightarrow> command \<Rightarrow> Simulator_Control" where
  "capture_command sim p =
     (let sim = fst (simulator_capture_size sim (int (length (fst p))));
          sim = fst (simulator_capture_packet sim (Some (fst p)) (int (length (fst p))));
          sim = fst (simulator_capture_size sim (int (length (snd p))))
      in fst (simulator_capture_packet sim (Some (snd p)) (int (length (snd p)))))"

text \<open>The state of a trail while it is captured, part of a command included.\<close>

definition trail_prefix :: "Simulator_Control \<Rightarrow> u8 list \<Rightarrow> bool" where
  "trail_prefix sim bs \<longleftrightarrow> length (si_trail sim) = MAX_TRAIL_SIZE \<and> si_mode sim = Simulator_Capture \<and>
     si_index sim = length bs \<and> si_length sim = length bs \<and> length bs \<le> MAX_TRAIL_SIZE \<and>
     take (length bs) (si_trail sim) = bs"

lemma capture_size_prefix:
  assumes "trail_prefix sim bs" "length bs < MAX_TRAIL_SIZE" "0 < n"
  shows "trail_prefix (fst (simulator_capture_size sim (int n))) (bs @ [of_nat n])"
  using assms by (simp add: trail_prefix_def simulator_capture_size_def length_poke take_Suc_poke)

lemma capture_packet_prefix:
  assumes "trail_prefix sim bs" "length bs + length p \<le> MAX_TRAIL_SIZE" "p \<noteq> []"
  shows "trail_prefix (fst (simulator_capture_packet sim (Some p) (int (length p)))) (bs @ p)"
  using assms take_blit_upto [of "length bs" "si_trail sim" p]
  by (simp add: trail_prefix_def simulator_capture_packet_def length_blit)

lemma capture_command_prefix:
  assumes "trail_prefix sim bs" "cmd_nonempty p" "length bs + length (enc_cmd p) \<le> MAX_TRAIL_SIZE"
  shows "trail_prefix (capture_command sim p) (bs @ enc_cmd p)"
proof -
  obtain tx rx where p: "p = (tx, rx)" by (cases p)
  let ?s1 = "fst (simulator_capture_size sim (int (length tx)))"
  let ?s2 = "fst (simulator_capture_packet ?s1 (Some tx) (int (length tx)))"
  let ?s3 = "fst (simulator_capture_size ?s2 (int (length rx)))"
  have ne: "tx \<noteq> []" "rx \<noteq> []" "length bs + length tx + length rx + 2 \<le> MAX_TRAIL_SIZE"
    using assms p by (simp_all add: cmd_nonempty_def)
  have "trail_prefix ?s1 (bs @ [of_nat (length tx)])"
    using assms(1) ne by (intro capture_size_prefix) auto
  then have "trail_prefix ?s2 ((bs @ [of_nat (length tx)]) @ tx)"
    using ne by (intro capture_packet_prefix) simp_all
  then have "trail_prefix ?s3 (((bs @ [of_nat (length tx)]) @ tx) @ [of_nat (length rx)])"
    using ne by (intro capture_size_prefix) auto
  then have "trail_prefix (fst (simulator_capture_packet ?s3 (Some rx) (int (length rx))))
      ((((bs @ [of_nat (length tx)]) @ tx) @ [of_nat (length rx)]) @ rx)"
    using ne by (intro capture_packet_prefix) simp_all
  then show ?thesis by (simp add: capture_command_def p)
qed

lemma trail_prefix_at:
  assumes "trail_prefix sim (enc ps)" "list_all cmd_nonempty ps"
  shows "trail_at sim ps (length ps)"
  using assms by (simp add: trail_prefix_def trail_at_def trail_wf_def)

section \<open>The trail provides the interface\<close>

text \<open>Capturing keeps the mode; reading is independent of it.\<close>

definition trail_holds :: "Simulator_Control \<Rightarrow> command list \<Rightarrow> nat \<Rightarrow> bool" where
  "trail_holds sim ps k \<longleftrightarrow> trail_at sim ps k \<and> si_mode sim = Simulator_Capture"

definition trail_fits :: "command list \<Rightarrow> command \<Rightarrow> bool" where
  "trail_fits ps p \<longleftrightarrow> cmd_nonempty p \<and> length (enc (ps @ [p])) \<le> MAX_TRAIL_SIZE"

definition next_packets :: "Simulator_Control \<Rightarrow> Simulator_Control \<times> command option" where
  "next_packets sim = (case next_command sim of
       (sim', tx_len, Some tx, rx_len, Some rx) \<Rightarrow>
         (sim', Some (slice (si_trail sim) tx (nat tx_len), slice (si_trail sim) rx (nat rx_len)))
     | (sim', _) \<Rightarrow> (sim', None))"

lemma trail_at_index:
  "trail_at sim ps k \<Longrightarrow> j \<le> length ps \<Longrightarrow> trail_at (sim\<lparr>si_index := length (enc (take j ps))\<rparr>) ps j"
  by (simp add: trail_at_def trail_wf_def)

interpretation trail: packet_trail trail_holds capture_command trail_fits
    "\<lambda>sim. sim\<lparr>si_index := 0\<rparr>" next_packets
proof unfold_locales
  fix s ps p assume h: "trail_holds s ps (length ps)" and f: "trail_fits ps p"
  have "trail_prefix s (enc ps)"
    using h by (simp add: trail_holds_def trail_at_def trail_wf_def trail_prefix_def)
  then have "trail_prefix (capture_command s p) (enc ps @ enc_cmd p)"
    using f by (intro capture_command_prefix) (simp_all add: trail_fits_def)
  moreover have "list_all cmd_nonempty (ps @ [p])"
    using h f by (simp add: trail_holds_def trail_at_def trail_wf_def trail_fits_def)
  ultimately show "trail_holds (capture_command s p) (ps @ [p]) (Suc (length ps))"
    using trail_prefix_at [of "capture_command s p" "ps @ [p]"]
    by (simp add: trail_holds_def trail_prefix_def)
next
  fix s ps k assume "trail_holds s ps k"
  then show "trail_holds (s\<lparr>si_index := 0\<rparr>) ps 0"
    using trail_at_index [of s ps k 0] by (simp add: trail_holds_def)
next
  fix s ps k assume h: "trail_holds s ps k" and k: "k < length ps"
  obtain tx rx where p: "ps ! k = (tx, rx)" by (cases "ps ! k")
  have at: "trail_at s ps k" using h by (simp add: trail_holds_def)
  show "snd (next_packets s) = Some (ps ! k) \<and> trail_holds (fst (next_packets s)) ps (Suc k)"
    using next_command_some [OF at k p] trail_at_index [OF at, of "Suc k"] h k
    by (simp add: next_packets_def p trail_holds_def)
next
  fix s ps assume "trail_holds s ps (length ps)"
  then have "next_command s = (s, - 1, None, - 1, None)"
    using next_command_none [of s ps] by (simp add: trail_holds_def)
  then show "snd (next_packets s) = None" by (simp add: next_packets_def)
qed

primrec read_packets :: "nat \<Rightarrow> Simulator_Control \<Rightarrow> command option list" where
  "read_packets 0 sim = []"
| "read_packets (Suc n) sim = snd (next_packets sim) # read_packets n (fst (next_packets sim))"

lemma read_packets_eq: "read_packets n sim = trail.read_n n sim"
  by (induction n arbitrary: sim) simp_all

lemma all_fit_iff:
  "qs \<noteq> [] \<Longrightarrow> trail.all_fit ps qs \<longleftrightarrow> list_all cmd_nonempty qs \<and> length (enc (ps @ qs)) \<le> MAX_TRAIL_SIZE"
proof (induction qs arbitrary: ps)
  case (Cons q qs)
  have f: "trail_fits ps q \<longleftrightarrow> cmd_nonempty q \<and> length (enc (ps @ [q])) \<le> MAX_TRAIL_SIZE"
    by (rule trail_fits_def)
  have step: "trail.all_fit ps (q # qs) \<longleftrightarrow> trail_fits ps q \<and> trail.all_fit (ps @ [q]) qs"
    by simp
  show ?case
  proof (cases "qs = []")
    case True
    then show ?thesis by (subst step, subst f) simp
  next
    case False
    show ?thesis
      by (subst step, subst f, subst Cons.IH [OF False]) auto
  qed
qed simp

text \<open>
  C22. What a sensor driver transmits and receives in Capture mode is read back from the trail in the
  same order, packet for packet, as long as the commands fit into its 64 bytes.
\<close>

theorem capture_replay_roundtrip:
  assumes "length (si_trail sim) = MAX_TRAIL_SIZE" "list_all cmd_nonempty cmds"
    and "length (enc cmds) \<le> MAX_TRAIL_SIZE"
  shows "let sim0 = simulator_configure sim sid name port True r s m sem;
           captured = foldl capture_command sim0 cmds
     in read_packets (length cmds) (captured\<lparr>si_index := 0\<rparr>) = map Some cmds \<and>
        si_length captured = length (enc cmds)"
proof -
  let ?sim = "simulator_configure sim sid name port True r s m sem"
  have h: "trail_holds ?sim [] 0"
    using assms(1)
    by (simp add: trail_holds_def trail_at_def trail_wf_def simulator_configure_def Let_def split: option.split)
  have fit: "trail.all_fit [] cmds"
    using assms(2,3) all_fit_iff [of cmds "[]"] by (cases "cmds = []") simp_all
  have "trail_holds (foldl capture_command ?sim cmds) ([] @ cmds) (length ([] @ cmds))"
    using h fit by (intro trail.captures) simp_all
  then have "si_length (foldl capture_command ?sim cmds) = length (enc cmds)"
    by (simp add: trail_holds_def trail_at_def trail_wf_def)
  then show ?thesis
    using trail.roundtrip [OF h fit] by (simp add: read_packets_eq Let_def)
qed

definition demo_simulator :: Simulator_Control where
  "demo_simulator = \<lparr>si_id = 1, si_name = replicate 4 NUL, si_trail = replicate 64 0,
     si_merged_tx = replicate 64 0, si_merged_rx = replicate 64 0, si_index = 0, si_length = 0,
     si_merged_length = 0, si_capture_enabled = False, si_replay_enabled = False,
     si_simulate_enabled = False, si_merge_enabled = False, si_replayed_merge = False,
     si_mode = Simulator_Disabled, si_semaphore = 0, si_port = False, si_failCode = Simulator_Ok\<rparr>"

lemma capture_replay_roundtrip_witness:
  "let captured = foldl capture_command
         (simulator_configure demo_simulator 1 (Some ''tmp'') True True True True True 5) [([0xF7], [0xFF]), ([0, 0], [80, 1])]
   in read_packets 2 (captured\<lparr>si_index := 0\<rparr>) = [Some ([0xF7], [0xFF]), Some ([0, 0], [80, 1])] \<and>
      si_length captured = 10"
  using capture_replay_roundtrip [of demo_simulator "[([0xF7], [0xFF]), ([0, 0], [80, 1])]" 1 "Some ''tmp''" True True True True 5]
  by (simp add: demo_simulator_def cmd_nonempty_def Let_def eval_nat_numeral)

section \<open>Overflow\<close>

lemma mismatch_stays:
  assumes "si_mode sim = Simulator_Mismatch"
  shows "si_mode (fst (simulator_capture_size sim n)) = Simulator_Mismatch"
    "si_trail (fst (simulator_capture_size sim n)) = si_trail sim"
    "si_index (fst (simulator_capture_size sim n)) = si_index sim"
    "si_mode (fst (simulator_capture_packet sim p n)) = Simulator_Mismatch"
    "si_trail (fst (simulator_capture_packet sim p n)) = si_trail sim"
    "si_index (fst (simulator_capture_packet sim p n)) = si_index sim"
  using assms
  by (simp_all add: simulator_capture_size_def simulator_capture_packet_def simulator_overflow_def
      sim_showError_def split: option.split)

definition trail_safe :: "Simulator_Control \<Rightarrow> bool" where
  "trail_safe sim \<longleftrightarrow> length (si_trail sim) = MAX_TRAIL_SIZE \<and> si_index sim \<le> MAX_TRAIL_SIZE"

lemma capture_size_step:
  assumes "trail_prefix sim bs" "0 < n"
  shows "trail_prefix (fst (simulator_capture_size sim (int n))) (bs @ [of_nat n]) \<and> length bs < MAX_TRAIL_SIZE \<or>
    trail_safe (fst (simulator_capture_size sim (int n))) \<and>
    si_mode (fst (simulator_capture_size sim (int n))) = Simulator_Mismatch \<and> length bs = MAX_TRAIL_SIZE"
proof (cases "length bs < MAX_TRAIL_SIZE")
  case True
  then show ?thesis using capture_size_prefix [OF assms(1) True assms(2)] by simp
next
  case False
  then show ?thesis
    using assms by (simp add: simulator_capture_size_def simulator_overflow_def sim_showError_def
        trail_safe_def trail_prefix_def)
qed

lemma capture_packet_step:
  assumes "trail_prefix sim bs" "p \<noteq> []"
  shows "trail_prefix (fst (simulator_capture_packet sim (Some p) (int (length p)))) (bs @ p) \<and>
      length bs + length p \<le> MAX_TRAIL_SIZE \<or>
    trail_safe (fst (simulator_capture_packet sim (Some p) (int (length p)))) \<and>
    si_mode (fst (simulator_capture_packet sim (Some p) (int (length p)))) = Simulator_Mismatch \<and>
      length bs + length p > MAX_TRAIL_SIZE"
proof (cases "length bs + length p \<le> MAX_TRAIL_SIZE")
  case True
  then show ?thesis using capture_packet_prefix [OF assms(1) True assms(2)] by simp
next
  case False
  then show ?thesis
    using assms by (simp add: simulator_capture_packet_def simulator_overflow_def sim_showError_def
        trail_safe_def trail_prefix_def)
qed

text \<open>
  C23. Capturing never stores outside the trail: a command that fits is appended to it, and a command
  that does not fit stops the capture by switching the simulator to Mismatch mode.
\<close>

theorem capture_command_bounded:
  assumes "trail_prefix sim bs" "cmd_nonempty p"
  shows "trail_safe (capture_command sim p) \<and>
    (if length bs + length (enc_cmd p) \<le> MAX_TRAIL_SIZE
     then trail_prefix (capture_command sim p) (bs @ enc_cmd p)
     else si_mode (capture_command sim p) = Simulator_Mismatch)"
proof (cases "length bs + length (enc_cmd p) \<le> MAX_TRAIL_SIZE")
  case True
  then show ?thesis
    using capture_command_prefix [OF assms True] by (simp add: trail_safe_def trail_prefix_def)
next
  case False
  obtain tx rx where p: "p = (tx, rx)" by (cases p)
  have ne: "tx \<noteq> []" "rx \<noteq> []" using assms(2) p by (simp_all add: cmd_nonempty_def)
  let ?s1 = "fst (simulator_capture_size sim (int (length tx)))"
  let ?s2 = "fst (simulator_capture_packet ?s1 (Some tx) (int (length tx)))"
  let ?s3 = "fst (simulator_capture_size ?s2 (int (length rx)))"
  let ?s4 = "fst (simulator_capture_packet ?s3 (Some rx) (int (length rx)))"
  let ?bad = "\<lambda>s. trail_safe s \<and> si_mode s = Simulator_Mismatch"
  have 1: "trail_prefix ?s1 (bs @ [of_nat (length tx)]) \<or> ?bad ?s1"
    using capture_size_step [OF assms(1), of "length tx"] ne by auto
  then have 2: "trail_prefix ?s2 ((bs @ [of_nat (length tx)]) @ tx) \<or> ?bad ?s2"
    using capture_packet_step [of ?s1 "bs @ [of_nat (length tx)]" tx] ne mismatch_stays [of ?s1]
    by (auto simp: trail_safe_def)
  then have 3: "trail_prefix ?s3 (((bs @ [of_nat (length tx)]) @ tx) @ [of_nat (length rx)]) \<or> ?bad ?s3"
    using capture_size_step [of ?s2 "(bs @ [of_nat (length tx)]) @ tx" "length rx"] ne mismatch_stays [of ?s2]
    by (auto simp: trail_safe_def)
  then have "?bad ?s4"
    using capture_packet_step [of ?s3 "((bs @ [of_nat (length tx)]) @ tx) @ [of_nat (length rx)]" rx]
      ne mismatch_stays [of ?s3] False p
    by (auto simp: trail_safe_def)
  then show ?thesis using False by (simp add: capture_command_def p)
qed

lemma capture_command_bounded_witness:
  "si_mode (capture_command (simulator_configure demo_simulator 1 None True True True True True 5)
     (replicate 40 1, replicate 40 2)) = Simulator_Mismatch"
  using capture_command_bounded [of "simulator_configure demo_simulator 1 None True True True True True 5" "[]"
      "(replicate 40 1, replicate 40 2)"]
  by (simp add: trail_prefix_def simulator_configure_def demo_simulator_def cmd_nonempty_def)

end
