(* ===== verification/Spi.thy ===== *)
theory Spi
  imports Trail
begin

text \<open>
  \<^verbatim>\<open>stm32/spiint/spiint.cpp\<close>: one SPI port with its DMA channels, and the operations of
  \<^verbatim>\<open>simulator.cpp\<close> that reach into the port. A \<open>Bus\<close> is a port, the simulator of the sensor that
  has the port open, the buffers the driver passes, and what the hardware sees: the two DMA channels, the
  packets started and the semaphores signalled. Interrupts and the receive DMA are events of the
  environment; a waiting loop takes the list of its iterations. None is a dereference of a null pointer.
\<close>

section \<open>State\<close>

datatype SPI_Fails =
    SPI_Ok | SPI_Missing_Simulator | SPI_Invalid_Port | SPI_Invalid_Size | SPI_Mismatch | SPI_Timeout

datatype Trans_Status =
    TRANS_NONE | TRANS_TIMEOUT | TRANS_TX_HALFDONE | TRANS_TX_COMPLETE | TRANS_TX_ERROR
  | TRANS_RX_HALFDONE | TRANS_RX_COMPLETE | TRANS_RX_ERROR

abbreviation MAX_TRANS_STATUS :: nat where "MAX_TRANS_STATUS \<equiv> 6"

text \<open>
  The peripherals are named by their libopencm3 constants; \<open>NoPort\<close> is the id 0. A pin is its GPIO
  port, its number and its clock; a DMA channel its unit, its number and its clock.
\<close>

datatype port_id = NoPort | SPI1 | SPI2 | I2C1 | I2C2 | USART1 | USART2
datatype rcc = RCC_none | RCC_SPI nat | RCC_GPIO char | RCC_DMA nat

type_synonym gpio = "char \<times> nat \<times> rcc"
type_synonym dma_channel = "nat \<times> nat \<times> rcc"

text \<open>A pointer to a packet: the buffer of the driver, an offset in the trail, a merged buffer, the dummy.\<close>

datatype buf_ref = ClientTx | ClientRx | TrailAt nat | MergedTx | MergedRx | DummyTx

record SPI_Control =
  pt_id :: nat
  pt_failCode :: SPI_Fails
  pt_speedMaximum :: u32
  pt_bitOrder :: u8
  pt_dataMode :: u8
  pt_timeout :: u32
  pt_tx_semaphore :: "u8 option"
  pt_rx_semaphore :: "u8 option"
  pt_tx_buf :: buf_ref
  pt_tx_len :: int
  pt_rx_buf :: buf_ref
  pt_rx_len :: int
  pt_rx_remainder :: int
  pt_transceive_status :: Trans_Status
  pt_transceive_history :: "Trans_Status list"
  pt_SPIx :: port_id
  pt_RCC_SPIx :: rcc
  pt_ss :: gpio
  pt_sck :: gpio
  pt_miso :: gpio
  pt_mosi :: gpio
  pt_tx_dma :: dma_channel
  pt_rx_dma :: dma_channel

text \<open>The control register of the port, as \<^verbatim>\<open>spi_init_master\<close> sets it.\<close>

datatype clock_polarity = CPOL_CLK_TO_0_WHEN_IDLE | CPOL_CLK_TO_1_WHEN_IDLE
datatype clock_phase = CPHA_CLK_TRANSITION_1 | CPHA_CLK_TRANSITION_2
datatype bit_order = CR1_LSBFIRST | CR1_MSBFIRST

record SpiConfig =
  cr_baudrate :: nat   \<comment> \<open>\<^verbatim>\<open>SPI_CR1_BAUDRATE_FPCLK_DIV_n\<close>, by its divisor \<open>n\<close>\<close>
  cr_polarity :: clock_polarity
  cr_phase :: clock_phase
  cr_bit_order :: bit_order

text \<open>A DMA channel as \<^verbatim>\<open>spi_setup_dma\<close> leaves it; \<open>dm_irq\<close> stands for its three interrupt enables.\<close>

record Dma =
  dm_buf :: buf_ref
  dm_count :: int
  dm_increment :: bool
  dm_irq :: bool
  dm_enabled :: bool

definition dma_reset :: Dma where
  "dma_reset = \<lparr>dm_buf = DummyTx, dm_count = 0, dm_increment = False, dm_irq = False, dm_enabled = False\<rparr>"

record Bus =
  bs_port :: SPI_Control
  bs_attached :: bool    \<comment> \<open>whether the simulator pointer of the port is set\<close>
  bs_sim :: Simulator_Control
  bs_client_tx :: "u8 list"
  bs_client_rx :: "u8 list"
  bs_tx_dma :: Dma
  bs_rx_dma :: Dma
  bs_config :: "SpiConfig option"
  bs_open :: bool        \<comment> \<open>whether the interrupts of the port are enabled in the NVIC\<close>
  bs_started :: "(u8 list \<times> int) list"  \<comment> \<open>the transfers started: the bytes sent, the length to receive\<close>
  bs_signals :: "u8 list"               \<comment> \<open>the semaphores signalled, in order\<close>

text \<open>Updates of the two parts, and the store of the receive DMA.\<close>

definition upd_port :: "(SPI_Control \<Rightarrow> SPI_Control) \<Rightarrow> Bus \<Rightarrow> Bus" where
  "upd_port f b = b\<lparr>bs_port := f (bs_port b)\<rparr>"

definition upd_sim :: "(Simulator_Control \<Rightarrow> Simulator_Control) \<Rightarrow> Bus \<Rightarrow> Bus" where
  "upd_sim f b = b\<lparr>bs_sim := f (bs_sim b)\<rparr>"

fun read_buf :: "Bus \<Rightarrow> buf_ref \<Rightarrow> nat \<Rightarrow> u8 list" where
  "read_buf b ClientTx n = take n (bs_client_tx b)"
| "read_buf b ClientRx n = take n (bs_client_rx b)"
| "read_buf b (TrailAt i) n = slice (si_trail (bs_sim b)) i n"
| "read_buf b MergedTx n = take n (si_merged_tx (bs_sim b))"
| "read_buf b MergedRx n = take n (si_merged_rx (bs_sim b))"
| "read_buf b DummyTx n = replicate n 0"

fun write_buf :: "Bus \<Rightarrow> buf_ref \<Rightarrow> u8 list \<Rightarrow> Bus" where
  "write_buf b ClientTx bytes = b\<lparr>bs_client_tx := blit (bs_client_tx b) 0 bytes\<rparr>"
| "write_buf b ClientRx bytes = b\<lparr>bs_client_rx := blit (bs_client_rx b) 0 bytes\<rparr>"
| "write_buf b (TrailAt i) bytes = upd_sim (\<lambda>s. s\<lparr>si_trail := blit (si_trail s) i bytes\<rparr>) b"
| "write_buf b MergedTx bytes = upd_sim (\<lambda>s. s\<lparr>si_merged_tx := blit (si_merged_tx s) 0 bytes\<rparr>) b"
| "write_buf b MergedRx bytes = upd_sim (\<lambda>s. s\<lparr>si_merged_rx := blit (si_merged_rx s) 0 bytes\<rparr>) b"
| "write_buf b DummyTx bytes = b"

section \<open>Errors and status\<close>

definition spi_showError :: "Bus \<Rightarrow> SPI_Fails \<Rightarrow> Bus \<times> SPI_Fails" where
  "spi_showError b fc = (upd_port (\<lambda>p. p\<lparr>pt_failCode := fc\<rparr>) b, fc)"

definition diff_ticks :: "u32 \<Rightarrow> u32 \<Rightarrow> u32" where
  "diff_ticks early later = (if later \<ge> early then later - early else NOT 0 - early + 1 + later)"

text \<open>The first free entry of the history is overwritten and the next one, when there is one, cleared.\<close>

fun add_history :: "nat \<Rightarrow> Trans_Status list \<Rightarrow> Trans_Status \<Rightarrow> Trans_Status list" where
  "add_history i [] st = []"
| "add_history i (h # hs) st =
     (if h = TRANS_NONE
      then st # (if Suc i < MAX_TRANS_STATUS then poke hs 0 TRANS_NONE else hs)
      else h # add_history (Suc i) hs st)"

definition add_transceive_status :: "Trans_Status \<Rightarrow> SPI_Control \<Rightarrow> SPI_Control" where
  "add_transceive_status st p = p\<lparr>pt_transceive_history := add_history 0 (pt_transceive_history p) st\<rparr>"

definition next_status :: "Trans_Status \<Rightarrow> Trans_Status" where
  "next_status st = (case st of
       TRANS_NONE \<Rightarrow> TRANS_TX_COMPLETE
     | TRANS_TX_COMPLETE \<Rightarrow> TRANS_RX_COMPLETE
     | _ \<Rightarrow> st)"

text \<open>None as the new status stands for the default argument, minus one.\<close>

definition update_transceive_status :: "Trans_Status option \<Rightarrow> SPI_Control \<Rightarrow> SPI_Control" where
  "update_transceive_status new_status p = (case new_status of
       None \<Rightarrow>
         let p' = p\<lparr>pt_transceive_status := next_status (pt_transceive_status p)\<rparr>
         in if pt_transceive_status p' \<noteq> pt_transceive_status p
            then add_transceive_status (pt_transceive_status p') p' else p'
     | Some st \<Rightarrow>
         let p' = (if st = TRANS_TIMEOUT \<or> st = TRANS_TX_ERROR \<or> st = TRANS_RX_ERROR
                   then p\<lparr>pt_transceive_status := st\<rparr> else p)
         in add_transceive_status st p')"

definition spi_is_transceive_complete :: "Bus \<Rightarrow> bool" where
  "spi_is_transceive_complete b = (let status = pt_transceive_status (bs_port b)
     in status = TRANS_RX_COMPLETE \<or> status = TRANS_TIMEOUT \<or> status = TRANS_TX_ERROR \<or> status = TRANS_RX_ERROR)"

definition spi_is_transceive_successful :: "Bus \<Rightarrow> bool" where
  "spi_is_transceive_successful b = (pt_transceive_status (bs_port b) = TRANS_RX_COMPLETE)"

section \<open>The DMA channels\<close>

definition spi_setup_dma :: "buf_ref \<Rightarrow> int \<Rightarrow> bool \<Rightarrow> Dma \<Rightarrow> Dma" where
  "spi_setup_dma buf len increment d = d\<lparr>dm_buf := buf, dm_count := len, dm_increment := increment\<rparr>"

definition enable_interrupts :: "Dma \<Rightarrow> Dma" where
  "enable_interrupts d = d\<lparr>dm_irq := True\<rparr>"

definition disable_interrupts :: "Dma \<Rightarrow> Dma" where
  "disable_interrupts d = d\<lparr>dm_irq := False\<rparr>"

definition dma_enable_channel :: "Dma \<Rightarrow> Dma" where
  "dma_enable_channel d = d\<lparr>dm_enabled := True\<rparr>"

definition dma_disable_channel :: "Dma \<Rightarrow> Dma" where
  "dma_disable_channel d = d\<lparr>dm_enabled := False\<rparr>"

section \<open>Starting a transfer\<close>

text \<open>\<^verbatim>\<open>spi_transceive\<close> from the reset of the DMA channels on; the simulation before it is below.\<close>

definition spi_start :: "Bus \<Rightarrow> buf_ref \<Rightarrow> int \<Rightarrow> buf_ref \<Rightarrow> int \<Rightarrow> u8 option \<Rightarrow> Bus \<times> SPI_Fails" where
  "spi_start b tx_buf tx_len rx_buf rx_len completed_semaphore =
     (let b = b\<lparr>bs_tx_dma := dma_reset, bs_rx_dma := dma_reset\<rparr>;
          b = upd_port (\<lambda>p. p\<lparr>pt_tx_buf := tx_buf, pt_tx_len := tx_len, pt_rx_buf := rx_buf, pt_rx_len := rx_len,
                pt_rx_semaphore := completed_semaphore, pt_tx_semaphore := None,
                pt_transceive_status := (if rx_len < 1 then TRANS_TX_COMPLETE else TRANS_NONE),
                pt_transceive_history := poke (pt_transceive_history p) 0 TRANS_NONE,
                pt_rx_remainder := (if tx_len > 0 \<and> tx_len < rx_len then rx_len - tx_len else 0)\<rparr>) b;
          b = (if rx_len > 0
               then b\<lparr>bs_rx_dma := dma_enable_channel (enable_interrupts (spi_setup_dma rx_buf rx_len True (bs_rx_dma b)))\<rparr>
               else b);
          b = b\<lparr>bs_tx_dma := dma_enable_channel (enable_interrupts
                (if tx_len > 0 then spi_setup_dma tx_buf tx_len True (bs_tx_dma b)
                 else spi_setup_dma DummyTx rx_len False (bs_tx_dma b)))\<rparr>
      in (b\<lparr>bs_started := bs_started b @ [(if tx_len > 0 then read_buf b tx_buf (nat tx_len)
             else replicate (nat rx_len) 0, rx_len)]\<rparr>, SPI_Ok))"

text \<open>
  \<^verbatim>\<open>spi_simulate\<close> and \<^verbatim>\<open>spi_simulate_error\<close> call \<^verbatim>\<open>spi_transceive\<close> back only after leaving Simulate mode, so
  the call is the start of a transfer.
\<close>

definition spi_simulate_error :: "Bus \<Rightarrow> buf_ref \<Rightarrow> int \<Rightarrow> buf_ref \<Rightarrow> int \<Rightarrow> Bus \<times> SPI_Fails" where
  "spi_simulate_error b tx_buf tx_len rx_buf rx_len =
     spi_start (upd_sim (\<lambda>s. s\<lparr>si_mode := Simulator_Mismatch\<rparr>) b) tx_buf tx_len rx_buf rx_len None"

definition spi_simulate :: "Bus \<Rightarrow> buf_ref \<Rightarrow> int \<Rightarrow> buf_ref \<Rightarrow> int \<Rightarrow> (Bus \<times> SPI_Fails) option" where
  "spi_simulate b tx_buf tx_len rx_buf rx_len =
     (let (sim, captured_tx_len, captured_tx_buf, captured_rx_len, captured_rx_buf) = next_command (bs_sim b);
          b = b\<lparr>bs_sim := sim\<rparr>
      in if tx_len \<noteq> captured_tx_len \<or> rx_len \<noteq> captured_rx_len
         then Some (spi_simulate_error b tx_buf tx_len rx_buf rx_len)
         else case captured_tx_buf of
           None \<Rightarrow> None
         | Some i \<Rightarrow>
             if read_buf b tx_buf (nat tx_len) \<noteq> slice (si_trail sim) i (nat tx_len)
             then Some (spi_simulate_error b tx_buf tx_len rx_buf rx_len)
             else case captured_rx_buf of
               None \<Rightarrow> None
             | Some j \<Rightarrow>
                 Some (upd_port (\<lambda>p. p\<lparr>pt_transceive_status := TRANS_RX_COMPLETE\<rparr>)
                   (write_buf b rx_buf (slice (si_trail sim) j (nat rx_len))), SPI_Ok))"

definition spi_transceive ::
  "Bus \<Rightarrow> buf_ref \<Rightarrow> int \<Rightarrow> buf_ref \<Rightarrow> int \<Rightarrow> u8 option \<Rightarrow> (Bus \<times> SPI_Fails) option" where
  "spi_transceive b tx_buf tx_len rx_buf rx_len completed_semaphore =
     (if rx_len < 1 \<and> tx_len < 1 then Some (spi_showError b SPI_Invalid_Size)
      else if bs_attached b \<and> si_mode (bs_sim b) = Simulator_Simulate
      then spi_simulate b tx_buf tx_len rx_buf rx_len
      else Some (spi_start b tx_buf tx_len rx_buf rx_len completed_semaphore))"

section \<open>Interrupts\<close>

text \<open>The flags of a DMA interrupt: half transfer, transfer complete, transfer error.\<close>

record Flags =
  fl_half :: bool
  fl_complete :: bool
  fl_error :: bool

definition signal_tx :: "Bus \<Rightarrow> Bus" where
  "signal_tx b = (case pt_tx_semaphore (bs_port b) of
       None \<Rightarrow> b
     | Some sem \<Rightarrow> upd_port (\<lambda>p. p\<lparr>pt_tx_semaphore := None\<rparr>) (b\<lparr>bs_signals := bs_signals b @ [sem]\<rparr>))"

definition signal_rx :: "Bus \<Rightarrow> Bus" where
  "signal_rx b = (case pt_rx_semaphore (bs_port b) of
       None \<Rightarrow> b
     | Some sem \<Rightarrow> upd_port (\<lambda>p. p\<lparr>pt_rx_semaphore := None\<rparr>) (b\<lparr>bs_signals := bs_signals b @ [sem]\<rparr>))"

definition stop_tx :: "Bus \<Rightarrow> Bus" where
  "stop_tx b = b\<lparr>bs_tx_dma := dma_disable_channel (disable_interrupts (bs_tx_dma b))\<rparr>"

definition stop_rx :: "Bus \<Rightarrow> Bus" where
  "stop_rx b = b\<lparr>bs_rx_dma := dma_disable_channel (disable_interrupts (bs_rx_dma b))\<rparr>"

definition tx_remainder :: "Bus \<Rightarrow> Bus" where
  "tx_remainder b =
     (let rx_remainder = pt_rx_remainder (bs_port b);
          b = upd_port (\<lambda>p. p\<lparr>pt_rx_remainder := 0\<rparr>) b
      in b\<lparr>bs_tx_dma := dma_enable_channel (enable_interrupts (spi_setup_dma DummyTx rx_remainder False dma_reset))\<rparr>)"

definition handle_tx_interrupt :: "Flags \<Rightarrow> Bus \<Rightarrow> Bus" where
  "handle_tx_interrupt fl b =
     (let b = (if fl_half fl then upd_port (update_transceive_status (Some TRANS_TX_HALFDONE)) b else b);
          b = (if fl_complete fl then
                 (let b = stop_tx b
                  in if pt_rx_remainder (bs_port b) = 0
                     then signal_tx (upd_port (update_transceive_status None) b)
                     else tx_remainder b)
               else b)
      in if fl_error fl
         then signal_rx (signal_tx (upd_port (update_transceive_status (Some TRANS_TX_ERROR)) (stop_tx b)))
         else b)"

definition handle_rx_interrupt :: "Flags \<Rightarrow> Bus \<Rightarrow> Bus" where
  "handle_rx_interrupt fl b =
     (let b = (if fl_half fl then upd_port (update_transceive_status (Some TRANS_RX_HALFDONE)) b else b);
          b = (if fl_complete fl
               then signal_rx (upd_port (update_transceive_status None) (stop_rx b)) else b)
      in if fl_error fl
         then signal_rx (upd_port (update_transceive_status (Some TRANS_RX_ERROR)) (stop_rx b))
         else b)"

text \<open>
  What the environment does: the receive DMA stores the bytes of a whole packet, or a channel raises an
  interrupt, which reaches its handler while the channel has its interrupts enabled and the port is open.
\<close>

datatype bus_event = RxBytes "u8 list" | TxIrq Flags | RxIrq Flags

fun on_event :: "bus_event \<Rightarrow> Bus \<Rightarrow> Bus" where
  "on_event (RxBytes bytes) b =
     (if dm_enabled (bs_rx_dma b) then write_buf b (dm_buf (bs_rx_dma b)) (take (nat (dm_count (bs_rx_dma b))) bytes) else b)"
| "on_event (TxIrq fl) b = (if bs_open b \<and> dm_irq (bs_tx_dma b) then handle_tx_interrupt fl b else b)"
| "on_event (RxIrq fl) b = (if bs_open b \<and> dm_irq (bs_rx_dma b) then handle_rx_interrupt fl b else b)"

definition bus_events :: "bus_event list \<Rightarrow> Bus \<Rightarrow> Bus" where
  "bus_events es b = fold on_event es b"

end
