(* ===== verification/SpiOps.thy ===== *)
theory SpiOps
  imports Spi
begin

text \<open>
  The operations on a SPI port: configuration, opening and closing, the blocking transfer, the replay of a
  trail, and the simulator's open, replay and close; then the two ports with their pins, and the Arduino
  interface on top of them.
\<close>

section \<open>Configuration\<close>

text \<open>A row: the divisor, and the frequency it gives on SPI1 and on SPI2.\<close>

definition baudrateDivisors :: "(nat \<times> u32 \<times> u32) list" where
  "baudrateDivisors =
     [(2, 36000000, 18000000), (4, 18000000, 9000000), (8, 9000000, 4500000), (16, 4500000, 2250000),
      (32, 2250000, 1125000), (64, 1125000, 562500), (128, 562500, 281250), (256, 281250, 140625)]"

definition row_freq :: "nat \<Rightarrow> nat \<times> u32 \<times> u32 \<Rightarrow> u32" where
  "row_freq port_id row = (if port_id = 1 then fst (snd row) else snd (snd row))"

fun match_rows :: "nat \<Rightarrow> u32 \<Rightarrow> nat \<times> u32 \<times> u32 \<Rightarrow> (nat \<times> u32 \<times> u32) list \<Rightarrow> nat \<times> u32 \<times> u32" where
  "match_rows port_id speed row [] = row"
| "match_rows port_id speed row (r # rs) =
     (if speed \<ge> row_freq port_id r then r else match_rows port_id speed r rs)"

definition match_baudrate :: "SPI_Control \<Rightarrow> nat \<times> u32 \<times> u32" where
  "match_baudrate p = match_rows (pt_id p) (pt_speedMaximum p) (hd baudrateDivisors) baudrateDivisors"

definition get_baudrate :: "SPI_Control \<Rightarrow> nat" where
  "get_baudrate p = fst (match_baudrate p)"

abbreviation SPI_MODE0 :: u8 where "SPI_MODE0 \<equiv> 0x00"
abbreviation SPI_MODE1 :: u8 where "SPI_MODE1 \<equiv> 0x04"
abbreviation SPI_MODE2 :: u8 where "SPI_MODE2 \<equiv> 0x08"
abbreviation SPI_MODE3 :: u8 where "SPI_MODE3 \<equiv> 0x0C"
abbreviation LSBFIRST :: u8 where "LSBFIRST \<equiv> 0"

definition get_clock_polarity :: "SPI_Control \<Rightarrow> clock_polarity" where
  "get_clock_polarity p =
     (if pt_dataMode p = SPI_MODE0 then CPOL_CLK_TO_0_WHEN_IDLE
      else if pt_dataMode p = SPI_MODE1 then CPOL_CLK_TO_0_WHEN_IDLE
      else if pt_dataMode p = SPI_MODE2 then CPOL_CLK_TO_1_WHEN_IDLE
      else if pt_dataMode p = SPI_MODE3 then CPOL_CLK_TO_1_WHEN_IDLE
      else CPOL_CLK_TO_0_WHEN_IDLE)"

definition get_clock_phase :: "SPI_Control \<Rightarrow> clock_phase" where
  "get_clock_phase p =
     (if pt_dataMode p = SPI_MODE0 then CPHA_CLK_TRANSITION_1
      else if pt_dataMode p = SPI_MODE1 then CPHA_CLK_TRANSITION_2
      else if pt_dataMode p = SPI_MODE2 then CPHA_CLK_TRANSITION_1
      else if pt_dataMode p = SPI_MODE3 then CPHA_CLK_TRANSITION_2
      else CPHA_CLK_TRANSITION_1)"

definition get_bit_order :: "SPI_Control \<Rightarrow> bit_order" where
  "get_bit_order p = (if pt_bitOrder p = LSBFIRST then CR1_LSBFIRST else CR1_MSBFIRST)"

definition spi_configure :: "Bus \<Rightarrow> u32 \<Rightarrow> u8 \<Rightarrow> u8 \<Rightarrow> Bus" where
  "spi_configure b speedMaximum bitOrder dataMode =
     upd_port (\<lambda>p. p\<lparr>pt_speedMaximum := speedMaximum, pt_bitOrder := bitOrder, pt_dataMode := dataMode,
       pt_timeout := 2000\<rparr>) b"

definition spi_open :: "Bus \<Rightarrow> Bus" where
  "spi_open b =
     (let b = upd_port (\<lambda>p. p\<lparr>pt_tx_semaphore := None, pt_rx_semaphore := None,
                pt_transceive_status := TRANS_NONE\<rparr>) b;
          p = bs_port b
      in b\<lparr>bs_config := Some \<lparr>cr_baudrate = get_baudrate p, cr_polarity = get_clock_polarity p,
             cr_phase = get_clock_phase p, cr_bit_order = get_bit_order p\<rparr>, bs_open := True\<rparr>)"

section \<open>Waiting\<close>

text \<open>
  One iteration of a waiting loop: the events before it, the time it reads, and the transmit-empty and busy
  flags. \<open>wait_until\<close> returns whether the condition was met, the iterations left, and the state; None means that the loop
  still runs when the given iterations are used up.
\<close>

record Poll =
  pl_events :: "bus_event list"
  pl_now :: u32
  pl_txe :: bool
  pl_bsy :: bool

fun wait_until :: "(Poll \<Rightarrow> Bus \<Rightarrow> bool) \<Rightarrow> u32 \<Rightarrow> Poll list \<Rightarrow> Bus \<Rightarrow> (bool \<times> Poll list \<times> Bus) option" where
  "wait_until met start [] b = None"
| "wait_until met start (p # ps) b =
     (let b = bus_events (pl_events p) b
      in if met p b then Some (True, ps, b)
         else if diff_ticks start (pl_now p) > pt_timeout (bs_port b) then Some (False, ps, b)
         else wait_until met start ps b)"

definition wait_timeout :: "Bus \<Rightarrow> Bus \<times> SPI_Fails" where
  "wait_timeout b = spi_showError (upd_port (update_transceive_status (Some TRANS_TIMEOUT)) b) SPI_Timeout"

definition spi_wait :: "u32 \<Rightarrow> Poll list \<Rightarrow> Bus \<Rightarrow> (Bus \<times> SPI_Fails) option" where
  "spi_wait start ps b =
     (case wait_until (\<lambda>_. spi_is_transceive_complete) start ps b of
        None \<Rightarrow> None
      | Some (met, ps, b) \<Rightarrow> if \<not> met then Some (wait_timeout b)
          else case wait_until (\<lambda>p _. pl_txe p) start ps b of
            None \<Rightarrow> None
          | Some (met, ps, b) \<Rightarrow> if \<not> met then Some (wait_timeout b)
              else case wait_until (\<lambda>p _. \<not> pl_bsy p) start ps b of
                None \<Rightarrow> None
              | Some (met, ps, b) \<Rightarrow> Some (if \<not> met then wait_timeout b else (b, SPI_Ok)))"

definition spi_close :: "u32 \<Rightarrow> Poll list \<Rightarrow> Bus \<Rightarrow> Bus option" where
  "spi_close start ps b =
     (let b = upd_port (\<lambda>p. p\<lparr>pt_tx_semaphore := None, pt_rx_semaphore := None\<rparr>) b
      in case wait_until (\<lambda>p _. pl_txe p) start ps b of
           None \<Rightarrow> None
         | Some (_, ps, b) \<Rightarrow> (case wait_until (\<lambda>p _. \<not> pl_bsy p) start ps b of
             None \<Rightarrow> None
           | Some (_, ps, b) \<Rightarrow> Some (b\<lparr>bs_open := False\<rparr>)))"

text \<open>The capture of a finished transfer into the trail and into the merged buffers.\<close>

definition capture_transfer :: "Bus \<Rightarrow> buf_ref \<Rightarrow> int \<Rightarrow> buf_ref \<Rightarrow> int \<Rightarrow> Bus" where
  "capture_transfer b tx_buf tx_len rx_buf rx_len =
     (let tx = read_buf b tx_buf (nat tx_len); rx = read_buf b rx_buf (nat rx_len)
      in upd_sim (\<lambda>sim.
           let sim = fst (simulator_capture_size sim tx_len);
               sim = fst (simulator_capture_packet sim (Some tx) tx_len);
               sim = fst (simulator_capture_size sim rx_len);
               sim = fst (simulator_capture_packet sim (Some rx) rx_len)
           in fst (simulator_merge_packet sim (Some tx) tx_len (Some rx) rx_len)) b)"

definition spi_transceive_wait ::
  "u32 \<Rightarrow> Poll list \<Rightarrow> Bus \<Rightarrow> buf_ref \<Rightarrow> int \<Rightarrow> buf_ref \<Rightarrow> int \<Rightarrow> (Bus \<times> SPI_Fails) option" where
  "spi_transceive_wait start ps b tx_buf tx_len rx_buf rx_len =
     (case spi_transceive b tx_buf tx_len rx_buf rx_len None of
        None \<Rightarrow> None
      | Some (b, result) \<Rightarrow>
          if result \<noteq> SPI_Ok then Some (b, result)
          else
            (case (if bs_attached b \<and> si_mode (bs_sim b) = Simulator_Replay then Some b
                   else map_option fst (spi_wait start ps b)) of
               None \<Rightarrow> None
             | Some b \<Rightarrow>
                 Some (if bs_attached b \<and> si_mode (bs_sim b) = Simulator_Capture
                       then capture_transfer b tx_buf tx_len rx_buf rx_len else b, SPI_Ok)))"

section \<open>Replaying\<close>

definition spi_transceive_replay :: "Bus \<Rightarrow> u8 option \<Rightarrow> (Bus \<times> SPI_Fails) option" where
  "spi_transceive_replay b completed_semaphore =
     (if \<not> bs_attached b then Some (spi_showError b SPI_Missing_Simulator)
      else if simulator_should_replay_merged_trail (bs_sim b)
      then spi_transceive b MergedTx (int (si_merged_length (bs_sim b)))
             MergedRx (int (si_merged_length (bs_sim b))) completed_semaphore
      else
        let (sim, tx_len, tx_buf, rx_len, rx_buf) = next_command (bs_sim b);
            b = b\<lparr>bs_sim := sim\<rparr>
        in if tx_len < 0 \<or> rx_len < 0 \<or> tx_buf = None \<or> rx_buf = None
           then Some (spi_showError b SPI_Mismatch)
           else spi_transceive b (TrailAt (the tx_buf)) tx_len (TrailAt (the rx_buf)) rx_len completed_semaphore)"

function split_loop :: "Simulator_Control \<Rightarrow> nat \<Rightarrow> Simulator_Control \<times> SPI_Fails" where
  "split_loop sim received_index =
     (let (sim', tx_len, tx_buf, rx_len, rx_buf) = next_command sim
      in if tx_len < 0 \<or> rx_len < 0 \<or> tx_buf = None \<or> rx_buf = None then (sim', SPI_Ok)
         else if int received_index + rx_len \<ge> int (si_merged_length sim) + 1 then (sim', SPI_Mismatch)
         else split_loop
                (sim'\<lparr>si_trail := blit (si_trail sim') (the rx_buf)
                   (slice (si_merged_rx sim') received_index (nat rx_len))\<rparr>)
                ((received_index + nat rx_len) mod 256))"
  by pat_completeness auto

lemma replay_size_progress:
  "simulator_replay_size sim = (sim', n) \<Longrightarrow> n \<noteq> - 1 \<Longrightarrow>
     si_index sim' = si_index sim + 1 \<and> si_index sim < MAX_TRAIL_SIZE"
  by (auto simp: simulator_replay_size_def split: if_splits)

lemma replay_packet_progress:
  assumes "simulator_replay_packet sim n = (sim', Some i)"
  shows "si_index sim' = si_index sim + nat n \<and> si_index sim' \<le> MAX_TRAIL_SIZE \<and> 0 < n"
proof -
  have n: "0 < n" "int (si_index sim) + n < 65" and s: "sim' = sim\<lparr>si_index := (si_index sim + nat n) mod 256\<rparr>"
    using assms by (auto simp: simulator_replay_packet_def split: if_splits)
  then have "si_index sim + nat n \<le> 64" by linarith
  then show ?thesis using n s by simp
qed

lemma next_command_progress:
  assumes "next_command sim = (sim', tx_len, Some i, rx_len, Some j)"
  shows "si_index sim < si_index sim'" "si_index sim' \<le> MAX_TRAIL_SIZE"
proof -
  obtain s1 where s1: "simulator_replay_size sim = (s1, tx_len)"
    using assms by (simp add: next_command_def Let_def split: prod.splits)
  then obtain s2 where s2: "simulator_replay_packet s1 tx_len = (s2, Some i)"
    using assms by (simp add: next_command_def Let_def split: prod.splits)
  then obtain s3 where s3: "simulator_replay_size s2 = (s3, rx_len)"
    using assms s1 by (simp add: next_command_def Let_def split: prod.splits)
  then have s4: "simulator_replay_packet s3 rx_len = (sim', Some j)"
    using assms s1 s2 by (simp add: next_command_def Let_def split: prod.splits)
  have "tx_len \<noteq> - 1" "rx_len \<noteq> - 1"
    using replay_packet_progress [OF s2] replay_packet_progress [OF s4] by auto
  then show "si_index sim < si_index sim'" "si_index sim' \<le> MAX_TRAIL_SIZE"
    using replay_size_progress [OF s1] replay_packet_progress [OF s2] replay_size_progress [OF s3]
      replay_packet_progress [OF s4] by auto
qed

termination split_loop
proof (relation "measure (\<lambda>(sim, _). Suc MAX_TRAIL_SIZE - si_index sim)")
  fix sim ri t sim' t1 tx_len t2 tx_buf t3 rx_len rx_buf
  assume t: "t = next_command sim" "(sim', t1) = t" "(tx_len, t2) = t1" "(tx_buf, t3) = t2" "(rx_len, rx_buf) = t3"
    and ok: "\<not> (tx_len < 0 \<or> rx_len < 0 \<or> tx_buf = None \<or> rx_buf = None)"
  obtain i j where ij: "tx_buf = Some i" "rx_buf = Some j" using ok by (cases tx_buf; cases rx_buf) auto
  have "next_command sim = (sim', tx_len, Some i, rx_len, Some j)"
    using t ij by (metis prod.inject)
  from next_command_progress [OF this]
  show "((sim'\<lparr>si_trail := blit (si_trail sim') (the rx_buf) (slice (si_merged_rx sim') ri (nat rx_len))\<rparr>,
          (ri + nat rx_len) mod 256), (sim, ri))
      \<in> measure (\<lambda>(sim, _). Suc MAX_TRAIL_SIZE - si_index sim)"
    by simp
qed simp

declare split_loop.simps [simp del]

definition spi_split_trail :: "Bus \<Rightarrow> Bus \<times> SPI_Fails" where
  "spi_split_trail b =
     (let (sim, result) = split_loop (bs_sim b) 0;
          b = b\<lparr>bs_sim := sim\<rparr>
      in if result = SPI_Ok then (b, SPI_Ok) else spi_showError b result)"

section \<open>The simulator on the port\<close>

definition configure_simulator ::
  "Bus \<Rightarrow> u8 \<Rightarrow> string option \<Rightarrow> bool \<Rightarrow> bool \<Rightarrow> bool \<Rightarrow> bool \<Rightarrow> bool \<Rightarrow> u8 \<Rightarrow> Bus" where
  "configure_simulator b sid name port capture_enabled replay_enabled simulate_enabled merge_enabled semaphore =
     b\<lparr>bs_sim := simulator_configure (bs_sim b) sid name port capture_enabled replay_enabled simulate_enabled
         merge_enabled semaphore,
       bs_attached := (if port then capture_enabled else bs_attached b)\<rparr>"

definition simulator_open :: "Bus \<Rightarrow> Bus \<times> Simulator_Fails" where
  "simulator_open b =
     (if si_mode (bs_sim b) = Simulator_Disabled then (b, Simulator_Ok)
      else if \<not> si_port (bs_sim b)
      then (upd_sim (\<lambda>s. fst (sim_showError s Simulator_Missing_Port)) b, Simulator_Missing_Port)
      else
        let b = upd_sim (\<lambda>s. s\<lparr>si_index := 0, si_replayed_merge := False\<rparr>) b;
            b = b\<lparr>bs_attached := True\<rparr>
        in (if si_mode (bs_sim b) = Simulator_Replay then spi_open b else b, Simulator_Ok))"

text \<open>The semaphore the Sensor Task waits for, None when there is nothing left to replay.\<close>

definition simulator_replay :: "Bus \<Rightarrow> (Bus \<times> u8 option) option" where
  "simulator_replay b =
     (if si_mode (bs_sim b) \<noteq> Simulator_Replay \<or> \<not> si_port (bs_sim b) then Some (b, None)
      else
        let go = (\<lambda>b. case spi_transceive_replay b (Some (si_semaphore (bs_sim b))) of
              None \<Rightarrow> None
            | Some (b, result) \<Rightarrow> Some (b, if result \<noteq> SPI_Ok then None else Some (si_semaphore (bs_sim b))))
        in if simulator_should_replay_merged_trail (bs_sim b)
           then if si_replayed_merge (bs_sim b) then Some (b, None)
                else go (upd_sim (\<lambda>s. s\<lparr>si_replayed_merge := True\<rparr>) b)
           else if si_index (bs_sim b) \<ge> si_length (bs_sim b) then Some (b, None)
           else go b)"

definition next_mode :: "Simulator_Control \<Rightarrow> Simulator_Control" where
  "next_mode sim = (case si_mode sim of
       Simulator_Capture \<Rightarrow>
         if si_length sim > 0 then sim\<lparr>si_mode := Simulator_Replay\<rparr> else sim\<lparr>si_mode := Simulator_Mismatch\<rparr>
     | Simulator_Replay \<Rightarrow> sim\<lparr>si_mode := Simulator_Simulate\<rparr>
     | Simulator_Simulate \<Rightarrow> sim\<lparr>si_mode := Simulator_Replay\<rparr>
     | Simulator_Mismatch \<Rightarrow> sim\<lparr>si_length := 0, si_mode := Simulator_Capture\<rparr>
     | Simulator_Disabled \<Rightarrow> sim)"

text \<open>Dumping the trail to the console leaves the simulator as it is.\<close>

definition simulator_close :: "u32 \<Rightarrow> Poll list \<Rightarrow> Bus \<Rightarrow> (Bus \<times> Simulator_Fails) option" where
  "simulator_close start ps b =
     (if si_mode (bs_sim b) = Simulator_Disabled then Some (b, Simulator_Ok)
      else
        (case (if si_port (bs_sim b) \<and> si_mode (bs_sim b) = Simulator_Replay
               then (case spi_close start ps b of
                   None \<Rightarrow> None
                 | Some b \<Rightarrow>
                     if \<not> simulator_should_replay_merged_trail (bs_sim b) then Some b
                     else if \<not> bs_attached b then None
                     else Some (fst (spi_split_trail b)))
               else Some b) of
           None \<Rightarrow> None
         | Some b \<Rightarrow>
             let b = upd_sim next_mode b
             in Some (if si_port (bs_sim b) then b\<lparr>bs_attached := False\<rparr> else b, Simulator_Ok)))"

definition simulator_is_request_complete :: "Bus \<Rightarrow> bool" where
  "simulator_is_request_complete b = (if \<not> si_port (bs_sim b) then True else spi_is_transceive_complete b)"

definition simulator_is_request_successful :: "Bus \<Rightarrow> bool" where
  "simulator_is_request_successful b = (if \<not> si_port (bs_sim b) then True else spi_is_transceive_successful b)"

end
