(* ===== verification/SpiPorts.thy ===== *)
theory SpiPorts
  imports SpiOps
begin

text \<open>
  The two SPI ports with their pins and DMA channels, the dispatch of their interrupts, and the Arduino
  interface (\<^verbatim>\<open>SPIInterface\<close>) by which the BME280 driver transfers single bytes; with the pin table of
  \<^verbatim>\<open>stm32/bluepill/bluepill.cpp\<close>.
\<close>

section \<open>Pins\<close>

definition allPins :: "port_id list" where
  "allPins = [NoPort, SPI1, SPI2, I2C1, I2C2, USART1, USART2]"

definition convert_pin_to_port :: "nat \<Rightarrow> port_id" where
  "convert_pin_to_port pin = (if pin < 1 \<or> pin \<ge> length allPins then NoPort else allPins ! pin)"

fun find_pin :: "nat \<Rightarrow> port_id list \<Rightarrow> port_id \<Rightarrow> nat" where
  "find_pin pin [] port_id = 0"
| "find_pin pin (p # ps) port_id = (if port_id = p then pin else find_pin (Suc pin) ps port_id)"

definition convert_port_to_pin :: "port_id \<Rightarrow> nat" where
  "convert_port_to_pin port_id = find_pin 1 (drop 1 allPins) port_id"

section \<open>Setting up the ports\<close>

abbreviation MAX_SPI_PORTS :: nat where "MAX_SPI_PORTS \<equiv> 2"

record SpiSystem =
  sy_ports :: "Bus list"
  sy_firstTime :: bool
  sy_current :: nat       \<comment> \<open>\<^verbatim>\<open>currentSPIPort\<close>, 0 when unknown\<close>
  sy_clocks :: "rcc list" \<comment> \<open>the clocks enabled, in order\<close>

definition spi_init_port ::
  "Bus list \<Rightarrow> nat \<Rightarrow> port_id \<Rightarrow> rcc \<Rightarrow> gpio \<Rightarrow> gpio \<Rightarrow> gpio \<Rightarrow> gpio \<Rightarrow> dma_channel \<Rightarrow> dma_channel
    \<Rightarrow> Bus list \<times> SPI_Fails" where
  "spi_init_port ports pid SPIx RCC_SPIx ss sck miso mosi tx rx =
     (if pid < 1 \<or> pid > MAX_SPI_PORTS then (ports, SPI_Invalid_Port)
      else
        let b = upd_port (\<lambda>p. p\<lparr>pt_id := pid, pt_tx_semaphore := None, pt_rx_semaphore := None,
                  pt_SPIx := SPIx, pt_RCC_SPIx := RCC_SPIx, pt_ss := ss, pt_sck := sck, pt_miso := miso,
                  pt_mosi := mosi, pt_tx_dma := tx, pt_rx_dma := rx\<rparr>) (ports ! (pid - 1));
            b = b\<lparr>bs_attached := False\<rparr>
        in (ports[pid - 1 := b], SPI_Ok))"

definition GPIO :: "char \<Rightarrow> nat \<Rightarrow> gpio" where
  "GPIO port pin = (port, pin, RCC_GPIO port)"

definition DMA :: "nat \<Rightarrow> nat \<Rightarrow> dma_channel" where
  "DMA port channel = (port, channel, RCC_DMA port)"

text \<open>The index of the first port with the given peripheral.\<close>

fun find_port :: "nat \<Rightarrow> Bus list \<Rightarrow> port_id \<Rightarrow> nat" where
  "find_port i [] spi_id = 0"
| "find_port i (b # bs) spi_id = (if pt_SPIx (bs_port b) = spi_id then i + 1 else find_port (Suc i) bs spi_id)"

text \<open>The clocks of a port, without those the conditions of \<^verbatim>\<open>spi_setup\<close> skip.\<close>

definition port_clocks :: "SPI_Control \<Rightarrow> rcc list" where
  "port_clocks p =
     (let ss = snd (snd (pt_ss p)); sck = snd (snd (pt_sck p)); miso = snd (snd (pt_miso p));
          mosi = snd (snd (pt_mosi p)); tx = snd (snd (pt_tx_dma p)); rx = snd (snd (pt_rx_dma p))
      in [pt_RCC_SPIx p, tx]
         @ (if rx \<noteq> tx then [rx] else [])
         @ [ss]
         @ (if sck \<noteq> ss then [sck] else [])
         @ (if miso \<noteq> ss \<and> miso \<noteq> sck then [miso] else [])
         @ (if mosi \<noteq> ss \<and> mosi \<noteq> sck \<and> mosi \<noteq> miso then [mosi] else []))"

text \<open>The index of the port in the result, None for a null pointer.\<close>

definition spi_setup :: "SpiSystem \<Rightarrow> port_id \<Rightarrow> SpiSystem \<times> nat option" where
  "spi_setup sy spi_id =
     (let sy = (if sy_firstTime sy then
            let ports = sy_ports sy;
                ports = fst (spi_init_port ports 1 SPI1 (RCC_SPI 1) (GPIO CHR ''A'' 4) (GPIO CHR ''A'' 5)
                  (GPIO CHR ''A'' 6) (GPIO CHR ''A'' 7) (DMA 1 3) (DMA 1 2));
                ports = fst (spi_init_port ports 2 SPI2 (RCC_SPI 2) (GPIO CHR ''B'' 12) (GPIO CHR ''B'' 13)
                  (GPIO CHR ''B'' 14) (GPIO CHR ''B'' 15) (DMA 1 5) (DMA 1 4))
            in sy\<lparr>sy_firstTime := False, sy_ports := ports\<rparr>
          else sy);
          pid = find_port 0 (sy_ports sy) spi_id
      in if pid < 1 \<or> pid > MAX_SPI_PORTS then (sy, None)
         else
           let p = bs_port (sy_ports sy ! (pid - 1))
           in if pt_id p \<noteq> pid then (sy, None)
              else (sy\<lparr>sy_clocks := sy_clocks sy @ port_clocks p\<rparr>, Some (pid - 1)))"

section \<open>Interrupt dispatch\<close>

fun find_by_dma :: "nat \<Rightarrow> Bus list \<Rightarrow> nat \<Rightarrow> nat \<Rightarrow> nat option" where
  "find_by_dma i [] dma channel = None"
| "find_by_dma i (b # bs) dma channel =
     (let p = bs_port b in
      if fst (pt_rx_dma p) = dma \<and> fst (snd (pt_rx_dma p)) = channel then Some i
      else if fst (pt_tx_dma p) = dma \<and> fst (snd (pt_tx_dma p)) = channel then Some i
      else find_by_dma (Suc i) bs dma channel)"

definition findPortByDMA :: "SpiSystem \<Rightarrow> nat \<Rightarrow> nat \<Rightarrow> nat option" where
  "findPortByDMA sy dma channel = find_by_dma 0 (sy_ports sy) dma channel"

text \<open>The four interrupt vectors.\<close>

definition on_port :: "(Bus \<Rightarrow> Bus) \<Rightarrow> nat option \<Rightarrow> SpiSystem \<Rightarrow> SpiSystem" where
  "on_port f i sy = (case i of None \<Rightarrow> sy | Some i \<Rightarrow> sy\<lparr>sy_ports := (sy_ports sy)[i := f (sy_ports sy ! i)]\<rparr>)"

definition dma_isr :: "nat \<Rightarrow> Flags \<Rightarrow> SpiSystem \<Rightarrow> SpiSystem" where
  "dma_isr channel fl sy =
     (if channel = 2 \<or> channel = 4 then on_port (handle_rx_interrupt fl) (findPortByDMA sy 1 channel) sy
      else if channel = 3 \<or> channel = 5 then on_port (handle_tx_interrupt fl) (findPortByDMA sy 1 channel) sy
      else sy)"

section \<open>The Arduino interface\<close>

record SPIInterfaceSettings =
  st_port :: nat
  st_speedMaximum :: u32
  st_bitOrder :: u8
  st_dataMode :: u8

definition SPIInterfaceSettings0 :: "u32 \<Rightarrow> u8 \<Rightarrow> u8 \<Rightarrow> SPIInterfaceSettings" where
  "SPIInterfaceSettings0 speed order mode =
     \<lparr>st_port = 0, st_speedMaximum = speed, st_bitOrder = order, st_dataMode = mode\<rparr>"

definition valid_port :: "nat \<Rightarrow> bool" where
  "valid_port pid \<longleftrightarrow> \<not> (pid < 1 \<or> pid > MAX_SPI_PORTS)"

definition beginTransaction :: "SPIInterfaceSettings \<Rightarrow> SpiSystem \<Rightarrow> SpiSystem" where
  "beginTransaction st sy =
     (let portID = (if \<not> valid_port (st_port st) then sy_current sy else st_port st)
      in if \<not> valid_port portID then sy
         else on_port (\<lambda>b. spi_open (spi_configure b (st_speedMaximum st) (st_bitOrder st) (st_dataMode st)))
                (Some (portID - 1)) (sy\<lparr>sy_current := portID\<rparr>))"

text \<open>The byte buffers of the interface are the client buffers of the port.\<close>

definition transfer_port :: "u32 \<Rightarrow> Poll list \<Rightarrow> u8 \<Rightarrow> Bus \<Rightarrow> (Bus \<times> u8) option" where
  "transfer_port start ps data b =
     (let b = b\<lparr>bs_client_tx := poke (bs_client_tx b) 0 data, bs_client_rx := poke (bs_client_rx b) 0 0x22\<rparr>
      in case spi_transceive_wait start ps b ClientTx 1 ClientRx 1 of
           None \<Rightarrow> None
         | Some (b, result) \<Rightarrow> Some (b, if result \<noteq> SPI_Ok then 0 else bs_client_rx b ! 0))"

definition transfer :: "u32 \<Rightarrow> Poll list \<Rightarrow> u8 \<Rightarrow> SpiSystem \<Rightarrow> (SpiSystem \<times> u8) option" where
  "transfer start ps data sy =
     (if \<not> valid_port (sy_current sy) then Some (sy, 0)
      else
        let i = sy_current sy - 1
        in case transfer_port start ps data (sy_ports sy ! i) of
             None \<Rightarrow> None
           | Some (b, r) \<Rightarrow> Some (sy\<lparr>sy_ports := (sy_ports sy)[i := b]\<rparr>, r))"

definition endTransaction :: "u32 \<Rightarrow> Poll list \<Rightarrow> SpiSystem \<Rightarrow> SpiSystem option" where
  "endTransaction start ps sy =
     (if \<not> valid_port (sy_current sy) then Some sy
      else
        let i = sy_current sy - 1
        in map_option (\<lambda>b. sy\<lparr>sy_ports := (sy_ports sy)[i := b]\<rparr>) (spi_close start ps (sy_ports sy ! i)))"

definition digitalWrite :: "nat \<Rightarrow> SpiSystem \<Rightarrow> SpiSystem" where
  "digitalWrite pin sy =
     (let pid = find_port 0 (sy_ports sy) (convert_pin_to_port pin)
      in if \<not> valid_port pid then sy else sy\<lparr>sy_current := pid\<rparr>)"

end
