(* ===== verification/SpiLaws.thy ===== *)
theory SpiLaws
  imports SpiPorts
begin

text \<open>
  Transfers on a SPI port: how the status, the semaphore and the memory evolve under any interleaving of
  the receive DMA and the interrupts.
\<close>

named_theorems bus_simps \<open>the effect of the basic operations on a bus\<close>

section \<open>Stores leave the control state alone\<close>

lemma write_buf_fields [simp]:
  "bs_port (write_buf b ref bytes) = bs_port b" "bs_attached (write_buf b ref bytes) = bs_attached b"
  "bs_tx_dma (write_buf b ref bytes) = bs_tx_dma b" "bs_rx_dma (write_buf b ref bytes) = bs_rx_dma b"
  "bs_config (write_buf b ref bytes) = bs_config b" "bs_open (write_buf b ref bytes) = bs_open b"
  "bs_started (write_buf b ref bytes) = bs_started b" "bs_signals (write_buf b ref bytes) = bs_signals b"
  by (cases ref; simp add: upd_sim_def)+

lemma write_buf_upd [simp]:
  "write_buf (b\<lparr>bs_port := p\<rparr>) ref bytes = (write_buf b ref bytes)\<lparr>bs_port := p\<rparr>"
  "write_buf (b\<lparr>bs_tx_dma := d\<rparr>) ref bytes = (write_buf b ref bytes)\<lparr>bs_tx_dma := d\<rparr>"
  "write_buf (b\<lparr>bs_rx_dma := d\<rparr>) ref bytes = (write_buf b ref bytes)\<lparr>bs_rx_dma := d\<rparr>"
  "write_buf (b\<lparr>bs_signals := s\<rparr>) ref bytes = (write_buf b ref bytes)\<lparr>bs_signals := s\<rparr>"
  by (cases ref; simp add: upd_sim_def)+

section \<open>A transfer without errors\<close>

fun no_error :: "bus_event \<Rightarrow> bool" where
  "no_error (RxBytes _) = True"
| "no_error (TxIrq fl) = (\<not> fl_error fl)"
| "no_error (RxIrq fl) = (\<not> fl_error fl)"

fun tx_ends :: "bus_event \<Rightarrow> bool" where
  "tx_ends (TxIrq fl) = fl_complete fl"
| "tx_ends _ = False"

fun rx_ends :: "bus_event \<Rightarrow> bool" where
  "rx_ends (RxIrq fl) = fl_complete fl"
| "rx_ends _ = False"

text \<open>The packets the receive DMA stores: those before the receive completion.\<close>

fun received :: "bus_event list \<Rightarrow> u8 list list" where
  "received [] = []"
| "received (RxBytes bytes # es) = bytes # received es"
| "received (RxIrq fl # es) = (if fl_complete fl then [] else received es)"
| "received (TxIrq fl # es) = received es"

text \<open>A port whose transfer has just started, with as many bytes to send as to receive.\<close>

definition transfer_started :: "Bus \<Rightarrow> bool" where
  "transfer_started b \<longleftrightarrow> bs_open b \<and> dm_irq (bs_tx_dma b) \<and> dm_irq (bs_rx_dma b) \<and> dm_enabled (bs_rx_dma b) \<and>
     pt_rx_remainder (bs_port b) = 0 \<and> pt_transceive_status (bs_port b) = TRANS_NONE \<and>
     pt_tx_semaphore (bs_port b) = None"

text \<open>Its state after the transmit, the receive completion, or both, with the history \<open>h\<close>.\<close>

definition done_status :: "bool \<Rightarrow> bool \<Rightarrow> Trans_Status" where
  "done_status tx rx = (if tx \<and> rx then TRANS_RX_COMPLETE else if tx \<or> rx then TRANS_TX_COMPLETE else TRANS_NONE)"

definition done_state :: "bool \<Rightarrow> bool \<Rightarrow> Trans_Status list \<Rightarrow> Bus \<Rightarrow> Bus" where
  "done_state tx rx h b = b\<lparr>
     bs_port := (bs_port b)\<lparr>pt_transceive_status := done_status tx rx, pt_transceive_history := h,
       pt_rx_semaphore := (if rx then None else pt_rx_semaphore (bs_port b))\<rparr>,
     bs_tx_dma := (if tx then (bs_tx_dma b)\<lparr>dm_irq := False, dm_enabled := False\<rparr> else bs_tx_dma b),
     bs_rx_dma := (if rx then (bs_rx_dma b)\<lparr>dm_irq := False, dm_enabled := False\<rparr> else bs_rx_dma b),
     bs_signals := bs_signals b @
       (if rx then (case pt_rx_semaphore (bs_port b) of None \<Rightarrow> [] | Some s \<Rightarrow> [s]) else [])\<rparr>"

text \<open>The stores of the receive DMA.\<close>

definition store_all :: "u8 list list \<Rightarrow> Bus \<Rightarrow> Bus" where
  "store_all ws b = fold (\<lambda>bytes b'. write_buf b' (dm_buf (bs_rx_dma b)) (take (nat (dm_count (bs_rx_dma b))) bytes)) ws b"

lemmas isr_defs = handle_tx_interrupt_def handle_rx_interrupt_def upd_port_def update_transceive_status_def
  add_transceive_status_def next_status_def signal_tx_def signal_rx_def stop_tx_def stop_rx_def
  dma_disable_channel_def disable_interrupts_def Let_def

lemma fold_write_fields:
  "bs_port (fold (\<lambda>bytes b'. write_buf b' ref (f bytes)) ws b) = bs_port b"
  "bs_tx_dma (fold (\<lambda>bytes b'. write_buf b' ref (f bytes)) ws b) = bs_tx_dma b"
  "bs_rx_dma (fold (\<lambda>bytes b'. write_buf b' ref (f bytes)) ws b) = bs_rx_dma b"
  "bs_open (fold (\<lambda>bytes b'. write_buf b' ref (f bytes)) ws b) = bs_open b"
  "bs_signals (fold (\<lambda>bytes b'. write_buf b' ref (f bytes)) ws b) = bs_signals b"
  by (induction ws arbitrary: b) simp_all

lemma store_all_fields [simp]:
  "bs_port (store_all ws b) = bs_port b" "bs_tx_dma (store_all ws b) = bs_tx_dma b"
  "bs_rx_dma (store_all ws b) = bs_rx_dma b" "bs_open (store_all ws b) = bs_open b"
  "bs_signals (store_all ws b) = bs_signals b"
  by (simp_all add: store_all_def fold_write_fields)

lemma store_all_Cons: "store_all (w # ws) b =
    store_all ws (write_buf b (dm_buf (bs_rx_dma b)) (take (nat (dm_count (bs_rx_dma b))) w))"
  by (simp add: store_all_def)

lemma store_all_Nil [simp]: "store_all [] b = b"
  by (simp add: store_all_def)

text \<open>One event, and then any sequence of events, from \<open>done_state tx rx h b\<close>.\<close>

lemma done_irq:
  "bs_open (done_state tx rx h b) = bs_open b"
  "dm_irq (bs_tx_dma (done_state tx rx h b)) = (\<not> tx \<and> dm_irq (bs_tx_dma b))"
  "dm_irq (bs_rx_dma (done_state tx rx h b)) = (\<not> rx \<and> dm_irq (bs_rx_dma b))"
  by (simp_all add: done_state_def)

lemma done_tx:
  assumes "transfer_started b" "\<not> fl_error fl"
  shows "\<exists>h'. on_event (TxIrq fl) (done_state tx rx h b) = done_state (tx \<or> fl_complete fl) rx h' b"
proof (cases tx)
  case True
  then show ?thesis by (auto simp: done_irq)
next
  case False
  let ?b = "handle_tx_interrupt fl (done_state False rx h b)"
  have "?b = done_state (fl_complete fl) rx (pt_transceive_history (bs_port ?b)) b"
    using assms
    by (cases "fl_half fl"; cases "fl_complete fl"; cases rx; cases b; cases "bs_port b")
      (simp_all add: isr_defs done_state_def done_status_def transfer_started_def)
  then show ?thesis using False assms(1) by (auto simp: done_irq transfer_started_def)
qed

lemma done_rx:
  assumes "transfer_started b" "\<not> fl_error fl"
  shows "\<exists>h'. on_event (RxIrq fl) (done_state tx rx h b) = done_state tx (rx \<or> fl_complete fl) h' b"
proof (cases rx)
  case True
  then show ?thesis by (auto simp: done_irq)
next
  case False
  let ?b = "handle_rx_interrupt fl (done_state tx False h b)"
  have "?b = done_state tx (fl_complete fl) (pt_transceive_history (bs_port ?b)) b"
    using assms
    by (cases "fl_half fl"; cases "fl_complete fl"; cases tx; cases "pt_rx_semaphore (bs_port b)"; cases b; cases "bs_port b")
      (simp_all add: isr_defs done_state_def done_status_def transfer_started_def)
  then show ?thesis using False assms(1) by (auto simp: done_irq transfer_started_def)
qed

lemma started_write [simp]: "transfer_started (write_buf b ref bytes) = transfer_started b"
  by (simp add: transfer_started_def)

lemma done_rxbytes:
  assumes "transfer_started b"
  shows "on_event (RxBytes w) (done_state tx rx h b) =
    done_state tx rx h (if rx then b else write_buf b (dm_buf (bs_rx_dma b)) (take (nat (dm_count (bs_rx_dma b))) w))"
  using assms by (cases rx) (simp_all add: done_state_def transfer_started_def)

lemma done_events:
  assumes "transfer_started b" "list_all no_error es"
  shows "\<exists>h'. bus_events es (done_state tx rx h b) =
    done_state (tx \<or> list_ex tx_ends es) (rx \<or> list_ex rx_ends es) h'
      (store_all (if rx then [] else received es) b)"
  using assms
proof (induction es arbitrary: tx rx h b)
  case Nil
  then show ?case by (auto simp: bus_events_def)
next
  case (Cons e es)
  have es: "list_all no_error es" using Cons.prems by simp
  show ?case
  proof (cases e)
    case (RxBytes w)
    let ?b = "if rx then b else write_buf b (dm_buf (bs_rx_dma b)) (take (nat (dm_count (bs_rx_dma b))) w)"
    have "transfer_started ?b" using Cons.prems by simp
    then obtain h' where "bus_events es (done_state tx rx h ?b) =
        done_state (tx \<or> list_ex tx_ends es) (rx \<or> list_ex rx_ends es) h'
          (store_all (if rx then [] else received es) ?b)"
      using Cons.IH es by blast
    then show ?thesis
      using done_rxbytes [OF Cons.prems(1), of w tx rx h] RxBytes
      by (cases rx) (auto simp: bus_events_def store_all_Cons simp del: on_event.simps)
  next
    case (TxIrq fl)
    then have ne: "\<not> fl_error fl" using Cons.prems(2) by simp
    obtain h1 where h1: "on_event (TxIrq fl) (done_state tx rx h b) = done_state (tx \<or> fl_complete fl) rx h1 b"
      using done_tx [OF Cons.prems(1) ne] by blast
    obtain h' where "bus_events es (done_state (tx \<or> fl_complete fl) rx h1 b) =
        done_state ((tx \<or> fl_complete fl) \<or> list_ex tx_ends es) (rx \<or> list_ex rx_ends es) h'
          (store_all (if rx then [] else received es) b)"
      using Cons.IH [OF Cons.prems(1) es] by blast
    then show ?thesis using h1 TxIrq by (auto simp: bus_events_def simp del: on_event.simps)
  next
    case (RxIrq fl)
    then have ne: "\<not> fl_error fl" using Cons.prems(2) by simp
    obtain h1 where h1: "on_event (RxIrq fl) (done_state tx rx h b) = done_state tx (rx \<or> fl_complete fl) h1 b"
      using done_rx [OF Cons.prems(1) ne] by blast
    obtain h' where "bus_events es (done_state tx (rx \<or> fl_complete fl) h1 b) =
        done_state (tx \<or> list_ex tx_ends es) ((rx \<or> fl_complete fl) \<or> list_ex rx_ends es) h'
          (store_all (if rx \<or> fl_complete fl then [] else received es) b)"
      using Cons.IH [OF Cons.prems(1) es] by blast
    then show ?thesis using h1 RxIrq by (cases "fl_complete fl") (auto simp: bus_events_def simp del: on_event.simps)
  qed
qed

lemma done_none: "pt_transceive_status (bs_port b) = TRANS_NONE \<Longrightarrow>
    done_state False False (pt_transceive_history (bs_port b)) b = b"
  by (simp add: done_state_def done_status_def)

text \<open>
  A transfer that started completes exactly when both DMA channels have reported the end, in either
  order and whatever half-transfer interrupts and repeated interrupts come between; the caller's semaphore
  is signalled once, with the end of the receive channel; and the receive buffer holds what arrived before it.
\<close>

theorem transfer_completes:
  assumes "transfer_started b" "list_all no_error es"
  shows "let b' = bus_events es b in
    pt_transceive_status (bs_port b') =
      (if list_ex tx_ends es \<and> list_ex rx_ends es then TRANS_RX_COMPLETE
       else if list_ex tx_ends es \<or> list_ex rx_ends es then TRANS_TX_COMPLETE else TRANS_NONE) \<and>
    spi_is_transceive_complete b' = (list_ex tx_ends es \<and> list_ex rx_ends es) \<and>
    bs_signals b' = bs_signals b @
      (if list_ex rx_ends es then (case pt_rx_semaphore (bs_port b) of None \<Rightarrow> [] | Some s \<Rightarrow> [s]) else []) \<and>
    bs_sim b' = bs_sim (store_all (received es) b) \<and>
    bs_client_rx b' = bs_client_rx (store_all (received es) b)"
proof -
  have n: "done_state False False (pt_transceive_history (bs_port b)) b = b"
    using assms(1) by (intro done_none) (simp add: transfer_started_def)
  obtain h where "bus_events es b =
      done_state (list_ex tx_ends es) (list_ex rx_ends es) h (store_all (received es) b)"
    using done_events [OF assms, of False False "pt_transceive_history (bs_port b)"] n by auto
  then show ?thesis
    by (simp add: done_state_def done_status_def spi_is_transceive_complete_def)
qed

definition demo_port :: SPI_Control where
  "demo_port = \<lparr>pt_id = 1, pt_failCode = SPI_Ok, pt_speedMaximum = 500000, pt_bitOrder = 1, pt_dataMode = 0,
     pt_timeout = 2000, pt_tx_semaphore = None, pt_rx_semaphore = Some 7, pt_tx_buf = ClientTx, pt_tx_len = 1,
     pt_rx_buf = ClientRx, pt_rx_len = 1, pt_rx_remainder = 0, pt_transceive_status = TRANS_NONE,
     pt_transceive_history = replicate 6 TRANS_NONE, pt_SPIx = SPI1, pt_RCC_SPIx = RCC_SPI 1,
     pt_ss = GPIO CHR ''A'' 4, pt_sck = GPIO CHR ''A'' 5, pt_miso = GPIO CHR ''A'' 6, pt_mosi = GPIO CHR ''A'' 7,
     pt_tx_dma = DMA 1 3, pt_rx_dma = DMA 1 2\<rparr>"

definition demo_bus :: Bus where
  "demo_bus = \<lparr>bs_port = demo_port, bs_attached = False, bs_sim = demo_simulator, bs_client_tx = [0],
     bs_client_rx = [0], bs_tx_dma = \<lparr>dm_buf = ClientTx, dm_count = 1, dm_increment = True, dm_irq = True, dm_enabled = True\<rparr>,
     bs_rx_dma = \<lparr>dm_buf = ClientRx, dm_count = 1, dm_increment = True, dm_irq = True, dm_enabled = True\<rparr>,
     bs_config = None, bs_open = True, bs_started = [], bs_signals = []\<rparr>"

abbreviation complete_flags :: Flags where
  "complete_flags \<equiv> \<lparr>fl_half = True, fl_complete = True, fl_error = False\<rparr>"

lemma transfer_completes_witness:
  "let b' = bus_events [TxIrq complete_flags, RxBytes [0x60], RxIrq complete_flags] demo_bus in
     pt_transceive_status (bs_port b') = TRANS_RX_COMPLETE \<and> bs_signals b' = [7] \<and> bs_client_rx b' = [0x60]"
  using transfer_completes [of demo_bus "[TxIrq complete_flags, RxBytes [0x60], RxIrq complete_flags]"]
  by (simp add: transfer_started_def demo_bus_def demo_port_def Let_def store_all_def blit_def del: on_event.simps)

section \<open>The semaphore, with errors\<close>

fun rx_final :: "bus_event \<Rightarrow> bool" where
  "rx_final (RxIrq fl) = (fl_complete fl \<or> fl_error fl)"
| "rx_final _ = False"

definition sem_inv :: "u8 \<Rightarrow> u8 list \<Rightarrow> Bus \<Rightarrow> bool" where
  "sem_inv s signals b \<longleftrightarrow> bs_open b \<and> pt_tx_semaphore (bs_port b) = None \<and>
     (pt_rx_semaphore (bs_port b) = Some s \<and> bs_signals b = signals \<or>
      pt_rx_semaphore (bs_port b) = None \<and> bs_signals b = signals @ [s])"

definition rx_live :: "Bus \<Rightarrow> bool" where
  "rx_live b \<longleftrightarrow> dm_irq (bs_rx_dma b) \<or> pt_rx_semaphore (bs_port b) = None"

lemma sem_fields [simp]:
  "pt_rx_semaphore (update_transceive_status st p) = pt_rx_semaphore p"
  "pt_tx_semaphore (update_transceive_status st p) = pt_tx_semaphore p"
  "pt_timeout (update_transceive_status st p) = pt_timeout p"
  by (simp_all add: update_transceive_status_def add_transceive_status_def Let_def split: option.split)

lemma sem_inv_parts:
  "sem_inv s sg b \<Longrightarrow> sem_inv s sg (upd_port (update_transceive_status st) b)"
  "sem_inv s sg b \<Longrightarrow> sem_inv s sg (stop_tx b)"
  "sem_inv s sg b \<Longrightarrow> sem_inv s sg (stop_rx b)"
  "sem_inv s sg b \<Longrightarrow> sem_inv s sg (signal_tx b)"
  "sem_inv s sg b \<Longrightarrow> sem_inv s sg (signal_rx b)"
  "sem_inv s sg b \<Longrightarrow> sem_inv s sg (tx_remainder b)"
  by (auto simp: sem_inv_def upd_port_def stop_tx_def stop_rx_def signal_tx_def signal_rx_def tx_remainder_def Let_def)

lemma rx_live_parts:
  "rx_live b \<Longrightarrow> rx_live (upd_port (update_transceive_status st) b)"
  "rx_live b \<Longrightarrow> rx_live (stop_tx b)"
  "rx_live b \<Longrightarrow> rx_live (signal_tx b)"
  "rx_live b \<Longrightarrow> rx_live (tx_remainder b)"
  "rx_live (signal_rx b)"
  by (auto simp: rx_live_def upd_port_def stop_tx_def signal_tx_def signal_rx_def tx_remainder_def Let_def
      split: option.split)

lemma rx_none_parts:
  "pt_rx_semaphore (bs_port (signal_rx b)) = None"
  "pt_rx_semaphore (bs_port b) = None \<Longrightarrow> pt_rx_semaphore (bs_port (signal_tx b)) = None"
  "pt_rx_semaphore (bs_port (stop_tx b)) = pt_rx_semaphore (bs_port b)"
  "pt_rx_semaphore (bs_port (stop_rx b)) = pt_rx_semaphore (bs_port b)"
  "pt_rx_semaphore (bs_port (tx_remainder b)) = pt_rx_semaphore (bs_port b)"
  "pt_rx_semaphore (bs_port (upd_port (update_transceive_status st) b)) = pt_rx_semaphore (bs_port b)"
  by (auto simp: upd_port_def stop_tx_def stop_rx_def signal_tx_def signal_rx_def tx_remainder_def Let_def
      split: option.split)

lemma sem_inv_event: "sem_inv s sg b \<Longrightarrow> sem_inv s sg (on_event e b)"
  by (cases e)
    (simp_all add: handle_tx_interrupt_def handle_rx_interrupt_def Let_def sem_inv_parts, simp add: sem_inv_def)

lemma rx_live_event: "rx_live b \<Longrightarrow> rx_live (on_event e b)"
  by (cases e)
    (simp_all add: handle_tx_interrupt_def handle_rx_interrupt_def Let_def rx_live_parts, simp add: rx_live_def)

lemma rx_none_event:
  "bs_open b \<Longrightarrow> rx_live b \<Longrightarrow> pt_rx_semaphore (bs_port b) = None \<or> rx_final e \<Longrightarrow>
     pt_rx_semaphore (bs_port (on_event e b)) = None"
  by (cases e) (auto simp: handle_tx_interrupt_def handle_rx_interrupt_def Let_def rx_none_parts rx_live_def)

lemma sem_events:
  assumes "sem_inv s sg b" "rx_live b"
  shows "sem_inv s sg (bus_events es b) \<and>
    (pt_rx_semaphore (bs_port b) = None \<or> list_ex rx_final es \<longrightarrow>
       pt_rx_semaphore (bs_port (bus_events es b)) = None)"
  using assms
proof (induction es arbitrary: b)
  case (Cons e es)
  have "sem_inv s sg (on_event e b)" "rx_live (on_event e b)" "bs_open b"
    using Cons.prems sem_inv_event rx_live_event by (auto simp: sem_inv_def)
  then show ?case
    using Cons.IH [of "on_event e b"] rx_none_event [of b e] Cons.prems(2)
    by (auto simp: bus_events_def simp del: on_event.simps)
qed (simp add: bus_events_def)

text \<open>
  C26. The task that waits for a transfer is woken at most once, whatever interrupts come, errors and
  repetitions included; and it is woken exactly once when the receive channel has reported its end or an
  error.
\<close>

theorem semaphore_signalled_once:
  assumes "transfer_started b" "pt_rx_semaphore (bs_port b) = Some s"
  shows "bs_signals (bus_events es b) \<in> {bs_signals b, bs_signals b @ [s]} \<and>
    (list_ex rx_final es \<longrightarrow> bs_signals (bus_events es b) = bs_signals b @ [s])"
proof -
  have "sem_inv s (bs_signals b) b" "rx_live b"
    using assms by (simp_all add: sem_inv_def rx_live_def transfer_started_def)
  then show ?thesis using sem_events [of s "bs_signals b" b es] by (auto simp: sem_inv_def)
qed

abbreviation error_flags :: Flags where
  "error_flags \<equiv> \<lparr>fl_half = False, fl_complete = False, fl_error = True\<rparr>"

lemma semaphore_signalled_once_witness:
  "bs_signals (bus_events [TxIrq error_flags, RxIrq error_flags, RxIrq error_flags] demo_bus) = [7]"
  using semaphore_signalled_once [of demo_bus 7 "[TxIrq error_flags, RxIrq error_flags, RxIrq error_flags]"]
  by (simp add: transfer_started_def demo_bus_def demo_port_def del: on_event.simps)

section \<open>Waiting\<close>

lemma timeout_event [simp]: "pt_timeout (bs_port (on_event e b)) = pt_timeout (bs_port b)"
proof (cases e)
  case (TxIrq fl)
  have "pt_timeout (bs_port (handle_tx_interrupt fl b)) = pt_timeout (bs_port b)"
    by (simp add: handle_tx_interrupt_def upd_port_def signal_tx_def signal_rx_def stop_tx_def tx_remainder_def
        Let_def split: option.split)
  then show ?thesis using TxIrq by simp
next
  case (RxIrq fl)
  have "pt_timeout (bs_port (handle_rx_interrupt fl b)) = pt_timeout (bs_port b)"
    by (simp add: handle_rx_interrupt_def upd_port_def signal_rx_def stop_rx_def Let_def split: option.split)
  then show ?thesis using RxIrq by simp
qed simp

lemma timeout_events [simp]: "pt_timeout (bs_port (bus_events es b)) = pt_timeout (bs_port b)"
  by (induction es arbitrary: b) (simp_all add: bus_events_def del: on_event.simps)

definition expired :: "u32 \<Rightarrow> Bus \<Rightarrow> Poll \<Rightarrow> bool" where
  "expired start b p \<longleftrightarrow> diff_ticks start (pl_now p) > pt_timeout (bs_port b)"

lemma bus_events_append: "bus_events (es @ fs) b = bus_events fs (bus_events es b)"
  by (simp add: bus_events_def)

text \<open>A waiting loop ends at an iteration past the timeout at the latest, and consumes a prefix of the events.\<close>

lemma wait_until_ends:
  assumes "ps = early @ p # late" "expired start b p"
  shows "\<exists>met used rest b'. wait_until met_cond start ps b = Some (met, rest, b') \<and> ps = used @ rest \<and>
    length late \<le> length rest \<and> b' = bus_events (concat (map pl_events used)) b \<and>
    (met \<longrightarrow> used \<noteq> [] \<and> met_cond (last used) b')"
  using assms
proof (induction early arbitrary: ps b)
  case Nil
  then show ?case
    by (intro exI [of _ "met_cond p (bus_events (pl_events p) b)"] exI [of _ "[p]"] exI [of _ late])
      (auto simp: expired_def Let_def)
next
  case (Cons e early)
  let ?b = "bus_events (pl_events e) b"
  show ?case
  proof (cases "met_cond e ?b \<or> expired start ?b e")
    case True
    then show ?thesis using Cons.prems
      by (intro exI [of _ "met_cond e ?b"] exI [of _ "[e]"] exI [of _ "early @ p # late"])
        (auto simp: expired_def Let_def)
  next
    case False
    have "expired start ?b p" using Cons.prems(2) by (simp add: expired_def)
    then obtain met used rest b' where
      "wait_until met_cond start (early @ p # late) ?b = Some (met, rest, b')" "early @ p # late = used @ rest"
      "length late \<le> length rest" "b' = bus_events (concat (map pl_events used)) ?b"
      "met \<longrightarrow> used \<noteq> [] \<and> met_cond (last used) b'"
      using Cons.IH [OF refl] by blast
    then show ?thesis using False Cons.prems
      by (intro exI [of _ met] exI [of _ "e # used"] exI [of _ rest])
        (auto simp: expired_def Let_def bus_events_append)
  qed
qed

lemma suffix_rest: "xs @ ys = used @ rest \<Longrightarrow> length ys \<le> length rest \<Longrightarrow> \<exists>zs. rest = zs @ ys"
  by (auto simp: append_eq_append_conv2)

lemma complete_parts:
  "spi_is_transceive_complete b \<Longrightarrow> spi_is_transceive_complete (upd_port (update_transceive_status st) b)"
  "spi_is_transceive_complete (stop_tx b) = spi_is_transceive_complete b"
  "spi_is_transceive_complete (stop_rx b) = spi_is_transceive_complete b"
  "spi_is_transceive_complete (signal_tx b) = spi_is_transceive_complete b"
  "spi_is_transceive_complete (signal_rx b) = spi_is_transceive_complete b"
  "spi_is_transceive_complete (tx_remainder b) = spi_is_transceive_complete b"
  by (auto simp: spi_is_transceive_complete_def upd_port_def stop_tx_def stop_rx_def signal_tx_def signal_rx_def
      tx_remainder_def Let_def update_transceive_status_def add_transceive_status_def next_status_def split: option.split)

lemma complete_event: "spi_is_transceive_complete b \<Longrightarrow> spi_is_transceive_complete (on_event e b)"
  by (cases e) (simp_all add: handle_tx_interrupt_def handle_rx_interrupt_def Let_def complete_parts,
      simp add: spi_is_transceive_complete_def)

lemma complete_events: "spi_is_transceive_complete b \<Longrightarrow> spi_is_transceive_complete (bus_events es b)"
  by (induction es arbitrary: b) (simp_all add: bus_events_def complete_event del: on_event.simps)

lemma wait_timeout_facts:
  "snd (wait_timeout b) = SPI_Timeout"
  "pt_transceive_status (bs_port (fst (wait_timeout b))) = TRANS_TIMEOUT"
  "pt_failCode (bs_port (fst (wait_timeout b))) = SPI_Timeout"
  by (simp_all add: wait_timeout_def spi_showError_def upd_port_def update_transceive_status_def
      add_transceive_status_def Let_def)

text \<open>The outcome of \<^verbatim>\<open>spi_wait\<close>: success after the events of some of the iterations, or the timeout.\<close>

definition wait_result :: "Poll list \<Rightarrow> Bus \<Rightarrow> Bus \<times> SPI_Fails \<Rightarrow> bool" where
  "wait_result ps b r \<longleftrightarrow> (\<exists>used rest. ps = used @ rest \<and>
     (r = (bus_events (concat (map pl_events used)) b, SPI_Ok) \<and> spi_is_transceive_complete (fst r) \<or>
      r = wait_timeout (bus_events (concat (map pl_events used)) b)))"

lemma wait_result_intros:
  "ps = used @ rest \<Longrightarrow> spi_is_transceive_complete (bus_events (concat (map pl_events used)) b) \<Longrightarrow>
     wait_result ps b (bus_events (concat (map pl_events used)) b, SPI_Ok)"
  "ps = used @ rest \<Longrightarrow> wait_result ps b (wait_timeout (bus_events (concat (map pl_events used)) b))"
  by (auto simp: wait_result_def)

lemma spi_wait_result:
  assumes ps: "ps = early @ [p1, p2, p3]" and exp: "expired start b p1" "expired start b p2" "expired start b p3"
  shows "\<exists>r. spi_wait start ps b = Some r \<and> wait_result ps b r"
proof -
  obtain m1 u1 r1 b1 where 1: "wait_until (\<lambda>_. spi_is_transceive_complete) start ps b = Some (m1, r1, b1)"
    "ps = u1 @ r1" "2 \<le> length r1" "b1 = bus_events (concat (map pl_events u1)) b" "m1 \<longrightarrow> spi_is_transceive_complete b1"
    using wait_until_ends [of ps early p1 "[p2, p3]" start b "\<lambda>_. spi_is_transceive_complete"] ps exp by auto
  obtain e1 where e1: "r1 = e1 @ [p2, p3]"
    using suffix_rest [of "early @ [p1]" "[p2, p3]" u1 r1] ps 1 by auto
  have "expired start b1 p2" "expired start b1 p3" using exp 1(4) by (simp_all add: expired_def)
  then obtain m2 u2 r2 b2 where 2: "wait_until (\<lambda>p _. pl_txe p) start r1 b1 = Some (m2, r2, b2)"
    "r1 = u2 @ r2" "1 \<le> length r2" "b2 = bus_events (concat (map pl_events u2)) b1"
    using wait_until_ends [of r1 e1 p2 "[p3]" start b1 "\<lambda>p _. pl_txe p"] e1 by auto
  obtain e2 where e2: "r2 = e2 @ [p3]"
    using suffix_rest [of "e1 @ [p2]" "[p3]" u2 r2] e1 2 by auto
  have "expired start b2 p3" using exp 1(4) 2(4) by (simp add: expired_def)
  then obtain m3 u3 r3 b3 where 3: "wait_until (\<lambda>p _. \<not> pl_bsy p) start r2 b2 = Some (m3, r3, b3)"
    "r2 = u3 @ r3" "b3 = bus_events (concat (map pl_events u3)) b2"
    using wait_until_ends [of r2 e2 p3 "[]" start b2 "\<lambda>p _. \<not> pl_bsy p"] e2 by auto
  have ev: "b2 = bus_events (concat (map pl_events (u1 @ u2))) b"
    "b3 = bus_events (concat (map pl_events (u1 @ u2 @ u3))) b"
    using 1(4) 2(4) 3(3) by (simp_all add: bus_events_append)
  show ?thesis
  proof (cases m1)
    case False
    then have "spi_wait start ps b = Some (wait_timeout b1)" using 1(1) by (simp add: spi_wait_def)
    then show ?thesis using wait_result_intros(2) [OF 1(2), of b] 1(4) by simp
  next
    case m1: True
    show ?thesis
    proof (cases m2)
      case False
      then have "spi_wait start ps b = Some (wait_timeout b2)" using m1 1(1) 2(1) by (simp add: spi_wait_def)
      moreover have "ps = (u1 @ u2) @ r2" using 1(2) 2(2) by simp
      ultimately show ?thesis using wait_result_intros(2) [of ps "u1 @ u2" r2 b] ev(1) by simp
    next
      case m2: True
      have eq: "spi_wait start ps b = Some (if \<not> m3 then wait_timeout b3 else (b3, SPI_Ok))"
        using m1 m2 1(1) 2(1) 3(1) by (simp add: spi_wait_def)
      have "spi_is_transceive_complete b3"
        using 1(5) m1 2(4) 3(3) complete_events by blast
      moreover have "ps = (u1 @ u2 @ u3) @ r3" using 1(2) 2(2) 3(2) by simp
      ultimately show ?thesis
        using wait_result_intros [of ps "u1 @ u2 @ u3" r3 b] ev(2) eq by (cases m3) simp_all
    qed
  qed
qed

text \<open>
  C27. \<^verbatim>\<open>spi_wait\<close> cannot run for ever: three iterations past the timeout are enough to end it. It
  then reports success only when the transfer is complete, and otherwise the timeout, with the status and the fail
  code of the port set accordingly.
\<close>

theorem spi_wait_terminates:
  assumes "ps = early @ [p1, p2, p3]" "expired start b p1" "expired start b p2" "expired start b p3"
  shows "\<exists>b' result. spi_wait start ps b = Some (b', result) \<and>
    (result = SPI_Ok \<and> spi_is_transceive_complete b' \<or>
     result = SPI_Timeout \<and> pt_transceive_status (bs_port b') = TRANS_TIMEOUT \<and>
       pt_failCode (bs_port b') = SPI_Timeout)"
proof -
  obtain r where r: "spi_wait start ps b = Some r" "wait_result ps b r"
    using spi_wait_result [OF assms] by blast
  consider (good) "snd r = SPI_Ok" "spi_is_transceive_complete (fst r)" | (late) c where "r = wait_timeout c"
    using r(2) unfolding wait_result_def by fastforce
  then show ?thesis
  proof cases
    case good
    then show ?thesis using r(1) by (metis prod.collapse)
  next
    case late
    then show ?thesis using r(1) wait_timeout_facts [of c] by (metis prod.collapse)
  qed
qed

abbreviation late_poll :: "u32 \<Rightarrow> Poll" where
  "late_poll t \<equiv> \<lparr>pl_events = [], pl_now = t, pl_txe = True, pl_bsy = False\<rparr>"

lemma spi_wait_terminates_witness:
  "\<exists>b' result. spi_wait 0 [late_poll 2001, late_poll 2002, late_poll 2003] demo_bus = Some (b', result) \<and>
    (result = SPI_Ok \<and> spi_is_transceive_complete b' \<or>
     result = SPI_Timeout \<and> pt_transceive_status (bs_port b') = TRANS_TIMEOUT \<and>
       pt_failCode (bs_port b') = SPI_Timeout)"
  by (rule spi_wait_terminates [of _ "[]" "late_poll 2001" "late_poll 2002" "late_poll 2003"])
    (simp_all add: expired_def demo_bus_def demo_port_def diff_ticks_def)

end
