(* ===== verification/SpiSession.thy ===== *)
theory SpiSession
  imports SpiLaws
begin

text \<open>
  What a driver sees through a SPI port: a byte exchanged with the sensor, the capture of the exchange, its
  replay by DMA, merged or packet by packet, and its simulation.
\<close>

section \<open>A transfer that is answered\<close>

lemma wait_until_met:
  assumes "ps = early @ p # late" "list_all (\<lambda>p. \<not> expired start b p) (early @ [p])"
    and "met_cond p (bus_events (concat (map pl_events (early @ [p]))) b)"
  shows "\<exists>used rest. wait_until met_cond start ps b = Some (True, rest, bus_events (concat (map pl_events used)) b) \<and>
    ps = used @ rest \<and> length late \<le> length rest \<and> used \<noteq> [] \<and>
    met_cond (last used) (bus_events (concat (map pl_events used)) b)"
  using assms
proof (induction early arbitrary: ps b)
  case Nil
  then show ?case by (intro exI [of _ "[p]"] exI [of _ late]) (auto simp: Let_def)
next
  case (Cons e early)
  let ?b = "bus_events (pl_events e) b"
  show ?case
  proof (cases "met_cond e ?b")
    case True
    then show ?thesis using Cons.prems
      by (intro exI [of _ "[e]"] exI [of _ "early @ p # late"]) (auto simp: Let_def)
  next
    case False
    have "list_all (\<lambda>p. \<not> expired start ?b p) (early @ [p])"
      using Cons.prems(2) by (simp add: expired_def)
    moreover have "met_cond p (bus_events (concat (map pl_events (early @ [p]))) ?b)"
      using Cons.prems(3) by (simp add: bus_events_append)
    ultimately obtain used rest where
      "wait_until met_cond start (early @ p # late) ?b = Some (True, rest, bus_events (concat (map pl_events used)) ?b)"
      "early @ p # late = used @ rest" "length late \<le> length rest" "used \<noteq> []"
      "met_cond (last used) (bus_events (concat (map pl_events used)) ?b)"
      using Cons.IH [OF refl] by blast
    then show ?thesis using False Cons.prems
      by (intro exI [of _ "e # used"] exI [of _ rest])
        (auto simp: expired_def Let_def bus_events_append)
  qed
qed

lemma spi_wait_ok:
  assumes ps: "ps = early @ [p1, p2, p3]" and ne: "list_all (\<lambda>p. \<not> expired start b p) ps"
    and c: "spi_is_transceive_complete (bus_events (concat (map pl_events (early @ [p1]))) b)"
    and idle: "pl_txe p2" "\<not> pl_bsy p3"
  shows "\<exists>used rest. spi_wait start ps b = Some (bus_events (concat (map pl_events used)) b, SPI_Ok) \<and>
    ps = used @ rest \<and> spi_is_transceive_complete (bus_events (concat (map pl_events used)) b)"
proof -
  have ne1: "list_all (\<lambda>p. \<not> expired start b p) (early @ [p1])" using ne ps by simp
  obtain u1 r1 where 1: "wait_until (\<lambda>_. spi_is_transceive_complete) start ps b =
      Some (True, r1, bus_events (concat (map pl_events u1)) b)" "ps = u1 @ r1" "2 \<le> length r1"
    "spi_is_transceive_complete (bus_events (concat (map pl_events u1)) b)"
    using wait_until_met [of ps early p1 "[p2, p3]" start b "\<lambda>_. spi_is_transceive_complete"] ps c ne1 by auto
  let ?b1 = "bus_events (concat (map pl_events u1)) b"
  obtain e1 where e1: "r1 = e1 @ [p2, p3]"
    using suffix_rest [of "early @ [p1]" "[p2, p3]" u1 r1] ps 1 by auto
  have ne2: "list_all (\<lambda>p. \<not> expired start ?b1 p) (e1 @ [p2, p3])"
    using ne 1(2) e1 by (simp add: expired_def)
  obtain u2 r2 where 2: "wait_until (\<lambda>p _. pl_txe p) start r1 ?b1 =
      Some (True, r2, bus_events (concat (map pl_events u2)) ?b1)" "r1 = u2 @ r2" "1 \<le> length r2"
    using wait_until_met [of r1 e1 p2 "[p3]" start ?b1 "\<lambda>p _. pl_txe p"] e1 ne2 idle by auto
  let ?b2 = "bus_events (concat (map pl_events u2)) ?b1"
  obtain e2 where e2: "r2 = e2 @ [p3]"
    using suffix_rest [of "e1 @ [p2]" "[p3]" u2 r2] e1 2 by auto
  have ne3: "list_all (\<lambda>p. \<not> expired start ?b2 p) (e2 @ [p3])"
    using ne 1(2) 2(2) e2 by (simp add: expired_def)
  obtain u3 r3 where 3: "wait_until (\<lambda>p _. \<not> pl_bsy p) start r2 ?b2 =
      Some (True, r3, bus_events (concat (map pl_events u3)) ?b2)" "r2 = u3 @ r3"
    using wait_until_met [of r2 e2 p3 "[]" start ?b2 "\<lambda>p _. \<not> pl_bsy p"] e2 ne3 idle by auto
  have ev: "bus_events (concat (map pl_events u3)) ?b2 = bus_events (concat (map pl_events (u1 @ u2 @ u3))) b"
    by (simp add: bus_events_append)
  have "spi_wait start ps b = Some (bus_events (concat (map pl_events (u1 @ u2 @ u3))) b, SPI_Ok)"
    unfolding spi_wait_def using 1(1) 2(1) 3(1) ev by simp
  moreover have "ps = (u1 @ u2 @ u3) @ r3" using 1(2) 2(2) 3(2) by simp
  moreover have "spi_is_transceive_complete (bus_events (concat (map pl_events (u1 @ u2 @ u3))) b)"
    using complete_events [OF complete_events [OF 1(4)]] ev by metis
  ultimately show ?thesis by blast
qed

text \<open>
  The iterations of a wait during which the device answers the packet \<open>bytes\<close>: no timeout, no DMA error,
  both ends reported, and the port idle at the last three iterations.
\<close>

definition poll_events :: "Poll list \<Rightarrow> bus_event list" where
  "poll_events ps = concat (map pl_events ps)"

definition answers :: "u32 \<Rightarrow> u32 \<Rightarrow> u8 list \<Rightarrow> Poll list \<Rightarrow> bool" where
  "answers start timeout bytes ps \<longleftrightarrow> 3 \<le> length ps \<and>
     list_all (\<lambda>p. diff_ticks start (pl_now p) \<le> timeout) ps \<and>
     list_all no_error (poll_events ps) \<and> received (poll_events ps) = [bytes] \<and>
     list_ex tx_ends (poll_events (take (length ps - 2) ps)) \<and>
     list_ex rx_ends (poll_events (take (length ps - 2) ps)) \<and>
     list_all (\<lambda>p. pl_txe p \<and> \<not> pl_bsy p) (drop (length ps - 2) ps)"

lemma received_prefix: "list_ex rx_ends es \<Longrightarrow> received (es @ fs) = received es"
  by (induction es rule: received.induct) auto

lemma three_elements: "length xs = Suc (Suc (Suc 0)) \<Longrightarrow> \<exists>x y z. xs = [x, y, z]"
  by (auto simp: length_Suc_conv)

lemma last_three:
  assumes "3 \<le> length ps"
  obtains early p1 p2 p3 where "ps = early @ [p1, p2, p3]"
proof -
  have "length (drop (length ps - 3) ps) = Suc (Suc (Suc 0))" using assms by simp
  then obtain p1 p2 p3 where "drop (length ps - 3) ps = [p1, p2, p3]"
    using three_elements by blast
  then have "ps = take (length ps - 3) ps @ [p1, p2, p3]" by (metis append_take_drop_id)
  then show ?thesis by (rule that)
qed

lemma complete_iff_ends:
  assumes "transfer_started b" "list_all no_error es"
  shows "spi_is_transceive_complete (bus_events es b) \<longleftrightarrow> list_ex tx_ends es \<and> list_ex rx_ends es"
proof -
  obtain h where "bus_events es b =
      done_state (list_ex tx_ends es) (list_ex rx_ends es) h (store_all (received es) b)"
    using done_events [OF assms, of False False "pt_transceive_history (bs_port b)"] done_none assms(1)
    by (auto simp: transfer_started_def)
  then show ?thesis by (simp add: done_state_def done_status_def spi_is_transceive_complete_def)
qed

lemma wait_answers:
  assumes b: "transfer_started b" and a: "answers start (pt_timeout (bs_port b)) bytes ps"
  shows "\<exists>h. spi_wait start ps b = Some (done_state True True h (store_all [bytes] b), SPI_Ok)"
proof -
  have "3 \<le> length ps" using a by (simp add: answers_def)
  then obtain early p1 p2 p3 where ps: "ps = early @ [p1, p2, p3]" by (rule last_three)
  have ends: "list_ex tx_ends (poll_events (early @ [p1]))" "list_ex rx_ends (poll_events (early @ [p1]))"
    and ok: "list_all no_error (poll_events ps)" and rc: "received (poll_events ps) = [bytes]"
    and idle: "pl_txe p2" "\<not> pl_bsy p3" and ne: "list_all (\<lambda>p. \<not> expired start b p) ps"
    using a ps by (auto simp: answers_def expired_def not_less list_all_iff)
  have "list_all no_error (poll_events (early @ [p1]))" using ok ps by (simp add: poll_events_def)
  then have "spi_is_transceive_complete (bus_events (concat (map pl_events (early @ [p1]))) b)"
    using complete_iff_ends [OF b] ends by (simp add: poll_events_def)
  then obtain used rest where u: "spi_wait start ps b = Some (bus_events (poll_events used) b, SPI_Ok)"
    "ps = used @ rest" "spi_is_transceive_complete (bus_events (poll_events used) b)"
    using spi_wait_ok [OF ps ne _ idle] unfolding poll_events_def by blast
  have oku: "list_all no_error (poll_events used)" using ok u(2) by (simp add: poll_events_def)
  then have e: "list_ex tx_ends (poll_events used)" "list_ex rx_ends (poll_events used)"
    using complete_iff_ends [OF b] u(3) by blast+
  have "received (poll_events used) = [bytes]"
    using received_prefix [OF e(2), of "poll_events rest"] rc u(2) by (simp add: poll_events_def)
  then show ?thesis
    using done_events [OF b oku, of False False "pt_transceive_history (bs_port b)"] done_none [of b] e u(1) b
    by (auto simp: transfer_started_def)
qed

section \<open>A byte exchanged with the sensor\<close>

lemma start_fields:
  "bs_attached (fst (spi_start b t tn r rn s)) = bs_attached b"
  "bs_sim (fst (spi_start b t tn r rn s)) = bs_sim b"
  "bs_client_tx (fst (spi_start b t tn r rn s)) = bs_client_tx b"
  "bs_client_rx (fst (spi_start b t tn r rn s)) = bs_client_rx b"
  "bs_open (fst (spi_start b t tn r rn s)) = bs_open b"
  "bs_signals (fst (spi_start b t tn r rn s)) = bs_signals b"
  "pt_timeout (bs_port (fst (spi_start b t tn r rn s))) = pt_timeout (bs_port b)"
  "pt_rx_semaphore (bs_port (fst (spi_start b t tn r rn s))) = s"
  "snd (spi_start b t tn r rn s) = SPI_Ok"
  by (simp_all add: spi_start_def upd_port_def Let_def)

lemma start_started:
  assumes "bs_open b" "0 < rn" "rn \<le> tn"
  shows "transfer_started (fst (spi_start b t tn r rn s))"
    and "dm_buf (bs_rx_dma (fst (spi_start b t tn r rn s))) = r"
    and "dm_count (bs_rx_dma (fst (spi_start b t tn r rn s))) = rn"
    and "bs_started (fst (spi_start b t tn r rn s)) = bs_started b @ [(read_buf b t (nat tn), rn)]"
  using assms
  by (simp_all add: spi_start_def transfer_started_def upd_port_def spi_setup_dma_def enable_interrupts_def
      dma_enable_channel_def dma_reset_def Let_def) (cases t; simp)

text \<open>The transfer takes place: the simulator is not attached, or neither replays nor simulates.\<close>

definition real_transfer :: "Bus \<Rightarrow> bool" where
  "real_transfer b \<longleftrightarrow> (bs_attached b \<longrightarrow> si_mode (bs_sim b) = Simulator_Capture \<or>
     si_mode (bs_sim b) = Simulator_Mismatch \<or> si_mode (bs_sim b) = Simulator_Disabled)"

definition capture_merged :: "Simulator_Control \<Rightarrow> command \<Rightarrow> Simulator_Control" where
  "capture_merged sim p = fst (simulator_merge_packet (capture_command sim p)
     (Some (fst p)) (int (length (fst p))) (Some (snd p)) (int (length (snd p))))"

definition byte_buffers :: "Bus \<Rightarrow> bool" where
  "byte_buffers b \<longleftrightarrow> length (bs_client_tx b) = 1 \<and> length (bs_client_rx b) = 1"

lemma poke_single [simp]: "length xs = 1 \<Longrightarrow> poke xs 0 v = [v]"
  by (cases xs) (simp_all add: poke_def)

lemma transfer_answered_lemma:
  assumes "bs_open b" "byte_buffers b" "real_transfer b" "answers start (pt_timeout (bs_port b)) [r] ps"
  shows "\<exists>b'. transfer_port start ps data b = Some (b', r) \<and>
    bs_started b' = bs_started b @ [([data], 1)] \<and>
    bs_sim b' = (if bs_attached b \<and> si_mode (bs_sim b) = Simulator_Capture
                 then capture_merged (bs_sim b) ([data], [r]) else bs_sim b) \<and>
    bs_open b' \<and> byte_buffers b' \<and> bs_attached b' = bs_attached b \<and> bs_signals b' = bs_signals b \<and>
    pt_timeout (bs_port b') = pt_timeout (bs_port b) \<and> \<not> dm_irq (bs_tx_dma b') \<and> \<not> dm_irq (bs_rx_dma b') \<and>
    \<not> dm_enabled (bs_rx_dma b')"
proof -
  define b0 where "b0 = b\<lparr>bs_client_tx := [data], bs_client_rx := [0x22]\<rparr>"
  define b1 where "b1 = fst (spi_start b0 ClientTx 1 ClientRx 1 None)"
  have f0: "bs_attached b0 = bs_attached b" "bs_sim b0 = bs_sim b" "bs_open b0 = bs_open b" "bs_client_tx b0 = [data]"
    "bs_signals b0 = bs_signals b" "bs_started b0 = bs_started b" "bs_port b0 = bs_port b"
    by (simp_all add: b0_def)
  have st: "spi_transceive b0 ClientTx 1 ClientRx 1 None = Some (b1, SPI_Ok)"
    using assms(3) start_fields(9) [of b0 ClientTx 1 ClientRx 1 None]
    by (auto simp: spi_transceive_def real_transfer_def prod_eq_iff f0 b1_def)
  have s: "transfer_started b1" "dm_buf (bs_rx_dma b1) = ClientRx" "dm_count (bs_rx_dma b1) = 1"
    "bs_started b1 = bs_started b @ [([data], 1)]"
    using start_started [of b0 1 1 ClientTx ClientRx None] assms(1) by (simp_all add: b1_def f0)
  have f1: "bs_attached b1 = bs_attached b" "bs_sim b1 = bs_sim b" "bs_open b1 = bs_open b" "bs_client_tx b1 = [data]"
    "bs_client_rx b1 = [0x22]" "bs_signals b1 = bs_signals b" "pt_timeout (bs_port b1) = pt_timeout (bs_port b)"
    "pt_rx_semaphore (bs_port b1) = None"
    by (simp_all add: b1_def start_fields f0) (simp add: b0_def)
  obtain h where w: "spi_wait start ps b1 = Some (done_state True True h (store_all [[r]] b1), SPI_Ok)"
    using wait_answers [OF s(1), of start "[r]" ps] assms(4) f1(7) by auto
  define b2 where "b2 = done_state True True h (store_all [[r]] b1)"
  have rx: "store_all [[r]] b1 = b1\<lparr>bs_client_rx := [r]\<rparr>"
    using s(2,3) f1(5) by (simp add: store_all_Cons blit_def)
  have f: "bs_attached b2 = bs_attached b" "bs_sim b2 = bs_sim b" "bs_client_rx b2 = [r]" "bs_client_tx b2 = [data]"
    "bs_open b2 = bs_open b" "bs_signals b2 = bs_signals b" "bs_started b2 = bs_started b1"
    "pt_timeout (bs_port b2) = pt_timeout (bs_port b)" "\<not> dm_irq (bs_tx_dma b2)" "\<not> dm_irq (bs_rx_dma b2)"
    "\<not> dm_enabled (bs_rx_dma b2)"
    unfolding b2_def rx by (simp_all add: done_state_def f1)
  define b3 where "b3 = (if bs_attached b \<and> si_mode (bs_sim b) = Simulator_Capture
     then capture_transfer b2 ClientTx 1 ClientRx 1 else b2)"
  have nr: "\<not> (bs_attached b1 \<and> si_mode (bs_sim b1) = Simulator_Replay)"
    using assms(3) by (auto simp: real_transfer_def f1)
  have tw: "spi_transceive_wait start ps b0 ClientTx 1 ClientRx 1 = Some (b3, SPI_Ok)"
  proof -
    have "(if bs_attached b1 \<and> si_mode (bs_sim b1) = Simulator_Replay then Some b1
        else map_option fst (spi_wait start ps b1)) = Some b2"
      by (subst if_not_P [OF nr]) (simp add: w b2_def)
    then show ?thesis unfolding spi_transceive_wait_def st using f(1,2) by (simp add: b3_def)
  qed
  have cap: "capture_transfer b2 ClientTx 1 ClientRx 1 = b2\<lparr>bs_sim := capture_merged (bs_sim b) ([data], [r])\<rparr>"
    using f by (simp add: capture_transfer_def capture_merged_def capture_command_def upd_sim_def Let_def)
  have f3: "bs_client_rx b3 = [r]" using f(3) by (simp add: b3_def cap)
  have "transfer_port start ps data b = Some (b3, r)"
    using tw assms(2) f3 by (simp add: transfer_port_def byte_buffers_def b0_def)
  moreover have "bs_started b3 = bs_started b @ [([data], 1)] \<and>
    bs_sim b3 = (if bs_attached b \<and> si_mode (bs_sim b) = Simulator_Capture
                 then capture_merged (bs_sim b) ([data], [r]) else bs_sim b) \<and>
    bs_open b3 \<and> byte_buffers b3 \<and> bs_attached b3 = bs_attached b \<and> bs_signals b3 = bs_signals b \<and>
    pt_timeout (bs_port b3) = pt_timeout (bs_port b) \<and> \<not> dm_irq (bs_tx_dma b3) \<and> \<not> dm_irq (bs_rx_dma b3) \<and>
    \<not> dm_enabled (bs_rx_dma b3)"
    using f s(4) assms(1) by (simp add: b3_def cap byte_buffers_def)
  ultimately show ?thesis by blast
qed

text \<open>
  A byte sent through the Arduino interface to a sensor that answers in time: exactly this byte goes out,
  the function returns the byte that came in, and in Capture mode the exchange is added to the trail and to
  the merged buffers.
\<close>

theorem transfer_answered:
  assumes "bs_open b" "byte_buffers b" "real_transfer b" "answers start (pt_timeout (bs_port b)) [r] ps"
  shows "\<exists>b'. transfer_port start ps data b = Some (b', r) \<and>
    bs_started b' = bs_started b @ [([data], 1)] \<and>
    bs_sim b' = (if bs_attached b \<and> si_mode (bs_sim b) = Simulator_Capture
                 then capture_merged (bs_sim b) ([data], [r]) else bs_sim b) \<and>
    bs_open b' \<and> byte_buffers b' \<and> bs_attached b' = bs_attached b \<and> bs_signals b' = bs_signals b \<and>
    pt_timeout (bs_port b') = pt_timeout (bs_port b) \<and> \<not> dm_irq (bs_tx_dma b') \<and> \<not> dm_irq (bs_rx_dma b') \<and>
    \<not> dm_enabled (bs_rx_dma b')"
  by (rule transfer_answered_lemma [OF assms])

abbreviation demo_poll :: "bus_event list \<Rightarrow> u32 \<Rightarrow> Poll" where
  "demo_poll es t \<equiv> \<lparr>pl_events = es, pl_now = t, pl_txe = True, pl_bsy = False\<rparr>"

definition demo_answer :: "u8 \<Rightarrow> Poll list" where
  "demo_answer r = [demo_poll [] 0, demo_poll [TxIrq complete_flags, RxBytes [r], RxIrq complete_flags] 1,
     demo_poll [] 2, demo_poll [] 3]"

lemma demo_answers: "answers 0 2000 [r] (demo_answer r)"
  by (simp add: answers_def demo_answer_def poll_events_def diff_ticks_def)

lemma transfer_answered_witness: "\<exists>b'. transfer_port 0 (demo_answer 0x60) 0xD0 demo_bus = Some (b', 0x60)"
  using transfer_answered [of demo_bus 0 "0x60" "demo_answer 0x60" "0xD0"] demo_answers [of "0x60"]
  by (auto simp: demo_bus_def demo_port_def byte_buffers_def real_transfer_def)

section \<open>Simulated exchanges\<close>

text \<open>A port without a transfer in progress: events of the environment do not reach it.\<close>

definition port_idle :: "Bus \<Rightarrow> bool" where
  "port_idle b \<longleftrightarrow> \<not> dm_irq (bs_tx_dma b) \<and> \<not> dm_irq (bs_rx_dma b) \<and> \<not> dm_enabled (bs_rx_dma b)"

lemma idle_events: "port_idle b \<Longrightarrow> bus_events es b = b"
proof (induction es)
  case (Cons e es)
  then have "on_event e b = b" by (cases e) (simp_all add: port_idle_def)
  with Cons show ?case by (simp add: bus_events_def del: on_event.simps)
qed (simp add: bus_events_def)

text \<open>The iterations of a wait at an idle port.\<close>

definition idle_polls :: "u32 \<Rightarrow> u32 \<Rightarrow> Poll list \<Rightarrow> bool" where
  "idle_polls start timeout ps \<longleftrightarrow> 3 \<le> length ps \<and>
     list_all (\<lambda>p. diff_ticks start (pl_now p) \<le> timeout) ps \<and>
     list_all (\<lambda>p. pl_txe p \<and> \<not> pl_bsy p) (drop (length ps - 2) ps)"

lemma wait_idle:
  assumes "port_idle b" "spi_is_transceive_complete b" "idle_polls start (pt_timeout (bs_port b)) ps"
  shows "spi_wait start ps b = Some (b, SPI_Ok)"
proof -
  have "3 \<le> length ps" using assms(3) by (simp add: idle_polls_def)
  then obtain early p1 p2 p3 where ps: "ps = early @ [p1, p2, p3]" by (rule last_three)
  have "list_all (\<lambda>p. \<not> expired start b p) ps" "pl_txe p2" "\<not> pl_bsy p3"
    using assms(3) ps by (auto simp: idle_polls_def expired_def not_less list_all_iff)
  then show ?thesis
    using spi_wait_ok [OF ps, of start b] idle_events [OF assms(1)] assms(2) by simp
qed

lemma slice_byte: "slice xs i 1 = [v] \<Longrightarrow> i < length xs \<and> xs ! i = v"
  by (cases "i < length xs") (simp_all add: slice_def take_Suc_conv_app_nth hd_drop_conv_nth take_Suc)

lemma transfer_simulated_lemma:
  assumes "bs_attached b" "si_mode (bs_sim b) = Simulator_Simulate" "trail_at (bs_sim b) ps k" "k < length ps"
    and "ps ! k = ([data], [r])" "byte_buffers b" "port_idle b"
    and "idle_polls start (pt_timeout (bs_port b)) polls"
  shows "\<exists>b'. transfer_port start polls data b = Some (b', r) \<and>
    bs_started b' = bs_started b \<and> bs_signals b' = bs_signals b \<and>
    bs_sim b' = (bs_sim b)\<lparr>si_index := length (enc (take (Suc k) ps))\<rparr> \<and> trail_at (bs_sim b') ps (Suc k) \<and>
    bs_attached b' \<and> byte_buffers b' \<and> port_idle b' \<and> pt_timeout (bs_port b') = pt_timeout (bs_port b) \<and>
    bs_open b' = bs_open b"
proof -
  define b0 where "b0 = b\<lparr>bs_client_tx := [data], bs_client_rx := [0x22]\<rparr>"
  define sim where "sim = (bs_sim b)\<lparr>si_index := length (enc (take (Suc k) ps))\<rparr>"
  let ?i = "si_index (bs_sim b)"
  have next_cmd: "next_command (bs_sim b) = (sim, 1, Some (?i + 1), 1, Some (?i + 3))"
    and tx: "slice (si_trail (bs_sim b)) (?i + 1) 1 = [data]" and rx: "slice (si_trail (bs_sim b)) (?i + 3) 1 = [r]"
    using next_command_some [OF assms(3,4,5)] by (simp_all add: sim_def eval_nat_numeral)
  define b1 where "b1 = b\<lparr>bs_client_tx := [data], bs_client_rx := [r], bs_sim := sim,
     bs_port := (bs_port b)\<lparr>pt_transceive_status := TRANS_RX_COMPLETE\<rparr>\<rparr>"
  have trail: "si_trail sim = si_trail (bs_sim b)" by (simp add: sim_def)
  have st: "spi_transceive b0 ClientTx 1 ClientRx 1 None = Some (b1, SPI_Ok)"
    using assms(1,2) next_cmd tx rx
    by (simp add: spi_transceive_def spi_simulate_def b0_def trail upd_port_def blit_def b1_def)
  have m: "si_mode sim = Simulator_Simulate" using assms(2) by (simp add: sim_def)
  have "port_idle b1" "spi_is_transceive_complete b1" "idle_polls start (pt_timeout (bs_port b1)) polls"
    using assms(7,8) by (simp_all add: b1_def port_idle_def spi_is_transceive_complete_def)
  then have w: "spi_wait start polls b1 = Some (b1, SPI_Ok)" by (rule wait_idle)
  have f: "bs_attached b1" "bs_sim b1 = sim" using assms(1) by (simp_all add: b1_def)
  have "spi_transceive_wait start polls b0 ClientTx 1 ClientRx 1 = Some (b1, SPI_Ok)"
    unfolding spi_transceive_wait_def st using w f m by simp
  then have "transfer_port start polls data b = Some (b1, r)"
    using assms(6) by (simp add: transfer_port_def byte_buffers_def b0_def [symmetric] Let_def) (simp add: b1_def)
  moreover have "trail_at sim ps (Suc k)" using trail_at_index [OF assms(3), of "Suc k"] assms(4) by (simp add: sim_def)
  moreover have "bs_started b1 = bs_started b \<and> bs_signals b1 = bs_signals b \<and> bs_sim b1 = sim \<and> bs_attached b1 \<and>
      byte_buffers b1 \<and> port_idle b1 \<and> pt_timeout (bs_port b1) = pt_timeout (bs_port b) \<and> bs_open b1 = bs_open b"
    using assms(1,6,7) by (simp add: b1_def byte_buffers_def port_idle_def)
  ultimately show ?thesis unfolding sim_def by (intro exI [of _ b1]) (simp add: sim_def)
qed

text \<open>
  In Simulate mode a driver that sends the byte of the next captured command receives the byte of the
  trail: no transfer is started, no semaphore is signalled and the next command is the one after it.
\<close>

theorem transfer_simulated:
  assumes "bs_attached b" "si_mode (bs_sim b) = Simulator_Simulate" "trail_at (bs_sim b) ps k" "k < length ps"
    and "ps ! k = ([data], [r])" "byte_buffers b" "port_idle b"
    and "idle_polls start (pt_timeout (bs_port b)) polls"
  shows "\<exists>b'. transfer_port start polls data b = Some (b', r) \<and>
    bs_started b' = bs_started b \<and> bs_signals b' = bs_signals b \<and>
    bs_sim b' = (bs_sim b)\<lparr>si_index := length (enc (take (Suc k) ps))\<rparr> \<and> trail_at (bs_sim b') ps (Suc k) \<and>
    bs_attached b' \<and> byte_buffers b' \<and> port_idle b' \<and> pt_timeout (bs_port b') = pt_timeout (bs_port b) \<and>
    bs_open b' = bs_open b"
  by (rule transfer_simulated_lemma [OF assms])

lemma transfer_simulated_witness:
  "\<exists>b'. transfer_port 0 [demo_poll [] 0, demo_poll [] 1, demo_poll [] 2] 0xF7
     (demo_bus\<lparr>bs_attached := True, bs_tx_dma := dma_reset, bs_rx_dma := dma_reset,
        bs_sim := demo_simulator\<lparr>si_mode := Simulator_Simulate, si_length := 4,
          si_trail := [1, 0xF7, 1, 0x50] @ replicate 60 0\<rparr>\<rparr>) = Some (b', 0x50)"
  using transfer_simulated [of "demo_bus\<lparr>bs_attached := True, bs_tx_dma := dma_reset, bs_rx_dma := dma_reset,
        bs_sim := demo_simulator\<lparr>si_mode := Simulator_Simulate, si_length := 4,
          si_trail := [1, 0xF7, 1, 0x50] @ replicate 60 0\<rparr>\<rparr>" "[([0xF7], [0x50])]" 0 "0xF7" "0x50" 0
      "[demo_poll [] 0, demo_poll [] 1, demo_poll [] 2]"]
  by (auto simp: demo_bus_def demo_port_def demo_simulator_def trail_at_def trail_wf_def cmd_nonempty_def
      byte_buffers_def port_idle_def dma_reset_def idle_polls_def diff_ticks_def)

section \<open>Replaying packet by packet\<close>

lemma trail_write:
  assumes wf: "trail_wf sim ps" and k: "k < length ps" and p: "ps ! k = (tx, rx)" and r: "length r = length rx"
  shows "trail_wf (sim\<lparr>si_trail := blit (si_trail sim) (length (enc (take k ps)) + length tx + 2) r\<rparr>) (ps[k := (tx, r)])"
    and "length (enc (take j (ps[k := (tx, r)]))) = length (enc (take j ps))"
proof -
  let ?a = "enc (take k ps) @ (of_nat (length tx) # tx) @ [of_nat (length rx)]" and ?c = "enc (drop (Suc k) ps)"
  have e: "enc ps = ?a @ rx @ ?c" using enc_split [OF k] p by simp
  have upd: "ps[k := (tx, r)] = take k ps @ (tx, r) # drop (Suc k) ps" using k by (rule upd_conv_take_nth_drop)
  have e': "enc (ps[k := (tx, r)]) = ?a @ r @ ?c" by (simp add: upd r)
  have ne: "list_all cmd_nonempty (ps[k := (tx, r)])"
  proof -
    have "list_all cmd_nonempty ps" using wf by (simp add: trail_wf_def)
    moreover from this have "cmd_nonempty (ps ! k)" using k by (simp add: list_all_length)
    moreover have "cmd_nonempty (tx, r)" using calculation(2) p r by (auto simp: cmd_nonempty_def)
    ultimately show ?thesis using k by (simp add: list_all_length nth_list_update)
  qed
  have t: "take (length (enc ps)) (si_trail sim) = ?a @ rx @ ?c" using wf e by (simp add: trail_wf_def)
  define rest where "rest = drop (length (enc ps)) (si_trail sim)"
  have trail: "si_trail sim = ?a @ rx @ ?c @ rest"
    using append_take_drop_id [of "length (enc ps)" "si_trail sim"] t rest_def by simp
  have pos: "length (enc (take k ps)) + length tx + 2 = length ?a" by simp
  have b: "blit (si_trail sim) (length ?a) r = ?a @ r @ ?c @ rest"
    unfolding trail blit_def r by simp
  have lens: "length (enc (ps[k := (tx, r)])) = length (enc ps)" using e e' r by simp
  show "trail_wf (sim\<lparr>si_trail := blit (si_trail sim) (length (enc (take k ps)) + length tx + 2) r\<rparr>) (ps[k := (tx, r)])"
  proof -
    have tr: "blit (si_trail sim) (length ?a) r = enc (ps[k := (tx, r)]) @ rest" using b e' by simp
    then have tr: "blit (si_trail sim) (Suc (Suc (length (enc (take k ps)) + length tx))) r = enc (ps[k := (tx, r)]) @ rest"
      by simp
    have "length (si_trail sim) = length (enc ps) + length rest" using trail e by simp
    then show ?thesis
      using wf ne lens by (simp add: trail_wf_def tr)
  qed
  show "length (enc (take j (ps[k := (tx, r)]))) = length (enc (take j ps))"
  proof (cases "j \<le> k")
    case True
    then show ?thesis by (simp add: take_update_cancel)
  next
    case False
    have "take j (ps[k := (tx, r)]) = (take j ps)[k := (tx, r)]" by (rule take_update_swap)
    moreover have "enc (take j ps) = enc (take k (take j ps)) @ enc_cmd (take j ps ! k) @ enc (drop (Suc k) (take j ps))"
      using False k by (intro enc_split) simp
    moreover have "(take j ps)[k := (tx, r)] = take k (take j ps) @ (tx, r) # drop (Suc k) (take j ps)"
      using False k by (intro upd_conv_take_nth_drop) simp
    ultimately show ?thesis using False p r by simp
  qed
qed

text \<open>The events of a transfer that the device answers with \<open>bytes\<close>.\<close>

definition event_answers :: "bus_event list \<Rightarrow> u8 list \<Rightarrow> bool" where
  "event_answers es bytes \<longleftrightarrow> list_all no_error es \<and> received es = [bytes] \<and> list_ex tx_ends es \<and> list_ex rx_ends es"

definition replaying :: "Bus \<Rightarrow> command list \<Rightarrow> nat \<Rightarrow> bool" where
  "replaying b ps k \<longleftrightarrow> bs_attached b \<and> bs_open b \<and> si_port (bs_sim b) \<and> si_mode (bs_sim b) = Simulator_Replay \<and>
     \<not> simulator_should_replay_merged_trail (bs_sim b) \<and> trail_at (bs_sim b) ps k"

text \<open>An exchange receives as many bytes as it sends.\<close>

definition duplex :: "command \<Rightarrow> bool" where
  "duplex p \<longleftrightarrow> length (fst p) = length (snd p)"

lemma event_answers_done:
  assumes "transfer_started b" "event_answers es bytes"
  shows "\<exists>h. bus_events es b = done_state True True h (store_all [bytes] b)"
  using done_events [OF assms(1), of es False False "pt_transceive_history (bs_port b)"] done_none [of b] assms
  by (auto simp: event_answers_def transfer_started_def)

lemma replay_step:
  assumes b: "replaying b ps k" and k: "k < length ps" and p: "ps ! k = (tx, rx)" "duplex (ps ! k)"
  shows "\<exists>b1. simulator_replay b = Some (b1, Some (si_semaphore (bs_sim b))) \<and> transfer_started b1 \<and>
    bs_sim b1 = (bs_sim b)\<lparr>si_index := length (enc (take (Suc k) ps))\<rparr> \<and>
    dm_buf (bs_rx_dma b1) = TrailAt (length (enc (take k ps)) + length tx + 2) \<and>
    dm_count (bs_rx_dma b1) = int (length rx) \<and>
    bs_started b1 = bs_started b @ [(tx, int (length rx))] \<and> bs_signals b1 = bs_signals b \<and>
    pt_rx_semaphore (bs_port b1) = Some (si_semaphore (bs_sim b)) \<and> bs_attached b1 \<and> bs_open b1"
proof -
  let ?i = "length (enc (take k ps))"
  have at: "trail_at (bs_sim b) ps k" using b by (simp add: replaying_def)
  have i: "si_index (bs_sim b) = ?i" using at by (simp add: trail_at_def)
  define sim where "sim = (bs_sim b)\<lparr>si_index := length (enc (take (Suc k) ps))\<rparr>"
  have nx: "next_command (bs_sim b) = (sim, int (length tx), Some (?i + 1), int (length rx), Some (?i + length tx + 2))"
    and tx: "slice (si_trail (bs_sim b)) (?i + 1) (length tx) = tx"
    and le: "?i + length tx + 2 + length rx \<le> si_length (bs_sim b)"
    using next_command_some [OF at k p(1)] i by (simp_all add: sim_def)
  have ne: "rx \<noteq> []" "length tx = length rx"
    using at k p by (auto simp: trail_at_def trail_wf_def list_all_length cmd_nonempty_def duplex_def)
  define b0 where "b0 = b\<lparr>bs_sim := sim\<rparr>"
  define sem where "sem = Some (si_semaphore (bs_sim b))"
  define b1 where "b1 = fst (spi_start b0 (TrailAt (?i + 1)) (int (length tx)) (TrailAt (?i + length tx + 2)) (int (length rx)) sem)"
  have m: "si_mode sim = Simulator_Replay" "si_semaphore sim = si_semaphore (bs_sim b)"
    using b by (simp_all add: sim_def replaying_def)
  have "spi_transceive b0 (TrailAt (?i + 1)) (int (length tx)) (TrailAt (?i + length tx + 2)) (int (length rx)) sem = Some (b1, SPI_Ok)"
    using ne m start_fields(9) [of b0 "TrailAt (?i + 1)" "int (length tx)" "TrailAt (?i + length tx + 2)" "int (length rx)" sem]
    by (simp add: spi_transceive_def b0_def b1_def prod_eq_iff Suc_le_eq)
  then have rp: "spi_transceive_replay b sem = Some (b1, SPI_Ok)"
    using b nx by (simp add: spi_transceive_replay_def replaying_def b0_def)
  have f1: "bs_sim b1 = sim" "bs_signals b1 = bs_signals b" "pt_rx_semaphore (bs_port b1) = sem" "bs_attached b1" "bs_open b1"
    using b by (simp_all add: b1_def start_fields b0_def replaying_def)
  have op: "bs_open b0" using b by (simp add: b0_def replaying_def)
  have s: "transfer_started b1" "dm_buf (bs_rx_dma b1) = TrailAt (?i + length tx + 2)" "dm_count (bs_rx_dma b1) = int (length rx)"
    "bs_started b1 = bs_started b0 @ [(read_buf b0 (TrailAt (?i + 1)) (nat (int (length tx))), int (length rx))]"
    using start_started [OF op, of "int (length rx)" "int (length tx)" "TrailAt (?i + 1)" "TrailAt (?i + length tx + 2)" sem] ne
    by (simp_all add: b1_def)
  have "bs_started b1 = bs_started b @ [(tx, int (length rx))]"
    using s(4) tx by (simp add: b0_def sim_def)
  moreover have "\<not> si_index (bs_sim b) \<ge> si_length (bs_sim b)" using le i by simp
  then have "simulator_replay b = Some (b1, sem)"
    using b rp f1 m by (simp add: simulator_replay_def replaying_def sem_def)
  ultimately show ?thesis using s f1 by (intro exI [of _ b1]) (simp add: sem_def sim_def)
qed

end
