(* ===== verification/SpiReplay.thy ===== *)
theory SpiReplay
  imports SpiSession
begin

text \<open>
  Whole sessions: the loop in which the Sensor Task replays a trail, the merged replay and its distribution
  over the trail, and the simulation of the replayed data; with the mode cycle of the simulator.
\<close>

section \<open>The replay loop\<close>

text \<open>
  The loop of \<^verbatim>\<open>sensor_task\<close> in Replay mode: each element is what happens while the task waits for
  the semaphore. None means that the events are used up before the loop ends.
\<close>

fun replay_loop :: "Bus \<Rightarrow> bus_event list list \<Rightarrow> Bus option" where
  "replay_loop b [] = (case simulator_replay b of Some (b, None) \<Rightarrow> Some b | _ \<Rightarrow> None)"
| "replay_loop b (es # ess) = (case simulator_replay b of
       None \<Rightarrow> None
     | Some (b, None) \<Rightarrow> Some b
     | Some (b, Some _) \<Rightarrow> replay_loop (bus_events es b) ess)"

definition set_rx :: "command \<Rightarrow> u8 list \<Rightarrow> command" where
  "set_rx p r = (fst p, r)"

lemma replay_transfer:
  assumes b: "replaying b ps k" and k: "k < length ps" and d: "duplex (ps ! k)"
    and e: "event_answers es r" and r: "length r = length (snd (ps ! k))"
  shows "\<exists>b1. simulator_replay b = Some (b1, Some (si_semaphore (bs_sim b))) \<and>
    (let b2 = bus_events es b1 in replaying b2 (ps[k := set_rx (ps ! k) r]) (Suc k) \<and>
       bs_started b2 = bs_started b @ [(fst (ps ! k), int (length (snd (ps ! k))))] \<and>
       bs_signals b2 = bs_signals b @ [si_semaphore (bs_sim b)] \<and>
       si_semaphore (bs_sim b2) = si_semaphore (bs_sim b) \<and> port_idle b2)"
proof -
  obtain tx rx where p: "ps ! k = (tx, rx)" by (cases "ps ! k")
  let ?j = "length (enc (take k ps)) + length tx + 2"
  have wf: "trail_wf (bs_sim b) ps" using b by (simp add: replaying_def trail_at_def)
  obtain b1 where b1: "simulator_replay b = Some (b1, Some (si_semaphore (bs_sim b)))" "transfer_started b1"
    "bs_sim b1 = (bs_sim b)\<lparr>si_index := length (enc (take (Suc k) ps))\<rparr>" "dm_buf (bs_rx_dma b1) = TrailAt ?j"
    "dm_count (bs_rx_dma b1) = int (length rx)" "bs_started b1 = bs_started b @ [(tx, int (length rx))]"
    "bs_signals b1 = bs_signals b" "pt_rx_semaphore (bs_port b1) = Some (si_semaphore (bs_sim b))"
    "bs_attached b1" "bs_open b1"
    using replay_step [OF b k p d] by blast
  obtain h where h: "bus_events es b1 = done_state True True h (store_all [r] b1)"
    using event_answers_done [OF b1(2) e] by blast
  have st: "store_all [r] b1 = upd_sim (\<lambda>s. s\<lparr>si_trail := blit (si_trail s) ?j r\<rparr>) b1"
    using b1(4,5) r p by (simp add: store_all_Cons)
  define sim where "sim = (bs_sim b)\<lparr>si_index := length (enc (take (Suc k) ps)), si_trail := blit (si_trail (bs_sim b)) ?j r\<rparr>"
  have sim: "bs_sim (bus_events es b1) = sim"
    unfolding h st by (simp add: done_state_def upd_sim_def b1(3) sim_def)
  let ?ps = "ps[k := (tx, r)]"
  have rl: "length r = length rx" using r p by simp
  have "trail_wf sim ?ps"
    using trail_write(1) [OF wf k p rl] by (simp add: sim_def trail_wf_def)
  then have at: "trail_at sim ?ps (Suc k)"
    using trail_write(2) [OF wf k p rl, of "Suc k"] k by (simp add: trail_at_def sim_def)
  have m: "si_port sim \<and> si_mode sim = Simulator_Replay \<and> \<not> simulator_should_replay_merged_trail sim"
    using b by (simp add: replaying_def sim_def simulator_should_replay_merged_trail_def)
  have f: "bs_attached (bus_events es b1)" "bs_open (bus_events es b1)" "port_idle (bus_events es b1)"
    "bs_started (bus_events es b1) = bs_started b1" "bs_signals (bus_events es b1) = bs_signals b @ [si_semaphore (bs_sim b)]"
    unfolding h st using b1 by (simp_all add: done_state_def upd_sim_def port_idle_def)
  have "replaying (bus_events es b1) ?ps (Suc k)"
    using at m f by (simp add: replaying_def sim)
  moreover have "si_semaphore sim = si_semaphore (bs_sim b)" by (simp add: sim_def)
  ultimately show ?thesis
    using b1 f p by (intro exI [of _ b1]) (simp add: Let_def sim set_rx_def)
qed

lemma replay_end:
  assumes "replaying b ps (length ps)"
  shows "simulator_replay b = Some (b, None)"
proof -
  have "si_index (bs_sim b) = si_length (bs_sim b)"
    using assms by (simp add: replaying_def trail_at_def trail_wf_def)
  then show ?thesis using assms by (simp add: simulator_replay_def replaying_def)
qed

lemma replay_loop_all:
  assumes "replaying b (dn @ todo) (length dn)" "list_all duplex todo" "list_all2 event_answers ess rs"
    and "list_all2 (\<lambda>p r. length r = length (snd p)) todo rs" "port_idle b"
  shows "\<exists>b'. replay_loop b ess = Some b' \<and> replaying b' (dn @ map2 set_rx todo rs) (length (dn @ todo)) \<and>
    bs_started b' = bs_started b @ map (\<lambda>p. (fst p, int (length (snd p)))) todo \<and>
    bs_signals b' = bs_signals b @ replicate (length todo) (si_semaphore (bs_sim b)) \<and> port_idle b'"
  using assms
proof (induction todo arbitrary: b dn ess rs)
  case Nil
  then have "ess = []" "rs = []" by simp_all
  then show ?case using replay_end [of b dn] Nil by simp
next
  case (Cons p todo)
  obtain es ess' r rs' where ls: "ess = es # ess'" "rs = r # rs'"
    using Cons.prems(3,4) by (cases rs; cases ess) auto
  have kth: "(dn @ p # todo) ! length dn = p" by simp
  have upd: "(dn @ p # todo)[length dn := set_rx p r] = (dn @ [set_rx p r]) @ todo" by simp
  obtain b1 where b1: "simulator_replay b = Some (b1, Some (si_semaphore (bs_sim b)))"
    "replaying (bus_events es b1) ((dn @ [set_rx p r]) @ todo) (length (dn @ [set_rx p r]))"
    "bs_started (bus_events es b1) = bs_started b @ [(fst p, int (length (snd p)))]"
    "bs_signals (bus_events es b1) = bs_signals b @ [si_semaphore (bs_sim b)]"
    "si_semaphore (bs_sim (bus_events es b1)) = si_semaphore (bs_sim b)" "port_idle (bus_events es b1)"
    using replay_transfer [OF Cons.prems(1), of es r] Cons.prems(2-4) ls
    unfolding kth upd Let_def by auto
  obtain b' where "replay_loop (bus_events es b1) ess' = Some b'"
    "replaying b' ((dn @ [set_rx p r]) @ map2 set_rx todo rs') (length ((dn @ [set_rx p r]) @ todo))"
    "bs_started b' = bs_started (bus_events es b1) @ map (\<lambda>p. (fst p, int (length (snd p)))) todo"
    "bs_signals b' = bs_signals (bus_events es b1) @ replicate (length todo) (si_semaphore (bs_sim b))" "port_idle b'"
    using Cons.IH [OF b1(2) _ _ _ b1(6), of ess' rs'] Cons.prems(2-4) ls b1(5) by auto
  then show ?case using b1 ls by (intro exI [of _ b']) simp
qed

text \<open>
  Replaying a captured trail sends exactly the captured packets, in order and once each; when the sensor
  answers all of them, the loop ends, each answer has taken the place of the captured receive packet, and
  the task was woken once per packet.
\<close>

theorem replay_session:
  assumes "replaying b ps 0" "list_all duplex ps" "list_all2 event_answers ess rs"
    and "list_all2 (\<lambda>p r. length r = length (snd p)) ps rs" "port_idle b"
  shows "\<exists>b'. replay_loop b ess = Some b' \<and> trail_at (bs_sim b') (map2 set_rx ps rs) (length ps) \<and>
    bs_started b' = bs_started b @ map (\<lambda>p. (fst p, int (length (snd p)))) ps \<and>
    bs_signals b' = bs_signals b @ replicate (length ps) (si_semaphore (bs_sim b)) \<and> port_idle b' \<and>
    si_mode (bs_sim b') = Simulator_Replay"
  using replay_loop_all [of b "[]" ps ess rs] assms by (auto simp: replaying_def)

text \<open>A port with a trail of two exchanges in Replay mode, and the events of an answer.\<close>

definition demo_trail :: "command list" where
  "demo_trail = [([0xF7], [0x11]), ([0x00], [0x22])]"

definition demo_replay :: Bus where
  "demo_replay = demo_bus\<lparr>bs_attached := True, bs_tx_dma := dma_reset, bs_rx_dma := dma_reset,
     bs_sim := demo_simulator\<lparr>si_mode := Simulator_Replay, si_port := True, si_length := 8, si_merged_length := 2,
       si_merge_enabled := True, si_semaphore := 5,
       si_trail := [1, 0xF7, 1, 0x11, 1, 0x00, 1, 0x22] @ replicate 56 0,
       si_merged_tx := [0xF7, 0x00] @ replicate 62 0, si_merged_rx := [0x11, 0x22] @ replicate 62 0\<rparr>\<rparr>"

definition demo_events :: "u8 list \<Rightarrow> bus_event list" where
  "demo_events bytes = [TxIrq complete_flags, RxBytes bytes, RxIrq complete_flags]"

lemma demo_event_answers: "event_answers (demo_events bytes) bytes"
  by (simp add: event_answers_def demo_events_def)

lemma demo_trail_at: "trail_at (bs_sim demo_replay) demo_trail 0"
  by (simp add: demo_replay_def demo_trail_def trail_at_def trail_wf_def demo_simulator_def cmd_nonempty_def)

lemma replay_session_witness:
  "\<exists>b'. replay_loop (upd_sim (\<lambda>s. s\<lparr>si_merge_enabled := False\<rparr>) demo_replay) [demo_events [0x33], demo_events [0x44]] = Some b' \<and>
     trail_at (bs_sim b') [([0xF7], [0x33]), ([0x00], [0x44])] 2"
proof -
  have "trail_at (bs_sim (upd_sim (\<lambda>s. s\<lparr>si_merge_enabled := False\<rparr>) demo_replay)) demo_trail 0"
    using demo_trail_at by (simp add: upd_sim_def trail_at_def trail_wf_def)
  then have "replaying (upd_sim (\<lambda>s. s\<lparr>si_merge_enabled := False\<rparr>) demo_replay) demo_trail 0"
    by (simp add: replaying_def upd_sim_def demo_replay_def demo_bus_def simulator_should_replay_merged_trail_def)
  from replay_session [OF this, of "[demo_events [0x33], demo_events [0x44]]" "[[0x33], [0x44]]"]
  show ?thesis
    by (auto simp: demo_trail_def duplex_def demo_event_answers port_idle_def upd_sim_def demo_replay_def dma_reset_def
        set_rx_def eval_nat_numeral)
qed

section \<open>The merged replay\<close>

definition merged_wf :: "Simulator_Control \<Rightarrow> command list \<Rightarrow> bool" where
  "merged_wf sim ps \<longleftrightarrow> si_merge_enabled sim \<and> length (si_merged_tx sim) = MAX_MERGED_SIZE \<and>
     length (si_merged_rx sim) = MAX_MERGED_SIZE \<and> list_all duplex ps \<and> ps \<noteq> [] \<and>
     si_merged_length sim = length (concat (map fst ps)) \<and> si_merged_length sim \<le> MAX_MERGED_SIZE \<and>
     take (si_merged_length sim) (si_merged_tx sim) = concat (map fst ps)"

lemma split_loop_step:
  assumes at: "trail_at sim ps k" and k: "k < length ps" and p: "ps ! k = (tx, rx)"
    and m: "i + length rx \<le> si_merged_length sim" "si_merged_length sim \<le> MAX_MERGED_SIZE"
    and r: "slice (si_merged_rx sim) i (length rx) = r" "length r = length rx"
  shows "split_loop sim i = split_loop
      (sim\<lparr>si_index := length (enc (take (Suc k) ps)),
           si_trail := blit (si_trail sim) (length (enc (take k ps)) + length tx + 2) r\<rparr>) (i + length rx)"
    and "trail_at (sim\<lparr>si_index := length (enc (take (Suc k) ps)),
           si_trail := blit (si_trail sim) (length (enc (take k ps)) + length tx + 2) r\<rparr>) (ps[k := (tx, r)]) (Suc k)"
proof -
  have i: "si_index sim = length (enc (take k ps))" using at by (simp add: trail_at_def)
  have nx: "next_command sim = (sim\<lparr>si_index := length (enc (take (Suc k) ps))\<rparr>, int (length tx),
      Some (si_index sim + 1), int (length rx), Some (si_index sim + length tx + 2))"
    using next_command_some(1) [OF at k p] .
  show "split_loop sim i = split_loop
      (sim\<lparr>si_index := length (enc (take (Suc k) ps)),
           si_trail := blit (si_trail sim) (length (enc (take k ps)) + length tx + 2) r\<rparr>) (i + length rx)"
    using m r i by (subst split_loop.simps) (simp add: nx)
  have wf: "trail_wf sim ps" using at by (simp add: trail_at_def)
  have "trail_wf (sim\<lparr>si_index := length (enc (take (Suc k) ps)),
           si_trail := blit (si_trail sim) (length (enc (take k ps)) + length tx + 2) r\<rparr>) (ps[k := (tx, r)])"
    using trail_write(1) [OF wf k p r(2)] by (simp add: trail_wf_def)
  then show "trail_at (sim\<lparr>si_index := length (enc (take (Suc k) ps)),
           si_trail := blit (si_trail sim) (length (enc (take k ps)) + length tx + 2) r\<rparr>) (ps[k := (tx, r)]) (Suc k)"
    using trail_write(2) [OF wf k p r(2), of "Suc k"] k by (simp add: trail_at_def)
qed

lemma slice_append: "slice xs i (m + n) = slice xs i m @ slice xs (i + m) n"
  by (simp add: slice_def take_add add.commute)

lemma split_loop_all:
  assumes "trail_at sim (dn @ todo) (length dn)" "list_all2 (\<lambda>p r. length r = length (snd p)) todo rs"
    and "slice (si_merged_rx sim) i (length (concat rs)) = concat rs"
    and "i + length (concat rs) \<le> si_merged_length sim" "si_merged_length sim \<le> MAX_MERGED_SIZE"
  shows "\<exists>sim'. split_loop sim i = (sim', SPI_Ok) \<and>
    trail_at sim' (dn @ map2 set_rx todo rs) (length (dn @ todo)) \<and> si_port sim' = si_port sim \<and>
    si_mode sim' = si_mode sim \<and> si_merged_length sim' = si_merged_length sim \<and> si_merge_enabled sim' = si_merge_enabled sim"
  using assms
proof (induction todo arbitrary: sim dn rs i)
  case Nil
  then have "next_command sim = (sim, - 1, None, - 1, None)" using next_command_none by simp
  then show ?case using Nil by (subst split_loop.simps) simp
next
  case (Cons p todo)
  obtain r rs' where rs: "rs = r # rs'" using Cons.prems(2) by (cases rs) auto
  obtain tx rx where p: "p = (tx, rx)" by (cases p)
  have l: "length r = length rx" using Cons.prems(2) rs p by simp
  have sl: "slice (si_merged_rx sim) i (length rx) = r"
    "slice (si_merged_rx sim) (i + length rx) (length (concat rs')) = concat rs'"
  proof -
    have "slice (si_merged_rx sim) i (length r) @ slice (si_merged_rx sim) (i + length r) (length (concat rs'))
        = r @ concat rs'"
      using Cons.prems(3) rs by (simp add: slice_append)
    moreover have "length (slice (si_merged_rx sim) i (length r)) = length r"
    proof -
      have "length (slice (si_merged_rx sim) i (length (concat rs))) = length (concat rs)"
        using Cons.prems(3) by simp
      then show ?thesis using rs by (simp add: slice_def min_def split: if_splits)
    qed
    ultimately show "slice (si_merged_rx sim) i (length rx) = r"
      "slice (si_merged_rx sim) (i + length rx) (length (concat rs')) = concat rs'"
      using l by simp_all
  qed
  have kth: "(dn @ p # todo) ! length dn = (tx, rx)" using p by simp
  have upd: "(dn @ p # todo)[length dn := (tx, r)] = (dn @ [set_rx p r]) @ todo" using p by (simp add: set_rx_def)
  define sim1 where "sim1 = sim\<lparr>si_index := length (enc (take (Suc (length dn)) (dn @ p # todo))),
      si_trail := blit (si_trail sim) (length (enc (take (length dn) (dn @ p # todo))) + length tx + 2) r\<rparr>"
  have le: "i + length rx \<le> si_merged_length sim" using Cons.prems(4) rs l by simp
  have k: "length dn < length (dn @ p # todo)" by simp
  have st: "split_loop sim i = split_loop sim1 (i + length rx)"
    "trail_at sim1 ((dn @ [set_rx p r]) @ todo) (length (dn @ [set_rx p r]))"
    using split_loop_step [OF Cons.prems(1) k kth le Cons.prems(5) sl(1) l] upd by (simp_all add: sim1_def)
  have f: "si_merged_rx sim1 = si_merged_rx sim" "si_merged_length sim1 = si_merged_length sim" "si_port sim1 = si_port sim"
    "si_mode sim1 = si_mode sim" "si_merge_enabled sim1 = si_merge_enabled sim"
    by (simp_all add: sim1_def)
  obtain sim' where "split_loop sim1 (i + length rx) = (sim', SPI_Ok)"
    "trail_at sim' ((dn @ [set_rx p r]) @ map2 set_rx todo rs') (length ((dn @ [set_rx p r]) @ todo))"
    "si_port sim' = si_port sim" "si_mode sim' = si_mode sim" "si_merged_length sim' = si_merged_length sim"
    "si_merge_enabled sim' = si_merge_enabled sim"
    using Cons.IH [OF st(2), of rs' "i + length rx"] Cons.prems(2,4,5) rs sl(2) l f by auto
  then show ?case using st(1) rs by (intro exI [of _ sim']) simp
qed

section \<open>Closing\<close>

lemma close_idle:
  assumes "port_idle b" "idle_polls start (pt_timeout (bs_port b)) polls"
  shows "spi_close start polls b = Some (b\<lparr>bs_port := (bs_port b)\<lparr>pt_tx_semaphore := None, pt_rx_semaphore := None\<rparr>,
    bs_open := False\<rparr>)"
proof -
  define b0 where "b0 = upd_port (\<lambda>p. p\<lparr>pt_tx_semaphore := None, pt_rx_semaphore := None\<rparr>) b"
  have idle: "port_idle b0" using assms(1) by (simp add: port_idle_def b0_def upd_port_def)
  have "3 \<le> length polls" using assms(2) by (simp add: idle_polls_def)
  then obtain early p1 p2 p3 where ps: "polls = early @ [p1, p2, p3]" by (rule last_three)
  have ne: "list_all (\<lambda>p. \<not> expired start b0 p) polls" and pp: "pl_txe p2" "\<not> pl_bsy p3"
    using assms(2) ps by (auto simp: idle_polls_def expired_def not_less list_all_iff b0_def upd_port_def)
  obtain u1 r1 where 1: "wait_until (\<lambda>p _. pl_txe p) start polls b0 = Some (True, r1, b0)" "polls = u1 @ r1" "1 \<le> length r1"
    using wait_until_met [of polls "early @ [p1]" p2 "[p3]" start b0 "\<lambda>p _. pl_txe p"] ps pp ne idle_events [OF idle] by auto
  obtain e1 where e1: "r1 = e1 @ [p3]" using suffix_rest [of "early @ [p1, p2]" "[p3]" u1 r1] ps 1 by auto
  have ne1: "list_all (\<lambda>p. \<not> expired start b0 p) (e1 @ [p3])" using ne 1(2) e1 by simp
  obtain u2 r2 where 2: "wait_until (\<lambda>p _. \<not> pl_bsy p) start r1 b0 = Some (True, r2, b0)"
    using wait_until_met [of r1 e1 p3 "[]" start b0 "\<lambda>p _. \<not> pl_bsy p"] e1 pp ne1 idle_events [OF idle] by auto
  show ?thesis
    unfolding spi_close_def Let_def b0_def [symmetric] using 1(1) 2 by (simp add: b0_def upd_port_def)
qed

lemma start_timeout: "spi_start b t tn r rn s = (b', x) \<Longrightarrow> pt_timeout (bs_port b') = pt_timeout (bs_port b)"
  using start_fields(7) [of b t tn r rn s] by simp

lemma simulate_timeout:
  assumes "spi_simulate b t tn r rn = Some (b', x)"
  shows "pt_timeout (bs_port b') = pt_timeout (bs_port b)"
proof -
  obtain sim l1 i l2 j where n: "next_command (bs_sim b) = (sim, l1, i, l2, j)" by (cases "next_command (bs_sim b)") auto
  show ?thesis
    using assms start_timeout [of _ t tn r rn None b' x]
    by (auto simp: spi_simulate_def n spi_simulate_error_def upd_port_def upd_sim_def Let_def split: if_splits option.splits)
qed

lemma transceive_timeout:
  "spi_transceive b t tn r rn s = Some (b', x) \<Longrightarrow> pt_timeout (bs_port b') = pt_timeout (bs_port b)"
  using start_timeout [of b t tn r rn s b' x] simulate_timeout [of b t tn r rn b' x]
  by (auto simp: spi_transceive_def spi_showError_def upd_port_def split: if_splits)

lemma transceive_replay_timeout:
  assumes "spi_transceive_replay b s = Some (b', x)"
  shows "pt_timeout (bs_port b') = pt_timeout (bs_port b)"
proof -
  obtain sim l1 i l2 j where n: "next_command (bs_sim b) = (sim, l1, i, l2, j)" by (cases "next_command (bs_sim b)") auto
  show ?thesis
    using assms transceive_timeout [of b MergedTx _ MergedRx _ s b' x]
      transceive_timeout [of "b\<lparr>bs_sim := sim\<rparr>" _ _ _ _ s b' x]
    by (auto simp: spi_transceive_replay_def n spi_showError_def upd_port_def Let_def split: if_splits)
qed

lemma replay_timeout:
  assumes "simulator_replay b = Some (b', x)"
  shows "pt_timeout (bs_port b') = pt_timeout (bs_port b)"
  using assms transceive_replay_timeout
  by (auto simp: simulator_replay_def upd_sim_def Let_def split: if_splits option.splits)

lemma replay_loop_timeout: "replay_loop b ess = Some b' \<Longrightarrow> pt_timeout (bs_port b') = pt_timeout (bs_port b)"
proof (induction ess arbitrary: b)
  case Nil
  then show ?case using replay_timeout by (simp split: option.splits prod.splits)
next
  case (Cons es ess)
  obtain b1 s where r: "simulator_replay b = Some (b1, s)"
    using Cons.prems by (cases "simulator_replay b") auto
  show ?case
  proof (cases s)
    case None
    then show ?thesis using Cons.prems r replay_timeout [OF r] by simp
  next
    case (Some sem)
    then show ?thesis using Cons.IH [of "bus_events es b1"] Cons.prems r replay_timeout [OF r] by simp
  qed
qed

section \<open>Merged and packet by packet\<close>

definition replay_mode :: "Bus \<Rightarrow> command list \<Rightarrow> bool" where
  "replay_mode b ps \<longleftrightarrow> bs_attached b \<and> bs_open b \<and> si_port (bs_sim b) \<and> si_mode (bs_sim b) = Simulator_Replay \<and>
     trail_at (bs_sim b) ps 0 \<and> \<not> si_replayed_merge (bs_sim b) \<and> port_idle b"

text \<open>What the simulator holds after the close: the trail, and the next mode.\<close>

definition replay_closed :: "Bus \<Rightarrow> command list \<Rightarrow> bool" where
  "replay_closed b ps \<longleftrightarrow> trail_at (bs_sim b) ps (length ps) \<and> si_mode (bs_sim b) = Simulator_Simulate \<and>
     \<not> bs_attached b \<and> \<not> bs_open b \<and> port_idle b \<and> si_port (bs_sim b)"

lemma close_unmerged:
  assumes "replaying b ps (length ps)" "port_idle b" "idle_polls start (pt_timeout (bs_port b)) polls"
  shows "\<exists>b'. simulator_close start polls b = Some (b', Simulator_Ok) \<and> replay_closed b' ps \<and> bs_started b' = bs_started b"
  using assms
  by (simp add: simulator_close_def close_idle replaying_def upd_sim_def next_mode_def replay_closed_def
      port_idle_def trail_at_def trail_wf_def Let_def)

lemma close_merged:
  assumes b: "bs_attached b" "si_port (bs_sim b)" "si_mode (bs_sim b) = Simulator_Replay" "port_idle b"
    and m: "simulator_should_replay_merged_trail (bs_sim b)" and at: "trail_at (bs_sim b) ps 0"
    and len: "si_merged_length (bs_sim b) = length (concat rs)" "si_merged_length (bs_sim b) \<le> MAX_MERGED_SIZE"
    and rs: "list_all2 (\<lambda>p r. length r = length (snd p)) ps rs" "take (length (concat rs)) (si_merged_rx (bs_sim b)) = concat rs"
    and polls: "idle_polls start (pt_timeout (bs_port b)) polls"
  shows "\<exists>b'. simulator_close start polls b = Some (b', Simulator_Ok) \<and> replay_closed b' (map2 set_rx ps rs) \<and>
    bs_started b' = bs_started b \<and> byte_buffers b' = byte_buffers b \<and> pt_timeout (bs_port b') = pt_timeout (bs_port b)"
proof -
  have "slice (si_merged_rx (bs_sim b)) 0 (length (concat rs)) = concat rs" using rs(2) by (simp add: slice_def)
  then obtain sim' where sp: "split_loop (bs_sim b) 0 = (sim', SPI_Ok)" "trail_at sim' (map2 set_rx ps rs) (length ps)"
    "si_port sim' = si_port (bs_sim b)" "si_mode sim' = si_mode (bs_sim b)"
    using split_loop_all [of "bs_sim b" "[]" ps rs 0] at rs(1) len by auto
  have l: "length (map2 set_rx ps rs) = length ps" using rs(1) by (simp add: list_all2_lengthD)
  define b1 where "b1 = b\<lparr>bs_port := (bs_port b)\<lparr>pt_tx_semaphore := None, pt_rx_semaphore := None\<rparr>, bs_open := False\<rparr>"
  have c: "spi_close start polls b = Some b1" using close_idle [OF b(4) polls] by (simp add: b1_def)
  have f: "bs_sim b1 = bs_sim b" "bs_attached b1" "bs_started b1 = bs_started b" "\<not> bs_open b1" "port_idle b1"
    using b by (simp_all add: b1_def port_idle_def)
  define b2 where "b2 = b1\<lparr>bs_sim := sim'\<rparr>"
  have sp2: "fst (spi_split_trail b1) = b2" by (simp add: spi_split_trail_def f sp(1) b2_def)
  have n: "next_mode sim' = sim'\<lparr>si_mode := Simulator_Simulate\<rparr>" using sp(4) b(3) by (simp add: next_mode_def)
  have "simulator_close start polls b = Some (b2\<lparr>bs_sim := sim'\<lparr>si_mode := Simulator_Simulate\<rparr>, bs_attached := False\<rparr>, Simulator_Ok)"
    unfolding simulator_close_def using b m c f(1,2) sp2 sp(3)
    by (simp add: upd_sim_def n Let_def) (simp add: b2_def n)
  moreover have "replay_closed (b2\<lparr>bs_sim := sim'\<lparr>si_mode := Simulator_Simulate\<rparr>, bs_attached := False\<rparr>) (map2 set_rx ps rs)"
    using sp f b(2) l by (simp add: replay_closed_def b2_def trail_at_def trail_wf_def port_idle_def)
  ultimately show ?thesis using f(3) by (auto simp: b2_def b1_def byte_buffers_def)
qed

text \<open>The one transfer of a merged replay.\<close>

lemma merged_transfer:
  assumes b: "replay_mode b ps" and m: "merged_wf (bs_sim b) ps" and e: "event_answers es bytes"
    and l: "length bytes = si_merged_length (bs_sim b)"
  shows "\<exists>b'. replay_loop b [es] = Some b' \<and> bs_attached b' \<and> si_port (bs_sim b') \<and> si_mode (bs_sim b') = Simulator_Replay \<and>
    port_idle b' \<and> simulator_should_replay_merged_trail (bs_sim b') \<and> trail_at (bs_sim b') ps 0 \<and>
    si_merged_length (bs_sim b') = si_merged_length (bs_sim b) \<and>
    take (length bytes) (si_merged_rx (bs_sim b')) = bytes \<and>
    bs_started b' = bs_started b @ [(concat (map fst ps), int (length bytes))] \<and>
    pt_timeout (bs_port b') = pt_timeout (bs_port b) \<and> byte_buffers b' = byte_buffers b"
proof -
  let ?n = "si_merged_length (bs_sim b)"
  have "list_all cmd_nonempty ps" using b by (simp add: replay_mode_def trail_at_def trail_wf_def)
  then have "fst (hd ps) \<noteq> []" using m by (cases ps) (auto simp: merged_wf_def cmd_nonempty_def)
  then have n: "0 < ?n" using m by (cases ps) (auto simp: merged_wf_def)
  have tk: "take ?n (si_merged_tx (bs_sim b)) = concat (map fst ps)" using m unfolding merged_wf_def by (elim conjE)
  have sm: "simulator_should_replay_merged_trail (bs_sim b)"
    using m n by (simp add: simulator_should_replay_merged_trail_def merged_wf_def)
  define b0 where "b0 = upd_sim (\<lambda>s. s\<lparr>si_replayed_merge := True\<rparr>) b"
  define sem where "sem = Some (si_semaphore (bs_sim b))"
  define b1 where "b1 = fst (spi_start b0 MergedTx (int ?n) MergedRx (int ?n) sem)"
  have f0: "bs_attached b0" "bs_open b0" "si_mode (bs_sim b0) = Simulator_Replay" "si_merged_length (bs_sim b0) = ?n"
    "simulator_should_replay_merged_trail (bs_sim b0)" "bs_started b0 = bs_started b" "bs_port b0 = bs_port b"
    "si_merged_tx (bs_sim b0) = si_merged_tx (bs_sim b)" "si_semaphore (bs_sim b0) = si_semaphore (bs_sim b)"
    using b sm by (simp_all add: b0_def upd_sim_def replay_mode_def simulator_should_replay_merged_trail_def)
  have "spi_transceive b0 MergedTx (int ?n) MergedRx (int ?n) sem = Some (b1, SPI_Ok)"
    using f0 n start_fields(9) [of b0 MergedTx "int ?n" MergedRx "int ?n" sem]
    by (simp add: spi_transceive_def b1_def prod_eq_iff Suc_le_eq)
  then have rp: "spi_transceive_replay b0 sem = Some (b1, SPI_Ok)"
    using f0 by (simp add: spi_transceive_replay_def)
  have f1: "bs_sim b1 = bs_sim b0" "bs_attached b1" "bs_open b1" "pt_timeout (bs_port b1) = pt_timeout (bs_port b)"
    using f0 by (simp_all add: b1_def start_fields)
  have r1: "simulator_replay b = Some (b1, sem)"
    using b sm rp f1(1) f0(9) by (simp add: simulator_replay_def replay_mode_def b0_def sem_def Let_def)
  have s: "transfer_started b1" "dm_buf (bs_rx_dma b1) = MergedRx" "dm_count (bs_rx_dma b1) = int ?n"
    "bs_started b1 = bs_started b @ [(concat (map fst ps), int ?n)]"
    using start_started [of b0 "int ?n" "int ?n" MergedTx MergedRx sem] f0 n tk by (simp_all add: b1_def)
  obtain h where h: "bus_events es b1 = done_state True True h (store_all [bytes] b1)"
    using event_answers_done [OF s(1) e] by blast
  have st: "store_all [bytes] b1 = upd_sim (\<lambda>s. s\<lparr>si_merged_rx := blit (si_merged_rx s) 0 bytes\<rparr>) b1"
    using s(2,3) l by (simp add: store_all_Cons)
  define b2 where "b2 = bus_events es b1"
  have sim2: "bs_sim b2 = (bs_sim b)\<lparr>si_replayed_merge := True, si_merged_rx := blit (si_merged_rx (bs_sim b)) 0 bytes\<rparr>"
    unfolding b2_def h st by (simp add: done_state_def upd_sim_def f1(1) b0_def)
  have f2: "bs_attached b2" "port_idle b2" "bs_started b2 = bs_started b1" "pt_timeout (bs_port b2) = pt_timeout (bs_port b)"
    "byte_buffers b2 = byte_buffers b"
    unfolding b2_def h st using f1
    by (simp_all add: done_state_def upd_sim_def port_idle_def byte_buffers_def b1_def start_fields b0_def)
  have "simulator_replay b2 = Some (b2, None)"
    using b sm by (simp add: simulator_replay_def sim2 replay_mode_def simulator_should_replay_merged_trail_def)
  then have "replay_loop b [es] = Some b2" using r1 by (simp add: sem_def b2_def)
  moreover have "take (length bytes) (si_merged_rx (bs_sim b2)) = bytes"
    using take_blit_upto [of 0 "si_merged_rx (bs_sim b)" bytes] by (simp add: sim2)
  moreover have "trail_at (bs_sim b2) ps 0"
    using b by (simp add: sim2 replay_mode_def trail_at_def trail_wf_def)
  ultimately show ?thesis
    using f2 s(4) l b sm
    by (intro exI [of _ b2]) (simp add: sim2 replay_mode_def simulator_should_replay_merged_trail_def)
qed

text \<open>
  C24. Sending the whole trail as one merged packet is equivalent to replaying it packet by packet: the same bytes
  go out in the same order, and when the sensor answers with the same bytes, the trail holds the same
  commands after the close, with every answer in its own packet, and the simulator simulates next.
\<close>

theorem merged_replay_equivalent:
  assumes "replay_mode b ps" "merged_wf (bs_sim b) ps"
    and "list_all2 event_answers ess rs" "list_all2 (\<lambda>p r. length r = length (snd p)) ps rs"
    and "event_answers es (concat rs)" "idle_polls start (pt_timeout (bs_port b)) polls"
  shows "\<exists>bm bm' bp bp'.
    replay_loop b [es] = Some bm \<and> simulator_close start polls bm = Some (bm', Simulator_Ok) \<and>
    replay_loop (upd_sim (\<lambda>s. s\<lparr>si_merge_enabled := False\<rparr>) b) ess = Some bp \<and>
    simulator_close start polls bp = Some (bp', Simulator_Ok) \<and>
    replay_closed bm' (map2 set_rx ps rs) \<and> replay_closed bp' (map2 set_rx ps rs) \<and>
    (\<exists>sent. map fst (bs_started bm') = map fst (bs_started b) @ [concat sent] \<and>
       map fst (bs_started bp') = map fst (bs_started b) @ sent)"
proof -
  have d: "list_all duplex ps" using assms(2) by (simp add: merged_wf_def)
  have cl: "length (concat rs) = length (concat (map fst ps))"
    using assms(4) d by (induction rule: list_all2_induct) (simp_all add: duplex_def)
  have ml: "si_merged_length (bs_sim b) = length (concat rs)" using assms(2) cl by (simp add: merged_wf_def)
  obtain bm where bm: "replay_loop b [es] = Some bm" "bs_attached bm" "si_port (bs_sim bm)"
    "si_mode (bs_sim bm) = Simulator_Replay" "port_idle bm" "simulator_should_replay_merged_trail (bs_sim bm)"
    "trail_at (bs_sim bm) ps 0" "si_merged_length (bs_sim bm) = length (concat rs)"
    "take (length (concat rs)) (si_merged_rx (bs_sim bm)) = concat rs"
    "bs_started bm = bs_started b @ [(concat (map fst ps), int (length (concat rs)))]"
    "pt_timeout (bs_port bm) = pt_timeout (bs_port b)"
    using merged_transfer [OF assms(1,2,5)] ml by metis
  have le: "si_merged_length (bs_sim bm) \<le> MAX_MERGED_SIZE" using bm(8) ml assms(2) by (simp add: merged_wf_def)
  obtain bm' where bm': "simulator_close start polls bm = Some (bm', Simulator_Ok)"
    "replay_closed bm' (map2 set_rx ps rs)" "bs_started bm' = bs_started bm"
    using close_merged [OF bm(2,3,4,5,6,7,8) le assms(4) bm(9), of start polls] assms(6) bm(11) by auto
  define bu where "bu = upd_sim (\<lambda>s. s\<lparr>si_merge_enabled := False\<rparr>) b"
  have ru: "replaying bu ([] @ ps) (length ([] :: command list))" "port_idle bu"
    "bs_started bu = bs_started b"
    using assms(1) by (simp_all add: bu_def upd_sim_def replaying_def replay_mode_def port_idle_def trail_at_def
        trail_wf_def simulator_should_replay_merged_trail_def)
  obtain bp where bp: "replay_loop bu ess = Some bp" "replaying bp ([] @ map2 set_rx ps rs) (length ([] @ ps))"
    "bs_started bp = bs_started bu @ map (\<lambda>p. (fst p, int (length (snd p)))) ps" "port_idle bp"
    using replay_loop_all [OF ru(1) d assms(3,4) ru(2)] by blast
  have lp: "length (map2 set_rx ps rs) = length ps" using assms(4) by (simp add: list_all2_lengthD)
  have rb: "replaying bp (map2 set_rx ps rs) (length (map2 set_rx ps rs))" using bp(2) lp by simp
  have to: "idle_polls start (pt_timeout (bs_port bp)) polls"
    using replay_loop_timeout [OF bp(1)] assms(6) by (simp add: bu_def upd_sim_def)
  obtain bp' where bp': "simulator_close start polls bp = Some (bp', Simulator_Ok)"
    "replay_closed bp' (map2 set_rx ps rs)" "bs_started bp' = bs_started bp"
    using close_unmerged [OF rb bp(4) to] by blast
  have "map fst (bs_started bm') = map fst (bs_started b) @ [concat (map fst ps)]" using bm'(3) bm(10) by simp
  moreover have "map fst (bs_started bp') = map fst (bs_started b) @ map fst ps"
    using bp'(3) bp(3) ru(3) by (simp add: comp_def)
  ultimately show ?thesis
    using bm(1) bm'(1,2) bp(1) bp'(1,2) unfolding bu_def by blast
qed

lemma merged_replay_equivalent_witness:
  "\<exists>bm bm'. replay_loop demo_replay [demo_events [0x33, 0x44]] = Some bm \<and>
     simulator_close 0 [demo_poll [] 0, demo_poll [] 1, demo_poll [] 2] bm = Some (bm', Simulator_Ok) \<and>
     replay_closed bm' [([0xF7], [0x33]), ([0x00], [0x44])]"
proof -
  have "replay_mode demo_replay demo_trail"
    using demo_trail_at
    by (simp add: replay_mode_def demo_replay_def demo_bus_def demo_simulator_def port_idle_def dma_reset_def)
  moreover have "merged_wf (bs_sim demo_replay) demo_trail"
    by (simp add: merged_wf_def demo_replay_def demo_simulator_def demo_trail_def duplex_def)
  moreover have "idle_polls 0 (pt_timeout (bs_port demo_replay)) [demo_poll [] 0, demo_poll [] 1, demo_poll [] 2]"
    by (simp add: idle_polls_def demo_replay_def demo_bus_def demo_port_def diff_ticks_def)
  ultimately show ?thesis
    using merged_replay_equivalent [of demo_replay demo_trail "[demo_events [0x33], demo_events [0x44]]" "[[0x33], [0x44]]"
        "demo_events [0x33, 0x44]" 0 "[demo_poll [] 0, demo_poll [] 1, demo_poll [] 2]"]
    by (auto simp: demo_event_answers demo_trail_def set_rx_def)
qed

end
