(* ===== verification/SpiCycle.thy ===== *)
theory SpiCycle
  imports SpiReplay
begin

text \<open>
  The cycle of the simulator around a sensor driver: the driver's transfers are captured, the trail is
  replayed as one merged packet, and the driver is then run again on the replayed data without the bus.
\<close>

section \<open>A driver\<close>

text \<open>The calls of the BME280 driver on the Arduino interface, on the port it has selected.\<close>

datatype drv_op =
    Begin u32 u8 u8
  | Byte u8 u32 "Poll list"
  | End u32 "Poll list"

fun drive_op :: "drv_op \<Rightarrow> Bus \<Rightarrow> (Bus \<times> u8 list) option" where
  "drive_op (Begin speed order mode) b = Some (spi_open (spi_configure b speed order mode), [])"
| "drive_op (Byte data start ps) b = map_option (\<lambda>(b, r). (b, [r])) (transfer_port start ps data b)"
| "drive_op (End start ps) b = map_option (\<lambda>b. (b, [])) (spi_close start ps b)"

fun drive :: "drv_op list \<Rightarrow> Bus \<Rightarrow> (Bus \<times> u8 list) option" where
  "drive [] b = Some (b, [])"
| "drive (op # ops) b = (case drive_op op b of
       None \<Rightarrow> None
     | Some (b, r) \<Rightarrow> map_option (\<lambda>(b, rs). (b, r @ rs)) (drive ops b))"

text \<open>
  The environment of a driver run that sends and receives the bytes of \<open>ps\<close>: \<open>op\<close> is whether a transaction is
  open; with \<open>real\<close> every byte is answered by the sensor, otherwise the port stays idle.
\<close>

fun drv_env :: "bool \<Rightarrow> bool \<Rightarrow> drv_op list \<Rightarrow> command list \<Rightarrow> bool" where
  "drv_env real op [] ps = (ps = [])"
| "drv_env real op (Begin _ _ _ # ops) ps = drv_env real True ops ps"
| "drv_env real op (End start pl # ops) ps = (op \<and> idle_polls start 2000 pl \<and> drv_env real False ops ps)"
| "drv_env real op (Byte d start pl # ops) [] = False"
| "drv_env real op (Byte d start pl # ops) (p # ps) =
     (op \<and> length (snd p) = 1 \<and> p = ([d], snd p) \<and>
      (if real then answers start 2000 (snd p) pl else idle_polls start 2000 pl) \<and> drv_env real op ops ps)"

text \<open>The port between two calls of the driver; it has been configured before.\<close>

definition drv_port :: "bool \<Rightarrow> Bus \<Rightarrow> bool" where
  "drv_port op b \<longleftrightarrow> bs_attached b \<and> byte_buffers b \<and> port_idle b \<and> si_port (bs_sim b) \<and>
     pt_timeout (bs_port b) = 2000 \<and> (op \<longrightarrow> bs_open b)"

lemma drv_begin:
  assumes "drv_port op b"
  shows "drv_port True (spi_open (spi_configure b speed order mode))"
    and "bs_sim (spi_open (spi_configure b speed order mode)) = bs_sim b"
    and "bs_started (spi_open (spi_configure b speed order mode)) = bs_started b"
  using assms
  by (simp_all add: drv_port_def spi_open_def spi_configure_def upd_port_def byte_buffers_def port_idle_def Let_def)

lemma drv_end:
  assumes "drv_port True b" "idle_polls start 2000 pl"
  shows "\<exists>b'. spi_close start pl b = Some b' \<and> drv_port False b' \<and> bs_sim b' = bs_sim b \<and> bs_started b' = bs_started b"
  using assms close_idle [of b start pl]
  by (simp add: drv_port_def byte_buffers_def port_idle_def)

section \<open>Capturing\<close>

definition cap_inv :: "Simulator_Control \<Rightarrow> command list \<Rightarrow> bool" where
  "cap_inv sim ps \<longleftrightarrow> trail_holds sim ps (length ps) \<and> list_all duplex ps \<and>
     length (si_merged_tx sim) = MAX_MERGED_SIZE \<and> length (si_merged_rx sim) = MAX_MERGED_SIZE \<and>
     si_merged_length sim = length (concat (map fst ps)) \<and>
     take (si_merged_length sim) (si_merged_tx sim) = concat (map fst ps) \<and> si_merge_enabled sim"

lemma concat_enc: "length (concat (map fst ps)) \<le> length (enc ps)"
  by (induction ps) auto

lemma capture_size_frame:
  "si_merged_tx (fst (simulator_capture_size sim n)) = si_merged_tx sim"
  "si_merged_rx (fst (simulator_capture_size sim n)) = si_merged_rx sim"
  "si_merged_length (fst (simulator_capture_size sim n)) = si_merged_length sim"
  "si_merge_enabled (fst (simulator_capture_size sim n)) = si_merge_enabled sim"
  "si_port (fst (simulator_capture_size sim n)) = si_port sim"
  by (simp_all add: simulator_capture_size_def simulator_overflow_def sim_showError_def)

lemma capture_packet_frame:
  "si_merged_tx (fst (simulator_capture_packet sim p n)) = si_merged_tx sim"
  "si_merged_rx (fst (simulator_capture_packet sim p n)) = si_merged_rx sim"
  "si_merged_length (fst (simulator_capture_packet sim p n)) = si_merged_length sim"
  "si_merge_enabled (fst (simulator_capture_packet sim p n)) = si_merge_enabled sim"
  "si_port (fst (simulator_capture_packet sim p n)) = si_port sim"
  by (simp_all add: simulator_capture_packet_def simulator_overflow_def sim_showError_def split: option.split)

lemma capture_command_frame:
  "si_merged_tx (capture_command sim p) = si_merged_tx sim"
  "si_merged_rx (capture_command sim p) = si_merged_rx sim"
  "si_merged_length (capture_command sim p) = si_merged_length sim"
  "si_merge_enabled (capture_command sim p) = si_merge_enabled sim"
  "si_port (capture_command sim p) = si_port sim"
  by (simp_all only: capture_command_def Let_def capture_size_frame capture_packet_frame)

lemma cap_inv_step:
  assumes c: "cap_inv sim ps" and f: "trail_fits ps p" and d: "duplex p"
  shows "cap_inv (capture_merged sim p) (ps @ [p])" "si_port (capture_merged sim p) = si_port sim"
proof -
  define s1 where "s1 = capture_command sim p"
  have h: "trail_holds s1 (ps @ [p]) (Suc (length ps))"
    using trail.capture [of sim ps p] c f by (simp add: s1_def cap_inv_def)
  have m1: "si_mode s1 = Simulator_Capture" using h by (simp add: trail_holds_def)
  have fr: "si_merged_tx s1 = si_merged_tx sim" "si_merged_rx s1 = si_merged_rx sim" "si_merged_length s1 = si_merged_length sim"
    "si_merge_enabled s1 = si_merge_enabled sim" "si_port s1 = si_port sim"
    by (simp_all add: s1_def capture_command_frame)
  obtain tx rx where p: "p = (tx, rx)" by (cases p)
  have ne: "tx \<noteq> []" "rx \<noteq> []" "length tx = length rx" using f d p by (auto simp: trail_fits_def cmd_nonempty_def duplex_def)
  have lt: "trail_wf s1 (ps @ [p])" using h by (simp add: trail_holds_def trail_at_def)
  have "length (enc (ps @ [p])) \<le> MAX_TRAIL_SIZE" using lt by (simp add: trail_wf_def)
  then have le: "si_merged_length sim + length tx \<le> MAX_MERGED_SIZE"
    using concat_enc [of "ps @ [p]"] c p by (simp add: cap_inv_def)
  then have mg: "capture_merged sim p = s1\<lparr>
      si_merged_tx := blit (si_merged_tx sim) (si_merged_length sim) tx,
      si_merged_rx := blit (si_merged_rx sim) (si_merged_length sim) rx,
      si_merged_length := si_merged_length sim + length tx\<rparr>"
    using ne m1 unfolding capture_merged_def s1_def [symmetric]
    by (simp add: simulator_merge_packet_def p fr)
  show "si_port (capture_merged sim p) = si_port sim" by (simp add: mg fr)
  have tk: "take (si_merged_length sim + length tx) (blit (si_merged_tx sim) (si_merged_length sim) tx) =
      concat (map fst (ps @ [p]))"
  proof -
    have cm: "take (si_merged_length sim) (si_merged_tx sim) = concat (map fst ps)" "length (si_merged_tx sim) = MAX_MERGED_SIZE"
      using c unfolding cap_inv_def by blast+
    show ?thesis using take_blit_upto [of "si_merged_length sim" "si_merged_tx sim" tx] cm le p by simp
  qed
  define s2 where "s2 = s1\<lparr>
      si_merged_tx := blit (si_merged_tx sim) (si_merged_length sim) tx,
      si_merged_rx := blit (si_merged_rx sim) (si_merged_length sim) rx,
      si_merged_length := si_merged_length sim + length tx\<rparr>"
  have "trail_holds s2 (ps @ [p]) (Suc (length ps))"
    using h by (simp add: s2_def trail_holds_def trail_at_def trail_wf_def)
  moreover have "length (concat (map fst (ps @ [p]))) = si_merged_length s2"
    using c p by (simp add: s2_def cap_inv_def)
  moreover have "length (si_merged_tx s2) = MAX_MERGED_SIZE" "length (si_merged_rx s2) = MAX_MERGED_SIZE" "si_merge_enabled s2"
    using c le ne by (simp_all add: s2_def cap_inv_def length_blit fr)
  moreover have "take (si_merged_length s2) (si_merged_tx s2) = concat (map fst (ps @ [p]))"
    using tk by (simp add: s2_def)
  moreover have "list_all duplex (ps @ [p])" using c d by (simp add: cap_inv_def)
  ultimately have "cap_inv s2 (ps @ [p])" unfolding cap_inv_def by (simp only: length_append_singleton)
  then show "cap_inv (capture_merged sim p) (ps @ [p])" by (simp only: mg s2_def)
qed

lemma drive_capture:
  assumes "drv_env True op ops ps" "drv_port op b" "cap_inv (bs_sim b) dn" "list_all cmd_nonempty ps"
    and "length (enc (dn @ ps)) \<le> MAX_TRAIL_SIZE"
  shows "\<exists>b' op'. drive ops b = Some (b', concat (map snd ps)) \<and> drv_port op' b' \<and> cap_inv (bs_sim b') (dn @ ps)"
  using assms
proof (induction True op ops ps arbitrary: b dn rule: drv_env.induct)
  case (1 op ps)
  then show ?case by auto
next
  case (2 op sp od md ops ps)
  then show ?case using drv_begin [of op b sp od md] by auto
next
  case (3 op start pl ops ps)
  then obtain b1 where "spi_close start pl b = Some b1" "drv_port False b1" "bs_sim b1 = bs_sim b"
    using drv_end [of b start pl] by (auto simp: drv_port_def)
  then show ?case using 3 by auto
next
  case (4 op d start pl ops)
  then show ?case by simp
next
  case (5 op d start pl ops p ps)
  obtain r where p: "p = ([d], [r])" using 5(2) by (cases p; cases "snd p") auto
  have op: "op" "answers start 2000 [r] pl" "drv_env True op ops ps" using 5(2) p by auto
  have mode: "si_mode (bs_sim b) = Simulator_Capture" using 5(4) by (simp add: cap_inv_def trail_holds_def)
  have b: "bs_open b" "byte_buffers b" "real_transfer b" "pt_timeout (bs_port b) = 2000" "bs_attached b"
    using 5(3) op(1) mode by (simp_all add: drv_port_def real_transfer_def)
  obtain b1 where b1: "transfer_port start pl d b = Some (b1, r)" "bs_sim b1 = capture_merged (bs_sim b) p"
    "bs_open b1" "byte_buffers b1" "bs_attached b1" "pt_timeout (bs_port b1) = 2000" "port_idle b1"
    using transfer_answered_lemma [OF b(1-3), of start r pl d] op(2) b(4,5) mode p
    by (auto simp: port_idle_def)
  have fit: "trail_fits dn p" using 5(6) p by (simp add: trail_fits_def cmd_nonempty_def)
  have du: "duplex p" by (simp add: p duplex_def)
  have "drv_port op b1"
    using b1 5(3) cap_inv_step(2) [OF 5(4) fit du] by (simp add: drv_port_def)
  moreover have "cap_inv (bs_sim b1) (dn @ [p])" using cap_inv_step(1) [OF 5(4) fit du] b1(2) by simp
  ultimately obtain b' op' where "drive ops b1 = Some (b', concat (map snd ps))" "drv_port op' b'"
    "cap_inv (bs_sim b') ((dn @ [p]) @ ps)"
    using 5(1) [OF op(3), of b1 "dn @ [p]"] 5(5,6) by auto
  then show ?case using b1(1) p by auto
qed

section \<open>Simulating\<close>

lemma drive_simulate:
  assumes "drv_env False op ops ps" "drv_port op b" "si_mode (bs_sim b) = Simulator_Simulate"
    and "trail_at (bs_sim b) (dn @ ps) (length dn)"
  shows "\<exists>b' op'. drive ops b = Some (b', concat (map snd ps)) \<and> drv_port op' b' \<and> bs_started b' = bs_started b \<and>
    si_mode (bs_sim b') = Simulator_Simulate \<and> trail_at (bs_sim b') (dn @ ps) (length (dn @ ps))"
  using assms
proof (induction False op ops ps arbitrary: b dn rule: drv_env.induct)
  case (1 op ps)
  then show ?case by auto
next
  case (2 op sp od md ops ps)
  let ?b = "spi_open (spi_configure b sp od md)"
  have "drv_env False True ops ps" "drv_port True ?b" "si_mode (bs_sim ?b) = Simulator_Simulate"
    "trail_at (bs_sim ?b) (dn @ ps) (length dn)" "bs_started ?b = bs_started b"
    using 2(2-5) drv_begin [of op b sp od md] by auto
  then show ?case using 2(1) [of ?b dn] by auto
next
  case (3 op start pl ops ps)
  then obtain b1 where "spi_close start pl b = Some b1" "drv_port False b1" "bs_sim b1 = bs_sim b" "bs_started b1 = bs_started b"
    using drv_end [of b start pl] by (auto simp: drv_port_def)
  then show ?case using 3(1) [of b1 dn] 3(2-) by auto
next
  case (4 op d start pl ops)
  then show ?case by simp
next
  case (5 op d start pl ops p ps)
  obtain r where p: "p = ([d], [r])" using 5(2) by (cases p; cases "snd p") auto
  have op: "op" "idle_polls start 2000 pl" "drv_env False op ops ps" using 5(2) p by auto
  have b: "bs_attached b" "byte_buffers b" "port_idle b" "pt_timeout (bs_port b) = 2000" "bs_open b" "si_port (bs_sim b)"
    using 5(3) op(1) by (simp_all add: drv_port_def)
  have k: "length dn < length (dn @ p # ps)" "(dn @ p # ps) ! length dn = ([d], [r])" using p by simp_all
  have pl: "idle_polls start (pt_timeout (bs_port b)) pl" using op(2) b(4) by simp
  obtain b1 where b1: "transfer_port start pl d b = Some (b1, r)" "bs_started b1 = bs_started b"
    "bs_sim b1 = (bs_sim b)\<lparr>si_index := length (enc (take (Suc (length dn)) (dn @ p # ps)))\<rparr>"
    "trail_at (bs_sim b1) (dn @ p # ps) (Suc (length dn))"
    "bs_attached b1" "byte_buffers b1" "port_idle b1" "pt_timeout (bs_port b1) = 2000" "bs_open b1 = bs_open b"
    using transfer_simulated_lemma [OF b(1) 5(4) 5(5) k b(2,3) pl] b(4) by auto
  have "drv_port op b1" "si_mode (bs_sim b1) = Simulator_Simulate"
    using b1 b 5(4) by (simp_all add: drv_port_def)
  moreover have "trail_at (bs_sim b1) ((dn @ [p]) @ ps) (length (dn @ [p]))" using b1(4) by simp
  ultimately obtain b' op' where "drive ops b1 = Some (b', concat (map snd ps))" "drv_port op' b'"
    "bs_started b' = bs_started b" "si_mode (bs_sim b') = Simulator_Simulate"
    "trail_at (bs_sim b') ((dn @ [p]) @ ps) (length ((dn @ [p]) @ ps))"
    using 5(1) [OF op(3), of b1 "dn @ [p]"] b1(2) by auto
  then show ?case using b1(1) p by (intro exI [of _ b'] exI [of _ op']) simp
qed

section \<open>The cycle\<close>

text \<open>What a simulator needs of its memory, and a port that no transfer is using.\<close>

definition fresh_bus :: "Bus \<Rightarrow> bool" where
  "fresh_bus b \<longleftrightarrow> byte_buffers b \<and> port_idle b \<and> pt_timeout (bs_port b) = 2000 \<and>
     length (si_trail (bs_sim b)) = MAX_TRAIL_SIZE \<and> length (si_merged_tx (bs_sim b)) = MAX_MERGED_SIZE \<and>
     length (si_merged_rx (bs_sim b)) = MAX_MERGED_SIZE"

lemma configured_open:
  assumes "fresh_bus b"
  shows "drv_port False (fst (simulator_open (configure_simulator b sid name True True r s True sem)))"
    and "cap_inv (bs_sim (fst (simulator_open (configure_simulator b sid name True True r s True sem)))) []"
  using assms
  by (simp_all add: fresh_bus_def simulator_open_def configure_simulator_def simulator_configure_def upd_sim_def Let_def
      drv_port_def byte_buffers_def port_idle_def cap_inv_def trail_holds_def trail_at_def trail_wf_def split: option.split)

lemma close_captured:
  assumes "drv_port op b" "cap_inv (bs_sim b) ps" "ps \<noteq> []"
  shows "\<exists>b'. simulator_close st pl b = Some (b', Simulator_Ok) \<and>
    replay_mode (fst (simulator_open b')) ps \<and> merged_wf (bs_sim (fst (simulator_open b'))) ps \<and>
    byte_buffers b' \<and> pt_timeout (bs_port (fst (simulator_open b'))) = 2000 \<and> byte_buffers (fst (simulator_open b'))"
proof -
  define sim where "sim = (bs_sim b)\<lparr>si_mode := Simulator_Replay\<rparr>"
  define b1 where "b1 = b\<lparr>bs_sim := sim, bs_attached := False\<rparr>"
  have wf: "trail_wf (bs_sim b) ps" "si_mode (bs_sim b) = Simulator_Capture"
    using assms(2) by (simp_all add: cap_inv_def trail_holds_def trail_at_def)
  have "enc ps \<noteq> []" using assms(3) by (cases ps) auto
  then have l: "0 < si_length (bs_sim b)" using wf(1) by (simp add: trail_wf_def)
  have c: "simulator_close st pl b = Some (b1, Simulator_Ok)"
    using assms(1) wf(2) l
    by (simp add: simulator_close_def next_mode_def upd_sim_def drv_port_def Let_def b1_def sim_def)
  define b2 where "b2 = fst (simulator_open b1)"
  have f: "bs_sim b2 = sim\<lparr>si_index := 0, si_replayed_merge := False\<rparr>" "bs_attached b2" "bs_open b2"
    "port_idle b2" "byte_buffers b2" "pt_timeout (bs_port b2) = 2000"
    using assms(1) by (simp_all add: b2_def simulator_open_def b1_def sim_def upd_sim_def drv_port_def spi_open_def
        upd_port_def port_idle_def byte_buffers_def Let_def)
  have rm: "replay_mode b2 ps"
    using f assms(1) wf(1) by (simp add: replay_mode_def sim_def drv_port_def trail_at_def trail_wf_def)
  have "si_merged_length (bs_sim b) \<le> MAX_MERGED_SIZE"
    using concat_enc [of ps] wf(1) assms(2) by (simp add: cap_inv_def trail_wf_def)
  then have "merged_wf (bs_sim b) ps"
    using assms(2,3) unfolding merged_wf_def cap_inv_def by metis
  moreover have "merged_wf (bs_sim b2) ps = merged_wf (bs_sim b) ps" by (simp add: f(1) sim_def merged_wf_def)
  ultimately have "merged_wf (bs_sim b2) ps" by blast
  then show ?thesis
    using c f rm assms(1) unfolding b2_def by (intro exI [of _ b1]) (simp add: b1_def drv_port_def byte_buffers_def)
qed

lemma open_simulate:
  assumes "replay_closed b ps" "byte_buffers b" "pt_timeout (bs_port b) = 2000"
  shows "drv_port False (fst (simulator_open b))" "si_mode (bs_sim (fst (simulator_open b))) = Simulator_Simulate"
    "trail_at (bs_sim (fst (simulator_open b))) ps 0" "bs_started (fst (simulator_open b)) = bs_started b"
  using assms
  by (simp_all add: replay_closed_def simulator_open_def upd_sim_def drv_port_def port_idle_def byte_buffers_def
      trail_at_def trail_wf_def Let_def)

text \<open>
  C25. The whole cycle of a sensor with a merged trail. A driver run in Capture mode talks to the sensor byte by byte and
  receives its answers; the next poll replays the same bytes as one packet, in the background; and the poll
  after it runs the driver again, which receives the replayed answers byte by byte while nothing is sent
  on the bus.
\<close>

theorem capture_replay_simulate:
  assumes "fresh_bus b" "ps \<noteq> []" "list_all cmd_nonempty ps" "length (enc ps) \<le> MAX_TRAIL_SIZE"
    and "drv_env True False ops1 ps"
    and "list_all2 (\<lambda>p r. length r = length (snd p)) ps rs" "event_answers es (concat rs)"
    and "idle_polls st 2000 pl" "drv_env False False ops2 (map2 set_rx ps rs)"
  shows "let b1 = fst (simulator_open (configure_simulator b sid name True True re s True sem)) in
    \<exists>b2 b3 b4 b5 b6. drive ops1 b1 = Some (b2, concat (map snd ps)) \<and>
      simulator_close st pl b2 = Some (b3, Simulator_Ok) \<and>
      replay_loop (fst (simulator_open b3)) [es] = Some b4 \<and>
      simulator_close st pl b4 = Some (b5, Simulator_Ok) \<and>
      drive ops2 (fst (simulator_open b5)) = Some (b6, concat rs) \<and> bs_started b6 = bs_started b4"
proof -
  define b1 where "b1 = fst (simulator_open (configure_simulator b sid name True True re s True sem))"
  have i: "drv_port False b1" "cap_inv (bs_sim b1) []" using configured_open [OF assms(1)] by (simp_all add: b1_def)
  obtain b2 op where b2: "drive ops1 b1 = Some (b2, concat (map snd ps))" "drv_port op b2" "cap_inv (bs_sim b2) ps"
    using drive_capture [OF assms(5) i assms(3)] assms(4) by auto
  obtain b3 where b3: "simulator_close st pl b2 = Some (b3, Simulator_Ok)" "replay_mode (fst (simulator_open b3)) ps"
    "merged_wf (bs_sim (fst (simulator_open b3))) ps" "pt_timeout (bs_port (fst (simulator_open b3))) = 2000"
    "byte_buffers (fst (simulator_open b3))"
    using close_captured [OF b2(2,3) assms(2)] by blast
  define b3' where "b3' = fst (simulator_open b3)"
  have d: "list_all duplex ps" using b3(3) by (simp add: merged_wf_def)
  have cl: "length (concat rs) = length (concat (map fst ps))"
    using assms(6) d by (induction rule: list_all2_induct) (simp_all add: duplex_def)
  have ml: "si_merged_length (bs_sim b3') = length (concat rs)" using b3(3) cl by (simp add: merged_wf_def b3'_def)
  have mle: "si_merged_length (bs_sim b3') \<le> MAX_MERGED_SIZE" using b3(3) by (simp add: merged_wf_def b3'_def)
  have rm: "replay_mode b3' ps" "merged_wf (bs_sim b3') ps" using b3 by (simp_all add: b3'_def)
  obtain b4 where b4: "replay_loop b3' [es] = Some b4" "bs_attached b4" "si_port (bs_sim b4)"
    "si_mode (bs_sim b4) = Simulator_Replay" "port_idle b4" "simulator_should_replay_merged_trail (bs_sim b4)"
    "trail_at (bs_sim b4) ps 0" "si_merged_length (bs_sim b4) = length (concat rs)"
    "take (length (concat rs)) (si_merged_rx (bs_sim b4)) = concat rs"
    "pt_timeout (bs_port b4) = 2000" "byte_buffers b4"
    using merged_transfer [OF rm assms(7) ml [symmetric]] ml b3(4,5) unfolding b3'_def by auto
  have le: "si_merged_length (bs_sim b4) \<le> MAX_MERGED_SIZE" using b4(8) ml mle by simp
  have pl: "idle_polls st (pt_timeout (bs_port b4)) pl" using assms(8) b4(10) by simp
  obtain b5 where b5: "simulator_close st pl b4 = Some (b5, Simulator_Ok)" "replay_closed b5 (map2 set_rx ps rs)"
    "bs_started b5 = bs_started b4" "byte_buffers b5" "pt_timeout (bs_port b5) = 2000"
    using close_merged [OF b4(2-8) le assms(6) b4(9) pl] b4(10,11) by auto
  have o: "trail_at (bs_sim (fst (simulator_open b5))) ([] @ map2 set_rx ps rs) (length ([] :: command list))"
    using open_simulate(3) [OF b5(2,4,5)] by simp
  have snds: "concat (map snd (map2 set_rx ps rs)) = concat rs"
    using assms(6) by (induction rule: list_all2_induct) (simp_all add: set_rx_def)
  obtain b6 where "drive ops2 (fst (simulator_open b5)) = Some (b6, concat rs)"
    "bs_started b6 = bs_started (fst (simulator_open b5))"
    using drive_simulate [OF assms(9) open_simulate(1,2) [OF b5(2,4,5)] o] snds by auto
  then show ?thesis
    using b2(1) b3(1) b4(1) b5(1,3) open_simulate(4) [OF b5(2,4,5)]
    unfolding b1_def [symmetric] b3'_def Let_def by auto
qed

text \<open>A driver that reads two registers in one transaction.\<close>

definition demo_ops :: "(u8 \<Rightarrow> Poll list) \<Rightarrow> drv_op list" where
  "demo_ops polls = [Begin 500000 1 0, Byte 0xF7 0 (polls 0x11), Byte 0x00 0 (polls 0x22),
     End 0 [demo_poll [] 0, demo_poll [] 1, demo_poll [] 2]]"

lemma capture_replay_simulate_witness:
  "\<exists>b5 b6. drive (demo_ops (\<lambda>_. [demo_poll [] 0, demo_poll [] 1, demo_poll [] 2])) (fst (simulator_open b5)) =
     Some (b6, [0x33, 0x44])"
proof -
  have idle: "idle_polls 0 2000 [demo_poll [] 0, demo_poll [] 1, demo_poll [] 2]"
    by (simp add: idle_polls_def diff_ticks_def)
  have fresh: "fresh_bus (demo_bus\<lparr>bs_tx_dma := dma_reset, bs_rx_dma := dma_reset\<rparr>)"
    by (simp add: fresh_bus_def demo_bus_def demo_port_def demo_simulator_def byte_buffers_def port_idle_def dma_reset_def)
  show ?thesis
    using capture_replay_simulate [OF fresh, of demo_trail "demo_ops demo_answer" "[[0x33], [0x44]]"
        "demo_events [0x33, 0x44]" 0 "[demo_poll [] 0, demo_poll [] 1, demo_poll [] 2]"
        "demo_ops (\<lambda>_. [demo_poll [] 0, demo_poll [] 1, demo_poll [] 2])" 1 "Some ''tmp''" True True 5]
    by (auto simp: demo_trail_def demo_ops_def demo_answers demo_event_answers idle cmd_nonempty_def set_rx_def Let_def
        simp del: drive.simps)
qed

end
