(* ===== verification/SpiFaults.thy ===== *)
theory SpiFaults
  imports SpiCycle
begin

text \<open>
  The configuration of a SPI port and the ways an exchange goes wrong: a sensor that does not answer, a driver
  that leaves the captured sequence, and the merged trail after such a mismatch.
\<close>

section \<open>Baud rate\<close>

definition descending :: "nat \<Rightarrow> (nat \<times> u32 \<times> u32) list \<Rightarrow> bool" where
  "descending i rows \<longleftrightarrow> sorted_wrt (\<lambda>r s. row_freq i s < row_freq i r) rows"

lemma match_rows_best:
  assumes "descending i (row # rows)" "rows \<noteq> []"
  shows "match_rows i speed x rows \<in> set rows \<and>
    (if \<exists>r \<in> set rows. row_freq i r \<le> speed
     then row_freq i (match_rows i speed x rows) \<le> speed \<and>
       (\<forall>r \<in> set rows. row_freq i r \<le> speed \<longrightarrow> row_freq i r \<le> row_freq i (match_rows i speed x rows))
     else match_rows i speed x rows = last rows)"
  using assms
proof (induction rows arbitrary: x row)
  case (Cons r rows)
  show ?case
  proof (cases "row_freq i r \<le> speed")
    case True
    then show ?thesis using Cons.prems(1) by (auto simp: descending_def dest: less_imp_le)
  next
    case False
    show ?thesis
    proof (cases "rows = []")
      case True
      then show ?thesis using False by simp
    next
      case rows: False
      have "descending i (r # rows)" using Cons.prems(1) by (simp add: descending_def)
      from Cons.IH [OF this rows, of r] show ?thesis using False rows by (auto split: if_splits)
    qed
  qed
qed simp

text \<open>
  The baud rate is the fastest one of the table that does not exceed the speed the driver asked for, and
  the slowest one when the driver asks for less than that.
\<close>

theorem baudrate_best:
  "match_baudrate p \<in> set baudrateDivisors \<and>
   (if \<exists>r \<in> set baudrateDivisors. row_freq (pt_id p) r \<le> pt_speedMaximum p
    then row_freq (pt_id p) (match_baudrate p) \<le> pt_speedMaximum p \<and>
      \<not> (\<exists>r \<in> set baudrateDivisors. row_freq (pt_id p) r \<le> pt_speedMaximum p \<and>
           row_freq (pt_id p) (match_baudrate p) < row_freq (pt_id p) r)
    else match_baudrate p = last baudrateDivisors)"
proof -
  let ?first = "(1, 72000000, 72000000) :: nat \<times> u32 \<times> u32"
  have d: "descending (pt_id p) (?first # baudrateDivisors)"
    by (simp add: descending_def baudrateDivisors_def row_freq_def)
  have "baudrateDivisors \<noteq> []" by (simp add: baudrateDivisors_def)
  from match_rows_best [OF d this, of "pt_speedMaximum p" "hd baudrateDivisors"]
  show ?thesis unfolding match_baudrate_def [symmetric]
    by (auto simp: not_less split: if_splits)
qed

section \<open>Interrupt dispatch\<close>

text \<open>
  After the first \<^verbatim>\<open>spi_setup\<close> every DMA interrupt reaches the port it belongs to and no other: channels
  2 and 3 are the receive and transmit channels of SPI1, channels 4 and 5 those of SPI2, and no other channel
  belongs to a port.
\<close>

theorem dma_dispatch:
  assumes "sy_firstTime sy" "sy_ports sy = [b1, b2]" "spi_setup sy SPI1 = (sy', r)"
  shows "r = Some 0 \<and> length (sy_ports sy') = 2 \<and>
    (\<exists>p1 p2. sy_ports sy' = [p1, p2] \<and> pt_SPIx (bs_port p1) = SPI1 \<and> pt_SPIx (bs_port p2) = SPI2 \<and>
      sy_ports (dma_isr 2 fl sy') = [handle_rx_interrupt fl p1, p2] \<and>
      sy_ports (dma_isr 3 fl sy') = [handle_tx_interrupt fl p1, p2] \<and>
      sy_ports (dma_isr 4 fl sy') = [p1, handle_rx_interrupt fl p2] \<and>
      sy_ports (dma_isr 5 fl sy') = [p1, handle_tx_interrupt fl p2]) \<and>
    (findPortByDMA sy' 1 channel = None \<or> channel \<in> {2, 3, 4, 5})"
  using assms
  by (auto simp: spi_setup_def spi_init_port_def upd_port_def Let_def GPIO_def DMA_def dma_isr_def on_port_def
      findPortByDMA_def split: if_splits)

definition demo_system :: SpiSystem where
  "demo_system = \<lparr>sy_ports = [demo_bus, demo_bus], sy_firstTime = True, sy_current = 0, sy_clocks = []\<rparr>"

lemma dma_dispatch_witness: "length (sy_ports (fst (spi_setup demo_system SPI1))) = 2"
  using dma_dispatch [of demo_system demo_bus demo_bus "fst (spi_setup demo_system SPI1)" "snd (spi_setup demo_system SPI1)"
      complete_flags 7]
  by (simp add: demo_system_def)

section \<open>A sensor that does not answer\<close>

lemma no_events: "list_all (\<lambda>p. pl_events p = []) ps \<Longrightarrow> concat (map pl_events ps) = []"
  by (induction ps) simp_all

text \<open>
  C28. A timeout is not reported to the driver: when the sensor never answers, \<^verbatim>\<open>spi_transceive_wait\<close> still
  returns success, and the byte the driver reads is the filler 0x22 of the receive buffer.
\<close>

theorem timeout_reads_filler:
  assumes "bs_open b" "byte_buffers b" "real_transfer b" "\<not> (bs_attached b \<and> si_mode (bs_sim b) = Simulator_Capture)"
    and "list_all (\<lambda>p. pl_events p = []) ps" "p \<in> set ps" "expired start b p"
  shows "\<exists>b'. transfer_port start ps data b = Some (b', 0x22) \<and> pt_failCode (bs_port b') = SPI_Timeout \<and>
    pt_transceive_status (bs_port b') = TRANS_TIMEOUT"
proof -
  define b0 where "b0 = b\<lparr>bs_client_tx := [data], bs_client_rx := [0x22]\<rparr>"
  define b1 where "b1 = fst (spi_start b0 ClientTx 1 ClientRx 1 None)"
  have st: "spi_transceive b0 ClientTx 1 ClientRx 1 None = Some (b1, SPI_Ok)"
    using assms(3) start_fields(9) [of b0 ClientTx 1 ClientRx 1 None]
    by (auto simp: spi_transceive_def real_transfer_def prod_eq_iff b0_def b1_def)
  have f1: "bs_attached b1 = bs_attached b" "bs_sim b1 = bs_sim b" "bs_client_rx b1 = [0x22]"
    "pt_timeout (bs_port b1) = pt_timeout (bs_port b)"
    by (simp_all add: b1_def start_fields b0_def)
  have "transfer_started b1" using start_started(1) [of b0 1 1 ClientTx ClientRx None] assms(1) by (simp add: b1_def b0_def)
  then have nc: "\<not> spi_is_transceive_complete b1"
    by (simp add: transfer_started_def spi_is_transceive_complete_def)
  obtain early late where ps: "ps = early @ p # late" using assms(6) split_list by metis
  have "expired start b1 p" using assms(7) f1(4) by (simp add: expired_def)
  then obtain met used rest b' where w: "wait_until (\<lambda>_. spi_is_transceive_complete) start ps b1 = Some (met, rest, b')"
    "ps = used @ rest" "b' = bus_events (concat (map pl_events used)) b1" "met \<longrightarrow> spi_is_transceive_complete b'"
    using wait_until_ends [OF ps, of start b1 "\<lambda>_. spi_is_transceive_complete"] by blast
  have ev: "concat (map pl_events used) = []" using no_events [of used] assms(5) w(2) by (simp del: concat_eq_Nil_conv)
  have b': "b' = b1" using w(3) unfolding ev by (simp add: bus_events_def)
  then have sw: "spi_wait start ps b1 = Some (wait_timeout b1)" using w(1,4) nc by (simp add: spi_wait_def)
  define b2 where "b2 = fst (wait_timeout b1)"
  have f2: "bs_attached b2 = bs_attached b" "bs_sim b2 = bs_sim b" "bs_client_rx b2 = [0x22]"
    using f1 by (simp_all add: b2_def wait_timeout_def spi_showError_def upd_port_def)
  have nr: "\<not> (bs_attached b1 \<and> si_mode (bs_sim b1) = Simulator_Replay)"
    using assms(3) f1 by (auto simp: real_transfer_def)
  have "(if bs_attached b1 \<and> si_mode (bs_sim b1) = Simulator_Replay then Some b1
      else map_option fst (spi_wait start ps b1)) = Some b2"
    by (subst if_not_P [OF nr]) (simp add: sw b2_def)
  then have "spi_transceive_wait start ps b0 ClientTx 1 ClientRx 1 = Some (b2, SPI_Ok)"
    unfolding spi_transceive_wait_def st using f2(1,2) assms(4) by auto
  then have "transfer_port start ps data b = Some (b2, 0x22)"
    using assms(2) f2(3) by (simp add: transfer_port_def byte_buffers_def b0_def)
  then show ?thesis using wait_timeout_facts [of b1] by (auto simp: b2_def)
qed

lemma timeout_reads_filler_witness:
  "\<exists>b'. transfer_port 0 [late_poll 5, late_poll 2001] 0xD0 demo_bus = Some (b', 0x22)"
  using timeout_reads_filler [of demo_bus "[late_poll 5, late_poll 2001]" "late_poll 2001" 0 "0xD0"]
  by (auto simp: demo_bus_def demo_port_def byte_buffers_def real_transfer_def expired_def diff_ticks_def)

section \<open>A driver that leaves the captured sequence\<close>

text \<open>
  When a driver sends a byte other than the captured one, the simulation is given up: the simulator enters
  Mismatch mode, the byte really goes out, and the driver receives the sensor's own answer.
\<close>

theorem mismatch_transfers:
  assumes "bs_attached b" "si_mode (bs_sim b) = Simulator_Simulate" "trail_at (bs_sim b) ps k" "k < length ps"
    and "ps ! k = ([d], [r0])" "d \<noteq> data" "byte_buffers b" "bs_open b"
    and "answers start (pt_timeout (bs_port b)) [r] polls"
  shows "\<exists>b'. transfer_port start polls data b = Some (b', r) \<and>
    bs_started b' = bs_started b @ [([data], 1)] \<and> si_mode (bs_sim b') = Simulator_Mismatch"
proof -
  define b0 where "b0 = b\<lparr>bs_client_tx := [data], bs_client_rx := [0x22]\<rparr>"
  define sim where "sim = (bs_sim b)\<lparr>si_index := length (enc (take (Suc k) ps)), si_mode := Simulator_Mismatch\<rparr>"
  define bm where "bm = b\<lparr>bs_sim := sim\<rparr>"
  have nx: "next_command (bs_sim b) = ((bs_sim b)\<lparr>si_index := length (enc (take (Suc k) ps))\<rparr>, 1,
      Some (si_index (bs_sim b) + 1), 1, Some (si_index (bs_sim b) + 3))"
    and tx: "slice (si_trail (bs_sim b)) (si_index (bs_sim b) + 1) 1 = [d]"
    using next_command_some [OF assms(3,4,5)] by (simp_all add: eval_nat_numeral)
  have rt: "real_transfer bm" by (simp add: real_transfer_def bm_def sim_def)
  have bm: "bs_open bm" "byte_buffers bm" "answers start (pt_timeout (bs_port bm)) [r] polls"
    using assms(7,8,9) by (simp_all add: bm_def byte_buffers_def)
  obtain b' where b': "transfer_port start polls data bm = Some (b', r)" "bs_started b' = bs_started b @ [([data], 1)]"
    "bs_sim b' = sim"
    using transfer_answered_lemma [OF bm(1,2) rt bm(3), of data] by (auto simp: bm_def sim_def)
  have swap: "b\<lparr>bs_client_tx := [data], bs_client_rx := [0x22], bs_sim := sim\<rparr> =
      bm\<lparr>bs_client_tx := [data], bs_client_rx := [0x22]\<rparr>"
    unfolding bm_def by (cases b) simp
  have eq: "spi_transceive b0 ClientTx 1 ClientRx 1 None =
      spi_transceive (bm\<lparr>bs_client_tx := [data], bs_client_rx := [0x22]\<rparr>) ClientTx 1 ClientRx 1 None"
    using assms(1,2,6) nx tx swap
    by (simp add: spi_transceive_def spi_simulate_def spi_simulate_error_def b0_def upd_sim_def sim_def)
      (simp add: bm_def sim_def)
  have "transfer_port start polls data b = transfer_port start polls data bm"
    using assms(7) eq by (simp add: transfer_port_def spi_transceive_wait_def byte_buffers_def b0_def) (simp add: bm_def)
  then show ?thesis using b' by (intro exI [of _ b']) (simp add: sim_def)
qed

lemma mismatch_transfers_witness:
  "\<exists>b'. transfer_port 0 (demo_answer 0x60) 0xD0
     (demo_bus\<lparr>bs_attached := True, bs_sim := demo_simulator\<lparr>si_mode := Simulator_Simulate, si_length := 4,
        si_trail := [1, 0xF7, 1, 0x50] @ replicate 60 0\<rparr>\<rparr>) = Some (b', 0x60) \<and>
     si_mode (bs_sim b') = Simulator_Mismatch"
  using mismatch_transfers [of "demo_bus\<lparr>bs_attached := True, bs_sim := demo_simulator\<lparr>si_mode := Simulator_Simulate,
        si_length := 4, si_trail := [1, 0xF7, 1, 0x50] @ replicate 60 0\<rparr>\<rparr>" "[([0xF7], [0x50])]" 0 "0xF7" "0x50" "0xD0"
      0 "0x60" "demo_answer 0x60"] demo_answers [of "0x60"]
  by (auto simp: demo_bus_def demo_port_def demo_simulator_def trail_at_def trail_wf_def cmd_nonempty_def byte_buffers_def)

section \<open>The merged trail after a mismatch\<close>

text \<open>
  The close after a mismatch empties the trail but not the merged buffers, so the next capture appends to
  what an earlier one left there. The merged replay then sends the stale bytes first, and its answer to a stale byte is
  filed as the answer to the first captured command.
\<close>

theorem stale_merge:
  assumes "si_mode sim = Simulator_Mismatch" "si_merge_enabled sim" "length (si_trail sim) = MAX_TRAIL_SIZE"
    and "length (si_merged_tx sim) = MAX_MERGED_SIZE" "length (si_merged_rx sim) = MAX_MERGED_SIZE"
    and "0 < si_merged_length sim" "si_merged_length sim < MAX_MERGED_SIZE"
    and "length answer = si_merged_length sim + 1"
  shows "let n = si_merged_length sim; sim2 = capture_merged ((next_mode sim)\<lparr>si_index := 0\<rparr>) ([d], [r]) in
    trail_at sim2 [([d], [r])] 1 \<and> si_merged_length sim2 = n + 1 \<and>
    take (n + 1) (si_merged_tx sim2) = take n (si_merged_tx sim) @ [d] \<and>
    (\<exists>sim3. split_loop (sim2\<lparr>si_index := 0, si_merged_rx := blit (si_merged_rx sim2) 0 answer\<rparr>) 0 = (sim3, SPI_Ok) \<and>
       trail_at sim3 [([d], [hd answer])] 1)"
proof -
  define n where "n = si_merged_length sim"
  define s0 where "s0 = (next_mode sim)\<lparr>si_index := 0\<rparr>"
  define s1 where "s1 = capture_command s0 ([d], [r])"
  have f0: "si_mode s0 = Simulator_Capture" "si_merged_length s0 = n" "si_merged_tx s0 = si_merged_tx sim"
    "si_merged_rx s0 = si_merged_rx sim" "length (si_trail s0) = MAX_TRAIL_SIZE" "si_length s0 = 0" "si_index s0 = 0"
    using assms(1,3) by (simp_all add: s0_def next_mode_def n_def)
  have "trail_holds s0 [] (length ([] :: command list))"
    using f0 by (simp add: trail_holds_def trail_at_def trail_wf_def)
  from trail.capture [OF this, of "([d], [r])"]
  have h: "trail_holds s1 [([d], [r])] 1" by (simp add: s1_def trail_fits_def cmd_nonempty_def)
  have f1: "si_merged_tx s1 = si_merged_tx sim" "si_merged_rx s1 = si_merged_rx sim" "si_merged_length s1 = n"
    by (simp_all add: s1_def capture_command_frame f0)
  define s2 where "s2 = s1\<lparr>si_merged_tx := blit (si_merged_tx sim) n [d], si_merged_rx := blit (si_merged_rx sim) n [r],
      si_merged_length := n + 1\<rparr>"
  have "si_mode s1 = Simulator_Capture" using h by (simp add: trail_holds_def)
  then have s2: "capture_merged s0 ([d], [r]) = s2"
    using assms(7) f1 unfolding capture_merged_def s1_def [symmetric]
    by (simp add: simulator_merge_packet_def s2_def n_def)
  have at2: "trail_at s2 [([d], [r])] 1" using h by (simp add: s2_def trail_holds_def trail_at_def trail_wf_def)
  have tk: "take (n + 1) (si_merged_tx s2) = take n (si_merged_tx sim) @ [d]"
    using take_blit_upto [of n "si_merged_tx sim" "[d]"] assms(4,7) by (simp add: s2_def n_def)
  define s3 where "s3 = s2\<lparr>si_index := 0, si_merged_rx := blit (si_merged_rx s2) 0 answer\<rparr>"
  obtain a rest where a: "answer = a # rest" using assms(8) by (cases answer) auto
  have at3: "trail_at s3 ([] @ [([d], [r])]) (length ([] :: command list))"
    using at2 by (simp add: s3_def trail_at_def trail_wf_def)
  have "slice (si_merged_rx s3) 0 1 = [a]"
    using take_blit_upto [of 0 "si_merged_rx s2" answer] a by (simp add: s3_def slice_def blit_def)
  then obtain s4 where "split_loop s3 0 = (s4, SPI_Ok)" "trail_at s4 [([d], [a])] 1"
    using split_loop_all [OF at3, of "[[a]]" 0] assms(7) by (auto simp: s3_def s2_def n_def set_rx_def)
  then show ?thesis
    using s2 at2 tk a unfolding s0_def [symmetric] n_def [symmetric] Let_def by (auto simp: s3_def s2_def)
qed

lemma stale_merge_witness:
  "\<exists>sim3. trail_at sim3 [([0xF7], [0x11])] 1"
  using stale_merge [of "demo_simulator\<lparr>si_mode := Simulator_Mismatch, si_merge_enabled := True, si_merged_length := 1\<rparr>"
      "[0x11, 0x22]" "0xF7" "0x50"]
  by (auto simp: demo_simulator_def Let_def)

end
