(* ===== verification/MsgQueue.thy ===== *)
theory MsgQueue
  imports Prelude
begin

text \<open>
  The message queues of the cocoOS kernel (\<^verbatim>\<open>lib/cocoOS_5.0.3/src/os_msgqueue.c\<close>): a ring buffer of messages of
  fixed size, each with a delay in ticks and a reload value for periodic messages. Positions are numbers below
  the size of the queue; a message is a record with a body of any type. The refinement at the end relates
  the ring buffer to the list of its messages, which is the interface \<open>task_queue\<close> the kernel uses.
\<close>

section \<open>Messages and queues\<close>

record 'a Msg_t =
  mg_delay :: u32
  mg_reload :: u32
  mg_body :: 'a

record 'a OSQueue_t =
  oq_list :: "'a Msg_t list"
  oq_head :: nat
  oq_tail :: nat
  oq_size :: nat

datatype queue_result =
  MSG_QUEUE_UNDEF | MSG_QUEUE_DEF | MSG_QUEUE_EMPTY | MSG_QUEUE_FULL | MSG_QUEUE_RECEIVED | MSG_QUEUE_POSTED

definition queue_create :: "'a Msg_t list \<Rightarrow> 'a OSQueue_t" where
  "queue_create pool = \<lparr>oq_list = pool, oq_head = 1, oq_tail = 0, oq_size = length pool\<rparr>"

text \<open>\<open>succ_pos q i\<close> is the position after \<open>i\<close>.\<close>

definition succ_pos :: "'a OSQueue_t \<Rightarrow> nat \<Rightarrow> nat" where
  "succ_pos q i = Suc i mod oq_size q"

definition queue_push :: "'a OSQueue_t \<Rightarrow> 'a Msg_t \<Rightarrow> 'a OSQueue_t \<times> queue_result" where
  "queue_push q msg =
     (if oq_size q = 0 then (q, MSG_QUEUE_UNDEF)
      else if oq_head q = oq_tail q then (q, MSG_QUEUE_FULL)
      else (q\<lparr>oq_list := poke (oq_list q) (oq_head q) msg, oq_head := succ_pos q (oq_head q)\<rparr>, MSG_QUEUE_POSTED))"

definition post_msg :: "'a Msg_t \<Rightarrow> u32 \<Rightarrow> u32 \<Rightarrow> 'a OSQueue_t \<Rightarrow> 'a OSQueue_t \<times> queue_result" where
  "post_msg msg delay period q = queue_push q (msg\<lparr>mg_delay := delay, mg_reload := period\<rparr>)"

text \<open>
  The loops walk the positions from the tail to the head. \<open>fuel\<close> bounds the number of steps by the size of the
  queue, which every walk of a well-formed queue respects.
\<close>

fun all_delayed :: "nat \<Rightarrow> 'a OSQueue_t \<Rightarrow> nat \<Rightarrow> bool" where
  "all_delayed 0 q i = True"
| "all_delayed (Suc fuel) q i =
     (if i = oq_head q then True
      else if mg_delay (oq_list q ! i) = 0 then False
      else all_delayed fuel q (succ_pos q i))"

definition MsgQAllDelayed :: "'a OSQueue_t \<Rightarrow> bool" where
  "MsgQAllDelayed q = all_delayed (oq_size q) q (succ_pos q (oq_tail q))"

text \<open>A message goes back to the head when it is still delayed, or with its reload value when it is periodic.\<close>

definition put_back :: "'a OSQueue_t \<Rightarrow> 'a Msg_t \<Rightarrow> 'a OSQueue_t" where
  "put_back q msg = q\<lparr>oq_list := poke (oq_list q) (oq_head q) msg, oq_head := succ_pos q (oq_head q)\<rparr>"

fun receive_loop :: "nat \<Rightarrow> 'a OSQueue_t \<Rightarrow> nat \<Rightarrow> ('a OSQueue_t \<times> 'a Msg_t) option" where
  "receive_loop 0 q i = None"
| "receive_loop (Suc fuel) q i =
     (let i = succ_pos q i;
          msg = oq_list q ! i;
          periodic = mg_reload msg > 0
      in if mg_delay msg = 0
         then let msg = (if periodic then msg\<lparr>mg_delay := mg_reload msg\<rparr> else msg);
                  q = (if periodic then put_back q msg else q)
              in Some (q\<lparr>oq_tail := i\<rparr>, msg)
         else receive_loop fuel (put_back q msg) i)"

definition receive_msg :: "'a OSQueue_t \<Rightarrow> 'a OSQueue_t \<times> 'a Msg_t option \<times> queue_result" where
  "receive_msg q =
     (if succ_pos q (oq_tail q) = oq_head q then (q, None, MSG_QUEUE_EMPTY)
      else if MsgQAllDelayed q then (q, None, MSG_QUEUE_EMPTY)
      else (case receive_loop (oq_size q) q (oq_tail q) of
              None \<Rightarrow> (q, None, MSG_QUEUE_EMPTY)
            | Some (q, msg) \<Rightarrow> (q, Some msg, MSG_QUEUE_RECEIVED)))"

text \<open>A tick of the master clock. The number says how often the change event is signalled.\<close>

fun tick_loop :: "nat \<Rightarrow> 'a OSQueue_t \<Rightarrow> nat \<Rightarrow> 'a OSQueue_t \<times> nat" where
  "tick_loop 0 q i = (q, 0)"
| "tick_loop (Suc fuel) q i =
     (if i = oq_head q then (q, 0)
      else
        let msg = oq_list q ! i
        in if mg_delay msg > 0
           then let (q, n) = tick_loop fuel (q\<lparr>oq_list := poke (oq_list q) i (msg\<lparr>mg_delay := mg_delay msg - 1\<rparr>)\<rparr>)
                               (succ_pos q i)
                in (q, if mg_delay msg - 1 = 0 then Suc n else n)
           else tick_loop fuel q (succ_pos q i))"

definition tick_queue :: "'a OSQueue_t \<Rightarrow> 'a OSQueue_t \<times> nat" where
  "tick_queue q = tick_loop (oq_size q) q (succ_pos q (oq_tail q))"

section \<open>The list of messages in a queue\<close>

definition queue_wf :: "'a OSQueue_t \<Rightarrow> bool" where
  "queue_wf q \<longleftrightarrow> length (oq_list q) = oq_size q \<and> 2 \<le> oq_size q \<and> oq_head q < oq_size q \<and> oq_tail q < oq_size q"

definition pending_from :: "'a OSQueue_t \<Rightarrow> nat \<Rightarrow> nat" where
  "pending_from q i = (oq_head q + oq_size q - i - 1) mod oq_size q"

definition contents_from :: "'a OSQueue_t \<Rightarrow> nat \<Rightarrow> 'a Msg_t list" where
  "contents_from q i = map (\<lambda>k. oq_list q ! ((i + 1 + k) mod oq_size q)) [0..<pending_from q i]"

definition contents :: "'a OSQueue_t \<Rightarrow> 'a Msg_t list" where
  "contents q = contents_from q (oq_tail q)"

definition capacity :: "'a OSQueue_t \<Rightarrow> nat" where
  "capacity q = oq_size q - 1"

lemma succ_pos_less: "queue_wf q \<Longrightarrow> succ_pos q i < oq_size q"
  by (simp add: queue_wf_def succ_pos_def)

lemma mod_cases: "(i::nat) < n \<Longrightarrow> Suc i mod n = (if Suc i = n then 0 else Suc i)"
  by simp

lemma pending_cases:
  "queue_wf q \<Longrightarrow> i < oq_size q \<Longrightarrow>
    pending_from q i = (if oq_head q \<le> i then oq_head q + oq_size q - i - 1 else oq_head q - i - 1)"
  by (auto simp: pending_from_def queue_wf_def mod_if)

lemma pending_0: "queue_wf q \<Longrightarrow> i < oq_size q \<Longrightarrow> pending_from q i = 0 \<longleftrightarrow> succ_pos q i = oq_head q"
  by (auto simp: pending_cases succ_pos_def queue_wf_def mod_cases)

lemma pending_Suc:
  "queue_wf q \<Longrightarrow> i < oq_size q \<Longrightarrow> succ_pos q i \<noteq> oq_head q \<Longrightarrow>
    pending_from q i = Suc (pending_from q (succ_pos q i))"
  by (auto simp: pending_cases succ_pos_def queue_wf_def mod_cases)

lemma pending_full: "queue_wf q \<Longrightarrow> i < oq_size q \<Longrightarrow> pending_from q i = capacity q \<longleftrightarrow> oq_head q = i"
  by (auto simp: pending_cases capacity_def queue_wf_def)

lemma contents_length: "queue_wf q \<Longrightarrow> length (contents q) \<le> capacity q"
  by (auto simp: contents_def contents_from_def pending_cases capacity_def queue_wf_def)

lemma contents_from_Cons:
  assumes "queue_wf q" "i < oq_size q" "succ_pos q i \<noteq> oq_head q"
  shows "contents_from q i = oq_list q ! succ_pos q i # contents_from q (succ_pos q i)"
proof -
  have "(Suc i mod oq_size q + 1 + k) mod oq_size q = (i + 1 + Suc k) mod oq_size q" for k
    using mod_add_left_eq [of "Suc i" "oq_size q" "1 + k"] by (simp add: add_ac)
  then show ?thesis
    unfolding contents_from_def pending_Suc [OF assms] upt_conv_Cons [OF zero_less_Suc] succ_pos_def
    by (simp add: map_Suc_upt [symmetric] del: upt_Suc)
qed

lemma contents_from_Nil: "queue_wf q \<Longrightarrow> i < oq_size q \<Longrightarrow> succ_pos q i = oq_head q \<Longrightarrow> contents_from q i = []"
  using pending_0 [of q i] by (simp add: contents_from_def)

lemma mod_twice: "(x::nat) < 2 * n \<Longrightarrow> x mod n = (if x < n then x else x - n)"
  by (simp add: le_mod_geq)

lemma position:
  "queue_wf q \<Longrightarrow> i < oq_size q \<Longrightarrow> k \<le> pending_from q i \<Longrightarrow>
    (i + 1 + k) mod oq_size q = (if i + 1 + k < oq_size q then i + 1 + k else i + 1 + k - oq_size q)"
  by (rule mod_twice) (auto simp: pending_cases queue_wf_def split: if_splits)

lemma put_back_wf: "queue_wf q \<Longrightarrow> queue_wf (put_back q m)"
  using succ_pos_less [of q] by (auto simp: put_back_def queue_wf_def succ_pos_def poke_in_range)

lemma put_back_pending:
  "queue_wf q \<Longrightarrow> i < oq_size q \<Longrightarrow> oq_head q \<noteq> i \<Longrightarrow> pending_from (put_back q m) i = Suc (pending_from q i)"
  using put_back_wf [of q m]
  by (auto simp: pending_cases put_back_def succ_pos_def queue_wf_def mod_cases split: if_splits)

lemma put_back_contents:
  assumes "queue_wf q" "i < oq_size q" "oq_head q \<noteq> i"
  shows "contents_from (put_back q m) i = contents_from q i @ [m]"
proof -
  let ?n = "oq_size q"
  have hd: "(i + 1 + pending_from q i) mod ?n = oq_head q"
    unfolding position [OF assms(1,2) order.refl] using assms by (auto simp: pending_cases queue_wf_def)
  have ne: "(i + 1 + k) mod ?n \<noteq> oq_head q" if "k < pending_from q i" for k
    unfolding position [OF assms(1,2) less_imp_le [OF that]]
    using that assms by (auto simp: pending_cases queue_wf_def split: if_splits)
  have "oq_list (put_back q m) ! ((i + 1 + k) mod ?n) = oq_list q ! ((i + 1 + k) mod ?n)" if "k < pending_from q i" for k
    using assms(1) ne [OF that] by (simp add: put_back_def poke_in_range queue_wf_def)
  moreover have "oq_list (put_back q m) ! oq_head q = m"
    using assms(1) by (simp add: put_back_def poke_in_range queue_wf_def)
  ultimately show ?thesis
    using put_back_pending [OF assms, of m] hd
    by (simp add: contents_from_def) (simp add: put_back_def)
qed

section \<open>The operations on the list of messages\<close>

abbreviation delayed :: "'a Msg_t \<Rightarrow> bool" where
  "delayed m \<equiv> mg_delay m > 0"

definition delivered :: "'a Msg_t \<Rightarrow> 'a Msg_t" where
  "delivered m = (if mg_reload m > 0 then m\<lparr>mg_delay := mg_reload m\<rparr> else m)"

text \<open>
  What \<open>msg_receive\<close> does to the list: the delayed messages before the first ready one move to its end, and a periodic
  message stays in the queue with its delay reloaded.
\<close>

definition receive_list :: "'a Msg_t list \<Rightarrow> ('a Msg_t \<times> 'a Msg_t list) option" where
  "receive_list ms = (case dropWhile delayed ms of
       [] \<Rightarrow> None
     | m # rest \<Rightarrow> Some (delivered m,
         rest @ takeWhile delayed ms @ (if mg_reload m > 0 then [delivered m] else [])))"

definition tick_msg :: "'a Msg_t \<Rightarrow> 'a Msg_t" where
  "tick_msg m = (if delayed m then m\<lparr>mg_delay := mg_delay m - 1\<rparr> else m)"

lemma word_pos_iff: "(0 < (w::'a::len word)) \<longleftrightarrow> w \<noteq> 0"
  by (rule word_neq_0_conv [symmetric])

lemma put_back_parts [simp]:
  "oq_size (put_back q m) = oq_size q" "oq_tail (put_back q m) = oq_tail q"
  by (simp_all add: put_back_def)

lemma succ_pos_parts [simp]: "succ_pos (put_back q m) i = succ_pos q i" "succ_pos (q\<lparr>oq_tail := j\<rparr>) i = succ_pos q i"
  "succ_pos (q\<lparr>oq_list := l\<rparr>) i = succ_pos q i"
  by (simp_all add: succ_pos_def)

lemma contents_tail: "contents (q\<lparr>oq_tail := i\<rparr>) = contents_from q i"
  by (simp add: contents_def contents_from_def pending_from_def)

lemma all_delayed_contents:
  "queue_wf q \<Longrightarrow> i < oq_size q \<Longrightarrow> pending_from q i < fuel \<Longrightarrow>
    all_delayed fuel q (succ_pos q i) = list_all delayed (contents_from q i)"
proof (induction fuel arbitrary: i)
  case (Suc fuel)
  then show ?case
    using pending_Suc [of q i] succ_pos_less [of q i]
    by (cases "succ_pos q i = oq_head q") (auto simp: contents_from_Nil contents_from_Cons word_pos_iff)
qed simp

lemma pending_less: "queue_wf q \<Longrightarrow> i < oq_size q \<Longrightarrow> pending_from q i < oq_size q"
  by (auto simp: pending_from_def queue_wf_def)

lemma MsgQAllDelayed_contents: "queue_wf q \<Longrightarrow> MsgQAllDelayed q = list_all delayed (contents q)"
  unfolding MsgQAllDelayed_def contents_def
  by (rule all_delayed_contents) (auto simp: queue_wf_def pending_less)

lemma receive_loop_contents:
  assumes "queue_wf q" "i < oq_size q" "contents_from q i = ds @ m # rest" "list_all delayed ds" "\<not> delayed m"
    and "length ds < fuel"
  shows "\<exists>q'. receive_loop fuel q i = Some (q', delivered m) \<and> queue_wf q' \<and> oq_size q' = oq_size q \<and>
    contents q' = rest @ ds @ (if mg_reload m > 0 then [delivered m] else [])"
  using assms
proof (induction ds arbitrary: q i rest fuel)
  case Nil
  obtain f where f: "fuel = Suc f" using Nil by (cases fuel) auto
  let ?i = "succ_pos q i"
  have ne: "?i \<noteq> oq_head q" using Nil contents_from_Nil [of q i] by auto
  then have m: "oq_list q ! ?i = m" "contents_from q ?i = rest"
    using Nil contents_from_Cons [of q i] by auto
  have d: "mg_delay m = 0" using Nil by (simp add: word_pos_iff)
  have i: "?i < oq_size q" using Nil succ_pos_less by blast
  have wf: "queue_wf (p\<lparr>oq_tail := ?i\<rparr>)" if "queue_wf p" "oq_size p = oq_size q" for p :: "'a OSQueue_t"
    using that i by (simp add: queue_wf_def)
  show ?case
    using f m d wf [OF Nil(1)] wf [OF put_back_wf [OF Nil(1)]]
      put_back_contents [OF Nil(1) i ne [symmetric]]
    by (simp add: Let_def delivered_def contents_tail)
next
  case (Cons d ds)
  obtain f where f: "fuel = Suc f" using Cons.prems by (cases fuel) auto
  let ?i = "succ_pos q i"
  have ne: "?i \<noteq> oq_head q" using Cons.prems contents_from_Nil [of q i] by auto
  then have d: "oq_list q ! ?i = d" "contents_from q ?i = ds @ m # rest"
    using Cons.prems contents_from_Cons [of q i] by auto
  have i: "?i < oq_size q" using Cons.prems succ_pos_less by blast
  let ?q = "put_back q d"
  have "contents_from ?q ?i = ds @ m # (rest @ [d])"
    using put_back_contents [OF Cons.prems(1) i ne [symmetric]] d by simp
  from Cons.IH [OF put_back_wf [OF Cons.prems(1)] _ this, of f]
  show ?case using Cons.prems f d i by (auto simp: Let_def word_pos_iff)
qed

lemma receive_msg_contents:
  assumes "queue_wf q"
  shows "case receive_list (contents q) of
      None \<Rightarrow> receive_msg q = (q, None, MSG_QUEUE_EMPTY)
    | Some (m, ms) \<Rightarrow> \<exists>q'. receive_msg q = (q', Some m, MSG_QUEUE_RECEIVED) \<and> queue_wf q' \<and> contents q' = ms \<and>
        oq_size q' = oq_size q"
proof (cases "dropWhile delayed (contents q)")
  case Nil
  then have "list_all delayed (contents q)" by (simp add: list_all_iff dropWhile_eq_Nil_conv)
  then have "receive_msg q = (q, None, MSG_QUEUE_EMPTY)"
    by (simp add: receive_msg_def MsgQAllDelayed_contents [OF assms])
  moreover have "receive_list (contents q) = None" unfolding receive_list_def Nil by simp
  ultimately show ?thesis by simp
next
  case (Cons m rest)
  let ?ds = "takeWhile delayed (contents q)"
  have c: "contents q = ?ds @ m # rest" using Cons takeWhile_dropWhile_id [of delayed "contents q"] by simp
  have m: "\<not> delayed m" using Cons by (metis hd_dropWhile list.distinct(1) list.sel(1))
  have t: "oq_tail q < oq_size q" using assms by (simp add: queue_wf_def)
  have l: "length ?ds < oq_size q"
    using contents_length [OF assms] arg_cong [OF c, of length] assms by (simp add: capacity_def queue_wf_def)
  have ds: "list_all delayed ?ds" by (auto simp: list_all_iff dest: set_takeWhileD)
  have nd: "\<not> list_all delayed (contents q)" using c m by (metis list_all_append list.pred_inject(2))
  have ne: "succ_pos q (oq_tail q) \<noteq> oq_head q"
    using c contents_from_Nil [OF assms t] by (auto simp: contents_def)
  show ?thesis
    using receive_loop_contents [OF assms t c [unfolded contents_def] _ m l [unfolded contents_def]] ds nd ne Cons
    by (auto simp: receive_list_def receive_msg_def MsgQAllDelayed_contents [OF assms] contents_def)
qed

lemma pending_tick [simp]: "pending_from (q\<lparr>oq_list := l\<rparr>) i = pending_from q i"
  by (simp add: pending_from_def)

definition positions :: "'a OSQueue_t \<Rightarrow> nat \<Rightarrow> nat list" where
  "positions q i = map (\<lambda>k. (i + 1 + k) mod oq_size q) [0..<pending_from q i]"

lemma contents_positions: "contents_from q i = map ((!) (oq_list q)) (positions q i)"
  by (simp add: contents_from_def positions_def)

lemma positions_tick [simp]: "positions (q\<lparr>oq_list := l\<rparr>) i = positions q i"
  by (simp add: positions_def)

lemma positions_Cons:
  assumes "queue_wf q" "i < oq_size q" "succ_pos q i \<noteq> oq_head q"
  shows "positions q i = succ_pos q i # positions q (succ_pos q i)"
proof -
  have "(Suc i mod oq_size q + 1 + k) mod oq_size q = (i + 1 + Suc k) mod oq_size q" for k
    using mod_add_left_eq [of "Suc i" "oq_size q" "1 + k"] by (simp add: add_ac)
  then show ?thesis
    unfolding positions_def pending_Suc [OF assms] upt_conv_Cons [OF zero_less_Suc] succ_pos_def
    by (simp add: map_Suc_upt [symmetric] del: upt_Suc)
qed

lemma positions_fresh:
  assumes "queue_wf q" "i < oq_size q"
  shows "i \<notin> set (positions q i)" "p \<in> set (positions q i) \<Longrightarrow> p < oq_size q"
proof -
  have "(i + 1 + k) mod oq_size q \<noteq> i" if "k < pending_from q i" for k
    unfolding position [OF assms less_imp_le [OF that]]
    using that pending_less [OF assms] assms by (auto simp: pending_cases queue_wf_def split: if_splits)
  then show "i \<notin> set (positions q i)" unfolding positions_def by force
  show "p \<in> set (positions q i) \<Longrightarrow> p < oq_size q"
    using assms by (auto simp: positions_def queue_wf_def)
qed

lemma tick_loop_Suc:
  assumes "i < length (oq_list q)" "i \<noteq> oq_head q"
  shows "tick_loop (Suc fuel) q i =
    (let m = oq_list q ! i; (q', n) = tick_loop fuel (q\<lparr>oq_list := (oq_list q)[i := tick_msg m]\<rparr>) (succ_pos q i)
     in (q', if mg_delay m = 1 then Suc n else n))"
  using assms by (auto simp: Let_def tick_msg_def poke_in_range word_pos_iff split: prod.splits)

lemma tick_loop_contents:
  assumes "queue_wf q" "i < oq_size q" "pending_from q i < fuel"
  shows "\<exists>l. tick_loop fuel q (succ_pos q i) =
      (q\<lparr>oq_list := l\<rparr>, length (filter (\<lambda>m. mg_delay m = 1) (contents_from q i))) \<and>
    length l = length (oq_list q) \<and>
    (\<forall>p. l ! p = (if p \<in> set (positions q i) then tick_msg (oq_list q ! p) else oq_list q ! p))"
  using assms
proof (induction fuel arbitrary: q i)
  case (Suc fuel)
  let ?i = "succ_pos q i"
  have i: "?i < oq_size q" using Suc.prems succ_pos_less by blast
  have len: "length (oq_list q) = oq_size q" using Suc.prems by (simp add: queue_wf_def)
  show ?case
  proof (cases "?i = oq_head q")
    case True
    then have "pending_from q i = 0" using pending_0 Suc.prems by blast
    then show ?thesis using True by (intro exI [of _ "oq_list q"]) (simp add: contents_positions positions_def)
  next
    case False
    define m where "m = oq_list q ! ?i"
    define q1 where "q1 = q\<lparr>oq_list := (oq_list q)[?i := tick_msg m]\<rparr>"
    have wf1: "queue_wf q1" using Suc.prems(1) by (simp add: q1_def queue_wf_def)
    have pend: "pending_from q1 ?i < fuel" using Suc.prems pending_Suc [OF Suc.prems(1,2) False] by (simp add: q1_def)
    note fresh = positions_fresh [OF Suc.prems(1) i]
    have same: "contents_from q1 ?i = contents_from q ?i"
      unfolding contents_positions q1_def using fresh(1)
      by simp (metis nth_list_update_neq)
    have "succ_pos q1 ?i = succ_pos q ?i" by (simp add: q1_def)
    then obtain l where l: "tick_loop fuel q1 (succ_pos q ?i) =
        (q1\<lparr>oq_list := l\<rparr>, length (filter (\<lambda>m. mg_delay m = 1) (contents_from q ?i)))"
      "length l = length (oq_list q1)"
      "\<forall>p. l ! p = (if p \<in> set (positions q1 ?i) then tick_msg (oq_list q1 ! p) else oq_list q1 ! p)"
      using Suc.IH [OF wf1 _ pend] i same by (auto simp: q1_def)
    have "tick_loop (Suc fuel) q ?i =
        (q\<lparr>oq_list := l\<rparr>, length (filter (\<lambda>m. mg_delay m = 1) (contents_from q i)))"
      using tick_loop_Suc [of ?i q fuel] i len False l(1) contents_from_Cons [OF Suc.prems(1,2) False]
      by (simp add: q1_def m_def Let_def)
    moreover have "l ! p = (if p \<in> set (positions q i) then tick_msg (oq_list q ! p) else oq_list q ! p)" for p
      using l(3) fresh i len positions_Cons [OF Suc.prems(1,2) False]
      by (auto simp: q1_def m_def nth_list_update)
    ultimately show ?thesis using l(2) by (auto simp: q1_def)
  qed
qed simp

lemma tick_queue_contents:
  assumes "queue_wf q"
  shows "\<exists>q'. tick_queue q = (q', length (filter (\<lambda>m. mg_delay m = 1) (contents q))) \<and> queue_wf q' \<and>
    contents q' = map tick_msg (contents q) \<and> oq_size q' = oq_size q"
proof -
  have t: "oq_tail q < oq_size q" using assms by (simp add: queue_wf_def)
  from tick_loop_contents [OF assms t pending_less [OF assms t]] show ?thesis
    using assms unfolding tick_queue_def contents_def
    by (auto simp: contents_positions queue_wf_def)
qed

lemma post_msg_contents:
  assumes "queue_wf q"
  shows "post_msg m d r q =
    (if length (contents q) = capacity q then (q, MSG_QUEUE_FULL)
     else (put_back q (m\<lparr>mg_delay := d, mg_reload := r\<rparr>), MSG_QUEUE_POSTED))"
    and "length (contents q) \<noteq> capacity q \<Longrightarrow> contents (put_back q m) = contents q @ [m]"
proof -
  have full: "length (contents q) = capacity q \<longleftrightarrow> oq_head q = oq_tail q"
    using pending_full [OF assms, of "oq_tail q"] assms by (simp add: contents_def contents_from_def queue_wf_def)
  show "post_msg m d r q =
    (if length (contents q) = capacity q then (q, MSG_QUEUE_FULL)
     else (put_back q (m\<lparr>mg_delay := d, mg_reload := r\<rparr>), MSG_QUEUE_POSTED))"
    using full assms by (auto simp: post_msg_def queue_push_def put_back_def queue_wf_def)
  show "length (contents q) \<noteq> capacity q \<Longrightarrow> contents (put_back q m) = contents q @ [m]"
    using full put_back_contents [OF assms, of "oq_tail q" m] assms by (simp add: contents_def queue_wf_def)
qed

section \<open>The interface of a task's queue\<close>

text \<open>
  A queue of bounded size, seen through the list of its messages. The laws say what one operation of the kernel does to
  this list; the lemmas follow for every sequence of operations.
\<close>

locale task_queue =
  fixes wf :: "'q \<Rightarrow> bool"
    and msgs :: "'q \<Rightarrow> 'a Msg_t list"
    and cap :: "'q \<Rightarrow> nat"
    and post :: "'a Msg_t \<Rightarrow> u32 \<Rightarrow> u32 \<Rightarrow> 'q \<Rightarrow> 'q \<times> queue_result"
    and receive :: "'q \<Rightarrow> 'q \<times> 'a Msg_t option \<times> queue_result"
    and tick :: "'q \<Rightarrow> 'q \<times> nat"
  assumes bounded: "wf q \<Longrightarrow> length (msgs q) \<le> cap q"
    and post_full: "wf q \<Longrightarrow> length (msgs q) = cap q \<Longrightarrow> post m d r q = (q, MSG_QUEUE_FULL)"
    and post_room: "wf q \<Longrightarrow> length (msgs q) \<noteq> cap q \<Longrightarrow>
      \<exists>q'. post m d r q = (q', MSG_QUEUE_POSTED) \<and> wf q' \<and> cap q' = cap q \<and>
        msgs q' = msgs q @ [m\<lparr>mg_delay := d, mg_reload := r\<rparr>]"
    and receive_none: "wf q \<Longrightarrow> receive_list (msgs q) = None \<Longrightarrow> receive q = (q, None, MSG_QUEUE_EMPTY)"
    and receive_some: "wf q \<Longrightarrow> receive_list (msgs q) = Some (m, ms) \<Longrightarrow>
      \<exists>q'. receive q = (q', Some m, MSG_QUEUE_RECEIVED) \<and> wf q' \<and> cap q' = cap q \<and> msgs q' = ms"
    and tick_all: "wf q \<Longrightarrow> \<exists>q'. tick q = (q', length (filter (\<lambda>m. mg_delay m = 1) (msgs q))) \<and> wf q' \<and>
      cap q' = cap q \<and> msgs q' = map tick_msg (msgs q)"

datatype 'a queue_op = Post "'a Msg_t" u32 u32 | Receive | Tick

text \<open>The result of a sequence of operations: the messages received and whether each post was accepted.\<close>

fun list_run :: "nat \<Rightarrow> 'a queue_op list \<Rightarrow> 'a Msg_t list \<Rightarrow> 'a Msg_t list \<times> 'a Msg_t list \<times> bool list" where
  "list_run n [] ms = (ms, [], [])"
| "list_run n (Post m d r # ops) ms =
     (if length ms = n then let (ms', out, acc) = list_run n ops ms in (ms', out, False # acc)
      else let (ms', out, acc) = list_run n ops (ms @ [m\<lparr>mg_delay := d, mg_reload := r\<rparr>]) in (ms', out, True # acc))"
| "list_run n (Receive # ops) ms =
     (case receive_list ms of
        None \<Rightarrow> list_run n ops ms
      | Some (m, ms) \<Rightarrow> let (ms', out, acc) = list_run n ops ms in (ms', m # out, acc))"
| "list_run n (Tick # ops) ms = list_run n ops (map tick_msg ms)"

primrec queue_run_with ::
  "('a Msg_t \<Rightarrow> u32 \<Rightarrow> u32 \<Rightarrow> 'q \<Rightarrow> 'q \<times> queue_result) \<Rightarrow> ('q \<Rightarrow> 'q \<times> 'a Msg_t option \<times> queue_result) \<Rightarrow> ('q \<Rightarrow> 'q \<times> nat)
    \<Rightarrow> 'a queue_op list \<Rightarrow> 'q \<Rightarrow> 'q \<times> 'a Msg_t list \<times> bool list" where
  "queue_run_with post receive tick [] q = (q, [], [])"
| "queue_run_with post receive tick (x # ops) q =
     (case x of
        Post m d r \<Rightarrow>
          let (q, res) = post m d r q; (q', out, acc) = queue_run_with post receive tick ops q
          in (q', out, (res = MSG_QUEUE_POSTED) # acc)
      | Receive \<Rightarrow>
          let (q, m, res) = receive q; (q', out, acc) = queue_run_with post receive tick ops q
          in (q', (case m of None \<Rightarrow> out | Some m \<Rightarrow> m # out), acc)
      | Tick \<Rightarrow> queue_run_with post receive tick ops (fst (tick q)))"

context task_queue
begin

lemma run_refines:
  assumes "wf q"
  shows "\<exists>q'. queue_run_with post receive tick ops q =
      (q', snd (list_run (cap q) ops (msgs q))) \<and> wf q' \<and> cap q' = cap q \<and>
      msgs q' = fst (list_run (cap q) ops (msgs q))"
  using assms
proof (induction ops arbitrary: q)
  case (Cons x ops)
  show ?case
  proof (cases x)
    case (Post m d r)
    show ?thesis
    proof (cases "length (msgs q) = cap q")
      case True
      then show ?thesis using Cons.IH [OF Cons.prems] post_full [OF Cons.prems True] Post
        by (auto simp: split_beta)
    next
      case False
      obtain p where p: "post m d r q = (p, MSG_QUEUE_POSTED)" "wf p" "cap p = cap q"
        "msgs p = msgs q @ [m\<lparr>mg_delay := d, mg_reload := r\<rparr>]"
        using post_room [OF Cons.prems False] by blast
      then show ?thesis using Cons.IH [OF p(2)] False Post by (auto simp: split_beta)
    qed
  next
    case Receive
    show ?thesis
    proof (cases "receive_list (msgs q)")
      case None
      then show ?thesis using Cons.IH [OF Cons.prems] receive_none [OF Cons.prems None] Receive
        by (auto simp: split_beta)
    next
      case (Some a)
      obtain m ms where a: "a = (m, ms)" by (cases a)
      obtain p where p: "receive q = (p, Some m, MSG_QUEUE_RECEIVED)" "wf p" "cap p = cap q" "msgs p = ms"
        using receive_some [OF Cons.prems] Some a by blast
      then show ?thesis using Cons.IH [OF p(2)] Some a Receive by (auto simp: split_beta)
    qed
  next
    case Tick
    obtain p where p: "fst (tick q) = p" "wf p" "cap p = cap q" "msgs p = map tick_msg (msgs q)"
      using tick_all [OF Cons.prems] by fastforce
    then show ?thesis using Cons.IH [OF p(2)] Tick by simp
  qed
qed simp

end

interpretation ring: task_queue queue_wf contents capacity post_msg receive_msg tick_queue
proof (unfold_locales, goal_cases)
  case (1 q)
  then show ?case by (rule contents_length)
next
  case (2 q m d r)
  then show ?case by (simp add: post_msg_contents(1))
next
  case (3 q m d r)
  then show ?case by (simp add: post_msg_contents put_back_wf capacity_def)
next
  case (4 q)
  then show ?case using receive_msg_contents [of q] by simp
next
  case (5 q m ms)
  then show ?case using receive_msg_contents [of q] by (auto simp: capacity_def)
next
  case (6 q)
  then show ?case using tick_queue_contents [of q] by (auto simp: capacity_def)
qed

end
