(* ===== verification/QueueLaws.thy ===== *)
theory QueueLaws
  imports MsgQueue
begin

text \<open>
  The properties of the kernel's message queues: the ring buffer refines a list of messages for every sequence of posts,
  receives and ticks; messages without delay come out in the order they were posted, none lost or repeated;
  and a delayed message is delivered after exactly its delay.
\<close>

definition queue_run :: "'a queue_op list \<Rightarrow> 'a OSQueue_t \<Rightarrow> 'a OSQueue_t \<times> 'a Msg_t list \<times> bool list" where
  "queue_run = queue_run_with post_msg receive_msg tick_queue"

definition demo_msg :: "nat \<Rightarrow> nat Msg_t" where
  "demo_msg n = \<lparr>mg_delay = 0, mg_reload = 0, mg_body = n\<rparr>"

lemma created_wf: "2 \<le> length pool \<Longrightarrow> queue_wf (queue_create pool)"
  by (auto simp: queue_wf_def queue_create_def)

lemma created_contents: "2 \<le> length pool \<Longrightarrow> contents (queue_create pool) = []"
  by (auto simp: contents_def contents_from_def pending_from_def queue_create_def)

definition demo_queue :: "nat OSQueue_t" where
  "demo_queue = queue_create (replicate 3 (demo_msg 0))"

lemma demo_queue [simp]: "queue_wf demo_queue" "contents demo_queue = []" "oq_size demo_queue = 3"
  by (simp_all add: demo_queue_def created_wf created_contents) (simp add: queue_create_def)

text \<open>
  C29. The ring buffer refines the list of its messages: whatever messages are posted, received and ticked, in
  whatever order, the results of all calls are those of the list of bounded length, and so is what is left in the buffer.
\<close>

theorem queue_refines:
  assumes "queue_wf q"
  shows "\<exists>q'. queue_run ops q = (q', snd (list_run (oq_size q - 1) ops (contents q))) \<and> queue_wf q' \<and>
    contents q' = fst (list_run (oq_size q - 1) ops (contents q))"
  using ring.run_refines [OF assms, of ops] by (auto simp: queue_run_def capacity_def)

definition demo_ops :: "nat queue_op list" where
  "demo_ops = [Post (demo_msg 1) 2 0, Post (demo_msg 2) 0 0, Post (demo_msg 3) 0 0, Receive, Tick, Tick, Receive]"

lemma demo_run: "list_run 2 demo_ops [] = ([], [demo_msg 2, demo_msg 1], [True, True, False])"
  by (simp add: demo_ops_def receive_list_def delivered_def demo_msg_def tick_msg_def)

lemma queue_refines_witness:
  "\<exists>q'. queue_run demo_ops demo_queue = (q', [demo_msg 2, demo_msg 1], [True, True, False]) \<and> contents q' = []"
  using queue_refines [of demo_queue demo_ops] by (auto simp: demo_run)

section \<open>Messages in order\<close>

abbreviation immediate :: "'a Msg_t \<Rightarrow> bool" where
  "immediate m \<equiv> mg_delay m = 0 \<and> mg_reload m = 0"

fun immediate_op :: "'a queue_op \<Rightarrow> bool" where
  "immediate_op (Post m d r) = (d = 0 \<and> r = 0)"
| "immediate_op _ = True"

fun accepted :: "'a queue_op list \<Rightarrow> bool list \<Rightarrow> 'a Msg_t list" where
  "accepted (Post m d r # ops) (b # acc) =
     (if b then m\<lparr>mg_delay := d, mg_reload := r\<rparr> # accepted ops acc else accepted ops acc)"
| "accepted (x # ops) acc = accepted ops acc"
| "accepted [] acc = []"

lemma receive_immediate:
  "list_all immediate ms \<Longrightarrow> receive_list ms = (case ms of [] \<Rightarrow> None | m # ms \<Rightarrow> Some (m, ms))"
  by (cases ms) (simp_all add: receive_list_def delivered_def)

lemma tick_immediate: "list_all immediate ms \<Longrightarrow> map tick_msg ms = ms"
  by (induction ms) (simp_all add: tick_msg_def)

lemma list_fifo:
  "list_all immediate ms \<Longrightarrow> list_all immediate_op ops \<Longrightarrow>
    fst (snd (list_run n ops ms)) @ fst (list_run n ops ms) = ms @ accepted ops (snd (snd (list_run n ops ms)))"
proof (induction n ops ms rule: list_run.induct)
  case (3 n ops ms)
  then show ?case by (cases ms) (auto simp: receive_immediate split_beta)
qed (auto simp: split_beta tick_immediate)

text \<open>
  Messages that are posted without delay are received in the order they were posted, each once: what came out
  followed by what is left is what was there followed by the posts that were accepted.
\<close>

theorem queue_fifo:
  assumes "queue_wf q" "list_all immediate (contents q)" "list_all immediate_op ops"
    and "queue_run ops q = (q', received, acc)"
  shows "received @ contents q' = contents q @ accepted ops acc"
  using ring.run_refines [OF assms(1), of ops] list_fifo [OF assms(2,3), of "capacity q"] assms(4)
  by (auto simp: queue_run_def) (metis fst_conv snd_conv)

definition demo_fifo :: "nat queue_op list" where
  "demo_fifo = [Post (demo_msg 1) 0 0, Receive, Receive, Post (demo_msg 2) 0 0, Post (demo_msg 3) 0 0, Receive]"

lemma queue_fifo_witness:
  "\<exists>q' received. queue_run demo_fifo demo_queue = (q', received, [True, True, True]) \<and>
     received @ contents q' = [demo_msg 1, demo_msg 2, demo_msg 3]"
proof -
  obtain q' out acc where run: "queue_run demo_fifo demo_queue = (q', out, acc)"
    by (cases "queue_run demo_fifo demo_queue")
  have "snd (snd (list_run 2 demo_fifo [])) = [True, True, True]"
    by (simp add: demo_fifo_def receive_list_def demo_msg_def)
  then have "acc = [True, True, True]"
    using ring.run_refines [of demo_queue demo_fifo] run
    by (metis capacity_def demo_queue(1,2,3) diff_Suc_1 numeral_3_eq_3 numeral_2_eq_2 prod.inject prod.collapse queue_run_def)
  then show ?thesis
    using queue_fifo [OF _ _ _ run] run by (simp add: demo_fifo_def demo_msg_def)
qed

section \<open>Delays\<close>

lemma left_0: "of_nat (unat (d :: u32) - k) = (0 :: u32) \<longleftrightarrow> unat d \<le> k"
proof -
  have "unat d - k < 2 ^ LENGTH(32)" by (rule less_imp_diff_less) (rule unsigned_less)
  then have "unat (of_nat (unat d - k) :: u32) = unat d - k" by (simp add: unat_of_nat)
  then show ?thesis by (metis diff_is_0_eq unat_0 unat_eq_0)
qed

lemma tick_down: "(tick_msg ^^ k) (m\<lparr>mg_delay := d\<rparr>) = m\<lparr>mg_delay := of_nat (unat d - k)\<rparr>"
proof (induction k)
  case (Suc k)
  have "(of_nat (unat d - k) :: u32) - 1 = of_nat (unat d - Suc k)" if "k < unat d"
    using that of_nat_diff [of 1 "unat d - k", where ?'a = "32 word"] by simp
  then show ?case
    using Suc left_0 [of d k] by (cases "unat d \<le> k") (auto simp: tick_msg_def word_pos_iff)
qed simp

lemma run_ticks: "list_run n (replicate k Tick @ ops) ms = list_run n ops (map (tick_msg ^^ k) ms)"
proof (induction k arbitrary: ms)
  case (Suc k)
  have "map (tick_msg ^^ k) (map tick_msg ms) = map (tick_msg ^^ Suc k) ms"
    by (induction ms) (simp_all add: funpow_swap1)
  then show ?case using Suc [of "map tick_msg ms"] by (simp only: replicate_Suc append_Cons list_run.simps)
qed simp

text \<open>
  A message posted with a delay is delivered after exactly that many ticks of the master clock: a receive
  before that finds the queue empty, and a receive from then on returns the message.
\<close>

theorem queue_delay:
  assumes "queue_wf q" "contents q = []"
  shows "fst (snd (queue_run (Post m d 0 # replicate k Tick @ [Receive]) q)) =
    (if k < unat d then [] else [m\<lparr>mg_delay := 0, mg_reload := 0\<rparr>])"
proof -
  have n: "capacity q \<noteq> 0" using assms(1) by (simp add: capacity_def queue_wf_def)
  have e: "m\<lparr>mg_delay := d, mg_reload := 0\<rparr> = (m\<lparr>mg_reload := 0\<rparr>)\<lparr>mg_delay := d\<rparr>"
    and f: "(m\<lparr>mg_reload := 0\<rparr>)\<lparr>mg_delay := 0\<rparr> = m\<lparr>mg_delay := 0, mg_reload := 0\<rparr>" by (cases m; simp)+
  have "fst (snd (list_run (capacity q) (Post m d 0 # replicate k Tick @ [Receive]) [])) =
    (if k < unat d then [] else [m\<lparr>mg_delay := 0, mg_reload := 0\<rparr>])"
    using n left_0 [of d k] by (auto simp: run_ticks e tick_down split_beta receive_list_def delivered_def word_pos_iff f)
  then show ?thesis
    using ring.run_refines [OF assms(1), of "Post m d 0 # replicate k Tick @ [Receive]"] assms(2)
    by (auto simp: queue_run_def)
qed

lemma queue_delay_witness:
  "fst (snd (queue_run (Post (demo_msg 1) 2 0 # replicate 1 Tick @ [Receive]) demo_queue)) = [] \<and>
   fst (snd (queue_run (Post (demo_msg 1) 2 0 # replicate 2 Tick @ [Receive]) demo_queue)) = [demo_msg 1]"
  using queue_delay [of demo_queue "demo_msg 1" 2 1] queue_delay [of demo_queue "demo_msg 1" 2 2]
  by (simp add: demo_msg_def del: replicate.simps replicate_Suc)

end
