(* ===== verification/Kernel.thy ===== *)
theory Kernel
  imports QueueLaws
begin

unbundle bit_operations_syntax

text \<open>
  The cocoOS kernel (\<^verbatim>\<open>lib/cocoOS_5.0.3\<close>): tasks, semaphores, events, message queues and the scheduler. The
  arrays of the kernel are lists of the entries created so far, indexed by task id, semaphore, event and queue;
  the sizes of the arrays are those of \<^verbatim>\<open>os_defines.h\<close>. \<open>None\<close> is a failed \<^verbatim>\<open>os_assert\<close>, which stops the
  program. A task procedure is a function on the kernel that runs up to the next place where the task waits; the place
  is the number that \<^verbatim>\<open>OS_SCHEDULE\<close> stores.
\<close>

abbreviation N_TASKS :: nat where "N_TASKS \<equiv> 5"
abbreviation N_QUEUES :: nat where "N_QUEUES \<equiv> 2"
abbreviation N_TOTAL_SEMAPHORES :: nat where "N_TOTAL_SEMAPHORES \<equiv> 12"
abbreviation N_TOTAL_EVENTS :: nat where "N_TOTAL_EVENTS \<equiv> 7"
abbreviation EVENT_QUEUE_SIZE :: nat where "EVENT_QUEUE_SIZE \<equiv> N_TOTAL_EVENTS div 9 + 1"
abbreviation NO_TID :: nat where "NO_TID \<equiv> 255"
abbreviation NO_EVENT :: nat where "NO_EVENT \<equiv> 255"
abbreviation NO_QUEUE :: nat where "NO_QUEUE \<equiv> 255"
abbreviation ISR_TID :: nat where "ISR_TID \<equiv> 254"

section \<open>The state\<close>

datatype TaskState_t =
  SUSPENDED | WAITING_SEM | WAITING_TIME | WAITING_EVENT | WAITING_EVENT_TIMEOUT | READY | RUNNING | KILLED

record tcb =
  tb_state :: TaskState_t
  tb_savedState :: TaskState_t
  tb_internal_state :: nat
  tb_time :: u32
  tb_prio :: u8
  tb_semaphore :: nat
  tb_msgQ :: nat
  tb_waitQ :: nat
  tb_msgChangeEvent :: nat
  tb_msgResult :: queue_result
  tb_waitSingleEvent :: bool
  tb_clockId :: nat
  tb_eventList :: "u8 list"

record SemValue_t =
  sv_maxValue :: u8
  sv_value :: u8

record 'a OSMsgQ_t =
  mq_q :: "'a OSQueue_t"
  mq_taskId :: nat
  mq_change :: nat

record 'a Kernel =
  kn_tasks :: "tcb list"
  kn_sems :: "SemValue_t list"
  kn_events :: "nat list"          \<comment> \<open>the task that signalled each event\<close>
  kn_lastSignaled :: nat
  kn_queues :: "'a OSMsgQ_t list"
  kn_running_tid :: nat
  kn_last_running :: nat
  kn_running :: bool

definition os_init :: "'a Kernel" where
  "os_init = \<lparr>kn_tasks = [], kn_sems = [], kn_events = [], kn_lastSignaled = NO_EVENT, kn_queues = [],
     kn_running_tid = NO_TID, kn_last_running = NO_TID, kn_running = False\<rparr>"

definition os_assert :: "bool \<Rightarrow> 'b \<Rightarrow> 'b option" where
  "os_assert b x = (if b then Some x else None)"

definition upd_task :: "nat \<Rightarrow> (tcb \<Rightarrow> tcb) \<Rightarrow> 'a Kernel \<Rightarrow> 'a Kernel" where
  "upd_task tid f k = k\<lparr>kn_tasks := (kn_tasks k)[tid := f (kn_tasks k ! tid)]\<rparr>"

abbreviation on_task :: "nat \<Rightarrow> (tcb \<Rightarrow> tcb) \<Rightarrow> 'a Kernel \<Rightarrow> 'a Kernel option" where
  "on_task tid f k \<equiv> os_assert (tid < length (kn_tasks k)) (upd_task tid f k)"

section \<open>Semaphores\<close>

definition os_sem_create :: "u8 \<Rightarrow> u8 \<Rightarrow> 'a Kernel \<Rightarrow> ('a Kernel \<times> nat) option" where
  "os_sem_create mx initial k = os_assert (length (kn_sems k) < N_TOTAL_SEMAPHORES)
     (k\<lparr>kn_sems := kn_sems k @ [\<lparr>sv_maxValue = mx, sv_value = initial\<rparr>]\<rparr>, length (kn_sems k))"

definition sem_bin_create :: "u8 \<Rightarrow> 'a Kernel \<Rightarrow> ('a Kernel \<times> nat) option" where
  "sem_bin_create initial k = os_sem_create 1 (if initial > 0 then 1 else 0) k"

definition sem_counting_create :: "u8 \<Rightarrow> u8 \<Rightarrow> 'a Kernel \<Rightarrow> ('a Kernel \<times> nat) option" where
  "sem_counting_create mx initial k = os_sem_create mx initial k"

text \<open>An entry that was never created is zero, as static storage is.\<close>

definition sem_at :: "'a Kernel \<Rightarrow> nat \<Rightarrow> SemValue_t" where
  "sem_at k sem = (if sem < length (kn_sems k) then kn_sems k ! sem else \<lparr>sv_maxValue = 0, sv_value = 0\<rparr>)"

definition os_sem_larger_than_zero :: "nat \<Rightarrow> 'a Kernel \<Rightarrow> bool" where
  "os_sem_larger_than_zero sem k = (sv_value (sem_at k sem) > 0)"

definition os_sem_decrement :: "nat \<Rightarrow> 'a Kernel \<Rightarrow> 'a Kernel" where
  "os_sem_decrement sem k =
     (let s = sem_at k sem
      in if sv_value s > 0 then k\<lparr>kn_sems := (kn_sems k)[sem := s\<lparr>sv_value := sv_value s - 1\<rparr>]\<rparr> else k)"

definition os_sem_increment :: "nat \<Rightarrow> 'a Kernel \<Rightarrow> 'a Kernel" where
  "os_sem_increment sem k =
     (let s = sem_at k sem
      in if sv_value s < sv_maxValue s then k\<lparr>kn_sems := (kn_sems k)[sem := s\<lparr>sv_value := sv_value s + 1\<rparr>]\<rparr> else k)"

section \<open>Tasks\<close>

definition clear_wait_queue :: "tcb \<Rightarrow> tcb" where
  "clear_wait_queue t = t\<lparr>tb_waitSingleEvent := False, tb_eventList := replicate EVENT_QUEUE_SIZE 0\<rparr>"

definition wait_queue_empty :: "tcb \<Rightarrow> bool" where
  "wait_queue_empty t = list_all (\<lambda>b. b = 0) (tb_eventList t)"

text \<open>The ready task with the smallest priority number below 255.\<close>

fun highest_ready :: "nat \<Rightarrow> tcb list \<Rightarrow> u8 \<Rightarrow> nat \<Rightarrow> nat" where
  "highest_ready i [] prio found = found"
| "highest_ready i (t # ts) prio found =
     (if tb_state t = READY \<and> tb_prio t < prio then highest_ready (Suc i) ts (tb_prio t) i
      else highest_ready (Suc i) ts prio found)"

definition os_task_highest_prio_ready_task :: "'a Kernel \<Rightarrow> nat" where
  "os_task_highest_prio_ready_task k = highest_ready 0 (kn_tasks k) 255 NO_TID"

definition waits_sem :: "nat \<Rightarrow> tcb \<Rightarrow> bool" where
  "waits_sem sem t \<longleftrightarrow> tb_state t = WAITING_SEM \<and> tb_semaphore t = sem"

fun highest_waiting :: "nat \<Rightarrow> nat \<Rightarrow> tcb list \<Rightarrow> u8 \<Rightarrow> nat \<Rightarrow> nat" where
  "highest_waiting sem i [] prio found = found"
| "highest_waiting sem i (t # ts) prio found =
     (if waits_sem sem t \<and> tb_prio t < prio then highest_waiting sem (Suc i) ts (tb_prio t) i
      else highest_waiting sem (Suc i) ts prio found)"

definition os_task_release_waiting_task :: "nat \<Rightarrow> 'a Kernel \<Rightarrow> 'a Kernel" where
  "os_task_release_waiting_task sem k =
     (let found = highest_waiting sem 0 (kn_tasks k) 255 NO_TID
      in if found \<noteq> NO_TID then upd_task found (\<lambda>t. t\<lparr>tb_state := READY\<rparr>) k else k)"

definition os_task_waiting_this_semaphore :: "nat \<Rightarrow> 'a Kernel \<Rightarrow> bool" where
  "os_task_waiting_this_semaphore sem k = list_ex (waits_sem sem) (kn_tasks k)"

definition os_task_wait_sem_set :: "nat \<Rightarrow> nat \<Rightarrow> 'a Kernel \<Rightarrow> 'a Kernel option" where
  "os_task_wait_sem_set tid sem k = on_task tid (\<lambda>t. t\<lparr>tb_state := WAITING_SEM, tb_semaphore := sem, tb_time := 0\<rparr>) k"

definition suspend_task :: "tcb \<Rightarrow> tcb" where
  "suspend_task t =
     (if tb_state t = KILLED \<or> tb_state t = SUSPENDED then t
      else if tb_state t = WAITING_SEM
      then t\<lparr>tb_savedState := READY, tb_internal_state := 0, tb_state := SUSPENDED\<rparr>
      else t\<lparr>tb_savedState := tb_state t, tb_state := SUSPENDED\<rparr>)"

definition os_task_suspend :: "nat \<Rightarrow> 'a Kernel \<Rightarrow> 'a Kernel option" where
  "os_task_suspend tid k = on_task tid suspend_task k"

definition os_task_resume :: "nat \<Rightarrow> 'a Kernel \<Rightarrow> 'a Kernel option" where
  "os_task_resume tid k =
     on_task tid (\<lambda>t. if tb_state t = SUSPENDED then t\<lparr>tb_state := tb_savedState t\<rparr> else t) k"

definition os_task_kill :: "nat \<Rightarrow> 'a Kernel \<Rightarrow> 'a Kernel option" where
  "os_task_kill tid k = on_task tid (\<lambda>t. t\<lparr>tb_state := KILLED\<rparr>) k"

definition os_task_wait_time_set :: "nat \<Rightarrow> nat \<Rightarrow> u32 \<Rightarrow> 'a Kernel \<Rightarrow> 'a Kernel option" where
  "os_task_wait_time_set tid clock time k =
     (if time > 0 then on_task tid (\<lambda>t. t\<lparr>tb_clockId := clock, tb_time := time, tb_state := WAITING_TIME\<rparr>) k
      else None)"

section \<open>Events\<close>

definition evt_bit :: "tcb \<Rightarrow> nat \<Rightarrow> bool" where
  "evt_bit t ev = bit (tb_eventList t ! (ev div 8)) (ev mod 8)"

definition wait_event :: "nat \<Rightarrow> bool \<Rightarrow> u32 \<Rightarrow> tcb \<Rightarrow> tcb" where
  "wait_event ev single timeout t =
     (let l = tb_eventList t;
          t = t\<lparr>tb_eventList := poke l (ev div 8) (l ! (ev div 8) OR push_bit (ev mod 8) 1), tb_waitSingleEvent := single\<rparr>
      in if timeout \<noteq> 0 then t\<lparr>tb_clockId := 0, tb_time := timeout, tb_state := WAITING_EVENT_TIMEOUT\<rparr>
         else t\<lparr>tb_state := WAITING_EVENT\<rparr>)"

definition os_task_wait_event :: "nat \<Rightarrow> nat \<Rightarrow> bool \<Rightarrow> u32 \<Rightarrow> 'a Kernel \<Rightarrow> 'a Kernel option" where
  "os_task_wait_event tid ev single timeout k = on_task tid (wait_event ev single timeout) k"

definition signal_task :: "nat \<Rightarrow> tcb \<Rightarrow> tcb" where
  "signal_task ev t =
     (if evt_bit t ev \<and> (tb_state t = WAITING_EVENT \<or> tb_state t = WAITING_EVENT_TIMEOUT)
      then
        let l = tb_eventList t;
            t = t\<lparr>tb_eventList := poke l (ev div 8) (l ! (ev div 8) AND NOT (push_bit (ev mod 8) 1))\<rparr>
        in if tb_waitSingleEvent t \<or> wait_queue_empty t then (clear_wait_queue t)\<lparr>tb_state := READY\<rparr> else t
      else t)"

definition os_task_signal_event :: "nat \<Rightarrow> 'a Kernel \<Rightarrow> 'a Kernel" where
  "os_task_signal_event ev k = k\<lparr>kn_tasks := map (signal_task ev) (kn_tasks k)\<rparr>"

definition event_create :: "'a Kernel \<Rightarrow> ('a Kernel \<times> nat) option" where
  "event_create k = os_assert (length (kn_events k) < N_TOTAL_EVENTS)
     (k\<lparr>kn_events := kn_events k @ [NO_TID]\<rparr>, length (kn_events k))"

definition os_event_set_signaling_tid :: "nat \<Rightarrow> nat \<Rightarrow> 'a Kernel \<Rightarrow> 'a Kernel" where
  "os_event_set_signaling_tid ev tid k = k\<lparr>kn_events := (kn_events k)[ev := tid]\<rparr>"

definition os_wait_event :: "nat \<Rightarrow> nat \<Rightarrow> bool \<Rightarrow> u32 \<Rightarrow> 'a Kernel \<Rightarrow> 'a Kernel option" where
  "os_wait_event tid ev single timeout k =
     (if ev < length (kn_events k)
      then os_task_wait_event tid ev single timeout (os_event_set_signaling_tid ev NO_TID k)
      else Some k)"

definition os_signal_event :: "nat \<Rightarrow> 'a Kernel \<Rightarrow> 'a Kernel" where
  "os_signal_event ev k = os_task_signal_event ev (k\<lparr>kn_lastSignaled := ev\<rparr>)"

definition event_ISR_signal :: "nat \<Rightarrow> 'a Kernel \<Rightarrow> 'a Kernel" where
  "event_ISR_signal ev k = os_event_set_signaling_tid ev ISR_TID (os_signal_event ev k)"

fun wait_all :: "nat \<Rightarrow> bool \<Rightarrow> nat list \<Rightarrow> 'a Kernel \<Rightarrow> 'a Kernel option" where
  "wait_all tid single [] k = Some k"
| "wait_all tid single (ev # evs) k =
     Option.bind (os_task_wait_event tid ev single 0 k) (wait_all tid single evs)"

definition os_wait_multiple :: "bool \<Rightarrow> nat list \<Rightarrow> 'a Kernel \<Rightarrow> 'a Kernel option" where
  "os_wait_multiple waitAll evs k =
     wait_all (kn_running_tid k) (\<not> waitAll) evs (upd_task (kn_running_tid k) clear_wait_queue k)"

section \<open>Message queues of the tasks\<close>

definition os_msgQ_create :: "'a Msg_t list \<Rightarrow> nat \<Rightarrow> 'a Kernel \<Rightarrow> ('a Kernel \<times> nat) option" where
  "os_msgQ_create pool task_id k =
     (if length (kn_queues k) < N_QUEUES
      then map_option (\<lambda>(k, ev). (k\<lparr>kn_queues := kn_queues k @ [\<lparr>mq_q = queue_create pool, mq_taskId = task_id,
               mq_change = ev\<rparr>]\<rparr>, length (kn_queues k))) (event_create k)
      else None)"

fun find_queue :: "nat \<Rightarrow> 'a OSMsgQ_t list \<Rightarrow> nat \<Rightarrow> nat" where
  "find_queue i [] task_id = NO_QUEUE"
| "find_queue i (q # qs) task_id = (if mq_taskId q = task_id then i else find_queue (Suc i) qs task_id)"

definition os_msgQ_find :: "nat \<Rightarrow> 'a Kernel \<Rightarrow> nat" where
  "os_msgQ_find task_id k = find_queue 0 (kn_queues k) task_id"

definition os_msgQ_event_get :: "nat \<Rightarrow> 'a Kernel \<Rightarrow> nat" where
  "os_msgQ_event_get queue k = (if queue \<ge> length (kn_queues k) then NO_EVENT else mq_change (kn_queues k ! queue))"

definition set_queue :: "nat \<Rightarrow> 'a OSQueue_t \<Rightarrow> 'a Kernel \<Rightarrow> 'a Kernel" where
  "set_queue queue q k = k\<lparr>kn_queues := (kn_queues k)[queue := (kn_queues k ! queue)\<lparr>mq_q := q\<rparr>]\<rparr>"

definition os_msg_post :: "'a Msg_t \<Rightarrow> nat \<Rightarrow> u32 \<Rightarrow> u32 \<Rightarrow> 'a Kernel \<Rightarrow> 'a Kernel \<times> queue_result" where
  "os_msg_post msg queue delay period k =
     (if queue \<ge> length (kn_queues k) then (k, MSG_QUEUE_UNDEF)
      else let (q, res) = post_msg msg delay period (mq_q (kn_queues k ! queue)) in (set_queue queue q k, res))"

definition os_msg_receive :: "nat \<Rightarrow> 'a Kernel \<Rightarrow> 'a Kernel \<times> 'a Msg_t option \<times> queue_result" where
  "os_msg_receive queue k =
     (if queue \<ge> length (kn_queues k) then (k, None, MSG_QUEUE_UNDEF)
      else let (q, msg, res) = receive_msg (mq_q (kn_queues k ! queue)) in (set_queue queue q k, msg, res))"

definition os_msgQ_tick :: "nat \<Rightarrow> 'a Kernel \<Rightarrow> 'a Kernel" where
  "os_msgQ_tick queue k =
     (let (q, n) = tick_queue (mq_q (kn_queues k ! queue))
      in (event_ISR_signal (mq_change (kn_queues k ! queue)) ^^ n) (set_queue queue q k))"

section \<open>Creating tasks, and the clock\<close>

definition new_task :: "u8 \<Rightarrow> nat \<Rightarrow> tcb" where
  "new_task prio queue = clear_wait_queue \<lparr>tb_state = READY, tb_savedState = READY, tb_internal_state = 0, tb_time = 0,
     tb_prio = prio, tb_semaphore = 0, tb_msgQ = queue, tb_waitQ = 0, tb_msgChangeEvent = 0,
     tb_msgResult = MSG_QUEUE_UNDEF, tb_waitSingleEvent = False, tb_clockId = 255,
     tb_eventList = replicate EVENT_QUEUE_SIZE 255\<rparr>"

definition task_create :: "u8 \<Rightarrow> 'a Msg_t list \<Rightarrow> 'a Kernel \<Rightarrow> ('a Kernel \<times> nat) option" where
  "task_create prio pool k =
     (if \<not> kn_running k \<and> length (kn_tasks k) < N_TASKS \<and> prio \<notin> tb_prio ` set (kn_tasks k)
      then
        let tid = length (kn_tasks k)
        in map_option (\<lambda>(k, queue). (k\<lparr>kn_tasks := kn_tasks k @ [new_task prio queue]\<rparr>, tid))
             (if pool \<noteq> [] then os_msgQ_create pool tid k else Some (k, NO_QUEUE))
      else None)"

definition tick_task :: "nat \<Rightarrow> u32 \<Rightarrow> tcb \<Rightarrow> tcb" where
  "tick_task clock n t =
     (if tb_state t = WAITING_TIME \<or> tb_state t = WAITING_EVENT_TIMEOUT
      then if tb_clockId t = clock
           then if tb_time t \<le> n
                then let t' = t\<lparr>tb_time := 0\<rparr>;
                         t' = (if tb_state t = WAITING_EVENT_TIMEOUT then clear_wait_queue t' else t')
                     in t'\<lparr>tb_state := READY\<rparr>
                else t\<lparr>tb_time := tb_time t - n\<rparr>
           else t
      else if tb_state t = WAITING_SEM then t\<lparr>tb_time := tb_time t + 1\<rparr>
      else t)"

definition tick_index :: "nat \<Rightarrow> u32 \<Rightarrow> nat \<Rightarrow> 'a Kernel \<Rightarrow> 'a Kernel" where
  "tick_index clock n i k =
     (let k = upd_task i (tick_task clock n) k
      in if clock = 0 \<and> tb_msgQ (kn_tasks k ! i) \<noteq> NO_QUEUE then os_msgQ_tick (tb_msgQ (kn_tasks k ! i)) k else k)"

definition os_task_tick :: "nat \<Rightarrow> u32 \<Rightarrow> 'a Kernel \<Rightarrow> 'a Kernel" where
  "os_task_tick clock n k = fold (tick_index clock n) [0..<length (kn_tasks k)] k"

definition os_tick :: "'a Kernel \<Rightarrow> 'a Kernel" where
  "os_tick k = os_task_tick 0 1 k"

definition os_sub_tick :: "nat \<Rightarrow> 'a Kernel \<Rightarrow> 'a Kernel" where
  "os_sub_tick clock k = (if clock \<noteq> 0 then os_task_tick clock 1 k else k)"

definition os_sub_nTick :: "nat \<Rightarrow> u32 \<Rightarrow> 'a Kernel \<Rightarrow> 'a Kernel" where
  "os_sub_nTick clock n k = (if clock \<noteq> 0 then os_task_tick clock n k else k)"

section \<open>The scheduler\<close>

definition os_task_run :: "(nat \<Rightarrow> 'a Kernel \<Rightarrow> 'a Kernel option) \<Rightarrow> 'a Kernel \<Rightarrow> 'a Kernel option" where
  "os_task_run taskproc k = (if kn_running_tid k < length (kn_tasks k) then taskproc (kn_running_tid k) k else None)"

text \<open>A sleeping kernel waits for the next interrupt.\<close>

definition os_schedule :: "(nat \<Rightarrow> 'a Kernel \<Rightarrow> 'a Kernel option) \<Rightarrow> 'a Kernel \<Rightarrow> 'a Kernel option" where
  "os_schedule taskproc k =
     (let k = k\<lparr>kn_running_tid := os_task_highest_prio_ready_task k\<rparr>
      in if kn_running_tid k \<noteq> NO_TID then os_task_run taskproc k else Some k)"

section \<open>The interface of the tasks\<close>

text \<open>\<^verbatim>\<open>OS_SCHEDULE\<close>: remember the place and give up the processor. \<^verbatim>\<open>OS_END\<close> ends the task.\<close>

definition leave :: "nat \<Rightarrow> 'a Kernel \<Rightarrow> 'a Kernel" where
  "leave pc k = (upd_task (kn_running_tid k) (\<lambda>t. t\<lparr>tb_internal_state := pc\<rparr>) k)\<lparr>kn_running_tid := NO_TID\<rparr>"

definition os_end :: "'a Kernel \<Rightarrow> 'a Kernel option" where
  "os_end k = map_option (\<lambda>k. k\<lparr>kn_running_tid := NO_TID\<rparr>) (os_task_kill (kn_running_tid k) k)"

definition os_wait_ticks :: "u32 \<Rightarrow> nat \<Rightarrow> nat \<Rightarrow> 'a Kernel \<Rightarrow> 'a Kernel option" where
  "os_wait_ticks time clock pc k = map_option (leave pc) (os_task_wait_time_set (kn_running_tid k) clock time k)"

definition os_wait_sem :: "nat \<Rightarrow> nat \<Rightarrow> 'a Kernel \<Rightarrow> 'a Kernel option" where
  "os_wait_sem sem pc k =
     (if os_sem_larger_than_zero sem k then Some (os_sem_decrement sem k)
      else map_option (leave pc) (os_task_wait_sem_set (kn_running_tid k) sem k))"

definition sem_ISR_signal :: "nat \<Rightarrow> 'a Kernel \<Rightarrow> 'a Kernel" where
  "sem_ISR_signal sem k =
     (if \<not> os_task_waiting_this_semaphore sem k then os_sem_increment sem k
      else os_task_release_waiting_task sem k)"

definition os_signal_sem :: "nat \<Rightarrow> nat \<Rightarrow> 'a Kernel \<Rightarrow> 'a Kernel" where
  "os_signal_sem sem pc k =
     (if \<not> os_task_waiting_this_semaphore sem k then os_sem_increment sem k
      else leave pc (os_task_release_waiting_task sem k))"

definition os_wait_single_event :: "nat \<Rightarrow> u32 \<Rightarrow> nat \<Rightarrow> 'a Kernel \<Rightarrow> 'a Kernel option" where
  "os_wait_single_event ev timeout pc k = map_option (leave pc) (os_wait_event (kn_running_tid k) ev True timeout k)"

definition os_wait_multiple_events :: "bool \<Rightarrow> nat list \<Rightarrow> nat \<Rightarrow> 'a Kernel \<Rightarrow> 'a Kernel option" where
  "os_wait_multiple_events waitAll evs pc k = map_option (leave pc) (os_wait_multiple waitAll evs k)"

definition os_event_signal :: "nat \<Rightarrow> nat \<Rightarrow> 'a Kernel \<Rightarrow> 'a Kernel" where
  "os_event_signal ev pc k = leave pc (os_event_set_signaling_tid ev (kn_running_tid k) (os_signal_event ev k))"

text \<open>
  One round of the loops in \<^verbatim>\<open>OS_MSG_Q_POST\<close> and \<^verbatim>\<open>OS_MSG_Q_RECEIVE\<close>. A result of \<open>None\<close> is a wait for the
  change event, after which the task repeats the round.
\<close>

definition note_queue :: "nat \<Rightarrow> 'a Kernel \<Rightarrow> 'a Kernel" where
  "note_queue task_id k =
     (let queue = os_msgQ_find task_id k
      in upd_task (kn_running_tid k) (\<lambda>t. t\<lparr>tb_waitQ := queue, tb_msgChangeEvent := os_msgQ_event_get queue k\<rparr>) k)"

definition post_round :: "nat \<Rightarrow> 'a Msg_t \<Rightarrow> u32 \<Rightarrow> u32 \<Rightarrow> bool \<Rightarrow> nat \<Rightarrow> 'a Kernel \<Rightarrow> ('a Kernel \<times> queue_result option) option" where
  "post_round task_id msg delay period async pc k =
     (let event = tb_msgChangeEvent (kn_tasks k ! kn_running_tid k);
          (k, posted) = os_msg_post msg (os_msgQ_find task_id k) delay period k
      in if posted = MSG_QUEUE_FULL
         then if async then Some (k, Some MSG_QUEUE_UNDEF)
              else map_option (\<lambda>k. (k, None))
                (os_wait_single_event event 0 pc (upd_task (kn_running_tid k) (\<lambda>t. t\<lparr>tb_msgResult := posted\<rparr>) k))
         else if posted = MSG_QUEUE_POSTED
         then Some (os_event_set_signaling_tid event (kn_running_tid k) (os_signal_event event k), Some posted)
         else Some (k, Some posted))"

definition receive_round :: "nat \<Rightarrow> bool \<Rightarrow> nat \<Rightarrow> 'a Kernel \<Rightarrow> ('a Kernel \<times> 'a Msg_t option \<times> queue_result option) option" where
  "receive_round task_id async pc k =
     (let event = tb_msgChangeEvent (kn_tasks k ! kn_running_tid k);
          (k, msg, received) = os_msg_receive (os_msgQ_find task_id k) k
      in if received = MSG_QUEUE_EMPTY
         then if async then Some (k, None, Some MSG_QUEUE_UNDEF)
              else map_option (\<lambda>k. (k, None, None))
                (os_wait_single_event event 0 pc (upd_task (kn_running_tid k) (\<lambda>t. t\<lparr>tb_msgResult := received\<rparr>) k))
         else if received = MSG_QUEUE_RECEIVED
         then Some (os_event_set_signaling_tid event (kn_running_tid k) (os_signal_event event k), msg, Some received)
         else Some (k, msg, Some received))"

definition msg_post :: "nat \<Rightarrow> 'a Msg_t \<Rightarrow> u32 \<Rightarrow> u32 \<Rightarrow> bool \<Rightarrow> nat \<Rightarrow> 'a Kernel \<Rightarrow> ('a Kernel \<times> queue_result option) option" where
  "msg_post task_id msg delay period async pc k = post_round task_id msg delay period async pc (note_queue task_id k)"

definition msg_receive :: "nat \<Rightarrow> bool \<Rightarrow> nat \<Rightarrow> 'a Kernel \<Rightarrow> ('a Kernel \<times> 'a Msg_t option \<times> queue_result option) option" where
  "msg_receive task_id async pc k = receive_round task_id async pc (note_queue task_id k)"

end
