(* ===== verification/KernelLaws.thy ===== *)
theory KernelLaws
  imports Kernel
begin

text \<open>
  The invariants of the cocoOS kernel. The step relation \<open>kernel_step\<close> lists the calls of the tasks, of the interrupt
  routines and of the set-up code; every state they reach is well formed.
\<close>

named_theorems kernel_simps \<open>parts of the kernel an operation leaves alone\<close>

section \<open>Well-formed kernels\<close>

definition task_ok :: "'a Kernel \<Rightarrow> tcb \<Rightarrow> bool" where
  "task_ok k t \<longleftrightarrow> length (tb_eventList t) = EVENT_QUEUE_SIZE \<and> tb_savedState t \<noteq> WAITING_SEM \<and>
     (tb_msgQ t = NO_QUEUE \<or> tb_msgQ t < length (kn_queues k)) \<and>
     (tb_state t = WAITING_SEM \<longrightarrow>
       tb_semaphore t < length (kn_sems k) \<and> sv_value (sem_at k (tb_semaphore t)) = 0)"

definition queue_ok :: "'a Kernel \<Rightarrow> 'a OSMsgQ_t \<Rightarrow> bool" where
  "queue_ok k q \<longleftrightarrow> queue_wf (mq_q q) \<and> mq_change q < length (kn_events k)"

definition kernel_wf :: "'a Kernel \<Rightarrow> bool" where
  "kernel_wf k \<longleftrightarrow> length (kn_tasks k) \<le> N_TASKS \<and> length (kn_sems k) \<le> N_TOTAL_SEMAPHORES \<and>
     length (kn_events k) \<le> N_TOTAL_EVENTS \<and> length (kn_queues k) \<le> N_QUEUES \<and>
     distinct (map tb_prio (kn_tasks k)) \<and> list_all (task_ok k) (kn_tasks k) \<and> list_all (queue_ok k) (kn_queues k) \<and>
     list_all (\<lambda>s. sv_value s \<le> sv_maxValue s) (kn_sems k) \<and>
     (kn_running_tid k = NO_TID \<or> kn_running_tid k < length (kn_tasks k))"

lemma kernel_wf_task: "kernel_wf k \<Longrightarrow> i < length (kn_tasks k) \<Longrightarrow> task_ok k (kn_tasks k ! i)"
  by (simp add: kernel_wf_def list_all_length)

lemma kernel_wf_queue: "kernel_wf k \<Longrightarrow> i < length (kn_queues k) \<Longrightarrow> queue_ok k (kn_queues k ! i)"
  by (simp add: kernel_wf_def list_all_length)

text \<open>A state that differs in parts the invariant does not look at.\<close>

lemma task_ok_cong:
  "kn_queues k' = kn_queues k \<Longrightarrow> kn_sems k' = kn_sems k \<Longrightarrow> task_ok k' = task_ok k"
  by (rule ext) (simp add: task_ok_def sem_at_def)

lemma queue_ok_cong: "kn_events k' = kn_events k \<Longrightarrow> queue_ok k' = queue_ok k"
  by (rule ext) (simp add: queue_ok_def)

lemma kernel_wf_frame:
  assumes "kernel_wf k" "kn_tasks k' = kn_tasks k" "kn_sems k' = kn_sems k" "kn_queues k' = kn_queues k"
    and "length (kn_events k') = length (kn_events k)" "kn_running_tid k' = NO_TID \<or> kn_running_tid k' < length (kn_tasks k)"
  shows "kernel_wf k'"
proof -
  have "queue_ok k' = queue_ok k" using assms(5) by (intro ext) (simp add: queue_ok_def)
  then show ?thesis using assms task_ok_cong [of k' k] by (simp add: kernel_wf_def)
qed

lemma kernel_wf_tasks:
  assumes "kernel_wf k" "length ts = length (kn_tasks k)" "map tb_prio ts = map tb_prio (kn_tasks k)"
    and "list_all (task_ok k) ts"
  shows "kernel_wf (k\<lparr>kn_tasks := ts\<rparr>)"
  using assms task_ok_cong [of "k\<lparr>kn_tasks := ts\<rparr>" k] queue_ok_cong [of "k\<lparr>kn_tasks := ts\<rparr>" k]
  by (simp add: kernel_wf_def)

definition keeps_ok :: "'a Kernel \<Rightarrow> (tcb \<Rightarrow> tcb) \<Rightarrow> bool" where
  "keeps_ok k f \<longleftrightarrow> (\<forall>t. tb_prio (f t) = tb_prio t \<and> (task_ok k t \<longrightarrow> task_ok k (f t)))"

lemma upd_task_wf:
  assumes "kernel_wf k" "keeps_ok k f"
  shows "kernel_wf (upd_task tid f k)"
  unfolding upd_task_def
proof (rule kernel_wf_tasks [OF assms(1)])
  show "map tb_prio ((kn_tasks k)[tid := f (kn_tasks k ! tid)]) = map tb_prio (kn_tasks k)"
    using assms(2) by (cases "tid < length (kn_tasks k)")
      (simp_all add: map_update keeps_ok_def list_update_same_conv list_update_beyond)
  show "list_all (task_ok k) ((kn_tasks k)[tid := f (kn_tasks k ! tid)])"
    using assms kernel_wf_task [OF assms(1)] by (auto simp: list_all_length keeps_ok_def) (metis nth_list_update_eq nth_list_update_neq)
qed simp

lemma map_tasks_wf:
  assumes "kernel_wf k" "keeps_ok k f"
  shows "kernel_wf (k\<lparr>kn_tasks := map f (kn_tasks k)\<rparr>)"
  using assms by (intro kernel_wf_tasks) (auto simp: keeps_ok_def list_all_iff kernel_wf_def)

lemma on_task_wf:
  "kernel_wf k \<Longrightarrow> keeps_ok k f \<Longrightarrow> on_task tid f k = Some k' \<Longrightarrow> kernel_wf k'"
  using upd_task_wf [of k f tid] by (auto simp: os_assert_def split: if_splits)

section \<open>Operations on one task\<close>

lemma keeps_ok_state: "s \<noteq> WAITING_SEM \<Longrightarrow> keeps_ok k (\<lambda>t. t\<lparr>tb_state := s\<rparr>)"
  by (simp add: keeps_ok_def task_ok_def)

lemma keeps_ok_suspend: "keeps_ok k suspend_task"
  by (simp add: keeps_ok_def task_ok_def suspend_task_def)

lemma keeps_ok_resume: "keeps_ok k (\<lambda>t. if tb_state t = SUSPENDED then t\<lparr>tb_state := tb_savedState t\<rparr> else t)"
  by (auto simp: keeps_ok_def task_ok_def)

lemma keeps_ok_wait_event: "keeps_ok k (wait_event ev single timeout)" if "ev < N_TOTAL_EVENTS"
  using that by (simp add: keeps_ok_def task_ok_def wait_event_def Let_def poke_in_range)

lemma keeps_ok_clear: "keeps_ok k clear_wait_queue"
  by (simp add: keeps_ok_def task_ok_def clear_wait_queue_def)

lemma keeps_ok_signal: "keeps_ok k (signal_task ev)" if "ev < N_TOTAL_EVENTS"
  using that by (simp add: keeps_ok_def task_ok_def signal_task_def clear_wait_queue_def Let_def poke_in_range)

lemma keeps_ok_tick: "keeps_ok k (tick_task clock n)"
  by (simp add: keeps_ok_def task_ok_def tick_task_def clear_wait_queue_def Let_def)

lemma keeps_ok_wait_sem:
  "\<not> os_sem_larger_than_zero sem k \<Longrightarrow> sem < length (kn_sems k) \<Longrightarrow>
    keeps_ok k (\<lambda>t. t\<lparr>tb_state := WAITING_SEM, tb_semaphore := sem, tb_time := 0\<rparr>)"
  by (simp add: keeps_ok_def task_ok_def os_sem_larger_than_zero_def word_pos_iff)

lemma leave_wf:
  assumes "kernel_wf k"
  shows "kernel_wf (leave pc k)"
proof -
  have "kernel_wf (upd_task (kn_running_tid k) (\<lambda>t. t\<lparr>tb_internal_state := pc\<rparr>) k)"
    using assms by (rule upd_task_wf) (simp add: keeps_ok_def task_ok_def)
  then show ?thesis unfolding leave_def by (rule kernel_wf_frame) simp_all
qed

section \<open>Semaphores\<close>

lemma sem_update_wf:
  assumes "kernel_wf k" "sv_value s \<le> sv_maxValue s"
    and "\<And>t. t \<in> set (kn_tasks k) \<Longrightarrow> waits_sem sem t \<Longrightarrow> sv_value s = 0"
  shows "kernel_wf (k\<lparr>kn_sems := (kn_sems k)[sem := s]\<rparr>)"
proof -
  let ?k = "k\<lparr>kn_sems := (kn_sems k)[sem := s]\<rparr>"
  have at: "sem_at ?k n = (if n = sem \<and> sem < length (kn_sems k) then s else sem_at k n)" for n
    by (auto simp: sem_at_def)
  have "task_ok ?k t" if "t \<in> set (kn_tasks k)" for t
    using that assms(1) assms(3) [OF that] by (auto simp: kernel_wf_def list_all_iff task_ok_def at waits_sem_def)
  moreover have "list_all (\<lambda>s. sv_value s \<le> sv_maxValue s) ((kn_sems k)[sem := s])"
    using assms set_update_subset_insert [of "kn_sems k" sem s] by (auto simp: kernel_wf_def list_all_iff)
  ultimately show ?thesis
    using assms queue_ok_cong [of ?k k] by (simp add: kernel_wf_def list_all_iff)
qed

lemma sem_waiters_zero:
  "kernel_wf k \<Longrightarrow> t \<in> set (kn_tasks k) \<Longrightarrow> waits_sem sem t \<Longrightarrow> sv_value (sem_at k sem) = 0"
  by (auto simp: kernel_wf_def list_all_iff task_ok_def waits_sem_def)

lemma sem_at_le: "kernel_wf k \<Longrightarrow> sv_value (sem_at k sem) \<le> sv_maxValue (sem_at k sem)"
  by (simp add: sem_at_def kernel_wf_def list_all_length)

lemma decrement_wf: "kernel_wf k \<Longrightarrow> kernel_wf (os_sem_decrement sem k)"
  unfolding os_sem_decrement_def Let_def
proof (split if_split, intro conjI impI)
  assume k: "kernel_wf k" and v: "0 < sv_value (sem_at k sem)"
  have "sv_value (sem_at k sem) - 1 \<le> sv_value (sem_at k sem)"
    using v by (simp add: word_le_nat_alt unat_minus_one word_pos_iff)
  then show "kernel_wf (k\<lparr>kn_sems := (kn_sems k)[sem := sem_at k sem\<lparr>sv_value := sv_value (sem_at k sem) - 1\<rparr>]\<rparr>)"
    using sem_at_le [OF k, of sem] sem_waiters_zero [OF k] v
    by (intro sem_update_wf [OF k]) auto
qed

lemma increment_wf:
  "kernel_wf k \<Longrightarrow> \<not> os_task_waiting_this_semaphore sem k \<Longrightarrow> kernel_wf (os_sem_increment sem k)"
  unfolding os_sem_increment_def Let_def
  by (auto simp: os_task_waiting_this_semaphore_def list_ex_iff inc_le intro!: sem_update_wf)

lemma release_wf: "kernel_wf k \<Longrightarrow> kernel_wf (os_task_release_waiting_task sem k)"
  by (simp add: os_task_release_waiting_task_def Let_def upd_task_wf keeps_ok_state)

section \<open>Events and queues\<close>

lemma kernel_wf_running: "kernel_wf k \<Longrightarrow> kn_running_tid k = NO_TID \<or> kn_running_tid k < length (kn_tasks k)"
  by (simp add: kernel_wf_def)

lemma signal_event_wf: "kernel_wf k \<Longrightarrow> ev < N_TOTAL_EVENTS \<Longrightarrow> kernel_wf (os_signal_event ev k)"
proof -
  assume k: "kernel_wf k" and ev: "ev < N_TOTAL_EVENTS"
  have "kernel_wf (k\<lparr>kn_lastSignaled := ev\<rparr>)"
    using k kernel_wf_running [OF k] by (auto elim: kernel_wf_frame)
  then show ?thesis
    unfolding os_signal_event_def os_task_signal_event_def by (rule map_tasks_wf) (rule keeps_ok_signal [OF ev])
qed

lemma set_signaling_wf: "kernel_wf k \<Longrightarrow> kernel_wf (os_event_set_signaling_tid ev tid k)"
  using kernel_wf_running [of k] by (auto simp: os_event_set_signaling_tid_def elim: kernel_wf_frame)

lemma ISR_signal_wf: "kernel_wf k \<Longrightarrow> ev < N_TOTAL_EVENTS \<Longrightarrow> kernel_wf (event_ISR_signal ev k)"
  by (simp add: event_ISR_signal_def set_signaling_wf signal_event_wf)

lemma wait_event_wf:
  "kernel_wf k \<Longrightarrow> os_wait_event tid ev single timeout k = Some k' \<Longrightarrow> kernel_wf k'"
proof (cases "ev < length (kn_events k)")
  case True
  assume k: "kernel_wf k" and s: "os_wait_event tid ev single timeout k = Some k'"
  then have "ev < N_TOTAL_EVENTS" using True by (simp add: kernel_wf_def)
  then show "kernel_wf k'"
    using s True on_task_wf [OF set_signaling_wf [OF k] keeps_ok_wait_event]
    by (simp add: os_wait_event_def os_task_wait_event_def)
qed (simp add: os_wait_event_def)

lemma wait_all_wf:
  "kernel_wf k \<Longrightarrow> list_all (\<lambda>ev. ev < N_TOTAL_EVENTS) evs \<Longrightarrow> wait_all tid single evs k = Some k' \<Longrightarrow> kernel_wf k'"
proof (induction evs arbitrary: k)
  case (Cons ev evs)
  then obtain x where x: "on_task tid (wait_event ev single 0) k = Some x" "wait_all tid single evs x = Some k'"
    by (auto simp: os_task_wait_event_def split: bind_splits)
  have "kernel_wf x" using on_task_wf [OF Cons.prems(1) keeps_ok_wait_event x(1)] Cons.prems by simp
  then show ?case using Cons.IH x(2) Cons.prems by simp
qed simp

lemma set_queue_wf:
  assumes "kernel_wf k" "queue_wf q" "i < length (kn_queues k)"
  shows "kernel_wf (set_queue i q k)"
proof -
  let ?qs = "(kn_queues k)[i := (kn_queues k ! i)\<lparr>mq_q := q\<rparr>]"
  have "queue_ok k ((kn_queues k ! i)\<lparr>mq_q := q\<rparr>)"
    using assms kernel_wf_queue [OF assms(1,3)] by (simp add: queue_ok_def)
  then have "list_all (queue_ok k) ?qs"
    using assms(1) set_update_subset_insert [of "kn_queues k" i "(kn_queues k ! i)\<lparr>mq_q := q\<rparr>"]
    by (auto simp: kernel_wf_def list_all_iff)
  moreover have "task_ok (k\<lparr>kn_queues := ?qs\<rparr>) = task_ok k"
    by (rule ext) (simp add: task_ok_def sem_at_def)
  moreover have "queue_ok (k\<lparr>kn_queues := ?qs\<rparr>) = queue_ok k" by (rule queue_ok_cong) simp
  ultimately show ?thesis using assms(1) by (simp add: set_queue_def kernel_wf_def)
qed

lemma post_msg_wf: "queue_wf q \<Longrightarrow> queue_wf (fst (post_msg m d r q))"
  by (simp add: post_msg_contents(1) put_back_wf)

lemma receive_msg_wf: "queue_wf q \<Longrightarrow> queue_wf (fst (receive_msg q))"
  using receive_msg_contents [of q] by (auto split: option.splits)

lemma kernel_queue_wf: "kernel_wf k \<Longrightarrow> i < length (kn_queues k) \<Longrightarrow> queue_wf (mq_q (kn_queues k ! i))"
  using kernel_wf_queue [of k i] by (simp add: queue_ok_def)

lemma os_msg_post_wf: "kernel_wf k \<Longrightarrow> kernel_wf (fst (os_msg_post m i d r k))"
  by (simp add: os_msg_post_def split_beta set_queue_wf post_msg_wf kernel_queue_wf)

lemma os_msg_receive_wf: "kernel_wf k \<Longrightarrow> kernel_wf (fst (os_msg_receive i k))"
  by (simp add: os_msg_receive_def split_beta set_queue_wf receive_msg_wf kernel_queue_wf)

lemma change_event_less: "kernel_wf k \<Longrightarrow> i < length (kn_queues k) \<Longrightarrow> mq_change (kn_queues k ! i) < N_TOTAL_EVENTS"
  using kernel_wf_queue [of k i] by (auto simp: queue_ok_def kernel_wf_def)

lemma ISR_signals_wf: "kernel_wf k \<Longrightarrow> ev < N_TOTAL_EVENTS \<Longrightarrow> kernel_wf ((event_ISR_signal ev ^^ n) k)"
  by (induction n) (simp_all add: ISR_signal_wf)

lemma msgQ_tick_wf: "kernel_wf k \<Longrightarrow> i < length (kn_queues k) \<Longrightarrow> kernel_wf (os_msgQ_tick i k)"
proof -
  assume k: "kernel_wf k" and i: "i < length (kn_queues k)"
  obtain q n where t: "tick_queue (mq_q (kn_queues k ! i)) = (q, n)" "queue_wf q"
    using tick_queue_contents [of "mq_q (kn_queues k ! i)"] kernel_wf_queue [OF k i] by (auto simp: queue_ok_def)
  then show ?thesis
    using ISR_signals_wf [OF set_queue_wf [OF k t(2) i] change_event_less [OF k i]] by (simp add: os_msgQ_tick_def)
qed

lemma tick_index_wf: "kernel_wf k \<Longrightarrow> i < length (kn_tasks k) \<Longrightarrow> kernel_wf (tick_index clock n i k)"
proof -
  assume k: "kernel_wf k" and i: "i < length (kn_tasks k)"
  let ?k = "upd_task i (tick_task clock n) k"
  have k1: "kernel_wf ?k" by (rule upd_task_wf [OF k keeps_ok_tick])
  moreover have "i < length (kn_tasks ?k)" using i by (simp add: upd_task_def)
  ultimately show ?thesis
    using kernel_wf_task [of ?k i] msgQ_tick_wf [OF k1]
    by (auto simp: tick_index_def Let_def task_ok_def)
qed

lemma ISR_signals_length [simp]: "length (kn_tasks ((event_ISR_signal ev ^^ n) k)) = length (kn_tasks k)"
  by (induction n) (simp_all add: event_ISR_signal_def os_event_set_signaling_tid_def os_signal_event_def os_task_signal_event_def)

lemma tick_index_length [simp]: "length (kn_tasks (tick_index clock n i k)) = length (kn_tasks k)"
  by (simp add: tick_index_def Let_def os_msgQ_tick_def upd_task_def set_queue_def split_beta)

lemma fold_tick_wf:
  "kernel_wf k \<Longrightarrow> list_all (\<lambda>i. i < length (kn_tasks k)) js \<Longrightarrow> kernel_wf (fold (tick_index clock n) js k)"
  by (induction js arbitrary: k) (simp_all add: tick_index_wf)

lemma task_tick_wf: "kernel_wf k \<Longrightarrow> kernel_wf (os_task_tick clock n k)"
  unfolding os_task_tick_def by (simp add: list_all_iff fold_tick_wf)

section \<open>Creating\<close>

lemma sem_create_wf:
  assumes "kernel_wf k" "initial \<le> mx" "os_sem_create mx initial k = Some (k', sem)"
  shows "kernel_wf k'"
proof -
  let ?k = "k\<lparr>kn_sems := kn_sems k @ [\<lparr>sv_maxValue = mx, sv_value = initial\<rparr>]\<rparr>"
  have k': "k' = ?k" "length (kn_sems k) < N_TOTAL_SEMAPHORES"
    using assms(3) by (simp_all add: os_sem_create_def os_assert_def split: if_splits)
  have "task_ok ?k t" if "task_ok k t" for t
    using that by (auto simp: task_ok_def sem_at_def nth_append)
  then show ?thesis
    using assms(1,2) k' queue_ok_cong [of ?k k] by (auto simp: kernel_wf_def list_all_iff)
qed

lemma event_create_wf: "kernel_wf k \<Longrightarrow> event_create k = Some (k', ev) \<Longrightarrow> kernel_wf k' \<and> ev < length (kn_events k') \<and>
    kn_tasks k' = kn_tasks k \<and> kn_queues k' = kn_queues k"
proof -
  assume k: "kernel_wf k" and c: "event_create k = Some (k', ev)"
  then have k': "k' = k\<lparr>kn_events := kn_events k @ [NO_TID]\<rparr>" "ev = length (kn_events k)" "length (kn_events k) < N_TOTAL_EVENTS"
    by (auto simp: event_create_def os_assert_def split: if_splits)
  have "queue_ok k' q" if "queue_ok k q" for q using that k' by (simp add: queue_ok_def)
  then show ?thesis
    using k k' task_ok_cong [of k' k] by (auto simp: kernel_wf_def list_all_iff)
qed

lemma msgQ_create_wf:
  assumes "kernel_wf k" "2 \<le> length pool" "os_msgQ_create pool tid k = Some (k', queue)"
  shows "kernel_wf k' \<and> queue < length (kn_queues k') \<and> kn_tasks k' = kn_tasks k"
proof -
  obtain k1 ev where c: "event_create k = Some (k1, ev)"
    "k' = k1\<lparr>kn_queues := kn_queues k1 @ [\<lparr>mq_q = queue_create pool, mq_taskId = tid, mq_change = ev\<rparr>]\<rparr>"
    "queue = length (kn_queues k)" "length (kn_queues k) < N_QUEUES"
  proof -
    obtain k1 ev where e: "event_create k = Some (k1, ev)"
      using assms(3) by (auto simp: os_msgQ_create_def split: if_splits)
    then have "kn_queues k1 = kn_queues k" by (auto simp: event_create_def os_assert_def split: if_splits)
    then show thesis using that [OF e] e assms(3) by (auto simp: os_msgQ_create_def split: if_splits)
  qed
  note k1 = event_create_wf [OF assms(1) c(1)]
  have "task_ok k' t" if "task_ok k1 t" for t using that c by (auto simp: task_ok_def sem_at_def)
  moreover have "queue_ok k' = queue_ok k1" by (rule queue_ok_cong) (simp add: c)
  moreover have "queue_ok k1 \<lparr>mq_q = queue_create pool, mq_taskId = tid, mq_change = ev\<rparr>"
    using k1 created_wf [OF assms(2)] by (simp add: queue_ok_def)
  ultimately show ?thesis using k1 c by (auto simp: kernel_wf_def list_all_iff)
qed

lemma append_task_wf:
  assumes "kernel_wf k" "length (kn_tasks k) < N_TASKS" "task_ok k t" "tb_prio t \<notin> tb_prio ` set (kn_tasks k)"
  shows "kernel_wf (k\<lparr>kn_tasks := kn_tasks k @ [t]\<rparr>)"
proof -
  let ?k = "k\<lparr>kn_tasks := kn_tasks k @ [t]\<rparr>"
  have "task_ok ?k = task_ok k" by (rule task_ok_cong) simp_all
  moreover have "queue_ok ?k = queue_ok k" by (rule queue_ok_cong) simp
  ultimately show ?thesis using assms by (auto simp: kernel_wf_def less_Suc_eq)
qed

lemma task_create_wf:
  assumes "kernel_wf k" "length pool \<noteq> 1" "task_create prio pool k = Some (k', tid)"
  shows "kernel_wf k'"
proof -
  obtain k1 queue where k1: "(if pool \<noteq> [] then os_msgQ_create pool (length (kn_tasks k)) k else Some (k, NO_QUEUE)) = Some (k1, queue)"
    and k': "k' = k1\<lparr>kn_tasks := kn_tasks k1 @ [new_task prio queue]\<rparr>"
    and pre: "length (kn_tasks k) < N_TASKS" "prio \<notin> tb_prio ` set (kn_tasks k)"
    using assms(3) by (auto simp: task_create_def Let_def split: if_splits)
  have w: "kernel_wf k1 \<and> (queue = NO_QUEUE \<or> queue < length (kn_queues k1)) \<and> kn_tasks k1 = kn_tasks k"
  proof (cases "pool = []")
    case False
    then have "2 \<le> length pool" using assms(2) by (cases pool rule: remdups_adj.cases) auto
    then show ?thesis using msgQ_create_wf [OF assms(1)] False k1 by auto
  qed (use k1 assms(1) in auto)
  then have "task_ok k1 (new_task prio queue)" "tb_prio (new_task prio queue) \<notin> tb_prio ` set (kn_tasks k1)"
    using pre by (auto simp: task_ok_def new_task_def clear_wait_queue_def)
  then show ?thesis unfolding k' using append_task_wf [of k1] w pre(1) by simp
qed

section \<open>Steps\<close>

text \<open>
  The calls are made by the running task, by an interrupt routine or by the set-up code. A call that waits or
  signals names semaphores and events that were created.
\<close>

inductive kernel_step :: "'a Kernel \<Rightarrow> 'a Kernel \<Rightarrow> bool" where
  sem_create: "initial \<le> mx \<Longrightarrow> os_sem_create mx initial k = Some (k', sem) \<Longrightarrow> kernel_step k k'"
| event_create: "event_create k = Some (k', ev) \<Longrightarrow> kernel_step k k'"
| task_create: "length pool \<noteq> 1 \<Longrightarrow> task_create prio pool k = Some (k', tid) \<Longrightarrow> kernel_step k k'"
| start: "kernel_step k (k\<lparr>kn_running := True\<rparr>)"
| dispatch: "kernel_step k (k\<lparr>kn_running_tid := os_task_highest_prio_ready_task k\<rparr>)"
| sem_wait: "sem < length (kn_sems k) \<Longrightarrow> os_wait_sem sem pc k = Some k' \<Longrightarrow> kernel_step k k'"
| sem_signal: "kernel_step k (os_signal_sem sem pc k)"
| sem_isr: "kernel_step k (sem_ISR_signal sem k)"
| wait_ticks: "os_wait_ticks time clock pc k = Some k' \<Longrightarrow> kernel_step k k'"
| event_wait: "os_wait_single_event ev timeout pc k = Some k' \<Longrightarrow> kernel_step k k'"
| events_wait: "list_all (\<lambda>ev. ev < N_TOTAL_EVENTS) evs \<Longrightarrow> os_wait_multiple_events waitAll evs pc k = Some k' \<Longrightarrow>
    kernel_step k k'"
| event_signal: "ev < N_TOTAL_EVENTS \<Longrightarrow> kernel_step k (os_event_signal ev pc k)"
| event_isr: "ev < N_TOTAL_EVENTS \<Longrightarrow> kernel_step k (event_ISR_signal ev k)"
| post: "kn_running_tid k < length (kn_tasks k) \<Longrightarrow> msg_post task_id msg delay period async pc k = Some (k', res) \<Longrightarrow> kernel_step k k'"
| receive: "kn_running_tid k < length (kn_tasks k) \<Longrightarrow> msg_receive task_id async pc k = Some (k', msg, res) \<Longrightarrow> kernel_step k k'"
| tick: "kernel_step k (os_task_tick clock n k)"
| suspend: "os_task_suspend tid k = Some k' \<Longrightarrow> kernel_step k k'"
| resume: "os_task_resume tid k = Some k' \<Longrightarrow> kernel_step k k'"
| kill: "os_end k = Some k' \<Longrightarrow> kernel_step k k'"

lemma highest_ready_index:
  "highest_ready i ts prio found = found \<or>
   (\<exists>j < length ts. highest_ready i ts prio found = i + j \<and> tb_state (ts ! j) = READY \<and> tb_prio (ts ! j) < prio)"
proof (induction i ts prio found rule: highest_ready.induct)
  case (2 i t ts prio found)
  show ?case
  proof (cases "tb_state t = READY \<and> tb_prio t < prio")
    case True
    then show ?thesis using 2(1) [OF True]
      by (auto intro: exI [of _ 0] exI [of _ "Suc j" for j] order.strict_trans)
  next
    case False
    then show ?thesis using 2(2) [OF False] by (auto intro: exI [of _ "Suc j" for j])
  qed
qed simp

lemma wait_sem_wf:
  assumes "kernel_wf k" "sem < length (kn_sems k)" "os_wait_sem sem pc k = Some k'"
  shows "kernel_wf k'"
proof (cases "os_sem_larger_than_zero sem k")
  case True
  then show ?thesis using assms by (auto simp: os_wait_sem_def decrement_wf)
next
  case False
  then show ?thesis
    using assms on_task_wf [OF assms(1) keeps_ok_wait_sem [OF False assms(2)]] leave_wf
    by (auto simp: os_wait_sem_def os_task_wait_sem_set_def)
qed

lemma change_event_stored:
  "kernel_wf k \<Longrightarrow> os_msgQ_event_get queue k \<noteq> NO_EVENT \<Longrightarrow> os_msgQ_event_get queue k < N_TOTAL_EVENTS"
  using change_event_less [of k queue] by (auto simp: os_msgQ_event_get_def split: if_splits)

lemma keeps_ok_note: "keeps_ok k (\<lambda>t. t\<lparr>tb_waitQ := q, tb_msgChangeEvent := e\<rparr>)"
  "keeps_ok k (\<lambda>t. t\<lparr>tb_msgResult := r\<rparr>)"
  by (simp_all add: keeps_ok_def task_ok_def)

lemma note_queue_wf: "kernel_wf k \<Longrightarrow> kernel_wf (note_queue task_id k)"
  by (simp add: note_queue_def Let_def upd_task_wf keeps_ok_note)

lemma note_queue_event:
  "kn_running_tid k < length (kn_tasks k) \<Longrightarrow>
    tb_msgChangeEvent (kn_tasks (note_queue task_id k) ! kn_running_tid k) = os_msgQ_event_get (os_msgQ_find task_id k) k"
  and note_queue_parts [simp]: "kn_queues (note_queue task_id k) = kn_queues k"
  "kn_running_tid (note_queue task_id k) = kn_running_tid k" "os_msgQ_find task_id (note_queue task_id k) = os_msgQ_find task_id k"
  by (simp_all add: note_queue_def Let_def upd_task_def os_msgQ_find_def)

lemma wait_single_wf:
  "kernel_wf k \<Longrightarrow> os_wait_single_event ev timeout pc k = Some k' \<Longrightarrow> kernel_wf k'"
  by (auto simp: os_wait_single_event_def dest: wait_event_wf intro: leave_wf)

lemma queue_result_cases:
  "snd (os_msg_post m q d p k) \<noteq> MSG_QUEUE_UNDEF \<Longrightarrow> q < length (kn_queues k)"
  "snd (snd (os_msg_receive q k)) \<noteq> MSG_QUEUE_UNDEF \<Longrightarrow> q < length (kn_queues k)"
  by (auto simp: os_msg_post_def os_msg_receive_def split: if_splits)

lemma change_event_get:
  "kernel_wf k \<Longrightarrow> q < length (kn_queues k) \<Longrightarrow> os_msgQ_event_get q k < N_TOTAL_EVENTS"
  using change_event_less [of k q] by (simp add: os_msgQ_event_get_def)

lemma msg_post_kernel_wf:
  assumes "kernel_wf k" "kn_running_tid k < length (kn_tasks k)" "msg_post task_id m d p async pc k = Some (k', res)"
  shows "kernel_wf k'"
proof -
  let ?k = "note_queue task_id k" and ?q = "os_msgQ_find task_id k"
  obtain k1 posted where p: "os_msg_post m ?q d p ?k = (k1, posted)" by (cases "os_msg_post m ?q d p ?k")
  have k1: "kernel_wf k1" using os_msg_post_wf [OF note_queue_wf [OF assms(1)], of m ?q d p task_id] p by simp
  have "posted \<noteq> MSG_QUEUE_UNDEF \<Longrightarrow> os_msgQ_event_get ?q k < N_TOTAL_EVENTS"
    using queue_result_cases(1) [of m ?q d p ?k] p change_event_get [OF assms(1), of ?q] by simp
  then show ?thesis
    using assms(3) p k1 note_queue_event [OF assms(2), of task_id] wait_single_wf [OF upd_task_wf [OF k1 keeps_ok_note(2)]]
    by (auto simp: msg_post_def post_round_def Let_def set_signaling_wf signal_event_wf split: if_splits)
qed

lemma msg_receive_kernel_wf:
  assumes "kernel_wf k" "kn_running_tid k < length (kn_tasks k)" "msg_receive task_id async pc k = Some (k', msg, res)"
  shows "kernel_wf k'"
proof -
  let ?k = "note_queue task_id k" and ?q = "os_msgQ_find task_id k"
  obtain k1 m received where p: "os_msg_receive ?q ?k = (k1, m, received)" by (cases "os_msg_receive ?q ?k")
  have k1: "kernel_wf k1" using os_msg_receive_wf [OF note_queue_wf [OF assms(1)], of ?q task_id] p by simp
  have "received \<noteq> MSG_QUEUE_UNDEF \<Longrightarrow> os_msgQ_event_get ?q k < N_TOTAL_EVENTS"
    using queue_result_cases(2) [of ?q ?k] p change_event_get [OF assms(1), of ?q] by simp
  then show ?thesis
    using assms(3) p k1 note_queue_event [OF assms(2), of task_id] wait_single_wf [OF upd_task_wf [OF k1 keeps_ok_note(2)]]
    by (auto simp: msg_receive_def receive_round_def Let_def set_signaling_wf signal_event_wf split: if_splits)
qed

lemma kernel_step_wf:
  assumes "kernel_step k k'" "kernel_wf k"
  shows "kernel_wf k'"
  using assms
proof (cases rule: kernel_step.cases)
  case (sem_create initial mx sem)
  then show ?thesis using sem_create_wf assms(2) by blast
next
  case (event_create ev)
  then show ?thesis using event_create_wf [OF assms(2)] by blast
next
  case (task_create pool prio tid)
  then show ?thesis using task_create_wf assms(2) by blast
next
  case start
  then show ?thesis using kernel_wf_running [OF assms(2)] assms(2) by (auto elim: kernel_wf_frame)
next
  case dispatch
  have "os_task_highest_prio_ready_task k = NO_TID \<or> os_task_highest_prio_ready_task k < length (kn_tasks k)"
    using highest_ready_index [of 0 "kn_tasks k" 255 NO_TID] by (auto simp: os_task_highest_prio_ready_task_def)
  then show ?thesis using dispatch assms(2) by (auto elim: kernel_wf_frame)
next
  case (sem_wait sem pc)
  then show ?thesis using wait_sem_wf assms(2) by blast
next
  case (sem_signal sem pc)
  then show ?thesis using assms(2) by (simp add: os_signal_sem_def increment_wf leave_wf release_wf)
next
  case (sem_isr sem)
  then show ?thesis using assms(2) by (simp add: sem_ISR_signal_def increment_wf release_wf)
next
  case (wait_ticks time clock pc)
  have "keeps_ok k (\<lambda>t. t\<lparr>tb_clockId := clock, tb_time := time, tb_state := WAITING_TIME\<rparr>)"
    by (simp add: keeps_ok_def task_ok_def)
  note w = on_task_wf [OF assms(2) this]
  show ?thesis
    using wait_ticks by (auto simp: os_wait_ticks_def os_task_wait_time_set_def split: if_splits intro: leave_wf w)
next
  case (event_wait ev timeout pc)
  then show ?thesis using wait_single_wf assms(2) by blast
next
  case (events_wait evs waitAll pc)
  note w = wait_all_wf [OF upd_task_wf [OF assms(2) keeps_ok_clear] events_wait(1)]
  show ?thesis
    using events_wait(2) by (auto simp: os_wait_multiple_events_def os_wait_multiple_def intro: leave_wf w)
next
  case (event_signal ev pc)
  then show ?thesis using assms(2) by (simp add: os_event_signal_def leave_wf set_signaling_wf signal_event_wf)
next
  case (event_isr ev)
  then show ?thesis using assms(2) by (simp add: ISR_signal_wf)
next
  case (tick clock n)
  then show ?thesis using assms(2) by (simp add: task_tick_wf)
next
  case (suspend tid)
  then show ?thesis using on_task_wf [OF assms(2) keeps_ok_suspend] by (simp add: os_task_suspend_def)
next
  case (resume tid)
  then show ?thesis using on_task_wf [OF assms(2) keeps_ok_resume] by (simp add: os_task_resume_def)
next
  case kill
  then obtain k1 where "on_task (kn_running_tid k) (\<lambda>t. t\<lparr>tb_state := KILLED\<rparr>) k = Some k1" "k' = k1\<lparr>kn_running_tid := NO_TID\<rparr>"
    by (auto simp: os_end_def os_task_kill_def)
  moreover have "kernel_wf k1" using on_task_wf [OF assms(2) keeps_ok_state] calculation by blast
  ultimately show ?thesis by (auto elim: kernel_wf_frame)
qed (use assms(2) msg_post_kernel_wf msg_receive_kernel_wf in blast)+

lemma os_init_wf: "kernel_wf os_init"
  by (simp add: kernel_wf_def os_init_def)

lemma kernel_reachable_wf_lemma: "kernel_step\<^sup>*\<^sup>* os_init k \<Longrightarrow> kernel_wf k"
  by (induction rule: rtranclp_induct) (auto intro: os_init_wf kernel_step_wf)

end
