(* ===== verification/KernelSched.thy ===== *)
theory KernelSched
  imports KernelLaws
begin

text \<open>
  What the kernel promises to the tasks: the scheduler runs the ready task with the highest priority, a
  signalled semaphore goes to the waiting task with the highest priority, events wake the tasks that wait for them, and
  a task that waits for some ticks is ready after exactly so many.
\<close>

section \<open>Priorities\<close>

text \<open>Both searches for a task are one search for the smallest priority number among the tasks with a property.\<close>

fun best :: "(tcb \<Rightarrow> bool) \<Rightarrow> nat \<Rightarrow> tcb list \<Rightarrow> u8 \<Rightarrow> nat \<Rightarrow> nat" where
  "best P i [] prio found = found"
| "best P i (t # ts) prio found =
     (if P t \<and> tb_prio t < prio then best P (Suc i) ts (tb_prio t) i else best P (Suc i) ts prio found)"

lemma highest_ready_best: "highest_ready i ts prio found = best (\<lambda>t. tb_state t = READY) i ts prio found"
  by (induction i ts prio found rule: highest_ready.induct) simp_all

lemma highest_waiting_best: "highest_waiting sem i ts prio found = best (waits_sem sem) i ts prio found"
  by (induction sem i ts prio found rule: highest_waiting.induct) simp_all

lemma best_spec:
  "(best P i ts prio found = found \<and> (\<forall>t \<in> set ts. P t \<longrightarrow> prio \<le> tb_prio t)) \<or>
   (\<exists>j < length ts. best P i ts prio found = i + j \<and> P (ts ! j) \<and> tb_prio (ts ! j) < prio \<and>
      (\<forall>t \<in> set ts. P t \<longrightarrow> tb_prio (ts ! j) \<le> tb_prio t))"
proof (induction P i ts prio found rule: best.induct)
  case (2 P i t ts prio found)
  show ?case
  proof (cases "P t \<and> tb_prio t < prio")
    case True
    show ?thesis
      using 2(1) [OF True]
    proof (elim disjE exE conjE)
      assume "best P (Suc i) ts (tb_prio t) i = i" "\<forall>t'\<in>set ts. P t' \<longrightarrow> tb_prio t \<le> tb_prio t'"
      then show ?thesis using True by (intro disjI2 exI [of _ 0]) auto
    next
      fix j
      assume "j < length ts" "best P (Suc i) ts (tb_prio t) i = Suc i + j" "P (ts ! j)"
        "tb_prio (ts ! j) < tb_prio t" "\<forall>t\<in>set ts. P t \<longrightarrow> tb_prio (ts ! j) \<le> tb_prio t"
      then show ?thesis using True by (intro disjI2 exI [of _ "Suc j"]) auto
    qed
  next
    case False
    show ?thesis
      using 2(2) [OF False]
    proof (elim disjE exE conjE)
      assume "best P (Suc i) ts prio found = found" "\<forall>t\<in>set ts. P t \<longrightarrow> prio \<le> tb_prio t"
      then show ?thesis using False by (intro disjI1) auto
    next
      fix j
      assume "j < length ts" "best P (Suc i) ts prio found = Suc i + j" "P (ts ! j)"
        "tb_prio (ts ! j) < prio" "\<forall>t\<in>set ts. P t \<longrightarrow> tb_prio (ts ! j) \<le> tb_prio t"
      then show ?thesis using False by (intro disjI2 exI [of _ "Suc j"]) auto
    qed
  qed
qed simp

lemma below_255: "(w :: u8) < 255 \<longleftrightarrow> w \<noteq> 255"
proof -
  have m: "(255 :: u8) = - 1" by simp
  show ?thesis unfolding m using word_order.not_eq_extremum [of w] by blast
qed

definition the_best :: "(tcb \<Rightarrow> bool) \<Rightarrow> tcb list \<Rightarrow> nat \<Rightarrow> bool" where
  "the_best P ts i \<longleftrightarrow> i < length ts \<and> P (ts ! i) \<and> tb_prio (ts ! i) \<noteq> 255 \<and>
     (\<forall>j < length ts. j \<noteq> i \<and> P (ts ! j) \<longrightarrow> tb_prio (ts ! i) < tb_prio (ts ! j))"

lemma best_the_best:
  assumes "distinct (map tb_prio ts)" "length ts \<le> N_TASKS"
  shows "if list_ex (\<lambda>t. P t \<and> tb_prio t \<noteq> 255) ts then the_best P ts (best P 0 ts 255 NO_TID)
    else best P 0 ts 255 NO_TID = NO_TID"
proof -
  have strict: "tb_prio (ts ! i) < tb_prio (ts ! j)"
    if "tb_prio (ts ! i) \<le> tb_prio (ts ! j)" "i < length ts" "j < length ts" "j \<noteq> i" for i j
    using that assms(1) by (auto simp: distinct_conv_nth order.strict_iff_order)
  show ?thesis
    using best_spec [of P 0 ts 255 NO_TID]
  proof (elim disjE exE conjE)
    assume "best P 0 ts 255 NO_TID = NO_TID" "\<forall>t\<in>set ts. P t \<longrightarrow> 255 \<le> tb_prio t"
    then show ?thesis using below_255 by (auto simp: list_ex_iff not_le [symmetric])
  next
    fix j
    assume j: "j < length ts" "best P 0 ts 255 NO_TID = 0 + j" "P (ts ! j)" "tb_prio (ts ! j) < 255"
      "\<forall>t\<in>set ts. P t \<longrightarrow> tb_prio (ts ! j) \<le> tb_prio t"
    then have "the_best P ts j" using strict below_255 by (auto simp: the_best_def)
    moreover have "list_ex (\<lambda>t. P t \<and> tb_prio t \<noteq> 255) ts" using j below_255 by (auto simp: list_ex_iff)
    ultimately show ?thesis using j(2) by simp
  qed
qed


text \<open>
  Signalling a semaphore hands it to the waiting task with the smallest priority number: this task becomes ready, all
  others and the value stay as they are. When no task waits, the value grows by one up to its maximum.
\<close>

theorem signal_hands_over:
  assumes "kernel_wf k" "sem < length (kn_sems k)" "list_all (\<lambda>t. tb_prio t \<noteq> 255) (kn_tasks k)"
  shows "if os_task_waiting_this_semaphore sem k
    then \<exists>i. the_best (waits_sem sem) (kn_tasks k) i \<and>
      sem_ISR_signal sem k = upd_task i (\<lambda>t. t\<lparr>tb_state := READY\<rparr>) k
    else kn_tasks (sem_ISR_signal sem k) = kn_tasks k \<and>
      sem_at (sem_ISR_signal sem k) sem = (sem_at k sem)
        \<lparr>sv_value := (if sv_value (sem_at k sem) < sv_maxValue (sem_at k sem)
           then sv_value (sem_at k sem) + 1 else sv_value (sem_at k sem))\<rparr>"
proof -
  have d: "distinct (map tb_prio (kn_tasks k))" "length (kn_tasks k) \<le> N_TASKS" using assms by (simp_all add: kernel_wf_def)
  have "list_ex (\<lambda>t. waits_sem sem t \<and> tb_prio t \<noteq> 255) (kn_tasks k) = os_task_waiting_this_semaphore sem k"
    using assms(3) by (auto simp: os_task_waiting_this_semaphore_def list_ex_iff list_all_iff)
  then show ?thesis
    using best_the_best [OF d, of "waits_sem sem"] d(2) assms(2)
    by (auto simp: sem_ISR_signal_def os_task_release_waiting_task_def highest_waiting_best Let_def the_best_def
        os_sem_increment_def sem_at_def)
qed

section \<open>Events\<close>

definition pending :: "tcb \<Rightarrow> nat set" where
  "pending t = {ev. ev < 8 * length (tb_eventList t) \<and> evt_bit t ev}"

abbreviation waiting :: "tcb \<Rightarrow> bool" where
  "waiting t \<equiv> tb_state t = WAITING_EVENT \<or> tb_state t = WAITING_EVENT_TIMEOUT"

lemma byte_zero: "(w :: u8) = 0 \<longleftrightarrow> (\<forall>n < 8. \<not> bit w n)"
  by (auto simp: bit_eq_iff intro: ccontr dest: bit_imp_le_length)

lemma bit_set: "n < 8 \<Longrightarrow> m < 8 \<Longrightarrow> bit ((w :: u8) OR push_bit m 1) n = (bit w n \<or> n = m)"
  and bit_reset: "n < 8 \<Longrightarrow> m < 8 \<Longrightarrow> bit ((w :: u8) AND NOT (push_bit m 1)) n = (bit w n \<and> n \<noteq> m)"
  by (auto simp: bit_simps)

lemma wait_queue_empty_pending: "wait_queue_empty t \<longleftrightarrow> pending t = {}"
proof -
  have "pending t = {} \<longleftrightarrow> (\<forall>i < length (tb_eventList t). \<forall>n < 8. \<not> bit (tb_eventList t ! i) n)"
  proof (intro iffI allI impI)
    fix i n
    assume "pending t = {}" "i < length (tb_eventList t)" "n < (8::nat)"
    then show "\<not> bit (tb_eventList t ! i) n"
      using less_mult_imp_div_less [of "8 * i + n" "length (tb_eventList t)" 8]
      by (auto simp: pending_def evt_bit_def dest!: spec [of _ "8 * i + n"])
  next
    assume "\<forall>i < length (tb_eventList t). \<forall>n < 8. \<not> bit (tb_eventList t ! i) n"
    then show "pending t = {}" by (auto simp: pending_def evt_bit_def less_mult_imp_div_less mult.commute)
  qed
  then show ?thesis by (simp add: wait_queue_empty_def list_all_length byte_zero)
qed

lemma evt_bit_poke:
  assumes "ev div 8 < length l" "\<And>n. n < 8 \<Longrightarrow> bit w n = f n"
  shows "evt_bit (t\<lparr>tb_eventList := poke l (ev div 8) w\<rparr>) e =
    (if e div 8 = ev div 8 then f (e mod 8) else bit (l ! (e div 8)) (e mod 8))"
  using assms by (simp add: evt_bit_def poke_in_range)

lemma same_event: "e div 8 = ev div 8 \<Longrightarrow> e mod 8 = ev mod 8 \<longleftrightarrow> e = (ev :: nat)"
  by (metis div_mult_mod_eq)

definition set_event :: "nat \<Rightarrow> tcb \<Rightarrow> tcb" where
  "set_event ev t = t\<lparr>tb_eventList := poke (tb_eventList t) (ev div 8) (tb_eventList t ! (ev div 8) OR push_bit (ev mod 8) 1)\<rparr>"

definition reset_event :: "nat \<Rightarrow> tcb \<Rightarrow> tcb" where
  "reset_event ev t = t\<lparr>tb_eventList := poke (tb_eventList t) (ev div 8) (tb_eventList t ! (ev div 8) AND NOT (push_bit (ev mod 8) 1))\<rparr>"

lemma div_8_less: "ev < 8 * n \<Longrightarrow> ev div 8 < (n::nat)"
  by (simp add: less_mult_imp_div_less mult.commute)

lemma evt_bit_set:
  assumes "ev < 8 * length (tb_eventList t)"
  shows "evt_bit (set_event ev t) e = (e = ev \<or> evt_bit t e)"
proof -
  have "evt_bit (set_event ev t) e = (if e div 8 = ev div 8
      then bit (tb_eventList t ! (ev div 8)) (e mod 8) \<or> e mod 8 = ev mod 8
      else bit (tb_eventList t ! (e div 8)) (e mod 8))"
    unfolding set_event_def by (rule evt_bit_poke [OF div_8_less [OF assms]]) (simp add: bit_set del: push_bit_of_1)
  then show ?thesis by (auto simp: evt_bit_def same_event)
qed

lemma evt_bit_reset:
  assumes "ev < 8 * length (tb_eventList t)"
  shows "evt_bit (reset_event ev t) e = (e \<noteq> ev \<and> evt_bit t e)"
proof -
  have "evt_bit (reset_event ev t) e = (if e div 8 = ev div 8
      then bit (tb_eventList t ! (ev div 8)) (e mod 8) \<and> e mod 8 \<noteq> ev mod 8
      else bit (tb_eventList t ! (e div 8)) (e mod 8))"
    unfolding reset_event_def by (rule evt_bit_poke [OF div_8_less [OF assms]]) (simp add: bit_reset del: push_bit_of_1)
  then show ?thesis by (auto simp: evt_bit_def same_event)
qed

lemma event_list_length [simp]:
  "ev < 8 * length (tb_eventList t) \<Longrightarrow> length (tb_eventList (set_event ev t)) = length (tb_eventList t)"
  "ev < 8 * length (tb_eventList t) \<Longrightarrow> length (tb_eventList (reset_event ev t)) = length (tb_eventList t)"
  by (simp_all add: set_event_def reset_event_def poke_in_range div_8_less)

lemma pending_set: "ev < 8 * length (tb_eventList t) \<Longrightarrow> pending (set_event ev t) = insert ev (pending t)"
  by (auto simp: pending_def evt_bit_set)

lemma pending_reset: "ev < 8 * length (tb_eventList t) \<Longrightarrow> pending (reset_event ev t) = pending t - {ev}"
  by (auto simp: pending_def evt_bit_reset)

lemma pending_clear [simp]: "pending (clear_wait_queue t) = {}"
  by (auto simp: pending_def evt_bit_def clear_wait_queue_def)

lemma wait_event_set:
  "wait_event ev single 0 t = (set_event ev t)\<lparr>tb_waitSingleEvent := single, tb_state := WAITING_EVENT\<rparr>"
  by (simp add: wait_event_def set_event_def Let_def)

lemma pending_parts [simp]:
  "pending (t\<lparr>tb_waitSingleEvent := w\<rparr>) = pending t" "pending (t\<lparr>tb_state := s\<rparr>) = pending t"
  "pending (t\<lparr>tb_internal_state := pc\<rparr>) = pending t"
  by (simp_all add: pending_def evt_bit_def)

lemma signal_task_pending:
  assumes "ev < 8 * length (tb_eventList t)" "waiting t"
  shows "signal_task ev t = (if ev \<notin> pending t then t
    else if tb_waitSingleEvent t \<or> pending t \<subseteq> {ev} then (clear_wait_queue (reset_event ev t))\<lparr>tb_state := READY\<rparr>
    else reset_event ev t)"
proof -
  have "evt_bit t ev = (ev \<in> pending t)" using assms(1) by (simp add: pending_def)
  moreover have "wait_queue_empty (reset_event ev t) = (pending t \<subseteq> {ev})"
    unfolding wait_queue_empty_pending pending_reset [OF assms(1)] by auto
  moreover have "tb_waitSingleEvent (reset_event ev t) = tb_waitSingleEvent t" by (simp add: reset_event_def)
  moreover have "signal_task ev t = (if evt_bit t ev \<and> waiting t
      then if tb_waitSingleEvent (reset_event ev t) \<or> wait_queue_empty (reset_event ev t)
        then (clear_wait_queue (reset_event ev t))\<lparr>tb_state := READY\<rparr> else reset_event ev t
      else t)"
    by (simp only: signal_task_def reset_event_def Let_def)
  ultimately show ?thesis using assms(2) by simp
qed

lemma signal_task_idle: "\<not> waiting t \<Longrightarrow> signal_task ev t = t"
  by (auto simp: signal_task_def)

lemma signals_idle: "\<not> waiting t \<Longrightarrow> fold signal_task evs t = t"
  by (induction evs) (simp_all add: signal_task_idle)

lemma reset_parts [simp]: "tb_state (reset_event ev t) = tb_state t" "tb_waitSingleEvent (reset_event ev t) = tb_waitSingleEvent t"
  by (simp_all add: reset_event_def)

lemma signals_wake:
  assumes "waiting t" "pending t \<noteq> {}" "list_all (\<lambda>ev. ev < 8 * length (tb_eventList t)) evs"
  shows "tb_state (fold signal_task evs t) =
    (if (if tb_waitSingleEvent t then pending t \<inter> set evs \<noteq> {} else pending t \<subseteq> set evs) then READY else tb_state t)"
  using assms
proof (induction evs arbitrary: t)
  case (Cons ev evs)
  have ev: "ev < 8 * length (tb_eventList t)" using Cons.prems by simp
  show ?case
  proof (cases "ev \<in> pending t")
    case False
    then show ?thesis using Cons.IH [OF Cons.prems(1,2)] Cons.prems(3) signal_task_pending [OF ev Cons.prems(1)] by auto
  next
    case True
    show ?thesis
    proof (cases "tb_waitSingleEvent t \<or> pending t \<subseteq> {ev}")
      case now: True
      then show ?thesis
        using True signal_task_pending [OF ev Cons.prems(1)] by (auto simp: signals_idle)
    next
      case False
      then have "pending (reset_event ev t) \<noteq> {}" unfolding pending_reset [OF ev] by auto
      then show ?thesis
        using False True Cons.IH [of "reset_event ev t"] Cons.prems signal_task_pending [OF ev Cons.prems(1)]
        by (auto simp: pending_reset [OF ev] ev)
    qed
  qed
qed auto

lemma wait_all_result:
  assumes "wait_all tid single evs k = Some k'" "tid < length (kn_tasks k)"
    and "list_all (\<lambda>ev. ev < 8 * length (tb_eventList (kn_tasks k ! tid))) evs"
  shows "pending (kn_tasks k' ! tid) = pending (kn_tasks k ! tid) \<union> set evs \<and>
    (evs \<noteq> [] \<longrightarrow> tb_state (kn_tasks k' ! tid) = WAITING_EVENT \<and> tb_waitSingleEvent (kn_tasks k' ! tid) = single) \<and>
    length (tb_eventList (kn_tasks k' ! tid)) = length (tb_eventList (kn_tasks k ! tid)) \<and>
    length (kn_tasks k') = length (kn_tasks k) \<and> kn_running_tid k' = kn_running_tid k"
  using assms
proof (induction evs arbitrary: k)
  case (Cons ev evs)
  let ?t = "kn_tasks k ! tid"
  let ?k = "upd_task tid (wait_event ev single 0) k"
  have t: "kn_tasks ?k ! tid = wait_event ev single 0 ?t" "length (kn_tasks ?k) = length (kn_tasks k)"
    "kn_running_tid ?k = kn_running_tid k"
    using Cons.prems(2) by (simp_all add: upd_task_def)
  have run: "wait_all tid single evs ?k = Some k'"
    using Cons.prems(1,2) by (simp add: os_task_wait_event_def os_assert_def)
  have "evs = [] \<Longrightarrow> k' = ?k" using run by simp
  then show ?case
    using Cons.IH [OF run] Cons.prems(2,3) t by (cases evs) (auto simp: wait_event_set pending_set)
qed auto

lemma signal_events_tasks: "kn_tasks (fold os_signal_event evs k) = map (fold signal_task evs) (kn_tasks k)"
  by (induction evs arbitrary: k) (simp_all add: os_signal_event_def os_task_signal_event_def)

text \<open>
  A task that waits for several events is woken by them and by nothing else: when it waits for all, once each of
  them has been signalled, in any order; when it waits for one, with the first of them.
\<close>

theorem event_wait_multiple_wakes:
  assumes "kernel_wf k" "kn_running_tid k = tid" "tid < length (kn_tasks k)" "evs \<noteq> []"
    and "list_all (\<lambda>ev. ev < N_TOTAL_EVENTS) evs" "list_all (\<lambda>ev. ev < N_TOTAL_EVENTS) sigs"
    and "os_wait_multiple_events waitAll evs pc k = Some k'"
  shows "tb_state (kn_tasks (fold os_signal_event sigs k') ! tid) =
    (if (if waitAll then set evs \<subseteq> set sigs else set evs \<inter> set sigs \<noteq> {}) then READY else WAITING_EVENT)"
proof -
  let ?k = "upd_task tid clear_wait_queue k"
  obtain k1 where k1: "wait_all tid (\<not> waitAll) evs ?k = Some k1" "k' = leave pc k1"
    using assms(2,7) by (auto simp: os_wait_multiple_events_def os_wait_multiple_def)
  have t: "kn_tasks ?k ! tid = clear_wait_queue (kn_tasks k ! tid)" "length (kn_tasks ?k) = length (kn_tasks k)"
    "kn_running_tid ?k = tid"
    using assms(2,3) by (simp_all add: upd_task_def)
  have len: "length (tb_eventList (clear_wait_queue (kn_tasks k ! tid))) = 1" by (simp add: clear_wait_queue_def)
  have "list_all (\<lambda>ev. ev < 8) evs" using assms(5) by (auto simp: list_all_iff)
  note r = wait_all_result [OF k1(1), unfolded t, OF assms(3), unfolded len, simplified, OF this]
  let ?t = "kn_tasks k' ! tid"
  have k': "?t = (kn_tasks k1 ! tid)\<lparr>tb_internal_state := pc\<rparr>" "length (kn_tasks k') = length (kn_tasks k)"
    using r assms(3) k1(2) by (auto simp: leave_def upd_task_def t)
  then have "waiting ?t" "pending ?t = set evs" "tb_waitSingleEvent ?t = (\<not> waitAll)" "length (tb_eventList ?t) = 1"
    "tb_state ?t = WAITING_EVENT"
    using r assms(4) by auto
  moreover have "list_all (\<lambda>ev. ev < 8) sigs" using assms(6) by (auto simp: list_all_iff)
  ultimately have "tb_state (fold signal_task sigs ?t) =
    (if (if waitAll then set evs \<subseteq> set sigs else set evs \<inter> set sigs \<noteq> {}) then READY else WAITING_EVENT)"
    using signals_wake [of ?t sigs] assms(4) by auto
  then show ?thesis using assms(3) k'(2) by (simp add: signal_events_tasks)
qed

section \<open>Waiting for the clock\<close>

lemma ISR_signals_idle:
  "i < length (kn_tasks k) \<Longrightarrow> \<not> waiting (kn_tasks k ! i) \<Longrightarrow>
    kn_tasks ((event_ISR_signal ev ^^ n) k) ! i = kn_tasks k ! i"
  by (induction n) (simp_all add: event_ISR_signal_def os_event_set_signaling_tid_def os_signal_event_def
      os_task_signal_event_def signal_task_idle [simplified])

lemma msgQ_tick_idle:
  "i < length (kn_tasks k) \<Longrightarrow> \<not> waiting (kn_tasks k ! i) \<Longrightarrow> kn_tasks (os_msgQ_tick q k) ! i = kn_tasks k ! i"
  by (simp add: os_msgQ_tick_def split_beta ISR_signals_idle set_queue_def)

lemma tick_index_other:
  assumes "i < length (kn_tasks k)" "\<not> waiting (kn_tasks k ! i)" "j \<noteq> i"
  shows "kn_tasks (tick_index clock n j k) ! i = kn_tasks k ! i"
  using assms by (simp add: tick_index_def Let_def upd_task_def msgQ_tick_idle)

lemma tick_index_self:
  assumes "i < length (kn_tasks k)" "\<not> waiting (tick_task clock n (kn_tasks k ! i))"
  shows "kn_tasks (tick_index clock n i k) ! i = tick_task clock n (kn_tasks k ! i)"
  using assms by (cases "clock = 0") (simp_all add: tick_index_def Let_def upd_task_def msgQ_tick_idle)

lemma fold_tick_other:
  "i < length (kn_tasks k) \<Longrightarrow> \<not> waiting (kn_tasks k ! i) \<Longrightarrow> i \<notin> set js \<Longrightarrow>
    kn_tasks (fold (tick_index clock n) js k) ! i = kn_tasks k ! i \<and>
    length (kn_tasks (fold (tick_index clock n) js k)) = length (kn_tasks k)"
proof (induction js arbitrary: k)
  case (Cons j js)
  have "kn_tasks (tick_index clock n j k) ! i = kn_tasks k ! i"
    using Cons.prems by (intro tick_index_other) auto
  then show ?case using Cons.IH [of "tick_index clock n j k"] Cons.prems by simp
qed simp

lemma task_tick_task:
  assumes i: "i < length (kn_tasks k)" "\<not> waiting (kn_tasks k ! i)"
  shows "kn_tasks (os_task_tick clock n k) ! i = tick_task clock n (kn_tasks k ! i) \<and>
    length (kn_tasks (os_task_tick clock n k)) = length (kn_tasks k)"
proof -
  let ?n = "length (kn_tasks k)" and ?f = "tick_index clock n"
  have nw: "\<not> waiting (tick_task clock n (kn_tasks k ! i))"
    using i(2) by (auto simp: tick_task_def Let_def)
  have split: "[0..<?n] = [0..<i] @ i # [Suc i..<?n]"
    using i(1) upt_add_eq_append [of 0 i "?n - i"] by (simp add: upt_conv_Cons)
  define k1 where "k1 = fold ?f [0..<i] k"
  have k1: "kn_tasks k1 ! i = kn_tasks k ! i" "length (kn_tasks k1) = ?n"
    using fold_tick_other [OF i, of "[0..<i]"] by (simp_all add: k1_def)
  have k2: "kn_tasks (?f i k1) ! i = tick_task clock n (kn_tasks k ! i)" "length (kn_tasks (?f i k1)) = ?n"
    using tick_index_self [of i k1] k1 i nw by simp_all
  have "os_task_tick clock n k = fold ?f [Suc i..<?n] (?f i k1)"
    unfolding os_task_tick_def split by (simp add: k1_def)
  then show ?thesis using fold_tick_other [of i "?f i k1" "[Suc i..<?n]"] k2 i nw by simp
qed

lemma ticks_task:
  assumes "i < length (kn_tasks k)" "tb_state (kn_tasks k ! i) = WAITING_TIME" "tb_clockId (kn_tasks k ! i) = 0"
    and "0 < tb_time (kn_tasks k ! i)"
  shows "length (kn_tasks ((os_tick ^^ j) k)) = length (kn_tasks k) \<and>
    (if j < unat (tb_time (kn_tasks k ! i))
     then tb_state (kn_tasks ((os_tick ^^ j) k) ! i) = WAITING_TIME \<and> tb_clockId (kn_tasks ((os_tick ^^ j) k) ! i) = 0 \<and>
       unat (tb_time (kn_tasks ((os_tick ^^ j) k) ! i)) = unat (tb_time (kn_tasks k ! i)) - j
     else tb_state (kn_tasks ((os_tick ^^ j) k) ! i) = READY)"
proof (induction j)
  case 0
  then show ?case using assms by (simp add: word_less_nat_alt)
next
  case (Suc j)
  define kj where "kj = (os_tick ^^ j) k"
  define t where "t = kn_tasks kj ! i"
  have IH: "length (kn_tasks kj) = length (kn_tasks k)" "if j < unat (tb_time (kn_tasks k ! i))
     then tb_state t = WAITING_TIME \<and> tb_clockId t = 0 \<and> unat (tb_time t) = unat (tb_time (kn_tasks k ! i)) - j
     else tb_state t = READY"
    using Suc by (simp_all add: kj_def t_def)
  have i: "i < length (kn_tasks kj)" using IH(1) assms(1) by simp
  have "tb_state t = WAITING_TIME \<or> tb_state t = READY" using IH(2) by (auto split: if_splits)
  then have "\<not> waiting (kn_tasks kj ! i)" by (auto simp: t_def)
  note r = task_tick_task [OF i this, of 0 1, folded t_def]
  have *: "1 < tb_time t \<Longrightarrow> unat (tb_time t - 1) = unat (tb_time t) - 1"
    by (rule unat_minus_one) (auto simp: word_less_nat_alt)
  have "(os_tick ^^ Suc j) k = os_task_tick 0 1 kj" by (simp add: kj_def os_tick_def)
  then show ?case
    using IH r * by (auto simp: tick_task_def Let_def word_le_nat_alt word_less_nat_alt split: if_splits)
qed

lemma task_wait_ticks:
  assumes "kn_running_tid k = tid" "tid < length (kn_tasks k)" "os_wait_ticks time 0 pc k = Some k'"
  shows "tb_state (kn_tasks ((os_tick ^^ j) k') ! tid) = (if j < unat time then WAITING_TIME else READY)"
proof -
  have "0 < time" "k' = leave pc (upd_task tid (\<lambda>t. t\<lparr>tb_clockId := 0, tb_time := time, tb_state := WAITING_TIME\<rparr>) k)"
    using assms by (auto simp: os_wait_ticks_def os_task_wait_time_set_def os_assert_def split: if_splits)
  then show ?thesis
    using ticks_task [of tid k' j] assms(1,2) by (simp add: leave_def upd_task_def split: if_splits)
qed

text \<open>
  A task that calls \<^verbatim>\<open>task_wait\<close> with a number of ticks is not ready before the clock has ticked that often, and is
  ready from then on.
\<close>

theorem task_wait_exact:
  assumes "kn_running_tid k = tid" "tid < length (kn_tasks k)" "os_wait_ticks time 0 pc k = Some k'"
  shows "tb_state (kn_tasks ((os_tick ^^ j) k') ! tid) = (if j < unat time then WAITING_TIME else READY)"
  by (rule task_wait_ticks [OF assms])

section \<open>A small system\<close>

text \<open>
  Two tasks of the firmware, the UART Task with priority 10 and a queue, and the Network Task with priority 20, after
  the set-up and after the UART Task has started to wait for a semaphore.
\<close>

definition demo_setup :: "nat Kernel" where
  "demo_setup = fst (the (task_create 20 [] (fst (the (task_create 10 (replicate 3 (demo_msg 0))
     (fst (the (sem_counting_create 10 0 os_init))))))))"

definition demo_kernel :: "nat Kernel" where
  "demo_kernel = demo_setup\<lparr>kn_running_tid := os_task_highest_prio_ready_task demo_setup\<rparr>"

definition demo_waiting :: "nat Kernel" where
  "demo_waiting = the (os_wait_sem 0 100 demo_kernel)"

lemma demo_steps:
  "kernel_step\<^sup>*\<^sup>* os_init demo_setup" "kernel_step\<^sup>*\<^sup>* os_init demo_kernel" "kernel_step\<^sup>*\<^sup>* os_init demo_waiting"
proof -
  let ?k1 = "fst (the (sem_counting_create 10 0 os_init)) :: nat Kernel"
  let ?k2 = "fst (the (task_create 10 (replicate 3 (demo_msg 0)) ?k1))"
  have "kernel_step os_init ?k1"
    by (rule kernel_step.sem_create [of 0 10 _ _ 0]) (simp_all add: sem_counting_create_def os_sem_create_def os_assert_def os_init_def)
  moreover have "kernel_step ?k1 ?k2"
    by (rule kernel_step.task_create [of "replicate 3 (demo_msg 0)" 10 _ _ 0])
      (simp_all add: sem_counting_create_def os_sem_create_def os_assert_def os_init_def task_create_def os_msgQ_create_def
        event_create_def)
  moreover have "kernel_step ?k2 demo_setup" unfolding demo_setup_def
    by (rule kernel_step.task_create [of "[]" 20 _ _ 1])
      (simp_all add: sem_counting_create_def os_sem_create_def os_assert_def os_init_def task_create_def os_msgQ_create_def
        event_create_def new_task_def clear_wait_queue_def)
  ultimately show s: "kernel_step\<^sup>*\<^sup>* os_init demo_setup" by simp
  have "kernel_step demo_setup demo_kernel" unfolding demo_kernel_def by (rule kernel_step.dispatch)
  with s show k: "kernel_step\<^sup>*\<^sup>* os_init demo_kernel" by simp
  have "kernel_step demo_kernel demo_waiting"
    by (rule kernel_step.sem_wait [of 0 _ 100])
      (simp_all add: demo_waiting_def demo_kernel_def demo_setup_def sem_counting_create_def os_sem_create_def os_assert_def
        os_init_def task_create_def os_msgQ_create_def event_create_def new_task_def clear_wait_queue_def
        os_task_highest_prio_ready_task_def os_wait_sem_def os_sem_larger_than_zero_def sem_at_def os_task_wait_sem_set_def)
  with k show "kernel_step\<^sup>*\<^sup>* os_init demo_waiting" by simp
qed

lemmas demo_defs = demo_waiting_def demo_kernel_def demo_setup_def sem_counting_create_def os_sem_create_def os_assert_def
  os_init_def task_create_def os_msgQ_create_def event_create_def new_task_def clear_wait_queue_def
  os_task_highest_prio_ready_task_def os_wait_sem_def os_sem_larger_than_zero_def sem_at_def os_task_wait_sem_set_def
  upd_task_def leave_def

lemma demo_wf: "kernel_wf demo_kernel" "kernel_wf demo_waiting"
  using demo_steps kernel_reachable_wf_lemma by blast+

lemma demo_parts:
  "length (kn_tasks demo_kernel) = 2" "kn_running_tid demo_kernel = 0"
  "length (kn_tasks demo_waiting) = 2" "map tb_prio (kn_tasks demo_waiting) = [10, 20]" "length (kn_sems demo_waiting) = 1"
  "map tb_state (kn_tasks demo_waiting) = [WAITING_SEM, READY]" "map tb_semaphore (kn_tasks demo_waiting) = [0, 0]"
  by (simp_all add: demo_defs)





lemma signal_hands_over_witness:
  "sem_ISR_signal 0 demo_waiting = upd_task 0 (\<lambda>t. t\<lparr>tb_state := READY\<rparr>) demo_waiting"
proof -
  obtain t0 t1 where t: "kn_tasks demo_waiting = [t0, t1]"
    using demo_parts(3) by (auto simp: length_Suc_conv eval_nat_numeral)
  then have p: "tb_state t0 = WAITING_SEM" "tb_state t1 = READY" "tb_prio t1 = 20" "tb_prio t0 = 10" "tb_semaphore t0 = 0"
    using demo_parts(4,6,7) by simp_all
  then have "the_best (waits_sem 0) [t0, t1] i \<Longrightarrow> i = 0" for i
    by (cases i) (auto simp: the_best_def less_Suc_eq waits_sem_def)
  moreover have "os_task_waiting_this_semaphore 0 demo_waiting"
    using p t by (simp add: os_task_waiting_this_semaphore_def waits_sem_def)
  ultimately show ?thesis
    using signal_hands_over [OF demo_wf(2), of 0] demo_parts(5) p by (auto simp: t)
qed

lemma event_wait_multiple_wakes_witness:
  "\<exists>k'. os_wait_multiple_events True [0, 3] 200 demo_kernel = Some k' \<and>
     tb_state (kn_tasks (fold os_signal_event [3] k') ! 0) = WAITING_EVENT \<and>
     tb_state (kn_tasks (fold os_signal_event [3, 1, 0] k') ! 0) = READY"
proof -
  have "\<exists>k'. os_wait_multiple_events True [0, 3] 200 demo_kernel = Some k'"
    by (simp add: os_wait_multiple_events_def os_wait_multiple_def os_task_wait_event_def os_assert_def demo_parts upd_task_def)
  then obtain k' where k': "os_wait_multiple_events True [0, 3] 200 demo_kernel = Some k'" by blast
  show ?thesis
    using event_wait_multiple_wakes [OF demo_wf(1) demo_parts(2), of "[0, 3]" "[3]" True 200 k']
      event_wait_multiple_wakes [OF demo_wf(1) demo_parts(2), of "[0, 3]" "[3, 1, 0]" True 200 k'] k' demo_parts(1)
    by simp
qed

lemma task_wait_exact_witness:
  "\<exists>k'. os_wait_ticks 5 0 300 demo_kernel = Some k' \<and> tb_state (kn_tasks ((os_tick ^^ 4) k') ! 0) = WAITING_TIME \<and>
     tb_state (kn_tasks ((os_tick ^^ 5) k') ! 0) = READY"
proof -
  obtain k' where k': "os_wait_ticks 5 0 300 demo_kernel = Some k'"
    by (simp add: os_wait_ticks_def os_task_wait_time_set_def os_assert_def demo_parts)
  show ?thesis
    using task_wait_exact [OF demo_parts(2) _ k', of 4] task_wait_exact [OF demo_parts(2) _ k', of 5] k' demo_parts(1)
    by simp
qed

end
