(* ===== verification/SensorTask.thy ===== *)
theory SensorTask
  imports NetTypes SpiOps KernelSched
begin

text \<open>
  The Sensor Task (\<^verbatim>\<open>src/sensor.cpp\<close>, \<^verbatim>\<open>src/sensor.h\<close>) on the kernel. One task runs per sensor; sensors on the same
  I/O port share a port semaphore. The functions of the driver and of the simulator act on the state of the
  port and are the record \<open>Driver\<close>; \<open>spi_driver\<close> is the record for a sensor on an SPI port. The task is cut at its calls of
  the kernel: a place is the code from one such call to the next.
\<close>

section \<open>Sensors and their contexts\<close>

record SensorInfo =
  in_name :: string
  in_has_resume :: bool       \<comment> \<open>whether \<^verbatim>\<open>resume_sensor_func\<close> is set\<close>
  in_has_ready :: bool        \<comment> \<open>whether \<^verbatim>\<open>is_sensor_ready_func\<close> is set\<close>
  in_semaphore :: nat
  in_id :: u8
  in_poll_interval :: u16

record Sensor =
  sn_info :: SensorInfo
  sn_port_id :: u32
  sn_port :: "nat option"     \<comment> \<open>the SPI port, None for a null pointer\<close>
  sn_sim_semaphore :: nat     \<comment> \<open>the semaphore of the sensor's simulator\<close>

record SensorContext =
  cx_sensor :: Sensor
  cx_receive_task_id :: nat
  cx_msg :: SensorMsg
  cx_read_semaphore :: "nat option"
  cx_send_semaphore :: "nat option"

text \<open>The constructors: a sensor is polled, or it is an event sensor that is also resumed.\<close>

definition SensorInfo0 :: "string \<Rightarrow> bool \<Rightarrow> bool \<Rightarrow> SensorInfo" where
  "SensorInfo0 name resume ready = \<lparr>in_name = name, in_has_resume = resume, in_has_ready = ready,
     in_semaphore = 0, in_id = 0, in_poll_interval = 0\<rparr>"

definition is_valid_event_sensor :: "Sensor \<Rightarrow> bool" where
  "is_valid_event_sensor s =
     (if \<not> in_has_resume (sn_info s) then False else if \<not> in_has_ready (sn_info s) then False else True)"

section \<open>Port semaphores\<close>

record SensorModule =
  md_nextSensorID :: u8
  md_portSemaphores :: "(u32 \<times> nat) list"  \<comment> \<open>the allocated ports and their semaphores\<close>

fun find_port_semaphore :: "u32 \<Rightarrow> (u32 \<times> nat) list \<Rightarrow> nat option" where
  "find_port_semaphore port_id [] = None"
| "find_port_semaphore port_id ((p, s) # ps) = (if port_id = p then Some s else find_port_semaphore port_id ps)"

text \<open>The outer \<open>None\<close> is a failed assertion of the kernel, the inner one the null pointer of the code.\<close>

definition allocate_port_semaphore ::
  "u32 \<Rightarrow> SensorModule \<Rightarrow> 'a Kernel \<Rightarrow> (SensorModule \<times> 'a Kernel \<times> nat option) option" where
  "allocate_port_semaphore port_id md k =
     (if port_id = 0 then Some (md, k, None)
      else case find_port_semaphore port_id (md_portSemaphores md) of
             Some s \<Rightarrow> Some (md, k, Some s)
           | None \<Rightarrow>
               if length (md_portSemaphores md) \<ge> MAX_PORT_COUNT then Some (md, k, None)
               else map_option (\<lambda>(k, s). (md\<lparr>md_portSemaphores := md_portSemaphores md @ [(port_id, s)]\<rparr>, k, Some s))
                      (sem_counting_create 10 1 k))"

text \<open>
  Setting up a context. \<open>init\<close> is the driver's initialisation, which sets the port. The result is the context
  and whether the simulator is to capture, replay, simulate and merge, unless the code returns early.
\<close>

definition setup_sensor_context ::
  "(Sensor \<Rightarrow> Sensor) \<Rightarrow> SensorContext \<Rightarrow> Sensor \<Rightarrow> u16 \<Rightarrow> nat \<Rightarrow> SensorModule \<Rightarrow> 'a Kernel
    \<Rightarrow> (SensorModule \<times> 'a Kernel \<times> SensorContext \<times> bool option) option" where
  "setup_sensor_context init cx s pollInterval taskID md k =
     (let sensorID = md_nextSensorID md;
          md = md\<lparr>md_nextSensorID := sensorID + 1\<rparr>
      in case sem_bin_create 0 k of
           None \<Rightarrow> None
         | Some (k, sem) \<Rightarrow>
             let s = s\<lparr>sn_info := (sn_info s)\<lparr>in_id := sensorID, in_semaphore := sem, in_poll_interval := pollInterval\<rparr>,
                       sn_port := None, sn_port_id := 0\<rparr>;
                 cx = cx\<lparr>cx_receive_task_id := taskID\<rparr>;
                 s = init s
             in case allocate_port_semaphore (sn_port_id s) md k of
                  None \<Rightarrow> None
                | Some (md, k, read) \<Rightarrow>
                    let cx = cx\<lparr>cx_sensor := s, cx_read_semaphore := read\<rparr>
                    in if read = None then Some (md, k, cx, None)
                       else
                         let m = cx_msg cx;
                             m = m\<lparr>sm_signal := in_id (sn_info s),
                                   sm_name := poke (strncpy (sm_name m) (in_name (sn_info s)) MAX_SENSOR_NAME_SIZE)
                                     MAX_SENSOR_NAME_SIZE NUL\<rparr>;
                             cx = cx\<lparr>cx_msg := m\<rparr>
                         in if in_has_resume (sn_info s) \<and> \<not> is_valid_event_sensor s then Some (md, k, cx, None)
                            else map_option (\<lambda>(k, sem). (md, k, cx\<lparr>cx_sensor := s\<lparr>sn_sim_semaphore := sem\<rparr>\<rparr>,
                                     Some (\<not> in_has_resume (sn_info s))))
                                   (sem_bin_create 0 k))"

text \<open>Copying a reading into the message: at most as many values as there are and as the caller has room for.\<close>

definition receive_sensor_data :: "f32 list \<Rightarrow> u8 \<Rightarrow> f32 list \<Rightarrow> u8 \<Rightarrow> f32 list \<times> u8" where
  "receive_sensor_data readings dataSize data room =
     (let n = min (min (unat room) (unat dataSize)) MAX_SENSOR_DATA_SIZE
      in (blit data 0 (take n readings), of_nat n))"

section \<open>The task\<close>

record 'io Driver =
  dr_open :: "'io \<Rightarrow> 'io"                              \<comment> \<open>\<^verbatim>\<open>simulator_open\<close>\<close>
  dr_should_poll :: "'io \<Rightarrow> bool"                      \<comment> \<open>\<^verbatim>\<open>simulator_should_poll_sensor\<close>\<close>
  dr_poll :: "'io \<Rightarrow> f32 list \<Rightarrow> 'io \<times> f32 list \<times> u8"   \<comment> \<open>\<^verbatim>\<open>poll_sensor_func\<close>\<close>
  dr_resume :: "'io \<Rightarrow> f32 list \<Rightarrow> 'io \<times> f32 list \<times> u8" \<comment> \<open>\<^verbatim>\<open>resume_sensor_func\<close>\<close>
  dr_replay :: "'io \<Rightarrow> 'io \<times> bool"                      \<comment> \<open>\<^verbatim>\<open>simulator_replay\<close>, false for a null result\<close>
  dr_close :: "'io \<Rightarrow> 'io"                             \<comment> \<open>\<^verbatim>\<open>simulator_close\<close>\<close>

datatype place = Start | Acquire | Acquired | Check | Resume | Close | Deliver

record 'io World =
  wd_kernel :: "SensorMsg Kernel"
  wd_ctx :: "nat \<Rightarrow> SensorContext"
  wd_pc :: "nat \<Rightarrow> place"
  wd_io :: "nat \<Rightarrow> 'io"    \<comment> \<open>the state of the port behind each port semaphore\<close>

definition at_place :: "nat \<Rightarrow> place \<Rightarrow> 'io World \<Rightarrow> 'io World" where
  "at_place tid p w = w\<lparr>wd_pc := (wd_pc w)(tid := p)\<rparr>"

definition set_reading :: "f32 list \<Rightarrow> u8 \<Rightarrow> SensorContext \<Rightarrow> SensorContext" where
  "set_reading d n cx = cx\<lparr>cx_msg := (cx_msg cx)\<lparr>sm_data := d, sm_count := n\<rparr>\<rparr>"

text \<open>Polling, or leaving the message without data for the replay.\<close>

definition sensor_poll :: "'io Driver \<Rightarrow> nat \<Rightarrow> nat \<Rightarrow> 'io World \<Rightarrow> 'io World" where
  "sensor_poll dr tid port w =
     (let io = dr_open dr (wd_io w port);
          cx = set_reading (sm_data (cx_msg (wd_ctx w tid))) SENSOR_NOT_READY (wd_ctx w tid)
      in if dr_should_poll dr io
         then let (io, d, n) = dr_poll dr io (sm_data (cx_msg cx))
              in w\<lparr>wd_io := (wd_io w)(port := io),
                   wd_ctx := (wd_ctx w)(tid := (set_reading d n cx)\<lparr>cx_send_semaphore := Some (in_semaphore (sn_info (cx_sensor cx)))\<rparr>)\<rparr>
         else w\<lparr>wd_io := (wd_io w)(port := io), wd_ctx := (wd_ctx w)(tid := cx\<lparr>cx_send_semaphore := None\<rparr>)\<rparr>)"

text \<open>Resuming an event sensor, or replaying the next packet. The truth value says whether the loop goes on.\<close>

definition sensor_resume :: "'io Driver \<Rightarrow> nat \<Rightarrow> nat \<Rightarrow> 'io World \<Rightarrow> 'io World \<times> bool" where
  "sensor_resume dr tid port w =
     (let cx = wd_ctx w tid
      in if dr_should_poll dr (wd_io w port)
         then let (io, d, n) = dr_resume dr (wd_io w port) (sm_data (cx_msg cx))
              in (w\<lparr>wd_io := (wd_io w)(port := io), wd_ctx := (wd_ctx w)(tid := set_reading d n cx)\<rparr>, True)
         else let (io, more) = dr_replay dr (wd_io w port)
              in (w\<lparr>wd_io := (wd_io w)(port := io),
                   wd_ctx := (wd_ctx w)(tid := cx\<lparr>cx_send_semaphore :=
                     (if more then Some (sn_sim_semaphore (cx_sensor cx)) else None)\<rparr>)\<rparr>, more))"

definition has_data :: "SensorMsg \<Rightarrow> bool" where
  "has_data m \<longleftrightarrow> sm_count m > 0 \<and> sm_count m \<noteq> SENSOR_NOT_READY"

definition deliver :: "SensorContext \<Rightarrow> SensorMsg Kernel \<Rightarrow> SensorMsg Kernel option" where
  "deliver cx k =
     (case (if has_data (cx_msg cx)
            then map_option fst (msg_post (cx_receive_task_id cx)
              \<lparr>mg_delay = 0, mg_reload = 0, mg_body = cx_msg cx\<rparr> 0 0 True 103 k)
            else Some k) of
        None \<Rightarrow> None
      | Some k \<Rightarrow> os_wait_ticks (ucast (in_poll_interval (sn_info (cx_sensor cx)))) 0 105 k)"

text \<open>
  The code of \<^verbatim>\<open>sensor_task\<close> from the place of the running task. A task without a port semaphore returns to the scheduler
  without waiting.
\<close>

definition sensor_task :: "(nat \<Rightarrow> 'io Driver) \<Rightarrow> 'io World \<Rightarrow> 'io World option" where
  "sensor_task drv w =
     (let tid = kn_running_tid (wd_kernel w);
          cx = wd_ctx w tid;
          dr = drv tid;
          call = (\<lambda>op p. map_option (\<lambda>k. at_place tid p (w\<lparr>wd_kernel := k\<rparr>)) (op (wd_kernel w)))
      in case cx_read_semaphore cx of
           None \<Rightarrow> Some (w\<lparr>wd_kernel := (wd_kernel w)\<lparr>kn_running_tid := NO_TID\<rparr>\<rparr>)
         | Some port \<Rightarrow>
             (case wd_pc w tid of
                Start \<Rightarrow> Some (at_place tid Acquire w)
              | Acquire \<Rightarrow> call (os_wait_sem port 61) Acquired
              | Acquired \<Rightarrow> Some (at_place tid Check (sensor_poll dr tid port w))
              | Check \<Rightarrow>
                  if sm_count (cx_msg cx) \<noteq> SENSOR_NOT_READY then Some (at_place tid Close w)
                  else (case cx_send_semaphore cx of
                          None \<Rightarrow> Some (at_place tid Resume w)
                        | Some s \<Rightarrow> call (os_wait_sem s 81) Resume)
              | Resume \<Rightarrow>
                  let (w, more) = sensor_resume dr tid port w
                  in Some (at_place tid (if more then Check else Close) w)
              | Close \<Rightarrow>
                  let w = w\<lparr>wd_io := (wd_io w)(port := dr_close dr (wd_io w port))\<rparr>
                  in Some (at_place tid Deliver (w\<lparr>wd_kernel := os_signal_sem port 100 (wd_kernel w)\<rparr>))
              | Deliver \<Rightarrow> call (deliver cx) Acquire))"

section \<open>Sensors on an SPI port\<close>

text \<open>
  The state of an SPI port with the simulators of its sensors. Opening a simulator connects it to the port, closing it
  disconnects it. A call that has no result leaves the state as it is.
\<close>

type_synonym spi_io = "Bus \<times> (nat \<Rightarrow> Simulator_Control)"

definition spi_driver ::
  "(Bus \<Rightarrow> f32 list \<Rightarrow> Bus \<times> f32 list \<times> u8) \<Rightarrow> (Bus \<Rightarrow> f32 list \<Rightarrow> Bus \<times> f32 list \<times> u8) \<Rightarrow> u32 \<Rightarrow> Poll list \<Rightarrow> nat \<Rightarrow> spi_io Driver" where
  "spi_driver poll resume start ps tid = \<lparr>
     dr_open = (\<lambda>(b, sims). (fst (simulator_open (b\<lparr>bs_sim := sims tid\<rparr>)), sims)),
     dr_should_poll = (\<lambda>(b, sims). simulator_should_poll_sensor (bs_sim b)),
     dr_poll = (\<lambda>(b, sims) d. let (b, d, n) = poll b d in ((b, sims), d, n)),
     dr_resume = (\<lambda>(b, sims) d. let (b, d, n) = resume b d in ((b, sims), d, n)),
     dr_replay = (\<lambda>(b, sims). case simulator_replay b of
         None \<Rightarrow> ((b, sims), False) | Some (b, s) \<Rightarrow> ((b, sims), s \<noteq> None)),
     dr_close = (\<lambda>(b, sims). case simulator_close start ps b of
         None \<Rightarrow> (b, sims) | Some (b, _) \<Rightarrow> (b, sims(tid := bs_sim b)))\<rparr>"

end
