(* ===== verification/SensorLaws.thy ===== *)
theory SensorLaws
  imports SensorTask
begin

text \<open>
  The sensor tasks share the I/O ports safely: whatever the other tasks, the interrupts and the clock do, at most one
  sensor task is between the wait for a port semaphore and its release. The step relation \<open>world_step\<close> runs the
  sensor tasks and lets the rest of the system make any change that leaves the port semaphores and their waiters alone.
\<close>

section \<open>Allocating port semaphores\<close>

lemma find_port_semaphore_some: "find_port_semaphore p ps = Some s \<Longrightarrow> (p, s) \<in> set ps"
  by (induction p ps rule: find_port_semaphore.induct) (auto split: if_splits)

lemma find_port_semaphore_none: "find_port_semaphore p ps = None \<longleftrightarrow> p \<notin> fst ` set ps"
  by (induction p ps rule: find_port_semaphore.induct) auto

lemma find_port_semaphore_append:
  "find_port_semaphore p (ps @ [(q, s)]) =
    (case find_port_semaphore p ps of Some t \<Rightarrow> Some t | None \<Rightarrow> if p = q then Some s else None)"
  by (induction p ps rule: find_port_semaphore.induct) auto

definition module_wf :: "SensorModule \<Rightarrow> 'a Kernel \<Rightarrow> bool" where
  "module_wf md k \<longleftrightarrow> length (md_portSemaphores md) \<le> MAX_PORT_COUNT \<and> distinct (map fst (md_portSemaphores md)) \<and>
     distinct (map snd (md_portSemaphores md)) \<and> (\<forall>(p, s) \<in> set (md_portSemaphores md). p \<noteq> 0 \<and> s < length (kn_sems k))"

text \<open>
  Two sensors get the same port semaphore exactly when they are on the same port: the semaphore of a port never changes
  once allocated, different ports have different semaphores, a new one lets one task in, and only an
  invalid port or a fifth one gets none.
\<close>

theorem port_semaphores:
  assumes "module_wf md k" "allocate_port_semaphore p md k = Some (md', k', r)"
  shows "module_wf md' k' \<and> find_port_semaphore p (md_portSemaphores md') = r \<and>
    (\<forall>q \<noteq> p. find_port_semaphore q (md_portSemaphores md') = find_port_semaphore q (md_portSemaphores md)) \<and>
    (r = None \<longleftrightarrow> p = 0 \<or> find_port_semaphore p (md_portSemaphores md) = None \<and>
       length (md_portSemaphores md) = MAX_PORT_COUNT) \<and>
    (\<forall>s. r = Some s \<and> find_port_semaphore p (md_portSemaphores md) = None \<longrightarrow>
       sem_at k' s = \<lparr>sv_maxValue = 10, sv_value = 1\<rparr> \<and> kn_tasks k' = kn_tasks k)"
proof -
  have zero: "find_port_semaphore 0 (md_portSemaphores md) = None"
    using assms(1) by (auto simp: find_port_semaphore_none module_wf_def)
  have fresh: "length (kn_sems k) \<notin> snd ` set (md_portSemaphores md)" using assms(1) by (auto simp: module_wf_def)
  show ?thesis
  proof (cases "p = 0 \<or> find_port_semaphore p (md_portSemaphores md) \<noteq> None \<or> length (md_portSemaphores md) \<ge> MAX_PORT_COUNT")
    case True
    then have "md' = md \<and> k' = k \<and> r = find_port_semaphore p (md_portSemaphores md)"
      using assms(2) zero by (auto simp: allocate_port_semaphore_def split: option.splits if_splits)
    then show ?thesis using True assms(1) zero by (auto simp: module_wf_def)
  next
    case False
    then have n: "find_port_semaphore p (md_portSemaphores md) = None" "p \<noteq> 0" "length (md_portSemaphores md) < MAX_PORT_COUNT"
      by auto
    let ?s = "length (kn_sems k)"
    have r: "md' = md\<lparr>md_portSemaphores := md_portSemaphores md @ [(p, ?s)]\<rparr>" "r = Some ?s"
      "k' = k\<lparr>kn_sems := kn_sems k @ [\<lparr>sv_maxValue = 10, sv_value = 1\<rparr>]\<rparr>"
      using assms(2) n by (auto simp: allocate_port_semaphore_def sem_counting_create_def os_sem_create_def os_assert_def split: if_splits)
    have "module_wf md' k'"
      using assms(1) n fresh by (force simp: module_wf_def r find_port_semaphore_none less_Suc_eq)
    then show ?thesis using n r by (auto simp: find_port_semaphore_append sem_at_def split: option.splits)
  qed
qed

section \<open>The rest of the system\<close>

definition same_waiters :: "nat set \<Rightarrow> 'a Kernel \<Rightarrow> 'a Kernel \<Rightarrow> bool" where
  "same_waiters S k k' \<longleftrightarrow> length (kn_tasks k') = length (kn_tasks k) \<and> length (kn_sems k') = length (kn_sems k) \<and>
     (\<forall>s \<in> S. sem_at k' s = sem_at k s) \<and>
     (\<forall>tid < length (kn_tasks k). tb_prio (kn_tasks k' ! tid) = tb_prio (kn_tasks k ! tid) \<and>
        (\<forall>s \<in> S. waits_sem s (kn_tasks k' ! tid) = waits_sem s (kn_tasks k ! tid)))"

text \<open>The running task is ready.\<close>

definition running_ready :: "'a Kernel \<Rightarrow> bool" where
  "running_ready k \<longleftrightarrow> kn_running_tid k = NO_TID \<or>
     kn_running_tid k < length (kn_tasks k) \<and> tb_state (kn_tasks k ! kn_running_tid k) = READY"

definition quiet :: "nat set \<Rightarrow> 'a Kernel \<Rightarrow> 'a Kernel \<Rightarrow> bool" where
  "quiet S k k' \<longleftrightarrow> same_waiters S k k' \<and> kernel_wf k' \<and> running_ready k'"

lemma same_waiters_refl [simp]: "same_waiters S k k"
  by (simp add: same_waiters_def)

lemma same_waiters_trans: "same_waiters S k1 k2 \<Longrightarrow> same_waiters S k2 k3 \<Longrightarrow> same_waiters S k1 k3"
  by (auto simp: same_waiters_def)

lemma same_waiters_map:
  "(\<And>t. tb_prio (f t) = tb_prio t) \<Longrightarrow> (\<And>s t. waits_sem s (f t) = waits_sem s t) \<Longrightarrow>
    same_waiters S k (k\<lparr>kn_tasks := map f (kn_tasks k)\<rparr>)"
  by (auto simp: same_waiters_def sem_at_def)

lemma same_waiters_upd:
  "(tid < length (kn_tasks k) \<Longrightarrow> tb_prio (f (kn_tasks k ! tid)) = tb_prio (kn_tasks k ! tid)) \<Longrightarrow>
    (\<And>s. s \<in> S \<Longrightarrow> tid < length (kn_tasks k) \<Longrightarrow> waits_sem s (f (kn_tasks k ! tid)) = waits_sem s (kn_tasks k ! tid)) \<Longrightarrow>
    same_waiters S k (upd_task tid f k)"
  by (cases "tid < length (kn_tasks k)") (auto simp: same_waiters_def sem_at_def upd_task_def nth_list_update list_update_beyond)

lemma same_waiters_parts:
  "kn_tasks k' = kn_tasks k \<Longrightarrow> kn_sems k' = kn_sems k \<Longrightarrow> same_waiters S k k'"
  by (simp add: same_waiters_def sem_at_def)

lemma waits_signal: "waits_sem s (signal_task ev t) = waits_sem s t" "tb_prio (signal_task ev t) = tb_prio t"
  by (auto simp: waits_sem_def signal_task_def clear_wait_queue_def Let_def)

lemma same_waiters_signal: "same_waiters S k (os_signal_event ev k)"
proof -
  have "same_waiters S k (k\<lparr>kn_lastSignaled := ev\<rparr>)" by (rule same_waiters_parts) simp_all
  moreover have "same_waiters S (k\<lparr>kn_lastSignaled := ev\<rparr>) (os_signal_event ev k)"
    unfolding os_signal_event_def os_task_signal_event_def by (rule same_waiters_map) (simp_all add: waits_signal)
  ultimately show ?thesis by (rule same_waiters_trans)
qed

lemma same_waiters_leave: "same_waiters S k (leave pc k)"
proof -
  have "same_waiters S k (upd_task (kn_running_tid k) (\<lambda>t. t\<lparr>tb_internal_state := pc\<rparr>) k)"
    by (rule same_waiters_upd) (simp_all add: waits_sem_def)
  then show ?thesis unfolding leave_def by (rule same_waiters_trans) (rule same_waiters_parts; simp)
qed

lemma same_waiters_signaling: "same_waiters S k (os_event_set_signaling_tid ev tid k)"
  by (rule same_waiters_parts) (simp_all add: os_event_set_signaling_tid_def)

lemma same_waiters_isr: "same_waiters S k (event_ISR_signal ev k)"
  unfolding event_ISR_signal_def by (rule same_waiters_trans [OF same_waiters_signal same_waiters_signaling])

lemma same_waiters_isrs: "same_waiters S k ((event_ISR_signal ev ^^ n) k)"
  by (induction n) (auto intro: same_waiters_trans same_waiters_isr)

lemma same_waiters_set_queue: "same_waiters S k (set_queue i q k)"
  by (rule same_waiters_parts) (simp_all add: set_queue_def)

lemma waits_tick: "waits_sem s (tick_task clock n t) = waits_sem s t" "tb_prio (tick_task clock n t) = tb_prio t"
  by (auto simp: waits_sem_def tick_task_def clear_wait_queue_def Let_def)

lemma same_waiters_tick_index: "same_waiters S k (tick_index clock n i k)"
proof -
  have 1: "same_waiters S k (upd_task i (tick_task clock n) k)" by (rule same_waiters_upd) (simp_all add: waits_tick)
  have 2: "same_waiters S k (os_msgQ_tick q k)" for q :: nat and k :: "'a Kernel"
    by (simp add: os_msgQ_tick_def split_beta same_waiters_trans [OF same_waiters_set_queue same_waiters_isrs])
  show ?thesis using 1 same_waiters_trans [OF 1 2] by (cases "clock = 0") (simp_all add: tick_index_def Let_def)
qed

lemma same_waiters_tick: "same_waiters S k (os_task_tick clock n k)"
proof -
  have "same_waiters S k (fold (tick_index clock n) js k)" for js and k :: "'a Kernel"
    by (induction js arbitrary: k) (auto intro: same_waiters_trans same_waiters_tick_index)
  then show ?thesis by (simp add: os_task_tick_def)
qed

lemma same_waiters_sem: "sem \<notin> S \<Longrightarrow> same_waiters S k (k\<lparr>kn_sems := (kn_sems k)[sem := v]\<rparr>)"
  by (auto simp: same_waiters_def sem_at_def) (metis nth_list_update_neq)

lemma same_waiters_release:
  assumes "sem \<notin> S" "kernel_wf k"
  shows "same_waiters S k (os_task_release_waiting_task sem k)"
proof -
  let ?i = "highest_waiting sem 0 (kn_tasks k) 255 NO_TID"
  have "?i \<noteq> NO_TID \<Longrightarrow> waits_sem sem (kn_tasks k ! ?i)"
    using best_spec [of "waits_sem sem" 0 "kn_tasks k" 255 NO_TID] by (auto simp: highest_waiting_best)
  then have "?i \<noteq> NO_TID \<Longrightarrow> s \<in> S \<Longrightarrow> \<not> waits_sem s (kn_tasks k ! ?i)" for s
    using assms(1) by (auto simp: waits_sem_def)
  then show ?thesis
    unfolding os_task_release_waiting_task_def Let_def
    by (auto simp: waits_sem_def [where t = "t\<lparr>tb_state := READY\<rparr>" for t] intro!: same_waiters_upd)
qed

lemma same_waiters_ready_wait:
  "tid < length (kn_tasks k) \<Longrightarrow> tb_state (kn_tasks k ! tid) = READY \<Longrightarrow> sem \<notin> S \<Longrightarrow>
    same_waiters S k (upd_task tid (\<lambda>t. t\<lparr>tb_state := WAITING_SEM, tb_semaphore := sem, tb_time := 0\<rparr>) k)"
  by (rule same_waiters_upd) (auto simp: waits_sem_def)

text \<open>The scheduler, the clock and the interrupts are such changes.\<close>

lemma system_quiet:
  assumes "kernel_wf k" "running_ready k"
  shows "quiet S k (k\<lparr>kn_running_tid := os_task_highest_prio_ready_task k\<rparr>)"
    and "quiet S k (os_task_tick clock n k)"
    and "ev < N_TOTAL_EVENTS \<Longrightarrow> quiet S k (event_ISR_signal ev k)"
    and "sem \<notin> S \<Longrightarrow> quiet S k (sem_ISR_signal sem k)"
proof -
  have "running_ready (k\<lparr>kn_running_tid := os_task_highest_prio_ready_task k\<rparr>)"
    using best_spec [of "\<lambda>t. tb_state t = READY" 0 "kn_tasks k" 255 NO_TID]
    by (auto simp: running_ready_def os_task_highest_prio_ready_task_def highest_ready_best)
  then show "quiet S k (k\<lparr>kn_running_tid := os_task_highest_prio_ready_task k\<rparr>)"
    using kernel_step_wf [OF kernel_step.dispatch assms(1)]
    by (simp add: quiet_def same_waiters_parts)
  have tid: "kn_running_tid (os_task_tick clock n k) = kn_running_tid k"
  proof -
    have "kn_running_tid (tick_index clock n i k) = kn_running_tid k" for i and k :: "'a Kernel"
    proof -
      have "kn_running_tid ((event_ISR_signal ev ^^ m) k) = kn_running_tid k" for ev m and k :: "'a Kernel"
        by (induction m) (simp_all add: event_ISR_signal_def os_event_set_signaling_tid_def os_signal_event_def os_task_signal_event_def)
      then show ?thesis by (simp add: tick_index_def Let_def os_msgQ_tick_def split_beta set_queue_def upd_task_def)
    qed
    then have "kn_running_tid (fold (tick_index clock n) js k) = kn_running_tid k" for js and k :: "'a Kernel"
      by (induction js arbitrary: k) simp_all
    then show ?thesis by (simp add: os_task_tick_def)
  qed
  have "running_ready (os_task_tick clock n k)"
  proof (cases "kn_running_tid k = NO_TID")
    case False
    then have r: "kn_running_tid k < length (kn_tasks k)" "tb_state (kn_tasks k ! kn_running_tid k) = READY"
      using assms(2) by (auto simp: running_ready_def)
    then show ?thesis using task_tick_task [of "kn_running_tid k" k clock n] tid
      by (simp add: running_ready_def tick_task_def)
  qed (simp add: running_ready_def tid)
  then show "quiet S k (os_task_tick clock n k)"
    using assms(1) by (simp add: quiet_def same_waiters_tick task_tick_wf)
  show "ev < N_TOTAL_EVENTS \<Longrightarrow> quiet S k (event_ISR_signal ev k)"
  proof -
    have "running_ready (event_ISR_signal ev k)"
      using assms(2) by (auto simp: running_ready_def event_ISR_signal_def os_event_set_signaling_tid_def
          os_signal_event_def os_task_signal_event_def signal_task_def)
    then show "ev < N_TOTAL_EVENTS \<Longrightarrow> quiet S k (event_ISR_signal ev k)"
      using assms(1) by (simp add: quiet_def same_waiters_isr ISR_signal_wf)
  qed
  have "running_ready (upd_task i (\<lambda>t. t\<lparr>tb_state := READY\<rparr>) k)" for i
    using assms(2) by (cases "i = kn_running_tid k") (auto simp: running_ready_def upd_task_def)
  then have "running_ready (sem_ISR_signal sem k)"
    using assms(2) by (auto simp: sem_ISR_signal_def os_sem_increment_def Let_def running_ready_def os_task_release_waiting_task_def)
  moreover have "sem \<notin> S \<Longrightarrow> same_waiters S k (sem_ISR_signal sem k)"
    using assms(1) by (simp add: sem_ISR_signal_def os_sem_increment_def Let_def same_waiters_sem same_waiters_release)
  ultimately show "sem \<notin> S \<Longrightarrow> quiet S k (sem_ISR_signal sem k)"
    using kernel_step_wf [OF kernel_step.sem_isr assms(1), of sem] by (simp add: quiet_def)
qed

section \<open>Holding a port\<close>

inductive world_step :: "nat set \<Rightarrow> nat set \<Rightarrow> (nat \<Rightarrow> 'io Driver) \<Rightarrow> 'io World \<Rightarrow> 'io World \<Rightarrow> bool"
  for S N drv where
  run: "kn_running_tid (wd_kernel w) \<in> N \<Longrightarrow> sensor_task drv w = Some w' \<Longrightarrow> world_step S N drv w w'"
| other: "quiet S (wd_kernel w) k' \<Longrightarrow> world_step S N drv w (w\<lparr>wd_kernel := k'\<rparr>)"

definition inside :: "place \<Rightarrow> bool" where
  "inside p \<longleftrightarrow> p = Acquired \<or> p = Check \<or> p = Resume \<or> p = Close"

text \<open>A task holds the port when it is past the wait for its semaphore, and was not put to sleep there.\<close>

definition holds :: "'io World \<Rightarrow> nat \<Rightarrow> nat \<Rightarrow> bool" where
  "holds w s tid \<longleftrightarrow> cx_read_semaphore (wd_ctx w tid) = Some s \<and> inside (wd_pc w tid) \<and>
     \<not> waits_sem s (kn_tasks (wd_kernel w) ! tid)"

definition other_sem :: "nat set \<Rightarrow> 'a Kernel \<Rightarrow> nat \<Rightarrow> bool" where
  "other_sem S k s \<longleftrightarrow> s \<notin> S \<and> s < length (kn_sems k)"

definition sensor_ctx_wf :: "nat set \<Rightarrow> 'a Kernel \<Rightarrow> SensorContext \<Rightarrow> bool" where
  "sensor_ctx_wf S k cx \<longleftrightarrow> (\<forall>s. cx_read_semaphore cx = Some s \<longrightarrow> s \<in> S) \<and>
     (\<forall>s. cx_send_semaphore cx = Some s \<longrightarrow> other_sem S k s) \<and>
     other_sem S k (in_semaphore (sn_info (cx_sensor cx))) \<and> other_sem S k (sn_sim_semaphore (cx_sensor cx))"

definition world_wf :: "nat set \<Rightarrow> nat set \<Rightarrow> 'io World \<Rightarrow> bool" where
  "world_wf S N w \<longleftrightarrow> (let k = wd_kernel w in
     kernel_wf k \<and> running_ready k \<and> N \<subseteq> {..<length (kn_tasks k)} \<and>
     list_all (\<lambda>t. tb_prio t \<noteq> 255) (kn_tasks k) \<and> (\<forall>tid \<in> N. sensor_ctx_wf S k (wd_ctx w tid)) \<and>
     (\<forall>s \<in> S. s < length (kn_sems k) \<and> 1 \<le> sv_maxValue (sem_at k s) \<and>
        unat (sv_value (sem_at k s)) + card {tid \<in> N. holds w s tid} = 1) \<and>
     (\<forall>tid < length (kn_tasks k). \<forall>s \<in> S. waits_sem s (kn_tasks k ! tid) \<longrightarrow>
        tid \<in> N \<and> wd_pc w tid = Acquired \<and> cx_read_semaphore (wd_ctx w tid) = Some s))"

text \<open>A step that leaves the port semaphores and the places at them alone.\<close>

lemma world_wf_frame:
  assumes wf: "world_wf S N w"
    and k: "same_waiters S (wd_kernel w) (wd_kernel w')" "kernel_wf (wd_kernel w')" "running_ready (wd_kernel w')"
    and cx: "\<And>tid. tid \<in> N \<Longrightarrow> sensor_ctx_wf S (wd_kernel w) (wd_ctx w' tid)"
      "\<And>tid. cx_read_semaphore (wd_ctx w' tid) = cx_read_semaphore (wd_ctx w tid)"
    and pc: "\<And>tid. tid \<in> N \<Longrightarrow> inside (wd_pc w' tid) = inside (wd_pc w tid)"
      "\<And>tid s. tid < length (kn_tasks (wd_kernel w)) \<Longrightarrow> s \<in> S \<Longrightarrow> waits_sem s (kn_tasks (wd_kernel w) ! tid) \<Longrightarrow>
        wd_pc w' tid = wd_pc w tid"
  shows "world_wf S N w'"
proof -
  have len: "length (kn_tasks (wd_kernel w')) = length (kn_tasks (wd_kernel w))"
    "length (kn_sems (wd_kernel w')) = length (kn_sems (wd_kernel w))" using k(1) by (simp_all add: same_waiters_def)
  have N: "tid \<in> N \<Longrightarrow> tid < length (kn_tasks (wd_kernel w))" for tid using wf by (auto simp: world_wf_def Let_def)
  have h: "s \<in> S \<Longrightarrow> tid \<in> N \<Longrightarrow> holds w' s tid = holds w s tid" for s tid
    using k(1) cx(2) pc(1) N [of tid] by (simp add: holds_def same_waiters_def)
  then have "s \<in> S \<Longrightarrow> {tid \<in> N. holds w' s tid} = {tid \<in> N. holds w s tid}" for s by blast
  moreover have "tid \<in> N \<Longrightarrow> sensor_ctx_wf S (wd_kernel w') (wd_ctx w' tid)" for tid
    using cx(1) by (simp add: sensor_ctx_wf_def other_sem_def len)
  moreover have "list_all (\<lambda>t. tb_prio t \<noteq> 255) (kn_tasks (wd_kernel w'))"
    using wf k(1) len by (auto simp: world_wf_def Let_def list_all_length same_waiters_def)
  moreover have "\<forall>s \<in> S. sem_at (wd_kernel w') s = sem_at (wd_kernel w) s" using k(1) by (simp add: same_waiters_def)
  moreover have "\<forall>tid < length (kn_tasks (wd_kernel w)). \<forall>s \<in> S.
      waits_sem s (kn_tasks (wd_kernel w') ! tid) = waits_sem s (kn_tasks (wd_kernel w) ! tid)"
    using k(1) by (simp add: same_waiters_def)
  ultimately show ?thesis
    using wf k(2,3) cx(2) pc(2) len by (simp add: world_wf_def Let_def)
qed

section \<open>The steps of a sensor task\<close>

lemma wait_other_sem:
  assumes "kernel_wf k" "kn_running_tid k < length (kn_tasks k)" "tb_state (kn_tasks k ! kn_running_tid k) = READY"
    and "other_sem S k s" "os_wait_sem s pc k = Some k'"
  shows "same_waiters S k k' \<and> kernel_wf k' \<and> running_ready k'"
proof -
  have s: "s \<notin> S" "s < length (kn_sems k)" using assms(4) by (simp_all add: other_sem_def)
  have wf: "kernel_wf k'" using wait_sem_wf [OF assms(1) s(2) assms(5)] .
  show ?thesis
  proof (cases "os_sem_larger_than_zero s k")
    case True
    then have k': "k' = k\<lparr>kn_sems := (kn_sems k)[s := (sem_at k s)\<lparr>sv_value := sv_value (sem_at k s) - 1\<rparr>]\<rparr>"
      using assms(5) by (auto simp: os_wait_sem_def os_sem_decrement_def os_sem_larger_than_zero_def Let_def)
    then show ?thesis using wf same_waiters_sem [OF s(1)] assms(2,3) by (simp add: running_ready_def)
  next
    case False
    then have k': "k' = leave pc (upd_task (kn_running_tid k) (\<lambda>t. t\<lparr>tb_state := WAITING_SEM, tb_semaphore := s, tb_time := 0\<rparr>) k)"
      using assms(2,5) by (simp add: os_wait_sem_def os_task_wait_sem_set_def os_assert_def)
    then show ?thesis
      using wf same_waiters_trans [OF same_waiters_ready_wait [OF assms(2,3) s(1)] same_waiters_leave]
      by (simp add: running_ready_def leave_def)
  qed
qed

lemma single_event_quiet:
  assumes "kernel_wf k" "kn_running_tid k < length (kn_tasks k)" "tb_state (kn_tasks k ! kn_running_tid k) = READY"
    and "msg_post task_id m d p True pc k = Some (k', res)"
  shows "same_waiters S k k' \<and> kernel_wf k' \<and> kn_running_tid k' = kn_running_tid k \<and>
    length (kn_tasks k') = length (kn_tasks k) \<and> tb_state (kn_tasks k' ! kn_running_tid k) = READY"
proof -
  let ?n = "note_queue task_id k" and ?q = "os_msgQ_find task_id k"
  obtain k1 posted where p: "os_msg_post m ?q d p ?n = (k1, posted)" by (cases "os_msg_post m ?q d p ?n")
  have n: "same_waiters S k ?n" "kn_running_tid ?n = kn_running_tid k" "tb_state (kn_tasks ?n ! kn_running_tid k) = READY"
    using assms(2,3) by (auto simp: note_queue_def Let_def waits_sem_def intro!: same_waiters_upd) (simp_all add: upd_task_def)
  have k1: "kn_tasks k1 = kn_tasks ?n" "kn_sems k1 = kn_sems ?n" "kn_running_tid k1 = kn_running_tid k"
    using p n(2) by (auto simp: os_msg_post_def set_queue_def split_beta split: if_splits)
  have 1: "same_waiters S k k1" using same_waiters_trans [OF n(1) same_waiters_parts [OF k1(1,2)]] .
  have len: "length (kn_tasks k1) = length (kn_tasks k)" using 1 by (simp add: same_waiters_def)
  have "k' = k1 \<or> (\<exists>ev. k' = os_event_set_signaling_tid ev (kn_running_tid k1) (os_signal_event ev k1))"
    using assms(4) p by (auto simp: msg_post_def post_round_def Let_def split: if_splits)
  then show ?thesis
  proof (elim disjE exE)
    assume "k' = k1"
    then show ?thesis using 1 k1 n len msg_post_kernel_wf [OF assms(1,2,4)] by simp
  next
    fix ev assume k': "k' = os_event_set_signaling_tid ev (kn_running_tid k1) (os_signal_event ev k1)"
    have "same_waiters S k k'"
      unfolding k' by (rule same_waiters_trans [OF 1 same_waiters_trans [OF same_waiters_signal same_waiters_signaling]])
    moreover have "tb_state (kn_tasks k' ! kn_running_tid k) = READY"
      using k1 n(3) assms(2) len
      by (simp add: k' os_event_set_signaling_tid_def os_signal_event_def os_task_signal_event_def signal_task_def)
    ultimately show ?thesis
      using k1 msg_post_kernel_wf [OF assms(1,2,4)]
      by (simp add: same_waiters_def) (simp add: k' os_event_set_signaling_tid_def os_signal_event_def os_task_signal_event_def)
  qed
qed

lemma deliver_quiet:
  assumes "kernel_wf k" "kn_running_tid k < length (kn_tasks k)" "tb_state (kn_tasks k ! kn_running_tid k) = READY"
    and "deliver cx k = Some k'"
  shows "same_waiters S k k' \<and> kernel_wf k' \<and> running_ready k'"
proof -
  obtain k1 where k1: "same_waiters S k k1" "kernel_wf k1" "kn_running_tid k1 = kn_running_tid k"
    "length (kn_tasks k1) = length (kn_tasks k)" "tb_state (kn_tasks k1 ! kn_running_tid k) = READY"
    and w: "os_wait_ticks (ucast (in_poll_interval (sn_info (cx_sensor cx)))) 0 105 k1 = Some k'"
  proof (cases "has_data (cx_msg cx)")
    case True
    then obtain k1 res where p: "msg_post (cx_receive_task_id cx) \<lparr>mg_delay = 0, mg_reload = 0, mg_body = cx_msg cx\<rparr> 0 0 True 103 k = Some (k1, res)"
      and w: "os_wait_ticks (ucast (in_poll_interval (sn_info (cx_sensor cx)))) 0 105 k1 = Some k'"
      using assms(4) by (auto simp: deliver_def split: option.splits)
    show thesis using single_event_quiet [OF assms(1-3) p, of S] by (intro that [OF _ _ _ _ _ w]) simp_all
  next
    case False
    then have w: "os_wait_ticks (ucast (in_poll_interval (sn_info (cx_sensor cx)))) 0 105 k = Some k'"
      using assms(4) by (simp add: deliver_def)
    show thesis by (rule that [OF _ _ _ _ _ w]) (simp_all add: assms)
  qed
  have "kernel_wf k'" using kernel_step_wf [OF kernel_step.wait_ticks [OF w] k1(2)] .
  moreover obtain t where "k' = leave 105 (upd_task (kn_running_tid k1)
      (\<lambda>t. t\<lparr>tb_clockId := 0, tb_time := ucast (in_poll_interval (sn_info (cx_sensor cx))), tb_state := WAITING_TIME\<rparr>) k1)"
    using w by (auto simp: os_wait_ticks_def os_task_wait_time_set_def os_assert_def split: if_splits)
  moreover have "same_waiters S k1 (upd_task (kn_running_tid k1)
      (\<lambda>t. t\<lparr>tb_clockId := 0, tb_time := ucast (in_poll_interval (sn_info (cx_sensor cx))), tb_state := WAITING_TIME\<rparr>) k1)"
    using k1 by (intro same_waiters_upd) (simp_all add: waits_sem_def)
  ultimately show ?thesis
    using same_waiters_trans [OF k1(1) same_waiters_trans [OF _ same_waiters_leave]]
    by (simp add: running_ready_def leave_def)
qed

lemma world_wf_parts:
  assumes "world_wf S N w" "kn_running_tid (wd_kernel w) = tid" "tid \<in> N"
  shows "kernel_wf (wd_kernel w)" "tid < length (kn_tasks (wd_kernel w))" "tb_state (kn_tasks (wd_kernel w) ! tid) = READY"
    "sensor_ctx_wf S (wd_kernel w) (wd_ctx w tid)" "\<not> waits_sem s (kn_tasks (wd_kernel w) ! tid)" "finite N"
proof -
  have "tid < length (kn_tasks (wd_kernel w))" "length (kn_tasks (wd_kernel w)) \<le> N_TASKS"
    using assms by (auto simp: world_wf_def Let_def kernel_wf_def)
  then show "kernel_wf (wd_kernel w)" "tid < length (kn_tasks (wd_kernel w))" "tb_state (kn_tasks (wd_kernel w) ! tid) = READY"
    "sensor_ctx_wf S (wd_kernel w) (wd_ctx w tid)" "\<not> waits_sem s (kn_tasks (wd_kernel w) ! tid)" "finite N"
    using assms by (auto simp: world_wf_def Let_def running_ready_def waits_sem_def intro: finite_subset)
qed

lemma acquire_wf:
  assumes wf: "world_wf S N w" and t: "kn_running_tid (wd_kernel w) = tid" "tid \<in> N" "wd_pc w tid = Acquire"
    and r: "cx_read_semaphore (wd_ctx w tid) = Some port" and k': "os_wait_sem port pc (wd_kernel w) = Some k'"
  shows "world_wf S N (at_place tid Acquired (w\<lparr>wd_kernel := k'\<rparr>))"
proof -
  let ?k = "wd_kernel w" and ?w = "at_place tid Acquired (w\<lparr>wd_kernel := k'\<rparr>)"
  note p = world_wf_parts [OF wf t(1,2)]
  have port: "port \<in> S" using p(4) r by (simp add: sensor_ctx_wf_def)
  have sl: "port < length (kn_sems ?k)" using wf port by (auto simp: world_wf_def Let_def)
  have kwf: "kernel_wf k'" using wait_sem_wf [OF p(1) sl k'] .
  have nh: "\<not> holds w s tid" for s using t(3) by (simp add: holds_def inside_def)
  show ?thesis
  proof (cases "os_sem_larger_than_zero port ?k")
    case True
    define v where "v = sem_at ?k port"
    have v: "0 < sv_value v" "unat (sv_value v - 1) + 1 = unat (sv_value v)"
      using True by (auto simp: v_def os_sem_larger_than_zero_def unat_minus_one word_pos_iff unat_gt_0)
    have keq: "k' = ?k\<lparr>kn_sems := (kn_sems ?k)[port := v\<lparr>sv_value := sv_value v - 1\<rparr>]\<rparr>"
      using k' True by (auto simp: os_wait_sem_def os_sem_decrement_def os_sem_larger_than_zero_def Let_def v_def)
    have at: "sem_at k' s = (if s = port then v\<lparr>sv_value := sv_value v - 1\<rparr> else sem_at ?k s)" for s
      using sl by (simp add: keq sem_at_def)
    have h: "{i \<in> N. holds ?w s i} = (if s = port then insert tid {i \<in> N. holds w s i} else {i \<in> N. holds w s i})" for s
      using t r p(5) nh by (auto simp: holds_def at_place_def keq inside_def)
    have "card (insert tid {i \<in> N. holds w port i}) = card {i \<in> N. holds w port i} + 1"
      using p(6) nh by simp
    moreover have "unat (sv_value v) + card {i \<in> N. holds w port i} = 1" "1 \<le> sv_maxValue v"
      using wf port by (simp_all add: world_wf_def Let_def v_def)
    ultimately have "\<forall>s \<in> S. s < length (kn_sems k') \<and> 1 \<le> sv_maxValue (sem_at k' s) \<and>
        unat (sv_value (sem_at k' s)) + card {i \<in> N. holds ?w s i} = 1"
      using wf v(2) unfolding h at by (auto simp: world_wf_def Let_def keq)
    moreover have "\<forall>i \<in> N. sensor_ctx_wf S k' (wd_ctx w i)"
      using wf by (simp add: world_wf_def Let_def sensor_ctx_wf_def other_sem_def keq)
    moreover have "running_ready k'" using p t(1) by (simp add: running_ready_def keq)
    moreover have "kn_tasks k' = kn_tasks ?k" by (simp add: keq)
    ultimately show ?thesis
      using wf kwf p(5) unfolding world_wf_def Let_def at_place_def by auto
  next
    case False
    have keq: "k' = leave pc (upd_task tid (\<lambda>t. t\<lparr>tb_state := WAITING_SEM, tb_semaphore := port, tb_time := 0\<rparr>) ?k)"
      using k' False t(1) p(2) by (simp add: os_wait_sem_def os_task_wait_sem_set_def os_assert_def)
    have tasks: "length (kn_tasks k') = length (kn_tasks ?k)" "kn_sems k' = kn_sems ?k"
      "\<And>i s. i < length (kn_tasks ?k) \<Longrightarrow> waits_sem s (kn_tasks k' ! i) = (if i = tid then s = port else waits_sem s (kn_tasks ?k ! i))"
      "\<And>i. i < length (kn_tasks ?k) \<Longrightarrow> tb_prio (kn_tasks k' ! i) = tb_prio (kn_tasks ?k ! i)"
      using t(1) p(2) by (auto simp: keq leave_def upd_task_def nth_list_update waits_sem_def)
    have N: "i \<in> N \<Longrightarrow> i < length (kn_tasks ?k)" for i using wf by (auto simp: world_wf_def Let_def)
    have "i \<in> N \<Longrightarrow> s \<in> S \<Longrightarrow> holds ?w s i = holds w s i" for i s
      using tasks(3) [OF N] nh r by (auto simp: holds_def at_place_def)
    then have "s \<in> S \<Longrightarrow> {i \<in> N. holds ?w s i} = {i \<in> N. holds w s i}" for s by blast
    moreover have "sem_at k' s = sem_at ?k s" for s by (simp add: sem_at_def tasks(2))
    moreover have "\<forall>i \<in> N. sensor_ctx_wf S k' (wd_ctx w i)"
      using wf by (simp add: world_wf_def Let_def sensor_ctx_wf_def other_sem_def tasks(2))
    moreover have "list_all (\<lambda>t. tb_prio t \<noteq> 255) (kn_tasks k')"
      using wf tasks by (auto simp: world_wf_def Let_def list_all_length)
    moreover have "running_ready k'" by (simp add: running_ready_def keq leave_def)
    ultimately show ?thesis
      using wf kwf t r tasks unfolding world_wf_def Let_def at_place_def by auto
  qed
qed

lemma release_port_wf:
  assumes wf: "world_wf S N w" and t: "kn_running_tid (wd_kernel w) = tid" "tid \<in> N" "wd_pc w tid = Close"
    and r: "cx_read_semaphore (wd_ctx w tid) = Some port"
  shows "world_wf S N (at_place tid Deliver (w\<lparr>wd_kernel := os_signal_sem port pc (wd_kernel w)\<rparr>))"
proof -
  let ?k = "wd_kernel w"
  define k' where "k' = os_signal_sem port pc ?k"
  let ?w = "at_place tid Deliver (w\<lparr>wd_kernel := k'\<rparr>)"
  note p = world_wf_parts [OF wf t(1,2)]
  have port: "port \<in> S" using p(4) r by (simp add: sensor_ctx_wf_def)
  have sl: "port < length (kn_sems ?k)" "1 \<le> sv_maxValue (sem_at ?k port)"
    "unat (sv_value (sem_at ?k port)) + card {i \<in> N. holds w port i} = 1"
    using wf port by (auto simp: world_wf_def Let_def)
  have kwf: "kernel_wf k'" unfolding k'_def by (rule kernel_step_wf [OF kernel_step.sem_signal p(1)])
  have ht: "holds w port tid" using t(3) r p(5) by (simp add: holds_def inside_def)
  have N: "i \<in> N \<Longrightarrow> i < length (kn_tasks ?k)" for i using wf by (auto simp: world_wf_def Let_def)
  have H: "finite {i \<in> N. holds w port i}" "tid \<in> {i \<in> N. holds w port i}" using p(6) t(2) ht by auto
  then have v0: "sv_value (sem_at ?k port) = 0" and one: "{i \<in> N. holds w port i} = {tid}"
  proof -
    have "card {i \<in> N. holds w port i} \<noteq> 0" using H by auto
    then have "unat (sv_value (sem_at ?k port)) = 0" "card {i \<in> N. holds w port i} = 1" using sl(3) by auto
    then obtain x where "sv_value (sem_at ?k port) = 0" "{i \<in> N. holds w port i} = {x}"
      by (metis unat_eq_0 card_1_singletonE)
    then show "sv_value (sem_at ?k port) = 0" "{i \<in> N. holds w port i} = {tid}"
      using H(2) by auto
  qed
  show ?thesis
  proof (cases "os_task_waiting_this_semaphore port ?k")
    case False
    have keq: "k' = ?k\<lparr>kn_sems := (kn_sems ?k)[port := (sem_at ?k port)\<lparr>sv_value := 1\<rparr>]\<rparr>"
      using False v0 sl(2) by (auto simp: k'_def os_signal_sem_def os_sem_increment_def Let_def word_pos_iff)
    have at: "sem_at k' s = (if s = port then (sem_at ?k port)\<lparr>sv_value := 1\<rparr> else sem_at ?k s)" for s
      using sl(1) by (simp add: keq sem_at_def)
    have h: "{i \<in> N. holds ?w s i} = (if s = port then {} else {i \<in> N. holds w s i})" for s
      using t r one by (auto simp: holds_def at_place_def keq inside_def)
    have "\<forall>s \<in> S. s < length (kn_sems k') \<and> 1 \<le> sv_maxValue (sem_at k' s) \<and>
        unat (sv_value (sem_at k' s)) + card {i \<in> N. holds ?w s i} = 1"
      using wf sl unfolding h at by (auto simp: world_wf_def Let_def keq)
    moreover have "\<forall>i \<in> N. sensor_ctx_wf S k' (wd_ctx w i)"
      using wf by (simp add: world_wf_def Let_def sensor_ctx_wf_def other_sem_def keq)
    moreover have "running_ready k'" using p t(1) by (simp add: running_ready_def keq)
    moreover have "kn_tasks k' = kn_tasks ?k" by (simp add: keq)
    ultimately show ?thesis
      using wf kwf p(5) unfolding world_wf_def Let_def at_place_def k'_def [symmetric] by auto
  next
    case True
    have "list_all (\<lambda>t. tb_prio t \<noteq> 255) (kn_tasks ?k)" using wf by (simp add: world_wf_def Let_def)
    then obtain i where b: "the_best (waits_sem port) (kn_tasks ?k) i"
      "sem_ISR_signal port ?k = upd_task i (\<lambda>t. t\<lparr>tb_state := READY\<rparr>) ?k"
      using signal_hands_over [OF p(1) sl(1)] True by auto
    have i: "i < length (kn_tasks ?k)" "waits_sem port (kn_tasks ?k ! i)" using b(1) by (simp_all add: the_best_def)
    then have iw: "i \<in> N" "wd_pc w i = Acquired" "cx_read_semaphore (wd_ctx w i) = Some port" "i \<noteq> tid"
      using wf port p(5) by (auto simp: world_wf_def Let_def)
    have keq: "k' = leave pc (upd_task i (\<lambda>t. t\<lparr>tb_state := READY\<rparr>) ?k)"
      using True b(2) by (simp add: k'_def os_signal_sem_def sem_ISR_signal_def)
    have tasks: "length (kn_tasks k') = length (kn_tasks ?k)" "kn_sems k' = kn_sems ?k"
      "\<And>j s. j < length (kn_tasks ?k) \<Longrightarrow> waits_sem s (kn_tasks k' ! j) = (j \<noteq> i \<and> waits_sem s (kn_tasks ?k ! j))"
      "\<And>j. j < length (kn_tasks ?k) \<Longrightarrow> tb_prio (kn_tasks k' ! j) = tb_prio (kn_tasks ?k ! j)"
      using i(1) t(1) p(2) by (auto simp: keq leave_def upd_task_def nth_list_update waits_sem_def)
    have at: "sem_at k' s = sem_at ?k s" for s by (simp add: sem_at_def tasks(2))
    have "j \<in> N \<Longrightarrow> holds ?w s j = (if s = port then j = i else holds w s j)" for j s
      using tasks(3) [OF N] one t r iw i by (auto simp: holds_def at_place_def inside_def)
    then have h: "{j \<in> N. holds ?w s j} = (if s = port then {i} else {j \<in> N. holds w s j})" for s
      using iw(1) by auto
    have "\<forall>s \<in> S. s < length (kn_sems k') \<and> 1 \<le> sv_maxValue (sem_at k' s) \<and>
        unat (sv_value (sem_at k' s)) + card {j \<in> N. holds ?w s j} = 1"
      using wf v0 unfolding h at by (auto simp: world_wf_def Let_def tasks(2))
    moreover have "\<forall>i \<in> N. sensor_ctx_wf S k' (wd_ctx w i)"
      using wf by (simp add: world_wf_def Let_def sensor_ctx_wf_def other_sem_def tasks(2))
    moreover have "list_all (\<lambda>t. tb_prio t \<noteq> 255) (kn_tasks k')"
      using wf tasks by (auto simp: world_wf_def Let_def list_all_length)
    moreover have "running_ready k'" by (simp add: running_ready_def keq leave_def)
    moreover have "\<forall>j < length (kn_tasks k'). \<forall>s \<in> S. waits_sem s (kn_tasks k' ! j) \<longrightarrow>
        j \<in> N \<and> wd_pc ?w j = Acquired \<and> cx_read_semaphore (wd_ctx w j) = Some s"
      using wf tasks(1,3) p(5) by (auto simp: world_wf_def Let_def at_place_def)
    ultimately show ?thesis
      using wf kwf tasks(1) unfolding world_wf_def Let_def at_place_def k'_def [symmetric] by auto
  qed
qed

lemma sensor_task_wf:
  assumes wf: "world_wf S N w" and n: "kn_running_tid (wd_kernel w) \<in> N" and st: "sensor_task drv w = Some w'"
  shows "world_wf S N w'"
proof -
  define tid where "tid = kn_running_tid (wd_kernel w)"
  note p = world_wf_parts [OF wf tid_def [symmetric] n [folded tid_def]]
  have nw: "j < length (kn_tasks (wd_kernel w)) \<Longrightarrow> waits_sem s (kn_tasks (wd_kernel w) ! j) \<Longrightarrow> j \<noteq> tid" for s j
    using p(5) by blast
  have cx: "i \<in> N \<Longrightarrow> sensor_ctx_wf S (wd_kernel w) (wd_ctx w i)" for i using wf by (simp add: world_wf_def Let_def)
  have rr: "running_ready (wd_kernel w)" using wf by (simp add: world_wf_def Let_def)
  note k = p(1) p(2) [unfolded tid_def] p(3) [unfolded tid_def]
  show ?thesis
  proof (cases "cx_read_semaphore (wd_ctx w tid)")
    case None
    then have w': "w' = w\<lparr>wd_kernel := (wd_kernel w)\<lparr>kn_running_tid := NO_TID\<rparr>\<rparr>"
      using st by (simp add: sensor_task_def tid_def)
    have "kernel_wf ((wd_kernel w)\<lparr>kn_running_tid := NO_TID\<rparr>)" using p(1) by (auto elim: kernel_wf_frame)
    then show ?thesis
      using cx by (intro world_wf_frame [OF wf]) (auto simp: w' same_waiters_parts running_ready_def)
  next
    case (Some port)
    have st': "sensor_task drv w = Some w'" using st .
    have stay: ?thesis if "w' = at_place tid q w2" "wd_kernel w2 = wd_kernel w" "wd_pc w2 = wd_pc w"
      "inside q = inside (wd_pc w tid)"
      "\<And>i. i \<in> N \<Longrightarrow> sensor_ctx_wf S (wd_kernel w) (wd_ctx w2 i)"
      "\<And>i. cx_read_semaphore (wd_ctx w2 i) = cx_read_semaphore (wd_ctx w i)" for q w2
      using that nw p(1) rr by (intro world_wf_frame [OF wf]) (auto simp: at_place_def)
    have move: ?thesis if "w' = at_place tid q (w\<lparr>wd_kernel := k'\<rparr>)" "inside q = inside (wd_pc w tid)"
      "same_waiters S (wd_kernel w) k' \<and> kernel_wf k' \<and> running_ready k'" for q k'
      using that nw cx by (intro world_wf_frame [OF wf]) (auto simp: at_place_def)
    have snd_ok: "sensor_ctx_wf S (wd_kernel w) (wd_ctx (sensor_poll dr tid port w) i)" if "i \<in> N" for dr i
      using that cx [OF that] by (auto simp: sensor_poll_def Let_def set_reading_def sensor_ctx_wf_def split_beta)
    have snd_res: "sensor_ctx_wf S (wd_kernel w) (wd_ctx (fst (sensor_resume dr tid port w)) i)" if "i \<in> N" for dr i
      using that cx [OF that] by (auto simp: sensor_resume_def Let_def set_reading_def sensor_ctx_wf_def split_beta)
    show ?thesis
    proof (cases "wd_pc w tid")
      case Start
      then show ?thesis using st Some cx by (intro stay [of Acquire w]) (auto simp: sensor_task_def tid_def inside_def)
    next
      case Acquire
      then obtain k' where "os_wait_sem port 61 (wd_kernel w) = Some k'" "w' = at_place tid Acquired (w\<lparr>wd_kernel := k'\<rparr>)"
        using st Some by (auto simp: sensor_task_def tid_def Let_def)
      then show ?thesis using acquire_wf [OF wf _ _ Acquire Some] n by (auto simp: tid_def)
    next
      case Acquired
      then show ?thesis using st Some snd_ok
        by (intro stay [of Check "sensor_poll (drv tid) tid port w"])
          (auto simp: sensor_task_def tid_def inside_def sensor_poll_def Let_def set_reading_def split_beta)
    next
      case Check
      show ?thesis
      proof (cases "sm_count (cx_msg (wd_ctx w tid)) \<noteq> SENSOR_NOT_READY \<or> cx_send_semaphore (wd_ctx w tid) = None")
        case True
        then show ?thesis using st Some Check cx
          by (intro stay [of "if sm_count (cx_msg (wd_ctx w tid)) \<noteq> SENSOR_NOT_READY then Close else Resume" w])
            (auto simp: sensor_task_def tid_def inside_def Let_def)
      next
        case False
        then obtain s where s: "cx_send_semaphore (wd_ctx w tid) = Some s" by auto
        then obtain k' where k': "os_wait_sem s 81 (wd_kernel w) = Some k'" "w' = at_place tid Resume (w\<lparr>wd_kernel := k'\<rparr>)"
          using st Some Check False by (auto simp: sensor_task_def tid_def Let_def)
        have "other_sem S (wd_kernel w) s" using p(4) s by (simp add: sensor_ctx_wf_def)
        then show ?thesis using wait_other_sem [OF k _ k'(1)] Check k'(2) by (intro move) (auto simp: inside_def)
      qed
    next
      case Resume
      then show ?thesis using st Some snd_res
        by (intro stay [of "if snd (sensor_resume (drv tid) tid port w) then Check else Close" "fst (sensor_resume (drv tid) tid port w)"])
          (auto simp: sensor_task_def tid_def inside_def sensor_resume_def Let_def set_reading_def split_beta)
    next
      case Close
      let ?w = "w\<lparr>wd_io := (wd_io w)(port := dr_close (drv tid) (wd_io w port))\<rparr>"
      have w': "w' = at_place tid Deliver (?w\<lparr>wd_kernel := os_signal_sem port 100 (wd_kernel ?w)\<rparr>)"
        using st Some Close by (auto simp: sensor_task_def tid_def Let_def)
      have "world_wf S N ?w"
        using cx p(1) rr by (intro world_wf_frame [OF wf]) auto
      then show ?thesis unfolding w' using Close Some n by (intro release_port_wf) (simp_all add: tid_def)
    next
      case Deliver
      then obtain k' where k': "deliver (wd_ctx w tid) (wd_kernel w) = Some k'" "w' = at_place tid Acquire (w\<lparr>wd_kernel := k'\<rparr>)"
        using st Some by (auto simp: sensor_task_def tid_def Let_def)
      then show ?thesis using deliver_quiet [OF k k'(1)] Deliver by (intro move) (auto simp: inside_def)
    qed
  qed
qed

lemma world_step_wf: "world_step S N drv w w' \<Longrightarrow> world_wf S N w \<Longrightarrow> world_wf S N w'"
proof (induction rule: world_step.induct)
  case (run w w')
  then show ?case using sensor_task_wf by blast
next
  case (other w k')
  have cx: "tid \<in> N \<Longrightarrow> sensor_ctx_wf S (wd_kernel w) (wd_ctx w tid)" for tid
    using other(2) by (simp add: world_wf_def Let_def)
  show ?case using other(1) by (intro world_wf_frame [OF other(2)]) (simp_all add: quiet_def cx)
qed

text \<open>After the set-up every task is ready at its start and every port semaphore lets one task in.\<close>

definition world_init :: "nat set \<Rightarrow> nat set \<Rightarrow> 'io World \<Rightarrow> bool" where
  "world_init S N w \<longleftrightarrow> (let k = wd_kernel w in
     kernel_wf k \<and> kn_running_tid k = NO_TID \<and> N \<subseteq> {..<length (kn_tasks k)} \<and>
     list_all (\<lambda>t. tb_prio t \<noteq> 255 \<and> tb_state t = READY) (kn_tasks k) \<and> (\<forall>tid. wd_pc w tid = Start) \<and>
     (\<forall>tid \<in> N. sensor_ctx_wf S k (wd_ctx w tid)) \<and>
     (\<forall>s \<in> S. s < length (kn_sems k) \<and> sem_at k s = \<lparr>sv_maxValue = 10, sv_value = 1\<rparr>))"

lemma world_init_wf: "world_init S N w \<Longrightarrow> world_wf S N w"
  by (auto simp: world_init_def world_wf_def Let_def list_all_length running_ready_def holds_def inside_def waits_sem_def)

text \<open>
  C32. Whatever the drivers, the other tasks, the clock and the interrupts do, and whichever task the scheduler picks, two
  sensor tasks never hold the same I/O port: from the wait for the port semaphore to its release a sensor has its
  port to itself. The semaphore is available exactly when no sensor task holds the port.
\<close>

theorem port_exclusive:
  assumes "world_init S N w0" "(world_step S N drv)\<^sup>*\<^sup>* w0 w" "s \<in> S"
  shows "(\<forall>i \<in> N. \<forall>j \<in> N. holds w s i \<and> holds w s j \<longrightarrow> i = j) \<and>
    os_sem_larger_than_zero s (wd_kernel w) = (\<not> (\<exists>i \<in> N. holds w s i))"
proof -
  have "world_wf S N w"
    using assms(2) by (induction rule: rtranclp_induct) (use assms(1) world_init_wf world_step_wf in blast)+
  then have c: "unat (sv_value (sem_at (wd_kernel w) s)) + card {i \<in> N. holds w s i} = 1" and f: "finite {i \<in> N. holds w s i}"
    using assms(3) finite_subset [of N "{..<length (kn_tasks (wd_kernel w))}"] by (auto simp: world_wf_def Let_def)
  show ?thesis
  proof (cases "{i \<in> N. holds w s i} = {}")
    case True
    have "unat (sv_value (sem_at (wd_kernel w) s)) = 1" using c unfolding True by simp
    then show ?thesis using True by (auto simp: os_sem_larger_than_zero_def word_pos_iff)
  next
    case False
    then have "card {i \<in> N. holds w s i} = 1" "unat (sv_value (sem_at (wd_kernel w) s)) = 0"
      using c f by (auto simp: card_eq_0_iff add_is_1)
    moreover obtain x where x: "{i \<in> N. holds w s i} = {x}" using calculation(1) by (rule card_1_singletonE)
    moreover have "i \<in> N \<Longrightarrow> holds w s i \<Longrightarrow> i = x" for i using x by blast
    ultimately show ?thesis by (auto simp: os_sem_larger_than_zero_def unat_eq_0)
  qed
qed

section \<open>Two sensors on one port\<close>

definition demo_ctx :: SensorContext where
  "demo_ctx = \<lparr>cx_sensor = \<lparr>sn_info = SensorInfo0 ''tmp'' False False\<lparr>in_semaphore := 1\<rparr>, sn_port_id = 1, sn_port = Some 0,
     sn_sim_semaphore = 2\<rparr>, cx_receive_task_id = 2, cx_msg = zero_SensorMsg, cx_read_semaphore = Some 0,
     cx_send_semaphore = None\<rparr>"

definition sensor_kernel :: "SensorMsg Kernel" where
  "sensor_kernel = os_init\<lparr>kn_tasks := [new_task 110 NO_QUEUE, new_task 120 NO_QUEUE],
     kn_sems := [\<lparr>sv_maxValue = 10, sv_value = 1\<rparr>, \<lparr>sv_maxValue = 1, sv_value = 0\<rparr>, \<lparr>sv_maxValue = 1, sv_value = 0\<rparr>]\<rparr>"

definition demo_world :: "unit World" where
  "demo_world = \<lparr>wd_kernel = sensor_kernel, wd_ctx = (\<lambda>_. demo_ctx), wd_pc = (\<lambda>_. Start), wd_io = (\<lambda>_. ())\<rparr>"

definition demo_driver :: "nat \<Rightarrow> unit Driver" where
  "demo_driver tid = \<lparr>dr_open = id, dr_should_poll = (\<lambda>_. True), dr_poll = (\<lambda>io d. (io, d, 1)),
     dr_resume = (\<lambda>io d. (io, d, 1)), dr_replay = (\<lambda>io. (io, False)), dr_close = id\<rparr>"

text \<open>The first task is dispatched, takes the port and reads its sensor; then the second one is.\<close>

definition demo_held :: "unit World" where
  "demo_held = (let run = (\<lambda>w. the (sensor_task demo_driver w));
       w1 = demo_world\<lparr>wd_kernel := (wd_kernel demo_world)\<lparr>kn_running_tid := os_task_highest_prio_ready_task (wd_kernel demo_world)\<rparr>\<rparr>
     in run (run (run w1)))"

lemma demo_world_init: "world_init {0} {0, 1} demo_world"
  by (auto simp: world_init_def demo_world_def sensor_kernel_def os_init_def kernel_wf_def task_ok_def new_task_def
      clear_wait_queue_def sensor_ctx_wf_def demo_ctx_def other_sem_def SensorInfo0_def sem_at_def queue_ok_def)

lemma demo_held_steps: "(world_step {0} {0, 1} demo_driver)\<^sup>*\<^sup>* demo_world demo_held"
proof -
  let ?step = "world_step {0} {0, 1} demo_driver"
  define w1 where "w1 = demo_world\<lparr>wd_kernel := (wd_kernel demo_world)\<lparr>kn_running_tid := os_task_highest_prio_ready_task (wd_kernel demo_world)\<rparr>\<rparr>"
  have wf: "kernel_wf (wd_kernel demo_world)" "running_ready (wd_kernel demo_world)"
    using demo_world_init by (auto simp: world_init_def Let_def running_ready_def)
  have "?step demo_world w1" unfolding w1_def by (rule world_step.other [OF system_quiet(1) [OF wf]])
  have w1: "w1 = demo_world\<lparr>wd_kernel := sensor_kernel\<lparr>kn_running_tid := 0\<rparr>\<rparr>"
    by (simp add: w1_def demo_world_def sensor_kernel_def os_init_def os_task_highest_prio_ready_task_def new_task_def
        clear_wait_queue_def)
  have e: "sensor_task demo_driver w1 = Some (at_place 0 Acquire w1)"
    by (simp add: w1 sensor_task_def demo_world_def demo_ctx_def)
  define w2 where "w2 = at_place 0 Acquire w1"
  define w3 where "w3 = at_place 0 Acquired (w2\<lparr>wd_kernel := os_sem_decrement 0 (wd_kernel w2)\<rparr>)"
  have e2: "sensor_task demo_driver w2 = Some w3"
    by (simp add: w2_def w3_def w1 sensor_task_def demo_world_def demo_ctx_def at_place_def sensor_kernel_def os_init_def
        os_wait_sem_def os_sem_larger_than_zero_def sem_at_def Let_def)
  define w4 where "w4 = at_place 0 Check (sensor_poll (demo_driver 0) 0 0 w3)"
  have e3: "sensor_task demo_driver w3 = Some w4"
    by (simp add: w4_def w3_def w2_def w1 sensor_task_def demo_world_def demo_ctx_def at_place_def sensor_kernel_def os_init_def
        os_sem_decrement_def sem_at_def Let_def)
  have "demo_held = w4" unfolding demo_held_def Let_def w1_def [symmetric] using e e2 e3 by (simp add: w2_def)
  moreover have "?step w1 w2" by (rule world_step.run) (use e in \<open>simp_all add: w1 w2_def\<close>)
  moreover have "?step w2 w3" by (rule world_step.run [OF _ e2]) (simp add: w2_def w1 at_place_def)
  moreover have "?step w3 w4"
    by (rule world_step.run [OF _ e3]) (simp add: w3_def w2_def w1 at_place_def os_sem_decrement_def Let_def sem_at_def sensor_kernel_def os_init_def)
  ultimately show ?thesis using \<open>?step demo_world w1\<close> by (auto intro: rtranclp_trans converse_rtranclp_into_rtranclp)
qed

lemma demo_held_holds: "holds demo_held 0 0"
  by (simp add: demo_held_def Let_def demo_world_def sensor_kernel_def os_init_def os_task_highest_prio_ready_task_def
      new_task_def clear_wait_queue_def sensor_task_def demo_ctx_def at_place_def os_wait_sem_def
      os_sem_larger_than_zero_def sem_at_def os_sem_decrement_def sensor_poll_def set_reading_def demo_driver_def holds_def
      inside_def waits_sem_def)

lemma port_exclusive_witness:
  "holds demo_held 0 0 \<and> \<not> holds demo_held 0 1 \<and> \<not> os_sem_larger_than_zero 0 (wd_kernel demo_held)"
  using port_exclusive [OF demo_world_init demo_held_steps, of 0] demo_held_holds by auto

definition demo_module :: SensorModule where
  "demo_module = \<lparr>md_nextSensorID = 1, md_portSemaphores = []\<rparr>"

lemma port_semaphores_witness:
  "\<exists>md' k' s. allocate_port_semaphore 7 demo_module (os_init :: unit Kernel) = Some (md', k', Some s) \<and>
     find_port_semaphore 7 (md_portSemaphores md') = Some s"
proof -
  obtain md' k' s where a: "allocate_port_semaphore 7 demo_module (os_init :: unit Kernel) = Some (md', k', Some s)"
    by (simp add: allocate_port_semaphore_def demo_module_def sem_counting_create_def os_sem_create_def os_assert_def os_init_def)
  moreover have "module_wf demo_module (os_init :: unit Kernel)" by (simp add: module_wf_def demo_module_def)
  ultimately show ?thesis using port_semaphores [OF _ a] by auto
qed

end
