(* ===== verification/Logger.thy ===== *)
theory Logger
  imports NetTypes Aggregate
begin

text \<open>
  The logger (\<^verbatim>\<open>stm32/logger/logger.cpp\<close>): a buffer of 512 characters that the debug functions append to, written out in
  chunks of 60 to the debugger and to the registered outputs. An output function is a number; what it was called with
  is recorded in order, with \<open>None\<close> for a semihosting call. The local buffers of the number functions start zeroed.
\<close>

abbreviation DEBUG_BUFFER_SIZE :: nat where "DEBUG_BUFFER_SIZE \<equiv> 512"
abbreviation MAX_OUTPUT_FUNCS :: nat where "MAX_OUTPUT_FUNCS \<equiv> 4"
abbreviation MAX_OUTPUT_LENGTH :: nat where "MAX_OUTPUT_LENGTH \<equiv> 60"

record Log =
  lg_buffer :: "char list"
  lg_length :: nat
  lg_enabled :: bool
  lg_funcs :: "nat option list"
  lg_sent :: "(nat option \<times> string) list"

definition Log0 :: Log where
  "Log0 = \<lparr>lg_buffer = replicate (DEBUG_BUFFER_SIZE + 1) NUL, lg_length = 0, lg_enabled = False,
     lg_funcs = replicate MAX_OUTPUT_FUNCS None, lg_sent = []\<rparr>"

definition enable_log :: "Log \<Rightarrow> Log" where
  "enable_log s = s\<lparr>lg_enabled := True\<rparr>"

definition disable_log :: "Log \<Rightarrow> Log" where
  "disable_log s = s\<lparr>lg_enabled := False\<rparr>"

section \<open>Outputs\<close>

fun first_slot :: "nat \<Rightarrow> nat option list \<Rightarrow> nat option" where
  "first_slot i [] = None"
| "first_slot i (f # fs) = (if f = None then Some i else first_slot (Suc i) fs)"

definition logger_add_output :: "nat option \<Rightarrow> Log \<Rightarrow> Log \<times> int" where
  "logger_add_output func s =
     (if func = None then (s, - 1)
      else if func \<in> set (lg_funcs s) then (s, 0)
      else case first_slot 0 (lg_funcs s) of
             Some i \<Rightarrow> (s\<lparr>lg_funcs := poke (lg_funcs s) i func\<rparr>, 0)
           | None \<Rightarrow> (s, - 1))"

definition semihost_write :: "string \<Rightarrow> Log \<Rightarrow> Log" where
  "semihost_write chunk s = (if chunk = [] \<or> \<not> lg_enabled s then s else s\<lparr>lg_sent := lg_sent s @ [(None, chunk)]\<rparr>)"

definition call_outputs :: "string \<Rightarrow> Log \<Rightarrow> Log" where
  "call_outputs chunk s =
     s\<lparr>lg_sent := lg_sent s @ map (\<lambda>f. (f, chunk)) (filter (\<lambda>f. f \<noteq> None) (lg_funcs s))\<rparr>"

definition write_all_output :: "char list \<Rightarrow> nat \<Rightarrow> bool \<Rightarrow> Log \<Rightarrow> Log \<times> nat" where
  "write_all_output buf len forced s =
     (if \<not> lg_enabled s then (s, 0)
      else let outlen = (if len > MAX_OUTPUT_LENGTH then MAX_OUTPUT_LENGTH else len);
               chunk = take outlen buf
           in (call_outputs chunk (semihost_write chunk s), outlen))"

text \<open>The remaining bytes move to the front; the source copies between overlapping areas with \<^verbatim>\<open>memcpy\<close>.\<close>

definition debug_flush_internal :: "bool \<Rightarrow> Log \<Rightarrow> Log" where
  "debug_flush_internal forced s =
     (if \<not> lg_enabled s then s\<lparr>lg_length := 0\<rparr>
      else if lg_length s = 0 then s
      else let (s, outlen) = write_all_output (lg_buffer s) (lg_length s) forced s
           in if outlen = 0 then s
              else if outlen \<ge> lg_length s then s\<lparr>lg_length := 0\<rparr>
              else s\<lparr>lg_buffer := blit (lg_buffer s) 0 (slice (lg_buffer s) outlen (lg_length s - outlen)),
                     lg_length := lg_length s - outlen\<rparr>)"

definition debug_flush :: "Log \<Rightarrow> Log" where
  "debug_flush s = debug_flush_internal False s"

fun flush_loop :: "nat \<Rightarrow> Log \<Rightarrow> Log" where
  "flush_loop 0 s = s"
| "flush_loop (Suc i) s = (if lg_length s = 0 then s else flush_loop i (debug_flush_internal True s))"

definition debug_force_flush :: "Log \<Rightarrow> Log" where
  "debug_force_flush s = flush_loop 100 s"

section \<open>Appending\<close>

definition dropped :: string where
  "dropped = ''[DROPPED]''"

definition debug_append :: "char list \<Rightarrow> nat \<Rightarrow> Log \<Rightarrow> Log" where
  "debug_append buffer len s =
     (if len \<ge> DEBUG_BUFFER_SIZE then s
      else
        let full = lg_length s + len \<ge> DEBUG_BUFFER_SIZE;
            s = (if full then s\<lparr>lg_buffer := blit (lg_buffer s) 0 (dropped @ [NUL]), lg_length := 9\<rparr> else s)
        in if full \<and> lg_length s + len \<ge> DEBUG_BUFFER_SIZE then s
           else s\<lparr>lg_buffer := blit (lg_buffer s) (lg_length s) (take len buffer),
                  lg_length := lg_length s + len\<rparr>)"

definition debug_print :: "char list \<Rightarrow> Log \<Rightarrow> Log" where
  "debug_print t s = (if charAt t 0 = NUL then s else debug_append t (strlen t) s)"

definition debug_println :: "char list \<Rightarrow> Log \<Rightarrow> Log" where
  "debug_println t s =
     debug_append [CHR 0x0D, CHR 0x0A] 2 (if charAt t 0 \<noteq> NUL then debug_print t s else s)"

definition debug_print_char :: "char \<Rightarrow> Log \<Rightarrow> Log" where
  "debug_print_char ch s = debug_append [ch] 1 s"

section \<open>Numbers\<close>

text \<open>\<^verbatim>\<open>'0' + (char) (l / divisor)\<close>, stored in a \<^verbatim>\<open>char\<close>.\<close>

definition digit_char :: "nat \<Rightarrow> char" where
  "digit_char q = chr_of_int (int_of_chr CHR ''0'' + int_of_chr (chr_of_int (int q)))"

definition add_digit :: "bool \<Rightarrow> nat \<Rightarrow> char \<Rightarrow> char list \<times> nat \<Rightarrow> char list \<times> nat" where
  "add_digit prefixByZero sz digit = (\<lambda>(buffer, len).
     if (int_of_chr digit > int_of_chr CHR ''0'' \<or> len > 0 \<or> prefixByZero) \<and> len < sz
     then (poke buffer len digit, Suc len) else (buffer, len))"

text \<open>The end of both number functions: at least one digit, terminated twice.\<close>

definition finish_digits :: "nat \<Rightarrow> char list \<times> nat \<Rightarrow> char list" where
  "finish_digits sz = (\<lambda>(buffer, len).
     let (buffer, len) = (if len = 0 then (poke buffer len CHR ''0'', Suc len) else (buffer, len));
         buffer = (if len < sz then poke buffer len NUL else buffer)
     in poke buffer (sz - 1) NUL)"

abbreviation MAX_INT_LENGTH :: nat where "MAX_INT_LENGTH \<equiv> 10"

function dec_loop :: "nat \<Rightarrow> nat \<Rightarrow> char list \<times> nat \<Rightarrow> (char list \<times> nat) option" where
  "dec_loop l divisor acc =
     (if divisor < 1 then Some acc
      else let digit = digit_char (l div divisor)
           in if int_of_chr digit > int_of_chr CHR ''9'' then None
              else dec_loop (l mod divisor) (divisor div 10) (add_digit False (MAX_INT_LENGTH + 1) digit acc))"
  by pat_completeness auto
termination by (relation "measure (\<lambda>(_, divisor, _). divisor)") auto

declare dec_loop.simps [simp del]

definition debug_print_unsigned :: "u32 \<Rightarrow> Log \<Rightarrow> Log" where
  "debug_print_unsigned l s =
     (case dec_loop (unat l) 1000000000 (replicate (MAX_INT_LENGTH + 1) NUL, 0) of
        None \<Rightarrow> debug_print ''(Overflow)'' s
      | Some acc \<Rightarrow> let buffer = finish_digits (MAX_INT_LENGTH + 1) acc in debug_append buffer (strlen buffer) s)"

definition debug_print_int :: "u32 \<Rightarrow> Log \<Rightarrow> Log" where
  "debug_print_int i s =
     (if sint i = 0 then debug_append ''0'' 1 s
      else if sint i \<ge> 0 then debug_print_unsigned i s
      else debug_print_unsigned (- i) (debug_append ''-'' 1 s))"

definition f32_neg :: "f32 \<Rightarrow> f32" where
  "f32_neg x = F32 (- mantissa x) (exponent x)"

definition debug_print_float :: "f32 \<Rightarrow> Log \<Rightarrow> Log" where
  "debug_print_float f s =
     (if mantissa f = 0 then debug_append ''0.00'' 4 s
      else
        let (f, s) = (if mantissa f < 0 then (f32_neg f, debug_append ''-'' 1 s) else (f, s));
            s = debug_append ''.'' 1 (debug_print_unsigned (word_of_int (f32_to_int f)) s);
            f = f32_times_10 f;
            s = debug_print_unsigned (word_of_int (f32_to_int f) mod 10) s;
            f = f32_times_10 f
        in debug_print_unsigned (word_of_int (f32_to_int f) mod 10) s)"

abbreviation MAX_BYTE_LENGTH :: nat where "MAX_BYTE_LENGTH \<equiv> 2"

function hex_loop :: "nat \<Rightarrow> nat \<Rightarrow> char list \<times> nat \<Rightarrow> char list \<times> nat" where
  "hex_loop v divisor acc =
     (if divisor < 1 then acc
      else let digit = digit_char (v div divisor);
               digit = (if int_of_chr digit > int_of_chr CHR ''9''
                 then chr_of_int (int_of_chr digit - 10 - int_of_chr CHR ''0'' + int_of_chr CHR ''a'') else digit)
           in hex_loop (v mod divisor) (divisor div 16) (add_digit True (MAX_BYTE_LENGTH + 1) digit acc))"
  by pat_completeness auto
termination by (relation "measure (\<lambda>(_, divisor, _). divisor)") auto

declare hex_loop.simps [simp del]

definition debug_printhex :: "u8 \<Rightarrow> Log \<Rightarrow> Log" where
  "debug_printhex v s =
     (let buffer = finish_digits (MAX_BYTE_LENGTH + 1) (hex_loop (unat v) 16 (replicate (MAX_BYTE_LENGTH + 1) NUL, 0))
      in debug_append buffer (strlen buffer) s)"

text \<open>The bytes of the number from the highest one, \<open>n\<close> of them left.\<close>

fun hex_bytes :: "u32 \<Rightarrow> nat \<Rightarrow> Log \<Rightarrow> Log" where
  "hex_bytes l 0 s = s"
| "hex_bytes l (Suc i) s = hex_bytes l i (debug_printhex (ucast (255 AND drop_bit (8 * i) l)) s)"

definition debug_printhex_unsigned :: "u32 \<Rightarrow> Log \<Rightarrow> Log" where
  "debug_printhex_unsigned l s = hex_bytes l 4 s"

end
