(* ===== verification/LoggerLaws.thy ===== *)
theory LoggerLaws
  imports Logger Payload
begin

text \<open>
  The logger refines a stream: a pending text, cut to a mark when it would overflow, and the chunks already sent.
  The numbers it prints are the decimal and hexadecimal digits of their arguments.
\<close>

section \<open>The pending text\<close>

definition log_wf :: "Log \<Rightarrow> bool" where
  "log_wf s \<longleftrightarrow> length (lg_buffer s) = DEBUG_BUFFER_SIZE + 1 \<and> lg_length s < DEBUG_BUFFER_SIZE \<and>
     length (lg_funcs s) = MAX_OUTPUT_FUNCS \<and> distinct (filter (\<lambda>f. f \<noteq> None) (lg_funcs s))"

definition pending :: "Log \<Rightarrow> string" where
  "pending s = take (lg_length s) (lg_buffer s)"

lemma length_pending: "log_wf s \<Longrightarrow> length (pending s) = lg_length s"
  by (simp add: pending_def log_wf_def)

text \<open>What the logger promises: an append keeps the text, or replaces it by a mark when there is no room.\<close>

definition append_text :: "string \<Rightarrow> string \<Rightarrow> string" where
  "append_text t p =
     (if length t \<ge> DEBUG_BUFFER_SIZE then p
      else if length p + length t < DEBUG_BUFFER_SIZE then p @ t
      else if length dropped + length t < DEBUG_BUFFER_SIZE then dropped @ t else dropped)"

definition same_outputs :: "Log \<Rightarrow> Log \<Rightarrow> bool" where
  "same_outputs s s' \<longleftrightarrow> lg_enabled s' = lg_enabled s \<and> lg_funcs s' = lg_funcs s \<and> lg_sent s' = lg_sent s"

lemma length_dropped: "length dropped = 9"
  by (simp add: dropped_def)

lemma take_blit_0: "n \<le> length src \<Longrightarrow> length src \<le> length buf \<Longrightarrow> take n (blit buf 0 src) = take n src"
  by (simp add: blit_def)

lemma debug_append_log:
  assumes "log_wf s" "n \<le> length t"
  shows "log_wf (debug_append t n s)" "pending (debug_append t n s) = append_text (take n t) (pending s)"
    "same_outputs s (debug_append t n s)"
proof -
  have len: "length (pending s) = lg_length s" "length (take n t) = n" using assms length_pending by auto
  have d: "take 9 (blit (lg_buffer s) 0 (dropped @ [NUL])) = dropped" "length (blit (lg_buffer s) 0 (dropped @ [NUL])) = 513"
    using assms(1) by (simp_all add: take_blit_0 length_blit log_wf_def dropped_def)
  have b: "log_wf (debug_append t n s) \<and> pending (debug_append t n s) = append_text (take n t) (pending s)"
  proof (cases "lg_length s + n < DEBUG_BUFFER_SIZE")
    case True
    have "take (lg_length s + n) (blit (lg_buffer s) (lg_length s) (take n t)) = pending s @ take n t"
      using take_blit_upto [of "lg_length s" "lg_buffer s" "take n t"] assms len by (simp add: log_wf_def pending_def)
    then show ?thesis
      using True assms len by (simp add: debug_append_def append_text_def log_wf_def pending_def length_blit)
  next
    case False
    let ?b = "blit (lg_buffer s) 0 (dropped @ [NUL])"
    have "take (9 + n) (blit ?b 9 (take n t)) = dropped @ take n t" if "n < 512"
      using take_blit_upto [of 9 ?b "take n t"] d len by simp
    moreover have "length (blit ?b 9 (take n t)) = 513" if "9 + n < 512"
      using length_blit [of 9 "take n t" ?b] d len that by simp
    ultimately show ?thesis
      using False assms len d length_dropped
      by (auto simp: debug_append_def append_text_def log_wf_def pending_def Let_def)
  qed
  then show "log_wf (debug_append t n s)" "pending (debug_append t n s) = append_text (take n t) (pending s)" by auto
  show "same_outputs s (debug_append t n s)" by (simp add: debug_append_def same_outputs_def Let_def)
qed

section \<open>Texts in several parts\<close>

text \<open>The interface the printing functions rely on: a text that fits is appended to what is pending.\<close>

locale text_log =
  fixes put :: "string \<Rightarrow> 's \<Rightarrow> 's" and text_of :: "'s \<Rightarrow> string" and ok :: "'s \<Rightarrow> bool" and room :: nat
  assumes put_ok: "ok s \<Longrightarrow> ok (put t s)"
    and put_text: "ok s \<Longrightarrow> length (text_of s) + length t < room \<Longrightarrow> text_of (put t s) = text_of s @ t"
begin

lemma puts_ok: "ok s \<Longrightarrow> ok (fold put ts s)"
  by (induction ts arbitrary: s) (simp_all add: put_ok)

lemma puts_text:
  "ok s \<Longrightarrow> length (text_of s) + length (concat ts) < room \<Longrightarrow> text_of (fold put ts s) = text_of s @ concat ts"
proof (induction ts arbitrary: s)
  case (Cons t ts)
  then have "text_of (put t s) = text_of s @ t" by (intro put_text) simp_all
  then show ?case using Cons put_ok by simp
qed simp

lemma puts_map_text:
  assumes "ok s" "\<And>x. x \<in> set xs \<Longrightarrow> length (f x) = n" "length (text_of s) + n * length xs < room"
  shows "text_of (fold (\<lambda>x. put (f x)) xs s) = text_of s @ concat (map f xs)"
proof -
  have "length (concat (map f xs)) = n * length xs"
    using assms(2) by (induction xs) simp_all
  then have "text_of (fold put (map f xs) s) = text_of s @ concat (map f xs)"
    using assms by (intro puts_text) simp_all
  then show ?thesis by (simp add: fold_map comp_def)
qed

end

definition put_log :: "string \<Rightarrow> Log \<Rightarrow> Log" where
  "put_log t s = debug_append t (length t) s"

interpretation logger: text_log put_log pending log_wf DEBUG_BUFFER_SIZE
  using debug_append_log by unfold_locales (auto simp: put_log_def append_text_def)

section \<open>Digits of a number\<close>

fun digs :: "nat \<Rightarrow> nat \<Rightarrow> nat \<Rightarrow> nat list" where
  "digs b 0 n = []"
| "digs b (Suc k) n = n div b ^ k # digs b k (n mod b ^ k)"

lemma length_digs [simp]: "length (digs b k n) = k"
  by (induction b k n rule: digs.induct) simp_all

lemma digs_less: "n < b ^ k \<Longrightarrow> d \<in> set (digs b k n) \<Longrightarrow> d < b"
proof (induction b k n rule: digs.induct)
  case (2 b k n)
  then have "0 < b ^ k" by (cases "b = 0") auto
  then show ?case using 2 by (auto simp: less_mult_imp_div_less mult.commute)
qed simp

lemma digs_value: "n < b ^ k \<Longrightarrow> foldl (\<lambda>v d. b * v + d) a (digs b k n) = a * b ^ k + n"
proof (induction b k n arbitrary: a rule: digs.induct)
  case (2 b k n)
  then have "0 < b ^ k" by (cases "b = 0") auto
  then have "foldl (\<lambda>v d. b * v + d) a (digs b (Suc k) n) = (b * a + n div b ^ k) * b ^ k + n mod b ^ k"
    using 2 by simp
  also have "\<dots> = a * b ^ Suc k + n" by (simp add: algebra_simps)
  finally show ?case .
qed simp

lemma foldl_dropWhile_zero: "foldl (\<lambda>v d. b * v + d) (0::nat) (dropWhile (\<lambda>d. d = 0) ds) = foldl (\<lambda>v d. b * v + d) 0 ds"
  by (induction ds) simp_all

lemma digs_zero: "dropWhile (\<lambda>d. d = 0) (digs b k 0) = []"
  by (induction k) simp_all

text \<open>The digits the loops write: leading zeros are left out until a digit has been written.\<close>

definition shown :: "nat \<Rightarrow> nat list \<Rightarrow> nat list" where
  "shown len ds = (if len = 0 then dropWhile (\<lambda>d. d = 0) ds else ds)"

definition dec_char :: "nat \<Rightarrow> char" where
  "dec_char d = chr_of_int (48 + int d)"

lemma digit_char: "d < 16 \<Longrightarrow> digit_char d = dec_char d"
  by (simp add: digit_char_def dec_char_def digit_0 int_of_chr_of_int)

lemma dec_char_code: "d < 16 \<Longrightarrow> int_of_chr (dec_char d) = 48 + int d"
  by (simp add: dec_char_def int_of_chr_of_int)

lemma dec_char_plain: "d < 16 \<Longrightarrow> dec_char d \<noteq> NUL"
  unfolding dec_char_def by (rule chr_of_int_nonzero) simp

lemma add_digit_dec:
  "d < 10 \<Longrightarrow> len < sz \<Longrightarrow> add_digit False sz (digit_char d) (buf, len) =
    (if d = 0 \<and> len = 0 then (buf, len) else (poke buf len (dec_char d), Suc len))"
  by (simp add: add_digit_def digit_char dec_char_code digit_0)

lemma dec_loop_digits:
  assumes "l < 10 ^ k" "len + k \<le> 10" "length buf = 11"
  shows "\<exists>buf'. dec_loop l (if k = 0 then 0 else 10 ^ (k - 1)) (buf, len) =
      Some (buf', len + length (shown len (digs 10 k l))) \<and> length buf' = 11 \<and>
      take (len + length (shown len (digs 10 k l))) buf' = take len buf @ map dec_char (shown len (digs 10 k l))"
  using assms
proof (induction k arbitrary: l buf len)
  case 0
  then show ?case by (simp add: dec_loop.simps [of _ 0] shown_def)
next
  case (Suc k)
  let ?q = "l div 10 ^ k" and ?r = "l mod 10 ^ k"
  have q: "?q < 10" using Suc.prems(1) by (simp add: less_mult_imp_div_less)
  have next_div: "(10::nat) ^ k div 10 = (if k = 0 then 0 else 10 ^ (k - 1))" by (cases k) simp_all
  have step: "dec_loop l (10 ^ k) (buf, len) =
      dec_loop ?r (if k = 0 then 0 else 10 ^ (k - 1)) (add_digit False 11 (digit_char ?q) (buf, len))"
    using q by (simp add: dec_loop.simps [of l] next_div digit_char dec_char_code digit_0)
  show ?case
  proof (cases "?q = 0 \<and> len = 0")
    case True
    then have "add_digit False 11 (digit_char ?q) (buf, len) = (buf, len)" using add_digit_dec [of ?q len 11 buf] by simp
    moreover have "shown len (digs 10 (Suc k) l) = shown len (digs 10 k ?r)" using True by (simp add: shown_def)
    ultimately show ?thesis using Suc.IH [of ?r len buf] Suc.prems step by simp
  next
    case False
    let ?buf = "poke buf len (dec_char ?q)"
    have "add_digit False 11 (digit_char ?q) (buf, len) = (?buf, Suc len)"
      using add_digit_dec [OF q, of len 11 buf] False Suc.prems by auto
    moreover have "shown len (digs 10 (Suc k) l) = ?q # shown (Suc len) (digs 10 k ?r)" using False by (auto simp: shown_def)
    moreover have "length ?buf = 11" "take (Suc len) ?buf = take len buf @ [dec_char ?q]"
      using Suc.prems by (simp_all add: length_poke take_Suc_poke)
    ultimately show ?thesis using Suc.IH [of ?r "Suc len" ?buf] Suc.prems step by simp
  qed
qed

lemma finish_digits_cstr:
  assumes "length buf = sz" "len < sz" "plain (take len buf)" "0 < len"
  shows "cstr (finish_digits sz (buf, len)) = take len buf"
proof -
  have "take len (cstr buf) = take len buf"
    using cstr_append [OF assms(3), of "drop len buf"] assms(1,2) by simp
  then show ?thesis using assms by (simp add: finish_digits_def cstr_poke_nul_any)
qed

lemma finish_digits_none: "length buf = sz \<Longrightarrow> 1 < sz \<Longrightarrow> cstr (finish_digits sz (buf, 0)) = ''0''"
proof -
  assume b: "length buf = sz" "1 < sz"
  have "CHR ''0'' \<noteq> NUL" by (simp add: NUL_def)
  then have "cstr (poke buf 0 CHR ''0'') = CHR ''0'' # cstr (drop (Suc 0) buf)" by (simp add: poke_def cstr_Cons)
  then show ?thesis using b by (simp add: finish_digits_def cstr_poke_nul_any take_Cons')
qed

lemma debug_append_cstr: "debug_append t (strlen t) s = put_log (cstr t) s"
  using take_strlen [of t] by (simp add: put_log_def debug_append_def strlen_def Let_def)

definition decimal :: "nat \<Rightarrow> string" where
  "decimal n = (if n = 0 then ''0'' else map dec_char (dropWhile (\<lambda>d. d = 0) (digs 10 10 n)))"

lemma set_dropWhile_subset: "set (dropWhile P xs) \<subseteq> set xs"
  by (induction xs) auto

lemma decimal_plain: "n < 10 ^ 10 \<Longrightarrow> plain (map dec_char (dropWhile (\<lambda>d. d = 0) (digs 10 10 n)))"
proof -
  assume n: "n < 10 ^ 10"
  have "d < 16" if "d \<in> set (dropWhile (\<lambda>d. d = 0) (digs 10 10 n))" for d
    using digs_less [OF n] that by (fastforce dest: set_mp [OF set_dropWhile_subset])
  then show ?thesis using dec_char_plain by (force simp: plain_def)
qed

lemma print_unsigned_decimal_lemma: "debug_print_unsigned l s = put_log (decimal (unat l)) s"
proof -
  let ?ds = "dropWhile (\<lambda>d. d = 0) (digs 10 10 (unat l))"
  have l: "unat l < 10 ^ 10" using unsigned_less [of l, where 'a = nat] by simp
  obtain buf where loop: "dec_loop (unat l) 1000000000 (replicate 11 NUL, 0) = Some (buf, length ?ds)"
    and buf: "length buf = 11" "take (length ?ds) buf = map dec_char ?ds"
    using dec_loop_digits [OF l, of 0 "replicate 11 NUL"] by (auto simp: shown_def)
  have zero: "?ds = [] \<longleftrightarrow> unat l = 0"
  proof
    assume e: "?ds = []"
    have "foldl (\<lambda>v d. 10 * v + d) 0 ?ds = unat l"
      using digs_value [OF l, of 0] foldl_dropWhile_zero [of 10 "digs 10 10 (unat l)"] by simp
    then show "unat l = 0" unfolding e by simp
  qed (simp add: digs_zero)
  have "length ?ds \<le> length (digs 10 10 (unat l))" by (rule length_dropWhile_le)
  then have "length ?ds < 11" by simp
  then have "cstr (finish_digits 11 (buf, length ?ds)) = decimal (unat l)"
    using finish_digits_cstr [OF buf(1), of "length ?ds"] finish_digits_none [OF buf(1)] buf(2) zero decimal_plain [OF l]
    by (cases "?ds = []") (simp_all add: decimal_def digs_zero)
  then show ?thesis using loop by (simp add: debug_print_unsigned_def debug_append_cstr)
qed


section \<open>Hexadecimal digits\<close>

definition hex_char :: "nat \<Rightarrow> char" where
  "hex_char d = chr_of_int (if d > 9 then 87 + int d else 48 + int d)"

definition hex_val :: "char \<Rightarrow> nat" where
  "hex_val c = (if of_char c \<le> (57 :: nat) then of_char c - 48 else of_char c - 87)"

lemma hex_char_plain: "d < 16 \<Longrightarrow> hex_char d \<noteq> NUL"
  unfolding hex_char_def by (rule chr_of_int_nonzero) simp

lemma hex_val_char: "d < 16 \<Longrightarrow> hex_val (hex_char d) = d"
proof -
  assume "d < 16"
  then have "\<forall>d \<in> set [0..<16]. hex_val (hex_char d) = d \<Longrightarrow> hex_val (hex_char d) = d" by simp
  moreover have "\<forall>d \<in> set [0..<16]. hex_val (hex_char d) = d" by code_simp
  ultimately show ?thesis by blast
qed

definition byte_text :: "nat \<Rightarrow> string" where
  "byte_text v = [hex_char (v div 16), hex_char (v mod 16)]"

lemma hex_digit_char:
  "d < 16 \<Longrightarrow> (if int_of_chr (digit_char d) > int_of_chr CHR ''9''
      then chr_of_int (int_of_chr (digit_char d) - 10 - int_of_chr CHR ''0'' + int_of_chr CHR ''a'') else digit_char d) = hex_char d"
proof -
  assume d: "d < 16"
  then have c: "int_of_chr (digit_char d) = 48 + int d" by (simp add: digit_char dec_char_code)
  have "digit_char d = chr_of_int (48 + int d)" using d by (simp add: digit_char dec_char_def)
  moreover have "int_of_chr CHR ''a'' = 97" by (simp add: int_of_chr_def)
  ultimately show ?thesis unfolding c digit_0 hex_char_def by (simp add: algebra_simps)
qed

lemma printhex_text: "debug_printhex v s = put_log (byte_text (unat v)) s"
proof -
  let ?h = "unat v div 16" and ?l = "unat v mod 16" and ?z = "[NUL, NUL, NUL]"
  have h: "?h < 16" using unat_u8_less [of v] by (simp add: less_mult_imp_div_less)
  have "hex_loop (unat v) 16 (?z, 0) = ([hex_char ?h, hex_char ?l, NUL], 2)"
    using hex_digit_char [OF h] hex_digit_char [of ?l]
    by (simp add: hex_loop.simps [of "unat v"] hex_loop.simps [of ?l] hex_loop.simps [of _ 0] add_digit_def poke_def Let_def)
  moreover have "cstr (finish_digits 3 ([hex_char ?h, hex_char ?l, NUL], 2)) = byte_text (unat v)"
    using h by (subst finish_digits_cstr) (simp_all add: hex_char_plain byte_text_def)
  moreover have "replicate (MAX_BYTE_LENGTH + 1) NUL = ?z" by (simp add: eval_nat_numeral)
  ultimately show ?thesis by (simp add: debug_printhex_def debug_append_cstr Let_def)
qed

definition byte_of :: "u32 \<Rightarrow> nat \<Rightarrow> nat" where
  "byte_of l i = unat l div 2 ^ (8 * i) mod 256"

lemma unat_mod_32: "unat (l :: u32) mod 4294967296 = unat l"
  using unsigned_less [of l, where 'a = nat] by simp

lemma unat_byte: "unat (ucast (255 AND drop_bit (8 * i) l) :: u8) = byte_of l i"
proof -
  have "(255 :: u32) = mask 8" by (simp add: mask_eq_exp_minus_1)
  then have "255 AND drop_bit (8 * i) l = take_bit 8 (drop_bit (8 * i) l)" by (simp only: take_bit_eq_mask and.commute)
  then show ?thesis
    by (simp add: byte_of_def unsigned_ucast_eq unsigned_take_bit_eq unsigned_drop_bit_eq)
      (simp add: take_bit_eq_mod drop_bit_eq_div unat_mod_32)
qed

definition parse_hex :: "nat \<Rightarrow> string \<Rightarrow> nat" where
  "parse_hex a s = foldl (\<lambda>v c. 16 * v + hex_val c) a s"

lemma parse_byte: "v < 256 \<Longrightarrow> parse_hex a (byte_text v @ t) = parse_hex (256 * a + v) t"
  by (simp add: parse_hex_def byte_text_def hex_val_char less_mult_imp_div_less) (simp add: algebra_simps)

lemma bytes_value: "n < 2 ^ 32 \<Longrightarrow>
    256 * (256 * (256 * (n div 2 ^ 24 mod 256) + n div 2 ^ 16 mod 256) + n div 2 ^ 8 mod 256) + n mod 256 = (n::nat)"
proof -
  assume n: "n < 2 ^ 32"
  define p where "p = n div 256"
  define q where "q = p div 256"
  define r where "r = q div 256"
  have d: "n div 2 ^ 8 = p" "n div 2 ^ 16 = q" "n div 2 ^ 24 = r"
    unfolding p_def q_def r_def by (simp_all add: div_mult2_eq [symmetric])
  have "r < 256" using n unfolding d(3) [symmetric] by (simp add: less_mult_imp_div_less)
  moreover have "n = 256 * p + n mod 256" "p = 256 * q + p mod 256" "q = 256 * r + q mod 256"
    unfolding p_def q_def r_def by simp_all
  ultimately show ?thesis unfolding d by simp
qed


section \<open>Outputs\<close>

text \<open>The chunks an output has received; the debugger is \<open>None\<close>.\<close>

definition sent_to :: "nat option \<Rightarrow> Log \<Rightarrow> string list" where
  "sent_to f s = map snd (filter (\<lambda>x. fst x = f) (lg_sent s))"

definition is_output :: "nat option \<Rightarrow> Log \<Rightarrow> bool" where
  "is_output f s \<longleftrightarrow> f = None \<or> f \<in> set (lg_funcs s)"

lemma log_init: "log_wf Log0" "pending Log0 = []"
  by (simp_all add: log_wf_def Log0_def pending_def)

lemma first_slot_Some:
  "first_slot i fs = Some j \<Longrightarrow> i \<le> j \<and> j - i < length fs \<and> fs ! (j - i) = None"
proof (induction i fs rule: first_slot.induct)
  case (2 i f fs)
  then show ?case by (force simp: nth_Cons' split: if_splits)
qed simp

lemma filter_update_None:
  "j < length fs \<Longrightarrow> fs ! j = None \<Longrightarrow>
    filter (\<lambda>f. f \<noteq> None) (fs[j := Some x]) =
      filter (\<lambda>f. f \<noteq> None) (take j fs) @ Some x # filter (\<lambda>f. f \<noteq> None) (drop (Suc j) fs)"
  by (simp add: upd_conv_take_nth_drop)

lemma add_output_wf: "log_wf s \<Longrightarrow> log_wf (fst (logger_add_output func s))"
proof -
  assume wf: "log_wf s"
  have "log_wf (s\<lparr>lg_funcs := poke (lg_funcs s) j func\<rparr>)"
    if f: "func \<noteq> None" "func \<notin> set (lg_funcs s)" and j: "first_slot 0 (lg_funcs s) = Some j" for j
  proof -
    have p: "j < length (lg_funcs s)" "lg_funcs s ! j = None" using first_slot_Some [OF j] by simp_all
    have "distinct (filter (\<lambda>f. f \<noteq> None) (take j (lg_funcs s) @ drop (Suc j) (lg_funcs s)))"
    proof -
      have e: "lg_funcs s = take j (lg_funcs s) @ None # drop (Suc j) (lg_funcs s)" using id_take_nth_drop [OF p(1)] p(2) by simp
      have "distinct (filter (\<lambda>f. f \<noteq> None) (lg_funcs s))" using wf by (simp add: log_wf_def)
      then show ?thesis by (subst (asm) e) simp
    qed
    moreover obtain x where x: "func = Some x" using f(1) by blast
    moreover have "func \<notin> set (take j (lg_funcs s)) \<and> func \<notin> set (drop (Suc j) (lg_funcs s))"
      using f(2) by (meson in_set_dropD in_set_takeD)
    ultimately show ?thesis using wf p filter_update_None [OF p] by (auto simp: log_wf_def poke_in_range)
  qed
  then show ?thesis using wf by (auto simp: logger_add_output_def split: option.splits)
qed

lemma sent_deliver:
  assumes "log_wf s" "lg_enabled s" "is_output f s" "chunk \<noteq> []"
  shows "sent_to f (call_outputs chunk (semihost_write chunk s)) = sent_to f s @ [chunk]"
proof -
  have count: "map snd (filter (\<lambda>x. fst x = f) (map (\<lambda>f. (f, chunk)) gs)) = (if f \<in> set gs then [chunk] else [])"
    if "distinct gs" for gs :: "nat option list"
    using that by (induction gs) (auto simp: filter_empty_conv)
  have "distinct (filter (\<lambda>f. f \<noteq> None) (lg_funcs s))" using assms(1) by (simp add: log_wf_def)
  from count [OF this] show ?thesis
    using assms(2,3,4) by (auto simp: sent_to_def call_outputs_def semihost_write_def is_output_def)
qed

lemma flush_log:
  assumes "log_wf s" "lg_enabled s"
  shows "log_wf (debug_flush_internal forced s)" "lg_enabled (debug_flush_internal forced s)"
    "lg_funcs (debug_flush_internal forced s) = lg_funcs s"
    "pending (debug_flush_internal forced s) = drop 60 (pending s)"
    "is_output f s \<Longrightarrow> sent_to f (debug_flush_internal forced s) =
       sent_to f s @ (if pending s = [] then [] else [take 60 (pending s)])"
proof -
  let ?n = "if lg_length s > 60 then 60 else lg_length s" and ?c = "take (if lg_length s > 60 then 60 else lg_length s) (lg_buffer s)"
  let ?d = "call_outputs ?c (semihost_write ?c s)"
  have d: "lg_buffer ?d = lg_buffer s" "lg_length ?d = lg_length s" "lg_enabled ?d = lg_enabled s" "lg_funcs ?d = lg_funcs s"
    by (simp_all add: call_outputs_def semihost_write_def)
  have w: "write_all_output (lg_buffer s) (lg_length s) forced s = (?d, ?n)" using assms(2) by (simp add: write_all_output_def Let_def)
  have c: "?c = take 60 (pending s)" by (simp add: pending_def)
  show "log_wf (debug_flush_internal forced s)" "lg_enabled (debug_flush_internal forced s)"
    "lg_funcs (debug_flush_internal forced s) = lg_funcs s"
    using assms d unfolding debug_flush_internal_def w by (auto simp: log_wf_def Let_def length_blit length_slice)
  show "pending (debug_flush_internal forced s) = drop 60 (pending s)"
    using assms d unfolding debug_flush_internal_def w
    by (auto simp: pending_def log_wf_def Let_def take_blit_0 length_slice slice_def drop_take)
  have e: "sent_to f (debug_flush_internal forced s) = (if lg_length s = 0 then sent_to f s else sent_to f ?d)"
    using assms(2) d unfolding debug_flush_internal_def w by (simp add: sent_to_def Let_def)
  show "sent_to f (debug_flush_internal forced s) = sent_to f s @ (if pending s = [] then [] else [take 60 (pending s)])"
    if o: "is_output f s"
  proof (cases "lg_length s = 0")
    case False
    then have "pending s \<noteq> []" using length_pending [OF assms(1)] by auto
    moreover from this have "?c \<noteq> []" unfolding c by simp
    ultimately show ?thesis using sent_deliver [OF assms o, of ?c] e False unfolding c by simp
  qed (use e in \<open>simp add: pending_def\<close>)
qed


section \<open>The logger as a stream\<close>

datatype log_call = Append string | Flush

fun log_op :: "log_call \<Rightarrow> Log \<Rightarrow> Log" where
  "log_op (Append t) s = put_log t s"
| "log_op Flush s = debug_flush s"

text \<open>The specification: the pending text and the chunks each output is to receive.\<close>

fun stream_op :: "log_call \<Rightarrow> string \<times> string list \<Rightarrow> string \<times> string list" where
  "stream_op (Append t) (p, cs) = (append_text t p, cs)"
| "stream_op Flush (p, cs) = (drop 60 p, cs @ (if p = [] then [] else [take 60 p]))"

lemma put_log_frame:
  "log_wf s \<Longrightarrow> log_wf (put_log t s)" "log_wf s \<Longrightarrow> pending (put_log t s) = append_text t (pending s)"
  "log_wf s \<Longrightarrow> lg_enabled (put_log t s) = lg_enabled s" "log_wf s \<Longrightarrow> is_output f (put_log t s) = is_output f s"
  "log_wf s \<Longrightarrow> sent_to f (put_log t s) = sent_to f s"
  using debug_append_log [of s "length t" t] by (simp_all add: put_log_def same_outputs_def is_output_def sent_to_def)

lemma log_op_simulates:
  assumes "log_wf s" "lg_enabled s" "is_output f s"
  shows "log_wf (log_op a s) \<and> lg_enabled (log_op a s) \<and> is_output f (log_op a s) \<and>
    (pending (log_op a s), sent_to f (log_op a s)) = stream_op a (pending s, sent_to f s)"
  using assms flush_log [OF assms(1,2)] put_log_frame
  by (cases a) (simp_all add: debug_flush_def is_output_def)

text \<open>
  C34. The logger refines the stream for every sequence of appended texts and flushes: what is pending in its buffer and
  the chunks received by the debugger and by each registered output are those of the specification.
\<close>

theorem log_refines:
  assumes "log_wf s" "lg_enabled s" "is_output f s"
  shows "(pending (fold log_op ops s), sent_to f (fold log_op ops s)) = fold stream_op ops (pending s, sent_to f s) \<and>
    log_wf (fold log_op ops s)"
  using assms
proof (induction ops arbitrary: s)
  case (Cons a ops)
  from Cons.IH [of "log_op a s"] log_op_simulates [OF Cons.prems, of a] show ?case by simp
qed simp

lemma flush_loop_all:
  assumes "log_wf s" "lg_enabled s" "is_output f s" "length (pending s) \<le> 60 * n"
  shows "log_wf (flush_loop n s) \<and> pending (flush_loop n s) = [] \<and>
    (\<exists>cs. sent_to f (flush_loop n s) = sent_to f s @ cs \<and> concat cs = pending s \<and> (\<forall>c \<in> set cs. c \<noteq> [] \<and> length c \<le> 60))"
  using assms
proof (induction n arbitrary: s)
  case (Suc n)
  show ?case
  proof (cases "lg_length s = 0")
    case False
    let ?s = "debug_flush_internal True s"
    note fl = flush_log [OF Suc.prems(1,2), where forced = True]
    have ne: "pending s \<noteq> []" using False length_pending [OF Suc.prems(1)] by auto
    have o: "is_output f ?s" using Suc.prems(3) fl(3) by (simp add: is_output_def)
    have "length (pending ?s) \<le> 60 * n" using fl(4) Suc.prems(4) by simp
    then obtain cs where cs: "log_wf (flush_loop n ?s)" "pending (flush_loop n ?s) = []"
        "sent_to f (flush_loop n ?s) = sent_to f ?s @ cs" "concat cs = pending ?s" "\<forall>c \<in> set cs. c \<noteq> [] \<and> length c \<le> 60"
      using Suc.IH [OF fl(1,2) o] by blast
    have "concat (take 60 (pending s) # cs) = pending s" using cs(4) fl(4) by simp
    moreover have "\<forall>c \<in> set (take 60 (pending s) # cs). c \<noteq> [] \<and> length c \<le> 60" using cs(5) ne by simp
    moreover have "sent_to f (flush_loop n ?s) = sent_to f s @ (take 60 (pending s) # cs)"
      using cs(3) fl(5) [OF Suc.prems(3)] ne by simp
    ultimately show ?thesis using cs(1,2) False by (metis flush_loop.simps(2))
  qed (use Suc.prems length_pending in \<open>auto simp: pending_def\<close>)
qed (auto simp: length_pending [symmetric])

text \<open>
  A forced flush writes everything: each output receives the pending text, complete and in order, in non-empty chunks of
  at most 60 characters, and the buffer is empty afterwards. The bound of 100 rounds is never reached.
\<close>

theorem force_flush_complete:
  assumes "log_wf s" "lg_enabled s" "is_output f s"
  shows "pending (debug_force_flush s) = [] \<and>
    (\<exists>cs. sent_to f (debug_force_flush s) = sent_to f s @ cs \<and> concat cs = pending s \<and>
      (\<forall>c \<in> set cs. c \<noteq> [] \<and> length c \<le> 60))"
proof -
  have "length (pending s) \<le> 60 * 100" using length_pending [OF assms(1)] assms(1) by (simp add: log_wf_def)
  then show ?thesis using flush_loop_all [OF assms] by (auto simp: debug_force_flush_def)
qed

section \<open>Printed numbers read back\<close>

definition parse_decimal :: "string \<Rightarrow> nat" where
  "parse_decimal s = foldl (\<lambda>v c. 10 * v + (of_char c - 48)) 0 s"

lemma of_dec_char: "d < 16 \<Longrightarrow> of_char (dec_char d) = 48 + d"
proof -
  assume "d < 16"
  then have "int (of_char (dec_char d)) = int (48 + d)"
    using dec_char_code [of d] by (simp add: int_of_chr_def of_nat_of_char)
  then show ?thesis by (simp only: of_nat_eq_iff)
qed

lemma foldl_dec_chars:
  "\<forall>d \<in> set ds. d < 10 \<Longrightarrow>
    foldl (\<lambda>v c. 10 * v + (of_char c - 48)) a (map dec_char ds) = foldl (\<lambda>v d. 10 * v + d) a ds"
  by (induction ds arbitrary: a) (simp_all add: of_dec_char)

lemma decimal_correct:
  assumes "n < 10 ^ 10"
  shows "parse_decimal (decimal n) = n" "list_all is_digit (decimal n)" "n \<noteq> 0 \<Longrightarrow> hd (decimal n) \<noteq> CHR ''0''"
    "decimal n \<noteq> []" "length (decimal n) \<le> 10"
proof -
  let ?ds = "dropWhile (\<lambda>d. d = 0) (digs 10 10 n)"
  have small: "\<forall>d \<in> set ?ds. d < 10"
  proof
    fix d assume "d \<in> set ?ds"
    then have "d \<in> set (digs 10 10 n)" by (rule subsetD [OF set_dropWhile_subset])
    then show "d < 10" by (rule digs_less [OF assms])
  qed
  have v: "foldl (\<lambda>v d. 10 * v + d) 0 ?ds = n"
    using digs_value [OF assms, of 0] foldl_dropWhile_zero [of 10 "digs 10 10 n"] by simp
  have ne: "?ds \<noteq> []" if "n \<noteq> 0"
  proof
    assume e: "?ds = []"
    from v show False unfolding e using that by simp
  qed
  have zero: "of_char CHR ''0'' = (48::nat)" by simp
  show "parse_decimal (decimal n) = n"
    using foldl_dec_chars [OF small, of 0] v by (simp add: parse_decimal_def decimal_def)
  show "list_all is_digit (decimal n)"
    using small by (auto simp: decimal_def list_all_iff is_digit_def digit_0 dec_char_code int_of_chr_def [of "CHR ''0''"])
  show "hd (decimal n) \<noteq> CHR ''0''" if "n \<noteq> 0"
  proof -
    have "hd ?ds \<noteq> 0" using hd_dropWhile [OF ne [OF that]] by simp
    moreover have "hd ?ds < 16" using small hd_in_set [OF ne [OF that]] by fastforce
    ultimately have "of_char (dec_char (hd ?ds)) \<noteq> (48::nat)" by (simp add: of_dec_char)
    then show ?thesis using that ne by (auto simp: decimal_def hd_map)
  qed
  show "decimal n \<noteq> []" using ne by (simp add: decimal_def)
  show "length (decimal n) \<le> 10"
    using length_dropWhile_le [of "\<lambda>d. d = 0" "digs 10 10 n"] by (simp add: decimal_def)
qed

lemma unat_neg_32: "sint (i :: u32) < 0 \<Longrightarrow> int (unat (- i)) = - sint i"
proof -
  assume n: "sint i < 0"
  have r: "uint i < 2 ^ 32" using unsigned_less [of i, where 'a = int] by simp
  have "uint (- i) = (- uint i) mod 2 ^ 32" by (simp add: uint_word_ariths)
  also have "\<dots> = (2 ^ 32 - uint i) mod 2 ^ 32" by simp
  also have "\<dots> = 2 ^ 32 - uint i" using n r by (intro mod_pos_pos_trivial) (simp_all add: sint_32 split: if_splits)
  finally show ?thesis using n r by (simp add: sint_32 split: if_splits)
qed

text \<open>
  A number printed into a log with room is appended as its decimal digits: they read back as the number and have no
  leading zero. A negative number has a minus sign before the digits of its absolute value.
\<close>

theorem print_number_roundtrip:
  assumes "log_wf s" "length (pending s) + 11 < DEBUG_BUFFER_SIZE"
  shows "\<exists>sg ds. pending (debug_print_int i s) = pending s @ sg @ ds \<and> sg = (if sint i < 0 then ''-'' else []) \<and>
    list_all is_digit ds \<and> int (parse_decimal ds) = \<bar>sint i\<bar> \<and> (ds = ''0'' \<or> hd ds \<noteq> CHR ''0'')"
proof -
  define n where "n = nat \<bar>sint i\<bar>"
  have r: "uint i < 2 ^ 32" using unsigned_less [of i, where 'a = int] by simp
  have sgn: "unat i = n" if "0 \<le> sint i" using that r by (auto simp: n_def sint_32 split: if_splits)
  have neg: "unat (- i) = n" if "sint i < 0" using unat_neg_32 [OF that] that unfolding n_def by linarith
  have "\<bar>sint i\<bar> < 10 ^ 10" using r unfolding sint_32 by simp
  then have small: "n < 10 ^ 10" unfolding n_def by simp
  note dc = decimal_correct [OF small]
  let ?sg = "if sint i < 0 then ''-'' else []"
  have "debug_print_int i s = fold put_log (if sint i < 0 then [''-'', decimal n] else [decimal n]) s"
    using sgn neg by (auto simp: debug_print_int_def print_unsigned_decimal_lemma put_log_def n_def decimal_def)
  then have "pending (debug_print_int i s) = pending s @ concat (if sint i < 0 then [''-'', decimal n] else [decimal n])"
    using assms dc(5) by (subst \<open>debug_print_int i s = _\<close>, intro logger.puts_text) auto
  then have "pending (debug_print_int i s) = pending s @ ?sg @ decimal n" by simp
  moreover have "decimal n = ''0'' \<or> hd (decimal n) \<noteq> CHR ''0''" using dc(3) by (cases "n = 0") (auto simp: decimal_def)
  ultimately show ?thesis using dc(1,2) by (intro exI [of _ ?sg] exI [of _ "decimal n"]) (simp add: n_def)
qed

lemma hex_bytes_text: "hex_bytes l n s = fold put_log (map (\<lambda>i. byte_text (byte_of l i)) (rev [0..<n])) s"
  by (induction n arbitrary: s) (simp_all add: printhex_text unat_byte)

text \<open>A number printed in hexadecimal is eight hexadecimal digits that read back as the number.\<close>

theorem printhex_roundtrip:
  assumes "log_wf s" "length (pending s) + 8 < DEBUG_BUFFER_SIZE"
  shows "\<exists>hs. pending (debug_printhex_unsigned l s) = pending s @ hs \<and> length hs = 8 \<and> parse_hex 0 hs = unat l"
proof -
  let ?b = "byte_of l"
  have "debug_printhex_unsigned l s = fold put_log (map (\<lambda>i. byte_text (?b i)) [3, 2, 1, 0]) s"
    using hex_bytes_text [of l 4 s] by (simp add: debug_printhex_unsigned_def upt_conv_Cons numeral_2_eq_2 numeral_3_eq_3)
  then have "pending (debug_printhex_unsigned l s) = pending s @ concat (map (\<lambda>i. byte_text (?b i)) [3, 2, 1, 0])"
    using assms by (subst \<open>debug_printhex_unsigned l s = _\<close>, intro logger.puts_text) (simp_all add: byte_text_def)
  moreover have "parse_hex 0 (byte_text (?b 3) @ byte_text (?b 2) @ byte_text (?b 1) @ byte_text (?b 0) @ []) = unat l"
    using bytes_value [of "unat l"] unsigned_less [of l, where 'a = nat]
    by (simp only: parse_byte byte_of_def mod_less_divisor) (simp add: parse_hex_def byte_of_def)
  ultimately show ?thesis
    by (intro exI [of _ "concat (map (\<lambda>i. byte_text (?b i)) [3, 2, 1, 0])"]) (simp add: byte_text_def)
qed


section \<open>A log with two outputs\<close>

definition demo_log :: Log where
  "demo_log = put_log ''hello'' (fst (logger_add_output (Some 2) (fst (logger_add_output (Some 1) (enable_log Log0)))))"

lemma demo_log_wf: "log_wf demo_log" "lg_enabled demo_log" "is_output (Some 2) demo_log" "pending demo_log = ''hello''"
proof -
  let ?s = "fst (logger_add_output (Some 2) (fst (logger_add_output (Some 1) (enable_log Log0))))"
  have "log_wf (enable_log Log0)" using log_init(1) by (simp add: enable_log_def log_wf_def)
  then have wf: "log_wf ?s" by (intro add_output_wf)
  have s: "lg_enabled ?s" "lg_funcs ?s = [Some 1, Some 2, None, None]" "pending ?s = []"
    by (simp_all add: enable_log_def Log0_def logger_add_output_def poke_def pending_def eval_nat_numeral)
  then show "log_wf demo_log" "lg_enabled demo_log" "is_output (Some 2) demo_log" "pending demo_log = ''hello''"
    using put_log_frame(1,2,3) [OF wf] put_log_frame(4) [OF wf, of "Some 2" "''hello''"]
    by (simp_all add: demo_log_def append_text_def, simp add: is_output_def)
qed

lemma log_refines_witness:
  "pending (fold log_op [Append '' you'', Flush, Append ''!''] demo_log) = ''!''"
  using log_refines [OF demo_log_wf(1,2,3), of "[Append '' you'', Flush, Append ''!'']"]
  by (simp add: demo_log_wf(4) append_text_def)

lemma force_flush_complete_witness:
  "\<exists>cs. sent_to (Some 2) (debug_force_flush demo_log) = sent_to (Some 2) demo_log @ cs \<and> concat cs = ''hello''"
  using force_flush_complete [OF demo_log_wf(1,2,3)] demo_log_wf(4) by auto

lemma print_number_roundtrip_witness:
  "\<exists>ds. pending (debug_print_int (- 42) demo_log) = ''hello-'' @ ds \<and> parse_decimal ds = 42"
proof -
  have "sint (- 42 :: u32) = - 42" by simp
  then show ?thesis using print_number_roundtrip [OF demo_log_wf(1), of "- 42"] by (auto simp: demo_log_wf(4))
qed

lemma printhex_roundtrip_witness:
  "\<exists>hs. pending (debug_printhex_unsigned 3735928559 demo_log) = ''hello'' @ hs \<and> parse_hex 0 hs = 3735928559"
  using printhex_roundtrip [OF demo_log_wf(1), of 3735928559] by (auto simp: demo_log_wf(4))

end
