(* ===== verification/Target.thy ===== *)
theory Target
  imports Kernel
begin

text \<open>
  The clock of the board, in three layers that call each other upwards: the real-time clock (\<^verbatim>\<open>stm32/bluepill/timer.cpp\<close>),
  the target (\<^verbatim>\<open>stm32/hal/codal_target_hal.cpp\<close>), which polls the bootloader and ticks the kernel, and the timer of CODAL
  (\<^verbatim>\<open>stm32/cm/CmTimer.cpp\<close>). A callback is a function on the state of the layer above it; the hardware counter is the
  argument \<open>now\<close>. A result of \<open>None\<close> is a callback that did not return within the fuel.
\<close>

section \<open>The real-time clock\<close>

record 's Rtc =
  rt_tickFunc :: "(u32 \<Rightarrow> 's \<Rightarrow> 's option) option"
  rt_alarmFunc :: "(u32 \<Rightarrow> 's \<Rightarrow> 's option) option"
  rt_tickCount :: u32
  rt_alarmCount :: u32
  rt_timerStarted :: bool
  rt_alarm :: u32           \<comment> \<open>the alarm register\<close>
  rt_sec :: bool            \<comment> \<open>the flag of the tick interrupt\<close>
  rt_alr :: bool            \<comment> \<open>the flag of the alarm interrupt\<close>
  rt_exti :: bool           \<comment> \<open>the request of line 17, the wakeup by the alarm\<close>
  rt_sys :: 's

definition rtc_setup :: "'s Rtc \<Rightarrow> 's Rtc" where
  "rtc_setup r = r\<lparr>rt_alarm := - 1, rt_sec := False, rt_alr := False\<rparr>"

definition platform_start_timer ::
  "(u32 \<Rightarrow> 's \<Rightarrow> 's option) option \<Rightarrow> (u32 \<Rightarrow> 's \<Rightarrow> 's option) option \<Rightarrow> 's Rtc \<Rightarrow> 's Rtc" where
  "platform_start_timer tickFunc0 alarmFunc0 r =
     (let r = r\<lparr>rt_tickFunc := tickFunc0, rt_alarmFunc := alarmFunc0\<rparr>
      in if rt_timerStarted r then r else rtc_setup (r\<lparr>rt_timerStarted := True\<rparr>))"

definition platform_set_alarm :: "u32 \<Rightarrow> u32 \<Rightarrow> 's Rtc \<Rightarrow> 's Rtc" where
  "platform_set_alarm now millisec r = r\<lparr>rt_alarm := now + millisec\<rparr>"

definition call_sys :: "(u32 \<Rightarrow> 's \<Rightarrow> 's option) option \<Rightarrow> u32 \<Rightarrow> 's Rtc \<Rightarrow> 's Rtc option" where
  "call_sys f now r = (case f of
       None \<Rightarrow> Some r
     | Some f \<Rightarrow> map_option (\<lambda>s. r\<lparr>rt_sys := s\<rparr>) (f now (rt_sys r)))"

definition rtc_isr :: "u32 \<Rightarrow> 's Rtc \<Rightarrow> 's Rtc option" where
  "rtc_isr now r =
     (if rt_sec r
      then let r = r\<lparr>rt_sec := False, rt_tickCount := rt_tickCount r + 1\<rparr> in call_sys (rt_tickFunc r) now r
      else Some r)"

definition rtc_alarm_isr :: "u32 \<Rightarrow> 's Rtc \<Rightarrow> 's Rtc option" where
  "rtc_alarm_isr now r =
     (let r = r\<lparr>rt_exti := False, rt_alr := False, rt_alarmCount := rt_alarmCount r + 1\<rparr>
      in call_sys (rt_alarmFunc r) now r)"

section \<open>The target\<close>

abbreviation MAX_BURST_POLL :: nat where "MAX_BURST_POLL \<equiv> 10"

record ('e, 'a) Target =
  tg_initialised :: bool
  tg_tick_callback :: "(u32 \<Rightarrow> 'e \<Rightarrow> 'e) option"
  tg_alarm_callback :: "(u32 \<Rightarrow> 'e \<Rightarrow> 'e) option"
  tg_bootloader_callback :: "('e \<Rightarrow> 'e \<times> int) option"
  tg_poll_status :: int
  tg_prev_poll_status :: int
  tg_env :: 'e
  tg_kernel :: "'a Kernel"

fun poll_burst :: "('e \<Rightarrow> 'e \<times> int) \<Rightarrow> nat \<Rightarrow> ('e, 'a) Target \<Rightarrow> ('e, 'a) Target" where
  "poll_burst cb 0 t = t"
| "poll_burst cb (Suc i) t =
     (let (e, status) = cb (tg_env t)
      in poll_burst cb i (t\<lparr>tg_env := e, tg_poll_status := tg_poll_status t OR status\<rparr>))"

fun poll_loop :: "nat \<Rightarrow> ('e \<Rightarrow> 'e \<times> int) \<Rightarrow> ('e, 'a) Target \<Rightarrow> ('e, 'a) Target option" where
  "poll_loop fuel cb t =
     (if tg_poll_status t > 0
      then case fuel of
             0 \<Rightarrow> None
           | Suc fuel \<Rightarrow> poll_loop fuel cb (poll_burst cb MAX_BURST_POLL (t\<lparr>tg_poll_status := 0\<rparr>))
      else Some t)"

declare poll_loop.simps [simp del]

definition poll_bootloader :: "nat \<Rightarrow> ('e, 'a) Target \<Rightarrow> ('e, 'a) Target option" where
  "poll_bootloader fuel t =
     (case tg_bootloader_callback t of
        None \<Rightarrow> Some t
      | Some cb \<Rightarrow>
          let (e, status) = cb (tg_env t)
          in poll_loop fuel cb (t\<lparr>tg_env := e, tg_poll_status := status, tg_prev_poll_status := status\<rparr>))"

definition call_env :: "(u32 \<Rightarrow> 'e \<Rightarrow> 'e) option \<Rightarrow> u32 \<Rightarrow> ('e, 'a) Target \<Rightarrow> ('e, 'a) Target" where
  "call_env f now t = (case f of None \<Rightarrow> t | Some f \<Rightarrow> t\<lparr>tg_env := f now (tg_env t)\<rparr>)"

definition timer_tick :: "nat \<Rightarrow> u32 \<Rightarrow> ('e, 'a) Target \<Rightarrow> ('e, 'a) Target option" where
  "timer_tick fuel now t =
     map_option (\<lambda>t. let t = call_env (tg_tick_callback t) now t in t\<lparr>tg_kernel := os_tick (tg_kernel t)\<rparr>)
       (poll_bootloader fuel t)"

definition timer_alarm :: "u32 \<Rightarrow> ('e, 'a) Target \<Rightarrow> ('e, 'a) Target option" where
  "timer_alarm now t = Some (call_env (tg_alarm_callback t) now t)"

text \<open>\<^verbatim>\<open>platform_setup\<close> starts the clocks of the board and touches no state of the model.\<close>

definition target_init :: "nat \<Rightarrow> ('e, 'a) Target Rtc \<Rightarrow> ('e, 'a) Target Rtc" where
  "target_init fuel r =
     (if tg_initialised (rt_sys r) then r
      else platform_start_timer (Some (timer_tick fuel)) (Some timer_alarm)
        (r\<lparr>rt_sys := (rt_sys r)\<lparr>tg_initialised := True, tg_kernel := os_init\<rparr>\<rparr>))"

definition target_set_tick_callback :: "(u32 \<Rightarrow> 'e \<Rightarrow> 'e) option \<Rightarrow> ('e, 'a) Target \<Rightarrow> ('e, 'a) Target" where
  "target_set_tick_callback f t = t\<lparr>tg_tick_callback := f\<rparr>"

definition target_set_alarm_callback :: "(u32 \<Rightarrow> 'e \<Rightarrow> 'e) option \<Rightarrow> ('e, 'a) Target \<Rightarrow> ('e, 'a) Target" where
  "target_set_alarm_callback f t = t\<lparr>tg_alarm_callback := f\<rparr>"

definition target_set_bootloader_callback :: "('e \<Rightarrow> 'e \<times> int) option \<Rightarrow> ('e, 'a) Target \<Rightarrow> ('e, 'a) Target" where
  "target_set_bootloader_callback f t = t\<lparr>tg_bootloader_callback := f\<rparr>"

text \<open>Starting and running the scheduler of the kernel from the target.\<close>

definition os_preschedule :: "'a Kernel \<Rightarrow> 'a Kernel" where
  "os_preschedule k = (if kn_running k then k else k\<lparr>kn_running := True\<rparr>)"

definition schedule_task :: "(nat \<Rightarrow> 'a Kernel \<Rightarrow> 'a Kernel option) \<Rightarrow> 'a Kernel \<Rightarrow> 'a Kernel option" where
  "schedule_task taskproc k = (if \<not> kn_running k then Some k else os_schedule taskproc k)"

text \<open>
  The wait: \<open>nows\<close> are the times read in the iterations. The result counts the iterations, and is \<open>None\<close> when the wait is
  still going on after the last one.
\<close>

fun wait_loop ::
  "(nat \<Rightarrow> 'a Kernel \<Rightarrow> 'a Kernel option) \<Rightarrow> u32 \<Rightarrow> u32 list \<Rightarrow> nat \<Rightarrow> ('e, 'a) Target \<Rightarrow> (('e, 'a) Target \<times> nat) option" where
  "wait_loop taskproc finish [] i t = None"
| "wait_loop taskproc finish (now # nows) i t =
     (if now \<ge> finish then Some (t, i)
      else if kn_running (tg_kernel t)
      then case schedule_task taskproc (tg_kernel t) of
             None \<Rightarrow> None
           | Some k \<Rightarrow> wait_loop taskproc finish nows (Suc i) (t\<lparr>tg_kernel := k\<rparr>)
      else wait_loop taskproc finish nows (Suc i) t)"

definition target_wait ::
  "(nat \<Rightarrow> 'a Kernel \<Rightarrow> 'a Kernel option) \<Rightarrow> u32 \<Rightarrow> u32 \<Rightarrow> u32 list \<Rightarrow> ('e, 'a) Target \<Rightarrow> (('e, 'a) Target \<times> nat) option" where
  "target_wait taskproc milliseconds now nows t =
     (if milliseconds = 0 then Some (t, 0)
      else if \<not> tg_initialised t then Some (t, 0)
      else wait_loop taskproc (now + milliseconds) nows 0 t)"

definition target_wait_us ::
  "(nat \<Rightarrow> 'a Kernel \<Rightarrow> 'a Kernel option) \<Rightarrow> u32 \<Rightarrow> u32 \<Rightarrow> u32 list \<Rightarrow> ('e, 'a) Target \<Rightarrow> (('e, 'a) Target \<times> nat) option" where
  "target_wait_us taskproc microseconds now nows t = target_wait taskproc (microseconds div 1000) now nows t"

section \<open>The timer of CODAL\<close>

text \<open>
  The timer is an object with the statics of its file. What lies beyond, the scheduler of \<^verbatim>\<open>codal-core\<close>, has a state of its own
  that \<open>trigger\<close> and \<open>sync\<close> change; alarms it asks for are recorded as the times passed to \<^verbatim>\<open>platform_set_alarm\<close>.
\<close>

abbreviation SCHEDULER_TICK_PERIOD_US :: u32 where "SCHEDULER_TICK_PERIOD_US \<equiv> 4000"

record 'c CmTimer =
  cm_instance :: bool
  cm_initialised :: bool
  cm_prev :: u32
  cm_trigger_period :: u32
  cm_last_trigger :: u32
  cm_alarms :: "u32 list"
  cm_core :: 'c

definition cm_timer :: "'c CmTimer \<Rightarrow> 'c CmTimer" where
  "cm_timer m = m\<lparr>cm_initialised := False, cm_instance := True, cm_prev := 0, cm_trigger_period := 0, cm_last_trigger := 0\<rparr>"

definition tick_callback :: "('c \<Rightarrow> 'c) \<Rightarrow> u32 \<Rightarrow> 'c CmTimer \<Rightarrow> 'c CmTimer" where
  "tick_callback trigger now m =
     (if \<not> cm_instance m then m
      else if cm_last_trigger m + SCHEDULER_TICK_PERIOD_US div 1000 \<le> now
      then m\<lparr>cm_last_trigger := now, cm_core := trigger (cm_core m)\<rparr>
      else m)"

definition alarm_callback :: "('c \<Rightarrow> 'c) \<Rightarrow> u32 \<Rightarrow> 'c CmTimer \<Rightarrow> 'c CmTimer" where
  "alarm_callback trigger now m = (if \<not> cm_instance m then m else m\<lparr>cm_core := trigger (cm_core m)\<rparr>)"

definition triggerIn :: "u32 \<Rightarrow> 'c CmTimer \<Rightarrow> 'c CmTimer" where
  "triggerIn t m =
     (if \<not> cm_initialised m then m\<lparr>cm_trigger_period := t\<rparr> else m\<lparr>cm_alarms := cm_alarms m @ [t]\<rparr>)"

text \<open>The initialisation also registers the callbacks with the target, whose state holds the timer.\<close>

definition timer_init :: "('c \<Rightarrow> 'c) \<Rightarrow> u32 \<Rightarrow> ('c CmTimer, 'a) Target \<Rightarrow> ('c CmTimer, 'a) Target" where
  "timer_init trigger now t =
     (if cm_initialised (tg_env t) then t
      else
        let m = (tg_env t)\<lparr>cm_initialised := True, cm_prev := now\<rparr>;
            t = target_set_alarm_callback (Some (alarm_callback trigger))
              (target_set_tick_callback (Some (tick_callback trigger)) t)
        in t\<lparr>tg_env := (if cm_trigger_period m > 0
             then (triggerIn (cm_trigger_period m) m)\<lparr>cm_trigger_period := 0\<rparr> else m)\<rparr>)"

definition syncRequest :: "(u32 \<Rightarrow> 'c \<Rightarrow> 'c) \<Rightarrow> u32 \<Rightarrow> 'c CmTimer \<Rightarrow> 'c CmTimer" where
  "syncRequest sync now m =
     (if \<not> cm_initialised m then m
      else let delta = now - cm_prev m
           in m\<lparr>cm_prev := now, cm_core := sync (delta * 1000) (cm_core m)\<rparr>)"

end
