(* ===== verification/TargetLaws.thy ===== *)
theory TargetLaws
  imports Target KernelSched
begin

text \<open>
  What the clock promises: every tick interrupt reaches the kernel, so a task that waits for some milliseconds is ready
  after exactly as many interrupts; polling the bootloader goes on exactly as long as it is active; the target's
  own wait ends at the first reading of the clock past its end, but not when the end wraps; the timer of CODAL is told
  all the time that has passed.
\<close>

section \<open>Polling the bootloader\<close>

definition after_polls :: "('e \<Rightarrow> 'e \<times> int) \<Rightarrow> nat \<Rightarrow> 'e \<Rightarrow> 'e" where
  "after_polls cb n e = ((fst \<circ> cb) ^^ n) e"

definition status_at :: "('e \<Rightarrow> 'e \<times> int) \<Rightarrow> 'e \<Rightarrow> nat \<Rightarrow> int" where
  "status_at cb e n = snd (cb (after_polls cb n e))"

lemma after_polls_Suc: "fst (cb (after_polls cb n e)) = after_polls cb (Suc n) e"
  by (simp add: after_polls_def)

lemma after_polls_add: "after_polls cb n (after_polls cb m e) = after_polls cb (n + m) e"
  by (simp add: after_polls_def funpow_add)

lemma or_pos: "0 \<le> a \<Longrightarrow> 0 \<le> b \<Longrightarrow> (a OR b > 0) = (a > 0 \<or> b > (0 :: int))"
  by (metis or.right_neutral or_eq_0_iff or_nonnegative_int_iff order.not_eq_order_implies_strict order_less_irrefl)

text \<open>A burst is active when one of its polls, or the status it starts from, reports activity.\<close>

lemma poll_burst_result:
  assumes "\<And>i. 0 \<le> status_at cb (tg_env t) i" "0 \<le> tg_poll_status t"
  shows "\<exists>s. poll_burst cb n t = t\<lparr>tg_env := after_polls cb n (tg_env t), tg_poll_status := s\<rparr> \<and> 0 \<le> s \<and>
    (s > 0 \<longleftrightarrow> tg_poll_status t > 0 \<or> (\<exists>i < n. status_at cb (tg_env t) i > 0))"
  using assms
proof (induction n arbitrary: t)
  case 0
  then show ?case by (intro exI [of _ "tg_poll_status t"]) (simp add: after_polls_def)
next
  case (Suc n)
  let ?s = "status_at cb (tg_env t) 0"
  let ?t = "t\<lparr>tg_env := after_polls cb 1 (tg_env t), tg_poll_status := tg_poll_status t OR ?s\<rparr>"
  have shift: "status_at cb (after_polls cb (Suc 0) (tg_env t)) i = status_at cb (tg_env t) (Suc i)" for i
    by (simp add: status_at_def after_polls_add)
  have step: "poll_burst cb (Suc n) t = poll_burst cb n ?t"
    by (simp add: status_at_def after_polls_def split_beta)
  have "0 \<le> tg_poll_status ?t" using Suc.prems by simp
  then obtain s where s: "poll_burst cb n ?t = ?t\<lparr>tg_env := after_polls cb n (tg_env ?t), tg_poll_status := s\<rparr>" "0 \<le> s"
      "s > 0 \<longleftrightarrow> tg_poll_status ?t > 0 \<or> (\<exists>i < n. status_at cb (tg_env ?t) i > 0)"
    using Suc.IH [of ?t] Suc.prems(1) shift by auto
  have "s > 0 \<longleftrightarrow> tg_poll_status t > 0 \<or> (\<exists>i < Suc n. status_at cb (tg_env t) i > 0)"
    using s(3) or_pos [of "tg_poll_status t" ?s] Suc.prems by (auto simp: shift Ex_less_Suc2)
  then show ?case using s(1,2) step by (auto simp: after_polls_add)
qed

definition active :: "('e \<Rightarrow> 'e \<times> int) \<Rightarrow> 'e \<Rightarrow> nat \<Rightarrow> bool" where
  "active cb e j \<longleftrightarrow> (if j = 0 then status_at cb e 0 > 0 else \<exists>i < 10. status_at cb e (1 + 10 * (j - 1) + i) > 0)"


lemma poll_loop_until:
  assumes "tg_env t = after_polls cb (1 + 10 * j) e" "0 \<le> tg_poll_status t" "tg_poll_status t > 0 \<longleftrightarrow> active cb e j"
    "\<And>i. 0 \<le> status_at cb e i" "\<not> active cb e k" "\<And>i. j \<le> i \<Longrightarrow> i < k \<Longrightarrow> active cb e i" "j \<le> k" "k \<le> j + fuel"
  shows "poll_loop fuel cb t = Some (t\<lparr>tg_env := after_polls cb (1 + 10 * k) e, tg_poll_status := 0\<rparr>)"
  using assms
proof (induction fuel arbitrary: j t)
  case 0
  then show ?case by (simp add: poll_loop.simps [of 0])
next
  case (Suc fuel)
  show ?case
  proof (cases "j = k")
    case True
    then have "tg_poll_status t = 0" using Suc.prems by auto
    then show ?thesis using Suc.prems(1) True by (simp add: poll_loop.simps [of "Suc fuel"])
  next
    case False
    then have a: "active cb e j" using Suc.prems(6) [of j] Suc.prems(7) by simp
    have shift: "status_at cb (after_polls cb m e) i = status_at cb e (m + i)" for m i
      by (simp add: status_at_def after_polls_add add.commute)
    let ?t = "t\<lparr>tg_poll_status := 0\<rparr>"
    obtain s where s: "poll_burst cb 10 ?t = ?t\<lparr>tg_env := after_polls cb 10 (tg_env t), tg_poll_status := s\<rparr>" "0 \<le> s"
        "s > 0 \<longleftrightarrow> (\<exists>i < 10. status_at cb (tg_env t) i > 0)"
      using poll_burst_result [of cb ?t 10] Suc.prems(1,4) shift by auto
    have "s > 0 \<longleftrightarrow> active cb e (Suc j)" using s(3) by (simp add: active_def Suc.prems(1) shift)
    then have "poll_loop fuel cb (poll_burst cb 10 ?t) =
        Some ((poll_burst cb 10 ?t)\<lparr>tg_env := after_polls cb (1 + 10 * k) e, tg_poll_status := 0\<rparr>)"
      using Suc.prems s(1,2) False
      by (intro Suc.IH [of _ "Suc j"]) (auto simp: after_polls_add)
    then show ?thesis using a Suc.prems(3) s(1) by (simp add: poll_loop.simps [of "Suc fuel"])
  qed
qed

text \<open>
  The poll of the bootloader ends, and its length is exact: after the first call come bursts of ten calls, one more
  for as long as the calls before it (the first call, then the last burst) report activity, and none when they do not.
\<close>

theorem bootloader_polled:
  assumes "tg_bootloader_callback t = Some cb" "\<And>i. 0 \<le> status_at cb (tg_env t) i"
    "\<And>i. m \<le> i \<Longrightarrow> status_at cb (tg_env t) i = 0" "m \<le> fuel"
  shows "\<exists>k \<le> m. (\<forall>j < k. active cb (tg_env t) j) \<and> \<not> active cb (tg_env t) k \<and>
    poll_bootloader fuel t = Some (t\<lparr>tg_env := after_polls cb (1 + 10 * k) (tg_env t), tg_poll_status := 0,
      tg_prev_poll_status := status_at cb (tg_env t) 0\<rparr>)"
proof -
  let ?e = "tg_env t" and ?s = "status_at cb (tg_env t) 0"
  have active_0: "active cb ?e 0 \<longleftrightarrow> ?s > 0" by (simp add: active_def)
  have quiet: "\<not> active cb ?e m" using assms(3) by (auto simp: active_def)
  define k where "k = (LEAST k. \<not> active cb ?e k)"
  have k: "\<not> active cb ?e k" "k \<le> m" "\<And>j. j < k \<Longrightarrow> active cb ?e j"
    unfolding k_def using LeastI [of "\<lambda>k. \<not> active cb ?e k", OF quiet] Least_le [of "\<lambda>k. \<not> active cb ?e k", OF quiet]
    by (auto dest: not_less_Least)
  let ?t = "t\<lparr>tg_env := after_polls cb 1 ?e, tg_poll_status := ?s, tg_prev_poll_status := ?s\<rparr>"
  have "poll_loop fuel cb ?t = Some (?t\<lparr>tg_env := after_polls cb (1 + 10 * k) ?e, tg_poll_status := 0\<rparr>)"
    using assms(2,4) k active_0 by (intro poll_loop_until [where j = 0]) auto
  moreover have "poll_bootloader fuel t = poll_loop fuel cb ?t"
    using assms(1) by (simp add: poll_bootloader_def split_beta status_at_def after_polls_def)
  ultimately show ?thesis using k by auto
qed

section \<open>From the interrupt to the tasks\<close>

fun rtc_ticks :: "u32 list \<Rightarrow> 's Rtc \<Rightarrow> 's Rtc option" where
  "rtc_ticks [] r = Some r"
| "rtc_ticks (now # nows) r = Option.bind (rtc_isr now (r\<lparr>rt_sec := True\<rparr>)) (rtc_ticks nows)"

text \<open>A board whose timer was started by the target and whose bootloader, if any, can always be polled.\<close>

definition board_ticks :: "nat \<Rightarrow> ('e, 'a) Target Rtc \<Rightarrow> bool" where
  "board_ticks fuel r \<longleftrightarrow> rt_tickFunc r = Some (timer_tick fuel) \<and>
     (\<forall>t :: ('e, 'a) Target. tg_bootloader_callback t = tg_bootloader_callback (rt_sys r) \<longrightarrow> poll_bootloader fuel t \<noteq> None)"

lemma poll_burst_frame:
  "tg_kernel (poll_burst cb n t) = tg_kernel t \<and> tg_bootloader_callback (poll_burst cb n t) = tg_bootloader_callback t"
  by (induction n arbitrary: t) (simp_all add: split_beta)

lemma poll_loop_frame:
  "poll_loop fuel cb t = Some t' \<Longrightarrow> tg_kernel t' = tg_kernel t \<and> tg_bootloader_callback t' = tg_bootloader_callback t"
proof (induction fuel arbitrary: t)
  case 0
  then show ?case by (simp add: poll_loop.simps [of 0] split: if_splits)
next
  case (Suc fuel)
  show ?case
  proof (cases "tg_poll_status t > 0")
    case True
    then have "poll_loop fuel cb (poll_burst cb 10 (t\<lparr>tg_poll_status := 0\<rparr>)) = Some t'"
      using Suc.prems by (simp add: poll_loop.simps [of "Suc fuel"])
    from Suc.IH [OF this] show ?thesis by (simp add: poll_burst_frame)
  qed (use Suc.prems in \<open>simp add: poll_loop.simps [of "Suc fuel"]\<close>)
qed

lemma poll_frame:
  "poll_bootloader fuel t = Some t' \<Longrightarrow> tg_kernel t' = tg_kernel t \<and> tg_bootloader_callback t' = tg_bootloader_callback t"
  using poll_loop_frame by (fastforce simp: poll_bootloader_def split: option.splits prod.splits)

lemma timer_tick_frame:
  "timer_tick fuel now t = Some t' \<Longrightarrow>
    tg_kernel t' = os_tick (tg_kernel t) \<and> tg_bootloader_callback t' = tg_bootloader_callback t"
  using poll_frame [of fuel t] by (auto simp: timer_tick_def call_env_def Let_def split: option.splits)

lemma rtc_ticks_kernel:
  "board_ticks fuel r \<Longrightarrow> \<exists>r'. rtc_ticks nows r = Some r' \<and> board_ticks fuel r' \<and>
    tg_kernel (rt_sys r') = (os_tick ^^ length nows) (tg_kernel (rt_sys r)) \<and>
    rt_tickCount r' = rt_tickCount r + of_nat (length nows)"
proof (induction nows arbitrary: r)
  case (Cons now nows)
  let ?r = "r\<lparr>rt_sec := False, rt_tickCount := rt_tickCount r + 1\<rparr>"
  obtain t where t: "timer_tick fuel now (rt_sys r) = Some t"
    using Cons.prems by (auto simp: board_ticks_def timer_tick_def)
  note fr = timer_tick_frame [OF t]
  have isr: "rtc_isr now (r\<lparr>rt_sec := True\<rparr>) = Some (?r\<lparr>rt_sys := t\<rparr>)"
    using Cons.prems t by (simp add: rtc_isr_def call_sys_def board_ticks_def)
  have "board_ticks fuel (?r\<lparr>rt_sys := t\<rparr>)" using Cons.prems fr by (simp add: board_ticks_def)
  from Cons.IH [OF this] show ?case using isr fr by (auto simp: funpow_swap1 add_ac)
qed simp

text \<open>
  C33. A task that waits for some milliseconds becomes ready exactly at the interrupt of the clock that ends them: the tick
  interrupt of the real-time clock, through the target and its callbacks, ticks the kernel once, whatever the
  bootloader and CODAL do in between.
\<close>

theorem task_wait_interrupts:
  assumes "board_ticks fuel r" "kn_running_tid k = tid" "tid < length (kn_tasks k)" "os_wait_ticks time 0 pc k = Some (tg_kernel (rt_sys r))"
  shows "\<exists>r'. rtc_ticks nows r = Some r' \<and> rt_tickCount r' = rt_tickCount r + of_nat (length nows) \<and>
    tb_state (kn_tasks (tg_kernel (rt_sys r')) ! tid) = (if length nows < unat time then WAITING_TIME else READY)"
proof -
  obtain r' where r': "rtc_ticks nows r = Some r'" "tg_kernel (rt_sys r') = (os_tick ^^ length nows) (tg_kernel (rt_sys r))"
      "rt_tickCount r' = rt_tickCount r + of_nat (length nows)"
    using rtc_ticks_kernel [OF assms(1)] by blast
  then show ?thesis using task_wait_ticks [OF assms(2-4)] by simp
qed


section \<open>The wait of the target\<close>

text \<open>A task that always returns.\<close>

definition tasks_return :: "(nat \<Rightarrow> 'a Kernel \<Rightarrow> 'a Kernel option) \<Rightarrow> bool" where
  "tasks_return taskproc \<longleftrightarrow> (\<forall>k. schedule_task taskproc k \<noteq> None)"

lemma wait_loop_returns:
  assumes "tasks_return taskproc" "i < length nows" "nows ! i \<ge> finish" "\<And>j. j < i \<Longrightarrow> nows ! j < finish"
  shows "\<exists>t'. wait_loop taskproc finish nows n t = Some (t', n + i)"
  using assms
proof (induction nows arbitrary: i n t)
  case (Cons now nows)
  show ?case
  proof (cases i)
    case 0
    then show ?thesis using Cons.prems by simp
  next
    case (Suc m)
    have m: "m < length nows" "nows ! m \<ge> finish" using Cons.prems(2,3) Suc by simp_all
    have before: "nows ! j < finish" if "j < m" for j using Cons.prems(4) [of "Suc j"] that Suc by simp
    have "now < finish" using Cons.prems(4) [of 0] Suc by simp
    moreover obtain k where "schedule_task taskproc (tg_kernel t) = Some k"
      using Cons.prems(1) by (auto simp: tasks_return_def)
    moreover note Cons.IH [OF Cons.prems(1) m before, of "Suc n" t] Cons.IH [OF Cons.prems(1) m before, of "Suc n" "t\<lparr>tg_kernel := k\<rparr>"]
    ultimately show ?thesis using Suc by auto
  qed
qed simp

text \<open>
  As long as the end of the wait does not wrap around, the target waits for the whole time and no longer: it returns at
  the first reading of the clock that is at least \<open>milliseconds\<close> after the start.
\<close>

theorem target_wait_duration:
  assumes "tg_initialised t" "0 < milliseconds" "unat now + unat milliseconds < 2 ^ 32" "tasks_return taskproc"
    "i < length nows" "unat (nows ! i) \<ge> unat now + unat milliseconds"
    "\<And>j. j < i \<Longrightarrow> unat (nows ! j) < unat now + unat milliseconds"
  shows "\<exists>t'. target_wait taskproc milliseconds now nows t = Some (t', i)"
proof -
  have u: "unat (now + milliseconds) = unat now + unat milliseconds"
    using assms(3) by (simp add: unat_word_ariths)
  have "\<exists>t'. wait_loop taskproc (now + milliseconds) nows 0 t = Some (t', 0 + i)"
    using assms(4-7) by (intro wait_loop_returns) (auto simp: word_le_nat_alt word_less_nat_alt u)
  then show ?thesis using assms(1,2) by (auto simp: target_wait_def)
qed

text \<open>
  When the end of the wait wraps around the 32-bit clock, the target does not wait at all: unless the clock itself has
  wrapped already, the first reading ends the loop, after no time and without running a task.
\<close>

theorem target_wait_wraps:
  assumes "tg_initialised t" "0 < milliseconds" "2 ^ 32 \<le> unat now + unat milliseconds" "nows = first # rest" "now \<le> first"
  shows "target_wait taskproc milliseconds now nows t = Some (t, 0)"
proof -
  have ms: "unat milliseconds < 2 ^ 32" using unsigned_less [of milliseconds, where 'a = nat] by simp
  have "unat (now + milliseconds) = (unat now + unat milliseconds) mod 2 ^ 32" by (simp add: unat_word_ariths)
  also have "\<dots> = unat now + unat milliseconds - 2 ^ 32"
    using assms(3) ms unsigned_less [of now, where 'a = nat] by (simp add: le_mod_geq)
  finally have "now + milliseconds \<le> now" using ms by (simp add: word_le_nat_alt)
  then have "now + milliseconds \<le> first" using assms(5) by simp
  then show ?thesis using assms(1,2,4) by (simp add: target_wait_def)
qed

section \<open>The time CODAL is told\<close>

text \<open>The state of CODAL is taken to be the list of the arguments of \<^verbatim>\<open>sync\<close>.\<close>

definition sync_log :: "u32 \<Rightarrow> u32 list \<Rightarrow> u32 list" where
  "sync_log us ds = ds @ [us]"

fun gaps :: "u32 \<Rightarrow> u32 list \<Rightarrow> u32 list" where
  "gaps prev [] = []"
| "gaps prev (now # nows) = (now - prev) # gaps now nows"

lemma unat_times_1000: "unat d \<le> 4294967 \<Longrightarrow> unat (d * 1000 :: u32) = unat d * 1000"
  by (simp add: unat_word_ariths)

lemma syncs_log:
  "cm_initialised m \<Longrightarrow>
    cm_core (fold (syncRequest sync_log) nows m) = cm_core m @ map (\<lambda>d. d * 1000) (gaps (cm_prev m) nows) \<and>
    cm_prev (fold (syncRequest sync_log) nows m) = last (cm_prev m # nows)"
  by (induction nows arbitrary: m) (simp_all add: syncRequest_def sync_log_def Let_def)

text \<open>
  The microseconds CODAL is told are all the time that has passed, also across a wrap of the clock, if a
  request comes at least every 71 minutes; the next gap then starts at the last request.
\<close>

theorem sync_exact:
  assumes "cm_initialised m" "cm_core m = []" "list_all (\<lambda>d. unat d \<le> 4294967) (gaps (cm_prev m) nows)"
  shows "sum_list (map unat (cm_core (fold (syncRequest sync_log) nows m))) = 1000 * sum_list (map unat (gaps (cm_prev m) nows)) \<and>
    cm_prev (fold (syncRequest sync_log) nows m) = last (cm_prev m # nows)"
proof -
  have "sum_list (map unat (map (\<lambda>d. d * 1000) ds)) = 1000 * sum_list (map unat ds)"
    if "list_all (\<lambda>d. unat d \<le> 4294967) ds" for ds :: "u32 list"
    using that by (induction ds) (simp_all add: unat_times_1000 algebra_simps)
  then show ?thesis using syncs_log [OF assms(1), of nows] assms by simp
qed

section \<open>A board\<close>

definition demo_target :: "(nat, unit) Target" where
  "demo_target = \<lparr>tg_initialised = True, tg_tick_callback = None, tg_alarm_callback = None, tg_bootloader_callback = None,
     tg_poll_status = 0, tg_prev_poll_status = 0, tg_env = 0,
     tg_kernel = os_init\<lparr>kn_tasks := [new_task 10 NO_QUEUE], kn_running_tid := 0\<rparr>\<rparr>"

text \<open>A bootloader that reports activity in its calls 0 and 5: one burst follows the first call, a second one the burst.\<close>

definition demo_boot :: "nat \<Rightarrow> nat \<times> int" where
  "demo_boot n = (Suc n, if n = 0 \<or> n = 5 then 1 else 0)"

lemma demo_boot_status: "after_polls demo_boot n e = e + n" "status_at demo_boot e i = (if e + i = 0 \<or> e + i = 5 then 1 else 0)"
proof -
  show a: "after_polls demo_boot n e = e + n" for n by (induction n) (simp_all add: after_polls_def demo_boot_def)
  show "status_at demo_boot e i = (if e + i = 0 \<or> e + i = 5 then 1 else 0)"
    by (simp add: status_at_def a) (simp add: demo_boot_def)
qed

lemma bootloader_polled_witness:
  "\<exists>k \<le> 6. poll_bootloader 6 (demo_target\<lparr>tg_bootloader_callback := Some demo_boot\<rparr>) =
     Some (demo_target\<lparr>tg_bootloader_callback := Some demo_boot, tg_env := 1 + 10 * k, tg_prev_poll_status := 1\<rparr>)"
proof -
  let ?t = "demo_target\<lparr>tg_bootloader_callback := Some demo_boot\<rparr>"
  have e: "tg_env ?t = 0" "tg_bootloader_callback ?t = Some demo_boot" by (simp_all add: demo_target_def)
  have "0 \<le> status_at demo_boot (tg_env ?t) i" "6 \<le> i \<Longrightarrow> status_at demo_boot (tg_env ?t) i = 0" for i
    by (simp_all add: e demo_boot_status)
  from bootloader_polled [OF e(2) this order.refl] show ?thesis
    by (auto simp: e demo_boot_status) (auto simp: demo_target_def)
qed

definition demo_rtc :: "(nat, unit) Target Rtc" where
  "demo_rtc = \<lparr>rt_tickFunc = Some (timer_tick 0), rt_alarmFunc = Some timer_alarm, rt_tickCount = 0, rt_alarmCount = 0,
     rt_timerStarted = True, rt_alarm = - 1, rt_sec = False, rt_alr = False, rt_exti = False,
     rt_sys = demo_target\<lparr>tg_kernel := the (os_wait_ticks 5 0 1 (tg_kernel demo_target))\<rparr>\<rparr>"

lemma task_wait_interrupts_witness:
  "\<exists>r'. rtc_ticks [1, 2, 3, 4, 5] demo_rtc = Some r' \<and> tb_state (kn_tasks (tg_kernel (rt_sys r')) ! 0) = READY"
proof -
  have "board_ticks 0 demo_rtc" by (simp add: board_ticks_def demo_rtc_def demo_target_def poll_bootloader_def)
  moreover have "os_wait_ticks 5 0 1 (tg_kernel demo_target) = Some (tg_kernel (rt_sys demo_rtc))"
    by (simp add: demo_rtc_def demo_target_def os_wait_ticks_def os_task_wait_time_set_def os_assert_def os_init_def)
  moreover have "kn_running_tid (tg_kernel demo_target) = 0" "0 < length (kn_tasks (tg_kernel demo_target))"
    by (simp_all add: demo_target_def)
  ultimately show ?thesis using task_wait_interrupts [of 0 demo_rtc _ 0 5 1 "[1, 2, 3, 4, 5]"] by auto
qed

lemma tasks_return_intro: "(\<And>tid k. taskproc tid k \<noteq> None) \<Longrightarrow> tasks_return taskproc"
  using best_spec [of "\<lambda>t. tb_state t = READY" 0 "kn_tasks k" 255 NO_TID for k]
  by (fastforce simp: tasks_return_def schedule_task_def os_schedule_def os_task_run_def os_task_highest_prio_ready_task_def
      highest_ready_best Let_def)

lemma target_wait_duration_witness:
  "\<exists>t'. target_wait (\<lambda>tid k. Some k) 10 1000 [1000, 1004, 1009, 1010] demo_target = Some (t', 3)"
proof -
  have r: "tasks_return (\<lambda>tid k :: unit Kernel. Some k)" by (rule tasks_return_intro) simp
  have "unat ([1000, 1004, 1009, 1010 :: u32] ! j) < 1010" if "j < 3" for j
    using that by (auto simp: less_Suc_eq numeral_3_eq_3)
  then show ?thesis
    using target_wait_duration [OF _ _ _ r, of demo_target 10 1000 3 "[1000, 1004, 1009, 1010]"]
    by (simp add: demo_target_def)
qed

text \<open>A wait of one minute, started one second before the clock wraps.\<close>

lemma target_wait_wraps_witness:
  "target_wait (\<lambda>tid k. Some k) 60000 4294966296 [4294966296] demo_target = Some (demo_target, 0)"
  using target_wait_wraps [of demo_target 60000 4294966296 "[4294966296]" 4294966296 "[]"] by (simp add: demo_target_def)

definition demo_timer :: "u32 list CmTimer" where
  "demo_timer = \<lparr>cm_instance = True, cm_initialised = True, cm_prev = 4294967290, cm_trigger_period = 0, cm_last_trigger = 0,
     cm_alarms = [], cm_core = []\<rparr>"

lemma sync_exact_witness:
  "sum_list (map unat (cm_core (fold (syncRequest sync_log) [4294967294, 10] demo_timer))) = 16000"
proof -
  have "gaps 4294967290 [4294967294, 10] = [4, 12]" by simp
  then show ?thesis using sync_exact [of demo_timer "[4294967294, 10]"] by (simp add: demo_timer_def)
qed

end
