(* ===== verification/I2c.thy ===== *)
theory I2c
  imports Prelude "HOL-Library.Monad_Syntax"
begin

text \<open>
  The I2C port (\<^verbatim>\<open>stm32/i2cint/i2cint.cpp\<close>): the polled driver of the real port, with the Arduino interface over it, and the
  recorded BME280 that replaces it when \<^verbatim>\<open>SIMULATE_BME280\<close> is defined. The status registers and the clock are inputs: each
  reading of them takes the next poll of the list \<open>ic_in\<close>. What the driver asks of the bus is recorded in \<open>ic_bus\<close>. A result of \<open>None\<close>
  is a loop that is still waiting when the polls are used up.
\<close>

section \<open>The driver\<close>

datatype I2C_Fails = I2C_Ok | I2C_Addr_Timeout | I2C_Addr_NAK | I2C_Write_Timeout | I2C_Read_Timeout

datatype I2C_RW = Read | Write

datatype i2c_cmd = I2C_Start | I2C_Stop | I2C_Addr u8 I2C_RW | I2C_Data u8 | I2C_Ack bool

record I2C_Poll =
  pl_sb :: bool      \<comment> \<open>start condition sent\<close>
  pl_msl :: bool     \<comment> \<open>master mode or bus busy\<close>
  pl_busy :: bool
  pl_addr :: bool    \<comment> \<open>address acknowledged\<close>
  pl_af :: bool      \<comment> \<open>acknowledge failure\<close>
  pl_btf :: bool     \<comment> \<open>byte transferred\<close>
  pl_rxne :: bool    \<comment> \<open>byte received\<close>
  pl_data :: u8
  pl_time :: u32

record I2C_Control =
  ic_addr :: u8
  ic_reg :: u8
  ic_isRegSet :: bool
  ic_length :: u8
  ic_timeout :: u32
  ic_failCode :: I2C_Fails
  ic_bus :: "i2c_cmd list"
  ic_in :: "I2C_Poll list"

definition i2c_diff_ticks :: "u32 \<Rightarrow> u32 \<Rightarrow> u32" where
  "i2c_diff_ticks early later = (if later \<ge> early then later - early else NOT 0 - early + 1 + later)"

definition i2c_showError :: "I2C_Control \<Rightarrow> I2C_Fails \<Rightarrow> I2C_Control \<times> I2C_Fails" where
  "i2c_showError c fc = (c\<lparr>ic_failCode := fc\<rparr>, fc)"

definition i2c_configure :: "u32 \<Rightarrow> I2C_Control \<Rightarrow> I2C_Control" where
  "i2c_configure ticks c = c\<lparr>ic_addr := 0, ic_reg := 0, ic_isRegSet := False, ic_length := 0, ic_timeout := ticks,
     ic_failCode := I2C_Ok\<rparr>"

definition bus :: "i2c_cmd \<Rightarrow> I2C_Control \<Rightarrow> I2C_Control" where
  "bus cmd c = c\<lparr>ic_bus := ic_bus c @ [cmd]\<rparr>"

definition systicks :: "I2C_Control \<Rightarrow> (u32 \<times> I2C_Control) option" where
  "systicks c = (case ic_in c of [] \<Rightarrow> None | p # ps \<Rightarrow> Some (pl_time p, c\<lparr>ic_in := ps\<rparr>))"

fun wait_busy :: "I2C_Poll list \<Rightarrow> I2C_Poll list option" where
  "wait_busy [] = None"
| "wait_busy (p # ps) = (if pl_busy p then wait_busy ps else Some ps)"

definition i2c_wait_busy :: "I2C_Control \<Rightarrow> I2C_Control option" where
  "i2c_wait_busy c = map_option (\<lambda>ps. c\<lparr>ic_in := ps\<rparr>) (wait_busy (ic_in c))"

text \<open>The loop of every wait: until the flags are there, a NAK or the timeout.\<close>

datatype i2c_out = Ready I2C_Poll | Nak | Late

fun poll_flags :: "(I2C_Poll \<Rightarrow> bool) \<Rightarrow> (I2C_Poll \<Rightarrow> bool) \<Rightarrow> u32 \<Rightarrow> u32 \<Rightarrow> I2C_Poll list \<Rightarrow> (i2c_out \<times> I2C_Poll list) option" where
  "poll_flags flags nak t0 timeout [] = None"
| "poll_flags flags nak t0 timeout (p # ps) =
     (if flags p then Some (Ready p, ps)
      else if nak p then Some (Nak, ps)
      else if i2c_diff_ticks t0 (pl_time p) > timeout then Some (Late, ps)
      else poll_flags flags nak t0 timeout ps)"

definition wait_flags :: "(I2C_Poll \<Rightarrow> bool) \<Rightarrow> (I2C_Poll \<Rightarrow> bool) \<Rightarrow> u32 \<Rightarrow> I2C_Control \<Rightarrow> (i2c_out \<times> I2C_Control) option" where
  "wait_flags flags nak t0 c =
     map_option (\<lambda>(out, ps). (out, c\<lparr>ic_in := ps\<rparr>)) (poll_flags flags nak t0 (ic_timeout c) (ic_in c))"

text \<open>The end of addressing a device, shared by a start and a repeated start.\<close>

definition i2c_address :: "u32 \<Rightarrow> u8 \<Rightarrow> I2C_RW \<Rightarrow> I2C_Control \<Rightarrow> (I2C_Control \<times> I2C_Fails) option" where
  "i2c_address t0 addr rw c = do {
     (out, c) \<leftarrow> wait_flags (\<lambda>p. pl_sb p \<and> pl_msl p) (\<lambda>_. False) t0 c;
     if out = Late then Some (i2c_showError c I2C_Addr_Timeout)
     else do {
       (t0, c) \<leftarrow> systicks (bus (I2C_Addr addr rw) c);
       (out, c) \<leftarrow> wait_flags pl_addr pl_af t0 c;
       Some (case out of
           Nak \<Rightarrow> i2c_showError (bus I2C_Stop c) I2C_Addr_NAK
         | Late \<Rightarrow> i2c_showError c I2C_Addr_Timeout
         | Ready _ \<Rightarrow> (c, I2C_Ok))
     }
   }"

definition i2c_start_addr :: "u8 \<Rightarrow> I2C_RW \<Rightarrow> I2C_Control \<Rightarrow> (I2C_Control \<times> I2C_Fails) option" where
  "i2c_start_addr addr rw c = do {
     (t0, c) \<leftarrow> systicks c;
     c \<leftarrow> i2c_wait_busy c;
     let c = (if rw = Read then bus (I2C_Ack True) c else c);
     i2c_address t0 addr rw (bus I2C_Start c)
   }"

definition i2c_write :: "u8 \<Rightarrow> I2C_Control \<Rightarrow> (I2C_Control \<times> I2C_Fails) option" where
  "i2c_write byte c = do {
     (t0, c) \<leftarrow> systicks c;
     (out, c) \<leftarrow> wait_flags pl_btf (\<lambda>_. False) t0 (bus (I2C_Data byte) c);
     Some (if out = Late then i2c_showError c I2C_Write_Timeout else (c, I2C_Ok))
   }"

definition i2c_read :: "bool \<Rightarrow> I2C_Control \<Rightarrow> (I2C_Control \<times> int) option" where
  "i2c_read lastf c = do {
     (t0, c) \<leftarrow> systicks c;
     (out, c) \<leftarrow> wait_flags pl_rxne (\<lambda>_. False) t0 (if lastf then bus (I2C_Ack False) c else c);
     Some (case out of
         Ready p \<Rightarrow> (c, uint (pl_data p))
       | _ \<Rightarrow> (fst (i2c_showError c I2C_Read_Timeout), - 1))
   }"

definition i2c_write_restart :: "u8 \<Rightarrow> u8 \<Rightarrow> I2C_Control \<Rightarrow> (I2C_Control \<times> I2C_Fails) option" where
  "i2c_write_restart byte addr c = do {
     (t0, c) \<leftarrow> systicks c;
     (out, c) \<leftarrow> wait_flags pl_btf (\<lambda>_. False) t0 (bus I2C_Start (bus (I2C_Data byte) c));
     if out = Late then Some (i2c_showError c I2C_Write_Timeout)
     else do {
       (t0, c) \<leftarrow> systicks c;
       i2c_address t0 addr Read c
     }
   }"

definition i2c_stop :: "I2C_Control \<Rightarrow> I2C_Control" where
  "i2c_stop c = bus I2C_Stop c"

section \<open>The Arduino interface\<close>

text \<open>What the interface offers, for the real port and for the recorded sensor.\<close>

record 'w Wire =
  wr_beginTransmission :: "u8 \<Rightarrow> 'w \<Rightarrow> 'w option"
  wr_write :: "u8 \<Rightarrow> 'w \<Rightarrow> ('w \<times> nat) option"
  wr_endTransmission :: "'w \<Rightarrow> ('w \<times> nat) option"
  wr_requestFrom :: "u8 \<Rightarrow> u8 \<Rightarrow> 'w \<Rightarrow> ('w \<times> u8) option"
  wr_available :: "'w \<Rightarrow> int"
  wr_read :: "'w \<Rightarrow> ('w \<times> int) option"

definition beginTransmission :: "u8 \<Rightarrow> I2C_Control \<Rightarrow> I2C_Control option" where
  "beginTransmission addr c =
     map_option fst (i2c_start_addr addr Write (c\<lparr>ic_addr := addr, ic_reg := 0, ic_isRegSet := False, ic_length := 0,
       ic_failCode := I2C_Ok\<rparr>))"

definition write_value :: "u8 \<Rightarrow> I2C_Control \<Rightarrow> (I2C_Control \<times> nat) option" where
  "write_value v c =
     (if ic_failCode c \<noteq> I2C_Ok then Some (c, 0)
      else map_option (\<lambda>(c, fc). (c, if fc \<noteq> I2C_Ok then 0 else 1))
        (i2c_write v (if \<not> ic_isRegSet c then c\<lparr>ic_reg := v, ic_isRegSet := True\<rparr> else c)))"

definition write_register :: "u8 \<Rightarrow> u8 \<Rightarrow> I2C_Control \<Rightarrow> (I2C_Control \<times> nat) option" where
  "write_register registerID v c =
     (if ic_failCode c \<noteq> I2C_Ok then Some (c, 0)
      else do {
        (c, fc) \<leftarrow> i2c_write registerID (c\<lparr>ic_reg := registerID, ic_isRegSet := True\<rparr>);
        if fc \<noteq> I2C_Ok then Some (c, 0)
        else map_option (\<lambda>(c, fc). (c, if fc \<noteq> I2C_Ok then 1 else 2)) (i2c_write v c)
      })"

definition endTransmission :: "I2C_Control \<Rightarrow> (I2C_Control \<times> nat) option" where
  "endTransmission c = Some (if ic_failCode c \<noteq> I2C_Ok then (c, 0) else (i2c_stop c, 1))"

definition requestFrom :: "u8 \<Rightarrow> u8 \<Rightarrow> I2C_Control \<Rightarrow> (I2C_Control \<times> u8) option" where
  "requestFrom addr len c =
     (if ic_failCode c \<noteq> I2C_Ok then Some (c\<lparr>ic_addr := addr, ic_length := 0\<rparr>, 0)
      else map_option (\<lambda>(c, fc). if fc \<noteq> I2C_Ok then (c\<lparr>ic_length := 0\<rparr>, 0) else (c, len))
        (i2c_start_addr addr Read (c\<lparr>ic_addr := addr, ic_length := len\<rparr>)))"

definition available :: "I2C_Control \<Rightarrow> int" where
  "available c = uint (ic_length c)"

definition read :: "I2C_Control \<Rightarrow> (I2C_Control \<times> int) option" where
  "read c =
     (if ic_length c = 0 then Some (c, - 1)
      else
        let c = c\<lparr>ic_length := ic_length c - 1\<rparr>;
            lastByte = (ic_length c = 0)
        in map_option (\<lambda>(c, b). if b < 0 then (c, b) else (if lastByte then i2c_stop c else c, b)) (i2c_read lastByte c))"

definition real_wire :: "I2C_Control Wire" where
  "real_wire = \<lparr>wr_beginTransmission = beginTransmission, wr_write = write_value, wr_endTransmission = endTransmission,
     wr_requestFrom = requestFrom, wr_available = available, wr_read = read\<rparr>"

section \<open>The recorded sensor\<close>

abbreviation ID_ADDR :: u8 where "ID_ADDR \<equiv> 208"
abbreviation TEMP_DIG_ADDR :: u8 where "TEMP_DIG_ADDR \<equiv> 136"
abbreviation PRESS_DIG_ADDR :: u8 where "PRESS_DIG_ADDR \<equiv> 142"
abbreviation HUM_DIG_ADDR1 :: u8 where "HUM_DIG_ADDR1 \<equiv> 161"
abbreviation HUM_DIG_ADDR2 :: u8 where "HUM_DIG_ADDR2 \<equiv> 225"
abbreviation PRESS_ADDR :: u8 where "PRESS_ADDR \<equiv> 247"

definition ID_DATA :: "u8 list" where "ID_DATA = [96]"
definition TEMP_DIG_DATA :: "u8 list" where "TEMP_DIG_DATA = [54, 111, 194, 104, 50, 0]"
definition HUM_DIG_DATA1 :: "u8 list" where "HUM_DIG_DATA1 = [75]"
definition HUM_DIG_DATA2 :: "u8 list" where "HUM_DIG_DATA2 = [116, 1, 0, 18, 7, 0, 30]"
definition PRESS_DATA :: "u8 list" where "PRESS_DATA = [83, 212, 0, 133, 213, 0, 120, 141]"
definition PRESS_DIG_DATA :: "u8 list" where
  "PRESS_DIG_DATA = [14, 142, 139, 214, 208, 11, 156, 29, 1, 0, 249, 255, 172, 38, 10, 216, 189, 16]"

record Sim280 =
  sb_register :: u8
  sb_data :: "u8 list"     \<comment> \<open>empty for the null pointer\<close>
  sb_length :: nat
  sb_index :: nat

definition recorded :: "u8 \<Rightarrow> u8 list" where
  "recorded r =
     (if r = ID_ADDR then ID_DATA else if r = TEMP_DIG_ADDR then TEMP_DIG_DATA
      else if r = HUM_DIG_ADDR1 then HUM_DIG_DATA1 else if r = HUM_DIG_ADDR2 then HUM_DIG_DATA2
      else if r = PRESS_ADDR then PRESS_DATA else if r = PRESS_DIG_ADDR then PRESS_DIG_DATA
      else ID_DATA)"

definition sim_wire_write :: "u8 \<Rightarrow> Sim280 \<Rightarrow> (Sim280 \<times> nat) option" where
  "sim_wire_write r s = Some (s\<lparr>sb_register := r\<rparr>, 1)"

definition sim_requestFrom :: "u8 \<Rightarrow> u8 \<Rightarrow> Sim280 \<Rightarrow> (Sim280 \<times> u8) option" where
  "sim_requestFrom addr len s =
     (let d = recorded (sb_register s)
      in Some (s\<lparr>sb_index := 0, sb_data := d, sb_length := length d\<rparr>, of_nat (length d)))"

definition sim_wire_available :: "Sim280 \<Rightarrow> int" where
  "sim_wire_available s = int (sb_length s) - int (sb_index s)"

definition sim_wire_read :: "Sim280 \<Rightarrow> (Sim280 \<times> int) option" where
  "sim_wire_read s =
     Some (if sb_index s \<ge> sb_length s then (s, - 1)
           else (s\<lparr>sb_index := sb_index s + 1\<rparr>, uint (sb_data s ! sb_index s)))"

definition sim_wire :: "Sim280 Wire" where
  "sim_wire = \<lparr>wr_beginTransmission = (\<lambda>_. Some), wr_write = sim_wire_write, wr_endTransmission = (\<lambda>s. Some (s, 1)),
     wr_requestFrom = sim_requestFrom, wr_available = sim_wire_available, wr_read = sim_wire_read\<rparr>"

end
