(* ===== verification/Bme280.thy ===== *)
theory Bme280
  imports I2c SpiPorts
begin

text \<open>
  The BME280 library (\<^verbatim>\<open>lib/BME280/src\<close>): the driver class \<^verbatim>\<open>BME280\<close> over two registers operations, and the operations of
  its subclasses for I2C and SPI. The operations of \<^verbatim>\<open>float\<close> and \<^verbatim>\<open>double\<close> are those of the run-time library of the
  compiler, which the linker replaces, and so a parameter \<open>Floating\<close>. Integers keep their width: signed
  overflow, undefined in C, wraps. A local array the source does not initialise is an argument, \<open>junk\<close>.
\<close>

type_synonym s32 = "32 word"
type_synonym s64 = "64 word"

section \<open>The registers\<close>

text \<open>
  \<open>rg_read addr data off len\<close> is \<^verbatim>\<open>ReadRegister(addr, &data[off], len)\<close>.
\<close>

record 'p Registers =
  rg_write :: "u8 \<Rightarrow> u8 \<Rightarrow> 'p \<Rightarrow> ('p \<times> bool) option"
  rg_read :: "u8 \<Rightarrow> u8 list \<Rightarrow> nat \<Rightarrow> u8 \<Rightarrow> 'p \<Rightarrow> ('p \<times> u8 list \<times> bool) option"

subsection \<open>Over I2C\<close>

definition i2c_WriteRegister :: "'w Wire \<Rightarrow> u8 \<Rightarrow> u8 \<Rightarrow> u8 \<Rightarrow> 'w \<Rightarrow> ('w \<times> bool) option" where
  "i2c_WriteRegister w bme_addr addr data s = do {
     s \<leftarrow> wr_beginTransmission w bme_addr s;
     (s, _) \<leftarrow> wr_write w addr s;
     (s, _) \<leftarrow> wr_write w data s;
     (s, _) \<leftarrow> wr_endTransmission w s;
     Some (s, True)
   }"

text \<open>The loop \<^verbatim>\<open>while(Wire.available()) data[ord++] = Wire.read()\<close>, where \<^verbatim>\<open>ord\<close> is a byte.\<close>

fun read_bytes :: "'w Wire \<Rightarrow> nat \<Rightarrow> u8 list \<Rightarrow> nat \<Rightarrow> u8 \<Rightarrow> 'w \<Rightarrow> ('w \<times> u8 list \<times> u8) option" where
  "read_bytes w 0 data off ord s = None"
| "read_bytes w (Suc fuel) data off ord s =
     (if wr_available w s = 0 then Some (s, data, ord)
      else do {
        (s, b) \<leftarrow> wr_read w s;
        read_bytes w fuel (poke data (off + unat ord) (word_of_int b)) off (ord + 1) s
      })"

abbreviation READ_FUEL :: nat where "READ_FUEL \<equiv> 256"

definition i2c_ReadRegister :: "'w Wire \<Rightarrow> u8 \<Rightarrow> u8 \<Rightarrow> u8 list \<Rightarrow> nat \<Rightarrow> u8 \<Rightarrow> 'w \<Rightarrow> ('w \<times> u8 list \<times> bool) option" where
  "i2c_ReadRegister w bme_addr addr data off len s = do {
     s \<leftarrow> wr_beginTransmission w bme_addr s;
     (s, _) \<leftarrow> wr_write w addr s;
     (s, _) \<leftarrow> wr_endTransmission w s;
     (s, _) \<leftarrow> wr_requestFrom w bme_addr len s;
     (s, data, ord) \<leftarrow> read_bytes w READ_FUEL data off 0 s;
     Some (s, data, ord = len)
   }"

definition i2c_registers :: "'w Wire \<Rightarrow> u8 \<Rightarrow> 'w Registers" where
  "i2c_registers w bme_addr = \<lparr>rg_write = i2c_WriteRegister w bme_addr, rg_read = i2c_ReadRegister w bme_addr\<rparr>"

subsection \<open>Over SPI\<close>

text \<open>
  Each transfer and the closing of the port take the next start time and polls from a list.
\<close>

type_synonym SpiLine = "SpiSystem \<times> (u32 \<times> Poll list) list"

definition spi_next :: "(u32 \<Rightarrow> Poll list \<Rightarrow> SpiSystem \<Rightarrow> 'r option) \<Rightarrow> SpiLine \<Rightarrow> ('r \<times> (u32 \<times> Poll list) list) option" where
  "spi_next f line =
     (case snd line of [] \<Rightarrow> None | (start, ps) # rest \<Rightarrow> map_option (\<lambda>r. (r, rest)) (f start ps (fst line)))"

definition spi_transfer_byte :: "u8 \<Rightarrow> SpiLine \<Rightarrow> (SpiLine \<times> u8) option" where
  "spi_transfer_byte v line =
     map_option (\<lambda>((sy, r), rest). ((sy, rest), r)) (spi_next (\<lambda>start ps. transfer start ps v) line)"

definition spi_end :: "SpiLine \<Rightarrow> SpiLine option" where
  "spi_end line = spi_next endTransaction line"

abbreviation BME280_SPI_READ :: u8 where "BME280_SPI_READ \<equiv> 128"

definition spi_begin :: "nat \<Rightarrow> SpiLine \<Rightarrow> SpiLine" where
  "spi_begin csPin line = apfst (digitalWrite csPin \<circ> beginTransaction (SPIInterfaceSettings0 500000 1 0)) line"

fun spi_read_bytes :: "u8 list \<Rightarrow> nat \<Rightarrow> nat \<Rightarrow> SpiLine \<Rightarrow> (SpiLine \<times> u8 list) option" where
  "spi_read_bytes data i 0 line = Some (line, data)"
| "spi_read_bytes data i (Suc n) line = do {
     (line, b) \<leftarrow> spi_transfer_byte 0 line;
     spi_read_bytes (poke data i b) (Suc i) n line
   }"

definition spi_ReadRegister :: "nat \<Rightarrow> u8 \<Rightarrow> u8 list \<Rightarrow> nat \<Rightarrow> u8 \<Rightarrow> SpiLine \<Rightarrow> (SpiLine \<times> u8 list \<times> bool) option" where
  "spi_ReadRegister csPin addr data off len line = do {
     (line, _) \<leftarrow> spi_transfer_byte (addr OR BME280_SPI_READ) (spi_begin csPin line);
     (line, data) \<leftarrow> spi_read_bytes data off (unat len) line;
     line \<leftarrow> spi_end (apfst (digitalWrite csPin) line);
     Some (line, data, True)
   }"

definition spi_WriteRegister :: "nat \<Rightarrow> u8 \<Rightarrow> u8 \<Rightarrow> SpiLine \<Rightarrow> (SpiLine \<times> bool) option" where
  "spi_WriteRegister csPin addr data line = do {
     (line, _) \<leftarrow> spi_transfer_byte (addr AND NOT 128) (spi_begin csPin line);
     (line, _) \<leftarrow> spi_transfer_byte data line;
     line \<leftarrow> spi_end (apfst (digitalWrite csPin) line);
     Some (line, True)
   }"

definition spi_registers :: "nat \<Rightarrow> SpiLine Registers" where
  "spi_registers csPin = \<lparr>rg_write = spi_WriteRegister csPin, rg_read = spi_ReadRegister csPin\<rparr>"

section \<open>Settings\<close>

datatype TempUnit = TempUnit_Celsius | TempUnit_Fahrenheit

datatype PresUnit = PresUnit_Pa | PresUnit_hPa | PresUnit_inHg | PresUnit_atm | PresUnit_bar | PresUnit_torr | PresUnit_psi

datatype OSR = OSR_X1 | OSR_X2 | OSR_X4 | OSR_X8 | OSR_X16

datatype SensorMode = Mode_Sleep | Mode_Forced | Mode_Normal

datatype StandbyTime = StandbyTime_500us | StandbyTime_62500us | StandbyTime_125ms | StandbyTime_250ms | StandbyTime_50ms
  | StandbyTime_1000ms | StandbyTime_10ms | StandbyTime_20ms

datatype Filter = Filter_Off | Filter_2 | Filter_4 | Filter_8 | Filter_16

datatype SpiEnable = SpiEnable_False | SpiEnable_True

datatype ChipModel = ChipModel_UNKNOWN | ChipModel_BMP280 | ChipModel_BME280

fun osr_value :: "OSR \<Rightarrow> u8" where
  "osr_value OSR_X1 = 1"
| "osr_value OSR_X2 = 2"
| "osr_value OSR_X4 = 3"
| "osr_value OSR_X8 = 4"
| "osr_value OSR_X16 = 5"

fun mode_value :: "SensorMode \<Rightarrow> u8" where
  "mode_value Mode_Sleep = 0"
| "mode_value Mode_Forced = 1"
| "mode_value Mode_Normal = 3"

fun standby_value :: "StandbyTime \<Rightarrow> u8" where
  "standby_value StandbyTime_500us = 0"
| "standby_value StandbyTime_62500us = 1"
| "standby_value StandbyTime_125ms = 2"
| "standby_value StandbyTime_250ms = 3"
| "standby_value StandbyTime_50ms = 4"
| "standby_value StandbyTime_1000ms = 5"
| "standby_value StandbyTime_10ms = 6"
| "standby_value StandbyTime_20ms = 7"

fun filter_value :: "Filter \<Rightarrow> u8" where
  "filter_value Filter_Off = 0"
| "filter_value Filter_2 = 1"
| "filter_value Filter_4 = 2"
| "filter_value Filter_8 = 3"
| "filter_value Filter_16 = 4"

fun spi_enable_value :: "SpiEnable \<Rightarrow> u8" where
  "spi_enable_value SpiEnable_False = 0"
| "spi_enable_value SpiEnable_True = 1"

record BmeSettings =
  se_tempOSR :: OSR
  se_humOSR :: OSR
  se_presOSR :: OSR
  se_mode :: SensorMode
  se_standbyTime :: StandbyTime
  se_filter :: Filter
  se_spiEnable :: SpiEnable

definition Settings0 :: BmeSettings where
  "Settings0 = \<lparr>se_tempOSR = OSR_X1, se_humOSR = OSR_X1, se_presOSR = OSR_X1, se_mode = Mode_Forced,
     se_standbyTime = StandbyTime_1000ms, se_filter = Filter_Off, se_spiEnable = SpiEnable_False\<rparr>"

section \<open>The driver\<close>

abbreviation CTRL_HUM_ADDR :: u8 where "CTRL_HUM_ADDR \<equiv> 242"
abbreviation CTRL_MEAS_ADDR :: u8 where "CTRL_MEAS_ADDR \<equiv> 244"
abbreviation CONFIG_ADDR :: u8 where "CONFIG_ADDR \<equiv> 245"

record BME280 =
  bm_settings :: BmeSettings
  bm_dig :: "u8 list"
  bm_chip_id :: u8
  bm_chip_model :: ChipModel
  bm_initialized :: bool

definition BME280_new :: "BmeSettings \<Rightarrow> u8 list \<Rightarrow> u8 \<Rightarrow> ChipModel \<Rightarrow> BME280" where
  "BME280_new settings dig chip_id model =
     \<lparr>bm_settings = settings, bm_dig = dig, bm_chip_id = chip_id, bm_chip_model = model, bm_initialized = False\<rparr>"

definition ReadChipID :: "'p Registers \<Rightarrow> u8 list \<Rightarrow> BME280 \<times> 'p \<Rightarrow> ((BME280 \<times> 'p) \<times> bool) option" where
  "ReadChipID rg junk st = do {
     (p, ident, _) \<leftarrow> rg_read rg ID_ADDR junk 0 1 (snd st);
     let b = fst st;
     Some (if ident ! 0 = 96 then ((b\<lparr>bm_chip_model := ChipModel_BME280, bm_chip_id := ident ! 0\<rparr>, p), True)
           else if ident ! 0 = 88 then ((b\<lparr>bm_chip_model := ChipModel_BMP280, bm_chip_id := ident ! 0\<rparr>, p), True)
           else ((b\<lparr>bm_chip_model := ChipModel_UNKNOWN\<rparr>, p), False))
   }"

definition CalculateRegisters :: "BmeSettings \<Rightarrow> u8 \<times> u8 \<times> u8" where
  "CalculateRegisters s =
     (osr_value (se_humOSR s),
      push_bit 5 (osr_value (se_tempOSR s)) OR push_bit 2 (osr_value (se_presOSR s)) OR mode_value (se_mode s),
      push_bit 5 (standby_value (se_standbyTime s)) OR push_bit 2 (filter_value (se_filter s)) OR
        spi_enable_value (se_spiEnable s))"

definition WriteSettings :: "'p Registers \<Rightarrow> BME280 \<times> 'p \<Rightarrow> (BME280 \<times> 'p) option" where
  "WriteSettings rg st = (case CalculateRegisters (bm_settings (fst st)) of (ctrlHum, ctrlMeas, config) \<Rightarrow> do {
     (p, _) \<leftarrow> rg_write rg CTRL_HUM_ADDR ctrlHum (snd st);
     (p, _) \<leftarrow> rg_write rg CTRL_MEAS_ADDR ctrlMeas p;
     (p, _) \<leftarrow> rg_write rg CONFIG_ADDR config p;
     Some (fst st, p)
   })"

definition setSettings :: "'p Registers \<Rightarrow> BmeSettings \<Rightarrow> BME280 \<times> 'p \<Rightarrow> (BME280 \<times> 'p) option" where
  "setSettings rg settings st = WriteSettings rg (apfst (bm_settings_update (\<lambda>_. settings)) st)"

definition ReadTrim :: "'p Registers \<Rightarrow> BME280 \<times> 'p \<Rightarrow> ((BME280 \<times> 'p) \<times> bool) option" where
  "ReadTrim rg st = do {
     (p, dig, ok1) \<leftarrow> rg_read rg TEMP_DIG_ADDR (bm_dig (fst st)) 0 6 (snd st);
     (p, dig, ok2) \<leftarrow> rg_read rg PRESS_DIG_ADDR dig 6 18 p;
     (p, dig, ok3) \<leftarrow> rg_read rg HUM_DIG_ADDR1 dig 24 1 p;
     (p, dig, ok4) \<leftarrow> rg_read rg HUM_DIG_ADDR2 dig 25 7 p;
     Some (((fst st)\<lparr>bm_dig := dig\<rparr>, p), ok1 \<and> ok2 \<and> ok3 \<and> ok4)
   }"

definition Initialize :: "'p Registers \<Rightarrow> u8 list \<Rightarrow> BME280 \<times> 'p \<Rightarrow> ((BME280 \<times> 'p) \<times> bool) option" where
  "Initialize rg junk st = do {
     (st, success) \<leftarrow> ReadChipID rg junk st;
     (st, success) \<leftarrow> (if success then do {
         (st, success) \<leftarrow> ReadTrim rg st;
         st \<leftarrow> WriteSettings rg st;
         Some (st, success)
       } else Some (st, success));
     Some (apfst (bm_initialized_update (\<lambda>_. success)) st, success)
   }"

definition bme_begin :: "'p Registers \<Rightarrow> u8 list \<Rightarrow> BME280 \<times> 'p \<Rightarrow> ((BME280 \<times> 'p) \<times> bool) option" where
  "bme_begin rg junk st =
     map_option (\<lambda>(st, success). (st, success \<and> bm_initialized (fst st))) (Initialize rg junk st)"

text \<open>Over SPI, \<^verbatim>\<open>Initialize\<close> selects the port of the pin first.\<close>

definition spi_Initialize :: "nat \<Rightarrow> u8 list \<Rightarrow> BME280 \<times> SpiLine \<Rightarrow> ((BME280 \<times> SpiLine) \<times> bool) option" where
  "spi_Initialize csPin junk st = Initialize (spi_registers csPin) junk (apsnd (apfst (digitalWrite csPin)) st)"

definition ReadData :: "'p Registers \<Rightarrow> u8 list \<Rightarrow> BME280 \<times> 'p \<Rightarrow> ((BME280 \<times> 'p) \<times> s32 list \<times> bool) option" where
  "ReadData rg junk st = do {
     (b, p) \<leftarrow> (if se_mode (bm_settings (fst st)) = Mode_Forced then WriteSettings rg st else Some st);
     (p, buffer, success) \<leftarrow> rg_read rg PRESS_ADDR junk 0 8 p;
     Some ((b, p), map ucast buffer, success)
   }"

section \<open>The calculations\<close>

text \<open>A two-byte constant of the trimming, low byte first, as \<^verbatim>\<open>uint16_t\<close> or \<^verbatim>\<open>int16_t\<close> widened to the integer of the calculation.\<close>

definition dig16 :: "u8 list \<Rightarrow> nat \<Rightarrow> u16" where
  "dig16 dig i = push_bit 8 (ucast (dig ! Suc i)) OR ucast (dig ! i)"

definition calc_fine :: "u8 list \<Rightarrow> s32 \<Rightarrow> s32" where
  "calc_fine dig raw =
     (let dig_T1 = ucast (dig16 dig 0);
          dig_T2 = scast (dig16 dig 2);
          dig_T3 = scast (dig16 dig 4);
          var1 = signed_drop_bit 11 ((signed_drop_bit 3 raw - push_bit 1 dig_T1) * dig_T2);
          var2 = signed_drop_bit 14 (signed_drop_bit 12 ((signed_drop_bit 4 raw - dig_T1) * (signed_drop_bit 4 raw - dig_T1)) * dig_T3)
      in var1 + var2)"

definition calc_temp :: "s32 \<Rightarrow> s32" where
  "calc_temp t_fine = signed_drop_bit 8 (t_fine * 5 + 128)"

definition clamp_hum :: "s32 \<Rightarrow> s32" where
  "clamp_hum var1 =
     (let var1 = (if sint var1 < 0 then 0 else var1)
      in if sint var1 > 419430400 then 419430400 else var1)"

definition calc_hum :: "u8 list \<Rightarrow> s32 \<Rightarrow> s32 \<Rightarrow> u32" where
  "calc_hum dig raw t_fine =
     (let dig_H1 = ucast (dig ! 24) :: s32;
          dig_H2 = scast (dig16 dig 25) :: s32;
          dig_H3 = ucast (dig ! 27) :: s32;
          dig_H4 = scast (push_bit 4 (ucast (dig ! 28)) OR (15 AND ucast (dig ! 29)) :: u16) :: s32;
          dig_H5 = scast (push_bit 4 (ucast (dig ! 30)) OR (drop_bit 4 (ucast (dig ! 29)) AND 15) :: u16) :: s32;
          dig_H6 = scast (dig ! 31) :: s32;
          var1 = t_fine - 76800;
          var1 = signed_drop_bit 15 ((push_bit 14 raw - push_bit 20 dig_H4 - dig_H5 * var1) + 16384) *
            signed_drop_bit 14 ((signed_drop_bit 10 (signed_drop_bit 10 (var1 * dig_H6) *
              (signed_drop_bit 11 (var1 * dig_H3) + 32768)) + 2097152) * dig_H2 + 8192);
          var1 = var1 - signed_drop_bit 4 (signed_drop_bit 7 (signed_drop_bit 15 var1 * signed_drop_bit 15 var1) * dig_H1)
      in signed_drop_bit 12 (clamp_hum var1))"

text \<open>The 64-bit calculation of the pressure in 256ths of a pascal; None where the source returns NAN.\<close>

definition sdiv64 :: "s64 \<Rightarrow> s64 \<Rightarrow> s64" where
  "sdiv64 a b = word_of_int (sint a sdiv sint b)"

definition calc_pres :: "u8 list \<Rightarrow> s32 \<Rightarrow> s32 \<Rightarrow> u32 option" where
  "calc_pres dig raw t_fine =
     (let dig_P1 = ucast (dig16 dig 6) :: s64;
          dig_P2 = scast (dig16 dig 8) :: s64;
          dig_P3 = scast (dig16 dig 10) :: s64;
          dig_P4 = scast (dig16 dig 12) :: s64;
          dig_P5 = scast (dig16 dig 14) :: s64;
          dig_P6 = scast (dig16 dig 16) :: s64;
          dig_P7 = scast (dig16 dig 18) :: s64;
          dig_P8 = scast (dig16 dig 20) :: s64;
          dig_P9 = scast (dig16 dig 22) :: s64;
          var1 = scast t_fine - 128000;
          var2 = var1 * var1 * dig_P6;
          var2 = var2 + push_bit 17 (var1 * dig_P5);
          var2 = var2 + push_bit 35 dig_P4;
          var1 = signed_drop_bit 8 (var1 * var1 * dig_P3) + push_bit 12 (var1 * dig_P2);
          var1 = signed_drop_bit 33 ((push_bit 47 1 + var1) * dig_P1)
      in if var1 = 0 then None
         else
           let pressure = scast (1048576 - raw) :: s64;
               pressure = sdiv64 ((push_bit 31 pressure - var2) * 3125) var1;
               var1 = signed_drop_bit 25 (dig_P9 * signed_drop_bit 13 pressure * signed_drop_bit 13 pressure);
               var2 = signed_drop_bit 19 (dig_P8 * pressure);
               pressure = signed_drop_bit 8 (pressure + var1 + var2) + push_bit 4 dig_P7
           in Some (ucast pressure))"

section \<open>Floating-point results\<close>

text \<open>
  \<open>fl_dec m k\<close> is the literal \<open>m / 10 ^ k\<close>; \<open>fl_single\<close> converts a \<^verbatim>\<open>double\<close> to a \<^verbatim>\<open>float\<close>, and conversions the other
  way change nothing. A NAN is None.
\<close>

record 'f Floating =
  fl_of_int :: "int \<Rightarrow> 'f"
  fl_dec :: "int \<Rightarrow> nat \<Rightarrow> 'f"
  fl_add :: "'f \<Rightarrow> 'f \<Rightarrow> 'f"
  fl_mul :: "'f \<Rightarrow> 'f \<Rightarrow> 'f"
  fl_div :: "'f \<Rightarrow> 'f \<Rightarrow> 'f"
  fl_single :: "'f \<Rightarrow> 'f"

definition CalculateTemperature :: "'f Floating \<Rightarrow> u8 list \<Rightarrow> s32 \<Rightarrow> TempUnit \<Rightarrow> s32 \<times> 'f" where
  "CalculateTemperature fl dig raw unit =
     (let t_fine = calc_fine dig raw;
          celsius = fl_div fl (fl_of_int fl (sint (calc_temp t_fine))) (fl_dec fl 100 0)
      in (t_fine, fl_single fl
           (if unit = TempUnit_Celsius then celsius
            else fl_add fl (fl_div fl (fl_mul fl celsius (fl_dec fl 9 0)) (fl_dec fl 5 0)) (fl_dec fl 32 0))))"

definition CalculateHumidity :: "'f Floating \<Rightarrow> u8 list \<Rightarrow> s32 \<Rightarrow> s32 \<Rightarrow> 'f" where
  "CalculateHumidity fl dig raw t_fine =
     fl_single fl (fl_div fl (fl_of_int fl (uint (calc_hum dig raw t_fine))) (fl_dec fl 1024 0))"

fun pres_divisor :: "'f Floating \<Rightarrow> PresUnit \<Rightarrow> 'f option" where
  "pres_divisor fl PresUnit_hPa = Some (fl_dec fl 100 0)"
| "pres_divisor fl PresUnit_inHg = Some (fl_dec fl 33863752577878 10)"
| "pres_divisor fl PresUnit_atm = Some (fl_dec fl 10132499766353 8)"
| "pres_divisor fl PresUnit_bar = Some (fl_dec fl 100000 0)"
| "pres_divisor fl PresUnit_torr = Some (fl_dec fl 13332236534674 11)"
| "pres_divisor fl PresUnit_psi = Some (fl_dec fl 6894744825494 9)"
| "pres_divisor fl PresUnit_Pa = None"

definition CalculatePressure :: "'f Floating \<Rightarrow> u8 list \<Rightarrow> s32 \<Rightarrow> s32 \<Rightarrow> PresUnit \<Rightarrow> 'f option" where
  "CalculatePressure fl dig raw t_fine unit =
     map_option (\<lambda>pressure.
       let final = fl_single fl (fl_div fl (fl_of_int fl (uint pressure)) (fl_dec fl 256 0))
       in case pres_divisor fl unit of None \<Rightarrow> final | Some d \<Rightarrow> fl_single fl (fl_div fl final d))
     (calc_pres dig raw t_fine)"

definition raw20 :: "s32 list \<Rightarrow> nat \<Rightarrow> s32" where
  "raw20 data i = push_bit 12 (data ! i) OR push_bit 4 (data ! (i + 1)) OR signed_drop_bit 4 (data ! (i + 2))"

definition raw16 :: "s32 list \<Rightarrow> s32" where
  "raw16 data = push_bit 8 (data ! 6) OR data ! 7"

definition bme_temp :: "'f Floating \<Rightarrow> 'p Registers \<Rightarrow> u8 list \<Rightarrow> TempUnit \<Rightarrow> BME280 \<times> 'p \<Rightarrow> ((BME280 \<times> 'p) \<times> 'f option) option" where
  "bme_temp fl rg junk unit st = do {
     (st, data, success) \<leftarrow> ReadData rg junk st;
     Some (st, if \<not> success then None else Some (snd (CalculateTemperature fl (bm_dig (fst st)) (raw20 data 3) unit)))
   }"

definition bme_pres :: "'f Floating \<Rightarrow> 'p Registers \<Rightarrow> u8 list \<Rightarrow> PresUnit \<Rightarrow> BME280 \<times> 'p \<Rightarrow> ((BME280 \<times> 'p) \<times> 'f option) option" where
  "bme_pres fl rg junk unit st = do {
     (st, data, success) \<leftarrow> ReadData rg junk st;
     Some (st, if \<not> success then None
       else CalculatePressure fl (bm_dig (fst st)) (raw20 data 0) (calc_fine (bm_dig (fst st)) (raw20 data 3)) unit)
   }"

definition bme_hum :: "'f Floating \<Rightarrow> 'p Registers \<Rightarrow> u8 list \<Rightarrow> BME280 \<times> 'p \<Rightarrow> ((BME280 \<times> 'p) \<times> 'f option) option" where
  "bme_hum fl rg junk st = do {
     (st, data, success) \<leftarrow> ReadData rg junk st;
     Some (st, if \<not> success then None
       else Some (CalculateHumidity fl (bm_dig (fst st)) (raw16 data) (calc_fine (bm_dig (fst st)) (raw20 data 3))))
   }"

text \<open>The pressure, the temperature and the humidity of one measurement.\<close>

definition bme_read :: "'f Floating \<Rightarrow> 'p Registers \<Rightarrow> u8 list \<Rightarrow> TempUnit \<Rightarrow> PresUnit \<Rightarrow> BME280 \<times> 'p \<Rightarrow>
    ((BME280 \<times> 'p) \<times> 'f option \<times> 'f option \<times> 'f option) option" where
  "bme_read fl rg junk tempUnit presUnit st = do {
     (st, data, success) \<leftarrow> ReadData rg junk st;
     Some (st, if \<not> success then (None, None, None)
       else
         let dig = bm_dig (fst st); (t_fine, temp) = CalculateTemperature fl dig (raw20 data 3) tempUnit
         in (CalculatePressure fl dig (raw20 data 0) t_fine presUnit, Some temp,
             Some (CalculateHumidity fl dig (raw16 data) t_fine)))
   }"

end
