(* ===== verification/I2cLaws.thy ===== *)
theory I2cLaws
  imports Bme280
begin

text \<open>
  The I2C port as the BME280 driver uses it: a register is read by the sequence of the bus protocol, whatever number of polls
  each wait takes; errors stop the transaction, except a byte that is not received in time.
\<close>

section \<open>Waits that end\<close>

text \<open>One wait: the reading of the clock, polls without the flags and in time, and the poll with the flags.\<close>

definition in_time :: "u32 \<Rightarrow> u32 \<Rightarrow> (I2C_Poll \<Rightarrow> bool) \<Rightarrow> I2C_Poll list \<Rightarrow> bool" where
  "in_time timeout t0 stop ps \<longleftrightarrow> list_all (\<lambda>q. \<not> stop q \<and> i2c_diff_ticks t0 (pl_time q) \<le> timeout) ps"

inductive waits :: "u32 \<Rightarrow> (I2C_Poll \<Rightarrow> bool) \<Rightarrow> (I2C_Poll \<Rightarrow> bool) \<Rightarrow> I2C_Poll \<Rightarrow> I2C_Poll list \<Rightarrow> bool" for timeout flags nak where
  "flags p \<Longrightarrow> in_time timeout (pl_time q) (\<lambda>q. flags q \<or> nak q) ps \<Longrightarrow> waits timeout flags nak p (q # ps @ [p])"

inductive_simps waits_iff: "waits timeout flags nak p qs"

inductive starts :: "u32 \<Rightarrow> I2C_Poll list \<Rightarrow> bool" for timeout where
  "list_all pl_busy bs \<Longrightarrow> \<not> pl_busy nb \<Longrightarrow> waits timeout (\<lambda>p. pl_sb p \<and> pl_msl p) (\<lambda>_. False) p (q # ps) \<Longrightarrow>
     waits timeout pl_addr pl_af a as \<Longrightarrow> starts timeout (q # bs @ nb # ps @ as)"

inductive_simps starts_iff: "starts timeout qs"

inductive_cases startsE: "starts timeout qs"

lemma poll_flags_ready:
  "in_time timeout t0 (\<lambda>q. flags q \<or> nak q) ps \<Longrightarrow> flags p \<Longrightarrow>
     poll_flags flags nak t0 timeout (ps @ p # rest) = Some (Ready p, rest)"
  by (induction ps) (auto simp: in_time_def)

lemma wait_busy_free: "list_all pl_busy bs \<Longrightarrow> \<not> pl_busy nb \<Longrightarrow> wait_busy (bs @ nb # rest) = Some rest"
  by (induction bs) auto

lemma waits_poll:
  assumes "waits timeout flags nak p qs"
  shows "\<exists>q ps. qs = q # ps \<and> (\<forall>rest. poll_flags flags nak (pl_time q) timeout (ps @ rest) = Some (Ready p, rest))"
  using assms by (auto simp: waits_iff poll_flags_ready)

lemma bus_fields [simp]:
  "ic_in (bus cmd c) = ic_in c" "ic_timeout (bus cmd c) = ic_timeout c" "ic_bus (bus cmd c) = ic_bus c @ [cmd]"
  "ic_failCode (bus cmd c) = ic_failCode c" "ic_length (bus cmd c) = ic_length c"
  by (simp_all add: bus_def)

lemma i2c_write_acked:
  assumes "waits (ic_timeout c) pl_btf (\<lambda>_. False) p qs" "ic_in c = qs @ rest"
  shows "i2c_write v c = Some (c\<lparr>ic_in := rest, ic_bus := ic_bus c @ [I2C_Data v]\<rparr>, I2C_Ok)"
proof -
  obtain q ps where "qs = q # ps" "poll_flags pl_btf (\<lambda>_. False) (pl_time q) (ic_timeout c) (ps @ rest) = Some (Ready p, rest)"
    using waits_poll [OF assms(1)] by auto
  then show ?thesis using assms(2) by (simp add: i2c_write_def systicks_def wait_flags_def bus_def)
qed

lemma i2c_read_received:
  assumes "waits (ic_timeout c) pl_rxne (\<lambda>_. False) p qs" "ic_in c = qs @ rest"
  shows "i2c_read lastf c =
    Some (c\<lparr>ic_in := rest, ic_bus := ic_bus c @ (if lastf then [I2C_Ack False] else [])\<rparr>, uint (pl_data p))"
proof -
  obtain q ps where "qs = q # ps" "poll_flags pl_rxne (\<lambda>_. False) (pl_time q) (ic_timeout c) (ps @ rest) = Some (Ready p, rest)"
    using waits_poll [OF assms(1)] by auto
  then show ?thesis using assms(2) by (simp add: i2c_read_def systicks_def wait_flags_def bus_def)
qed

lemma i2c_start_acked:
  assumes "starts (ic_timeout c) qs" "ic_in c = qs @ rest"
  shows "i2c_start_addr addr rw c = Some (c\<lparr>ic_in := rest,
    ic_bus := ic_bus c @ (if rw = Read then [I2C_Ack True] else []) @ [I2C_Start, I2C_Addr addr rw]\<rparr>, I2C_Ok)"
  using assms(1)
proof (rule startsE)
  fix bs nb p q ps a as
  assume s: "qs = q # bs @ nb # ps @ as" "list_all pl_busy bs" "\<not> pl_busy nb"
    "waits (ic_timeout c) (\<lambda>p. pl_sb p \<and> pl_msl p) (\<lambda>_. False) p (q # ps)" "waits (ic_timeout c) pl_addr pl_af a as"
  have w: "wait_busy (bs @ nb # ps @ as @ rest) = Some (ps @ as @ rest)"
    by (rule wait_busy_free) (use s in auto)
  have b: "poll_flags (\<lambda>p. pl_sb p \<and> pl_msl p) (\<lambda>_. False) (pl_time q) (ic_timeout c) (ps @ as @ rest) = Some (Ready p, as @ rest)"
    using waits_poll [OF s(4)] by auto
  obtain r rs where as: "as = r # rs" "poll_flags pl_addr pl_af (pl_time r) (ic_timeout c) (rs @ rest) = Some (Ready a, rest)"
    using waits_poll [OF s(5)] by auto
  show ?thesis
    using s(1) w b as assms(2)
    by (auto simp: i2c_start_addr_def i2c_address_def systicks_def i2c_wait_busy_def wait_flags_def bus_def)
qed

section \<open>Reading a register\<close>

text \<open>
  What the loop of the driver needs of the interface: \<open>ready bs s t\<close> says that the bytes \<open>bs\<close> are waiting in \<open>s\<close> and that
  \<open>t\<close> is the state once they are read.
\<close>

locale byte_stream =
  fixes w :: "'w Wire" and ready :: "u8 list \<Rightarrow> 'w \<Rightarrow> 'w \<Rightarrow> bool"
  assumes available_ready: "ready bs s t \<Longrightarrow> wr_available w s = int (length bs)"
    and read_ready: "ready (b # bs) s t \<Longrightarrow> \<exists>s' v. wr_read w s = Some (s', v) \<and> word_of_int v = b \<and> ready bs s' t"
    and end_ready: "ready [] s t \<Longrightarrow> t = s"
begin

lemma read_bytes_ready:
  "ready bs s t \<Longrightarrow> length bs < fuel \<Longrightarrow> off + unat ord + length bs \<le> length data \<Longrightarrow> unat ord + length bs < 256 \<Longrightarrow>
     read_bytes w fuel data off ord s = Some (t, blit data (off + unat ord) bs, ord + of_nat (length bs))"
proof (induction bs arbitrary: s fuel data ord)
  case Nil
  then obtain n where "fuel = Suc n" by (cases fuel) auto
  then show ?case using Nil available_ready [OF Nil.prems(1)] end_ready [OF Nil.prems(1)] by (simp add: blit_def)
next
  case (Cons b bs)
  then obtain n where f: "fuel = Suc n" by (cases fuel) auto
  obtain s' v where s': "wr_read w s = Some (s', v)" "word_of_int v = b" "ready bs s' t" using read_ready [OF Cons.prems(1)] by auto
  have o: "unat (ord + 1) = Suc (unat ord)" using unat_u8_add [of ord 1] Cons.prems(4) by simp
  have b: "blit (poke data i b) (Suc i) bs = blit data i (b # bs)" if "i < length data" for i
    using that by (simp add: blit_def poke_in_range take_Suc_conv_app_nth)
  show ?case
    using Cons.IH [where fuel = n and data = "poke data (off + unat ord) b" and ord = "ord + 1", OF s'(3)] Cons.prems s' o f available_ready [OF Cons.prems(1)]
    by (simp add: length_poke b algebra_simps)
qed

lemma register_read:
  assumes "wr_beginTransmission w a s = Some s1" "wr_write w reg s1 = Some (s2, n)" "wr_endTransmission w s2 = Some (s3, m)"
    "wr_requestFrom w a len s3 = Some (s4, k)" "ready bs s4 t" "length bs = unat len" "off + length bs \<le> length data"
  shows "i2c_ReadRegister w a reg data off len s = Some (t, blit data off bs, True)"
proof -
  have "length bs < 256" using assms(6) unat_u8_less [of len] by simp
  then have "read_bytes w READ_FUEL data off 0 s4 = Some (t, blit data off bs, of_nat (length bs))"
    using read_bytes_ready [OF assms(5), of READ_FUEL off 0 data] assms(7) by simp
  then show ?thesis using assms by (simp add: i2c_ReadRegister_def)
qed

end

text \<open>The recorded sensor has the bytes of its register ready.\<close>

definition sim_ready :: "u8 list \<Rightarrow> Sim280 \<Rightarrow> Sim280 \<Rightarrow> bool" where
  "sim_ready bs s t \<longleftrightarrow> sb_index s \<le> length (sb_data s) \<and> sb_length s = length (sb_data s) \<and>
     bs = drop (sb_index s) (sb_data s) \<and> t = s\<lparr>sb_index := sb_length s\<rparr>"

interpretation sim: byte_stream sim_wire sim_ready
proof
  fix b bs s t
  show "sim_ready bs s t \<Longrightarrow> wr_available sim_wire s = int (length bs)"
    by (auto simp: sim_ready_def sim_wire_def sim_wire_available_def)
  show "sim_ready [] s t \<Longrightarrow> t = s" by (auto simp: sim_ready_def)
  assume "sim_ready (b # bs) s t"
  moreover from this have "sb_index s < length (sb_data s)" by (cases "sb_index s < length (sb_data s)") (auto simp: sim_ready_def)
  ultimately show "\<exists>s' v. wr_read sim_wire s = Some (s', v) \<and> word_of_int v = b \<and> sim_ready bs s' t"
    by (auto simp: sim_ready_def sim_wire_def sim_wire_read_def Cons_nth_drop_Suc [symmetric])
qed

text \<open>
  On the real port a byte arrives in time or, for None, its wait times out: the driver stores the low byte of \<^verbatim>\<open>-1\<close> for it.
\<close>

definition filler :: "u8 option \<Rightarrow> u8" where
  "filler out = (case out of None \<Rightarrow> 255 | Some b \<Rightarrow> b)"

inductive late :: "u32 \<Rightarrow> I2C_Poll list \<Rightarrow> bool" for timeout where
  "\<not> pl_rxne p \<Longrightarrow> i2c_diff_ticks (pl_time q) (pl_time p) > timeout \<Longrightarrow> in_time timeout (pl_time q) pl_rxne ps \<Longrightarrow>
     late timeout (q # ps @ [p])"

inductive receives :: "u32 \<Rightarrow> u8 option list \<Rightarrow> I2C_Poll list \<Rightarrow> bool" for timeout where
  "receives timeout [] []"
| "waits timeout pl_rxne (\<lambda>_. False) p qs \<Longrightarrow> receives timeout os rs \<Longrightarrow> receives timeout (Some (pl_data p) # os) (qs @ rs)"
| "late timeout qs \<Longrightarrow> receives timeout os rs \<Longrightarrow> receives timeout (None # os) (qs @ rs)"

inductive_simps late_iff: "late timeout qs"
inductive_cases receives_SomeE: "receives timeout (Some b # os) qs"
inductive_cases receives_NoneE: "receives timeout (None # os) qs"
inductive_simps receives_Nil: "receives timeout [] qs"

definition after_read :: "u8 option list \<Rightarrow> I2C_Poll list \<Rightarrow> I2C_Control \<Rightarrow> I2C_Control" where
  "after_read os rest c = c\<lparr>ic_in := rest, ic_length := 0,
     ic_failCode := (if None \<in> set os then I2C_Read_Timeout else ic_failCode c),
     ic_bus := ic_bus c @ (if os = [] then [] else if last os = None then [I2C_Ack False] else [I2C_Ack False, I2C_Stop])\<rparr>"

definition real_ready :: "u8 list \<Rightarrow> I2C_Control \<Rightarrow> I2C_Control \<Rightarrow> bool" where
  "real_ready bs c t \<longleftrightarrow> length bs < 256 \<and> ic_length c = of_nat (length bs) \<and>
     (\<exists>os qs rest. bs = map filler os \<and> ic_in c = qs @ rest \<and> receives (ic_timeout c) os qs \<and> t = after_read os rest c)"

lemma poll_flags_late:
  "in_time timeout t0 flags ps \<Longrightarrow> \<not> flags p \<Longrightarrow> i2c_diff_ticks t0 (pl_time p) > timeout \<Longrightarrow>
     poll_flags flags (\<lambda>_. False) t0 timeout (ps @ p # rest) = Some (Late, rest)"
  by (induction ps) (auto simp: in_time_def)

lemma i2c_read_late:
  assumes "late (ic_timeout c) qs" "ic_in c = qs @ rest"
  shows "i2c_read lastf c = Some (c\<lparr>ic_in := rest, ic_failCode := I2C_Read_Timeout,
    ic_bus := ic_bus c @ (if lastf then [I2C_Ack False] else [])\<rparr>, - 1)"
proof -
  obtain q ps p where "qs = q # ps @ [p]" "poll_flags pl_rxne (\<lambda>_. False) (pl_time q) (ic_timeout c) (ps @ p # rest) = Some (Late, rest)"
    using assms(1) poll_flags_late by (auto simp: late_iff)
  then show ?thesis
    using assms(2) by (auto simp: i2c_read_def systicks_def wait_flags_def bus_def i2c_showError_def)
qed

text \<open>One byte, in time or late.\<close>

lemma read_one:
  assumes "receives (ic_timeout c) (out # os) qs" "ic_in c = qs @ rest" "ic_length c \<noteq> 0" "lastf = (ic_length c - 1 = 0)"
  shows "\<exists>rs c'. read c = Some (c', if out = None then - 1 else uint (the out)) \<and> receives (ic_timeout c) os rs \<and>
    c' = c\<lparr>ic_length := ic_length c - 1, ic_in := rs @ rest, ic_failCode := (if out = None then I2C_Read_Timeout else ic_failCode c),
      ic_bus := ic_bus c @ (if lastf then (if out = None then [I2C_Ack False] else [I2C_Ack False, I2C_Stop]) else [])\<rparr>"
proof (cases out)
  case None
  obtain ps rs where p: "qs = ps @ rs" "late (ic_timeout c) ps" "receives (ic_timeout c) os rs"
    using assms(1) None by (auto elim: receives_NoneE)
  let ?c = "c\<lparr>ic_length := ic_length c - 1\<rparr>"
  have "i2c_read lastf ?c = Some (?c\<lparr>ic_in := rs @ rest, ic_failCode := I2C_Read_Timeout,
      ic_bus := ic_bus c @ (if lastf then [I2C_Ack False] else [])\<rparr>, - 1)"
    using i2c_read_late [of ?c ps "rs @ rest" lastf] p assms(2) by simp
  then show ?thesis using assms(3,4) p None by (auto simp: read_def Let_def)
next
  case (Some b)
  obtain ps rs p where p: "qs = ps @ rs" "b = pl_data p" "waits (ic_timeout c) pl_rxne (\<lambda>_. False) p ps" "receives (ic_timeout c) os rs"
    using assms(1) Some by (auto elim: receives_SomeE)
  let ?c = "c\<lparr>ic_length := ic_length c - 1\<rparr>"
  have "i2c_read lastf ?c =
      Some (?c\<lparr>ic_in := rs @ rest, ic_bus := ic_bus c @ (if lastf then [I2C_Ack False] else [])\<rparr>, uint b)"
    using i2c_read_received [of ?c p ps "rs @ rest" lastf] p assms(2) by simp
  then show ?thesis using assms(3,4) p Some by (auto simp: read_def Let_def i2c_stop_def bus_def)
qed

lemma read_next:
  assumes "real_ready (b # bs) c t"
  shows "\<exists>c' v. read c = Some (c', v) \<and> word_of_int v = b \<and> real_ready bs c' t"
proof -
  obtain out os qs rest where r: "ic_in c = qs @ rest" "receives (ic_timeout c) (out # os) qs" "length (b # bs) < 256"
      "ic_length c = of_nat (length (b # bs))" "b = filler out" "bs = map filler os" "t = after_read (out # os) rest c"
    using assms by (auto simp: real_ready_def)
  have n: "ic_length c - 1 = of_nat (length bs)" "ic_length c \<noteq> 0" "((of_nat (length bs) :: u8) = 0) = (os = [])"
    using r(3,4,6) unat_u8_of_nat [of "length bs"] unat_u8_of_nat [of "length (b # bs)"] by (auto simp: unat_eq_0 [symmetric])
  obtain rs c' where s: "read c = Some (c', if out = None then - 1 else uint (the out))" "receives (ic_timeout c) os rs"
    "c' = c\<lparr>ic_length := ic_length c - 1, ic_in := rs @ rest, ic_failCode := (if out = None then I2C_Read_Timeout else ic_failCode c),
      ic_bus := ic_bus c @ (if os = [] then (if out = None then [I2C_Ack False] else [I2C_Ack False, I2C_Stop]) else [])\<rparr>"
    using read_one [OF r(2,1) n(2), of "os = []"] n(1,3) by auto
  have "real_ready bs c' t"
  proof -
    have "t = after_read os rest c'" using r(7) s(3) by (cases os; cases out) (simp_all add: after_read_def)
    moreover have "length bs < 256" "ic_length c' = of_nat (length bs)" "ic_in c' = rs @ rest" "ic_timeout c' = ic_timeout c"
      using r(3) s(3) n(1) by simp_all
    ultimately show ?thesis using r(6) s(2) unfolding real_ready_def by metis
  qed
  moreover have "(word_of_int (if out = None then - 1 else uint (the out)) :: u8) = b"
    using r(5) by (cases out) (auto simp: filler_def)
  ultimately show ?thesis using s(1) by blast
qed

interpretation real: byte_stream real_wire real_ready
proof
  fix b bs s t
  show "real_ready bs s t \<Longrightarrow> wr_available real_wire s = int (length bs)"
    by (auto simp: real_ready_def real_wire_def available_def uint_nat unat_u8_of_nat simp del: unat_eq_nat_uint)
  show "real_ready [] s t \<Longrightarrow> t = s" by (auto simp: real_ready_def receives_Nil after_read_def)
  show "real_ready (b # bs) s t \<Longrightarrow> \<exists>s' v. wr_read real_wire s = Some (s', v) \<and> word_of_int v = b \<and> real_ready bs s' t"
    using read_next by (simp add: real_wire_def)
qed

section \<open>Sessions on the real port\<close>

definition request_cmds :: "u8 \<Rightarrow> u8 \<Rightarrow> i2c_cmd list" where
  "request_cmds a reg =
     [I2C_Start, I2C_Addr a Write, I2C_Data reg, I2C_Stop, I2C_Ack True, I2C_Start, I2C_Addr a Read]"

definition requested :: "u8 \<Rightarrow> u8 \<Rightarrow> u8 \<Rightarrow> I2C_Poll list \<Rightarrow> I2C_Control \<Rightarrow> I2C_Control" where
  "requested a reg len qs c = c\<lparr>ic_addr := a, ic_reg := reg, ic_isRegSet := True, ic_length := len, ic_failCode := I2C_Ok,
     ic_bus := ic_bus c @ request_cmds a reg, ic_in := qs\<rparr>"

inductive requests :: "u32 \<Rightarrow> I2C_Poll list \<Rightarrow> bool" for timeout where
  "starts timeout s1 \<Longrightarrow> waits timeout pl_btf (\<lambda>_. False) p w1 \<Longrightarrow> starts timeout s2 \<Longrightarrow> requests timeout (s1 @ w1 @ s2)"

inductive_cases requestsE: "requests timeout qs"

lemma read_outcomes:
  assumes "ic_in c = rq @ qs @ rest" "requests (ic_timeout c) rq" "receives (ic_timeout c) os qs"
    "length os = unat len" "off + length os \<le> length data"
  shows "i2c_ReadRegister real_wire a reg data off len c =
    Some (after_read os rest (requested a reg len (qs @ rest) c), blit data off (map filler os), True)"
  using assms(2)
proof (rule requestsE)
  fix s1 w1 s2 p
  assume q: "rq = s1 @ w1 @ s2" "starts (ic_timeout c) s1" "waits (ic_timeout c) pl_btf (\<lambda>_. False) p w1" "starts (ic_timeout c) s2"
  define c0 where "c0 = c\<lparr>ic_addr := a, ic_reg := 0, ic_isRegSet := False, ic_length := 0, ic_failCode := I2C_Ok\<rparr>"
  define c1 where "c1 = c0\<lparr>ic_in := w1 @ s2 @ qs @ rest, ic_bus := ic_bus c @ [I2C_Start, I2C_Addr a Write]\<rparr>"
  define c2 where "c2 = c1\<lparr>ic_reg := reg, ic_isRegSet := True, ic_in := s2 @ qs @ rest, ic_bus := ic_bus c1 @ [I2C_Data reg]\<rparr>"
  define c3 where "c3 = bus I2C_Stop c2"
  have 1: "wr_beginTransmission real_wire a c = Some c1"
    using i2c_start_acked [of c0 s1 "w1 @ s2 @ qs @ rest" a Write] q assms(1)
    by (simp add: real_wire_def beginTransmission_def c0_def c1_def)
  have 2: "wr_write real_wire reg c1 = Some (c2, 1)"
    using i2c_write_acked [of "c1\<lparr>ic_reg := reg, ic_isRegSet := True\<rparr>" p w1 "s2 @ qs @ rest" reg] q(3)
    by (simp add: real_wire_def write_value_def c0_def c1_def c2_def)
  have 3: "wr_endTransmission real_wire c2 = Some (c3, 1)"
    by (simp add: real_wire_def endTransmission_def c0_def c1_def c2_def c3_def i2c_stop_def)
  have 4: "wr_requestFrom real_wire a len c3 = Some (requested a reg len (qs @ rest) c, len)"
    using i2c_start_acked [of "c3\<lparr>ic_addr := a, ic_length := len\<rparr>" s2 "qs @ rest" a Read] q(4)
    by (simp add: real_wire_def requestFrom_def c0_def c1_def c2_def c3_def bus_def requested_def request_cmds_def)
  have n: "length os < 256" using assms(4) unat_u8_less [of len] by simp
  have 5: "real_ready (map filler os) (requested a reg len (qs @ rest) c)
      (after_read os rest (requested a reg len (qs @ rest) c))"
    unfolding real_ready_def
    using assms(3,4) n by (intro conjI exI [of _ os] exI [of _ qs] exI [of _ rest]) (simp_all add: requested_def)
  show ?thesis
    using real.register_read [OF 1 2 3 4 5] assms(4,5) by simp
qed

text \<open>C35. Reading a register of a module that acknowledges and sends each byte in time.\<close>

theorem register_session:
  assumes "ic_in c = rq @ qs @ rest" "requests (ic_timeout c) rq" "receives (ic_timeout c) (map Some bs) qs"
    "length bs = unat len" "bs \<noteq> []" "off + length bs \<le> length data"
  shows "\<exists>c'. i2c_ReadRegister real_wire a reg data off len c = Some (c', blit data off bs, True) \<and>
    ic_in c' = rest \<and> ic_failCode c' = I2C_Ok \<and>
    ic_bus c' = ic_bus c @ [I2C_Start, I2C_Addr a Write, I2C_Data reg, I2C_Stop, I2C_Ack True, I2C_Start, I2C_Addr a Read,
      I2C_Ack False, I2C_Stop]"
  using read_outcomes [OF assms(1-3)] assms(4-6)
  by (auto simp: after_read_def requested_def request_cmds_def filler_def comp_def last_map)

text \<open>A byte that is not received in time is stored as 255, and the driver still reports success.\<close>

theorem late_byte_unreported:
  assumes "ic_in c = rq @ qs @ rest" "requests (ic_timeout c) rq" "receives (ic_timeout c) os qs"
    "length os = unat len" "off + length os \<le> length data" "None \<in> set os"
  shows "\<exists>c'. i2c_ReadRegister real_wire a reg data off len c =
      Some (c', blit data off (map (\<lambda>out. case out of None \<Rightarrow> 255 | Some b \<Rightarrow> b) os), True) \<and> ic_failCode c' = I2C_Read_Timeout"
  using read_outcomes [OF assms(1-5)] assms(6)
  by (auto simp: after_read_def filler_def [abs_def])

section \<open>A module that does not answer\<close>

inductive naks :: "u32 \<Rightarrow> I2C_Poll list \<Rightarrow> bool" for timeout where
  "list_all pl_busy bs \<Longrightarrow> \<not> pl_busy nb \<Longrightarrow> waits timeout (\<lambda>p. pl_sb p \<and> pl_msl p) (\<lambda>_. False) p (q # ps) \<Longrightarrow>
     in_time timeout (pl_time r) (\<lambda>p. pl_addr p \<or> pl_af p) rs \<Longrightarrow> \<not> pl_addr n \<Longrightarrow> pl_af n \<Longrightarrow>
     naks timeout (q # bs @ nb # ps @ r # rs @ [n])"

inductive_cases naksE: "naks timeout qs"

lemma poll_flags_nak:
  "in_time timeout t0 (\<lambda>q. flags q \<or> nak q) ps \<Longrightarrow> \<not> flags p \<Longrightarrow> nak p \<Longrightarrow>
     poll_flags flags nak t0 timeout (ps @ p # rest) = Some (Nak, rest)"
  by (induction ps) (auto simp: in_time_def)

lemma i2c_start_nak:
  assumes "naks (ic_timeout c) qs" "ic_in c = qs @ rest"
  shows "i2c_start_addr a Write c = Some (c\<lparr>ic_in := rest, ic_failCode := I2C_Addr_NAK,
    ic_bus := ic_bus c @ [I2C_Start, I2C_Addr a Write, I2C_Stop]\<rparr>, I2C_Addr_NAK)"
  using assms(1)
proof (rule naksE)
  fix bs nb p q ps r rs n
  assume s: "qs = q # bs @ nb # ps @ r # rs @ [n]" "list_all pl_busy bs" "\<not> pl_busy nb"
    "waits (ic_timeout c) (\<lambda>p. pl_sb p \<and> pl_msl p) (\<lambda>_. False) p (q # ps)"
    "in_time (ic_timeout c) (pl_time r) (\<lambda>p. pl_addr p \<or> pl_af p) rs" "\<not> pl_addr n" "pl_af n"
  have w: "wait_busy (bs @ nb # ps @ r # rs @ n # rest) = Some (ps @ r # rs @ n # rest)"
    by (rule wait_busy_free) (use s in auto)
  have b: "poll_flags (\<lambda>p. pl_sb p \<and> pl_msl p) (\<lambda>_. False) (pl_time q) (ic_timeout c) (ps @ r # rs @ n # rest) =
      Some (Ready p, r # rs @ n # rest)"
    using waits_poll [OF s(4)] by auto
  have k: "poll_flags pl_addr pl_af (pl_time r) (ic_timeout c) (rs @ n # rest) = Some (Nak, rest)"
    by (rule poll_flags_nak) (use s in auto)
  show ?thesis
    using s(1) w b k assms(2)
    by (auto simp: i2c_start_addr_def i2c_address_def systicks_def i2c_wait_busy_def wait_flags_def bus_def i2c_showError_def)
qed

text \<open>After an error every operation up to the next \<^verbatim>\<open>beginTransmission\<close> does nothing.\<close>

lemma after_error:
  assumes "ic_failCode c \<noteq> I2C_Ok"
  shows "write_value v c = Some (c, 0)" "endTransmission c = Some (c, 0)"
    "requestFrom a len c = Some (c\<lparr>ic_addr := a, ic_length := 0\<rparr>, 0)"
  using assms by (simp_all add: write_value_def endTransmission_def requestFrom_def)

lemma begin_nak:
  assumes "ic_in c = qs @ rest" "naks (ic_timeout c) qs"
  shows "beginTransmission a c = Some (c\<lparr>ic_addr := a, ic_reg := 0, ic_isRegSet := False, ic_length := 0, ic_in := rest,
    ic_failCode := I2C_Addr_NAK, ic_bus := ic_bus c @ [I2C_Start, I2C_Addr a Write, I2C_Stop]\<rparr>)"
  using i2c_start_nak [of "c\<lparr>ic_addr := a, ic_reg := 0, ic_isRegSet := False, ic_length := 0, ic_failCode := I2C_Ok\<rparr>" qs rest a] assms
  by (simp add: beginTransmission_def)

lemma real_wire_ops [simp]:
  "wr_beginTransmission real_wire = beginTransmission" "wr_write real_wire = write_value"
  "wr_endTransmission real_wire = endTransmission" "wr_requestFrom real_wire = requestFrom"
  "wr_available real_wire = available" "wr_read real_wire = read"
  by (simp_all add: real_wire_def)

lemma read_bytes_none: "wr_available w s = 0 \<Longrightarrow> 0 < fuel \<Longrightarrow> read_bytes w fuel data off ord s = Some (s, data, ord)"
  by (cases fuel) auto

lemma read_nak:
  assumes "ic_in c = qs @ rest" "naks (ic_timeout c) qs" "len \<noteq> 0"
  shows "\<exists>c'. i2c_ReadRegister real_wire a reg data off len c = Some (c', data, False) \<and>
    ic_in c' = rest \<and> ic_timeout c' = ic_timeout c \<and> ic_bus c' = ic_bus c @ [I2C_Start, I2C_Addr a Write, I2C_Stop]"
proof -
  obtain c1 where c1: "beginTransmission a c = Some c1" "ic_failCode c1 = I2C_Addr_NAK" "ic_in c1 = rest" "ic_length c1 = 0"
      "ic_timeout c1 = ic_timeout c" "ic_bus c1 = ic_bus c @ [I2C_Start, I2C_Addr a Write, I2C_Stop]"
    using begin_nak [OF assms(1,2)] by auto
  show ?thesis
    using c1 assms(3) by (simp add: i2c_ReadRegister_def after_error read_bytes_none available_def)
qed

lemma write_nak:
  assumes "ic_in c = qs @ rest" "naks (ic_timeout c) qs"
  shows "\<exists>c'. i2c_WriteRegister real_wire a reg v c = Some (c', True) \<and>
    ic_in c' = rest \<and> ic_timeout c' = ic_timeout c \<and> ic_bus c' = ic_bus c @ [I2C_Start, I2C_Addr a Write, I2C_Stop]"
  using begin_nak [OF assms] by (auto simp: i2c_WriteRegister_def after_error)

section \<open>Demonstrations\<close>

definition good_poll :: "u8 \<Rightarrow> I2C_Poll" where
  "good_poll v = \<lparr>pl_sb = True, pl_msl = True, pl_busy = False, pl_addr = True, pl_af = False, pl_btf = True, pl_rxne = True,
     pl_data = v, pl_time = 0\<rparr>"

definition late_poll :: I2C_Poll where
  "late_poll = (good_poll 0)\<lparr>pl_rxne := False, pl_time := 2000\<rparr>"

definition nak_poll :: I2C_Poll where
  "nak_poll = (good_poll 0)\<lparr>pl_addr := False, pl_af := True\<rparr>"

definition demo_i2c :: "I2C_Poll list \<Rightarrow> I2C_Control" where
  "demo_i2c ps = \<lparr>ic_addr = 0, ic_reg = 0, ic_isRegSet = False, ic_length = 0, ic_timeout = 1000, ic_failCode = I2C_Ok,
     ic_bus = [], ic_in = ps\<rparr>"

lemma poll_fields [simp]:
  "pl_sb (good_poll v)" "pl_msl (good_poll v)" "\<not> pl_busy (good_poll v)" "pl_addr (good_poll v)" "\<not> pl_af (good_poll v)"
  "pl_btf (good_poll v)" "pl_rxne (good_poll v)" "pl_data (good_poll v) = v" "\<not> pl_addr nak_poll" "pl_af nak_poll"
  by (simp_all add: good_poll_def nak_poll_def)

lemma good_waits: "flags (good_poll v) \<Longrightarrow> waits timeout flags nak (good_poll v) [good_poll u, good_poll v]"
  using waits.intros [of flags "good_poll v" timeout "good_poll u" nak "[]"] by (simp add: in_time_def)

lemma good_starts: "starts timeout (replicate 5 (good_poll v))"
proof -
  have "starts timeout (good_poll v # [] @ good_poll v # [good_poll v] @ [good_poll v, good_poll v])"
    by (rule starts.intros) (auto intro!: good_waits)
  then show ?thesis by (simp add: eval_nat_numeral)
qed

lemma good_requests: "requests timeout (replicate 12 (good_poll v))"
proof -
  have "requests timeout (replicate 5 (good_poll v) @ [good_poll v, good_poll v] @ replicate 5 (good_poll v))"
    by (rule requests.intros [OF good_starts good_waits good_starts]) simp
  then show ?thesis by (simp add: eval_nat_numeral)
qed

lemma good_receives: "receives timeout (map Some bs) (concat (map (\<lambda>b. [good_poll 0, good_poll b]) bs))"
proof (induction bs)
  case (Cons b bs)
  have "receives timeout (Some (pl_data (good_poll b)) # map Some bs)
      ([good_poll 0, good_poll b] @ concat (map (\<lambda>b. [good_poll 0, good_poll b]) bs))"
    by (rule receives.intros(2) [OF good_waits Cons]) simp
  then show ?case by simp
qed (simp add: receives.intros)

lemma nak_naks: "naks timeout (replicate 4 (good_poll v) @ [nak_poll])"
proof -
  have "naks timeout (good_poll v # [] @ good_poll v # [good_poll v] @ good_poll v # [] @ [nak_poll])"
    by (rule naks.intros) (auto intro!: good_waits simp: in_time_def)
  then show ?thesis by (simp add: eval_nat_numeral)
qed

lemma late_late: "late 1000 [good_poll 0, late_poll]"
  using late.intros [of late_poll 1000 "good_poll 0" "[]"]
  by (simp add: in_time_def late_poll_def good_poll_def i2c_diff_ticks_def)

lemma register_session_witness:
  "\<exists>c'. i2c_ReadRegister real_wire 118 208 [0] 0 1
      (demo_i2c (replicate 12 (good_poll 0) @ concat (map (\<lambda>b. [good_poll 0, good_poll b]) [96]) @ [])) = Some (c', [96], True)"
  using register_session [of "demo_i2c (replicate 12 (good_poll 0) @ concat (map (\<lambda>b. [good_poll 0, good_poll b]) [96]) @ [])"
      "replicate 12 (good_poll 0)" "concat (map (\<lambda>b. [good_poll 0, good_poll b]) [96])" "[]" "[96]" 1 0 "[0]" 118 208]
    good_requests good_receives [of 1000 "[96]"]
  by (auto simp: demo_i2c_def blit_def)

lemma late_byte_unreported_witness:
  "\<exists>c'. i2c_ReadRegister real_wire 118 208 [0] 0 1 (demo_i2c (replicate 12 (good_poll 0) @ [good_poll 0, late_poll])) =
     Some (c', [255], True)"
proof -
  have "receives 1000 [None] [good_poll 0, late_poll]"
    using receives.intros(3) [OF late_late receives.intros(1)] by simp
  then show ?thesis
    using late_byte_unreported [of "demo_i2c (replicate 12 (good_poll 0) @ [good_poll 0, late_poll])"
        "replicate 12 (good_poll 0)" "[good_poll 0, late_poll]" "[]" "[None]" 1 0 "[0]" 118 208] good_requests
    by (auto simp: demo_i2c_def blit_def)
qed

end
