(* ===== verification/Bme280Laws.thy ===== *)
theory Bme280Laws
  imports I2cLaws
begin

text \<open>
  The BME280 driver over a register port that answers: it finds the module, loads the trimming and measures. The integer calculations
  are the formulas of the data sheet wherever these fit 32 bits, and the humidity is a percentage whatever the readings.
\<close>

section \<open>A port that answers\<close>

definition trim_regs :: "u8 set" where
  "trim_regs = {ID_ADDR, TEMP_DIG_ADDR, PRESS_DIG_ADDR, HUM_DIG_ADDR1, HUM_DIG_ADDR2, PRESS_ADDR}"

definition reg_length :: "u8 \<Rightarrow> nat" where
  "reg_length a = (if a = TEMP_DIG_ADDR then 6 else if a = PRESS_DIG_ADDR then 18 else if a = HUM_DIG_ADDR2 then 7
     else if a = PRESS_ADDR then 8 else 1)"

definition trimming :: "(u8 \<Rightarrow> u8 list) \<Rightarrow> u8 list" where
  "trimming content = content TEMP_DIG_ADDR @ content PRESS_DIG_ADDR @ content HUM_DIG_ADDR1 @ content HUM_DIG_ADDR2"

definition found_model :: "u8 list \<Rightarrow> ChipModel" where
  "found_model ident = (if ident = [96] then ChipModel_BME280 else ChipModel_BMP280)"

locale register_port =
  fixes rg :: "'p Registers" and inv :: "'p \<Rightarrow> bool" and content :: "u8 \<Rightarrow> u8 list"
  assumes content_length: "a \<in> trim_regs \<Longrightarrow> length (content a) = reg_length a"
    and read_content: "inv p \<Longrightarrow> a \<in> trim_regs \<Longrightarrow> unat len = reg_length a \<Longrightarrow> off + reg_length a \<le> length data \<Longrightarrow>
      \<exists>p'. rg_read rg a data off len p = Some (p', blit data off (content a), True) \<and> inv p'"
    and write_kept: "inv p \<Longrightarrow> \<exists>p'. rg_write rg a v p = Some (p', True) \<and> inv p'"
begin

lemma WriteSettings_ok: "inv p \<Longrightarrow> \<exists>p'. WriteSettings rg (b, p) = Some (b, p') \<and> inv p'"
proof -
  assume p: "inv p"
  obtain h m c where r: "CalculateRegisters (bm_settings b) = (h, m, c)" by (metis prod_cases3)
  obtain p1 where 1: "rg_write rg CTRL_HUM_ADDR h p = Some (p1, True)" "inv p1" using write_kept [OF p] by blast
  obtain p2 where 2: "rg_write rg CTRL_MEAS_ADDR m p1 = Some (p2, True)" "inv p2" using write_kept [OF 1(2)] by blast
  obtain p3 where 3: "rg_write rg CONFIG_ADDR c p2 = Some (p3, True)" "inv p3" using write_kept [OF 2(2)] by blast
  show ?thesis using 1 2 3 r by (simp add: WriteSettings_def)
qed

lemma ReadTrim_ok:
  assumes "inv p" "length (bm_dig b) = 32"
  shows "\<exists>p'. ReadTrim rg (b, p) = Some ((b\<lparr>bm_dig := trimming content\<rparr>, p'), True) \<and> inv p'"
proof -
  let ?c = "[content TEMP_DIG_ADDR, content PRESS_DIG_ADDR, content HUM_DIG_ADDR1, content HUM_DIG_ADDR2]"
  have l: "map length ?c = [6, 18, 1, 7]"
    by (simp add: content_length trim_regs_def reg_length_def)
  define d1 where "d1 = blit (bm_dig b) 0 (content TEMP_DIG_ADDR)"
  define d2 where "d2 = blit d1 6 (content PRESS_DIG_ADDR)"
  define d3 where "d3 = blit d2 24 (content HUM_DIG_ADDR1)"
  have len: "length d1 = 32" "length d2 = 32" "length d3 = 32"
    using l assms(2) by (simp_all add: d1_def d2_def d3_def length_blit)
  obtain p1 where 1: "rg_read rg TEMP_DIG_ADDR (bm_dig b) 0 6 p = Some (p1, d1, True)" "inv p1"
    using read_content [OF assms(1), of TEMP_DIG_ADDR 6 0 "bm_dig b"] assms(2) by (auto simp: d1_def trim_regs_def reg_length_def)
  obtain p2 where 2: "rg_read rg PRESS_DIG_ADDR d1 6 18 p1 = Some (p2, d2, True)" "inv p2"
    using read_content [OF 1(2), of PRESS_DIG_ADDR 18 6 d1] len by (auto simp: d2_def trim_regs_def reg_length_def)
  obtain p3 where 3: "rg_read rg HUM_DIG_ADDR1 d2 24 1 p2 = Some (p3, d3, True)" "inv p3"
    using read_content [OF 2(2), of HUM_DIG_ADDR1 1 24 d2] len by (auto simp: d3_def trim_regs_def reg_length_def)
  obtain p4 where 4: "rg_read rg HUM_DIG_ADDR2 d3 25 7 p3 = Some (p4, blit d3 25 (content HUM_DIG_ADDR2), True)" "inv p4"
    using read_content [OF 3(2), of HUM_DIG_ADDR2 7 25 d3] len by (auto simp: trim_regs_def reg_length_def)
  have "blit d3 25 (content HUM_DIG_ADDR2) = trimming content"
    using l assms(2) by (simp add: trimming_def d1_def d2_def d3_def blit_def)
  then show ?thesis
    using 1 2 3 4 by (simp add: ReadTrim_def)
qed

lemma begin_ok:
  assumes "inv p" "length (bm_dig b) = 32" "length junk = 1" "content ID_ADDR \<in> {[96], [88]}"
  shows "\<exists>p'. bme_begin rg junk (b, p) = Some ((b\<lparr>bm_chip_model := found_model (content ID_ADDR), bm_chip_id := hd (content ID_ADDR),
    bm_dig := trimming content, bm_initialized := True\<rparr>, p'), True) \<and> inv p'"
proof -
  obtain p1 where 1: "rg_read rg ID_ADDR junk 0 1 p = Some (p1, content ID_ADDR, True)" "inv p1"
    using read_content [OF assms(1), of ID_ADDR 1 0 junk] assms(3,4) by (auto simp: trim_regs_def reg_length_def blit_def)
  let ?b = "b\<lparr>bm_chip_model := found_model (content ID_ADDR), bm_chip_id := hd (content ID_ADDR)\<rparr>"
  obtain p2 where 2: "ReadTrim rg (?b, p1) = Some ((?b\<lparr>bm_dig := trimming content\<rparr>, p2), True)" "inv p2"
    using ReadTrim_ok [OF 1(2), of ?b] assms(2) by auto
  obtain p3 where 3: "WriteSettings rg (?b\<lparr>bm_dig := trimming content\<rparr>, p2) = Some (?b\<lparr>bm_dig := trimming content\<rparr>, p3)" "inv p3"
    using WriteSettings_ok [OF 2(2)] by blast
  have "ReadChipID rg junk (b, p) = Some ((?b, p1), True)"
    using 1 assms(4) by (auto simp: ReadChipID_def found_model_def)
  then show ?thesis
    using 2 3 by (simp add: bme_begin_def Initialize_def)
qed

lemma ReadData_ok:
  assumes "inv p" "length junk = 8"
  shows "\<exists>p'. ReadData rg junk (b, p) = Some ((b, p'), map ucast (content PRESS_ADDR), True) \<and> inv p'"
proof -
  obtain p1 where 1: "(if se_mode (bm_settings b) = Mode_Forced then WriteSettings rg (b, p) else Some (b, p)) = Some (b, p1)" "inv p1"
    using WriteSettings_ok [OF assms(1)] assms(1) by (cases "se_mode (bm_settings b) = Mode_Forced") auto
  obtain p2 where 2: "rg_read rg PRESS_ADDR junk 0 8 p1 = Some (p2, content PRESS_ADDR, True)" "inv p2"
    using read_content [OF 1(2), of PRESS_ADDR 8 0 junk] assms(2) content_length [of PRESS_ADDR]
    by (auto simp: trim_regs_def reg_length_def blit_def)
  show ?thesis using 1 2 by (simp add: ReadData_def)
qed

end

text \<open>The recorded sensor answers.\<close>

lemma recorded_length: "a \<in> trim_regs \<Longrightarrow> length (recorded a) = reg_length a"
  by (auto simp: trim_regs_def recorded_def reg_length_def ID_DATA_def TEMP_DIG_DATA_def PRESS_DIG_DATA_def
      HUM_DIG_DATA1_def HUM_DIG_DATA2_def PRESS_DATA_def)

interpretation sim280: register_port "i2c_registers sim_wire a" "\<lambda>_. True" recorded for a
proof
  fix r len :: u8 and off and data :: "u8 list" and p :: Sim280
  assume r: "r \<in> trim_regs" "unat (len :: u8) = reg_length r" "off + reg_length r \<le> length data"
  let ?p = "p\<lparr>sb_register := r\<rparr>"
  have "sim_ready (recorded r) (?p\<lparr>sb_index := 0, sb_data := recorded r, sb_length := length (recorded r)\<rparr>)
      (?p\<lparr>sb_index := length (recorded r), sb_data := recorded r, sb_length := length (recorded r)\<rparr>)"
    by (simp add: sim_ready_def)
  then have "i2c_ReadRegister sim_wire a r data off len p =
      Some (?p\<lparr>sb_index := length (recorded r), sb_data := recorded r, sb_length := length (recorded r)\<rparr>, blit data off (recorded r), True)"
    using recorded_length [OF r(1)] r(2,3)
    by (intro sim.register_read) (auto simp: sim_wire_def sim_wire_write_def sim_requestFrom_def Let_def)
  then show "\<exists>p'. rg_read (i2c_registers sim_wire a) r data off len p = Some (p', blit data off (recorded r), True) \<and> True"
    by (simp add: i2c_registers_def)
qed (auto simp: recorded_length i2c_registers_def i2c_WriteRegister_def sim_wire_def sim_wire_write_def)

section \<open>The recorded measurement\<close>

lemma trimming_recorded: "trimming recorded = [54, 111, 194, 104, 50, 0, 14, 142, 139, 214, 208, 11, 156, 29, 1, 0, 249, 255, 172, 38,
    10, 216, 189, 16, 75, 116, 1, 0, 18, 7, 0, 30]"
  by (simp add: trimming_def recorded_def TEMP_DIG_DATA_def PRESS_DIG_DATA_def HUM_DIG_DATA1_def HUM_DIG_DATA2_def)

lemma recorded_raw:
  "raw20 (map ucast (recorded PRESS_ADDR)) 3 = 548176" "raw20 (map ucast (recorded PRESS_ADDR)) 0 = 343360"
  "raw16 (map ucast (recorded PRESS_ADDR)) = 30861"
  by (simp_all add: raw20_def raw16_def recorded_def PRESS_DATA_def)

lemma recorded_fine: "calc_fine (trimming recorded) 548176 = 151687"
  unfolding trimming_recorded by (simp add: calc_fine_def dig16_def)

lemma recorded_values:
  "calc_temp 151687 = 2963" "calc_hum (trimming recorded) 30861 151687 = 71251"
  "calc_pres (trimming recorded) 343360 151687 = Some 25859360"
  unfolding trimming_recorded by (simp_all add: calc_temp_def calc_hum_def calc_pres_def dig16_def clamp_hum_def sdiv64_def)

text \<open>With the recorded sensor the driver starts, loads the trimming and measures 29.63 degrees, 69.58 percent and 1010.13 hPa.\<close>

theorem recorded_measurement:
  assumes "length dig = 32" "length junk = 1" "length junk8 = 8"
  shows "\<exists>b s'. bme_begin (i2c_registers sim_wire a) junk (BME280_new settings dig chip model, s) = Some ((b, s'), True) \<and>
    bm_chip_model b = ChipModel_BME280 \<and> bm_chip_id b = 96 \<and>
    (\<exists>st. bme_read fl (i2c_registers sim_wire a) junk8 TempUnit_Celsius PresUnit_hPa (b, s') = Some (st,
       Some (fl_single fl (fl_div fl (fl_single fl (fl_div fl (fl_of_int fl 25859360) (fl_dec fl 256 0))) (fl_dec fl 100 0))),
       Some (fl_single fl (fl_div fl (fl_of_int fl 2963) (fl_dec fl 100 0))),
       Some (fl_single fl (fl_div fl (fl_of_int fl 71251) (fl_dec fl 1024 0)))))"
proof -
  let ?b = "BME280_new settings dig chip model"
  have len: "length (bm_dig ?b) = 32" and rid: "recorded ID_ADDR = [96]"
    using assms(1) by (simp_all add: BME280_new_def recorded_def ID_DATA_def)
  obtain s' where 1: "bme_begin (i2c_registers sim_wire a) junk (?b, s) = Some ((?b\<lparr>bm_chip_model := ChipModel_BME280, bm_chip_id := 96,
      bm_dig := trimming recorded, bm_initialized := True\<rparr>, s'), True)"
    using sim280.begin_ok [OF TrueI len assms(2)] rid by (auto simp: found_model_def)
  let ?b' = "?b\<lparr>bm_chip_model := ChipModel_BME280, bm_chip_id := 96, bm_dig := trimming recorded, bm_initialized := True\<rparr>"
  obtain p' where 2: "ReadData (i2c_registers sim_wire a) junk8 (?b', s') = Some ((?b', p'), map ucast (recorded PRESS_ADDR), True)"
    using sim280.ReadData_ok [OF TrueI assms(3)] by blast
  show ?thesis
    using 1 2 by (auto simp: bme_read_def CalculateTemperature_def CalculatePressure_def CalculateHumidity_def Let_def
        recorded_raw recorded_fine recorded_values)
qed

definition demo_bme :: BME280 where
  "demo_bme = BME280_new Settings0 (replicate 32 0) 0 ChipModel_UNKNOWN"

definition demo_sim280 :: Sim280 where
  "demo_sim280 = \<lparr>sb_register = 0, sb_data = [], sb_length = 0, sb_index = 0\<rparr>"

definition demo_floating :: "int Floating" where
  "demo_floating = \<lparr>fl_of_int = (\<lambda>n. n), fl_dec = (\<lambda>m k. m div 10 ^ k), fl_add = (+), fl_mul = (*), fl_div = (div), fl_single = (\<lambda>x. x)\<rparr>"

lemma recorded_measurement_witness:
  "\<exists>b s'. bme_begin (i2c_registers sim_wire 118) [0] (BME280_new Settings0 (replicate 32 0) 0 ChipModel_UNKNOWN, demo_sim280) =
      Some ((b, s'), True) \<and>
    (\<exists>st. bme_read demo_floating (i2c_registers sim_wire 118) (replicate 8 0) TempUnit_Celsius PresUnit_hPa (b, s') =
      Some (st, Some 1010, Some 29, Some 69))"
  using recorded_measurement [of "replicate 32 0" "[0]" "replicate 8 0" 118 Settings0 0 ChipModel_UNKNOWN demo_sim280 demo_floating]
  by (auto simp: demo_floating_def)

section \<open>The formulas of the data sheet\<close>

definition bosch_fine :: "int \<Rightarrow> int \<Rightarrow> int \<Rightarrow> int \<Rightarrow> int" where
  "bosch_fine T1 T2 T3 raw =
     ((raw div 8 - 2 * T1) * T2) div 2 ^ 11 + ((((raw div 16 - T1) * (raw div 16 - T1)) div 2 ^ 12) * T3) div 2 ^ 14"

definition fits32 :: "int \<Rightarrow> bool" where
  "fits32 z \<longleftrightarrow> - (2 ^ 31) \<le> z \<and> z < 2 ^ 31"

lemma sint_of_int: "fits32 z \<Longrightarrow> sint (word_of_int z :: s32) = z"
  by (simp add: fits32_def sint_sbintrunc' signed_take_bit_int_eq_self)

lemma sint_arith32:
  "fits32 (sint a + sint b) \<Longrightarrow> sint (a + b :: s32) = sint a + sint b"
  "fits32 (sint a - sint b) \<Longrightarrow> sint (a - b) = sint a - sint b"
  "fits32 (sint a * sint b) \<Longrightarrow> sint (a * b) = sint a * sint b"
  by (simp_all add: sint_word_ariths fits32_def signed_take_bit_int_eq_self)

lemma sint_shift: "sint (signed_drop_bit n w :: s32) = sint w div 2 ^ n"
  by (simp add: sint_signed_drop_bit_eq drop_bit_eq_div)

lemma uint_u16_less: "uint (x :: u16) < 65536"
  using uint_bounded [of x] by simp

lemma sint_wide: "sint (ucast (x :: u16) :: s32) = uint x" "sint (scast (x :: u16) :: s32) = sint x"
proof -
  have "uint (ucast x :: s32) = uint x"
    using uint_u16_less [of x] by (simp add: unsigned_ucast_eq take_bit_int_eq_self)
  then show "sint (ucast x :: s32) = uint x"
    using uint_u16_less [of x] by (simp add: sint_32)
  show "sint (scast x :: s32) = sint x"
    using sint_ge [of x] sint_lt [of x] by (simp add: signed_scast_eq signed_take_bit_int_eq_self)
qed

text \<open>
  C36. Where its products fit 32 bits the temperature is the formula of the data sheet, floor of hundredths of a degree.
\<close>

theorem temperature_exact:
  assumes "uint raw < 2 ^ 20"
    "fits32 ((uint raw div 8 - 2 * uint (dig16 dig 0)) * sint (dig16 dig 2))"
    "fits32 ((uint raw div 16 - uint (dig16 dig 0)) * (uint raw div 16 - uint (dig16 dig 0)))"
    "fits32 ((uint raw div 16 - uint (dig16 dig 0)) * (uint raw div 16 - uint (dig16 dig 0)) div 2 ^ 12 * sint (dig16 dig 4))"
    "\<bar>bosch_fine (uint (dig16 dig 0)) (sint (dig16 dig 2)) (sint (dig16 dig 4)) (uint raw)\<bar> \<le> 400000000"
  shows "sint (calc_fine dig raw) = bosch_fine (uint (dig16 dig 0)) (sint (dig16 dig 2)) (sint (dig16 dig 4)) (uint raw) \<and>
    sint (calc_temp (calc_fine dig raw)) =
      (bosch_fine (uint (dig16 dig 0)) (sint (dig16 dig 2)) (sint (dig16 dig 4)) (uint raw) * 5 + 128) div 2 ^ 8"
proof -
  define T1 T2 T3 where T: "T1 = (ucast (dig16 dig 0) :: s32)" "T2 = (scast (dig16 dig 2) :: s32)" "T3 = (scast (dig16 dig 4) :: s32)"
  note s = sint_wide [of "dig16 dig 0"] sint_wide [of "dig16 dig 2"] sint_wide [of "dig16 dig 4"]
  let ?t = "uint (dig16 dig 0)" and ?r = "uint raw"
  let ?d = "signed_drop_bit 4 raw - T1"
  have r: "sint raw = ?r" "0 \<le> ?r" using assms(1) by (simp_all add: sint_32)
  have rd: "0 \<le> ?r div 8" "?r div 8 < 131072" "0 \<le> ?r div 16" "?r div 16 < 65536"
    using assms(1) r(2) by (simp_all add: pos_imp_zdiv_nonneg_iff)
  have t: "0 \<le> ?t" "?t < 65536" using uint_u16_less by simp_all
  have ft: "fits32 (?r div 8 - 2 * ?t)" "fits32 (?r div 16 - ?t)"
  proof -
    have "- (2 ^ 31) = (- 2147483648 :: int)" "2 ^ 31 = (2147483648 :: int)" by simp_all
    then show "fits32 (?r div 8 - 2 * ?t)" "fits32 (?r div 16 - ?t)" unfolding fits32_def using rd t by linarith+
  qed
  have sT: "sint T1 = ?t" "sint T2 = sint (dig16 dig 2)" "sint T3 = sint (dig16 dig 4)" unfolding T by (simp_all add: s)
  have "sint (push_bit 1 T1) = 2 * ?t"
  proof -
    have "push_bit 1 T1 = T1 + T1" by (simp add: push_bit_eq_mult mult.commute)
    then show ?thesis using sint_arith32(1) [of T1 T1] t sT(1) by (simp add: fits32_def mult.commute)
  qed
  then have "sint (signed_drop_bit 3 raw - push_bit 1 T1) = ?r div 8 - 2 * ?t"
    using ft r by (subst sint_arith32(2)) (auto simp: sint_shift)
  then have v1: "sint (signed_drop_bit 11 ((signed_drop_bit 3 raw - push_bit 1 T1) * T2)) =
      ((?r div 8 - 2 * ?t) * sint (dig16 dig 2)) div 2 ^ 11"
    using assms(2) sT by (simp add: sint_shift sint_arith32(3))
  have d: "sint ?d = ?r div 16 - ?t"
    using ft r sT by (subst sint_arith32(2)) (auto simp: sint_shift)
  have sq: "sint (?d * ?d) = (?r div 16 - ?t) * (?r div 16 - ?t)"
    using sint_arith32(3) [of ?d ?d] assms(3) d by simp
  have v2: "sint (signed_drop_bit 14 (signed_drop_bit 12 (?d * ?d) * T3)) =
      ((?r div 16 - ?t) * (?r div 16 - ?t) div 2 ^ 12 * sint (dig16 dig 4)) div 2 ^ 14"
    using sint_arith32(3) [of "signed_drop_bit 12 (?d * ?d)" T3] assms(4) sq sT by (simp add: sint_shift)
  let ?f = "bosch_fine ?t (sint (dig16 dig 2)) (sint (dig16 dig 4)) ?r"
  have fits: "fits32 ?f" "fits32 (?f * 5)" "fits32 (?f * 5 + 128)" using assms(5) by (auto simp: fits32_def)
  have f: "sint (calc_fine dig raw) = ?f"
    using sint_arith32(1) [of "signed_drop_bit 11 ((signed_drop_bit 3 raw - push_bit 1 T1) * T2)" "signed_drop_bit 14 (signed_drop_bit 12 (?d * ?d) * T3)"]
      fits(1) v1 v2 by (simp add: calc_fine_def Let_def bosch_fine_def T)
  have "sint (calc_fine dig raw * 5) = ?f * 5"
    using sint_arith32(3) [of "calc_fine dig raw" 5] fits(2) f by simp
  then have "sint (calc_fine dig raw * 5 + 128) = ?f * 5 + 128"
    using sint_arith32(1) [of "calc_fine dig raw * 5" 128] fits(3) by simp
  then show ?thesis using f by (simp add: calc_temp_def sint_shift)
qed

lemma temperature_exact_witness:
  "sint (calc_temp (calc_fine (trimming recorded) 548176)) = (bosch_fine 28470 26818 50 548176 * 5 + 128) div 2 ^ 8"
  using temperature_exact [of 548176 "trimming recorded"]
  by (simp add: trimming_recorded dig16_def fits32_def bosch_fine_def)

text \<open>Whatever the module sends and the trimming holds, the humidity lies between 0 and 100 percent (1024ths of a percent).\<close>

theorem humidity_bounds: "uint (calc_hum dig raw t_fine) \<le> 100 * 1024"
proof -
  have "uint (signed_drop_bit 12 (clamp_hum v)) \<le> 102400" for v
  proof -
    have b: "0 \<le> sint (clamp_hum v)" "sint (clamp_hum v) \<le> 419430400"
      by (simp_all add: clamp_hum_def Let_def)
    then have "0 \<le> sint (signed_drop_bit 12 (clamp_hum v))" "sint (signed_drop_bit 12 (clamp_hum v)) \<le> 102400"
      by (simp_all add: sint_shift)
    then show ?thesis
      using uint_bounded [of "signed_drop_bit 12 (clamp_hum v)"] by (simp add: sint_32 split: if_splits)
  qed
  then show ?thesis by (simp add: calc_hum_def Let_def)
qed

section \<open>A sensor that does not answer\<close>

definition naks_in :: "nat \<Rightarrow> I2C_Control \<Rightarrow> bool" where
  "naks_in n c \<longleftrightarrow> (\<exists>qss rest. ic_in c = concat qss @ rest \<and> list_all (naks (ic_timeout c)) qss \<and> n \<le> length qss)"

lemma naks_inE:
  assumes "naks_in (Suc n) c"
  obtains qs rest where "ic_in c = qs @ rest" "naks (ic_timeout c) qs"
    "\<And>c'. ic_in c' = rest \<Longrightarrow> ic_timeout c' = ic_timeout c \<Longrightarrow> naks_in n c'"
proof -
  obtain qss rest where q: "ic_in c = concat qss @ rest" "list_all (naks (ic_timeout c)) qss" "Suc n \<le> length qss"
    using assms by (auto simp: naks_in_def)
  then obtain qs tss where t: "qss = qs # tss" by (cases qss) auto
  show ?thesis
  proof (rule that)
    show "ic_in c = qs @ concat tss @ rest" using q t by simp
    show "naks (ic_timeout c) qs" using q t by simp
    fix c' :: I2C_Control assume "ic_in c' = concat tss @ rest" "ic_timeout c' = ic_timeout c"
    then show "naks_in n c'" using q t unfolding naks_in_def by (intro exI [of _ tss] exI [of _ rest]) simp
  qed
qed

abbreviation real280 :: "u8 \<Rightarrow> I2C_Control Registers" where "real280 a \<equiv> i2c_registers real_wire a"

lemma naks_in_less: "naks_in n c \<Longrightarrow> m \<le> n \<Longrightarrow> naks_in m c"
  using order_trans unfolding naks_in_def by blast

lemma absent_read:
  assumes "naks_in (Suc n) c" "len \<noteq> 0"
  shows "\<exists>c'. rg_read (real280 a) reg data off len c = Some (c', data, False) \<and> naks_in n c'"
proof -
  obtain qs rest where q: "ic_in c = qs @ rest" "naks (ic_timeout c) qs"
    "\<And>c'. ic_in c' = rest \<Longrightarrow> ic_timeout c' = ic_timeout c \<Longrightarrow> naks_in n c'" using naks_inE [OF assms(1)] by metis
  obtain c' where "i2c_ReadRegister real_wire a reg data off len c = Some (c', data, False)" "ic_in c' = rest" "ic_timeout c' = ic_timeout c"
    using read_nak [OF q(1,2) assms(2)] by metis
  then show ?thesis using q(3) by (simp add: i2c_registers_def)
qed

lemma absent_write:
  assumes "naks_in (Suc n) c"
  shows "\<exists>c'. rg_write (real280 a) reg v c = Some (c', True) \<and> naks_in n c'"
proof -
  obtain qs rest where q: "ic_in c = qs @ rest" "naks (ic_timeout c) qs"
    "\<And>c'. ic_in c' = rest \<Longrightarrow> ic_timeout c' = ic_timeout c \<Longrightarrow> naks_in n c'" using naks_inE [OF assms(1)] by metis
  obtain c' where "i2c_WriteRegister real_wire a reg v c = Some (c', True)" "ic_in c' = rest" "ic_timeout c' = ic_timeout c"
    using write_nak [OF q(1,2)] by metis
  then show ?thesis using q(3) by (simp add: i2c_registers_def)
qed

lemma absent_settings:
  assumes "naks_in (Suc (Suc (Suc n))) c"
  shows "\<exists>c'. WriteSettings (real280 a) (b, c) = Some (b, c') \<and> naks_in n c'"
proof -
  obtain h m k where r: "CalculateRegisters (bm_settings b) = (h, m, k)" by (metis prod_cases3)
  obtain c1 where 1: "rg_write (real280 a) CTRL_HUM_ADDR h c = Some (c1, True)" "naks_in (Suc (Suc n)) c1" using absent_write [OF assms] by blast
  obtain c2 where 2: "rg_write (real280 a) CTRL_MEAS_ADDR m c1 = Some (c2, True)" "naks_in (Suc n) c2" using absent_write [OF 1(2)] by blast
  obtain c3 where 3: "rg_write (real280 a) CONFIG_ADDR k c2 = Some (c3, True)" "naks_in n c3" using absent_write [OF 2(2)] by blast
  show ?thesis using 1 2 3 r by (simp add: WriteSettings_def)
qed

lemma absent_trim:
  assumes "naks_in (Suc (Suc (Suc (Suc n)))) c"
  shows "\<exists>c'. ReadTrim (real280 a) (b, c) = Some ((b, c'), False) \<and> naks_in n c'"
proof -
  obtain c1 where 1: "rg_read (real280 a) TEMP_DIG_ADDR (bm_dig b) 0 6 c = Some (c1, bm_dig b, False)" "naks_in (Suc (Suc (Suc n))) c1"
    using absent_read [OF assms, where len = 6 and a = a and reg = TEMP_DIG_ADDR and data = "bm_dig b" and off = 0] by auto
  obtain c2 where 2: "rg_read (real280 a) PRESS_DIG_ADDR (bm_dig b) 6 18 c1 = Some (c2, bm_dig b, False)" "naks_in (Suc (Suc n)) c2"
    using absent_read [OF 1(2), where len = 18 and a = a and reg = PRESS_DIG_ADDR and data = "bm_dig b" and off = 6] by auto
  obtain c3 where 3: "rg_read (real280 a) HUM_DIG_ADDR1 (bm_dig b) 24 1 c2 = Some (c3, bm_dig b, False)" "naks_in (Suc n) c3"
    using absent_read [OF 2(2), where len = 1 and a = a and reg = HUM_DIG_ADDR1 and data = "bm_dig b" and off = 24] by auto
  obtain c4 where 4: "rg_read (real280 a) HUM_DIG_ADDR2 (bm_dig b) 25 7 c3 = Some (c4, bm_dig b, False)" "naks_in n c4"
    using absent_read [OF 3(2), where len = 7 and a = a and reg = HUM_DIG_ADDR2 and data = "bm_dig b" and off = 25] by auto
  show ?thesis using 1 2 3 4 by (simp add: ReadTrim_def)
qed

text \<open>
  When the module does not acknowledge its address the start of the driver fails, whatever its uninitialised buffer holds, and
  a reading of the temperature is NAN.
\<close>

theorem absent_sensor:
  assumes "ic_in c = concat qss @ rest" "list_all (naks (ic_timeout c)) qss" "length qss = 8"
  shows "(\<exists>st. bme_begin (i2c_registers real_wire a) junk (b, c) = Some (st, False)) \<and>
    (\<exists>st. bme_temp fl (i2c_registers real_wire a) junk8 unit (b, c) = Some (st, None))"
proof -
  have n: "naks_in (Suc (Suc (Suc (Suc (Suc (Suc (Suc (Suc 0)))))))) c"
    unfolding naks_in_def using assms by (intro exI [of _ qss] exI [of _ rest]) simp
  obtain c1 where 1: "rg_read (real280 a) ID_ADDR junk 0 1 c = Some (c1, junk, False)" "naks_in (Suc (Suc (Suc (Suc (Suc (Suc (Suc 0))))))) c1"
    using absent_read [OF n, where len = 1 and a = a and reg = ID_ADDR and data = "junk" and off = 0] by auto
  have t: "\<exists>c'. ReadTrim (real280 a) (b', c1) = Some ((b', c'), False) \<and> naks_in (Suc (Suc (Suc 0))) c'" for b'
    using absent_trim [OF 1(2)] .
  have begin_fails: "\<exists>st. bme_begin (real280 a) junk (b, c) = Some (st, False)"
  proof (cases "junk ! 0 = 96 \<or> junk ! 0 = 88")
    case True
    then obtain b' where b': "ReadChipID (real280 a) junk (b, c) = Some ((b', c1), True)"
      using 1 by (auto simp: ReadChipID_def)
    obtain c2 where c2: "ReadTrim (real280 a) (b', c1) = Some ((b', c2), False)" "naks_in (Suc (Suc (Suc 0))) c2" using t by blast
    obtain c3 where "WriteSettings (real280 a) (b', c2) = Some (b', c3)" using absent_settings [OF c2(2)] by blast
    then show ?thesis using b' c2 by (simp add: bme_begin_def Initialize_def)
  next
    case False
    then show ?thesis using 1 by (simp add: bme_begin_def Initialize_def ReadChipID_def)
  qed
  have n4: "naks_in (Suc (Suc (Suc (Suc 0)))) c" by (rule naks_in_less [OF n]) simp
  obtain c2 where c2: "(if se_mode (bm_settings b) = Mode_Forced then WriteSettings (real280 a) (b, c) else Some (b, c)) = Some (b, c2)"
      "naks_in (Suc 0) c2"
  proof (cases "se_mode (bm_settings b) = Mode_Forced")
    case True
    then show ?thesis using absent_settings [OF n4, where a = a and b = b] that by auto
  next
    case False
    then show ?thesis using naks_in_less [OF n4, of "Suc 0"] that by simp
  qed
  obtain c3 where "rg_read (real280 a) PRESS_ADDR junk8 0 8 c2 = Some (c3, junk8, False)"
    using absent_read [OF c2(2), where len = 8 and a = a and reg = PRESS_ADDR and data = "junk8" and off = 0] by auto
  then have "\<exists>st. bme_temp fl (real280 a) junk8 unit (b, c) = Some (st, None)"
    using c2 by (simp add: bme_temp_def ReadData_def)
  then show ?thesis using begin_fails by blast
qed

lemma absent_sensor_witness:
  "\<exists>st. bme_begin (i2c_registers real_wire 118) [96] (demo_bme, demo_i2c (concat (replicate 8 (replicate 4 (good_poll 0) @ [nak_poll])) @ [])) =
     Some (st, False)"
  using absent_sensor [of "demo_i2c (concat (replicate 8 (replicate 4 (good_poll 0) @ [nak_poll])) @ [])"
      "replicate 8 (replicate 4 (good_poll 0) @ [nak_poll])" "[]" 118 "[96]" demo_bme demo_floating "[]" TempUnit_Celsius]
    nak_naks [of 1000 0]
  by (simp add: demo_i2c_def list_all_iff)

section \<open>Settings\<close>

text \<open>The oversampling rates are ordered as their register values.\<close>

instantiation OSR :: linorder
begin

definition less_eq_OSR :: "OSR \<Rightarrow> OSR \<Rightarrow> bool" where
  "less_eq_OSR a b \<longleftrightarrow> osr_value a \<le> osr_value b"

definition less_OSR :: "OSR \<Rightarrow> OSR \<Rightarrow> bool" where
  "less_OSR a b \<longleftrightarrow> osr_value a < osr_value b"

instance
proof
  fix a b :: OSR
  show "a \<le> b \<Longrightarrow> b \<le> a \<Longrightarrow> a = b"
    by (cases a; cases b) (simp_all add: less_eq_OSR_def word_le_nat_alt)
qed (auto simp: less_eq_OSR_def less_OSR_def)

end

lemma osr_value_inject: "(osr_value a = osr_value b) = (a = b)"
  by (metis eq_iff less_eq_OSR_def)

lemma enum_inject:
  "(mode_value a = mode_value b) = (a = b)" "(standby_value c = standby_value d) = (c = d)"
  "(filter_value e = filter_value f) = (e = f)" "(spi_enable_value g = spi_enable_value h) = (g = h)"
proof -
  show "(mode_value a = mode_value b) = (a = b)" by (cases a; cases b) simp_all
  show "(standby_value c = standby_value d) = (c = d)" by (cases c; cases d) simp_all
  show "(filter_value e = filter_value f) = (e = f)" by (cases e; cases f) simp_all
  show "(spi_enable_value g = spi_enable_value h) = (g = h)" by (cases g; cases h) simp_all
qed

lemma ctrl_meas_fields:
  fixes t p :: OSR and m :: SensorMode
  defines "r \<equiv> push_bit 5 (osr_value t) OR push_bit 2 (osr_value p) OR mode_value m"
  shows "drop_bit 5 r = osr_value t \<and> drop_bit 2 r AND 7 = osr_value p \<and> r AND 3 = mode_value m"
  unfolding r_def by (cases t; cases p; cases m; simp)

lemma config_fields:
  fixes s :: StandbyTime and f :: Filter and e :: SpiEnable
  defines "r \<equiv> push_bit 5 (standby_value s) OR push_bit 2 (filter_value f) OR spi_enable_value e"
  shows "drop_bit 5 r = standby_value s \<and> drop_bit 2 r AND 7 = filter_value f \<and> r AND 1 = spi_enable_value e"
  unfolding r_def by (cases s; cases f; cases e; simp)

text \<open>
  The three control registers hold all settings, each in the bits the data sheet names, and no two settings are written alike.
\<close>

theorem settings_roundtrip:
  "(case CalculateRegisters s of (hum, meas, config) \<Rightarrow>
      hum = osr_value (se_humOSR s) \<and>
      drop_bit 5 meas = osr_value (se_tempOSR s) \<and> drop_bit 2 meas AND 7 = osr_value (se_presOSR s) \<and> meas AND 3 = mode_value (se_mode s) \<and>
      drop_bit 5 config = standby_value (se_standbyTime s) \<and> drop_bit 2 config AND 7 = filter_value (se_filter s) \<and>
      config AND 1 = spi_enable_value (se_spiEnable s)) \<and>
   (CalculateRegisters s = CalculateRegisters s' \<longleftrightarrow> s = s')" for s s' :: BmeSettings
proof -
  have f: "case CalculateRegisters s of (hum, meas, config) \<Rightarrow>
      hum = osr_value (se_humOSR s) \<and>
      drop_bit 5 meas = osr_value (se_tempOSR s) \<and> drop_bit 2 meas AND 7 = osr_value (se_presOSR s) \<and> meas AND 3 = mode_value (se_mode s) \<and>
      drop_bit 5 config = standby_value (se_standbyTime s) \<and> drop_bit 2 config AND 7 = filter_value (se_filter s) \<and>
      config AND 1 = spi_enable_value (se_spiEnable s)" for s :: BmeSettings
    using ctrl_meas_fields [of "se_tempOSR s" "se_presOSR s" "se_mode s"] config_fields [of "se_standbyTime s" "se_filter s" "se_spiEnable s"]
    by (simp add: CalculateRegisters_def)
  moreover have "s = s'" if "CalculateRegisters s = CalculateRegisters s'"
  proof (rule BmeSettings.equality)
    obtain h m c where r: "CalculateRegisters s = (h, m, c)" by (metis prod_cases3)
    then have "CalculateRegisters s' = (h, m, c)" using that by simp
    then show "se_tempOSR s = se_tempOSR s'" "se_humOSR s = se_humOSR s'" "se_presOSR s = se_presOSR s'" "se_mode s = se_mode s'"
      "se_standbyTime s = se_standbyTime s'" "se_filter s = se_filter s'" "se_spiEnable s = se_spiEnable s'"
      using f [of s] f [of s'] r by (auto simp: osr_value_inject enum_inject dest!: sym [of _ "osr_value _"])
  qed simp
  ultimately show ?thesis by auto
qed

end
