(* ===== verification/NanoFloat.thy ===== *)
theory NanoFloat
  imports Bme280 "HOL-Library.State_Monad"
begin

text \<open>
  The floating-point library (\<^verbatim>\<open>lib/nano-float/src/functions.c\<close>): the helpers of the compiler's run-time ABI and the functions of
  \<^verbatim>\<open>math.h\<close>, written over qfplib, which is not part of the sources and a parameter \<open>Qfp\<close>, as are the conversions and constants
  of C. Every call counts itself in \<^verbatim>\<open>float_usage\<close>, the state of the monad.
\<close>

section \<open>Parameters and state\<close>

text \<open>
  One type stands for \<^verbatim>\<open>double\<close> and \<^verbatim>\<open>float\<close>: a \<open>qfp\<close> operation includes the conversion of its arguments to \<^verbatim>\<open>float\<close>.
\<close>

record 'f Qfp =
  qfp_fadd :: "'f \<Rightarrow> 'f \<Rightarrow> 'f"
  qfp_fsub :: "'f \<Rightarrow> 'f \<Rightarrow> 'f"
  qfp_fmul :: "'f \<Rightarrow> 'f \<Rightarrow> 'f"
  qfp_fdiv_fast :: "'f \<Rightarrow> 'f \<Rightarrow> 'f"
  qfp_fcmp :: "'f \<Rightarrow> 'f \<Rightarrow> int"
  qfp_float2int :: "'f \<Rightarrow> int"
  qfp_float2uint :: "'f \<Rightarrow> int"
  qfp_fsqrt_fast :: "'f \<Rightarrow> 'f"
  qfp_fln :: "'f \<Rightarrow> 'f"
  qfp_fexp :: "'f \<Rightarrow> 'f"
  qfp_fsin :: "'f \<Rightarrow> 'f"
  qfp_fcos :: "'f \<Rightarrow> 'f"
  qfp_ftan :: "'f \<Rightarrow> 'f"
  qfp_fatan2 :: "'f \<Rightarrow> 'f \<Rightarrow> 'f"
  cf_int :: "int \<Rightarrow> 'f"       \<comment> \<open>conversion of an integer\<close>
  cf_neg :: "'f \<Rightarrow> 'f"
  cf_isnan :: "'f \<Rightarrow> bool"
  cf_isinf :: "'f \<Rightarrow> bool"
  NAN_f :: 'f
  INFINITY_f :: 'f
  half_f :: 'f              \<comment> \<open>\<^verbatim>\<open>0.5f\<close>\<close>
  M_PI_2_f :: 'f
  M_PI_f :: 'f              \<comment> \<open>the constant expression \<^verbatim>\<open>M_PI_2 * 2.0\<close>\<close>
  M_LN2_f :: 'f
  inv_LN2_f :: 'f           \<comment> \<open>\<^verbatim>\<open>1.0 / _M_LN2\<close>\<close>
  inv_LN10_f :: 'f          \<comment> \<open>\<^verbatim>\<open>1.0 / M_LN10\<close>\<close>

datatype float_usage_index = AEABI_DDIV | AEABI_DMUL | AEABI_DADD | AEABI_DSUB | AEABI_DCMPEQ | AEABI_DCMPLT | AEABI_DCMPLE
  | AEABI_DCMPGE | AEABI_DCMPGT | AEABI_DCMPUN | AEABI_FDIV | AEABI_FADD | AEABI_FSUB | AEABI_FMUL | AEABI_D2IZ | AEABI_D2UIZ
  | ADDSF3 | SUBSF3 | MULSF3 | DIVSF3 | SQRT | LOG | EXP | LOG2 | LOG10 | POW | LDEXP | SIN | COS | TAN | ATAN2 | ATAN | ASIN
  | ACOS | SINH | COSH | TANH | ASINH | ACOSH | ATANH | TRUNC | FLOOR | CEIL | FMOD | FABS

type_synonym Usage = "float_usage_index \<Rightarrow> u8"

type_synonym 'r nano = "(Usage, 'r) state"

definition used :: "float_usage_index \<Rightarrow> unit nano" where
  "used i = State_Monad.update (\<lambda>u. u(i := u i + 1))"

text \<open>A function that counts its call and returns a value.\<close>

definition counted :: "float_usage_index \<Rightarrow> 'r \<Rightarrow> 'r nano" where
  "counted i r = do { used i; State_Monad.return r }"

section \<open>The run-time ABI\<close>

definition aeabi_ddiv :: "'f Qfp \<Rightarrow> 'f \<Rightarrow> 'f \<Rightarrow> 'f nano" where "aeabi_ddiv q n d = counted AEABI_DDIV (qfp_fdiv_fast q n d)"
definition aeabi_dmul :: "'f Qfp \<Rightarrow> 'f \<Rightarrow> 'f \<Rightarrow> 'f nano" where "aeabi_dmul q x y = counted AEABI_DMUL (qfp_fmul q x y)"
definition aeabi_dadd :: "'f Qfp \<Rightarrow> 'f \<Rightarrow> 'f \<Rightarrow> 'f nano" where "aeabi_dadd q a b = counted AEABI_DADD (qfp_fadd q a b)"
definition aeabi_dsub :: "'f Qfp \<Rightarrow> 'f \<Rightarrow> 'f \<Rightarrow> 'f nano" where "aeabi_dsub q a b = counted AEABI_DSUB (qfp_fsub q a b)"

definition aeabi_dcmpeq :: "'f Qfp \<Rightarrow> 'f \<Rightarrow> 'f \<Rightarrow> int nano" where
  "aeabi_dcmpeq q x y = counted AEABI_DCMPEQ (if qfp_fcmp q x y = 0 then 1 else 0)"

definition aeabi_dcmplt :: "'f Qfp \<Rightarrow> 'f \<Rightarrow> 'f \<Rightarrow> int nano" where
  "aeabi_dcmplt q x y = counted AEABI_DCMPLT (if qfp_fcmp q x y < 0 then 1 else 0)"

definition aeabi_dcmple :: "'f Qfp \<Rightarrow> 'f \<Rightarrow> 'f \<Rightarrow> int nano" where
  "aeabi_dcmple q x y = counted AEABI_DCMPLE (if qfp_fcmp q x y > 0 then 0 else 1)"

definition aeabi_dcmpge :: "'f Qfp \<Rightarrow> 'f \<Rightarrow> 'f \<Rightarrow> int nano" where
  "aeabi_dcmpge q x y = counted AEABI_DCMPGE (if qfp_fcmp q x y < 0 then 0 else 1)"

definition aeabi_dcmpgt :: "'f Qfp \<Rightarrow> 'f \<Rightarrow> 'f \<Rightarrow> int nano" where
  "aeabi_dcmpgt q x y = counted AEABI_DCMPGT (if qfp_fcmp q x y > 0 then 1 else 0)"

definition aeabi_dcmpun :: "'f Qfp \<Rightarrow> 'f \<Rightarrow> 'f \<Rightarrow> int nano" where
  "aeabi_dcmpun q x y = counted AEABI_DCMPUN (if qfp_fcmp q x y = 0 then 0 else 1)"

definition aeabi_fdiv :: "'f Qfp \<Rightarrow> 'f \<Rightarrow> 'f \<Rightarrow> 'f nano" where "aeabi_fdiv q n d = counted AEABI_FDIV (qfp_fdiv_fast q n d)"
definition aeabi_fadd :: "'f Qfp \<Rightarrow> 'f \<Rightarrow> 'f \<Rightarrow> 'f nano" where "aeabi_fadd q a b = counted AEABI_FADD (qfp_fadd q a b)"
definition aeabi_fsub :: "'f Qfp \<Rightarrow> 'f \<Rightarrow> 'f \<Rightarrow> 'f nano" where "aeabi_fsub q a b = counted AEABI_FSUB (qfp_fsub q a b)"
definition aeabi_fmul :: "'f Qfp \<Rightarrow> 'f \<Rightarrow> 'f \<Rightarrow> 'f nano" where "aeabi_fmul q a b = counted AEABI_FMUL (qfp_fmul q a b)"

definition aeabi_d2iz :: "'f Qfp \<Rightarrow> 'f \<Rightarrow> int nano" where
  "aeabi_d2iz q x = do {
     used AEABI_D2IZ;
     State_Monad.return
       (if qfp_fcmp q x (cf_int q 0) = 0 then 0
        else let xfloored = qfp_float2int q x in if xfloored < 0 then xfloored + 1 else xfloored)
   }"

definition aeabi_d2uiz :: "'f Qfp \<Rightarrow> 'f \<Rightarrow> int nano" where
  "aeabi_d2uiz q x = do {
     used AEABI_D2UIZ;
     State_Monad.return
       (if qfp_fcmp q x (cf_int q 0) = 0 then 0 else if qfp_fcmp q x (cf_int q 0) < 0 then 0 else qfp_float2uint q x)
   }"

definition addsf3 :: "'f Qfp \<Rightarrow> 'f \<Rightarrow> 'f \<Rightarrow> 'f nano" where "addsf3 q a b = counted ADDSF3 (qfp_fadd q a b)"
definition subsf3 :: "'f Qfp \<Rightarrow> 'f \<Rightarrow> 'f \<Rightarrow> 'f nano" where "subsf3 q a b = counted SUBSF3 (qfp_fsub q a b)"
definition mulsf3 :: "'f Qfp \<Rightarrow> 'f \<Rightarrow> 'f \<Rightarrow> 'f nano" where "mulsf3 q a b = counted MULSF3 (qfp_fmul q a b)"
definition divsf3 :: "'f Qfp \<Rightarrow> 'f \<Rightarrow> 'f \<Rightarrow> 'f nano" where "divsf3 q a b = counted DIVSF3 (qfp_fdiv_fast q a b)"

section \<open>Exponentials and trigonometry\<close>

definition sqrt_nf :: "'f Qfp \<Rightarrow> 'f \<Rightarrow> 'f nano" where "sqrt_nf q x = counted SQRT (qfp_fsqrt_fast q x)"
definition log_nf :: "'f Qfp \<Rightarrow> 'f \<Rightarrow> 'f nano" where "log_nf q x = counted LOG (qfp_fln q x)"
definition exp_nf :: "'f Qfp \<Rightarrow> 'f \<Rightarrow> 'f nano" where "exp_nf q x = counted EXP (qfp_fexp q x)"
definition log2_nf :: "'f Qfp \<Rightarrow> 'f \<Rightarrow> 'f nano" where "log2_nf q x = counted LOG2 (qfp_fmul q (qfp_fln q x) (inv_LN2_f q))"
definition log10_nf :: "'f Qfp \<Rightarrow> 'f \<Rightarrow> 'f nano" where "log10_nf q x = counted LOG10 (qfp_fmul q (qfp_fln q x) (inv_LN10_f q))"

definition pow_nf :: "'f Qfp \<Rightarrow> 'f \<Rightarrow> 'f \<Rightarrow> 'f nano" where
  "pow_nf q b x = do {
     used POW;
     State_Monad.return
       (if qfp_fcmp q b (cf_int q 0) < 0 \<and> qfp_fcmp q x (cf_int q 0) < 0 \<and> qfp_float2int q (cf_neg q x) smod 2 = 1
        then cf_neg q (qfp_fexp q (qfp_fmul q (qfp_fln q (cf_neg q b)) x))
        else qfp_fexp q (qfp_fmul q (qfp_fln q b) x))
   }"

definition ldexp_nf :: "'f Qfp \<Rightarrow> 'f \<Rightarrow> int \<Rightarrow> 'f nano" where
  "ldexp_nf q x ex = counted LDEXP (qfp_fmul q x (qfp_fexp q (qfp_fmul q (M_LN2_f q) (cf_int q ex))))"

definition sin_nf :: "'f Qfp \<Rightarrow> 'f \<Rightarrow> 'f nano" where "sin_nf q x = counted SIN (qfp_fsin q x)"

definition cos_nf :: "'f Qfp \<Rightarrow> 'f \<Rightarrow> 'f nano" where
  "cos_nf q x = counted COS (if qfp_fcmp q x (M_PI_2_f q) = 0 then cf_int q 0 else qfp_fcos q x)"

definition tan_nf :: "'f Qfp \<Rightarrow> 'f \<Rightarrow> 'f nano" where "tan_nf q x = counted TAN (qfp_ftan q x)"

definition atan2_nf :: "'f Qfp \<Rightarrow> 'f \<Rightarrow> 'f \<Rightarrow> 'f nano" where
  "atan2_nf q y x = counted ATAN2
     (if qfp_fcmp q y (cf_int q 0) = 0 \<and> qfp_fcmp q x (cf_int q 0) = 0 then cf_int q 0 else qfp_fatan2 q y x)"

definition atan_nf :: "'f Qfp \<Rightarrow> 'f \<Rightarrow> 'f nano" where
  "atan_nf q x = do {
     used ATAN;
     if cf_isnan q x then State_Monad.return (NAN_f q)
     else if qfp_fcmp q x (cf_int q 0) = 0 then State_Monad.return x
     else if cf_isinf q x \<and> qfp_fcmp q x (cf_int q 0) > 0 then State_Monad.return (M_PI_2_f q)
     else if cf_isinf q x \<and> qfp_fcmp q x (cf_int q 0) < 0 then State_Monad.return (M_PI_2_f q)
     else atan2_nf q x (cf_int q 1)
   }"

definition asin_nf :: "'f Qfp \<Rightarrow> 'f \<Rightarrow> 'f nano" where
  "asin_nf q x = do {
     used ASIN;
     if cf_isnan q x then State_Monad.return (NAN_f q)
     else if qfp_fcmp q x (cf_int q 0) = 0 then State_Monad.return x
     else if qfp_fcmp q x (cf_int q 1) > 0 then State_Monad.return (NAN_f q)
     else if qfp_fcmp q x (cf_int q (- 1)) < 0 then State_Monad.return (NAN_f q)
     else atan2_nf q x (qfp_fsqrt_fast q (qfp_fsub q (cf_int q 1) (qfp_fmul q x x)))
   }"

definition acos_nf :: "'f Qfp \<Rightarrow> 'f \<Rightarrow> 'f nano" where
  "acos_nf q x = do {
     used ACOS;
     if cf_isnan q x then State_Monad.return (NAN_f q)
     else if qfp_fcmp q x (cf_int q 1) = 0 then State_Monad.return (cf_int q 0)
     else if qfp_fcmp q x (cf_int q 1) > 0 then State_Monad.return (NAN_f q)
     else if qfp_fcmp q x (cf_int q (- 1)) < 0 then State_Monad.return (NAN_f q)
     else if qfp_fcmp q x (cf_int q (- 1)) = 0 then State_Monad.return (M_PI_f q)
     else do {
       a \<leftarrow> atan2_nf q (qfp_fsqrt_fast q (qfp_fsub q (cf_int q 1) (qfp_fmul q x x))) (qfp_fadd q (cf_int q 1) x);
       State_Monad.return (qfp_fmul q (cf_int q 2) a)
     }
   }"

section \<open>Hyperbolic functions\<close>

definition sinh_nf :: "'f Qfp \<Rightarrow> 'f \<Rightarrow> 'f nano" where
  "sinh_nf q x = counted SINH
     (if cf_isnan q x then NAN_f q
      else if qfp_fcmp q x (cf_int q 0) = 0 then x
      else if cf_isinf q x then x
      else qfp_fmul q (half_f q) (qfp_fsub q (qfp_fexp q x) (qfp_fexp q (cf_neg q x))))"

definition cosh_nf :: "'f Qfp \<Rightarrow> 'f \<Rightarrow> 'f nano" where
  "cosh_nf q x = counted COSH
     (if cf_isnan q x then NAN_f q
      else if qfp_fcmp q x (cf_int q 0) = 0 then cf_int q 1
      else if cf_isinf q x then x
      else qfp_fmul q (half_f q) (qfp_fadd q (qfp_fexp q x) (qfp_fexp q (cf_neg q x))))"

definition tanh_nf :: "'f Qfp \<Rightarrow> 'f \<Rightarrow> 'f nano" where
  "tanh_nf q x = counted TANH
     (if cf_isnan q x then NAN_f q
      else if qfp_fcmp q x (cf_int q 0) = 0 then x
      else if cf_isinf q x then cf_int q 1
      else let e2x = qfp_fexp q (qfp_fmul q (cf_int q 2) x)
           in qfp_fdiv_fast q (qfp_fsub q e2x (cf_int q 1)) (qfp_fadd q e2x (cf_int q 1)))"

definition asinh_nf :: "'f Qfp \<Rightarrow> 'f \<Rightarrow> 'f nano" where
  "asinh_nf q x = counted ASINH
     (if cf_isnan q x then NAN_f q
      else if qfp_fcmp q x (cf_int q 0) = 0 then x
      else if cf_isinf q x then x
      else qfp_fln q (qfp_fadd q x (qfp_fsqrt_fast q (qfp_fadd q (qfp_fmul q x x) (cf_int q 1)))))"

definition acosh_nf :: "'f Qfp \<Rightarrow> 'f \<Rightarrow> 'f nano" where
  "acosh_nf q x = counted ACOSH
     (if cf_isnan q x then NAN_f q
      else if qfp_fcmp q x (cf_int q 1) < 0 then NAN_f q
      else if qfp_fcmp q x (cf_int q 1) = 0 then cf_int q 0
      else if cf_isinf q x then x
      else qfp_fln q (qfp_fadd q x (qfp_fsqrt_fast q (qfp_fsub q (qfp_fmul q x x) (cf_int q 1)))))"

definition atanh_nf :: "'f Qfp \<Rightarrow> 'f \<Rightarrow> 'f nano" where
  "atanh_nf q x = counted ATANH
     (if cf_isnan q x then NAN_f q
      else if qfp_fcmp q x (cf_int q 0) = 0 then x
      else if qfp_fcmp q x (cf_int q 1) = 0 then INFINITY_f q
      else if qfp_fcmp q x (cf_int q (- 1)) = 0 then cf_neg q (INFINITY_f q)
      else if qfp_fcmp q x (cf_int q 1) > 0 then NAN_f q
      else if qfp_fcmp q x (cf_int q (- 1)) < 0 then NAN_f q
      else qfp_fmul q (half_f q) (qfp_fln q (qfp_fdiv_fast q (qfp_fadd q (cf_int q 1) x) (qfp_fsub q (cf_int q 1) x))))"

section \<open>Integer parts\<close>

definition trunc_nf :: "'f Qfp \<Rightarrow> 'f \<Rightarrow> 'f nano" where
  "trunc_nf q x = counted TRUNC
     (if cf_isnan q x then NAN_f q
      else if cf_isinf q x then x
      else if qfp_fcmp q x (cf_int q 0) = 0 then x
      else let floored = qfp_float2int q x in cf_int q (if floored < 0 then floored + 1 else floored))"

definition floor_nf :: "'f Qfp \<Rightarrow> 'f \<Rightarrow> 'f nano" where
  "floor_nf q x = counted FLOOR
     (if cf_isnan q x then NAN_f q
      else if cf_isinf q x then x
      else if qfp_fcmp q x (cf_int q 0) = 0 then x
      else cf_int q (qfp_float2int q x))"

definition ceil_nf :: "'f Qfp \<Rightarrow> 'f \<Rightarrow> 'f nano" where
  "ceil_nf q x = counted CEIL
     (if cf_isnan q x then NAN_f q
      else if cf_isinf q x then x
      else if qfp_fcmp q x (cf_int q 0) = 0 then x
      else cf_int q (qfp_float2int q x + 1))"

definition fabs_nf :: "'f Qfp \<Rightarrow> 'f \<Rightarrow> 'f nano" where
  "fabs_nf q x = counted FABS
     (if cf_isnan q x \<or> cf_isinf q x \<or> qfp_fcmp q x (cf_int q 0) = 0 then x
      else if qfp_fcmp q x (cf_int q 0) < 0 then cf_neg q x else x)"

definition fmod_nf :: "'f Qfp \<Rightarrow> 'f \<Rightarrow> 'f \<Rightarrow> 'f nano" where
  "fmod_nf q x y = do {
     used FMOD;
     if cf_isnan q x \<or> cf_isnan q y then State_Monad.return (NAN_f q)
     else if qfp_fcmp q x (cf_int q 0) = 0 \<and> qfp_fcmp q y (cf_int q 0) \<noteq> 0 then State_Monad.return (cf_int q 0)
     else if cf_isinf q x \<and> \<not> cf_isnan q y then State_Monad.return (NAN_f q)
     else if qfp_fcmp q y (cf_int q 0) = 0 \<and> \<not> cf_isnan q x then State_Monad.return (NAN_f q)
     else if cf_isinf q y \<and> \<not> cf_isinf q x then State_Monad.return x
     else do {
       xabs \<leftarrow> fabs_nf q x;
       yabs \<leftarrow> fabs_nf q y;
       n \<leftarrow> trunc_nf q (qfp_fdiv_fast q xabs yabs);
       let r = qfp_fsub q xabs (qfp_fmul q n yabs);
       let r = (if qfp_fcmp q r (cf_int q 0) < 0 then qfp_fadd q r yabs else r);
       State_Monad.return (if qfp_fcmp q x (cf_int q 0) < 0 then cf_neg q r else r)
     }
   }"

end
