(* ===== verification/NanoLaws.thy ===== *)
theory NanoLaws
  imports NanoFloat Complex_Main
begin

text \<open>
  The integer parts, the remainder and the domains of the floating-point library, over any qfplib that compares and rounds down as
  its documentation says. \<open>val\<close> is the real number a finite value stands for.
\<close>

section \<open>What qfplib promises\<close>

definition result :: "'r nano \<Rightarrow> Usage \<Rightarrow> 'r" where
  "result m u = fst (run_state m u)"

definition finite_f :: "'f Qfp \<Rightarrow> 'f \<Rightarrow> bool" where
  "finite_f q x \<longleftrightarrow> \<not> cf_isnan q x \<and> \<not> cf_isinf q x"

abbreviation MAX_EXACT :: int where "MAX_EXACT \<equiv> 2 ^ 24"

text \<open>Comparisons, the conversion of small integers, and \<^verbatim>\<open>qfp_float2int\<close>, which \<^verbatim>\<open>works like floor()\<close>.\<close>

definition documented :: "'f Qfp \<Rightarrow> ('f \<Rightarrow> real) \<Rightarrow> bool" where
  "documented q val \<longleftrightarrow>
     (\<forall>x y. finite_f q x \<longrightarrow> finite_f q y \<longrightarrow> qfp_fcmp q x y = (if val x = val y then 0 else if val x > val y then 1 else - 1)) \<and>
     (\<forall>n. \<bar>n\<bar> \<le> MAX_EXACT \<longrightarrow> finite_f q (cf_int q n) \<and> val (cf_int q n) = of_int n) \<and>
     (\<forall>x. finite_f q x \<longrightarrow> qfp_float2int q x = \<lfloor>val x\<rfloor>)"

text \<open>Arithmetic without rounding errors.\<close>

definition exact_arith :: "'f Qfp \<Rightarrow> ('f \<Rightarrow> real) \<Rightarrow> bool" where
  "exact_arith q val \<longleftrightarrow>
     (\<forall>x y. finite_f q x \<longrightarrow> finite_f q y \<longrightarrow>
        finite_f q (qfp_fadd q x y) \<and> val (qfp_fadd q x y) = val x + val y \<and>
        finite_f q (qfp_fsub q x y) \<and> val (qfp_fsub q x y) = val x - val y \<and>
        finite_f q (qfp_fmul q x y) \<and> val (qfp_fmul q x y) = val x * val y \<and>
        (val y \<noteq> 0 \<longrightarrow> finite_f q (qfp_fdiv_fast q x y) \<and> val (qfp_fdiv_fast q x y) = val x / val y)) \<and>
     (\<forall>x. finite_f q x \<longrightarrow> finite_f q (cf_neg q x) \<and> val (cf_neg q x) = - val x)"

lemma run_counted [simp]: "run_state (counted i r) u = (r, u(i := u i + 1))"
  by (simp add: counted_def used_def State_Monad.update_def)

lemma run_used [simp]: "run_state (used i) u = ((), u(i := u i + 1))"
  by (simp add: used_def State_Monad.update_def)

lemma documented_cmp:
  "documented q val \<Longrightarrow> finite_f q x \<Longrightarrow> finite_f q y \<Longrightarrow> qfp_fcmp q x y = (if val x = val y then 0 else if val x > val y then 1 else - 1)"
  by (simp add: documented_def)

lemma documented_int: "documented q val \<Longrightarrow> \<bar>n\<bar> \<le> MAX_EXACT \<Longrightarrow> finite_f q (cf_int q n) \<and> val (cf_int q n) = of_int n"
  unfolding documented_def by blast

lemma documented_floor: "documented q val \<Longrightarrow> finite_f q x \<Longrightarrow> qfp_float2int q x = \<lfloor>val x\<rfloor>"
  by (simp add: documented_def)

lemma documented_cmp_int:
  "documented q val \<Longrightarrow> finite_f q x \<Longrightarrow> \<bar>n\<bar> \<le> MAX_EXACT \<Longrightarrow>
     qfp_fcmp q x (cf_int q n) = (if val x = of_int n then 0 else if val x > of_int n then 1 else - 1)"
  using documented_cmp [of q val x "cf_int q n"] documented_int [of q val n] by simp

section \<open>Integer parts\<close>

text \<open>Rounding towards zero.\<close>

definition truncated :: "real \<Rightarrow> int" where
  "truncated r = (if r < 0 then \<lceil>r\<rceil> else \<lfloor>r\<rfloor>)"

lemma trunc_value:
  assumes "documented q val" "finite_f q x" "\<bar>val x\<bar> < of_int MAX_EXACT"
  shows "val (result (trunc_nf q x) u) = of_int (if val x < 0 then \<lfloor>val x\<rfloor> + 1 else \<lfloor>val x\<rfloor>)"
    and "finite_f q (result (trunc_nf q x) u)"
proof -
  have f: "\<bar>\<lfloor>val x\<rfloor>\<bar> \<le> MAX_EXACT" "\<bar>\<lfloor>val x\<rfloor> + 1\<bar> \<le> MAX_EXACT" using assms(3) by linarith+
  have c: "(\<lfloor>val x\<rfloor> < 0) = (val x < 0)" by simp
  show "val (result (trunc_nf q x) u) = of_int (if val x < 0 then \<lfloor>val x\<rfloor> + 1 else \<lfloor>val x\<rfloor>)"
    "finite_f q (result (trunc_nf q x) u)"
    using assms(2) documented_cmp_int [OF assms(1,2), of 0] documented_floor [OF assms(1,2)]
      documented_int [OF assms(1) f(1)] documented_int [OF assms(1) f(2)] c
    by (auto simp: trunc_nf_def result_def Let_def finite_f_def)
qed


section \<open>Remainder\<close>

lemma fabs_value:
  assumes "documented q val" "exact_arith q val" "finite_f q x"
  shows "\<exists>r. fabs_nf q x = counted FABS r \<and> finite_f q r \<and> val r = \<bar>val x\<bar>"
proof -
  have c: "qfp_fcmp q x (cf_int q 0) = (if val x = 0 then 0 else if val x > 0 then 1 else - 1)"
    using documented_cmp_int [OF assms(1,3), of 0] by simp
  have n: "finite_f q (cf_neg q x)" "val (cf_neg q x) = - val x" using assms(2,3) by (auto simp: exact_arith_def)
  show ?thesis using assms(3) c n by (auto simp: fabs_nf_def finite_f_def)
qed

lemma trunc_nonneg:
  assumes "documented q val" "finite_f q x" "\<bar>val x\<bar> < of_int MAX_EXACT" "0 \<le> val x"
  shows "\<exists>r. trunc_nf q x = counted TRUNC r \<and> finite_f q r \<and> val r = of_int \<lfloor>val x\<rfloor>"
proof -
  define r where "r = (if cf_isnan q x then NAN_f q else if cf_isinf q x then x else if qfp_fcmp q x (cf_int q 0) = 0 then x
      else let floored = qfp_float2int q x in cf_int q (if floored < 0 then floored + 1 else floored))"
  have "trunc_nf q x = counted TRUNC r" by (simp add: trunc_nf_def r_def)
  moreover from this have "val r = of_int \<lfloor>val x\<rfloor>" "finite_f q r"
    using trunc_value [OF assms(1-3)] assms(4) by (auto simp: result_def)
  ultimately show ?thesis by blast
qed

lemma fraction_bounds:
  assumes "0 < (b :: real)"
  shows "0 \<le> a - of_int \<lfloor>a / b\<rfloor> * b" "a - of_int \<lfloor>a / b\<rfloor> * b < b"
proof -
  have "of_int \<lfloor>a / b\<rfloor> \<le> a / b" "a / b < of_int \<lfloor>a / b\<rfloor> + 1" by linarith+
  then have "of_int \<lfloor>a / b\<rfloor> * b \<le> a" "a < (of_int \<lfloor>a / b\<rfloor> + 1) * b"
    using pos_le_divide_eq [OF assms] pos_divide_less_eq [OF assms] by blast+
  then show "0 \<le> a - of_int \<lfloor>a / b\<rfloor> * b" "a - of_int \<lfloor>a / b\<rfloor> * b < b"
    by (simp_all add: algebra_simps)
qed

lemma truncated_abs:
  assumes "b \<noteq> (0 :: real)"
  shows "a - of_int (truncated (a / b)) * b =
    (if a < 0 then - (\<bar>a\<bar> - of_int \<lfloor>\<bar>a\<bar> / \<bar>b\<bar>\<rfloor> * \<bar>b\<bar>) else \<bar>a\<bar> - of_int \<lfloor>\<bar>a\<bar> / \<bar>b\<bar>\<rfloor> * \<bar>b\<bar>)"
  using assms
  by (cases "a = 0"; cases "a < 0"; cases "b < 0")
    (auto simp: truncated_def divide_less_0_iff ceiling_def)

text \<open>
  Without rounding errors \<^verbatim>\<open>fmod(x, y)\<close> is what is left of the first number after the whole multiples of the second, with the sign
  of the first, and smaller than the second.
\<close>

theorem fmod_exact:
  assumes "documented q val" "exact_arith q val" "finite_f q x" "finite_f q y" "val y \<noteq> 0" "\<bar>val x / val y\<bar> < of_int MAX_EXACT"
  shows "val (result (fmod_nf q x y) u) = val x - of_int (truncated (val x / val y)) * val y \<and>
    \<bar>val (result (fmod_nf q x y) u)\<bar> < \<bar>val y\<bar> \<and> 0 \<le> val (result (fmod_nf q x y) u) * val x"
proof -
  let ?a = "\<bar>val x\<bar>" and ?b = "\<bar>val y\<bar>"
  let ?r = "?a - of_int \<lfloor>?a / ?b\<rfloor> * ?b"
  have zero: "\<bar>0 :: int\<bar> \<le> MAX_EXACT" by simp
  note cx = documented_cmp_int [OF assms(1,3) zero] and cy = documented_cmp_int [OF assms(1,4) zero]
  have nx: "\<not> cf_isnan q x" "\<not> cf_isinf q x" "\<not> cf_isnan q y" "\<not> cf_isinf q y" using assms(3,4) by (auto simp: finite_f_def)
  have b: "0 < ?b" using assms(5) by simp
  note r = fraction_bounds [OF b, of ?a]
  obtain X where X: "fabs_nf q x = counted FABS X" "finite_f q X" "val X = ?a" using fabs_value [OF assms(1-3)] by auto
  obtain Y where Y: "fabs_nf q y = counted FABS Y" "finite_f q Y" "val Y = ?b" using fabs_value [OF assms(1,2,4)] by auto
  have D: "finite_f q (qfp_fdiv_fast q X Y)" "val (qfp_fdiv_fast q X Y) = ?a / ?b"
    using assms(2,5) X Y by (auto simp: exact_arith_def)
  then obtain N where N: "trunc_nf q (qfp_fdiv_fast q X Y) = counted TRUNC N" "finite_f q N" "val N = of_int \<lfloor>?a / ?b\<rfloor>"
    using trunc_nonneg [OF assms(1) D(1)] assms(6) by auto
  let ?R = "qfp_fsub q X (qfp_fmul q N Y)"
  have R: "finite_f q ?R" "val ?R = ?r" "finite_f q (cf_neg q ?R)" "val (cf_neg q ?R) = - ?r"
    using assms(2) X Y N by (auto simp: exact_arith_def)
  have rc: "\<not> qfp_fcmp q ?R (cf_int q 0) < 0"
    using documented_cmp_int [OF assms(1) R(1) zero] r(1) R(2) by simp
  have "val (result (fmod_nf q x y) u) = (if val x < 0 then - ?r else ?r)"
  proof (cases "val x = 0")
    case True
    then show ?thesis using cx cy nx assms(5) documented_int [OF assms(1) zero] by (simp add: fmod_nf_def result_def)
  next
    case False
    then show ?thesis using cx cy nx assms(5) X(1) Y(1) N(1) R rc by (simp add: fmod_nf_def result_def Let_def)
  qed
  then show ?thesis
    using truncated_abs [OF assms(5), of "val x"] r by (auto simp: mult_nonneg_nonpos2 mult_nonneg_nonneg zero_le_mult_iff)
qed

section \<open>Domains\<close>

text \<open>
  Outside of their domains the inverse functions return NAN: \<^verbatim>\<open>asin\<close> and \<^verbatim>\<open>acos\<close> above one, \<^verbatim>\<open>acosh\<close> below one, \<^verbatim>\<open>atanh\<close> above one, which
  at one returns infinity with the sign of its argument.
\<close>

theorem domain_errors:
  assumes "documented q val" "finite_f q x"
  shows "(\<bar>val x\<bar> > 1 \<longrightarrow> result (asin_nf q x) u = NAN_f q \<and> result (acos_nf q x) u = NAN_f q \<and> result (atanh_nf q x) u = NAN_f q) \<and>
    (val x < 1 \<longrightarrow> result (acosh_nf q x) u = NAN_f q) \<and>
    (val x = 1 \<longrightarrow> result (atanh_nf q x) u = INFINITY_f q \<and> result (acos_nf q x) u = cf_int q 0 \<and> result (acosh_nf q x) u = cf_int q 0) \<and>
    (val x = - 1 \<longrightarrow> result (atanh_nf q x) u = cf_neg q (INFINITY_f q) \<and> result (acos_nf q x) u = M_PI_f q)"
proof -
  have c: "qfp_fcmp q x (cf_int q 0) = (if val x = 0 then 0 else if val x > 0 then 1 else - 1)"
    "qfp_fcmp q x (cf_int q 1) = (if val x = 1 then 0 else if val x > 1 then 1 else - 1)"
    "qfp_fcmp q x (cf_int q (- 1)) = (if val x = - 1 then 0 else if val x > - 1 then 1 else - 1)"
    using documented_cmp_int [OF assms, of 0] documented_cmp_int [OF assms, of 1] documented_cmp_int [OF assms, of "- 1"] by simp_all
  have n: "\<not> cf_isnan q x" using assms(2) by (simp add: finite_f_def)
  show ?thesis
    using c n by (auto simp: asin_nf_def acos_nf_def atanh_nf_def acosh_nf_def result_def)
qed

section \<open>A qfplib without rounding\<close>

definition real_qfp :: "real Qfp" where
  "real_qfp = \<lparr>qfp_fadd = (+), qfp_fsub = (-), qfp_fmul = (*), qfp_fdiv_fast = (/),
     qfp_fcmp = (\<lambda>x y. if x = y then 0 else if x > y then 1 else - 1), qfp_float2int = floor, qfp_float2uint = floor,
     qfp_fsqrt_fast = sqrt, qfp_fln = ln, qfp_fexp = exp, qfp_fsin = sin, qfp_fcos = cos, qfp_ftan = tan,
     qfp_fatan2 = (\<lambda>y x. arctan (y / x)), cf_int = of_int, cf_neg = uminus, cf_isnan = (\<lambda>_. False), cf_isinf = (\<lambda>_. False),
     NAN_f = 0, INFINITY_f = 0, half_f = 1 / 2, M_PI_2_f = pi / 2, M_PI_f = pi, M_LN2_f = ln 2, inv_LN2_f = 1 / ln 2, inv_LN10_f = 1 / ln 10\<rparr>"

lemma real_documented: "documented real_qfp (\<lambda>x. x)" "exact_arith real_qfp (\<lambda>x. x)" "finite_f real_qfp x"
  by (simp_all add: documented_def exact_arith_def finite_f_def real_qfp_def)


lemma fmod_exact_witness: "result (fmod_nf real_qfp (- 7) 2) (\<lambda>_. 0) = - 1"
proof -
  have "truncated (- 7 / 2 :: real) = - 3" by (simp add: truncated_def)
  then show ?thesis using fmod_exact [OF real_documented real_documented(3), of 2 "- 7" "\<lambda>_. 0"] by simp
qed

lemma domain_errors_witness: "result (asin_nf real_qfp 2) (\<lambda>_. 0) = NAN_f real_qfp"
  using domain_errors [OF real_documented(1,3), of 2 "\<lambda>_. 0"] by simp

end
