(* ===== verification/Flash.thy ===== *)
theory Flash
  imports Prelude
begin

text \<open>
  The Baseloader (\<^verbatim>\<open>stm32/baseloader/baseloader.c\<close>): the routine that programs the flash ROM of the
  device, and the search for the Baseloader of a new image. The memory of the device is one
  function from addresses to bytes: RAM buffers and ROM pages are regions of it, so that a copy
  between them, an overlap or an overrun is what it is on the device.

  The flash controller is a parameter \<open>hw\<close>: the values its status registers return, one
  per read, and what a write to its key register, to a ROM address and to its start bit does.
  The constants are those of the source: ROM starts at \<^verbatim>\<open>0x08000000\<close>, holds
  \<^verbatim>\<open>FLASH_SIZE_OVERRIDE\<close> = 64 KB in pages of 1024 bytes.
\<close>

unbundle bit_operations_syntax

section \<open>Memory\<close>

type_synonym memory = "u32 \<Rightarrow> u8"

text \<open>\<open>memcpy m d s n\<close> is the memory after \<^verbatim>\<open>memcpy(d, s, n)\<close>, \<open>memset0 m d n\<close> after \<^verbatim>\<open>memset(d, 0, n)\<close>,
  and \<open>memcmp_eq m a b n\<close> is \<^verbatim>\<open>memcmp(a, b, n) == 0\<close>.\<close>

definition memcpy :: "memory \<Rightarrow> u32 \<Rightarrow> u32 \<Rightarrow> nat \<Rightarrow> memory" where
  "memcpy m d s n = (\<lambda>a. if unat (a - d) < n then m (s + (a - d)) else m a)"

definition memset0 :: "memory \<Rightarrow> u32 \<Rightarrow> nat \<Rightarrow> memory" where
  "memset0 m d n = (\<lambda>a. if unat (a - d) < n then 0 else m a)"

primrec memcmp_eq :: "memory \<Rightarrow> u32 \<Rightarrow> u32 \<Rightarrow> nat \<Rightarrow> bool" where
  "memcmp_eq m a b 0 = True"
| "memcmp_eq m a b (Suc n) = (m a = m b \<and> memcmp_eq m (a + 1) (b + 1) n)"

definition ld16 :: "memory \<Rightarrow> u32 \<Rightarrow> u16" where
  "ld16 m a = word_cat (m (a + 1)) (m a)"

definition ld32 :: "memory \<Rightarrow> u32 \<Rightarrow> u32" where
  "ld32 m a = word_cat (ld16 m (a + 2)) (ld16 m a)"

definition st16 :: "u32 \<Rightarrow> u16 \<Rightarrow> memory \<Rightarrow> memory" where
  "st16 a v m = m(a := ucast v, a + 1 := ucast (drop_bit 8 v))"

definition st32 :: "u32 \<Rightarrow> u32 \<Rightarrow> memory \<Rightarrow> memory" where
  "st32 a v m = st16 (a + 2) (ucast (drop_bit 16 v)) (st16 a (ucast v) m)"

definition FLASH_BASE :: u32 where
  "FLASH_BASE = 0x08000000"

definition FLASH_SIZE_OVERRIDE :: u32 where
  "FLASH_SIZE_OVERRIDE = 0x10000"

definition FLASH_PAGE_SIZE :: u32 where
  "FLASH_PAGE_SIZE = 1024"

definition FLASH_ADDRESS :: "u32 \<Rightarrow> u32" where
  "FLASH_ADDRESS x = x AND NOT (FLASH_PAGE_SIZE - 1)"

section \<open>The flash controller\<close>

text \<open>A control register: its programming, page erase and lock bits. The start bit is set by
  software and cleared by the hardware once the operation has ended.\<close>

record FlashCr =
  PG :: bool
  PER :: bool
  LOCK :: bool

text \<open>The parameter: the flash size the chip reports, the value of each successive read of the status
  registers of the two banks, and the effect of the two key writes on the lock, of a half-word
  written to a ROM address, and of setting the start bit with a page address selected.\<close>

record Fpec =
  DESIG_FLASH_SIZE :: u32
  FLASH_SR :: "nat \<Rightarrow> u32"
  FLASH_SR2 :: "nat \<Rightarrow> u32"
  unlock_keys :: "FlashCr \<Rightarrow> FlashCr"
  mmio16 :: "FlashCr \<Rightarrow> u32 \<Rightarrow> u16 \<Rightarrow> memory \<Rightarrow> memory"
  start_erase :: "FlashCr \<Rightarrow> u32 \<Rightarrow> memory \<Rightarrow> memory"

text \<open>
  The state: the memory, the parameters and results at their fixed address
  (\<^verbatim>\<open>base_para\<close>), the temporary variables at theirs (\<^verbatim>\<open>base_tmp\<close>; pointers are addresses), the two
  control registers, the number of status reads so far, whether interrupts are enabled,
  the vector table in use and whether the device was restarted.
\<close>

record base_para_t =
  mem :: memory
  para_dest :: u32
  para_src :: u32
  para_byte_count :: u32
  para_restart :: u32
  para_preview :: u32
  para_result :: int
  para_fail :: u32

record base_tmp_t = base_para_t +
  dest_hw :: u32
  src_hw :: u32
  half_word_count :: u32
  bytes_flashed :: int
  verified :: bool
  erase_start :: u32
  erase_end :: u32
  flash_end :: u32
  flags :: u32

record Dev = base_tmp_t +
  FLASH_CR :: FlashCr
  FLASH_CR2 :: FlashCr
  status_reads :: nat
  interrupts :: bool
  SCB_VTOR :: u32
  MSP :: u32
  restarted :: bool
  debug_base_result :: int

definition base_flash_unlock :: "Fpec \<Rightarrow> 'a Dev_scheme \<Rightarrow> 'a Dev_scheme" where
  "base_flash_unlock hw s = s\<lparr>FLASH_CR := unlock_keys hw (FLASH_CR s)\<rparr>"

definition base_flash_lock :: "'a Dev_scheme \<Rightarrow> 'a Dev_scheme" where
  "base_flash_lock s = s\<lparr>FLASH_CR := (FLASH_CR s)\<lparr>LOCK := True\<rparr>\<rparr>"

text \<open>The flags kept of a status register: bit 0 busy, bit 2 programming error, bit 4 write
  protect error, bit 5 end of operation.\<close>

definition base_flash_get_status_flags :: "Fpec \<Rightarrow> 'a Dev_scheme \<Rightarrow> 'a Dev_scheme" where
  "base_flash_get_status_flags hw s =
     (let f = FLASH_SR hw (status_reads s) AND 0x35;
          f = (if DESIG_FLASH_SIZE hw > 512 then f OR (FLASH_SR2 hw (status_reads s) AND 0x35) else f)
      in s\<lparr>flags := f, status_reads := Suc (status_reads s)\<rparr>)"

definition base_timeout :: u32 where
  "base_timeout = 0x100"

function busy_loop :: "Fpec \<Rightarrow> int \<Rightarrow> 'a Dev_scheme \<Rightarrow> 'a Dev_scheme" where
  "busy_loop hw error_result s =
     (if flags s AND 1 = 1 then
        (if para_fail s \<ge> base_timeout
         then s\<lparr>para_fail := para_fail s + 1, para_result := error_result\<rparr>
         else busy_loop hw error_result
                (base_flash_get_status_flags hw (s\<lparr>para_fail := para_fail s + 1, flags := 0\<rparr>)))
      else s)"
  by pat_completeness auto
termination
proof (relation "measure (\<lambda>(hw, e, s). 0x100 - unat (para_fail s))", goal_cases)
  case (2 hw e s)
  then have "unat (para_fail s) < 0x100"
    by (simp add: base_timeout_def word_le_nat_alt)
  moreover from this have "unat (para_fail s + 1) = unat (para_fail s) + 1"
    by (simp add: unat_word_ariths)
  ultimately show ?case by (simp add: base_flash_get_status_flags_def Let_def)
qed simp

declare busy_loop.simps [simp del]

definition base_flash_wait_for_last_operation :: "Fpec \<Rightarrow> int \<Rightarrow> 'a Dev_scheme \<Rightarrow> 'a Dev_scheme" where
  "base_flash_wait_for_last_operation hw error_result s =
     busy_loop hw error_result
       (base_flash_get_status_flags hw (s\<lparr>para_result := 0, para_fail := 0, flags := 0\<rparr>))"

text \<open>Which bank's control register an address belongs to.\<close>

definition bank2 :: "Fpec \<Rightarrow> u32 \<Rightarrow> bool" where
  "bank2 hw address \<longleftrightarrow> DESIG_FLASH_SIZE hw > 512 \<and> address \<ge> FLASH_BASE + 0x00080000"

definition cr_of :: "Fpec \<Rightarrow> u32 \<Rightarrow> 'a Dev_scheme \<Rightarrow> FlashCr" where
  "cr_of hw address s = (if bank2 hw address then FLASH_CR2 s else FLASH_CR s)"

definition set_cr :: "Fpec \<Rightarrow> u32 \<Rightarrow> (FlashCr \<Rightarrow> FlashCr) \<Rightarrow> 'a Dev_scheme \<Rightarrow> 'a Dev_scheme" where
  "set_cr hw address f s =
     (if bank2 hw address then s\<lparr>FLASH_CR2 := f (FLASH_CR2 s)\<rparr> else s\<lparr>FLASH_CR := f (FLASH_CR s)\<rparr>)"

definition base_flash_program_half_word :: "Fpec \<Rightarrow> u32 \<Rightarrow> u16 \<Rightarrow> 'a Dev_scheme \<Rightarrow> 'a Dev_scheme" where
  "base_flash_program_half_word hw address data s =
     (let s = base_flash_wait_for_last_operation hw (- 10) s
      in if para_result s = 0 then
           let s = set_cr hw address (PG_update (\<lambda>_. True)) s;
               s = s\<lparr>mem := mmio16 hw (cr_of hw address s) address data (mem s)\<rparr>;
               s = base_flash_wait_for_last_operation hw (- 11) s
           in if para_result s = 0 then set_cr hw address (PG_update (\<lambda>_. False)) s else s
         else s)"

definition base_flash_erase_page :: "Fpec \<Rightarrow> u32 \<Rightarrow> 'a Dev_scheme \<Rightarrow> 'a Dev_scheme" where
  "base_flash_erase_page hw page_address s =
     (let s = base_flash_wait_for_last_operation hw (- 12) s
      in if para_result s = 0 then
           let s = set_cr hw page_address (PER_update (\<lambda>_. True)) s;
               s = s\<lparr>mem := start_erase hw (cr_of hw page_address s) page_address (mem s)\<rparr>;
               s = base_flash_wait_for_last_operation hw (- 13) s
           in if para_result s = 0 then set_cr hw page_address (PER_update (\<lambda>_. False)) s else s
         else s)"

section \<open>baseloader\_start\<close>

text \<open>How a round of the copy loop ends: the next round, a \<^verbatim>\<open>break\<close>, or a \<^verbatim>\<open>return\<close> from the function.\<close>

datatype 'a Round = Next 'a | Break 'a | Return 'a

definition base_get_flash_page_address :: "u32 \<Rightarrow> u32" where
  "base_get_flash_page_address dest = (dest div FLASH_PAGE_SIZE) * FLASH_PAGE_SIZE"

definition erase_round :: "Fpec \<Rightarrow> 'a Dev_scheme \<Rightarrow> 'a Dev_scheme" where
  "erase_round hw s =
     (if dest_hw s \<ge> erase_end s \<or> dest_hw s < erase_start s then
        let p = base_get_flash_page_address (dest_hw s);
            s = s\<lparr>erase_start := p, erase_end := p + FLASH_PAGE_SIZE\<rparr>
        in if para_preview s = 0 then base_flash_erase_page hw p s else s
      else s)"

definition program_round :: "Fpec \<Rightarrow> 'a Dev_scheme \<Rightarrow> 'a Dev_scheme Round" where
  "program_round hw s =
     (let s = (if para_preview s = 0
               then base_flash_program_half_word hw (dest_hw s) (ld16 (mem s) (src_hw s)) s else s)
      in if para_preview s = 0 \<and> para_result s < 0 then Return s
         else
           let s = s\<lparr>erase_start := dest_hw s + 2\<rparr>
           in if para_preview s = 0 \<and> ld16 (mem s) (dest_hw s) \<noteq> ld16 (mem s) (src_hw s)
              then Break (s\<lparr>verified := False\<rparr>)
              else Next (s\<lparr>dest_hw := dest_hw s + 2, src_hw := src_hw s + 2,
                          half_word_count := half_word_count s - 1,
                          bytes_flashed := bytes_flashed s + 2\<rparr>))"

text \<open>A debugger watches \<^verbatim>\<open>debug_base_result\<close>.\<close>

definition watch_round :: "'a Dev_scheme \<Rightarrow> 'a Dev_scheme" where
  "watch_round s =
     (if para_preview s = 0 \<and> para_restart s \<noteq> 0 \<and> bytes_flashed s mod 100 = 0
      then s\<lparr>debug_base_result := bytes_flashed s\<rparr> else s)"

definition copy_round :: "Fpec \<Rightarrow> 'a Dev_scheme \<Rightarrow> 'a Dev_scheme Round" where
  "copy_round hw s =
     (let s = watch_round s
      in if dest_hw s \<ge> flash_end s then Break (s\<lparr>verified := False\<rparr>)
         else
           let erases = (dest_hw s \<ge> erase_end s \<or> dest_hw s < erase_start s);
               s = erase_round hw s
           in if erases \<and> para_preview s = 0 \<and> para_result s < 0 then Return s
              else program_round hw s)"

subsection \<open>What a wait leaves alone\<close>

named_theorems dev_simps \<open>which parts of the device an operation leaves unchanged\<close>

lemma busy_loop_frame:
  "\<exists>r f g n. busy_loop hw e s = s\<lparr>para_result := r, para_fail := f, flags := g, status_reads := n\<rparr>"
proof (induction hw e s rule: busy_loop.induct)
  case (1 hw e s)
  show ?case
  proof (cases "flags s AND 1 = 1 \<and> \<not> para_fail s \<ge> base_timeout")
    case True
    with 1 obtain r f g n where
      "busy_loop hw e (base_flash_get_status_flags hw (s\<lparr>para_fail := para_fail s + 1, flags := 0\<rparr>))
       = (base_flash_get_status_flags hw (s\<lparr>para_fail := para_fail s + 1, flags := 0\<rparr>))
           \<lparr>para_result := r, para_fail := f, flags := g, status_reads := n\<rparr>" by blast
    with True have "busy_loop hw e s
        = s\<lparr>para_result := r, para_fail := f, flags := g, status_reads := n\<rparr>"
      by (subst busy_loop.simps) (simp add: base_flash_get_status_flags_def Let_def)
    then show ?thesis by blast
  next
    case False
    then have "busy_loop hw e s = s \<or> busy_loop hw e s
        = s\<lparr>para_fail := para_fail s + 1, para_result := e\<rparr>"
      by (subst (1 2) busy_loop.simps) (simp split: if_splits)
    moreover have "s = s\<lparr>para_result := para_result s, para_fail := para_fail s, flags := flags s,
        status_reads := status_reads s\<rparr>" by simp
    moreover have "s\<lparr>para_fail := para_fail s + 1, para_result := e\<rparr> = s\<lparr>para_result := e,
        para_fail := para_fail s + 1, flags := flags s, status_reads := status_reads s\<rparr>" by simp
    ultimately show ?thesis by metis
  qed
qed

lemma wait_frame:
  "\<exists>r f g n. base_flash_wait_for_last_operation hw e s
     = s\<lparr>para_result := r, para_fail := f, flags := g, status_reads := n\<rparr>"
proof -
  let ?s = "base_flash_get_status_flags hw (s\<lparr>para_result := 0, para_fail := 0, flags := 0\<rparr>)"
  obtain r f g n where "busy_loop hw e ?s
      = ?s\<lparr>para_result := r, para_fail := f, flags := g, status_reads := n\<rparr>"
    using busy_loop_frame [of hw e ?s] by blast
  then show ?thesis
    by (auto simp: base_flash_wait_for_last_operation_def base_flash_get_status_flags_def Let_def)
qed

lemma wait_unchanged [dev_simps]:
  "mem (base_flash_wait_for_last_operation hw e s) = mem s"
  "FLASH_CR (base_flash_wait_for_last_operation hw e s) = FLASH_CR s"
  "FLASH_CR2 (base_flash_wait_for_last_operation hw e s) = FLASH_CR2 s"
  "half_word_count (base_flash_wait_for_last_operation hw e s) = half_word_count s"
  "dest_hw (base_flash_wait_for_last_operation hw e s) = dest_hw s"
  "src_hw (base_flash_wait_for_last_operation hw e s) = src_hw s"
  "bytes_flashed (base_flash_wait_for_last_operation hw e s) = bytes_flashed s"
  "verified (base_flash_wait_for_last_operation hw e s) = verified s"
  "erase_start (base_flash_wait_for_last_operation hw e s) = erase_start s"
  "erase_end (base_flash_wait_for_last_operation hw e s) = erase_end s"
  "flash_end (base_flash_wait_for_last_operation hw e s) = flash_end s"
  "para_preview (base_flash_wait_for_last_operation hw e s) = para_preview s"
  "para_restart (base_flash_wait_for_last_operation hw e s) = para_restart s"
  "para_dest (base_flash_wait_for_last_operation hw e s) = para_dest s"
  "para_src (base_flash_wait_for_last_operation hw e s) = para_src s"
  "para_byte_count (base_flash_wait_for_last_operation hw e s) = para_byte_count s"
  "restarted (base_flash_wait_for_last_operation hw e s) = restarted s"
  using wait_frame [of hw e s] by auto

lemma set_cr_unchanged [dev_simps]:
  "mem (set_cr hw a f s) = mem s"
  "half_word_count (set_cr hw a f s) = half_word_count s"
  "dest_hw (set_cr hw a f s) = dest_hw s"
  "src_hw (set_cr hw a f s) = src_hw s"
  "bytes_flashed (set_cr hw a f s) = bytes_flashed s"
  "verified (set_cr hw a f s) = verified s"
  "erase_start (set_cr hw a f s) = erase_start s"
  "erase_end (set_cr hw a f s) = erase_end s"
  "flash_end (set_cr hw a f s) = flash_end s"
  "para_preview (set_cr hw a f s) = para_preview s"
  "para_restart (set_cr hw a f s) = para_restart s"
  "para_dest (set_cr hw a f s) = para_dest s"
  "para_src (set_cr hw a f s) = para_src s"
  "para_byte_count (set_cr hw a f s) = para_byte_count s"
  "para_result (set_cr hw a f s) = para_result s"
  "restarted (set_cr hw a f s) = restarted s"
  by (simp_all add: set_cr_def)

lemma program_unchanged [dev_simps]:
  "half_word_count (base_flash_program_half_word hw a d s) = half_word_count s"
  "dest_hw (base_flash_program_half_word hw a d s) = dest_hw s"
  "src_hw (base_flash_program_half_word hw a d s) = src_hw s"
  "bytes_flashed (base_flash_program_half_word hw a d s) = bytes_flashed s"
  "verified (base_flash_program_half_word hw a d s) = verified s"
  "erase_start (base_flash_program_half_word hw a d s) = erase_start s"
  "erase_end (base_flash_program_half_word hw a d s) = erase_end s"
  "flash_end (base_flash_program_half_word hw a d s) = flash_end s"
  "para_preview (base_flash_program_half_word hw a d s) = para_preview s"
  "para_restart (base_flash_program_half_word hw a d s) = para_restart s"
  "para_dest (base_flash_program_half_word hw a d s) = para_dest s"
  "para_src (base_flash_program_half_word hw a d s) = para_src s"
  "para_byte_count (base_flash_program_half_word hw a d s) = para_byte_count s"
  "restarted (base_flash_program_half_word hw a d s) = restarted s"
  by (simp_all add: base_flash_program_half_word_def Let_def dev_simps)

lemma erase_unchanged [dev_simps]:
  "half_word_count (base_flash_erase_page hw a s) = half_word_count s"
  "dest_hw (base_flash_erase_page hw a s) = dest_hw s"
  "src_hw (base_flash_erase_page hw a s) = src_hw s"
  "bytes_flashed (base_flash_erase_page hw a s) = bytes_flashed s"
  "verified (base_flash_erase_page hw a s) = verified s"
  "erase_start (base_flash_erase_page hw a s) = erase_start s"
  "erase_end (base_flash_erase_page hw a s) = erase_end s"
  "flash_end (base_flash_erase_page hw a s) = flash_end s"
  "para_preview (base_flash_erase_page hw a s) = para_preview s"
  "para_restart (base_flash_erase_page hw a s) = para_restart s"
  "para_dest (base_flash_erase_page hw a s) = para_dest s"
  "para_src (base_flash_erase_page hw a s) = para_src s"
  "para_byte_count (base_flash_erase_page hw a s) = para_byte_count s"
  "restarted (base_flash_erase_page hw a s) = restarted s"
  by (simp_all add: base_flash_erase_page_def Let_def dev_simps)

lemma erase_round_unchanged [dev_simps]:
  "half_word_count (erase_round hw s) = half_word_count s"
  "dest_hw (erase_round hw s) = dest_hw s"
  "src_hw (erase_round hw s) = src_hw s"
  "bytes_flashed (erase_round hw s) = bytes_flashed s"
  "verified (erase_round hw s) = verified s"
  "flash_end (erase_round hw s) = flash_end s"
  "para_preview (erase_round hw s) = para_preview s"
  "para_restart (erase_round hw s) = para_restart s"
  "para_dest (erase_round hw s) = para_dest s"
  "para_src (erase_round hw s) = para_src s"
  "para_byte_count (erase_round hw s) = para_byte_count s"
  "restarted (erase_round hw s) = restarted s"
  by (simp_all add: erase_round_def Let_def dev_simps)

lemma watch_round_unchanged [dev_simps]:
  "mem (watch_round s) = mem s"
  "half_word_count (watch_round s) = half_word_count s"
  "dest_hw (watch_round s) = dest_hw s"
  "src_hw (watch_round s) = src_hw s"
  "bytes_flashed (watch_round s) = bytes_flashed s"
  "verified (watch_round s) = verified s"
  "erase_start (watch_round s) = erase_start s"
  "erase_end (watch_round s) = erase_end s"
  "flash_end (watch_round s) = flash_end s"
  "para_preview (watch_round s) = para_preview s"
  "para_restart (watch_round s) = para_restart s"
  "para_dest (watch_round s) = para_dest s"
  "para_src (watch_round s) = para_src s"
  "para_byte_count (watch_round s) = para_byte_count s"
  "para_result (watch_round s) = para_result s"
  "restarted (watch_round s) = restarted s"
  "FLASH_CR (watch_round s) = FLASH_CR s"
  by (simp_all add: watch_round_def)

lemma copy_round_count: "copy_round hw s = Next s' \<Longrightarrow> half_word_count s' = half_word_count s - 1"
  by (auto simp: copy_round_def program_round_def Let_def dev_simps split: if_splits)

subsection \<open>The copy\<close>

function copy_loop :: "Fpec \<Rightarrow> 'a Dev_scheme \<Rightarrow> 'a Dev_scheme Round" where
  "copy_loop hw s =
     (if half_word_count s > 0
      then (case copy_round hw s of Next s' \<Rightarrow> copy_loop hw s' | r \<Rightarrow> r)
      else Next s)"
  by pat_completeness auto
termination
proof (relation "measure (\<lambda>(hw, s). unat (half_word_count s))", goal_cases)
  case (2 hw s s')
  then have "half_word_count s' = half_word_count s - 1" by (simp add: copy_round_count)
  with 2 show ?case by (simp add: unat_minus_one word_gt_0 unat_gt_0)
qed simp

declare copy_loop.simps [simp del]

text \<open>The checks of destination, source and count: the error code and the address at fault.
  Sums of addresses wrap as \<^verbatim>\<open>uint32_t\<close> does.\<close>

definition invalid_request :: "'a Dev_scheme \<Rightarrow> (int \<times> u32) option" where
  "invalid_request s =
     (let dest = para_dest s; src = para_src s; n = para_byte_count s in
      if dest < 0x08000000 then Some (- 2, dest)
      else if dest + n > 0x08010000 then Some (- 3, dest + n)
      else if src \<ge> 0x08000000 \<and> src < 0x08010000 then
        (if src + n > 0x08010000 then Some (- 4, src + n) else None)
      else if src \<ge> 0x20000000 \<and> src < 0x20005000 then
        (if src + n > 0x20005000 then Some (- 5, src + n) else None)
      else Some (- 6, src))"

definition start_request :: "'a Dev_scheme \<Rightarrow> 'a Dev_scheme" where
  "start_request s =
     s\<lparr>dest_hw := para_dest s, src_hw := para_src s, half_word_count := para_byte_count s div 2,
       para_result := 0, para_fail := 0, bytes_flashed := 0, verified := True,
       erase_start := 0, erase_end := 0, flash_end := FLASH_BASE + FLASH_SIZE_OVERRIDE\<rparr>"

definition base_disable_interrupts :: "'a Dev_scheme \<Rightarrow> 'a Dev_scheme" where
  "base_disable_interrupts s = s\<lparr>interrupts := False\<rparr>"

text \<open>The end of the function: the result, and the restart with the vector table at \<open>vt\<close>.\<close>

definition finish_request :: "u32 \<Rightarrow> 'a Dev_scheme \<Rightarrow> 'a Dev_scheme" where
  "finish_request vt s =
     (let s = base_flash_lock s
      in if para_result s < 0 then s
         else
           let s = s\<lparr>para_result := (if verified s then bytes_flashed s else - 1)\<rparr>
           in if para_preview s = 0 \<and> para_restart s \<noteq> 0
              then s\<lparr>SCB_VTOR := vt, debug_base_result := para_result s, restarted := True\<rparr>
              else s)"

definition baseloader_start :: "Fpec \<Rightarrow> u32 \<Rightarrow> 'a Dev_scheme \<Rightarrow> 'a Dev_scheme" where
  "baseloader_start hw vt s0 =
     (let s = start_request s0
      in case invalid_request s of
           Some (code, address) \<Rightarrow> s\<lparr>para_result := code, para_fail := address\<rparr>
         | None \<Rightarrow>
             let s = (if para_restart s \<noteq> 0 then base_disable_interrupts s else s);
                 s = base_flash_unlock hw s
             in if para_result s < 0 then s
                else case copy_loop hw s of
                       Return s \<Rightarrow> s
                     | Next s \<Rightarrow> finish_request vt s
                     | Break s \<Rightarrow> finish_request vt s)"

section \<open>baseloader\_fetch\<close>

text \<open>
  The Base Vector Table of an image lies at the same offset in a page as the running one:
  \<open>table\<close> is the address of the running one, a parameter the linker decides, as \<open>app\<close> is,
  the address of \<^verbatim>\<open>application_start\<close>.
\<close>

definition BASE_MAGIC_NUMBER :: u32 where
  "BASE_MAGIC_NUMBER = 0x22051969"

definition BASE_MAGIC_NUMBER2 :: u32 where
  "BASE_MAGIC_NUMBER2 = 0x19690522"

definition BASE_VECTOR_TABLE :: "u32 \<Rightarrow> u32 \<Rightarrow> u32" where
  "BASE_VECTOR_TABLE table x = FLASH_ADDRESS x + (table AND (FLASH_PAGE_SIZE - 1))"

text \<open>The words of a table, in the order of \<^verbatim>\<open>base_vector_table_t\<close>.\<close>

definition vector_magic_number :: "memory \<Rightarrow> u32 \<Rightarrow> u32" where
  "vector_magic_number m t = ld32 m t"

definition vector_baseloader :: "memory \<Rightarrow> u32 \<Rightarrow> u32" where
  "vector_baseloader m t = ld32 m (t + 8)"

definition vector_baseloader_end :: "memory \<Rightarrow> u32 \<Rightarrow> u32" where
  "vector_baseloader_end m t = ld32 m (t + 12)"

definition vector_application :: "memory \<Rightarrow> u32 \<Rightarrow> u32" where
  "vector_application m t = ld32 m (t + 16)"

definition vector_magic_number2 :: "memory \<Rightarrow> u32 \<Rightarrow> u32" where
  "vector_magic_number2 m t = ld32 m (t + 20)"

definition IS_VALID_BASE_VECTOR_TABLE :: "memory \<Rightarrow> u32 \<Rightarrow> u32 \<Rightarrow> bool" where
  "IS_VALID_BASE_VECTOR_TABLE m table x \<longleftrightarrow>
     vector_magic_number m (BASE_VECTOR_TABLE table x) = BASE_MAGIC_NUMBER \<and>
     vector_magic_number2 m (BASE_VECTOR_TABLE table x) = BASE_MAGIC_NUMBER2"

text \<open>What the caller receives through its pointers; a null pointer is the argument False.\<close>

record Fetched =
  baseloader_addr :: u32
  fetch_dest :: u32
  fetch_src :: u32
  fetch_count :: u32

definition baseloader_fetch ::
  "u32 \<Rightarrow> u32 \<Rightarrow> bool \<Rightarrow> u32 \<Rightarrow> 'a Dev_scheme \<Rightarrow> Fetched \<Rightarrow> int \<times> 'a Dev_scheme \<times> Fetched" where
  "baseloader_fetch table app nonnull addr_ptr s out =
     (if \<not> nonnull then (- 1, s\<lparr>para_fail := addr_ptr\<rparr>, out)
      else if \<not> IS_VALID_BASE_VECTOR_TABLE (mem s) table app
           then (- 2, s\<lparr>para_fail := FLASH_ADDRESS app\<rparr>, out)
      else
        let begin_vector = BASE_VECTOR_TABLE table app;
            bootloader_size = FLASH_ADDRESS (vector_application (mem s) begin_vector) - FLASH_BASE
        in if app + bootloader_size + FLASH_PAGE_SIZE \<ge> FLASH_BASE + FLASH_SIZE_OVERRIDE
           then (- 3, s\<lparr>para_fail := bootloader_size\<rparr>, out)
           else
             let flash_page_addr = FLASH_ADDRESS app + bootloader_size
             in if \<not> IS_VALID_BASE_VECTOR_TABLE (mem s) table flash_page_addr
                then (- 4, s\<lparr>para_fail := flash_page_addr\<rparr>, out\<lparr>fetch_count := bootloader_size\<rparr>)
                else
                  let end_vector = BASE_VECTOR_TABLE table flash_page_addr
                  in (0, s,
                      \<lparr>baseloader_addr = vector_baseloader (mem s) end_vector - FLASH_BASE + flash_page_addr,
                       fetch_dest = FLASH_BASE,
                       fetch_src = FLASH_ADDRESS app,
                       fetch_count = bootloader_size\<rparr>))"

section \<open>The bootloader in Baseloader Mode\<close>

text \<open>
  \<^verbatim>\<open>prepare_baseloader\<close> of \<^verbatim>\<open>bootloader.c\<close> runs the Baseloader of the new image. The layout is what the
  linker decides: the running Base Vector Table and the application, the flash buffer
  whose start serves as a vector table without interrupt handlers, the real vector table, the
  size of one, the bootloader's stack, and where the application may be written. \<open>code\<close> is the effect of calling an address: the Baseloader
  it calls is the one of the new image.
\<close>

record Layout =
  base_vector_table :: u32
  application_start :: u32
  flashBuf :: u32
  vector_table :: u32
  sizeof_vector_table :: nat
  boot_stack :: u32
  APP_BASE_ADDRESS :: u32

definition temporary_vectors :: "Layout \<Rightarrow> 'a Dev_scheme \<Rightarrow> 'a Dev_scheme" where
  "temporary_vectors lay s =
     (let m = memset0 (mem s) (flashBuf lay) (sizeof_vector_table lay);
          m = st32 (flashBuf lay) (ld32 m (vector_table lay)) m;
          m = st32 (flashBuf lay + 4) (ld32 m (vector_table lay + 4)) m
      in s\<lparr>MSP := boot_stack lay, mem := m\<rparr>)"

definition no_address :: Fetched where
  "no_address = \<lparr>baseloader_addr = 0, fetch_dest = 0, fetch_src = 0, fetch_count = 0\<rparr>"

definition prepare_baseloader ::
  "Layout \<Rightarrow> (u32 \<Rightarrow> 'a Dev_scheme \<Rightarrow> 'a Dev_scheme) \<Rightarrow> u32 \<Rightarrow> 'a Dev_scheme \<Rightarrow> 'a Dev_scheme" where
  "prepare_baseloader lay code addr_ptr s0 =
     (let s = temporary_vectors lay s0;
          (status, s, out) =
            baseloader_fetch (base_vector_table lay) (application_start lay) True addr_ptr s no_address
      in if status \<noteq> 0 \<or> baseloader_addr out = 0 then s
         else
           let s = s\<lparr>para_dest := fetch_dest out, para_src := fetch_src out,
                     para_byte_count := fetch_count out, para_restart := 1, para_preview := 1\<rparr>;
               s = code (baseloader_addr out) s
           in if para_result s > 0
              then code (baseloader_addr out) (s\<lparr>SCB_VTOR := flashBuf lay, para_preview := 0\<rparr>)
              else s)"

end
