(* ===== verification/FlashLaws.thy ===== *)
theory FlashLaws
  imports Flash
begin

text \<open>
  What the Baseloader guarantees: where it can write at all, what it has written when it reports
  success, what it reports otherwise. The hypotheses on the controller are the documented
  behaviour of the STM32F1 flash interface: the keys open the lock, an erased half word takes the
  data written to it, the start bit erases the selected page, and nothing else changes; \<open>prompt\<close> says
  that no operation outlasts the polls the code allows for it.
\<close>

unbundle bit_operations_syntax

section \<open>Addresses and half words\<close>

lemma unat_u32_less: "unat (x :: u32) < 4294967296"
  using unsigned_less [of x, where ?'a = nat] by simp

lemma unat_offset: "unat (a - d) = j \<longleftrightarrow> a = d + of_nat j" if "j < 2 ^ 32" for a d :: u32
proof -
  have "unat (of_nat j :: u32) = j"
    using that by (simp add: unat_of_nat)
  then have "unat (a - d) = j \<longleftrightarrow> a - d = of_nat j"
    by (metis word_unat_eq_iff)
  then show ?thesis by (simp add: diff_eq_eq add.commute)
qed

lemma unat_diff_offset:
  fixes b d :: u32
  assumes "j + n \<le> 2 ^ 32"
  shows "unat (b - (d + of_nat j)) < n \<longleftrightarrow> j \<le> unat (b - d) \<and> unat (b - d) < j + n"
proof (cases "n = 0")
  case False
  have j: "unat (of_nat j :: u32) = j" using assms False by (simp add: unat_of_nat)
  have "unat (b - (d + of_nat j)) = (if j \<le> unat (b - d) then unat (b - d) - j
      else unat (b - d) + 2 ^ 32 - j)"
    using unat_sub_if' [of "b - d" "of_nat j"] j by (simp add: diff_diff_eq)
  then show ?thesis using assms by auto
qed simp

lemma unat_add_of_nat: "unat (d + of_nat j) = unat d + j" if "unat d + j < 2 ^ 32" for d :: u32
  using that by (simp add: unat_word_ariths unat_of_nat)

lemma unat_diff_le: "unat (a - d) = unat a - unat d" if "d \<le> a" for a d :: u32
  using that by (simp add: word_le_nat_alt unat_sub)

lemma unat_diff_gr: "unat (a - d) = 2 ^ 32 - unat d + unat a" if "a < d" for a d :: u32
  using that unat_sub_if' [of a d] unat_u32_less [of d]
  by (simp add: word_less_nat_alt)

lemma ld16_bytes [simp]:
  "ucast (ld16 m a) = m a" "ucast (drop_bit 8 (ld16 m a)) = m (a + 1)"
  by (rule bit_word_eqI, simp add: ld16_def bit_word_cat_iff bit_simps)+

lemma ld16_eq_iff: "ld16 m a = ld16 m' b \<longleftrightarrow> m a = m' b \<and> m (a + 1) = m' (b + 1)"
  by (metis ld16_bytes ld16_def)

lemma st16_ld16: "st16 a (ld16 m s) m' = m'(a := m s, a + 1 := m (s + 1))"
  by (simp add: st16_def)

lemma ld16_erased: "m a = 0xFF \<Longrightarrow> m (a + 1) = 0xFF \<Longrightarrow> ld16 m a = 0xFFFF"
  by (simp add: ld16_def) (simp add: word_cat_eq)

lemma ld16_st16 [simp]: "ld16 (st16 a v m) a = v"
proof -
  have "a + 1 \<noteq> a" by simp
  then show ?thesis
    by (intro bit_word_eqI) (auto simp add: ld16_def st16_def bit_word_cat_iff bit_simps)
qed

lemma ld16_st16_other: "b \<noteq> a \<Longrightarrow> b \<noteq> a + 1 \<Longrightarrow> b + 1 \<noteq> a \<Longrightarrow> ld16 (st16 a v m) b = ld16 m b"
  by (simp add: ld16_def st16_def)

lemma ld32_st32 [simp]: "ld32 (st32 a v m) a = v"
proof -
  have "ld16 (st32 a v m) a = ucast v"
    unfolding st32_def by (subst ld16_st16_other) simp_all
  then show ?thesis
    by (intro bit_word_eqI) (auto simp add: ld32_def st32_def bit_word_cat_iff bit_simps)
qed

lemma apart:
  fixes a b :: u32
  assumes "4 \<le> unat (b - a)"
  shows "b \<noteq> a" "b \<noteq> a + 1" "b \<noteq> a + 2" "b \<noteq> a + 3"
  using assms by auto

lemma ld32_st32_other:
  assumes "4 \<le> unat (b - a)" "4 \<le> unat (a - b)"
  shows "ld32 (st32 a v m) b = ld32 m b"
proof -
  have "b + 1 \<noteq> a + 2" "b + 2 \<noteq> a + 1" "b + 2 \<noteq> a + 3" "b + 3 \<noteq> a" "b + 3 \<noteq> a + 2" "b + 1 \<noteq> a" "b + 2 \<noteq> a"
    using apart [OF assms(1)] apart [OF assms(2)] by (auto simp: algebra_simps)
  then show ?thesis
    using apart [OF assms(1)] by (simp add: ld32_def st32_def ld16_st16_other add.assoc)
qed

lemma page_address: "base_get_flash_page_address a = a" if "unat a mod 1024 = 0"
proof -
  have "unat (base_get_flash_page_address a) = unat a"
    using that unat_u32_less [of a]
      by (simp add: base_get_flash_page_address_def FLASH_PAGE_SIZE_def unat_word_ariths unat_div
        dvd_div_mult_self mod_eq_0_iff_dvd)
  then show ?thesis by (simp add: word_unat_eq_iff)
qed

lemma FLASH_ADDRESS_push: "FLASH_ADDRESS x = push_bit 10 (drop_bit 10 x)"
proof -
  have "FLASH_ADDRESS x = x AND NOT (mask 10)"
    by (simp add: FLASH_ADDRESS_def FLASH_PAGE_SIZE_def mask_eq_decr_exp)
  also have "\<dots> = push_bit 10 (drop_bit 10 x)"
    by (rule bit_word_eqI) (auto simp: bit_simps)
  finally show ?thesis .
qed

lemma unat_FLASH_ADDRESS: "unat (FLASH_ADDRESS x) = unat x div 1024 * 1024"
proof -
  have "unat x div 1024 * 1024 < 4294967296"
    using unat_u32_less [of x] by (meson div_times_less_eq_dividend le_less_trans)
  then show ?thesis
    by (simp add: FLASH_ADDRESS_push drop_bit_eq_div push_bit_eq_mult unat_word_ariths unat_div)
qed

section \<open>The controller\<close>

definition fpec_ok :: "Fpec \<Rightarrow> bool" where
  "fpec_ok hw \<longleftrightarrow>
     (\<forall>cr. unlock_keys hw cr = cr\<lparr>LOCK := False\<rparr>) \<and>
     (\<forall>cr a d m. \<not> LOCK cr \<longrightarrow> PG cr \<longrightarrow> \<not> PER cr \<longrightarrow> unat a mod 2 = 0 \<longrightarrow> ld16 m a = 0xFFFF \<longrightarrow>
        mmio16 hw cr a d m = st16 a d m) \<and>
     (\<forall>cr a d m b. b \<noteq> a \<longrightarrow> b \<noteq> a + 1 \<longrightarrow> mmio16 hw cr a d m b = m b) \<and>
     (\<forall>cr p m. \<not> LOCK cr \<longrightarrow> PER cr \<longrightarrow> \<not> PG cr \<longrightarrow> unat p mod 1024 = 0 \<longrightarrow>
        start_erase hw cr p m = (\<lambda>b. if unat (b - p) < 1024 then 0xFF else m b)) \<and>
     (\<forall>cr p m b. unat p mod 1024 = 0 \<longrightarrow> \<not> unat (b - p) < 1024 \<longrightarrow> start_erase hw cr p m b = m b)"

definition busy_at :: "Fpec \<Rightarrow> nat \<Rightarrow> bool" where
  "busy_at hw n \<longleftrightarrow> FLASH_SR hw n AND 1 = 1 \<or> DESIG_FLASH_SIZE hw > 512 \<and> FLASH_SR2 hw n AND 1 = 1"

definition prompt :: "Fpec \<Rightarrow> bool" where
  "prompt hw \<longleftrightarrow> (\<forall>n. \<exists>k \<le> 0x100. \<not> busy_at hw (n + k))"

lemma bit0_and: "(x :: u32) AND 1 = 1 \<longleftrightarrow> bit x 0"
  by (simp add: and_one_eq odd_iff_mod_2_eq_one [symmetric] bit_0)

lemma read_flags:
  "(flags (base_flash_get_status_flags hw s) AND 1 = 1) = busy_at hw (status_reads s)"
  by (simp add: base_flash_get_status_flags_def busy_at_def Let_def bit0_and bit_simps)

lemma busy_loop_prompt:
  "(flags s AND 1 = 1) = busy_at hw r \<Longrightarrow> status_reads s = Suc r
    \<Longrightarrow> unat (para_fail s) + k \<le> 0x100 \<Longrightarrow> \<not> busy_at hw (r + k)
    \<Longrightarrow> para_result (busy_loop hw e s) = para_result s"
proof (induction k arbitrary: s r)
  case 0
  then show ?case by (simp add: busy_loop.simps)
next
  case (Suc k)
  show ?case
  proof (cases "busy_at hw r")
    case False
    then show ?thesis using Suc.prems(1) by (simp add: busy_loop.simps)
  next
    case True
    let ?s = "base_flash_get_status_flags hw (s\<lparr>para_fail := para_fail s + 1, flags := 0\<rparr>)"
    have f: "unat (para_fail s) < 0x100" using Suc.prems(3) by simp
    then have "unat (para_fail s + 1) = unat (para_fail s) + 1" by (simp add: unat_word_ariths)
    then have "para_result (busy_loop hw e ?s) = para_result ?s"
      using Suc.prems read_flags [of hw "s\<lparr>para_fail := para_fail s + 1, flags := 0\<rparr>"]
      by (intro Suc.IH [where r = "Suc r"]) (simp_all add: base_flash_get_status_flags_def Let_def)
    moreover have "busy_loop hw e s = busy_loop hw e ?s"
      using True Suc.prems(1) f
      by (subst busy_loop.simps) (simp add: base_timeout_def word_le_nat_alt)
    ultimately show ?thesis by (simp add: base_flash_get_status_flags_def Let_def)
  qed
qed

lemma wait_prompt [dev_simps]:
  assumes "prompt hw"
  shows "para_result (base_flash_wait_for_last_operation hw e s) = 0"
proof -
  let ?s = "s\<lparr>para_result := 0, para_fail := 0, flags := 0\<rparr>"
  obtain k where "k \<le> 0x100" "\<not> busy_at hw (status_reads s + k)"
    using assms by (auto simp: prompt_def)
  then have "para_result (busy_loop hw e (base_flash_get_status_flags hw ?s))
      = para_result (base_flash_get_status_flags hw ?s)"
    by (intro busy_loop_prompt [where r = "status_reads s" and k = k])
      (simp_all add: read_flags [of hw ?s, simplified], simp_all add: base_flash_get_status_flags_def Let_def)
  then show ?thesis
    by (simp add: base_flash_wait_for_last_operation_def base_flash_get_status_flags_def Let_def)
qed

lemma busy_loop_stuck:
  "(\<And>n. busy_at hw n) \<Longrightarrow> flags s AND 1 = 1 \<Longrightarrow> unat (para_fail s) + k = 0x100
    \<Longrightarrow> para_result (busy_loop hw e s) = e"
proof (induction k arbitrary: s)
  case 0
  then show ?case by (simp add: busy_loop.simps base_timeout_def word_le_nat_alt)
next
  case (Suc k)
  let ?s = "base_flash_get_status_flags hw (s\<lparr>para_fail := para_fail s + 1, flags := 0\<rparr>)"
  have f: "unat (para_fail s) < 0x100" using Suc.prems(3) by simp
  then have "unat (para_fail s + 1) = unat (para_fail s) + 1" by (simp add: unat_word_ariths)
  moreover have "para_fail ?s = para_fail s + 1"
    by (simp add: base_flash_get_status_flags_def Let_def)
  ultimately have "para_result (busy_loop hw e ?s) = e"
    using Suc.prems by (intro Suc.IH) (simp_all add: read_flags)
  then show ?case
    using Suc.prems(2) f
    by (subst busy_loop.simps) (simp add: base_timeout_def word_le_nat_alt)
qed

lemma wait_stuck:
  assumes "\<And>n. busy_at hw n"
  shows "para_result (base_flash_wait_for_last_operation hw e s) = e"
  unfolding base_flash_wait_for_last_operation_def
  by (rule busy_loop_stuck [where k = "0x100"])
    (use assms in \<open>simp_all add: read_flags\<close>, simp add: base_flash_get_status_flags_def Let_def)


section \<open>Where the copy writes\<close>

definition even_address :: "u32 \<Rightarrow> bool" where
  "even_address a \<longleftrightarrow> unat a mod 2 = 0"

lemma flash_page_le: "unat (base_get_flash_page_address a) = unat a div 1024 * 1024"
proof -
  have "unat a div 1024 * 1024 < 4294967296"
    using unat_u32_less [of a] by (meson div_times_less_eq_dividend le_less_trans)
  then show ?thesis
    by (simp add: base_get_flash_page_address_def FLASH_PAGE_SIZE_def unat_word_ariths unat_div)
qed

text \<open>What one round can change: bytes from the start of the page of its address up to the end of
  the ROM.\<close>

definition kept_outside :: "nat \<Rightarrow> nat \<Rightarrow> memory \<Rightarrow> memory \<Rightarrow> bool" where
  "kept_outside lo hi m m' \<longleftrightarrow> (\<forall>b. \<not> (lo \<le> unat b \<and> unat b < hi) \<longrightarrow> m' b = m b)"

lemma kept_outside_refl [simp]: "kept_outside lo hi m m"
  by (simp add: kept_outside_def)

lemma kept_outside_trans: "kept_outside lo hi m m' \<Longrightarrow> kept_outside lo hi m' m'' \<Longrightarrow> kept_outside lo hi m m''"
  by (simp add: kept_outside_def)

lemma kept_outside_mono:
  "kept_outside lo hi m m' \<Longrightarrow> lo' \<le> lo \<Longrightarrow> hi \<le> hi' \<Longrightarrow> kept_outside lo' hi' m m'"
  by (auto simp: kept_outside_def)

lemma erase_page_kept:
  assumes "fpec_ok hw" "unat p mod 1024 = 0" "unat p + 1024 \<le> 2 ^ 32"
  shows "kept_outside (unat p) (unat p + 1024) (mem s) (mem (base_flash_erase_page hw p s))"
proof -
  have "kept_outside (unat p) (unat p + 1024) m (start_erase hw cr p m)" for cr m
    unfolding kept_outside_def
  proof (intro allI impI)
    fix b :: u32
    assume b: "\<not> (unat p \<le> unat b \<and> unat b < unat p + 1024)"
    have "\<not> unat (b - p) < 1024"
    proof (cases "p \<le> b")
      case True
      then show ?thesis using b by (simp add: unat_diff_le word_le_nat_alt)
    next
      case False
      then show ?thesis using assms(3) by (simp add: unat_diff_gr)
    qed
    then show "start_erase hw cr p m b = m b" using assms(1,2) by (simp add: fpec_ok_def)
  qed
  then show ?thesis by (simp add: base_flash_erase_page_def Let_def dev_simps)
qed

lemma program_kept:
  assumes "fpec_ok hw" "unat a + 1 < 2 ^ 32"
  shows "kept_outside (unat a) (unat a + 2) (mem s) (mem (base_flash_program_half_word hw a d s))"
proof -
  have "kept_outside (unat a) (unat a + 2) m (mmio16 hw cr a d m)" for cr m
    unfolding kept_outside_def
  proof (intro allI impI)
    fix b :: u32
    assume b: "\<not> (unat a \<le> unat b \<and> unat b < unat a + 2)"
    have "unat (a + 1) = unat a + 1" using assms(2) by (simp add: unat_word_ariths)
    then have "b \<noteq> a" "b \<noteq> a + 1" using b by auto
    then show "mmio16 hw cr a d m b = m b" using assms(1) by (simp add: fpec_ok_def)
  qed
  then show ?thesis by (simp add: base_flash_program_half_word_def Let_def dev_simps)
qed

text \<open>The bounds a request keeps while it runs: an even address in or above the first page, below or
  at the end of the ROM.\<close>

definition in_bounds :: "nat \<Rightarrow> 'a Dev_scheme \<Rightarrow> bool" where
  "in_bounds lo s \<longleftrightarrow> lo \<le> unat (dest_hw s) \<and> lo mod 1024 = 0 \<and> even_address (dest_hw s) \<and>
     unat (dest_hw s) \<le> 0x08010000 \<and> flash_end s = 0x08010000"

fun round_state :: "'a Round \<Rightarrow> 'a" where
  "round_state (Next s) = s"
| "round_state (Break s) = s"
| "round_state (Return s) = s"

lemma erase_round_kept:
  assumes hw: "fpec_ok hw" and s: "in_bounds lo s" "dest_hw s < flash_end s"
  shows "kept_outside lo 0x08010000 (mem s) (mem (erase_round hw s))"
proof -
  let ?p = "base_get_flash_page_address (dest_hw s)"
  have d: "unat (dest_hw s) < 0x08010000" using s by (simp add: in_bounds_def word_less_nat_alt)
  have p: "unat ?p = unat (dest_hw s) div 1024 * 1024" by (rule flash_page_le)
  have "lo \<le> unat ?p"
  proof -
    have "lo div 1024 \<le> unat (dest_hw s) div 1024" using s by (intro div_le_mono) (simp add: in_bounds_def)
    moreover have "lo = lo div 1024 * 1024" using s by (auto simp: in_bounds_def)
    ultimately show ?thesis using p by simp
  qed
  moreover have "unat ?p + 1024 \<le> 0x08010000"
  proof -
    have "unat (dest_hw s) div 1024 < 0x20040" using d by (simp add: less_mult_imp_div_less)
    then show ?thesis using p by simp
  qed
  moreover have "kept_outside (unat ?p) (unat ?p + 1024) (mem s) (mem (erase_round hw s))"
    using erase_page_kept [OF hw, of ?p "s\<lparr>erase_start := ?p, erase_end := ?p + FLASH_PAGE_SIZE\<rparr>"]
      p calculation
    by (simp add: erase_round_def Let_def)
  ultimately show ?thesis by (rule kept_outside_mono [rotated])
qed

lemma in_bounds_room:
  assumes "in_bounds lo s" "dest_hw s < flash_end s"
  shows "unat (dest_hw s) + 2 \<le> 0x08010000"
proof -
  have "unat (dest_hw s) < 0x08010000" "unat (dest_hw s) mod 2 = 0"
    using assms by (simp_all add: in_bounds_def word_less_nat_alt even_address_def)
  then show ?thesis by presburger
qed

lemma copy_round_kept:
  assumes hw: "fpec_ok hw" and s: "in_bounds lo s"
  shows "kept_outside lo 0x08010000 (mem s) (mem (round_state (copy_round hw s)))"
    and "copy_round hw s = Next s' \<Longrightarrow> in_bounds lo s'"
proof -
  let ?s = "watch_round s"
  have s1: "in_bounds lo ?s" using s by (simp add: in_bounds_def dev_simps)
  show "kept_outside lo 0x08010000 (mem s) (mem (round_state (copy_round hw s)))"
  proof (cases "dest_hw s < flash_end s")
    case lt: True
    have d2: "unat (dest_hw s) + 2 \<le> 0x08010000" using s lt by (rule in_bounds_room)
    have k1: "kept_outside lo 0x08010000 (mem s) (mem (erase_round hw ?s))"
      using erase_round_kept [OF hw s1] lt by (simp add: dev_simps)
    have k2: "kept_outside lo 0x08010000 (mem t) (mem (base_flash_program_half_word hw (dest_hw s) v t))"
      for t :: "'a Dev_scheme" and v
      by (rule kept_outside_mono [OF program_kept [OF hw, of "dest_hw s"]])
        (use s d2 in \<open>simp_all add: in_bounds_def\<close>)
    have "kept_outside lo 0x08010000 (mem s) (mem (round_state (program_round hw (erase_round hw ?s))))"
      using k1 kept_outside_trans [OF k1 k2]
      by (simp add: program_round_def Let_def dev_simps)
    then show ?thesis using k1 by (simp add: copy_round_def Let_def dev_simps)
  qed (simp add: copy_round_def Let_def dev_simps not_less)
  assume next_round: "copy_round hw s = Next s'"
  then have lt: "dest_hw s < flash_end s"
    by (simp add: copy_round_def Let_def dev_simps split: if_splits)
  have d2: "unat (dest_hw s) + 2 \<le> 0x08010000" using s lt by (rule in_bounds_room)
  then have "unat (dest_hw s + 2) = unat (dest_hw s) + 2" by (simp add: unat_word_ariths)
  moreover have "dest_hw s' = dest_hw s + 2" "flash_end s' = flash_end s"
    using next_round
    by (auto simp: copy_round_def program_round_def Let_def dev_simps split: if_splits)
  ultimately show "in_bounds lo s'"
    using s d2 by (simp add: in_bounds_def even_address_def)
qed

lemma copy_loop_kept:
  "fpec_ok hw \<Longrightarrow> in_bounds lo s
    \<Longrightarrow> kept_outside lo 0x08010000 (mem s) (mem (round_state (copy_loop hw s)))"
proof (induction hw s rule: copy_loop.induct)
  case (1 hw s)
  show ?case
  proof (cases "half_word_count s > 0")
    case True
    note r = copy_round_kept [OF 1(2,3)]
    show ?thesis
    proof (cases "copy_round hw s")
      case (Next s')
      then have "kept_outside lo 0x08010000 (mem s') (mem (round_state (copy_loop hw s')))"
        using 1(1) [OF True Next 1(2)] r(2) by blast
      then show ?thesis
        using Next True r(1) by (subst copy_loop.simps) (auto intro: kept_outside_trans)
    qed (use True r(1) in \<open>subst copy_loop.simps, simp\<close>)+
  qed (subst copy_loop.simps, simp)
qed

lemma finish_request_mem [dev_simps]: "mem (finish_request vt s) = mem s"
  by (simp add: finish_request_def base_flash_lock_def Let_def)

lemma start_request_kept [dev_simps]:
  "mem (start_request s) = mem s" "para_dest (start_request s) = para_dest s"
  "para_src (start_request s) = para_src s" "para_byte_count (start_request s) = para_byte_count s"
  "para_preview (start_request s) = para_preview s" "para_restart (start_request s) = para_restart s"
  by (simp_all add: start_request_def)

text \<open>The state in which the copy loop begins.\<close>

definition opened :: "Fpec \<Rightarrow> 'a Dev_scheme \<Rightarrow> 'a Dev_scheme" where
  "opened hw s = base_flash_unlock hw
     (if para_restart s \<noteq> 0 then base_disable_interrupts (start_request s) else start_request s)"

lemma opened_simps [dev_simps]:
  "mem (opened hw s) = mem s" "dest_hw (opened hw s) = para_dest s" "src_hw (opened hw s) = para_src s"
  "half_word_count (opened hw s) = para_byte_count s div 2" "bytes_flashed (opened hw s) = 0"
  "verified (opened hw s)" "erase_start (opened hw s) = 0" "erase_end (opened hw s) = 0"
  "flash_end (opened hw s) = 0x08010000" "para_preview (opened hw s) = para_preview s"
  "para_restart (opened hw s) = para_restart s" "para_result (opened hw s) = 0"
  "FLASH_CR (opened hw s) = unlock_keys hw (FLASH_CR s)"
  "restarted (opened hw s) = restarted s"
  by (simp_all add: opened_def base_flash_unlock_def base_disable_interrupts_def start_request_def
      FLASH_BASE_def FLASH_SIZE_OVERRIDE_def)

lemma baseloader_start_opened:
  "baseloader_start hw vt s =
     (case invalid_request s of
        Some (code, address) \<Rightarrow> (start_request s)\<lparr>para_result := code, para_fail := address\<rparr>
      | None \<Rightarrow> (case copy_loop hw (opened hw s) of
                   Return s \<Rightarrow> s | Next s \<Rightarrow> finish_request vt s | Break s \<Rightarrow> finish_request vt s))"
proof -
  have "invalid_request (start_request s) = invalid_request s"
    by (simp add: invalid_request_def dev_simps)
  moreover have "base_flash_unlock hw (if para_restart (start_request s) \<noteq> 0
      then base_disable_interrupts (start_request s) else start_request s) = opened hw s"
    by (simp add: opened_def dev_simps)
  moreover have "\<not> para_result (opened hw s) < 0" by (simp add: dev_simps)
  ultimately show ?thesis
    unfolding baseloader_start_def Let_def by (simp only: if_False)
qed

lemma mem_finished [dev_simps]:
  "mem (case r of Return s \<Rightarrow> s | Next s \<Rightarrow> finish_request vt s | Break s \<Rightarrow> finish_request vt s)
     = mem (round_state r)"
  by (cases r) (simp_all add: dev_simps)

lemma request_dest_bounds:
  assumes "invalid_request s = None"
  shows "0x08000000 \<le> unat (para_dest s)"
  using assms by (auto simp: invalid_request_def Let_def word_less_nat_alt split: if_splits)

text \<open>Whatever the parameters are: below the page of the destination and outside the ROM nothing changes.\<close>

lemma baseloader_kept:
  assumes "fpec_ok hw" "even_address (para_dest s)"
  shows "kept_outside (unat (base_get_flash_page_address (para_dest s))) 0x08010000
           (mem s) (mem (baseloader_start hw vt s))"
proof (cases "invalid_request s")
  case None
  let ?lo = "unat (base_get_flash_page_address (para_dest s))"
  show ?thesis
  proof (cases "unat (para_dest s) \<le> 0x08010000")
    case True
    then have "in_bounds ?lo (opened hw s)"
      using assms(2) by (simp add: in_bounds_def dev_simps flash_page_le)
    from copy_loop_kept [OF assms(1) this]
    show ?thesis
      by (simp add: baseloader_start_opened None dev_simps)
  next
    case False
    then have "copy_round hw (opened hw s) = Break ((watch_round (opened hw s))\<lparr>verified := False\<rparr>)"
      by (simp add: copy_round_def Let_def dev_simps word_le_nat_alt)
    then have "mem (round_state (copy_loop hw (opened hw s))) = mem s"
      by (subst copy_loop.simps) (simp add: dev_simps)
    then show ?thesis
      by (simp add: baseloader_start_opened None dev_simps)
  qed
qed (auto simp: baseloader_start_opened dev_simps split: prod.splits)

section \<open>A copy that succeeds\<close>

definition pages :: "nat \<Rightarrow> nat" where
  "pages n = (n + 1023) div 1024 * 1024"

text \<open>The memory after \<open>n\<close> bytes were copied from \<open>src\<close> to the page-aligned \<open>dest\<close>: the bytes, then the
  erased rest of the last page, and everything else as it was.\<close>

definition flashed :: "memory \<Rightarrow> u32 \<Rightarrow> u32 \<Rightarrow> nat \<Rightarrow> memory" where
  "flashed m dest src n = (\<lambda>b.
     if unat (b - dest) < n then m (src + (b - dest))
     else if unat (b - dest) < pages n then 0xFF else m b)"

definition copying :: "memory \<Rightarrow> u32 \<Rightarrow> u32 \<Rightarrow> nat \<Rightarrow> nat \<Rightarrow> 'a Dev_scheme \<Rightarrow> bool" where
  "copying m dest src n k s \<longleftrightarrow>
     mem s = flashed m dest src (2 * k) \<and> dest_hw s = dest + of_nat (2 * k) \<and>
     src_hw s = src + of_nat (2 * k) \<and> half_word_count s = of_nat (n - k) \<and>
     bytes_flashed s = 2 * int k \<and> verified s \<and>
     erase_start s = (if k = 0 then 0 else dest + of_nat (2 * k)) \<and>
     erase_end s = (if k = 0 then 0 else dest + of_nat (pages (2 * k))) \<and>
     flash_end s = 0x08010000 \<and> para_preview s = 0 \<and> para_result s = 0 \<and>
     \<not> LOCK (FLASH_CR s) \<and> \<not> PG (FLASH_CR s) \<and> \<not> PER (FLASH_CR s)"

text \<open>A request the copy can carry out: a destination at the start of a page of the ROM, room for all
  the bytes, and a source that starts a page or more above the destination (or does not overlap it).\<close>

definition copyable :: "u32 \<Rightarrow> u32 \<Rightarrow> nat \<Rightarrow> bool" where
  "copyable dest src n \<longleftrightarrow> unat dest mod 1024 = 0 \<and> 0x08000000 \<le> unat dest \<and> unat dest + 2 * n \<le> 0x08010000 \<and>
     1024 \<le> unat (src - dest) \<and> unat (src - dest) + 2 * n \<le> 2 ^ 32"

lemma pages_split:
  assumes "r < 1024"
  shows "pages (1024 * q + r) = (if r = 0 then 1024 * q else 1024 * q + 1024)"
proof (cases "r = 0")
  case False
  have "(1024 * q + r + 1023) div 1024 = (r - 1 + 1024 * (q + 1)) div 1024"
    using False by (simp add: algebra_simps)
  also have "\<dots> = q + 1" using assms by simp
  finally show ?thesis using False by (simp add: pages_def)
qed (simp add: pages_def)

lemma pages_bounds:
  fixes k :: nat
  shows pages_round: "pages (2 * k + 2) = (if 2 * k mod 1024 = 0 then 2 * k + 1024 else pages (2 * k))"
    and pages_room: "2 * k + 2 \<le> pages (2 * k + 2)" "pages (2 * k + 2) \<le> 2 * k + 1024"
    and pages_full: "2 * k mod 1024 = 0 \<Longrightarrow> pages (2 * k) = 2 * k"
    and pages_open: "2 * k mod 1024 \<noteq> 0 \<Longrightarrow> 2 * k + 2 \<le> pages (2 * k)"
proof -
  define q j where "q = k div 512" and "j = k mod 512"
  have "k = 512 * q + j" "j < 512" by (simp_all add: q_def j_def)
  then have k: "2 * k = 1024 * q + 2 * j" "j < 512" by simp_all
  have m: "2 * k mod 1024 = 2 * j" using k by simp
  have a: "pages (2 * k) = (if j = 0 then 1024 * q else 1024 * q + 1024)"
    using pages_split [of "2 * j" q] k by simp
  have b: "pages (2 * k + 2) = 1024 * q + 1024"
  proof (cases "j = 511")
    case True
    then show ?thesis using pages_split [of 0 "q + 1"] k by simp
  next
    case False
    then show ?thesis using pages_split [of "2 * j + 2" q] k by simp
  qed
  show "pages (2 * k + 2) = (if 2 * k mod 1024 = 0 then 2 * k + 1024 else pages (2 * k))"
    using a b m k by auto
  show "2 * k + 2 \<le> pages (2 * k + 2)" "pages (2 * k + 2) \<le> 2 * k + 1024" using b k by auto
  show "2 * k mod 1024 = 0 \<Longrightarrow> pages (2 * k) = 2 * k" using a m k by auto
  show "2 * k mod 1024 \<noteq> 0 \<Longrightarrow> 2 * k + 2 \<le> pages (2 * k)" using a m k by auto
qed

lemma low_bank: "unat a < 0x08080000 \<Longrightarrow> \<not> bank2 hw a"
  by (simp add: bank2_def FLASH_BASE_def word_le_nat_alt)

lemma erase_ok:
  assumes "fpec_ok hw" "prompt hw" "\<not> LOCK (FLASH_CR s)" "\<not> PG (FLASH_CR s)" "\<not> PER (FLASH_CR s)"
    and "unat p mod 1024 = 0" "unat p < 0x08080000"
  shows "mem (base_flash_erase_page hw p s) = (\<lambda>b. if unat (b - p) < 1024 then 0xFF else mem s b)"
    and "para_result (base_flash_erase_page hw p s) = 0"
    and "FLASH_CR (base_flash_erase_page hw p s) = FLASH_CR s"
proof -
  have "start_erase hw ((FLASH_CR s)\<lparr>PER := True\<rparr>) p (mem s)
      = (\<lambda>b. if unat (b - p) < 1024 then 0xFF else mem s b)"
    using assms(1,3,4,6) by (simp add: fpec_ok_def)
  then show "mem (base_flash_erase_page hw p s) = (\<lambda>b. if unat (b - p) < 1024 then 0xFF else mem s b)"
    using assms(2) low_bank [OF assms(7)]
    by (simp add: base_flash_erase_page_def Let_def dev_simps) (simp add: set_cr_def cr_of_def dev_simps)
  show "para_result (base_flash_erase_page hw p s) = 0"
    using assms(2) by (simp add: base_flash_erase_page_def Let_def dev_simps)
  show "FLASH_CR (base_flash_erase_page hw p s) = FLASH_CR s"
    using assms(2,5) low_bank [OF assms(7)]
    by (simp add: base_flash_erase_page_def Let_def dev_simps) (simp add: set_cr_def dev_simps)
qed

lemma program_ok:
  assumes "fpec_ok hw" "prompt hw" "\<not> LOCK (FLASH_CR s)" "\<not> PG (FLASH_CR s)" "\<not> PER (FLASH_CR s)"
    and "unat a mod 2 = 0" "unat a < 0x08080000" "mem s a = 0xFF" "mem s (a + 1) = 0xFF"
  shows "mem (base_flash_program_half_word hw a d s) = st16 a d (mem s)"
    and "para_result (base_flash_program_half_word hw a d s) = 0"
    and "FLASH_CR (base_flash_program_half_word hw a d s) = FLASH_CR s"
proof -
  have "mmio16 hw ((FLASH_CR s)\<lparr>PG := True\<rparr>) a d (mem s) = st16 a d (mem s)"
    using assms(1,3,5,6) ld16_erased [OF assms(8,9)] by (simp add: fpec_ok_def)
  then show "mem (base_flash_program_half_word hw a d s) = st16 a d (mem s)"
    using assms(2) low_bank [OF assms(7)]
    by (simp add: base_flash_program_half_word_def Let_def dev_simps) (simp add: set_cr_def cr_of_def dev_simps)
  show "para_result (base_flash_program_half_word hw a d s) = 0"
    using assms(2) by (simp add: base_flash_program_half_word_def Let_def dev_simps)
  show "FLASH_CR (base_flash_program_half_word hw a d s) = FLASH_CR s"
    using assms(2,4) low_bank [OF assms(7)]
    by (simp add: base_flash_program_half_word_def Let_def dev_simps) (simp add: set_cr_def dev_simps)
qed

text \<open>After the erase of a round its half word and the rest of its page are erased.\<close>

definition page_ready :: "memory \<Rightarrow> u32 \<Rightarrow> u32 \<Rightarrow> nat \<Rightarrow> memory" where
  "page_ready m dest src k = (\<lambda>b.
     if unat (b - dest) < 2 * k then m (src + (b - dest))
     else if unat (b - dest) < pages (2 * k + 2) then 0xFF else m b)"

lemma copyable_room:
  assumes "copyable dest src n" "k < n"
  shows "unat dest + pages (2 * k + 2) \<le> 2 ^ 32" "unat (dest + of_nat (2 * k)) = unat dest + 2 * k"
    "unat dest + 2 * k < 0x08080000" "k = 0 \<or> unat dest + pages (2 * k) < 2 ^ 32" "2 * k + 1024 \<le> 2 ^ 32"
proof -
  have d: "unat dest + 2 * n \<le> 0x08010000" using assms by (simp add: copyable_def)
  then show "unat dest + pages (2 * k + 2) \<le> 2 ^ 32" using pages_room [of k] assms(2) by simp
  show "unat (dest + of_nat (2 * k)) = unat dest + 2 * k"
    using d assms(2) by (intro unat_add_of_nat) simp
  show "unat dest + 2 * k < 0x08080000" "2 * k + 1024 \<le> 2 ^ 32" using d assms(2) by simp_all
  show "k = 0 \<or> unat dest + pages (2 * k) < 2 ^ 32"
    using pages_room(2) [of "k - 1"] d assms(2) by (cases k) simp_all
qed

lemma erase_round_copies:
  assumes hw: "fpec_ok hw" "prompt hw" and c: "copyable dest src n" "k < n" "copying m dest src n k s"
  shows "mem (erase_round hw s) = page_ready m dest src k"
    and "erase_end (erase_round hw s) = dest + of_nat (pages (2 * k + 2))"
    and "FLASH_CR (erase_round hw s) = FLASH_CR s"
    and "para_result (erase_round hw s) = 0"
proof -
  note room = copyable_room [OF c(1,2)]
  let ?erases = "dest_hw s \<ge> erase_end s \<or> dest_hw s < erase_start s"
  have erases: "?erases \<longleftrightarrow> 2 * k mod 1024 = 0"
  proof (cases "k = 0")
    case False
    have "unat (dest + of_nat (pages (2 * k))) = unat dest + pages (2 * k)"
      using room(4) False by (intro unat_add_of_nat) simp
    then have "?erases \<longleftrightarrow> pages (2 * k) \<le> 2 * k"
      using c(3) room(2) False
      by (simp add: copying_def word_le_nat_alt word_less_nat_alt)
    then show ?thesis using pages_full [of k] pages_open [of k] by fastforce
  qed (use c(3) in \<open>simp add: copying_def\<close>)
  have all: "mem (erase_round hw s) = page_ready m dest src k
      \<and> erase_end (erase_round hw s) = dest + of_nat (pages (2 * k + 2))
      \<and> FLASH_CR (erase_round hw s) = FLASH_CR s
      \<and> para_result (erase_round hw s) = 0"
  proof (cases "2 * k mod 1024 = 0")
    case True
    let ?p = "dest + of_nat (2 * k) :: u32"
    let ?s = "s\<lparr>erase_start := ?p, erase_end := ?p + FLASH_PAGE_SIZE\<rparr>"
    have p: "unat ?p mod 1024 = 0" "unat ?p < 0x08080000"
      using c(1) True room by (simp_all add: copyable_def mod_add_eq [symmetric])
    have cr: "\<not> LOCK (FLASH_CR ?s)" "\<not> PG (FLASH_CR ?s)" "\<not> PER (FLASH_CR ?s)"
      using c(3) by (simp_all add: copying_def)
    have r: "erase_round hw s = base_flash_erase_page hw ?p ?s"
      using True erases c(3) p(1) by (simp add: erase_round_def Let_def copying_def page_address)
    note e = erase_ok [OF hw cr p]
    have "pages (2 * k) = 2 * k" "pages (2 * k + 2) = 2 * k + 1024"
      using True pages_full [of k] pages_round [of k] by simp_all
    then have "mem (erase_round hw s) = page_ready m dest src k"
      using c(3) True room(5)
      by (simp add: r e(1) fun_eq_iff page_ready_def flashed_def copying_def unat_diff_offset
          del: of_nat_mult)
    moreover have "erase_end (erase_round hw s) = dest + of_nat (pages (2 * k + 2))"
      using \<open>pages (2 * k + 2) = 2 * k + 1024\<close> by (simp add: r dev_simps FLASH_PAGE_SIZE_def)
    ultimately show "mem (erase_round hw s) = page_ready m dest src k
      \<and> erase_end (erase_round hw s) = dest + of_nat (pages (2 * k + 2))
      \<and> FLASH_CR (erase_round hw s) = FLASH_CR s
      \<and> para_result (erase_round hw s) = 0"
      using e by (simp add: r)
  next
    case False
    then have "k \<noteq> 0" by auto
    moreover have "\<not> ?erases" using False unfolding erases .
    then have "erase_round hw s = s" by (auto simp add: erase_round_def)
    ultimately show "mem (erase_round hw s) = page_ready m dest src k
      \<and> erase_end (erase_round hw s) = dest + of_nat (pages (2 * k + 2))
      \<and> FLASH_CR (erase_round hw s) = FLASH_CR s
      \<and> para_result (erase_round hw s) = 0"
      using False c(3) \<open>\<not> ?erases\<close> pages_round [of k]
      by (simp add: copying_def page_ready_def flashed_def pages_round fun_eq_iff)
  qed
  then show "mem (erase_round hw s) = page_ready m dest src k"
    "erase_end (erase_round hw s) = dest + of_nat (pages (2 * k + 2))"
    "FLASH_CR (erase_round hw s) = FLASH_CR s" "para_result (erase_round hw s) = 0" by blast+
qed

text \<open>The source of the next half word is not among the bytes erased or written so far.\<close>

lemma source_offset:
  assumes "copyable dest src n" "2 * k \<le> j" "j \<le> 2 * k + 1" "k < n"
  shows "pages (2 * k + 2) \<le> unat (src + of_nat j - dest)"
proof -
  let ?g = "unat (src - dest)"
  have g: "1024 \<le> ?g" "?g + 2 * n \<le> 2 ^ 32" using assms(1) by (simp_all add: copyable_def)
  then have "unat (src + of_nat j - dest) = ?g + j"
    using unat_add_of_nat [of "src - dest" j] assms(3,4) by (simp add: algebra_simps)
  then show ?thesis using g assms(2) pages_room(2) [of k] by simp
qed

lemma page_ready_step:
  assumes "copyable dest src n" "k < n"
  shows "(page_ready m dest src k)
      (dest + of_nat (2 * k) := m (src + of_nat (2 * k)),
       dest + of_nat (2 * k) + 1 := m (src + of_nat (2 * k) + 1)) = flashed m dest src (2 * Suc k)"
proof
  fix b
  have lt: "2 * k + 1 < 2 ^ 32" using copyable_room(5) [OF assms] by simp
  have a: "b = dest + of_nat (2 * k) \<longleftrightarrow> unat (b - dest) = 2 * k"
    using unat_offset [of "2 * k" b dest] lt by simp
  have a1: "b = dest + of_nat (2 * k) + 1 \<longleftrightarrow> unat (b - dest) = 2 * k + 1"
    using unat_offset [of "2 * k + 1" b dest] lt by (simp add: ac_simps)
  have ne: "dest + of_nat (2 * k) + 1 \<noteq> dest + of_nat (2 * k)" by simp
  show "((page_ready m dest src k)
      (dest + of_nat (2 * k) := m (src + of_nat (2 * k)),
       dest + of_nat (2 * k) + 1 := m (src + of_nat (2 * k) + 1))) b = flashed m dest src (2 * Suc k) b"
  proof (cases "b = dest + of_nat (2 * k) \<or> b = dest + of_nat (2 * k) + 1")
    case True
    then have "unat (b - dest) < 2 * Suc k" using a a1 by auto
    then show ?thesis using True ne by (auto simp: flashed_def algebra_simps)
  next
    case False
    then have "unat (b - dest) < 2 * Suc k \<longleftrightarrow> unat (b - dest) < 2 * k" using a a1 by auto
    then show ?thesis using False by (simp add: page_ready_def flashed_def)
  qed
qed

lemma copy_round_copies:
  assumes hw: "fpec_ok hw" "prompt hw" and c: "copyable dest src n" "k < n" "copying m dest src n k s"
  shows "\<exists>s'. copy_round hw s = Next s' \<and> copying m dest src n (Suc k) s'"
proof -
  let ?t = "watch_round s" and ?a = "dest + of_nat (2 * k) :: u32" and ?b = "src + of_nat (2 * k) :: u32"
  define u where "u = erase_round hw ?t"
  have t: "copying m dest src n k ?t" using c(3) by (simp add: copying_def dev_simps)
  note e = erase_round_copies [OF hw c(1,2) t, folded u_def]
  note room = copyable_room [OF c(1,2)]
  have u: "dest_hw u = ?a" "src_hw u = ?b" "para_preview u = 0"
    using t by (simp_all add: u_def copying_def dev_simps)
  have cr: "\<not> LOCK (FLASH_CR u)" "\<not> PG (FLASH_CR u)" "\<not> PER (FLASH_CR u)"
    using t by (simp_all add: e(3) copying_def)
  have off: "unat (?a - dest) = 2 * k" "unat (?a + 1 - dest) = 2 * k + 1"
    using unat_offset [of "2 * k" ?a dest] unat_offset [of "2 * k + 1" "?a + 1" dest] room(5)
    by (simp_all add: ac_simps)
  have erased: "mem u ?a = 0xFF" "mem u (?a + 1) = 0xFF"
    using pages_room(1) [of k] off by (simp_all add: e(1) page_ready_def)
  have align: "unat ?a mod 2 = 0"
  proof -
    have "even (unat dest)" using c(1) by (auto simp: copyable_def dest: mod_0_imp_dvd elim!: dvd_trans [rotated])
    then show ?thesis using room(2) by simp
  qed
  have low: "unat ?a < 0x08080000" using room by simp
  define v where "v = base_flash_program_half_word hw ?a (ld16 (mem u) ?b) u"
  note pr = program_ok [OF hw cr align low erased, of "ld16 (mem u) ?b", folded v_def]
  have src: "page_ready m dest src k (src + of_nat j) = m (src + of_nat j)"
    "flashed m dest src (2 * Suc k) (src + of_nat j) = m (src + of_nat j)"
    if "2 * k \<le> j" "j \<le> 2 * k + 1" for j
    using source_offset [OF c(1) that c(2)] pages_room(1) [of k]
    by (simp_all add: page_ready_def flashed_def)
  have src0: "mem u ?b = m ?b" "mem u (?b + 1) = m (?b + 1)"
    using src(1) [of "2 * k"] src(1) [of "2 * k + 1"] by (simp_all add: e(1) ac_simps)
  have memv: "mem v = flashed m dest src (2 * Suc k)"
    unfolding pr(1) st16_ld16 src0 unfolding e(1) by (rule page_ready_step [OF c(1,2)])
  have "ld16 (mem v) ?a = ld16 (mem v) ?b"
  proof -
    have "mem v ?a = m ?b" "mem v (?a + 1) = m (?b + 1)"
      using off by (simp_all add: memv flashed_def algebra_simps)
    moreover have "mem v ?b = m ?b" "mem v (?b + 1) = m (?b + 1)"
      using src(2) [of "2 * k"] src(2) [of "2 * k + 1"] by (simp_all add: memv ac_simps)
    ultimately show ?thesis by (simp add: ld16_def)
  qed
  moreover have dv: "dest_hw v = ?a" "src_hw v = ?b" "para_preview v = 0"
    "half_word_count v = of_nat (n - k)" "bytes_flashed v = 2 * int k" "verified v"
    "flash_end v = 0x08010000" "erase_end v = dest + of_nat (pages (2 * k + 2))"
    using u t e(2) by (simp_all add: v_def u_def copying_def dev_simps)
  moreover have "base_flash_program_half_word hw (dest_hw u) (ld16 (mem u) (src_hw u)) u = v"
    by (simp only: u v_def)
  ultimately have "program_round hw u = Next (v\<lparr>erase_start := ?a + 2, dest_hw := ?a + 2,
      src_hw := ?b + 2, half_word_count := of_nat (n - k) - 1, bytes_flashed := 2 * int k + 2\<rparr>)"
    using u(3) pr(2) by (simp add: program_round_def Let_def)
  moreover have "copy_round hw s = program_round hw u"
  proof -
    have "unat ?a < 0x08010000" using c(1,2) room(2) by (simp add: copyable_def)
    then have "\<not> dest_hw ?t \<ge> flash_end ?t" using t by (simp add: copying_def word_le_nat_alt)
    then show ?thesis using e(4) by (auto simp add: copy_round_def Let_def u_def)
  qed
  moreover have "of_nat (n - k) - 1 = (of_nat (n - Suc k) :: u32)"
    using c(2) by (simp add: of_nat_diff)
  moreover have "dest + of_nat (2 * Suc k) = ?a + 2" "src + of_nat (2 * Suc k) = ?b + 2"
    by (simp_all add: algebra_simps)
  ultimately show ?thesis
    using dv memv cr pr(2,3) by (simp add: copying_def)
qed

lemma copy_loop_copies:
  assumes hw: "fpec_ok hw" "prompt hw" and c: "copyable dest src n" "k \<le> n" "copying m dest src n k s"
  shows "\<exists>s'. copy_loop hw s = Next s' \<and> copying m dest src n n s'"
  using c(2,3)
proof (induction "n - k" arbitrary: k s)
  case 0
  then have "half_word_count s = 0" "k = n" by (simp_all add: copying_def)
  with 0 show ?case by (subst copy_loop.simps) simp
next
  case (Suc j)
  then have k: "k < n" by simp
  then obtain s' where s': "copy_round hw s = Next s'" "copying m dest src n (Suc k) s'"
    using copy_round_copies [OF hw c(1) _ Suc.prems(2)] by blast
  have "2 * n \<le> 0x08010000" using c(1) by (simp add: copyable_def)
  then have "n - k < 2 ^ 32" by simp
  then have "unat (of_nat (n - k) :: u32) = n - k" by (simp add: unat_of_nat)
  then have "half_word_count s > 0"
    using Suc.prems(2) k by (simp add: copying_def word_less_nat_alt)
  moreover have "\<exists>t. copy_loop hw s' = Next t \<and> copying m dest src n n t"
    using Suc.hyps(1) [OF _ _ s'(2)] Suc.hyps(2) k by simp
  ultimately show ?case using s'(1) by (subst copy_loop.simps) simp
qed

definition same_request :: "'a Dev_scheme \<Rightarrow> 'a Dev_scheme \<Rightarrow> bool" where
  "same_request s t \<longleftrightarrow> para_dest t = para_dest s \<and> para_src t = para_src s \<and>
     para_byte_count t = para_byte_count s \<and> para_restart t = para_restart s \<and>
     para_preview t = para_preview s"

lemma copy_round_unchanged:
  "same_request s (round_state (copy_round hw s))"
  "restarted (round_state (copy_round hw s)) = restarted s"
  by (simp_all add: same_request_def copy_round_def program_round_def Let_def dev_simps)

lemma copy_loop_unchanged:
  "same_request s (round_state (copy_loop hw s)) \<and>
   restarted (round_state (copy_loop hw s)) = restarted s"
proof (induction hw s rule: copy_loop.induct)
  case (1 hw s)
  show ?case
  proof (cases "half_word_count s > 0 \<and> (\<exists>s'. copy_round hw s = Next s')")
    case True
    then obtain s' where s': "copy_round hw s = Next s'" by blast
    then have "same_request s' (round_state (copy_loop hw s')) \<and>
        restarted (round_state (copy_loop hw s')) = restarted s'" using 1 True by blast
    then show ?thesis
      using copy_round_unchanged [where s = s and hw = hw] s' True
      by (subst (1 2) copy_loop.simps) (simp add: same_request_def)
  next
    case False
    then show ?thesis
      using copy_round_unchanged [where s = s and hw = hw]
      by (subst (1 2) copy_loop.simps) (auto simp: same_request_def split: Round.splits)
  qed
qed

lemma same_request_finish: "same_request s (finish_request vt t) = same_request s t"
  by (simp add: same_request_def finish_request_def base_flash_lock_def Let_def)

lemma baseloader_same_request: "same_request s (baseloader_start hw vt s)"
proof (cases "invalid_request s")
  case None
  have "same_request s (opened hw s)"
    by (simp add: same_request_def opened_def base_flash_unlock_def base_disable_interrupts_def dev_simps)
  then have "same_request s (round_state (copy_loop hw (opened hw s)))"
    using copy_loop_unchanged [where s = "opened hw s" and hw = hw] by (simp add: same_request_def)
  then show ?thesis
    by (cases "copy_loop hw (opened hw s)")
      (simp_all add: baseloader_start_opened None same_request_finish)
next
  case (Some e)
  then show ?thesis
    by (cases e) (simp add: baseloader_start_opened same_request_def dev_simps)
qed

lemma baseloader_copies_lemma:
  assumes hw: "fpec_ok hw" "prompt hw"
    and req: "invalid_request s = None" "para_preview s = 0"
    and idle: "\<not> PG (FLASH_CR s)" "\<not> PER (FLASH_CR s)"
    and c: "copyable (para_dest s) (para_src s) n" "n = unat (para_byte_count s) div 2"
  shows "mem (baseloader_start hw vt s) = flashed (mem s) (para_dest s) (para_src s) (2 * n)"
    and "para_result (baseloader_start hw vt s) = 2 * int n"
    and "restarted (baseloader_start hw vt s) \<longleftrightarrow> para_restart s \<noteq> 0 \<or> restarted s"
    and "\<not> PG (FLASH_CR (baseloader_start hw vt s))" "\<not> PER (FLASH_CR (baseloader_start hw vt s))"
proof -
  have "unat (para_byte_count s div 2) = n" using c(2) by (simp add: unat_div)
  then have "para_byte_count s div 2 = of_nat n"
    using unat_u32_less [of "para_byte_count s div 2"] by (simp add: word_unat_eq_iff unat_of_nat)
  then have "copying (mem s) (para_dest s) (para_src s) n 0 (opened hw s)"
    using hw(1) req(2) idle
    by (simp add: copying_def dev_simps flashed_def pages_def fpec_ok_def)
  then obtain s' where s': "copy_loop hw (opened hw s) = Next s'"
      "copying (mem s) (para_dest s) (para_src s) n n s'"
    using copy_loop_copies [OF hw c(1)] by blast
  then have b: "baseloader_start hw vt s = finish_request vt s'"
    using req(1) by (simp add: baseloader_start_opened)
  have r: "para_restart s' = para_restart s" "restarted s' = restarted s"
    using copy_loop_unchanged [where s = "opened hw s" and hw = hw] s'(1) by (simp_all add: same_request_def dev_simps)
  show "mem (baseloader_start hw vt s) = flashed (mem s) (para_dest s) (para_src s) (2 * n)"
    "para_result (baseloader_start hw vt s) = 2 * int n"
    "restarted (baseloader_start hw vt s) \<longleftrightarrow> para_restart s \<noteq> 0 \<or> restarted s"
    "\<not> PG (FLASH_CR (baseloader_start hw vt s))" "\<not> PER (FLASH_CR (baseloader_start hw vt s))"
    using s'(2) r
    by (simp_all add: b copying_def finish_request_def base_flash_lock_def Let_def)
qed

section \<open>State of other components\<close>

text \<open>The Baseloader runs on states that other components extend: it leaves their part alone.\<close>

named_theorems more_simps \<open>operations that leave the extension of the device state alone\<close>

lemma wait_more [more_simps]: "Dev.more (base_flash_wait_for_last_operation hw e s) = Dev.more s"
  using wait_frame [of hw e s] by auto

lemma set_cr_more [more_simps]: "Dev.more (set_cr hw a f s) = Dev.more s"
  by (simp add: set_cr_def)

lemma program_more [more_simps]: "Dev.more (base_flash_program_half_word hw a d s) = Dev.more s"
  by (simp add: base_flash_program_half_word_def Let_def more_simps)

lemma erase_more [more_simps]: "Dev.more (base_flash_erase_page hw a s) = Dev.more s"
  by (simp add: base_flash_erase_page_def Let_def more_simps)

lemma erase_round_more [more_simps]: "Dev.more (erase_round hw s) = Dev.more s"
  by (simp add: erase_round_def Let_def more_simps)

lemma copy_round_more [more_simps]: "Dev.more (round_state (copy_round hw s)) = Dev.more s"
  by (simp add: copy_round_def program_round_def watch_round_def Let_def more_simps)

lemma copy_loop_more [more_simps]: "Dev.more (round_state (copy_loop hw s)) = Dev.more s"
proof (induction hw s rule: copy_loop.induct)
  case (1 hw s)
  show ?case
  proof (cases "half_word_count s > 0 \<and> (\<exists>s'. copy_round hw s = Next s')")
    case True
    then obtain s' where s': "copy_round hw s = Next s'" by blast
    then have "Dev.more (round_state (copy_loop hw s')) = Dev.more s'" using 1 True by blast
    then show ?thesis
      using copy_round_more [of hw s] s' True by (subst copy_loop.simps) simp
  next
    case False
    then show ?thesis
      using copy_round_more [of hw s] by (subst copy_loop.simps) (auto split: Round.splits)
  qed
qed

lemma finish_more [more_simps]: "Dev.more (finish_request vt s) = Dev.more s"
  by (simp add: finish_request_def base_flash_lock_def Let_def)

lemma opened_more [more_simps]: "Dev.more (opened hw s) = Dev.more s"
  by (simp add: opened_def base_flash_unlock_def base_disable_interrupts_def start_request_def)

lemma baseloader_more [more_simps]: "Dev.more (baseloader_start hw vt s) = Dev.more s"
proof (cases "invalid_request s")
  case None
  have "Dev.more (round_state (copy_loop hw (opened hw s))) = Dev.more s" by (simp add: more_simps)
  then show ?thesis
    by (cases "copy_loop hw (opened hw s)") (simp_all add: baseloader_start_opened None more_simps)
next
  case (Some e)
  then show ?thesis by (cases e) (simp add: baseloader_start_opened start_request_def)
qed

end
