(* ===== verification/Baseloader.thy ===== *)
theory Baseloader
  imports FlashLaws
begin

text \<open>
  The update of the bootloader, from the search for the new image to the restart: what
  \<^verbatim>\<open>baseloader_start\<close> reports in every case, and that \<^verbatim>\<open>prepare_baseloader\<close> either leaves the ROM
  alone or replaces the old bootloader by exactly the staged one.
\<close>

unbundle bit_operations_syntax

section \<open>A controller that meets the documented behaviour\<close>

definition f1 :: Fpec where
  "f1 = \<lparr>DESIG_FLASH_SIZE = 64, FLASH_SR = (\<lambda>_. 0), FLASH_SR2 = (\<lambda>_. 0),
     unlock_keys = (\<lambda>cr. cr\<lparr>LOCK := False\<rparr>),
     mmio16 = (\<lambda>cr a d m. if \<not> LOCK cr \<and> PG cr \<and> ld16 m a = 0xFFFF then st16 a d m else m),
     start_erase = (\<lambda>cr p m. if \<not> LOCK cr \<and> PER cr then (\<lambda>b. if unat (b - p) < 1024 then 0xFF else m b)
                             else m)\<rparr>"

lemma f1_ok: "fpec_ok f1" "prompt f1"
  by (auto simp: fpec_ok_def prompt_def busy_at_def f1_def st16_def)

section \<open>A preview\<close>

definition previewing :: "memory \<Rightarrow> u32 \<Rightarrow> nat \<Rightarrow> nat \<Rightarrow> FlashCr \<Rightarrow> 'a Dev_scheme \<Rightarrow> bool" where
  "previewing m dest n k cr s \<longleftrightarrow> mem s = m \<and> dest_hw s = dest + of_nat (2 * k) \<and>
     half_word_count s = of_nat (n - k) \<and> bytes_flashed s = 2 * int k \<and> verified s \<and>
     flash_end s = 0x08010000 \<and> para_preview s \<noteq> 0 \<and> para_result s = 0 \<and> FLASH_CR s = cr"

lemma preview_round:
  assumes "unat dest + 2 * n \<le> 0x08010000" "k < n" "previewing m dest n k cr s"
  shows "\<exists>s'. copy_round hw s = Next s' \<and> previewing m dest n (Suc k) cr s'"
proof -
  let ?t = "watch_round s"
  have lt: "unat (dest + of_nat (2 * k)) = unat dest + 2 * k"
    using assms(1,2) by (intro unat_add_of_nat) simp
  then have room: "\<not> dest_hw ?t \<ge> flash_end ?t"
    using assms by (simp add: previewing_def dev_simps word_le_nat_alt)
  obtain a b where e: "erase_round hw ?t = ?t\<lparr>erase_start := a, erase_end := b\<rparr>"
  proof (cases "dest_hw ?t \<ge> erase_end ?t \<or> dest_hw ?t < erase_start ?t")
    case True
    then show ?thesis using assms(3) that
      by (simp add: erase_round_def Let_def previewing_def dev_simps)
  next
    case False
    then have "erase_round hw ?t = ?t" by (auto simp add: erase_round_def)
    then show ?thesis using that [where a = "erase_start ?t" and b = "erase_end ?t"] by simp
  qed
  have pv: "para_preview ?t \<noteq> 0" using assms(3) by (simp add: previewing_def dev_simps)
  have "copy_round hw s = program_round hw (?t\<lparr>erase_start := a, erase_end := b\<rparr>)"
    using room pv by (simp add: copy_round_def Let_def e)
  also have "\<dots> = Next (?t\<lparr>erase_start := dest_hw ?t + 2, erase_end := b, dest_hw := dest_hw ?t + 2,
      src_hw := src_hw ?t + 2, half_word_count := half_word_count ?t - 1,
      bytes_flashed := bytes_flashed ?t + 2\<rparr>)"
    using pv by (simp add: program_round_def Let_def)
  moreover have "of_nat (n - k) - 1 = (of_nat (n - Suc k) :: u32)"
    using assms(2) by (simp add: of_nat_diff)
  ultimately show ?thesis
    using assms(3) by (simp add: previewing_def dev_simps algebra_simps)
qed

lemma preview_loop:
  assumes d: "unat dest + 2 * n \<le> 0x08010000" and c: "k \<le> n" "previewing m dest n k cr s"
  shows "\<exists>s'. copy_loop hw s = Next s' \<and> previewing m dest n n cr s'"
  using c
proof (induction "n - k" arbitrary: k s)
  case 0
  then have "half_word_count s = 0" "k = n" by (simp_all add: previewing_def)
  with 0 show ?case by (subst copy_loop.simps) simp
next
  case (Suc j)
  then have k: "k < n" by simp
  then obtain s' where s': "copy_round hw s = Next s'" "previewing m dest n (Suc k) cr s'"
    using preview_round [OF d _ Suc.prems(2)] by blast
  have "n - k < 2 ^ 32" using d by simp
  then have "unat (of_nat (n - k) :: u32) = n - k" by (simp add: unat_of_nat)
  then have "half_word_count s > 0"
    using Suc.prems(2) k by (simp add: previewing_def word_less_nat_alt)
  moreover have "\<exists>t. copy_loop hw s' = Next t \<and> previewing m dest n n cr t"
    using Suc.hyps(1) [OF _ _ s'(2)] Suc.hyps(2) k by simp
  ultimately show ?case using s'(1) by (subst copy_loop.simps) simp
qed

lemma preview_result:
  assumes "fpec_ok hw" "invalid_request s = None" "para_preview s \<noteq> 0"
    and "unat (para_dest s) + 2 * n \<le> 0x08010000" "n = unat (para_byte_count s) div 2"
  shows "mem (baseloader_start hw vt s) = mem s"
    and "para_result (baseloader_start hw vt s) = 2 * int n"
    and "restarted (baseloader_start hw vt s) = restarted s"
    and "FLASH_CR (baseloader_start hw vt s) = (FLASH_CR s)\<lparr>LOCK := True\<rparr>"
proof -
  have "para_byte_count s div 2 = of_nat n"
    using assms(5) unat_u32_less [of "para_byte_count s div 2"]
    by (simp add: word_unat_eq_iff unat_of_nat unat_div)
  then have "previewing (mem s) (para_dest s) n 0 ((FLASH_CR s)\<lparr>LOCK := False\<rparr>) (opened hw s)"
    using assms(1,3) by (simp add: previewing_def dev_simps fpec_ok_def)
  then obtain s' where s': "copy_loop hw (opened hw s) = Next s'"
      "previewing (mem s) (para_dest s) n n ((FLASH_CR s)\<lparr>LOCK := False\<rparr>) s'"
    using preview_loop [OF assms(4)] by blast
  then have b: "baseloader_start hw vt s = finish_request vt s'"
    using assms(2) by (simp add: baseloader_start_opened)
  have "restarted s' = restarted s"
    using copy_loop_unchanged [where s = "opened hw s" and hw = hw] s'(1) by (simp add: dev_simps)
  then show "mem (baseloader_start hw vt s) = mem s"
    "para_result (baseloader_start hw vt s) = 2 * int n"
    "restarted (baseloader_start hw vt s) = restarted s"
    "FLASH_CR (baseloader_start hw vt s) = (FLASH_CR s)\<lparr>LOCK := True\<rparr>"
    using s'(2) by (simp_all add: b previewing_def finish_request_def base_flash_lock_def Let_def)
qed

section \<open>Errors\<close>

text \<open>A request whose destination, count or source is outside the memory of the device is refused with
  the code of the first check it fails and the address at fault; the ROM, the lock and the
  interrupts are left alone.\<close>

lemma refused_request:
  assumes "invalid_request s = Some (code, address)"
  shows "para_result (baseloader_start hw vt s) = code \<and> para_fail (baseloader_start hw vt s) = address
    \<and> mem (baseloader_start hw vt s) = mem s \<and> FLASH_CR (baseloader_start hw vt s) = FLASH_CR s
    \<and> interrupts (baseloader_start hw vt s) = interrupts s"
  using assms by (simp_all add: baseloader_start_opened start_request_def)

lemma erase_stuck:
  assumes "\<And>n. busy_at hw n"
  shows "para_result (base_flash_erase_page hw p s) = - 12"
    and "mem (base_flash_erase_page hw p s) = mem s"
    and "FLASH_CR (base_flash_erase_page hw p s) = FLASH_CR s"
  by (simp_all add: base_flash_erase_page_def Let_def dev_simps wait_stuck [OF assms])

lemma stuck_round:
  assumes "\<And>n. busy_at hw n" "para_preview s = 0" "dest_hw s < flash_end s" "erase_end s = 0"
  shows "copy_round hw s = Return (erase_round hw (watch_round s))"
    and "para_result (erase_round hw (watch_round s)) = - 12"
    and "mem (erase_round hw (watch_round s)) = mem s"
    and "FLASH_CR (erase_round hw (watch_round s)) = FLASH_CR s"
proof -
  let ?t = "watch_round s"
  have e: "erase_round hw ?t = base_flash_erase_page hw (base_get_flash_page_address (dest_hw s))
      (?t\<lparr>erase_start := base_get_flash_page_address (dest_hw s),
          erase_end := base_get_flash_page_address (dest_hw s) + FLASH_PAGE_SIZE\<rparr>)"
    using assms by (simp add: erase_round_def Let_def dev_simps)
  show r: "para_result (erase_round hw ?t) = - 12" "mem (erase_round hw ?t) = mem s"
    "FLASH_CR (erase_round hw ?t) = FLASH_CR s"
    by (simp_all add: e erase_stuck [OF assms(1)] dev_simps)
  show "copy_round hw s = Return (erase_round hw ?t)"
    using assms r(1) by (simp add: copy_round_def Let_def dev_simps not_le)
qed

lemma busy_lemma:
  assumes stuck: "\<And>n. busy_at hw n" and "fpec_ok hw"
    and req: "invalid_request s = None" "para_preview s = 0"
      "2 \<le> unat (para_byte_count s)" "unat (para_dest s) < 0x08010000"
  shows "para_result (baseloader_start hw vt s) = - 12 \<and> mem (baseloader_start hw vt s) = mem s
    \<and> restarted (baseloader_start hw vt s) = restarted s \<and> \<not> LOCK (FLASH_CR (baseloader_start hw vt s))"
proof -
  let ?o = "opened hw s"
  have "1 \<le> unat (para_byte_count s) div 2" using req(3) by (simp add: div_le_mono [of 2 _ 2, simplified])
  then have n: "half_word_count ?o > 0" by (simp add: dev_simps word_less_nat_alt unat_div)
  have o: "para_preview ?o = 0" "dest_hw ?o < flash_end ?o" "erase_end ?o = 0"
    using req(2,4) by (simp_all add: dev_simps word_less_nat_alt)
  note r = stuck_round [OF stuck o]
  have "copy_loop hw ?o = Return (erase_round hw (watch_round ?o))"
    using n r(1) by (subst copy_loop.simps) simp
  then have "baseloader_start hw vt s = erase_round hw (watch_round ?o)"
    using req(1) by (simp add: baseloader_start_opened)
  then show ?thesis using r assms(2) by (simp add: dev_simps fpec_ok_def)
qed

text \<open>C11. A controller that never becomes ready does not hang the Baseloader: it gives up with -12
  after 256 polls, changes nothing and does not restart the device. It leaves the flash interface unlocked.\<close>

theorem busy_controller:
  assumes "\<And>n. busy_at hw n" and "fpec_ok hw"
    and "invalid_request s = None" "para_preview s = 0"
      "2 \<le> unat (para_byte_count s)" "unat (para_dest s) < 0x08010000"
  shows "para_result (baseloader_start hw vt s) = - 12 \<and> mem (baseloader_start hw vt s) = mem s
    \<and> restarted (baseloader_start hw vt s) = restarted s \<and> \<not> LOCK (FLASH_CR (baseloader_start hw vt s))"
  using assms by (rule busy_lemma)

section \<open>The update\<close>

definition rom_eq :: "memory \<Rightarrow> memory \<Rightarrow> bool" where
  "rom_eq m m' \<longleftrightarrow> (\<forall>b. unat b < 0x08010000 \<longrightarrow> m b = m' b)"

lemma rom_eq_ld32: "rom_eq m m' \<Longrightarrow> unat a + 3 < 0x08010000 \<Longrightarrow> ld32 m a = ld32 m' a"
  unfolding ld32_def ld16_def rom_eq_def
  by (simp add: unat_word_ariths add.assoc)

text \<open>The buffers of the bootloader lie in RAM, above the ROM, and hold a page each.\<close>

definition ram_buffer :: "u32 \<Rightarrow> bool" where
  "ram_buffer a \<longleftrightarrow> 0x08010000 \<le> unat a \<and> unat a + 1024 \<le> 2 ^ 32"

lemma ram_st32: "ram_buffer a \<Longrightarrow> k < 1000 \<Longrightarrow> rom_eq m m' \<Longrightarrow> rom_eq m (st32 (a + of_nat k) v m')"
proof -
  assume a: "ram_buffer a" and k: "k < 1000" and m: "rom_eq m m'"
  have "unat (a + of_nat (k + j)) = unat a + (k + j)" if "j < 4" for j
    using a k that by (intro unat_add_of_nat) (simp add: ram_buffer_def)
  from this [of 0] this [of 1] this [of 2] this [of 3]
  have "unat (a + of_nat k) \<ge> 0x08010000" "unat (a + of_nat k + 1) \<ge> 0x08010000"
    "unat (a + of_nat k + 2) \<ge> 0x08010000" "unat (a + of_nat k + 2 + 1) \<ge> 0x08010000"
    using a by (simp_all add: ram_buffer_def ac_simps)
  then show ?thesis using m by (auto simp: rom_eq_def st32_def st16_def)
qed

lemma ram_memset0: "ram_buffer a \<Longrightarrow> n \<le> 1024 \<Longrightarrow> rom_eq m (memset0 m a n)"
proof -
  assume a: "ram_buffer a" and n: "n \<le> 1024"
  have "\<not> unat (b - a) < n" if "unat b < 0x08010000" for b :: u32
    using that a n unat_diff_gr [of b a]
    by (auto simp add: ram_buffer_def word_less_nat_alt)
  then show ?thesis by (simp add: rom_eq_def memset0_def)
qed

lemma temporary_vectors_rom:
  assumes "ram_buffer (flashBuf lay)" "sizeof_vector_table lay \<le> 1024"
  shows "rom_eq (mem s) (mem (temporary_vectors lay s))"
proof -
  have "rom_eq (mem s) (memset0 (mem s) (flashBuf lay) (sizeof_vector_table lay))"
    using assms by (rule ram_memset0)
  then show ?thesis
    using ram_st32 [OF assms(1), of 0] ram_st32 [OF assms(1), of 4]
    by (simp add: temporary_vectors_def Let_def)
qed

text \<open>
  A staged image of \<open>len\<close> bytes: where the application was, a Base Vector Table whose application
  starts \<open>len\<close> bytes after the start of the ROM; right behind the image a second table; and room for both.
\<close>

definition staged :: "Layout \<Rightarrow> memory \<Rightarrow> nat \<Rightarrow> bool" where
  "staged lay m len \<longleftrightarrow>
     unat (base_vector_table lay AND 1023) + 24 \<le> 1024 \<and>
     0x08000400 \<le> unat (FLASH_ADDRESS (application_start lay)) \<and>
     unat (application_start lay) + len + 1024 < 0x08010000 \<and> 0 < len \<and>
     IS_VALID_BASE_VECTOR_TABLE m (base_vector_table lay) (application_start lay) \<and>
     unat (FLASH_ADDRESS (vector_application m (BASE_VECTOR_TABLE (base_vector_table lay) (application_start lay))))
       = 0x08000000 + len \<and>
     IS_VALID_BASE_VECTOR_TABLE m (base_vector_table lay)
       (FLASH_ADDRESS (application_start lay) + of_nat len)"

text \<open>The Baseloader of the new image, at its place behind the staged bootloader.\<close>

definition new_baseloader :: "Layout \<Rightarrow> memory \<Rightarrow> nat \<Rightarrow> u32" where
  "new_baseloader lay m len =
     (let page = FLASH_ADDRESS (application_start lay) + of_nat len
      in vector_baseloader m (BASE_VECTOR_TABLE (base_vector_table lay) page) - FLASH_BASE + page)"

lemma table_address:
  assumes "unat (t AND 1023) + 24 \<le> 1024" "unat (FLASH_ADDRESS x) + 1024 \<le> 0x08010000"
  shows "unat (BASE_VECTOR_TABLE t x) + 24 \<le> 0x08010000"
  using assms unat_word_ariths(1) [of "FLASH_ADDRESS x" "t AND 1023"]
  by (simp add: BASE_VECTOR_TABLE_def FLASH_PAGE_SIZE_def)

lemma table_word:
  assumes "rom_eq m m'" "unat a + 24 \<le> 0x08010000" "k \<le> 20"
  shows "ld32 m (a + of_nat k) = ld32 m' (a + of_nat k)"
proof -
  have "unat (a + of_nat k) = unat a + k" using assms(2,3) by (intro unat_add_of_nat) simp
  then show ?thesis using assms by (intro rom_eq_ld32) simp_all
qed

lemma table_words:
  assumes "rom_eq m m'" "unat a + 24 \<le> 0x08010000"
  shows "vector_magic_number m a = vector_magic_number m' a"
    and "vector_baseloader m a = vector_baseloader m' a"
    and "vector_application m a = vector_application m' a"
    and "vector_magic_number2 m a = vector_magic_number2 m' a"
  using table_word [OF assms, of 0] table_word [OF assms, of 8] table_word [OF assms, of 16]
    table_word [OF assms, of 20]
  by (simp_all add: vector_magic_number_def vector_baseloader_def vector_application_def
      vector_magic_number2_def)

lemma staged_rom:
  assumes "rom_eq m m'" "staged lay m len"
  shows "staged lay m' len" and "new_baseloader lay m' len = new_baseloader lay m len"
proof -
  let ?t = "base_vector_table lay" and ?app = "application_start lay"
  let ?page = "FLASH_ADDRESS ?app + of_nat len"
  have le: "unat (FLASH_ADDRESS ?app) \<le> unat ?app" by (simp add: unat_FLASH_ADDRESS)
  then have "unat (FLASH_ADDRESS ?app) + len < 2 ^ 32" using assms(2) by (simp add: staged_def)
  then have page: "unat ?page = unat (FLASH_ADDRESS ?app) + len" by (rule unat_add_of_nat)
  have "unat (FLASH_ADDRESS ?page) \<le> unat ?page" by (simp add: unat_FLASH_ADDRESS)
  then have r: "unat (FLASH_ADDRESS ?app) + 1024 \<le> 0x08010000" "unat (FLASH_ADDRESS ?page) + 1024 \<le> 0x08010000"
    using le page assms(2) by (simp_all add: staged_def)
  have o: "unat (?t AND 1023) + 24 \<le> 1024" using assms(2) by (simp add: staged_def)
  note w = table_words [OF assms(1) table_address [OF o r(1)]]
    table_words [OF assms(1) table_address [OF o r(2)]]
  show "staged lay m' len"
    using assms(2) by (simp add: staged_def IS_VALID_BASE_VECTOR_TABLE_def w)
  show "new_baseloader lay m' len = new_baseloader lay m len"
    by (simp add: new_baseloader_def Let_def w)
qed

lemma fetch_staged:
  assumes "staged lay (mem s) len"
  shows "baseloader_fetch (base_vector_table lay) (application_start lay) True p s out
    = (0, s, \<lparr>baseloader_addr = new_baseloader lay (mem s) len, fetch_dest = FLASH_BASE,
         fetch_src = FLASH_ADDRESS (application_start lay), fetch_count = of_nat len\<rparr>)"
proof -
  let ?t = "base_vector_table lay" and ?app = "application_start lay"
  let ?a = "FLASH_ADDRESS (vector_application (mem s) (BASE_VECTOR_TABLE ?t ?app))"
  have a: "unat ?a = 0x08000000 + len" "len < 0x10000"
    using assms by (auto simp: staged_def unat_FLASH_ADDRESS)
  have len: "?a - FLASH_BASE = of_nat len"
    using a by (simp add: word_unat_eq_iff FLASH_BASE_def unat_diff_le word_le_nat_alt unat_of_nat)
  have "unat (?app + of_nat len) = unat ?app + len"
    using assms by (intro unat_add_of_nat) (simp add: staged_def)
  then have "unat (?app + of_nat len + FLASH_PAGE_SIZE) = unat ?app + len + 1024"
    using assms unat_add_of_nat [of "?app + of_nat len" 1024]
    by (simp add: staged_def FLASH_PAGE_SIZE_def)
  then have "\<not> ?app + of_nat len + FLASH_PAGE_SIZE \<ge> FLASH_BASE + FLASH_SIZE_OVERRIDE"
    using assms by (simp add: staged_def FLASH_BASE_def FLASH_SIZE_OVERRIDE_def word_le_nat_alt)
  then show ?thesis
    using assms by (simp add: baseloader_fetch_def Let_def len staged_def new_baseloader_def)
qed

text \<open>The request \<open>prepare_baseloader\<close> makes, for a preview or for good.\<close>

lemma update_request:
  assumes st: "staged lay m len"
    and s: "para_dest s = FLASH_BASE" "para_src s = FLASH_ADDRESS (application_start lay)"
      "para_byte_count s = of_nat len"
  shows "invalid_request s = None" and "copyable FLASH_BASE (FLASH_ADDRESS (application_start lay)) (len div 2)"
    and "unat (para_byte_count s) div 2 = len div 2" and "len mod 1024 = 0" and "even len"
    and "unat FLASH_BASE + 2 * (len div 2) \<le> 0x08010000"
proof -
  let ?app = "application_start lay"
  have len: "len < 0x10000" using st by (auto simp: staged_def unat_FLASH_ADDRESS)
  have n: "unat (of_nat len :: u32) = len" using len by (simp add: unat_of_nat)
  show "unat (para_byte_count s) div 2 = len div 2" by (simp add: s n)
  have "1024 dvd unat (FLASH_ADDRESS x)" for x by (simp add: unat_FLASH_ADDRESS)
  then have "1024 dvd 0x08000000 + len" using st unfolding staged_def by metis
  then have "1024 dvd len" by (subst (asm) dvd_add_right_iff) simp_all
  then show dv: "len mod 1024 = 0" by simp
  then show ev: "even len" using \<open>1024 dvd len\<close> by (auto elim: dvd_trans [rotated])
  have le: "unat (FLASH_ADDRESS ?app) \<le> unat ?app" by (simp add: unat_FLASH_ADDRESS)
  have f: "FLASH_BASE \<le> FLASH_ADDRESS ?app" using st
    by (simp add: staged_def FLASH_BASE_def word_le_nat_alt)
  show "unat FLASH_BASE + 2 * (len div 2) \<le> 0x08010000" using len ev by (simp add: FLASH_BASE_def)
  show "copyable FLASH_BASE (FLASH_ADDRESS ?app) (len div 2)"
    using st len ev le f
    by (auto simp add: copyable_def FLASH_BASE_def unat_diff_le staged_def)
  have "unat (FLASH_BASE + of_nat len) = 0x08000000 + len"
    using unat_add_of_nat [of FLASH_BASE len] len by (simp add: FLASH_BASE_def)
  moreover have "unat (FLASH_ADDRESS ?app + of_nat len) = unat (FLASH_ADDRESS ?app) + len"
    using st le by (intro unat_add_of_nat) (simp add: staged_def)
  ultimately show "invalid_request s = None"
    using st le len
    by (simp add: invalid_request_def Let_def s staged_def word_le_nat_alt word_less_nat_alt FLASH_BASE_def)
qed

lemma bootloader_update_lemma:
  assumes hw: "fpec_ok hw" "prompt hw"
    and idle: "\<not> PG (FLASH_CR s)" "\<not> PER (FLASH_CR s)"
    and buf: "ram_buffer (flashBuf lay)" "sizeof_vector_table lay \<le> 1024"
    and st: "staged lay (mem s) len"
    and code: "new_baseloader lay (mem s) len \<noteq> 0"
      "code (new_baseloader lay (mem s) len) = baseloader_start hw vt"
  shows "restarted (prepare_baseloader lay code p s) \<and> para_result (prepare_baseloader lay code p s) = int len \<and>
    (\<forall>b. unat b < 0x08010000 \<longrightarrow> mem (prepare_baseloader lay code p s) b =
       (if unat (b - FLASH_BASE) < len
        then mem s (FLASH_ADDRESS (application_start lay) + (b - FLASH_BASE)) else mem s b))"
proof -
  define t where "t = temporary_vectors lay s"
  have rom: "rom_eq (mem s) (mem t)" unfolding t_def using buf by (rule temporary_vectors_rom)
  have st': "staged lay (mem t) len" and nb: "new_baseloader lay (mem t) len = new_baseloader lay (mem s) len"
    using staged_rom [OF rom st] .
  define u where "u = t\<lparr>para_dest := FLASH_BASE, para_src := FLASH_ADDRESS (application_start lay),
      para_byte_count := of_nat len, para_restart := 1, para_preview := 1\<rparr>"
  define v where "v = baseloader_start hw vt u"
  define w where "w = v\<lparr>SCB_VTOR := flashBuf lay, para_preview := 0\<rparr>"
  have lens: "len < 0x10000" "0 < len" using st by (auto simp: staged_def unat_FLASH_ADDRESS)
  have u: "para_dest u = FLASH_BASE" "para_src u = FLASH_ADDRESS (application_start lay)"
    "para_byte_count u = of_nat len" "para_preview u \<noteq> 0" "mem u = mem t" "FLASH_CR u = FLASH_CR s"
    by (simp_all add: u_def t_def temporary_vectors_def Let_def)
  note ru = update_request [OF st' u(1-3)]
  have "unat (para_dest u) + 2 * (len div 2) \<le> 0x08010000" using ru(6) u(1) by simp
  note pv = preview_result [OF hw(1) ru(1) u(4) this ru(3) [symmetric], of vt, folded v_def]
  have two: "2 * int (len div 2) = int len" using ru(5) by (auto elim: evenE)
  have same: "same_request u v" unfolding v_def by (rule baseloader_same_request)
  then have w: "para_dest w = FLASH_BASE" "para_src w = FLASH_ADDRESS (application_start lay)"
    "para_byte_count w = of_nat len" "para_preview w = 0" "para_restart w = 1"
    "mem w = mem t" "FLASH_CR w = (FLASH_CR s)\<lparr>LOCK := True\<rparr>"
    using u pv by (simp_all add: w_def same_request_def) (simp add: u_def)
  note rw = update_request [OF st' w(1-3)]
  have "copyable (para_dest w) (para_src w) (len div 2)" using rw(2) w(1,2) by simp
  moreover have "\<not> PG (FLASH_CR w)" "\<not> PER (FLASH_CR w)" using idle w(7) by simp_all
  ultimately have run: "mem (baseloader_start hw vt w) = flashed (mem w) (para_dest w) (para_src w) (2 * (len div 2))"
      "para_result (baseloader_start hw vt w) = 2 * int (len div 2)" "restarted (baseloader_start hw vt w)"
    using baseloader_copies_lemma [OF hw rw(1) w(4) _ _ _ rw(3) [symmetric], of vt] w(5) by simp_all
  have "baseloader_fetch (base_vector_table lay) (application_start lay) True p t no_address
      = (0, t, \<lparr>baseloader_addr = new_baseloader lay (mem s) len, fetch_dest = FLASH_BASE,
           fetch_src = FLASH_ADDRESS (application_start lay), fetch_count = of_nat len\<rparr>)"
    using fetch_staged [OF st'] nb by simp
  moreover have "para_result v > 0" using pv(2) lens two by simp
  ultimately have b: "prepare_baseloader lay code p s = baseloader_start hw vt w"
    using code by (simp add: prepare_baseloader_def Let_def t_def [symmetric] u_def [symmetric]
        v_def [symmetric] w_def [symmetric])
  have "2 * (len div 2) = len" using ru(5) by simp
  then have "pages len = len" using pages_full [of "len div 2"] ru(4) by simp
  then have m: "mem (prepare_baseloader lay code p s)
      = (\<lambda>b. if unat (b - FLASH_BASE) < len
             then mem t (FLASH_ADDRESS (application_start lay) + (b - FLASH_BASE)) else mem t b)"
    using run(1) w by (simp add: b \<open>2 * (len div 2) = len\<close> flashed_def fun_eq_iff)
  have src: "unat (FLASH_ADDRESS (application_start lay) + d) < 0x08010000" if "unat d < len" for d
  proof -
    have "unat (FLASH_ADDRESS (application_start lay)) \<le> unat (application_start lay)"
      by (simp add: unat_FLASH_ADDRESS)
    then show ?thesis
      using st that unat_word_ariths(1) [of "FLASH_ADDRESS (application_start lay)" d]
      by (simp add: staged_def)
  qed
  have "mem (prepare_baseloader lay code p s) b = (if unat (b - FLASH_BASE) < len
        then mem s (FLASH_ADDRESS (application_start lay) + (b - FLASH_BASE)) else mem s b)"
    if "unat b < 0x08010000" for b
    using that rom src [of "b - FLASH_BASE"] unfolding m rom_eq_def by auto
  then show ?thesis using run two by (simp add: b)
qed

text \<open>C9. The update of the bootloader is exact. When the old application area holds a staged image with its
  two Base Vector Tables and the controller behaves as documented, the bootloader in Baseloader Mode
  finds the image, checks it in a preview, and restarts the device with the first \<open>len\<close> bytes of the ROM replaced by
  the staged bytes, also where the image overlaps the area it is copied to, and every other byte
  of the ROM unchanged.\<close>

theorem bootloader_update:
  assumes "fpec_ok hw" "prompt hw"
    and "\<not> PG (FLASH_CR s)" "\<not> PER (FLASH_CR s)"
    and "ram_buffer (flashBuf lay)" "sizeof_vector_table lay \<le> 1024"
    and "staged lay (mem s) len"
    and "new_baseloader lay (mem s) len \<noteq> 0"
      "code (new_baseloader lay (mem s) len) = baseloader_start hw vt"
  shows "restarted (prepare_baseloader lay code p s) \<and> para_result (prepare_baseloader lay code p s) = int len \<and>
    (\<forall>b. unat b < 0x08010000 \<longrightarrow> mem (prepare_baseloader lay code p s) b =
       (if unat (b - FLASH_BASE) < len
        then mem s (FLASH_ADDRESS (application_start lay) + (b - FLASH_BASE)) else mem s b))"
  using assms by (rule bootloader_update_lemma)

definition blank_dev :: "memory \<Rightarrow> Dev" where
  "blank_dev m =
     \<lparr>mem = m, para_dest = 0, para_src = 0, para_byte_count = 0, para_restart = 0, para_preview = 0,
      para_result = 0, para_fail = 0, dest_hw = 0, src_hw = 0, half_word_count = 0, bytes_flashed = 0,
      verified = False, erase_start = 0, erase_end = 0, flash_end = 0, flags = 0,
      FLASH_CR = \<lparr>PG = False, PER = False, LOCK = True\<rparr>,
      FLASH_CR2 = \<lparr>PG = False, PER = False, LOCK = True\<rparr>, status_reads = 0, interrupts = True,
      SCB_VTOR = 0, MSP = 0, restarted = False, debug_base_result = 0\<rparr>"

definition demo_layout :: Layout where
  "demo_layout = \<lparr>base_vector_table = 0x08000150, application_start = 0x08007400,
     flashBuf = 0x20004800, vector_table = 0x08000000, sizeof_vector_table = 336, boot_stack = 0x20004700,
     APP_BASE_ADDRESS = 0x08007400\<rparr>"

text \<open>A new bootloader of 2 KB staged at the application, its second table behind it.\<close>

definition demo_table :: "u32 \<Rightarrow> memory \<Rightarrow> memory" where
  "demo_table a m = st32 a BASE_MAGIC_NUMBER (st32 (a + 8) 0x08000169 (st32 (a + 16) 0x08000801
     (st32 (a + 20) BASE_MAGIC_NUMBER2 m)))"

definition demo_rom :: memory where
  "demo_rom = demo_table 0x08007550 (demo_table 0x08007D50 (\<lambda>a. if a = 0x08007400 then 0x42 else 0x11))"

lemma demo_words:
  "ld32 demo_rom 0x08007550 = BASE_MAGIC_NUMBER" "ld32 demo_rom 0x08007560 = 0x08000801"
  "ld32 demo_rom 0x08007564 = BASE_MAGIC_NUMBER2" "ld32 demo_rom 0x08007D50 = BASE_MAGIC_NUMBER"
  "ld32 demo_rom 0x08007D58 = 0x08000169" "ld32 demo_rom 0x08007D64 = BASE_MAGIC_NUMBER2"
  by (simp_all add: demo_rom_def demo_table_def ld32_st32_other)

lemma demo_staged: "staged demo_layout demo_rom 2048" "new_baseloader demo_layout demo_rom 2048 = 0x08007D69"
proof -
  have f: "FLASH_ADDRESS 0x08007400 = 0x08007400" "FLASH_ADDRESS 0x08007C00 = 0x08007C00"
    "FLASH_ADDRESS 0x08000801 = 0x08000800"
    by (simp_all add: FLASH_ADDRESS_push push_bit_eq_mult drop_bit_eq_div)
  show "staged demo_layout demo_rom 2048" "new_baseloader demo_layout demo_rom 2048 = 0x08007D69"
    by (simp_all add: staged_def demo_layout_def IS_VALID_BASE_VECTOR_TABLE_def BASE_VECTOR_TABLE_def
        vector_magic_number_def vector_magic_number2_def vector_application_def new_baseloader_def
        vector_baseloader_def FLASH_PAGE_SIZE_def FLASH_BASE_def f demo_words Let_def)
qed

theorem bootloader_update_witness:
  "mem (prepare_baseloader demo_layout (\<lambda>_. baseloader_start f1 0x08000000) 0 (blank_dev demo_rom)) 0x08000000 = 0x42"
proof -
  let ?s = "prepare_baseloader demo_layout (\<lambda>_. baseloader_start f1 0x08000000) 0 (blank_dev demo_rom)"
  have m: "mem (blank_dev demo_rom) = demo_rom" by (simp add: blank_dev_def)
  have "restarted ?s \<and> para_result ?s = int 2048 \<and>
    (\<forall>b. unat b < 0x08010000 \<longrightarrow> mem ?s b = (if unat (b - FLASH_BASE) < 2048
        then demo_rom (FLASH_ADDRESS (application_start demo_layout) + (b - FLASH_BASE)) else demo_rom b))"
    using bootloader_update [OF f1_ok, where s = "blank_dev demo_rom" and lay = demo_layout and len = 2048
        and code = "\<lambda>_. baseloader_start f1 0x08000000" and vt = "0x08000000" and p = 0] demo_staged
    by (simp only: m) (simp add: blank_dev_def demo_layout_def ram_buffer_def)
  then have "mem ?s FLASH_BASE = demo_rom (FLASH_ADDRESS (application_start demo_layout))"
    by (simp add: FLASH_BASE_def)
  moreover have "demo_rom (FLASH_ADDRESS (application_start demo_layout)) = 0x42" by code_simp
  ultimately show ?thesis by (simp add: FLASH_BASE_def)
qed


definition stuck_f1 :: Fpec where
  "stuck_f1 = f1\<lparr>FLASH_SR := (\<lambda>_. 1)\<rparr>"

lemma stuck_f1_ok: "fpec_ok stuck_f1" "busy_at stuck_f1 n"
  using f1_ok(1) by (simp_all add: stuck_f1_def fpec_ok_def busy_at_def)

definition copy_request :: Dev where
  "copy_request = (blank_dev (\<lambda>_. 0x11))\<lparr>para_dest := 0x08008000, para_src := 0x20000000,
     para_byte_count := 4, para_restart := 1\<rparr>"


theorem busy_controller_witness:
  "para_result (baseloader_start stuck_f1 0 copy_request) = - 12"
proof -
  have "invalid_request copy_request = None"
    by (simp add: copy_request_def blank_dev_def invalid_request_def)
  then show ?thesis
    using busy_controller [OF stuck_f1_ok(2,1), where s = copy_request and vt = 0]
    by (simp add: copy_request_def blank_dev_def)
qed

end
