(* ===== verification/BootTarget.thy ===== *)
theory BootTarget
  imports Baseloader
begin

text \<open>
  How the device decides between its three startup modes
  (\<^verbatim>\<open>stm32/bootloader/stm32f103/target_stm32f103.c\<close> and \<^verbatim>\<open>backup.c\<close>): a command word in a backup register,
  written before a restart and cleared when it is read, and the first instruction of the application.
  \<open>app\<close> is \<^verbatim>\<open>APP_BASE_ADDRESS\<close>. A restart keeps the memory and the backup registers; the static
  variables of the file take their initial values.
\<close>

unbundle bit_operations_syntax

datatype StartupMode = UNKNOWN_MODE | BASELOADER_MODE | BOOTLOADER_MODE | APPLICATION_MODE

text \<open>The backup registers hold 16 bits each: a word takes two of them.\<close>

record Boot = Dev +
  RTC_BKP_DR :: "nat \<Rightarrow> u16"
  startup_mode :: StartupMode
  forced_startup_mode :: StartupMode

definition BKP0 :: nat where
  "BKP0 = 0"

definition backup_write :: "nat \<Rightarrow> u32 \<Rightarrow> 'a Boot_scheme \<Rightarrow> 'a Boot_scheme" where
  "backup_write reg value s =
     s\<lparr>RTC_BKP_DR := (RTC_BKP_DR s)
         (reg * 2 := ucast (value AND 0xFFFF),
          reg * 2 + 1 := ucast (drop_bit 16 (value AND 0xFFFF0000)))\<rparr>"

definition backup_read :: "nat \<Rightarrow> 'a Boot_scheme \<Rightarrow> u32" where
  "backup_read reg s = push_bit 16 (ucast (RTC_BKP_DR s (reg * 2 + 1))) OR ucast (RTC_BKP_DR s (reg * 2))"

definition CMD_BASE :: u32 where
  "CMD_BASE = 0x45534142"

definition CMD_BOOT :: u32 where
  "CMD_BOOT = 0x544F4F42"

definition CMD_APP :: u32 where
  "CMD_APP = 0x3f82722a"

definition validate_application :: "u32 \<Rightarrow> memory \<Rightarrow> bool" where
  "validate_application app m =
     (let first_word = ld32 m app
      in first_word AND 0xff00 = 0xb500 \<or> first_word AND 0xff000000 = 0xb5000000)"

definition boot_target_get_startup_mode :: "u32 \<Rightarrow> 'a Boot_scheme \<Rightarrow> StartupMode \<times> 'a Boot_scheme" where
  "boot_target_get_startup_mode app s =
     (if startup_mode s \<noteq> UNKNOWN_MODE then (startup_mode s, s)
      else
        let appValid = validate_application app (mem s);
            cmd = backup_read BKP0 s;
            s = backup_write BKP0 0 s;
            s = (if cmd = CMD_BASE then backup_write BKP0 CMD_BOOT (s\<lparr>forced_startup_mode := BASELOADER_MODE\<rparr>)
                 else if cmd = CMD_BOOT then s\<lparr>forced_startup_mode := BOOTLOADER_MODE\<rparr>
                 else if cmd = CMD_APP then s\<lparr>forced_startup_mode := APPLICATION_MODE\<rparr>
                 else s\<lparr>forced_startup_mode := UNKNOWN_MODE\<rparr>);
            mode = (if cmd = CMD_BASE then BASELOADER_MODE
                    else if cmd = CMD_BOOT then BOOTLOADER_MODE
                    else if \<not> appValid then BOOTLOADER_MODE
                    else APPLICATION_MODE)
        in (mode, s\<lparr>startup_mode := mode\<rparr>))"

definition boot_target_get_forced_startup_mode ::
  "u32 \<Rightarrow> 'a Boot_scheme \<Rightarrow> StartupMode \<times> 'a Boot_scheme" where
  "boot_target_get_forced_startup_mode app s =
     (let (mode, s) = boot_target_get_startup_mode app s in (forced_startup_mode s, s))"

definition boot_target_manifest_app :: "'a Boot_scheme \<Rightarrow> 'a Boot_scheme" where
  "boot_target_manifest_app s = (backup_write BKP0 CMD_APP s)\<lparr>restarted := True\<rparr>"

definition boot_target_manifest_baseloader :: "'a Boot_scheme \<Rightarrow> 'a Boot_scheme" where
  "boot_target_manifest_baseloader s = (backup_write BKP0 CMD_BASE s)\<lparr>restarted := True\<rparr>"

definition boot_target_manifest_bootloader :: "'a Boot_scheme \<Rightarrow> 'a Boot_scheme" where
  "boot_target_manifest_bootloader s = (backup_write BKP0 CMD_BOOT s)\<lparr>restarted := True\<rparr>"

text \<open>The state after the restart a manifest function asks for.\<close>

definition reboot :: "'a Boot_scheme \<Rightarrow> 'a Boot_scheme" where
  "reboot s = s\<lparr>startup_mode := UNKNOWN_MODE, forced_startup_mode := UNKNOWN_MODE, restarted := False\<rparr>"

section \<open>Restarts\<close>

lemma backup_roundtrip: "backup_read r (backup_write r v s) = v"
proof -
  have m: "(0xFFFF :: u32) = mask 16" "(0xFFFF0000 :: u32) = push_bit 16 (mask 16)"
    by (simp_all add: mask_eq_exp_minus_1 push_bit_eq_mult)
  show ?thesis
    by (simp add: backup_read_def backup_write_def m del: mask_numeral, rule bit_word_eqI)
      (auto simp: bit_simps)
qed

lemma backup_keeps [simp]:
  "startup_mode (backup_write r v s) = startup_mode s"
  "forced_startup_mode (backup_write r v s) = forced_startup_mode s"
  "mem (backup_write r v s) = mem s"
  "startup_mode (reboot s) = UNKNOWN_MODE"
  "mem (reboot s) = mem s" "backup_read r (reboot s) = backup_read r s"
  "backup_read r (s\<lparr>startup_mode := a\<rparr>) = backup_read r s"
  "backup_read r (s\<lparr>forced_startup_mode := a\<rparr>) = backup_read r s"
  "backup_read r (s\<lparr>restarted := b\<rparr>) = backup_read r s"
  by (simp_all add: backup_write_def reboot_def backup_read_def)

text \<open>The mode of the next start, and the command word left for the start after that.\<close>

lemma startup_after:
  assumes "startup_mode s = UNKNOWN_MODE" "boot_target_get_startup_mode app s = (mode, s')"
  shows "mode = (if backup_read BKP0 s = CMD_BASE then BASELOADER_MODE
      else if backup_read BKP0 s = CMD_BOOT \<or> \<not> validate_application app (mem s) then BOOTLOADER_MODE
      else APPLICATION_MODE)"
    and "backup_read BKP0 s' = (if backup_read BKP0 s = CMD_BASE then CMD_BOOT else 0)"
    and "mem s' = mem s" and "startup_mode s' = mode"
  using assms
  by (auto simp: boot_target_get_startup_mode_def Let_def backup_roundtrip CMD_BASE_def CMD_BOOT_def
      split: if_splits)

definition next_start :: "u32 \<Rightarrow> 'a Boot_scheme \<Rightarrow> StartupMode \<times> 'a Boot_scheme" where
  "next_start app s = boot_target_get_startup_mode app (reboot s)"

lemma next_start_cases:
  "next_start app s = (mode, s') \<Longrightarrow> backup_read BKP0 s = CMD_BASE
     \<Longrightarrow> mode = BASELOADER_MODE \<and> backup_read BKP0 s' = CMD_BOOT \<and> mem s' = mem s"
  "next_start app s = (mode, s') \<Longrightarrow> backup_read BKP0 s = CMD_BOOT
     \<Longrightarrow> mode = BOOTLOADER_MODE \<and> backup_read BKP0 s' = 0 \<and> mem s' = mem s"
  "next_start app s = (mode, s') \<Longrightarrow> backup_read BKP0 s \<notin> {CMD_BASE, CMD_BOOT}
     \<Longrightarrow> mode = (if validate_application app (mem s) then APPLICATION_MODE else BOOTLOADER_MODE)
       \<and> backup_read BKP0 s' = 0 \<and> mem s' = mem s"
  using startup_after [of "reboot s" app mode s']
  by (auto simp: next_start_def CMD_BASE_def CMD_BOOT_def)

text \<open>C12. The chain of starts of an update: after a restart into Baseloader Mode the device comes up in Baseloader
  Mode, the start after that is in Bootloader Mode, whatever the memory holds by then, and the start after that
  is in Application Mode exactly when the application is valid; a request for Application Mode
  is honoured under the same condition.\<close>

theorem startup_chain:
  assumes "next_start app (boot_target_manifest_baseloader s) = (m1, s1)"
    and "next_start app (s1\<lparr>mem := rom\<rparr>) = (m2, s2)"
    and "next_start app s2 = (m3, s3)"
    and "next_start app (boot_target_manifest_app s) = (m4, s4)"
  shows "m1 = BASELOADER_MODE \<and> m2 = BOOTLOADER_MODE
    \<and> m3 = (if validate_application app rom then APPLICATION_MODE else BOOTLOADER_MODE)
    \<and> m4 = (if validate_application app (mem s) then APPLICATION_MODE else BOOTLOADER_MODE)"
proof -
  have r: "backup_read BKP0 (x\<lparr>mem := rom\<rparr>) = backup_read BKP0 x" for x :: "'a Boot_scheme"
    by (simp add: backup_read_def)
  have "backup_read BKP0 (boot_target_manifest_baseloader s) = CMD_BASE"
    "backup_read BKP0 (boot_target_manifest_app s) = CMD_APP"
    by (simp_all add: boot_target_manifest_baseloader_def boot_target_manifest_app_def backup_roundtrip)
  moreover have "mem (boot_target_manifest_app s) = mem s" by (simp add: boot_target_manifest_app_def)
  ultimately show ?thesis
    using next_start_cases(1) [OF assms(1)] next_start_cases(2) [OF assms(2)] next_start_cases(3) [OF assms(3)]
      next_start_cases(3) [OF assms(4)]
    by (auto simp: r CMD_APP_def CMD_BASE_def CMD_BOOT_def)
qed

definition demo_boot :: "memory \<Rightarrow> Boot" where
  "demo_boot m = Dev.extend (blank_dev m)
     (Boot.fields (\<lambda>_. 0) UNKNOWN_MODE UNKNOWN_MODE)"

theorem startup_chain_witness:
  "fst (next_start 0x08007400 (snd (next_start 0x08007400
     (boot_target_manifest_baseloader (demo_boot (\<lambda>_. 0)))))) = BOOTLOADER_MODE"
proof -
  obtain m1 s1 where 1: "next_start 0x08007400 (boot_target_manifest_baseloader (demo_boot (\<lambda>_. 0))) = (m1, s1)"
    by (cases "next_start 0x08007400 (boot_target_manifest_baseloader (demo_boot (\<lambda>_. 0)))") simp
  obtain m2 s2 where 2: "next_start 0x08007400 (s1\<lparr>mem := mem s1\<rparr>) = (m2, s2)"
    by (cases "next_start 0x08007400 (s1\<lparr>mem := mem s1\<rparr>)") simp
  obtain m3 s3 where 3: "next_start 0x08007400 s2 = (m3, s3)"
    by (cases "next_start 0x08007400 s2") simp
  obtain m4 s4 where 4: "next_start 0x08007400 (boot_target_manifest_app (demo_boot (\<lambda>_. 0))) = (m4, s4)"
    by (cases "next_start 0x08007400 (boot_target_manifest_app (demo_boot (\<lambda>_. 0)))") simp
  show ?thesis using startup_chain [OF 1 2 3 4] 1 2 by simp
qed

end
