(* ===== verification/GhostFat.thy ===== *)
theory GhostFat
  imports BootTarget
begin

text \<open>
  The flash page cache and the virtual disk of the bootloader (\<^verbatim>\<open>stm32/bootloader/ghostfat.c\<close>,
  \<^verbatim>\<open>uf2.h\<close>, \<^verbatim>\<open>uf2cfg.h\<close>): a write goes to a page buffer in RAM that is programmed when
  another page is written or after a pause; the host sees a FAT16 disk whose sectors are made up when they are read
  and whose written sectors are taken as UF2 blocks.
\<close>

unbundle bit_operations_syntax

section \<open>The page cache\<close>

record WriteState =
  numBlocks :: u32
  numWritten :: u32
  writtenMask :: "u8 list"

record Fat = Boot +
  flashAddr :: u32
  firstFlush :: bool
  hadWrite :: bool
  ms :: u32
  resetTime :: u32
  lastFlush :: u32
  wrState :: WriteState

definition NO_CACHE :: u32 where
  "NO_CACHE = 0xffffffff"

definition base_flash_program_array ::
  "Fpec \<Rightarrow> Layout \<Rightarrow> u32 \<Rightarrow> u32 \<Rightarrow> nat \<Rightarrow> 'a Fat_scheme \<Rightarrow> int \<times> 'a Fat_scheme" where
  "base_flash_program_array hw lay dest0 src0 half_word_count0 s =
     (let s = baseloader_start hw (vector_table lay)
                (s\<lparr>para_dest := dest0, para_src := src0, para_byte_count := of_nat half_word_count0 * 2,
                   para_restart := 0, para_preview := 0\<rparr>);
          bytes = para_result s
      in (if bytes > 0 then bytes div 2 else bytes, s))"

definition flash_flush :: "Fpec \<Rightarrow> Layout \<Rightarrow> 'a Fat_scheme \<Rightarrow> 'a Fat_scheme" where
  "flash_flush hw lay s =
     (let s = s\<lparr>lastFlush := ms s\<rparr>
      in if flashAddr s = NO_CACHE then s
         else
           let s = s\<lparr>firstFlush := False\<rparr>;
               s = (if memcmp_eq (mem s) (flashBuf lay) (flashAddr s) 1024 then s
                    else snd (base_flash_program_array hw lay (flashAddr s) (flashBuf lay) 512 s))
           in s\<lparr>flashAddr := NO_CACHE\<rparr>)"

definition valid_write :: "u32 \<Rightarrow> u32 \<Rightarrow> int \<Rightarrow> bool" where
  "valid_write dst src byte_count \<longleftrightarrow>
     (let n = word_of_int byte_count in
      dst \<ge> 0x08000000 \<and> dst + n < 0x8010000 \<and>
      (src \<ge> 0x08000000 \<and> src + n < 0x08010000 \<or> src \<ge> 0x20000000 \<and> src + n < 0x20005000))"

text \<open>One round of the copy: at most a page is copied, into the page buffer of the page it starts in.\<close>

definition write_chunk :: "Fpec \<Rightarrow> Layout \<Rightarrow> u32 \<Rightarrow> u32 \<Rightarrow> nat \<Rightarrow> 'a Fat_scheme \<Rightarrow> 'a Fat_scheme" where
  "write_chunk hw lay dst src len s =
     (let newAddr = dst AND NOT (FLASH_PAGE_SIZE - 1);
          s = s\<lparr>hadWrite := True\<rparr>;
          s = (if newAddr \<noteq> flashAddr s
               then let s = flash_flush hw lay s
                    in s\<lparr>flashAddr := newAddr, mem := memcpy (mem s) (flashBuf lay) newAddr 1024\<rparr>
               else s)
      in s\<lparr>mem := memcpy (mem s) (flashBuf lay + (dst AND (FLASH_PAGE_SIZE - 1))) src len\<rparr>)"

function write_loop :: "Fpec \<Rightarrow> Layout \<Rightarrow> u32 \<Rightarrow> u32 \<Rightarrow> int \<Rightarrow> 'a Fat_scheme \<Rightarrow> 'a Fat_scheme" where
  "write_loop hw lay dst src byte_count s =
     (if byte_count > 0 then
        let len = (if byte_count > 1024 then 1024 else byte_count)
        in write_loop hw lay (dst + word_of_int len) (src + word_of_int len) (byte_count - len)
             (write_chunk hw lay dst src (nat len) s)
      else s)"
  by pat_completeness auto
termination
  by (relation "measure (\<lambda>(hw, lay, dst, src, n, s). nat n)") auto

declare write_loop.simps [simp del]

definition flash_write :: "Fpec \<Rightarrow> Layout \<Rightarrow> u32 \<Rightarrow> u32 \<Rightarrow> int \<Rightarrow> 'a Fat_scheme \<Rightarrow> 'a Fat_scheme" where
  "flash_write hw lay dst src byte_count s =
     (if \<not> valid_write dst src byte_count then s else write_loop hw lay dst src byte_count s)"

definition uf2_timer_start :: "u32 \<Rightarrow> 'a Fat_scheme \<Rightarrow> 'a Fat_scheme" where
  "uf2_timer_start delay s = s\<lparr>resetTime := ms s + delay\<rparr>"

text \<open>Called every millisecond. After a restart was asked for the code waits for it for ever.\<close>

definition ghostfat_1ms :: "Fpec \<Rightarrow> Layout \<Rightarrow> 'a Fat_scheme \<Rightarrow> 'a Fat_scheme" where
  "ghostfat_1ms hw lay s =
     (let s = s\<lparr>ms := ms s + 1\<rparr>
      in if resetTime s \<noteq> 0 \<and> ms s \<ge> resetTime s
         then boot_target_manifest_app (flash_flush hw lay s)
         else if lastFlush s \<noteq> 0 \<and> ms s - lastFlush s > 100 then flash_flush hw lay s
         else s)"

section \<open>Writing UF2 blocks\<close>

definition UF2_MAGIC_START0 :: u32 where "UF2_MAGIC_START0 = 0x0A324655"
definition UF2_MAGIC_START1 :: u32 where "UF2_MAGIC_START1 = 0x9E5D5157"
definition UF2_MAGIC_END :: u32 where "UF2_MAGIC_END = 0x0AB16F30"
definition UF2_FAMILY :: u32 where "UF2_FAMILY = 0x5ee21072"
definition MAX_BLOCKS :: u32 where "MAX_BLOCKS = 0x10000 div 256 + 100"

text \<open>The fields of a block that lies at an address, in the order of \<^verbatim>\<open>UF2_Block\<close>.\<close>

definition uf2_magicStart0 :: "memory \<Rightarrow> u32 \<Rightarrow> u32" where "uf2_magicStart0 m bl = ld32 m bl"
definition uf2_magicStart1 :: "memory \<Rightarrow> u32 \<Rightarrow> u32" where "uf2_magicStart1 m bl = ld32 m (bl + 4)"
definition uf2_flags :: "memory \<Rightarrow> u32 \<Rightarrow> u32" where "uf2_flags m bl = ld32 m (bl + 8)"
definition uf2_targetAddr :: "memory \<Rightarrow> u32 \<Rightarrow> u32" where "uf2_targetAddr m bl = ld32 m (bl + 12)"
definition uf2_payloadSize :: "memory \<Rightarrow> u32 \<Rightarrow> u32" where "uf2_payloadSize m bl = ld32 m (bl + 16)"
definition uf2_blockNo :: "memory \<Rightarrow> u32 \<Rightarrow> u32" where "uf2_blockNo m bl = ld32 m (bl + 20)"
definition uf2_numBlocks :: "memory \<Rightarrow> u32 \<Rightarrow> u32" where "uf2_numBlocks m bl = ld32 m (bl + 24)"
definition uf2_familyID :: "memory \<Rightarrow> u32 \<Rightarrow> u32" where "uf2_familyID m bl = ld32 m (bl + 28)"
definition uf2_magicEnd :: "memory \<Rightarrow> u32 \<Rightarrow> u32" where "uf2_magicEnd m bl = ld32 m (bl + 508)"

definition is_uf2_block :: "memory \<Rightarrow> u32 \<Rightarrow> bool" where
  "is_uf2_block m bl \<longleftrightarrow> uf2_magicStart0 m bl = UF2_MAGIC_START0 \<and>
     uf2_magicStart1 m bl = UF2_MAGIC_START1 \<and> uf2_magicEnd m bl = UF2_MAGIC_END"

definition UF2_IS_MY_FAMILY :: "memory \<Rightarrow> u32 \<Rightarrow> bool" where
  "UF2_IS_MY_FAMILY m bl \<longleftrightarrow> uf2_flags m bl AND 0x2000 = 0 \<or> uf2_familyID m bl = UF2_FAMILY"

text \<open>A block that is counted but not written: a comment, an unaligned one, or one outside the
  application area. The end of the block is a \<^verbatim>\<open>uint32_t\<close> and wraps.\<close>

definition skipped_block :: "Layout \<Rightarrow> memory \<Rightarrow> u32 \<Rightarrow> bool" where
  "skipped_block lay m bl \<longleftrightarrow>
     uf2_flags m bl AND 1 \<noteq> 0 \<or> uf2_payloadSize m bl > 256 \<or> uf2_targetAddr m bl AND 0xff \<noteq> 0 \<or>
     uf2_targetAddr m bl < APP_BASE_ADDRESS lay \<or>
     uf2_targetAddr m bl + uf2_payloadSize m bl > 0x08000000 + FLASH_SIZE_OVERRIDE"

text \<open>The bookkeeping of the blocks seen, for a block that announces \<open>blocks\<close> blocks: the state, and
  whether its last block has arrived.\<close>

definition announce_blocks :: "u32 \<Rightarrow> WriteState \<Rightarrow> WriteState" where
  "announce_blocks blocks w =
     (if numBlocks w \<noteq> blocks
      then if blocks \<ge> MAX_BLOCKS \<or> numBlocks w \<noteq> 0 then w\<lparr>numBlocks := 0xffffffff\<rparr>
           else w\<lparr>numBlocks := blocks\<rparr>
      else w)"

definition mark_block :: "u32 \<Rightarrow> WriteState \<Rightarrow> WriteState" where
  "mark_block n w =
     (let mask = push_bit (unat (n mod 8)) (1 :: u8); pos = unat (n div 8)
      in if writtenMask w ! pos AND mask = 0
         then w\<lparr>writtenMask := poke (writtenMask w) pos (writtenMask w ! pos OR mask),
                numWritten := numWritten w + 1\<rparr>
         else w)"

definition count_block :: "u32 \<Rightarrow> u32 \<Rightarrow> WriteState \<Rightarrow> bool \<times> WriteState" where
  "count_block blocks n w =
     (let w = announce_blocks blocks w
      in if n < MAX_BLOCKS
         then let w = mark_block n w in (numWritten w \<ge> numBlocks w, w)
         else (False, w))"

definition write_block_core :: "Fpec \<Rightarrow> Layout \<Rightarrow> u32 \<Rightarrow> bool \<Rightarrow> 'a Fat_scheme \<Rightarrow> 'a Fat_scheme" where
  "write_block_core hw lay bl quiet s0 =
     (let m = mem s0
      in if \<not> is_uf2_block m bl \<or> \<not> UF2_IS_MY_FAMILY m bl then s0
         else
           let s = (if skipped_block lay m bl then s0
                    else flash_write hw lay (uf2_targetAddr m bl) (bl + 32) (uint (uf2_payloadSize m bl)) s0);
               (complete, w) = (if uf2_numBlocks (mem s) bl \<noteq> 0
                                then count_block (uf2_numBlocks (mem s) bl) (uf2_blockNo (mem s) bl) (wrState s)
                                else (False, wrState s));
               s = s\<lparr>wrState := w\<rparr>
           in if quiet then s
              else if complete then uf2_timer_start 30 s
              else uf2_timer_start 500 s)"

text \<open>A sector written by the host: its number does not matter, its data lie at \<open>copy_from\<close>.\<close>

definition write_block :: "Fpec \<Rightarrow> Layout \<Rightarrow> u32 \<Rightarrow> u32 \<Rightarrow> 'a Fat_scheme \<Rightarrow> int \<times> 'a Fat_scheme" where
  "write_block hw lay lba copy_from s = (0, write_block_core hw lay copy_from False s)"

section \<open>Reading the disk\<close>

definition le16 :: "u16 \<Rightarrow> u8 list" where
  "le16 v = [ucast v, ucast (drop_bit 8 v)]"

definition le32 :: "u32 \<Rightarrow> u8 list" where
  "le32 v = [ucast v, ucast (drop_bit 8 v), ucast (drop_bit 16 v), ucast (drop_bit 24 v)]"

definition chars :: "string \<Rightarrow> u8 list" where
  "chars cs = map (\<lambda>c. of_nat (of_char c)) cs"

definition NUM_FAT_BLOCKS :: nat where "NUM_FAT_BLOCKS = 8000"
definition NUM_INFO :: nat where "NUM_INFO = 3"
definition UF2_SIZE :: nat where "UF2_SIZE = 0x10000 * 2"
definition UF2_SECTORS :: nat where "UF2_SECTORS = UF2_SIZE div 512"
definition UF2_FIRST_SECTOR :: nat where "UF2_FIRST_SECTOR = NUM_INFO + 1"
definition UF2_LAST_SECTOR :: nat where "UF2_LAST_SECTOR = UF2_FIRST_SECTOR + UF2_SECTORS - 1"
definition SECTORS_PER_FAT :: nat where "SECTORS_PER_FAT = (NUM_FAT_BLOCKS * 2 + 511) div 512"
definition START_FAT0 :: nat where "START_FAT0 = 1"
definition START_FAT1 :: nat where "START_FAT1 = START_FAT0 + SECTORS_PER_FAT"
definition START_ROOTDIR :: nat where "START_ROOTDIR = START_FAT1 + SECTORS_PER_FAT"
definition START_CLUSTERS :: nat where "START_CLUSTERS = START_ROOTDIR + 4"

lemmas fat_layout = NUM_FAT_BLOCKS_def NUM_INFO_def UF2_SIZE_def UF2_SECTORS_def UF2_FIRST_SECTOR_def
  UF2_LAST_SECTOR_def SECTORS_PER_FAT_def START_FAT0_def START_FAT1_def START_ROOTDIR_def START_CLUSTERS_def

definition VOLUME_LABEL :: string where
  "VOLUME_LABEL = ''BLUEPILL''"

text \<open>The boot block, field after field; character arrays longer than their literal end in NULs.\<close>

definition BootBlock :: "u8 list" where
  "BootBlock = [0xeb, 0x3c, 0x90] @ chars ''UF2 UF2 '' @ le16 512 @ [1] @ le16 1 @ [2] @
     le16 (4 * 512 div 32) @ le16 (of_nat (NUM_FAT_BLOCKS - 2)) @ [0xF8] @ le16 (of_nat SECTORS_PER_FAT) @
     le16 1 @ le16 1 @ le32 0 @ le32 0 @ [0] @ [0] @ [0x29] @ le32 0x00420042 @
     chars VOLUME_LABEL @ replicate (11 - length VOLUME_LABEL) 0 @ chars ''FAT16   ''"

definition infoUf2File :: string where
  "infoUf2File = ''UF2 Bootloader v1.1.3 SFA'' @ [CHR 0x0D, CHR 0x0A] @
     ''Model: STM32BLUEPILL'' @ [CHR 0x0D, CHR 0x0A] @
     ''Board-ID: STM32F103C8-BluePill-v0'' @ [CHR 0x0D, CHR 0x0A]"

definition indexFile :: string where
  "indexFile = ''<!doctype html>'' @ [CHR 0x0A] @ ''<html><body><script>'' @ [CHR 0x0A] @
     ''location.replace('' @ [CHR 0x22] @ ''https://visualbluepill.github.io'' @ [CHR 0x22] @ '');'' @ [CHR 0x0A] @
     ''</script></body></html>'' @ [CHR 0x0A]"

text \<open>The files: name and content; the last one has no content of its own.\<close>

definition info :: "(string \<times> string option) list" where
  "info = [(''INFO_UF2TXT'', Some infoUf2File), (''INDEX   HTM'', Some indexFile), (''CURRENT UF2'', None)]"

fun padded_memcpy :: "string \<Rightarrow> nat \<Rightarrow> string" where
  "padded_memcpy cs 0 = []"
| "padded_memcpy [] (Suc n) = CHR '' '' # padded_memcpy [] n"
| "padded_memcpy (c # cs) (Suc n) =
     (if c \<noteq> NUL then c # padded_memcpy cs n else CHR '' '' # padded_memcpy (c # cs) n)"

text \<open>A directory entry: name and extension, attributes, the fields left zero, start cluster, size.\<close>

definition DirEntry :: "string \<Rightarrow> u8 \<Rightarrow> u16 \<Rightarrow> u32 \<Rightarrow> u8 list" where
  "DirEntry name attrs startCluster fsize =
     chars (padded_memcpy name 11) @ [attrs] @ replicate 14 0 @ le16 startCluster @ le32 fsize"

definition root_directory :: "u8 list" where
  "root_directory = DirEntry VOLUME_LABEL 0x28 0 0 @
     concat (map (\<lambda>i. DirEntry (fst (info ! i)) 0 (of_nat (i + 2))
       (case snd (info ! i) of Some content \<Rightarrow> of_nat (strlen content) | None \<Rightarrow> of_nat UF2_SIZE))
     [0..<NUM_INFO])"

text \<open>The FAT entries of a sector are stored one after the other.\<close>

definition store_entry :: "nat \<Rightarrow> nat \<Rightarrow> u8 list \<Rightarrow> u8 list" where
  "store_entry sectionIdx i data =
     (let v = sectionIdx * 256 + i
      in if UF2_FIRST_SECTOR \<le> v \<and> v \<le> UF2_LAST_SECTOR
         then blit data (2 * i) (le16 (if v = UF2_LAST_SECTOR then 0xffff else of_nat (v + 1)))
         else data)"

definition fat_sector :: "nat \<Rightarrow> u8 list \<Rightarrow> u8 list" where
  "fat_sector sectionIdx data =
     (let data = (if sectionIdx = 0
                  then fold (\<lambda>i d. poke d i 0xff) [1..<NUM_INFO * 2 + 4] (poke data 0 0xf0) else data)
      in fold (store_entry sectionIdx) [0..<256] data)"

text \<open>A block of \<^verbatim>\<open>CURRENT.UF2\<close>: the header fields the code sets, the page read from the ROM where it appears at
  address 0, and the end mark.\<close>

definition current_block :: "memory \<Rightarrow> nat \<Rightarrow> u32 \<Rightarrow> u8 list" where
  "current_block m sectionIdx addr =
     le32 UF2_MAGIC_START0 @ le32 UF2_MAGIC_START1 @ le32 0 @ le32 (addr OR 0x8000000) @ le32 256 @
     le32 (of_nat sectionIdx) @ le32 (of_nat (0x10000 div 256)) @ le32 0 @
     map (\<lambda>i. m (addr + of_nat i)) [0..<256] @ replicate 220 0 @ le32 UF2_MAGIC_END"

definition read_block :: "memory \<Rightarrow> u32 \<Rightarrow> u8 list" where
  "read_block m block_no =
     (let data = replicate 512 0; b = unat block_no
      in if b = 0 then poke (poke (blit data 0 BootBlock) 510 0x55) 511 0xaa
         else if b < START_ROOTDIR then
           let sectionIdx = b - START_FAT0;
               sectionIdx = (if sectionIdx \<ge> SECTORS_PER_FAT then sectionIdx - SECTORS_PER_FAT else sectionIdx)
           in fat_sector sectionIdx data
         else if b < START_CLUSTERS then
           if b - START_ROOTDIR = 0 then blit data 0 root_directory else data
         else
           let sectionIdx = b - START_CLUSTERS
           in if sectionIdx < NUM_INFO - 1
              then (case snd (info ! sectionIdx) of
                      Some content \<Rightarrow> blit data 0 (chars (cstr content)) | None \<Rightarrow> data)
              else
                let sectionIdx = sectionIdx - (NUM_INFO - 1);
                    addr = of_nat sectionIdx * 256
                in if addr < FLASH_SIZE_OVERRIDE then blit data 0 (current_block m sectionIdx addr) else data)"

end
