(* ===== verification/Msc.thy ===== *)
theory Msc
  imports GhostFat
begin

text \<open>
  The mass storage interface of the bootloader (\<^verbatim>\<open>stm32/bootloader/msc.c\<close>): SCSI commands in bulk-only transport. A command block of 31 bytes arrives
  in packets, its data follow in one of the two directions, and a status of 13 bytes ends the transaction. The functions that
  read and write a block are pointers in the code and arguments here; \<open>disk\<close> is the state they work on. The endpoints are
  those of libopencm3: a packet received is read once, and a packet to be sent is refused while one is pending.
\<close>

unbundle bit_operations_syntax

section \<open>State\<close>

datatype sbc_sense_key =
    SBC_SENSE_KEY_NO_SENSE | SBC_SENSE_KEY_RECOVERED_ERROR | SBC_SENSE_KEY_NOT_READY | SBC_SENSE_KEY_MEDIUM_ERROR
  | SBC_SENSE_KEY_HARDWARE_ERROR | SBC_SENSE_KEY_ILLEGAL_REQUEST | SBC_SENSE_KEY_UNIT_ATTENTION
  | SBC_SENSE_KEY_DATA_PROTECT | SBC_SENSE_KEY_BLANK_CHECK | SBC_SENSE_KEY_VENDOR_SPECIFIC
  | SBC_SENSE_KEY_COPY_ABORTED | SBC_SENSE_KEY_ABORTED_COMMAND | SBC_SENSE_KEY_VOLUME_OVERFLOW
  | SBC_SENSE_KEY_MISCOMPARE

fun sense_key_value :: "sbc_sense_key \<Rightarrow> u8" where
  "sense_key_value SBC_SENSE_KEY_NO_SENSE = 0x00"
| "sense_key_value SBC_SENSE_KEY_RECOVERED_ERROR = 0x01"
| "sense_key_value SBC_SENSE_KEY_NOT_READY = 0x02"
| "sense_key_value SBC_SENSE_KEY_MEDIUM_ERROR = 0x03"
| "sense_key_value SBC_SENSE_KEY_HARDWARE_ERROR = 0x04"
| "sense_key_value SBC_SENSE_KEY_ILLEGAL_REQUEST = 0x05"
| "sense_key_value SBC_SENSE_KEY_UNIT_ATTENTION = 0x06"
| "sense_key_value SBC_SENSE_KEY_DATA_PROTECT = 0x07"
| "sense_key_value SBC_SENSE_KEY_BLANK_CHECK = 0x08"
| "sense_key_value SBC_SENSE_KEY_VENDOR_SPECIFIC = 0x09"
| "sense_key_value SBC_SENSE_KEY_COPY_ABORTED = 0x0A"
| "sense_key_value SBC_SENSE_KEY_ABORTED_COMMAND = 0x0B"
| "sense_key_value SBC_SENSE_KEY_VOLUME_OVERFLOW = 0x0D"
| "sense_key_value SBC_SENSE_KEY_MISCOMPARE = 0x0E"

datatype sbc_asc =
    SBC_ASC_NO_ADDITIONAL_SENSE_INFORMATION | SBC_ASC_PERIPHERAL_DEVICE_WRITE_FAULT | SBC_ASC_LOGICAL_UNIT_NOT_READY
  | SBC_ASC_UNRECOVERED_READ_ERROR | SBC_ASC_INVALID_COMMAND_OPERATION_CODE | SBC_ASC_LBA_OUT_OF_RANGE
  | SBC_ASC_INVALID_FIELD_IN_CDB | SBC_ASC_WRITE_PROTECTED | SBC_ASC_NOT_READY_TO_READY_CHANGE
  | SBC_ASC_FORMAT_ERROR | SBC_ASC_MEDIUM_NOT_PRESENT

fun asc_value :: "sbc_asc \<Rightarrow> u8" where
  "asc_value SBC_ASC_NO_ADDITIONAL_SENSE_INFORMATION = 0x00"
| "asc_value SBC_ASC_PERIPHERAL_DEVICE_WRITE_FAULT = 0x03"
| "asc_value SBC_ASC_LOGICAL_UNIT_NOT_READY = 0x04"
| "asc_value SBC_ASC_UNRECOVERED_READ_ERROR = 0x11"
| "asc_value SBC_ASC_INVALID_COMMAND_OPERATION_CODE = 0x20"
| "asc_value SBC_ASC_LBA_OUT_OF_RANGE = 0x21"
| "asc_value SBC_ASC_INVALID_FIELD_IN_CDB = 0x24"
| "asc_value SBC_ASC_WRITE_PROTECTED = 0x27"
| "asc_value SBC_ASC_NOT_READY_TO_READY_CHANGE = 0x28"
| "asc_value SBC_ASC_FORMAT_ERROR = 0x31"
| "asc_value SBC_ASC_MEDIUM_NOT_PRESENT = 0x3A"

datatype sbc_ascq =
    SBC_ASCQ_NA | SBC_ASCQ_FORMAT_COMMAND_FAILED | SBC_ASCQ_INITIALIZING_COMMAND_REQUIRED
  | SBC_ASCQ_OPERATION_IN_PROGRESS

fun ascq_value :: "sbc_ascq \<Rightarrow> u8" where
  "ascq_value SBC_ASCQ_NA = 0x00"
| "ascq_value SBC_ASCQ_FORMAT_COMMAND_FAILED = 0x01"
| "ascq_value SBC_ASCQ_INITIALIZING_COMMAND_REQUIRED = 0x02"
| "ascq_value SBC_ASCQ_OPERATION_IN_PROGRESS = 0x07"

datatype trans_event = EVENT_CBW_VALID | EVENT_NEED_STATUS

record usb_msc_csw =
  dCSWSignature :: u32
  dCSWTag :: u32
  dCSWDataResidue :: u32
  bCSWStatus :: u8

record sbc_sense_info =
  sense_key :: u8
  sense_asc :: u8
  sense_ascq :: u8

text \<open>The block device behind the interface.\<close>

record 'd Disk =
  read_block_func :: "u32 \<Rightarrow> 'd \<Rightarrow> u8 list"
  write_block_func :: "u32 \<Rightarrow> u8 list \<Rightarrow> 'd \<Rightarrow> 'd"

text \<open>The interface and its transaction; the pointers for locking are never set. \<open>out_packet\<close> and \<open>in_packet\<close> are the buffers of the endpoints.\<close>

record 'd Msc =
  ep_out_size :: u8
  vendor_id :: string
  product_id :: string
  product_revision_level :: string
  msc_block_count :: u32
  cbw_cnt :: u8
  cbw :: "u8 list"
  bytes_to_read :: u32
  bytes_to_write :: u32
  byte_count :: u32
  lba_start :: u32
  block_count :: u32
  current_block_no :: u32
  msd_buf :: "u8 list"
  csw_valid :: bool
  csw_sent :: u8
  csw :: usb_msc_csw
  sense :: sbc_sense_info
  out_packet :: "u8 list option"
  in_packet :: "u8 list option"
  disk :: 'd

definition usbd_ep_read_packet :: "nat \<Rightarrow> 'd Msc \<Rightarrow> u8 list \<times> 'd Msc" where
  "usbd_ep_read_packet n s =
     (case out_packet s of None \<Rightarrow> ([], s) | Some p \<Rightarrow> (take n p, s\<lparr>out_packet := None\<rparr>))"

definition usbd_ep_write_packet :: "u8 list \<Rightarrow> 'd Msc \<Rightarrow> nat \<times> 'd Msc" where
  "usbd_ep_write_packet p s =
     (case in_packet s of None \<Rightarrow> (length p, s\<lparr>in_packet := Some p\<rparr>) | Some q \<Rightarrow> (0, s))"

section \<open>SCSI commands\<close>

definition CSW_SIGNATURE :: u32 where "CSW_SIGNATURE = 0x53425355"
definition CSW_STATUS_SUCCESS :: u8 where "CSW_STATUS_SUCCESS = 0"
definition CSW_STATUS_FAILED :: u8 where "CSW_STATUS_FAILED = 1"

definition SCSI_TEST_UNIT_READY :: u8 where "SCSI_TEST_UNIT_READY = 0x00"
definition SCSI_REQUEST_SENSE :: u8 where "SCSI_REQUEST_SENSE = 0x03"
definition SCSI_FORMAT_UNIT :: u8 where "SCSI_FORMAT_UNIT = 0x04"
definition SCSI_READ_6 :: u8 where "SCSI_READ_6 = 0x08"
definition SCSI_WRITE_6 :: u8 where "SCSI_WRITE_6 = 0x0A"
definition SCSI_INQUIRY :: u8 where "SCSI_INQUIRY = 0x12"
definition SCSI_MODE_SENSE_6 :: u8 where "SCSI_MODE_SENSE_6 = 0x1A"
definition SCSI_SEND_DIAGNOSTIC :: u8 where "SCSI_SEND_DIAGNOSTIC = 0x1D"
definition SCSI_READ_CAPACITY :: u8 where "SCSI_READ_CAPACITY = 0x25"
definition SCSI_READ_10 :: u8 where "SCSI_READ_10 = 0x28"
definition SCSI_PREVENT_ALLOW_MEDIUM_REMOVAL :: u8 where "SCSI_PREVENT_ALLOW_MEDIUM_REMOVAL = 0x1E"
definition SCSI_READ_FORMAT_CAPACITIES :: u8 where "SCSI_READ_FORMAT_CAPACITIES = 0x23"
definition SCSI_WRITE_10 :: u8 where "SCSI_WRITE_10 = 0x2A"

lemmas scsi_codes = SCSI_TEST_UNIT_READY_def SCSI_REQUEST_SENSE_def SCSI_FORMAT_UNIT_def SCSI_READ_6_def SCSI_WRITE_6_def
  SCSI_INQUIRY_def SCSI_MODE_SENSE_6_def SCSI_SEND_DIAGNOSTIC_def SCSI_READ_CAPACITY_def SCSI_READ_10_def
  SCSI_PREVENT_ALLOW_MEDIUM_REMOVAL_def SCSI_READ_FORMAT_CAPACITIES_def SCSI_WRITE_10_def

text \<open>Fields of the command block: the tag, and a byte of the SCSI command in it.\<close>

definition dCBWTag :: "'d Msc \<Rightarrow> u32" where
  "dCBWTag s = word_cat (word_cat (cbw s ! 7) (cbw s ! 6) :: u16) (word_cat (cbw s ! 5) (cbw s ! 4) :: u16)"

definition CBWCB :: "'d Msc \<Rightarrow> nat \<Rightarrow> u8" where
  "CBWCB s i = cbw s ! (15 + i)"

definition csw_buf :: "usb_msc_csw \<Rightarrow> u8 list" where
  "csw_buf c = le32 (dCSWSignature c) @ le32 (dCSWTag c) @ le32 (dCSWDataResidue c) @ [bCSWStatus c]"

definition set_sbc_status :: "sbc_sense_key \<Rightarrow> sbc_asc \<Rightarrow> sbc_ascq \<Rightarrow> 'd Msc \<Rightarrow> 'd Msc" where
  "set_sbc_status key asc ascq s =
     s\<lparr>sense := \<lparr>sense_key = sense_key_value key, sense_asc = asc_value asc, sense_ascq = ascq_value ascq\<rparr>\<rparr>"

definition set_sbc_status_good :: "'d Msc \<Rightarrow> 'd Msc" where
  "set_sbc_status_good =
     set_sbc_status SBC_SENSE_KEY_NO_SENSE SBC_ASC_NO_ADDITIONAL_SENSE_INFORMATION SBC_ASCQ_NA"

definition shl :: "nat \<Rightarrow> u8 \<Rightarrow> u32" where
  "shl n b = push_bit n (ucast b)"

definition scsi_read_6 :: "trans_event \<Rightarrow> 'd Msc \<Rightarrow> 'd Msc" where
  "scsi_read_6 event s =
     (if event = EVENT_CBW_VALID then
        let s = s\<lparr>lba_start := shl 8 (CBWCB s 2) OR shl 0 (CBWCB s 3), block_count := ucast (CBWCB s 4),
                  current_block_no := 0\<rparr>
        in set_sbc_status_good (s\<lparr>bytes_to_write := push_bit 9 (block_count s)\<rparr>)
      else s)"

definition scsi_write_6 :: "trans_event \<Rightarrow> 'd Msc \<Rightarrow> 'd Msc" where
  "scsi_write_6 event s =
     (if event = EVENT_CBW_VALID then
        let s = s\<lparr>lba_start := shl 16 (0x1f AND CBWCB s 1) OR shl 8 (CBWCB s 2) OR shl 0 (CBWCB s 3),
                  block_count := ucast (CBWCB s 4), current_block_no := 0\<rparr>
        in s\<lparr>bytes_to_read := push_bit 9 (block_count s)\<rparr>
      else s)"

definition scsi_write_10 :: "trans_event \<Rightarrow> 'd Msc \<Rightarrow> 'd Msc" where
  "scsi_write_10 event s =
     (if event = EVENT_CBW_VALID then
        let s = s\<lparr>lba_start := shl 24 (CBWCB s 2) OR shl 16 (CBWCB s 3) OR shl 8 (CBWCB s 4) OR shl 0 (CBWCB s 5),
                  block_count := shl 8 (CBWCB s 7) OR shl 0 (CBWCB s 8), current_block_no := 0\<rparr>
        in s\<lparr>bytes_to_read := push_bit 9 (block_count s)\<rparr>
      else s)"

definition scsi_read_10 :: "trans_event \<Rightarrow> 'd Msc \<Rightarrow> 'd Msc" where
  "scsi_read_10 event s =
     (if event = EVENT_CBW_VALID then
        let s = s\<lparr>lba_start := shl 24 (CBWCB s 2) OR shl 16 (CBWCB s 3) OR shl 8 (CBWCB s 4) OR shl 0 (CBWCB s 5),
                  block_count := shl 8 (CBWCB s 7) OR shl 0 (CBWCB s 8)\<rparr>
        in set_sbc_status_good (s\<lparr>bytes_to_write := push_bit 9 (block_count s)\<rparr>)
      else s)"

text \<open>The bytes of a number from the highest to the lowest.\<close>

definition be32 :: "u32 \<Rightarrow> u8 list" where
  "be32 v = [ucast (drop_bit 24 v), ucast (0xff AND drop_bit 16 v), ucast (0xff AND drop_bit 8 v), ucast (0xff AND v)]"

definition scsi_read_capacity :: "trans_event \<Rightarrow> 'd Msc \<Rightarrow> 'd Msc" where
  "scsi_read_capacity event s =
     (if event = EVENT_CBW_VALID then
        set_sbc_status_good
          (s\<lparr>msd_buf := blit (msd_buf s) 0 (be32 (msc_block_count s) @ [0, 0, 2, 0]), bytes_to_write := 8\<rparr>)
      else s)"

definition scsi_format_unit :: "'d Disk \<Rightarrow> trans_event \<Rightarrow> 'd Msc \<Rightarrow> 'd Msc" where
  "scsi_format_unit dev event s =
     (if event = EVENT_CBW_VALID then
        let s = s\<lparr>msd_buf := blit (msd_buf s) 0 (replicate 512 0)\<rparr>;
            s = s\<lparr>disk := fold (\<lambda>i. write_block_func dev (of_nat i) (take 512 (msd_buf s)))
                   [0..<unat (msc_block_count s)] (disk s)\<rparr>
        in set_sbc_status_good s
      else s)"

definition spc3_request_sense :: "u8 list" where
  "spc3_request_sense = [0x70, 0, 0, 0, 0, 0, 0, 0x0a, 0, 0, 0, 0, 0, 0, 0, 0, 0, 0]"

definition scsi_request_sense :: "trans_event \<Rightarrow> 'd Msc \<Rightarrow> 'd Msc" where
  "scsi_request_sense event s =
     (if event = EVENT_CBW_VALID then
        let s = s\<lparr>bytes_to_write := ucast (CBWCB s 4), msd_buf := blit (msd_buf s) 0 spc3_request_sense\<rparr>;
            s = s\<lparr>msd_buf := poke (msd_buf s) 2 (sense_key (sense s))\<rparr>;
            s = s\<lparr>msd_buf := poke (msd_buf s) 12 (sense_asc (sense s))\<rparr>
        in s\<lparr>msd_buf := poke (msd_buf s) 13 (sense_ascq (sense s))\<rparr>
      else s)"

definition scsi_mode_sense_6 :: "trans_event \<Rightarrow> 'd Msc \<Rightarrow> 'd Msc" where
  "scsi_mode_sense_6 event s =
     (if event = EVENT_CBW_VALID then
        s\<lparr>bytes_to_write := 4, msd_buf := blit (msd_buf s) 0 [3, 0, 0],
          csw := (csw s)\<lparr>dCSWDataResidue := 4\<rparr>\<rparr>
      else s)"

section \<open>Inquiry\<close>

definition spc3_inquiry_response :: "u8 list" where
  "spc3_inquiry_response = [0x00, 0x80, 0x04, 0x02, 0x20, 0x00, 0x00, 0x00] @ replicate 28 0x20"

definition MSC_Page00_Inquiry_Data :: "u8 list" where
  "MSC_Page00_Inquiry_Data = [0x00, 0x00, 0x00, 6 - 4, 0x00, 0x80]"

definition MSC_Page80_Inquiry_Data :: "u8 list" where
  "MSC_Page80_Inquiry_Data = [0x00, 0x80, 0x00, 0x0c - 4] @ chars ''12345678''"

definition inquiry_page :: "u8 list \<Rightarrow> 'd Msc \<Rightarrow> 'd Msc" where
  "inquiry_page page s =
     set_sbc_status_good (s\<lparr>bytes_to_write := of_nat (length page), msd_buf := blit (msd_buf s) 0 page,
       csw := (csw s)\<lparr>dCSWDataResidue := of_nat (length page)\<rparr>\<rparr>)"

text \<open>A page that is not supported is only reported to the log.\<close>

definition scsi_inquiry :: "trans_event \<Rightarrow> 'd Msc \<Rightarrow> 'd Msc" where
  "scsi_inquiry event s =
     (if event = EVENT_CBW_VALID then
        if 1 AND CBWCB s 1 = 0 then
          let s = s\<lparr>bytes_to_write := of_nat (length spc3_inquiry_response),
                    msd_buf := blit (msd_buf s) 0 spc3_inquiry_response\<rparr>;
              s = s\<lparr>msd_buf := blit (msd_buf s) 8 (take 8 (chars (vendor_id s)))\<rparr>;
              s = s\<lparr>msd_buf := blit (msd_buf s) 16 (take 16 (chars (product_id s)))\<rparr>;
              s = s\<lparr>msd_buf := blit (msd_buf s) 32 (take 4 (chars (product_revision_level s)))\<rparr>
          in set_sbc_status_good
               (s\<lparr>csw := (csw s)\<lparr>dCSWDataResidue := of_nat (length spc3_inquiry_response)\<rparr>\<rparr>)
        else if CBWCB s 2 = 0x00 then inquiry_page MSC_Page00_Inquiry_Data s
        else if CBWCB s 2 = 0x80 then inquiry_page MSC_Page80_Inquiry_Data s
        else s
      else s)"

definition scsi_read_format_capacities :: "trans_event \<Rightarrow> 'd Msc \<Rightarrow> 'd Msc" where
  "scsi_read_format_capacities event s =
     (if event = EVENT_CBW_VALID then
        set_sbc_status_good
          (s\<lparr>msd_buf := blit (msd_buf s) 3 ([0x08] @ be32 (msc_block_count s) @ [0x02, 0, 0x02, 0]), bytes_to_write := 12\<rparr>)
      else s)"

section \<open>A command\<close>

definition scsi_command :: "'d Disk \<Rightarrow> trans_event \<Rightarrow> 'd Msc \<Rightarrow> 'd Msc" where
  "scsi_command dev event s0 =
     (let s = (if event = EVENT_CBW_VALID
               then s0\<lparr>csw_sent := 0,
                       csw := \<lparr>dCSWSignature = CSW_SIGNATURE, dCSWTag = dCBWTag s0, dCSWDataResidue = 0,
                               bCSWStatus = CSW_STATUS_SUCCESS\<rparr>,
                       bytes_to_write := 0, bytes_to_read := 0, byte_count := 0\<rparr>
               else s0);
          code = CBWCB s 0
      in if code = SCSI_TEST_UNIT_READY \<or> code = SCSI_SEND_DIAGNOSTIC then set_sbc_status_good s
         else if code = SCSI_FORMAT_UNIT then scsi_format_unit dev event s
         else if code = SCSI_REQUEST_SENSE then scsi_request_sense event s
         else if code = SCSI_MODE_SENSE_6 then scsi_mode_sense_6 event s
         else if code = SCSI_READ_6 then scsi_read_6 event s
         else if code = SCSI_INQUIRY then scsi_inquiry event s
         else if code = SCSI_READ_CAPACITY then scsi_read_capacity event s
         else if code = SCSI_READ_10 then scsi_read_10 event s
         else if code = SCSI_WRITE_6 then scsi_write_6 event s
         else if code = SCSI_WRITE_10 then scsi_write_10 event s
         else if code = SCSI_READ_FORMAT_CAPACITIES then scsi_read_format_capacities event s
         else if code = SCSI_PREVENT_ALLOW_MEDIUM_REMOVAL then set_sbc_status_good s
         else
           let s = set_sbc_status SBC_SENSE_KEY_ILLEGAL_REQUEST SBC_ASC_INVALID_COMMAND_OPERATION_CODE SBC_ASCQ_NA s
           in s\<lparr>bytes_to_write := 0, bytes_to_read := 0, csw := (csw s)\<lparr>bCSWStatus := CSW_STATUS_FAILED\<rparr>\<rparr>)"

section \<open>The transport\<close>

text \<open>A part of the command block; the result says whether the command waits for data of the host.\<close>

definition receive_cbw :: "'d Disk \<Rightarrow> 'd Msc \<Rightarrow> bool \<times> 'd Msc" where
  "receive_cbw dev s =
     (let left = 31 - uint (cbw_cnt s)
      in if 0 < left then
           let (p, s) = usbd_ep_read_packet (nat (min (uint (ep_out_size s)) left)) s;
               s = s\<lparr>cbw := blit (cbw s) (unat (cbw_cnt s)) p, cbw_cnt := cbw_cnt s + of_nat (length p)\<rparr>
           in if cbw_cnt s = 31
              then let s = scsi_command dev EVENT_CBW_VALID s in (byte_count s < bytes_to_read s, s)
              else (False, s)
         else (False, s))"

definition receive_data :: "'d Disk \<Rightarrow> 'd Msc \<Rightarrow> 'd Msc" where
  "receive_data dev s =
     (let left = sint (bytes_to_read s - byte_count s);
          (p, s) = usbd_ep_read_packet (nat (min (uint (ep_out_size s)) left)) s;
          s = s\<lparr>msd_buf := blit (msd_buf s) (unat (0x1ff AND byte_count s)) p,
                byte_count := byte_count s + of_nat (length p)\<rparr>
      in if 0 < block_count s \<and> 0x1ff AND byte_count s = 0
         then s\<lparr>disk := write_block_func dev (lba_start s + current_block_no s) (take 512 (msd_buf s)) (disk s),
                current_block_no := current_block_no s + 1\<rparr>
         else s)"

definition fill_block :: "'d Disk \<Rightarrow> 'd Msc \<Rightarrow> 'd Msc" where
  "fill_block dev s =
     (if 0 < block_count s \<and> 0x1ff AND byte_count s = 0
      then s\<lparr>msd_buf := blit (msd_buf s) 0 (read_block_func dev (lba_start s + current_block_no s) (disk s)),
             current_block_no := current_block_no s + 1\<rparr>
      else s)"

definition send_data :: "'d Disk \<Rightarrow> 'd Msc \<Rightarrow> 'd Msc" where
  "send_data dev s0 =
     (let s = fill_block dev s0;
          left = sint (bytes_to_write s - byte_count s);
          (n, s) = usbd_ep_write_packet
             (slice (msd_buf s) (unat (0x1ff AND byte_count s)) (nat (min (uint (ep_out_size s)) left))) s
      in s\<lparr>byte_count := byte_count s + of_nat n\<rparr>)"

definition need_status :: "'d Disk \<Rightarrow> 'd Msc \<Rightarrow> 'd Msc" where
  "need_status dev s =
     (if csw_valid s then s else (scsi_command dev EVENT_NEED_STATUS s)\<lparr>csw_valid := True\<rparr>)"

definition send_csw :: "'d Msc \<Rightarrow> 'd Msc" where
  "send_csw s =
     (let left = 13 - uint (csw_sent s)
      in if 0 < left then
           let (n, s) = usbd_ep_write_packet
                 (slice (csw_buf (csw s)) (unat (csw_sent s)) (nat (min (uint (ep_out_size s)) left))) s
           in s\<lparr>csw_sent := csw_sent s + of_nat n\<rparr>
         else s)"

text \<open>The callback for a packet of the host.\<close>

definition msc_data_rx_cb :: "'d Disk \<Rightarrow> 'd Msc \<Rightarrow> 'd Msc" where
  "msc_data_rx_cb dev s0 =
     (let (waits, s) = receive_cbw dev s0
      in if waits then s
         else if byte_count s < bytes_to_read s then send_csw (need_status dev (receive_data dev s))
         else if byte_count s < bytes_to_write s then send_data dev s
         else
           let s = (if 0 < block_count s \<and> current_block_no s = block_count s
                    then s\<lparr>disk := write_block_func dev (lba_start s + current_block_no s) (take 512 (msd_buf s)) (disk s),
                           current_block_no := 0\<rparr>
                    else s)
           in send_csw (need_status dev s))"

text \<open>The callback after the host has taken a packet.\<close>

definition msc_data_tx_cb :: "'d Disk \<Rightarrow> 'd Msc \<Rightarrow> 'd Msc" where
  "msc_data_tx_cb dev s =
     (if byte_count s < bytes_to_write s then send_data dev s
      else
        let s = (if 0 < block_count s \<and> current_block_no s = block_count s then s\<lparr>current_block_no := 0\<rparr> else s);
            s = need_status dev s
        in if 0 < 13 - uint (csw_sent s) then send_csw s
           else if csw_sent s = 13
           then s\<lparr>lba_start := 0xffffffff, block_count := 0, current_block_no := 0, cbw_cnt := 0, bytes_to_read := 0,
                  bytes_to_write := 0, byte_count := 0, csw_sent := 0, csw_valid := False\<rparr>
           else s)"

definition custom_usb_msc_init :: "u8 \<Rightarrow> string \<Rightarrow> string \<Rightarrow> string \<Rightarrow> u32 \<Rightarrow> 'd Msc \<Rightarrow> 'd Msc" where
  "custom_usb_msc_init out_size vendor product revision blocks s =
     set_sbc_status_good
       (s\<lparr>ep_out_size := out_size, vendor_id := vendor, product_id := product, product_revision_level := revision,
          msc_block_count := blocks - 1, lba_start := 0xffffffff, block_count := 0, current_block_no := 0, cbw_cnt := 0,
          bytes_to_read := 0, bytes_to_write := 0, byte_count := 0, csw_valid := False, csw_sent := 0\<rparr>)"

end
