(* ===== verification/GhostLaws.thy ===== *)
theory GhostLaws
  imports GhostFat
begin

text \<open>
  The page cache is transparent: what the bootloader writes is what the ROM holds once the cache is flushed,
  and the blocks of an image that arrive in any order are all in the ROM when the device restarts.
\<close>

unbundle bit_operations_syntax

section \<open>The ROM seen through the cache\<close>

definition view :: "Layout \<Rightarrow> 'a Fat_scheme \<Rightarrow> memory" where
  "view lay s = (\<lambda>b. if flashAddr s \<noteq> NO_CACHE \<and> unat (b - flashAddr s) < 1024
                     then mem s (flashBuf lay + (b - flashAddr s)) else mem s b)"

definition rom_page :: "u32 \<Rightarrow> bool" where
  "rom_page p \<longleftrightarrow> unat p mod 1024 = 0 \<and> 0x08000000 \<le> unat p \<and> unat p + 1024 \<le> 0x08010000"

definition cache_ok :: "'a Fat_scheme \<Rightarrow> bool" where
  "cache_ok s \<longleftrightarrow> (flashAddr s = NO_CACHE \<or> rom_page (flashAddr s)) \<and>
     \<not> PG (FLASH_CR s) \<and> \<not> PER (FLASH_CR s)"

definition page_buffer :: "Layout \<Rightarrow> bool" where
  "page_buffer lay \<longleftrightarrow> 0x20000000 \<le> unat (flashBuf lay) \<and> unat (flashBuf lay) + 1024 \<le> 0x20005000"

lemma fat_more:
  assumes "Dev.more s = Dev.more t"
  shows "flashAddr s = flashAddr t" "hadWrite s = hadWrite t" "ms s = ms t" "resetTime s = resetTime t"
    "lastFlush s = lastFlush t" "wrState s = wrState t" "startup_mode s = startup_mode t"
    "Fat.more s = Fat.more t"
  using assms by (cases s; cases t; simp)+

lemma memcmp_eq_iff: "memcmp_eq m a b n \<longleftrightarrow> (\<forall>i<n. m (a + of_nat i) = m (b + of_nat i))"
proof (induction n arbitrary: a b)
  case (Suc n)
  have "(\<forall>i<Suc n. m (a + of_nat i) = m (b + of_nat i))
      \<longleftrightarrow> m a = m b \<and> (\<forall>i<n. m (a + 1 + of_nat i) = m (b + 1 + of_nat i))"
    by (auto simp: less_Suc_eq_0_disj algebra_simps)
  then show ?case using Suc by simp
qed simp

lemma of_nat_unat_diff: "d + of_nat (unat (b - d)) = b" for b d :: u32
  by simp

lemma page_request:
  assumes "page_buffer lay" "rom_page p"
    and s: "para_dest s = p" "para_src s = flashBuf lay" "para_byte_count s = 1024"
  shows "invalid_request s = None" "copyable p (flashBuf lay) 512"
proof -
  have "unat (p + 1024) = unat p + 1024" "unat (flashBuf lay + 1024) = unat (flashBuf lay) + 1024"
    using assms(1,2) unat_add_of_nat [of p 1024] unat_add_of_nat [of "flashBuf lay" 1024]
    by (simp_all add: rom_page_def page_buffer_def)
  then show "invalid_request s = None"
    using assms by (simp add: invalid_request_def Let_def page_buffer_def rom_page_def
        word_le_nat_alt word_less_nat_alt)
  have "p \<le> flashBuf lay" using assms by (simp add: page_buffer_def rom_page_def word_le_nat_alt)
  then show "copyable p (flashBuf lay) 512"
    using assms by (auto simp: copyable_def rom_page_def page_buffer_def unat_diff_le)
qed

lemma program_page:
  assumes hw: "fpec_ok hw" "prompt hw" and lay: "page_buffer lay" and p: "rom_page p"
    and idle: "\<not> PG (FLASH_CR s)" "\<not> PER (FLASH_CR s)"
    and r: "base_flash_program_array hw lay p (flashBuf lay) 512 s = (n, s')"
  shows "n = 512" and "mem s' = memcpy (mem s) p (flashBuf lay) 1024"
    and "Dev.more s' = Dev.more s" and "\<not> PG (FLASH_CR s')" "\<not> PER (FLASH_CR s')"
    and "restarted s' = restarted s"
proof -
  let ?r = "s\<lparr>para_dest := p, para_src := flashBuf lay, para_byte_count := 1024,
    para_restart := 0, para_preview := 0\<rparr>"
  have s': "s' = baseloader_start hw (vector_table lay) ?r"
    and n: "n = (if para_result s' > 0 then para_result s' div 2 else para_result s')"
    using r by (auto simp: base_flash_program_array_def Let_def)
  have q: "invalid_request ?r = None" "copyable (para_dest ?r) (para_src ?r) 512"
    using page_request [OF lay p, of ?r] by simp_all
  note c = baseloader_copies_lemma [OF hw q(1) _ _ _ q(2), of "vector_table lay", folded s']
  have "pages 1024 = 1024" by (simp add: pages_def)
  then show "n = 512" "mem s' = memcpy (mem s) p (flashBuf lay) 1024" "restarted s' = restarted s"
    using c idle by (simp_all add: n flashed_def memcpy_def fun_eq_iff)
  show "Dev.more s' = Dev.more s" by (simp add: s' more_simps)
  show "\<not> PG (FLASH_CR s')" "\<not> PER (FLASH_CR s')" using c idle by simp_all
qed

text \<open>What a flush or a write keeps of the rest of the bootloader.\<close>

definition same_rest :: "'a Fat_scheme \<Rightarrow> 'a Fat_scheme \<Rightarrow> bool" where
  "same_rest s t \<longleftrightarrow> ms t = ms s \<and> resetTime t = resetTime s \<and> wrState t = wrState s \<and>
     startup_mode t = startup_mode s \<and> restarted t = restarted s \<and> Fat.more t = Fat.more s"

lemma flush_view:
  assumes hw: "fpec_ok hw" "prompt hw" and lay: "page_buffer lay" and c: "cache_ok s"
  shows "mem (flash_flush hw lay s) = view lay s" and "flashAddr (flash_flush hw lay s) = NO_CACHE"
    and "cache_ok (flash_flush hw lay s)" and "same_rest s (flash_flush hw lay s)"
proof -
  let ?p = "flashAddr s" and ?t = "s\<lparr>lastFlush := ms s, firstFlush := False\<rparr>"
  have all: "mem (flash_flush hw lay s) = view lay s \<and> flashAddr (flash_flush hw lay s) = NO_CACHE
    \<and> cache_ok (flash_flush hw lay s) \<and> same_rest s (flash_flush hw lay s)"
  proof (cases "?p = NO_CACHE")
    case True
    then show ?thesis using c by (simp add: flash_flush_def Let_def view_def cache_ok_def same_rest_def)
  next
    case False
    then have p: "rom_page ?p" using c by (simp add: cache_ok_def)
    show ?thesis
    proof (cases "memcmp_eq (mem s) (flashBuf lay) ?p 1024")
      case True
      have "mem s (flashBuf lay + (b - ?p)) = mem s b" if "unat (b - ?p) < 1024" for b
        using True [unfolded memcmp_eq_iff, rule_format, OF that] by simp
      then show ?thesis
        using True False c
        by (simp add: flash_flush_def Let_def view_def cache_ok_def same_rest_def fun_eq_iff)
    next
      case differ: False
      define u where "u = snd (base_flash_program_array hw lay ?p (flashBuf lay) 512 ?t)"
      then have "base_flash_program_array hw lay ?p (flashBuf lay) 512 ?t
          = (fst (base_flash_program_array hw lay ?p (flashBuf lay) 512 ?t), u)" by simp
      note pr = program_page [OF hw lay p _ _ this]
      have idle: "\<not> PG (FLASH_CR ?t)" "\<not> PER (FLASH_CR ?t)" using c by (simp_all add: cache_ok_def)
      note pr = pr [OF idle]
      have f: "flash_flush hw lay s = u\<lparr>flashAddr := NO_CACHE\<rparr>"
        using False differ by (simp add: flash_flush_def Let_def u_def)
      have "mem u = view lay s"
        using pr(2) False by (simp add: view_def memcpy_def fun_eq_iff)
      then show ?thesis
        using pr fat_more [OF pr(3)] by (simp add: f cache_ok_def same_rest_def)
    qed
  qed
  then show "mem (flash_flush hw lay s) = view lay s" "flashAddr (flash_flush hw lay s) = NO_CACHE"
    "cache_ok (flash_flush hw lay s)" "same_rest s (flash_flush hw lay s)" by blast+
qed

section \<open>Writes through the cache\<close>

definition in_rom :: "u32 \<Rightarrow> bool" where
  "in_rom b \<longleftrightarrow> unat b < 0x08010000"

definition in_buffer :: "Layout \<Rightarrow> u32 \<Rightarrow> bool" where
  "in_buffer lay b \<longleftrightarrow> unat (b - flashBuf lay) < 1024"

text \<open>Bytes a write to the ROM or to the page buffer cannot touch.\<close>

definition free_ram :: "Layout \<Rightarrow> u32 \<Rightarrow> nat \<Rightarrow> bool" where
  "free_ram lay a n \<longleftrightarrow> (\<forall>i<n. \<not> in_rom (a + of_nat i) \<and> \<not> in_buffer lay (a + of_nat i))"

definition same_ram :: "Layout \<Rightarrow> memory \<Rightarrow> memory \<Rightarrow> bool" where
  "same_ram lay m m' \<longleftrightarrow> (\<forall>b. \<not> in_rom b \<longrightarrow> \<not> in_buffer lay b \<longrightarrow> m' b = m b)"

text \<open>The memory with \<open>n\<close> bytes stored at \<open>dst\<close>, compared where there is ROM.\<close>

definition stored :: "memory \<Rightarrow> memory \<Rightarrow> u32 \<Rightarrow> (u32 \<Rightarrow> u8) \<Rightarrow> nat \<Rightarrow> bool" where
  "stored m m' dst data n \<longleftrightarrow> (\<forall>b. in_rom b \<longrightarrow> m' b = (if unat (b - dst) < n then data (b - dst) else m b))"

lemma dst_parts:
  fixes dst :: u32
  shows "dst AND NOT (FLASH_PAGE_SIZE - 1) = FLASH_ADDRESS dst"
    and "dst = FLASH_ADDRESS dst + (dst AND (FLASH_PAGE_SIZE - 1))"
    and "unat (dst AND (FLASH_PAGE_SIZE - 1)) = unat dst mod 1024"
proof -
  show a: "dst AND NOT (FLASH_PAGE_SIZE - 1) = FLASH_ADDRESS dst" by (simp add: FLASH_ADDRESS_def)
  have "(FLASH_PAGE_SIZE - 1 :: u32) = mask 10"
    by (simp add: FLASH_PAGE_SIZE_def mask_eq_exp_minus_1)
  then show m: "unat (dst AND (FLASH_PAGE_SIZE - 1)) = unat dst mod 1024"
    by (simp add: take_bit_eq_mask [symmetric] take_bit_eq_mod unat_mod del: mask_numeral)
  show "dst = FLASH_ADDRESS dst + (dst AND (FLASH_PAGE_SIZE - 1))"
    using unat_u32_less [of dst]
    by (simp only: word_unat_eq_iff unat_word_ariths(1) unat_FLASH_ADDRESS m div_mult_mod_eq) simp
qed

lemma rom_apart:
  assumes "page_buffer lay" "in_rom b" "j + n \<le> 1024"
  shows "\<not> unat (b - (flashBuf lay + of_nat j)) < n"
proof -
  have "unat (flashBuf lay + of_nat j) = unat (flashBuf lay) + j"
    using assms by (intro unat_add_of_nat) (simp add: page_buffer_def)
  then show ?thesis
    using assms unat_diff_gr [of b "flashBuf lay + of_nat j"]
    by (auto simp: page_buffer_def in_rom_def word_less_nat_alt)
qed

text \<open>The state once a page is in the buffer.\<close>

definition load_page :: "Fpec \<Rightarrow> Layout \<Rightarrow> u32 \<Rightarrow> 'a Fat_scheme \<Rightarrow> 'a Fat_scheme" where
  "load_page hw lay p s = (if p \<noteq> flashAddr s
      then (flash_flush hw lay s)\<lparr>flashAddr := p, mem := memcpy (mem (flash_flush hw lay s)) (flashBuf lay) p 1024\<rparr>
      else s)"

lemma page_cached:
  assumes hw: "fpec_ok hw" "prompt hw" and lay: "page_buffer lay" and c: "cache_ok s" and p: "rom_page p"
  defines "t \<equiv> load_page hw lay p s"
  shows "flashAddr t = p" "rom_eq (view lay s) (view lay t)" "same_ram lay (mem s) (mem t)" "cache_ok t"
    "same_rest s t"
proof -
  note f = flush_view [OF hw lay c]
  have nc: "p \<noteq> NO_CACHE" using p by (auto simp: rom_page_def NO_CACHE_def)
  show "flashAddr t = p" by (simp add: t_def load_page_def)
  have vs: "same_ram lay (mem s) (view lay s)"
  proof -
    have "\<not> in_rom b \<Longrightarrow> rom_page q \<Longrightarrow> \<not> unat (b - q) < 1024" for b q
      using unat_diff_le [of q b] unat_diff_gr [of b q]
      by (cases "q \<le> b") (auto simp: in_rom_def rom_page_def word_le_nat_alt word_less_nat_alt)
    then show ?thesis using c by (auto simp: same_ram_def view_def cache_ok_def)
  qed
  show "rom_eq (view lay s) (view lay t)"
    using nc rom_apart [OF lay, of _ 0 1024]
    by (auto simp: t_def load_page_def rom_eq_def view_def [of lay "_\<lparr>flashAddr := p, mem := _\<rparr>"] f(1) memcpy_def in_rom_def)
  show "same_ram lay (mem s) (mem t)"
    using vs by (simp add: t_def load_page_def f(1) same_ram_def memcpy_def in_buffer_def)
  show "cache_ok t" using f(3) c p by (simp add: t_def load_page_def cache_ok_def)
  show "same_rest s t" using f(4) by (simp add: t_def load_page_def same_rest_def load_page_def)
qed

lemma chunk_stored:
  assumes hw: "fpec_ok hw" "prompt hw" and lay: "page_buffer lay" and c: "cache_ok s"
    and p: "rom_page (FLASH_ADDRESS dst)" "unat dst mod 1024 + n \<le> 1024" 
    and src: "\<And>d. unat d < n \<Longrightarrow> mem (load_page hw lay (FLASH_ADDRESS dst) (s\<lparr>hadWrite := True\<rparr>)) (src + d) = data d"
  defines "u \<equiv> write_chunk hw lay dst src n s"
  shows "stored (view lay s) (view lay u) dst data n"
    and "same_ram lay (mem s) (mem u)" and "cache_ok u" and "same_rest s u"
proof -
  let ?p = "FLASH_ADDRESS dst" and ?o = "dst AND (FLASH_PAGE_SIZE - 1)" and ?s = "s\<lparr>hadWrite := True\<rparr>"
  define t where "t = load_page hw lay ?p ?s"
  have s: "cache_ok ?s" "view lay ?s = view lay s" "mem ?s = mem s" "same_rest s ?s"
    using c by (simp_all add: cache_ok_def view_def same_rest_def fun_eq_iff)
  note pc = page_cached [OF hw lay s(1) p(1), folded t_def]
  have off: "unat ?o = unat dst mod 1024" "dst = ?p + ?o" by (rule dst_parts)+
  have ok: "?o = of_nat (unat dst mod 1024)" unfolding off(1) [symmetric] by simp
  have u: "u = t\<lparr>mem := memcpy (mem t) (flashBuf lay + ?o) src n\<rparr>"
    by (simp add: u_def write_chunk_def Let_def dst_parts(1) t_def load_page_def)
  then have um: "mem u = memcpy (mem t) (flashBuf lay + ?o) src n" by simp
  have nc: "?p \<noteq> NO_CACHE" using p by (auto simp: rom_page_def NO_CACHE_def)
  have srcs: "mem t (src + d) = data d" if "unat d < n" for d using src [OF that] by (simp add: t_def)
  have inpage: "unat (b - dst) < n \<longleftrightarrow> unat ?o \<le> unat (b - ?p) \<and> unat (b - ?p) < unat ?o + n" for b
  proof -
    have "?p + of_nat (unat ?o) = dst" using off(2) by simp
    moreover have "unat ?o + n \<le> 2 ^ 32" using p(2) off(1) by simp
    ultimately show ?thesis using unat_diff_offset [of "unat ?o" n b ?p] by metis
  qed
  have "view lay u b = (if unat (b - dst) < n then data (b - dst) else view lay s b)"
    if b: "in_rom b" for b
  proof (cases "unat (b - ?p) < 1024")
    case True
    have eq: "flashBuf lay + (b - ?p) - (flashBuf lay + ?o) = b - dst" using off(2) by (simp add: algebra_simps)
    have "view lay u b = mem u (flashBuf lay + (b - ?p))" "view lay t b = mem t (flashBuf lay + (b - ?p))"
      using True nc pc(1) by (simp_all add: view_def u)
    moreover have "mem u (flashBuf lay + (b - ?p))
        = (if unat (b - dst) < n then mem t (src + (b - dst)) else mem t (flashBuf lay + (b - ?p)))"
      by (simp only: um memcpy_def eq)
    ultimately have "view lay u b = (if unat (b - dst) < n then mem t (src + (b - dst)) else view lay t b)"
      by simp
    then show ?thesis using srcs pc(2) s(2) b by (simp add: rom_eq_def in_rom_def)
  next
    case False
    then have "\<not> unat (b - dst) < n" using inpage p(2) off(1) by auto
    moreover have "\<not> unat (b - (flashBuf lay + ?o)) < n"
      unfolding ok by (rule rom_apart [OF lay b p(2)])
    then have "view lay u b = view lay t b"
      using False pc(1) by (simp add: u view_def memcpy_def)
    ultimately show ?thesis using pc(2) s(2) b by (simp add: rom_eq_def in_rom_def)
  qed
  then show "stored (view lay s) (view lay u) dst data n" by (simp add: stored_def)
  have "unat (b - (flashBuf lay + ?o)) < n \<Longrightarrow> in_buffer lay b" for b
    using unat_diff_offset [of "unat dst mod 1024" n b "flashBuf lay"] p(2)
    unfolding ok in_buffer_def by auto
  then show "same_ram lay (mem s) (mem u)" using pc(3) s(3) by (auto simp: u same_ram_def memcpy_def)
  show "cache_ok u" using pc(4) by (simp add: u cache_ok_def)
  show "same_rest s u" using pc(5) s(4) by (simp add: u same_rest_def)
qed

lemma chunk_view:
  assumes hw: "fpec_ok hw" "prompt hw" and lay: "page_buffer lay" and c: "cache_ok s"
    and p: "rom_page (FLASH_ADDRESS dst)" "unat dst mod 1024 + n \<le> 1024" and src: "free_ram lay src n"
  defines "u \<equiv> write_chunk hw lay dst src n s"
  shows "stored (view lay s) (view lay u) dst (\<lambda>i. mem s (src + i)) n"
    and "same_ram lay (mem s) (mem u)" and "cache_ok u" and "same_rest s u"
proof -
  have "cache_ok (s\<lparr>hadWrite := True\<rparr>)" using c by (simp add: cache_ok_def)
  from page_cached(3) [OF hw lay this p(1)]
  have pc: "same_ram lay (mem s) (mem (load_page hw lay (FLASH_ADDRESS dst) (s\<lparr>hadWrite := True\<rparr>)))" by simp
  have "mem (load_page hw lay (FLASH_ADDRESS dst) (s\<lparr>hadWrite := True\<rparr>)) (src + d) = mem s (src + d)"
    if "unat d < n" for d
    using pc src that unfolding same_ram_def free_ram_def
    by (metis of_nat_unat_diff diff_zero add_0)
  from chunk_stored [OF hw lay c p this]
  show "stored (view lay s) (view lay u) dst (\<lambda>i. mem s (src + i)) n" "same_ram lay (mem s) (mem u)"
    "cache_ok u" "same_rest s u" by (simp_all add: u_def)
qed

lemma write_view:
  assumes hw: "fpec_ok hw" "prompt hw" and lay: "page_buffer lay" and c: "cache_ok s"
    and p: "rom_page (FLASH_ADDRESS dst)" "unat dst mod 1024 + nat n \<le> 1024" "0 < n"
    and src: "free_ram lay src (nat n)" "valid_write dst src n"
  defines "u \<equiv> flash_write hw lay dst src n s"
  shows "stored (view lay s) (view lay u) dst (\<lambda>i. mem s (src + i)) (nat n)"
    and "same_ram lay (mem s) (mem u)" and "cache_ok u" and "same_rest s u"
proof -
  have "n \<le> 1024" using p(2) by simp
  then have "u = write_chunk hw lay dst src (nat n) s"
    using p(3) src(2) by (simp add: u_def flash_write_def write_loop.simps)
  then show "stored (view lay s) (view lay u) dst (\<lambda>i. mem s (src + i)) (nat n)"
    "same_ram lay (mem s) (mem u)" "cache_ok u" "same_rest s u"
    using chunk_view [OF hw lay c p(1,2) src(1)] by simp_all
qed

end
