(* ===== verification/Uf2Laws.thy ===== *)
theory Uf2Laws
  imports GhostLaws
begin

text \<open>
  A UF2 image from the first block to the restart: each block is counted once whatever the order and the
  repetitions, its payload is what the ROM shows, and when all have been counted the device
  flushes the page cache and restarts into the application.
\<close>

unbundle bit_operations_syntax

section \<open>Counting blocks\<close>

definition marked :: "WriteState \<Rightarrow> nat \<Rightarrow> bool" where
  "marked w n \<longleftrightarrow> bit (writtenMask w ! (n div 8)) (n mod 8)"

text \<open>The state after the blocks \<open>S\<close> of an image of \<open>n\<close> blocks.\<close>

definition counted_blocks :: "nat \<Rightarrow> nat set \<Rightarrow> WriteState \<Rightarrow> bool" where
  "counted_blocks n S w \<longleftrightarrow> S \<subseteq> {..<n} \<and> length (writtenMask w) = 45 \<and>
     (\<forall>i<356. marked w i \<longleftrightarrow> i \<in> S) \<and> numWritten w = of_nat (card S) \<and>
     numBlocks w = (if S = {} then 0 else of_nat n)"

lemma mark_block_spec:
  assumes "length (writtenMask w) = 45" "n < MAX_BLOCKS"
  shows "i < 356 \<Longrightarrow> marked (mark_block n w) i \<longleftrightarrow> i = unat n \<or> marked w i"
    and "numWritten (mark_block n w) = (if marked w (unat n) then numWritten w else numWritten w + 1)"
    and "length (writtenMask (mark_block n w)) = 45"
    and "numBlocks (mark_block n w) = numBlocks w"
proof -
  let ?p = "unat n div 8" and ?k = "unat n mod 8"
  have n: "unat n < 356" using assms(2) by (simp add: MAX_BLOCKS_def word_less_nat_alt)
  then have p: "?p < length (writtenMask w)" using assms(1) by simp
  have eq: "mark_block n w = (if marked w (unat n) then w
      else w\<lparr>writtenMask := (writtenMask w)[?p := writtenMask w ! ?p OR push_bit ?k 1],
             numWritten := numWritten w + 1\<rparr>)"
    using p by (simp add: mark_block_def Let_def unat_div unat_mod and_exp_eq_0_iff_not_bit marked_def poke_in_range)
  show "numWritten (mark_block n w) = (if marked w (unat n) then numWritten w else numWritten w + 1)"
    "length (writtenMask (mark_block n w)) = 45" "numBlocks (mark_block n w) = numBlocks w"
    using assms(1) by (simp_all add: eq)
  assume i: "i < 356"
  then have ip: "i div 8 < length (writtenMask w)" using assms(1) by simp
  have same: "i = unat n \<longleftrightarrow> i div 8 = ?p \<and> i mod 8 = ?k" by (metis div_mult_mod_eq)
  have "bit (writtenMask w ! ?p OR push_bit ?k 1) j \<longleftrightarrow> bit (writtenMask w ! ?p) j \<or> j = ?k" if "j < 8" for j
    using that by (auto simp: bit_simps)
  then show "marked (mark_block n w) i \<longleftrightarrow> i = unat n \<or> marked w i"
    using same ip p by (auto simp add: eq marked_def nth_list_update)
qed

lemma announce_same:
  assumes "counted_blocks n S w" "0 < n" "n < 356"
  shows "announce_blocks (of_nat n) w = w\<lparr>numBlocks := of_nat n\<rparr>"
proof -
  have "unat (of_nat n :: u32) = n" using assms(3) by (simp add: unat_of_nat)
  then have "\<not> of_nat n \<ge> MAX_BLOCKS" "of_nat n \<noteq> (0 :: u32)"
    using assms(2,3) by (auto simp: MAX_BLOCKS_def word_le_nat_alt)
  then show ?thesis using assms(1) by (auto simp: announce_blocks_def counted_blocks_def)
qed

lemma count_block_spec:
  assumes c: "counted_blocks n S w" and n: "0 < n" "n < 356" and b: "unat b < n"
  shows "counted_blocks n (insert (unat b) S) (snd (count_block (of_nat n) b w))"
    and "fst (count_block (of_nat n) b w) \<longleftrightarrow> insert (unat b) S = {..<n}"
proof -
  let ?w = "w\<lparr>numBlocks := of_nat n\<rparr>" and ?T = "insert (unat b) S"
  have bm: "b < MAX_BLOCKS" using b n by (simp add: MAX_BLOCKS_def word_less_nat_alt)
  have eq: "count_block (of_nat n) b w = (numWritten (mark_block b ?w) \<ge> of_nat n, mark_block b ?w)"
    using bm mark_block_spec(4) [OF _ bm, where w = ?w] c
    by (simp add: count_block_def Let_def announce_same [OF c n] counted_blocks_def)
  have S: "S \<subseteq> {..<n}" "finite S" using c finite_subset by (auto simp: counted_blocks_def)
  have m: "marked w (unat b) \<longleftrightarrow> unat b \<in> S" using c b n by (simp add: counted_blocks_def)
  have mw: "marked ?w i = marked w i" for i by (simp add: marked_def)
  have l: "length (writtenMask ?w) = 45" using c by (simp add: counted_blocks_def)
  note sp = mark_block_spec [OF l bm]
  have T: "?T \<subseteq> {..<n}" using S b by simp
  have ms: "\<forall>i<356. marked (mark_block b ?w) i \<longleftrightarrow> i \<in> ?T"
    using sp(1) mw c by (simp add: counted_blocks_def)
  have nw: "numWritten (mark_block b ?w) = of_nat (card ?T)"
    using sp(2) mw m c S(2) by (simp add: counted_blocks_def card_insert_if)
  have k: "counted_blocks n ?T (mark_block b ?w)"
    unfolding counted_blocks_def
    by (intro conjI T ms nw sp(3)) (simp add: sp(4))
  then show "counted_blocks n ?T (snd (count_block (of_nat n) b w))" by (simp add: eq)
  have le: "card ?T \<le> n" using T card_mono [of "{..<n}" ?T] by simp
  have u: "unat (of_nat (card ?T) :: u32) = card ?T" "unat (of_nat n :: u32) = n"
    using le n by (simp_all add: unat_of_nat)
  have "numWritten (mark_block b ?w) \<ge> of_nat n \<longleftrightarrow> n \<le> card ?T"
    using k u by (simp add: counted_blocks_def word_le_nat_alt)
  also have "\<dots> \<longleftrightarrow> ?T = {..<n}"
  proof
    assume "n \<le> card ?T"
    then have "card ?T = card {..<n}" using le by simp
    then show "?T = {..<n}" using T by (intro card_subset_eq) simp_all
  next
    assume "?T = {..<n}"
    then have "card ?T = card {..<n}" by (rule arg_cong)
    then show "n \<le> card ?T" by simp
  qed
  finally show "fst (count_block (of_nat n) b w) \<longleftrightarrow> ?T = {..<n}" by (simp add: eq)
qed

section \<open>One block\<close>

text \<open>The USB stack puts a sector of 512 bytes at \<open>a\<close>; \<open>sector\<close> is the sector by itself, at address 0.\<close>

definition place :: "u32 \<Rightarrow> u8 list \<Rightarrow> 'a Fat_scheme \<Rightarrow> 'a Fat_scheme" where
  "place a data s = s\<lparr>mem := (\<lambda>b. if unat (b - a) < 512 then data ! unat (b - a) else mem s b)\<rparr>"

definition sector :: "u8 list \<Rightarrow> memory" where
  "sector data = (\<lambda>a. data ! unat a)"

definition deliver :: "Fpec \<Rightarrow> Layout \<Rightarrow> u32 \<Rightarrow> u8 list \<Rightarrow> 'a Fat_scheme \<Rightarrow> 'a Fat_scheme" where
  "deliver hw lay a data s = snd (write_block hw lay 0 a (place a data s))"

text \<open>Where sectors are received: RAM that is not the page buffer.\<close>

definition sector_buffer :: "Layout \<Rightarrow> u32 \<Rightarrow> bool" where
  "sector_buffer lay a \<longleftrightarrow> 0x20000000 \<le> unat a \<and> unat a + 512 < 0x20005000 \<and> free_ram lay a 512"

text \<open>Block \<open>i\<close> of an image of \<open>n\<close> blocks: \<open>len\<close> bytes for \<open>target\<close>.\<close>

definition block_of :: "Layout \<Rightarrow> nat \<Rightarrow> u8 list \<Rightarrow> u32 \<Rightarrow> nat \<Rightarrow> nat \<Rightarrow> bool" where
  "block_of lay n data target i len \<longleftrightarrow>
     is_uf2_block (sector data) 0 \<and> UF2_IS_MY_FAMILY (sector data) 0 \<and> \<not> skipped_block lay (sector data) 0 \<and>
     uf2_targetAddr (sector data) 0 = target \<and> uf2_payloadSize (sector data) 0 = of_nat len \<and>
     uf2_blockNo (sector data) 0 = of_nat i \<and> uf2_numBlocks (sector data) 0 = of_nat n \<and>
     0x08000000 \<le> unat target \<and> unat target + len < 0x08010000 \<and> 0 < len \<and> len \<le> 256 \<and> i < n"

lemma placed_byte: "j < 512 \<Longrightarrow> mem (place a d s) (a + of_nat j) = sector d (of_nat j)"
  by (simp add: place_def sector_def unat_of_nat)

lemma placed_word: "k + 3 < 512 \<Longrightarrow> ld32 (mem (place a d s)) (a + of_nat k) = ld32 (sector d) (of_nat k)"
  using placed_byte [of k a d s] placed_byte [of "k + 1" a d s] placed_byte [of "k + 2" a d s]
    placed_byte [of "k + 3" a d s]
  by (simp add: ld32_def ld16_def ac_simps)

lemma placed_fields:
  "uf2_magicStart0 (mem (place a d s)) a = uf2_magicStart0 (sector d) 0"
  "uf2_magicStart1 (mem (place a d s)) a = uf2_magicStart1 (sector d) 0"
  "uf2_flags (mem (place a d s)) a = uf2_flags (sector d) 0"
  "uf2_targetAddr (mem (place a d s)) a = uf2_targetAddr (sector d) 0"
  "uf2_payloadSize (mem (place a d s)) a = uf2_payloadSize (sector d) 0"
  "uf2_blockNo (mem (place a d s)) a = uf2_blockNo (sector d) 0"
  "uf2_numBlocks (mem (place a d s)) a = uf2_numBlocks (sector d) 0"
  "uf2_familyID (mem (place a d s)) a = uf2_familyID (sector d) 0"
  "uf2_magicEnd (mem (place a d s)) a = uf2_magicEnd (sector d) 0"
  using placed_word [of 0 a d s] placed_word [of 4 a d s] placed_word [of 8 a d s] placed_word [of 12 a d s]
    placed_word [of 16 a d s] placed_word [of 20 a d s] placed_word [of 24 a d s] placed_word [of 28 a d s]
    placed_word [of 508 a d s]
  by (simp_all add: uf2_magicStart0_def uf2_magicStart1_def uf2_flags_def uf2_targetAddr_def uf2_payloadSize_def
      uf2_blockNo_def uf2_numBlocks_def uf2_familyID_def uf2_magicEnd_def)

lemma placed_tests:
  "is_uf2_block (mem (place a d s)) a = is_uf2_block (sector d) 0"
  "UF2_IS_MY_FAMILY (mem (place a d s)) a = UF2_IS_MY_FAMILY (sector d) 0"
  "skipped_block lay (mem (place a d s)) a = skipped_block lay (sector d) 0"
  by (simp_all add: is_uf2_block_def UF2_IS_MY_FAMILY_def skipped_block_def placed_fields)

lemma free_ram_byte: "free_ram lay a n \<Longrightarrow> unat (b - a) < n \<Longrightarrow> \<not> in_rom b \<and> \<not> in_buffer lay b"
  unfolding free_ram_def by (metis of_nat_unat_diff)

lemma free_ram_part:
  assumes "free_ram lay a n" "j + k \<le> n"
  shows "free_ram lay (a + of_nat j) k"
  unfolding free_ram_def
proof (intro allI impI)
  fix i assume "i < k"
  then have "j + i < n" using assms(2) by simp
  then have "\<not> in_rom (a + of_nat (j + i)) \<and> \<not> in_buffer lay (a + of_nat (j + i))"
    using assms(1) unfolding free_ram_def by blast
  then show "\<not> in_rom (a + of_nat j + of_nat i) \<and> \<not> in_buffer lay (a + of_nat j + of_nat i)"
    by (simp add: add.assoc)
qed

text \<open>Receiving a sector changes neither the ROM nor the page buffer.\<close>

lemma place_keeps:
  assumes "page_buffer lay" "sector_buffer lay a" "cache_ok s"
  shows "rom_eq (view lay s) (view lay (place a d s))" "cache_ok (place a d s)" "same_rest s (place a d s)"
proof -
  have f: "free_ram lay a 512" using assms(2) by (simp add: sector_buffer_def)
  have byte: "mem (place a d s) b = mem s b" if "in_rom b \<or> in_buffer lay b" for b
    using that free_ram_byte [OF f, of b] by (auto simp: place_def)
  have buf: "in_buffer lay (flashBuf lay + c)" if "unat c < 1024" for c
    using that by (simp add: in_buffer_def)
  have "flashAddr (place a d s) = flashAddr s" by (simp add: place_def)
  then show "rom_eq (view lay s) (view lay (place a d s))"
    using byte buf by (auto simp: rom_eq_def view_def in_rom_def)
  show "cache_ok (place a d s)" "same_rest s (place a d s)"
    using assms(3) by (simp_all add: place_def cache_ok_def same_rest_def)
qed

lemma stored_rom_eq: "rom_eq m m' \<Longrightarrow> stored m' m'' dst data n \<Longrightarrow> stored m m'' dst data n"
  by (simp add: stored_def rom_eq_def in_rom_def)

lemma stored_data: "stored m m' dst data n \<Longrightarrow> (\<And>i. unat i < n \<Longrightarrow> data i = data' i) \<Longrightarrow> stored m m' dst data' n"
  by (auto simp: stored_def)

lemma payload_offset: "d + 32 + i = d + of_nat (32 + unat i)" for d :: u32
  by (simp add: ac_simps)

lemma block_valid:
  assumes "sector_buffer lay a" "block_of lay n d target i len"
  shows "valid_write target (a + 32) (int len)"
proof -
  have "unat (target + of_nat len) = unat target + len" "unat (a + of_nat (32 + len)) = unat a + (32 + len)"
    "unat (a + of_nat 32) = unat a + 32"
    using assms by (auto intro!: unat_add_of_nat simp del: of_nat_add of_nat_numeral
        simp: block_of_def sector_buffer_def)
  then have u: "unat (target + of_nat len) = unat target + len" "unat (a + 32 + of_nat len) = unat a + (32 + len)"
    "unat (a + 32) = unat a + 32" by (simp_all add: ac_simps)
  have "a + 32 \<ge> 0x20000000" "a + 32 + of_nat len < 0x20005000"
    using assms u by (simp_all add: sector_buffer_def block_of_def word_le_nat_alt word_less_nat_alt)
  moreover have "target \<ge> 0x08000000" "target + of_nat len < 0x8010000"
    using assms u by (simp_all add: block_of_def word_le_nat_alt word_less_nat_alt)
  ultimately show ?thesis by (simp add: valid_write_def Let_def)
qed

lemma block_page:
  assumes "block_of lay n d target i len"
  shows "rom_page (FLASH_ADDRESS target)" "unat target mod 1024 + len \<le> 1024"
proof -
  have "target AND 0xff = 0" using assms by (auto simp: block_of_def skipped_block_def)
  moreover have "(0xff :: u32) = mask 8" by (simp add: mask_eq_exp_minus_1)
  ultimately have "take_bit 8 target = 0" by (simp add: take_bit_eq_mask)
  then have "unat target mod 256 = 0" by (simp add: take_bit_eq_mod unat_mod word_unat_eq_iff)
  moreover have "unat target mod 1024 mod 256 = unat target mod 256" by (simp add: mod_mod_cancel)
  ultimately obtain q where q: "unat target mod 1024 = 256 * q" by (metis mod_0_imp_dvd dvdE)
  then have "q < 4" using mod_less_divisor [of 1024 "unat target"] by linarith
  then show "unat target mod 1024 + len \<le> 1024" using q assms by (simp add: block_of_def)
  have t: "0x08000000 \<le> unat target" "unat target < 0x08010000" using assms by (auto simp: block_of_def)
  have "0x20000 \<le> unat target div 1024" "unat target div 1024 < 0x20040"
    using t div_le_mono [of "0x08000000" "unat target" 1024] by (simp_all add: less_mult_imp_div_less)
  then show "rom_page (FLASH_ADDRESS target)" by (simp add: rom_page_def unat_FLASH_ADDRESS)
qed

text \<open>A sector that counts as block \<open>i\<close> of \<open>n\<close>, written or not.\<close>

definition counts_as :: "nat \<Rightarrow> u8 list \<Rightarrow> nat \<Rightarrow> bool" where
  "counts_as n data i \<longleftrightarrow> is_uf2_block (sector data) 0 \<and> UF2_IS_MY_FAMILY (sector data) 0 \<and>
     uf2_blockNo (sector data) 0 = of_nat i \<and> uf2_numBlocks (sector data) 0 = of_nat n \<and> i < n"

lemma deliver_counted:
  assumes a: "sector_buffer lay a" and d: "counts_as n d i" and n: "n < 356"
    and w: "counted_blocks n S (wrState s)"
    and u: "u = (if skipped_block lay (sector d) 0 then place a d s
        else flash_write hw lay (uf2_targetAddr (sector d) 0) (a + 32) (uint (uf2_payloadSize (sector d) 0)) (place a d s))"
      "same_ram lay (mem (place a d s)) (mem u)" "same_rest (place a d s) u"
  defines "t \<equiv> deliver hw lay a d s"
  shows "view lay t = view lay u" and "cache_ok t = cache_ok u" and "counted_blocks n (insert i S) (wrState t)"
    and "resetTime t = ms s + (if insert i S = {..<n} then 30 else 500)"
    and "ms t = ms s" and "restarted t = restarted s"
proof -
  let ?s = "place a d s"
  have free: "free_ram lay a 512" using a by (simp add: sector_buffer_def)
  have word: "ld32 (mem u) (a + of_nat j) = ld32 (mem ?s) (a + of_nat j)" if "j + 3 < 512" for j
  proof -
    have "mem u (a + of_nat (j + x)) = mem ?s (a + of_nat (j + x))" if "x < 4" for x
      using u(2) free \<open>j + 3 < 512\<close> that by (simp add: same_ram_def free_ram_def del: of_nat_add)
    from this [of 0] this [of 1] this [of 2] this [of 3] show ?thesis
      by (simp add: ld32_def ld16_def ac_simps)
  qed
  have u_fields: "uf2_numBlocks (mem u) a = of_nat n" "uf2_blockNo (mem u) a = of_nat i"
    using word [of 20] word [of 24] d placed_fields(6,7) [of a d s]
    by (simp_all add: uf2_numBlocks_def uf2_blockNo_def counts_as_def)
  have i: "i < n" using d by (simp add: counts_as_def)
  have N: "of_nat n \<noteq> (0 :: u32)" using n i by (simp add: word_unat_eq_iff unat_of_nat)
  let ?c = "count_block (of_nat n) (of_nat i) (wrState s)"
  have iu: "unat (of_nat i :: u32) = i" using n i by (simp add: unat_of_nat)
  note cb = count_block_spec [OF w _ n, of "of_nat i", unfolded iu]
  have u_rest: "wrState u = wrState s" "ms u = ms s" "restarted u = restarted s"
    using u(3) by (simp_all add: same_rest_def place_def)
  have t: "t = uf2_timer_start (if fst ?c then 30 else 500) (u\<lparr>wrState := snd ?c\<rparr>)"
    using d N
    unfolding t_def deliver_def write_block_def snd_conv write_block_core_def Let_def placed_tests placed_fields
      u(1) [symmetric]
    by (simp add: counts_as_def u_fields u_rest(1) case_prod_beta)
  have "mem t = mem u" "flashAddr t = flashAddr u" by (simp_all add: t uf2_timer_start_def)
  then show "view lay t = view lay u" by (simp add: view_def fun_eq_iff)
  show "cache_ok t = cache_ok u" by (simp add: t uf2_timer_start_def cache_ok_def)
  show "counted_blocks n (insert i S) (wrState t)" using cb(1) i by (simp add: t uf2_timer_start_def)
  show "resetTime t = ms s + (if insert i S = {..<n} then 30 else 500)"
    using cb(2) i u_rest by (simp add: t uf2_timer_start_def)
  show "ms t = ms s" "restarted t = restarted s" using u_rest by (simp_all add: t uf2_timer_start_def)
qed

lemma deliver_block:
  assumes hw: "fpec_ok hw" "prompt hw" and lay: "page_buffer lay" and a: "sector_buffer lay a"
    and c: "cache_ok s" and d: "block_of lay n d target i len" and n: "n < 356"
    and w: "counted_blocks n S (wrState s)"
  defines "t \<equiv> deliver hw lay a d s"
  shows "stored (view lay s) (view lay t) target (\<lambda>j. d ! (32 + unat j)) len"
    and "cache_ok t" and "counted_blocks n (insert i S) (wrState t)"
    and "resetTime t = ms s + (if insert i S = {..<n} then 30 else 500)"
    and "ms t = ms s" and "restarted t = restarted s"
proof -
  let ?s = "place a d s"
  note k = place_keeps [OF lay a c, of d]
  have free: "free_ram lay a 512" using a by (simp add: sector_buffer_def)
  have len: "len \<le> 256" "0 < len" using d by (auto simp: block_of_def)
  have "free_ram lay (a + 32) len" using free_ram_part [OF free, of 32 len] len by simp
  moreover note valid = block_valid [OF a d]
  moreover define u where "u = flash_write hw lay target (a + 32) (int len) ?s"
  ultimately have wr: "stored (view lay ?s) (view lay u) target (\<lambda>j. mem ?s (a + 32 + j)) len"
      "same_ram lay (mem ?s) (mem u)" "cache_ok u" "same_rest ?s u"
    using write_view [OF hw lay k(2) block_page(1) [OF d], of "int len" "a + 32"] block_page(2) [OF d] len
    by simp_all
  have "uint (of_nat len :: u32) = int len" using len by (simp add: unsigned_of_nat take_bit_eq_mod)
  then have u: "u = (if skipped_block lay (sector d) 0 then ?s
      else flash_write hw lay (uf2_targetAddr (sector d) 0) (a + 32) (uint (uf2_payloadSize (sector d) 0)) ?s)"
    using d by (simp add: u_def block_of_def)
  have "counts_as n d i" using d by (simp add: block_of_def counts_as_def)
  note t = deliver_counted [OF a this n w u wr(2,4), folded t_def]
  have bytes: "mem ?s (a + 32 + j) = d ! (32 + unat j)" if "unat j < len" for j
  proof -
    have "32 + unat j < 512" using that len by simp
    then show ?thesis unfolding payload_offset using placed_byte [of "32 + unat j" a d s]
      by (simp add: sector_def unat_of_nat del: of_nat_add)
  qed
  show "stored (view lay s) (view lay t) target (\<lambda>j. d ! (32 + unat j)) len"
    unfolding t(1) by (rule stored_rom_eq [OF k(1) stored_data [OF wr(1) bytes]])
  show "cache_ok t" "counted_blocks n (insert i S) (wrState t)"
    "resetTime t = ms s + (if insert i S = {..<n} then 30 else 500)" "ms t = ms s" "restarted t = restarted s"
    using t wr(3) by simp_all
qed

text \<open>A block that is skipped, or that the page cache refuses, is counted like any other and leaves the ROM alone.\<close>

lemma deliver_unwritten:
  fixes hw :: Fpec
  assumes lay: "page_buffer lay" and a: "sector_buffer lay a" and c: "cache_ok s"
    and d: "counts_as n d i" and n: "n < 356" and w: "counted_blocks n S (wrState s)"
    and un: "skipped_block lay (sector d) 0 \<or>
      \<not> valid_write (uf2_targetAddr (sector d) 0) (a + 32) (uint (uf2_payloadSize (sector d) 0))"
  defines "t \<equiv> deliver hw lay a d s"
  shows "rom_eq (view lay s) (view lay t)"
    and "cache_ok t" and "counted_blocks n (insert i S) (wrState t)"
    and "resetTime t = ms s + (if insert i S = {..<n} then 30 else 500)"
    and "ms t = ms s" and "restarted t = restarted s"
proof -
  let ?s = "place a d s"
  note k = place_keeps [OF lay a c, of d]
  have u: "?s = (if skipped_block lay (sector d) 0 then ?s
      else flash_write hw lay (uf2_targetAddr (sector d) 0) (a + 32) (uint (uf2_payloadSize (sector d) 0)) ?s)"
    using un by (auto simp add: flash_write_def)
  have "same_ram lay (mem ?s) (mem ?s)" "same_rest ?s ?s" by (simp_all add: same_ram_def same_rest_def)
  note t = deliver_counted [OF a d n w u this, folded t_def]
  show "rom_eq (view lay s) (view lay t)" "cache_ok t" "counted_blocks n (insert i S) (wrState t)"
    "resetTime t = ms s + (if insert i S = {..<n} then 30 else 500)" "ms t = ms s" "restarted t = restarted s"
    using t k by simp_all
qed

section \<open>A whole image\<close>

text \<open>A block of an image: its sector, target, number and length.\<close>

record Block =
  blk_data :: "u8 list"
  blk_target :: u32
  blk_no :: nat
  blk_len :: nat

definition covers :: "Block \<Rightarrow> u32 \<Rightarrow> bool" where
  "covers x b \<longleftrightarrow> unat (b - blk_target x) < blk_len x"

definition blk_byte :: "Block \<Rightarrow> u32 \<Rightarrow> u8" where
  "blk_byte x b = blk_data x ! (32 + unat (b - blk_target x))"

text \<open>The blocks of one image: all its numbers occur, and different blocks write different bytes. A block may
  come more than once.\<close>

definition image_of :: "Layout \<Rightarrow> nat \<Rightarrow> Block list \<Rightarrow> bool" where
  "image_of lay n xs \<longleftrightarrow>
     (\<forall>x\<in>set xs. block_of lay n (blk_data x) (blk_target x) (blk_no x) (blk_len x)) \<and>
     (\<forall>x\<in>set xs. \<forall>y\<in>set xs. \<forall>b. covers x b \<longrightarrow> covers y b \<longrightarrow> x = y)"

definition receive_image :: "Fpec \<Rightarrow> Layout \<Rightarrow> u32 \<Rightarrow> Block list \<Rightarrow> 'a Fat_scheme \<Rightarrow> 'a Fat_scheme" where
  "receive_image hw lay a xs s = fold (\<lambda>x. deliver hw lay a (blk_data x)) xs s"

lemma receive_image_view:
  assumes hw: "fpec_ok hw" "prompt hw" and lay: "page_buffer lay" and a: "sector_buffer lay a" and n: "n < 356"
  shows "cache_ok s \<Longrightarrow> image_of lay n xs \<Longrightarrow> counted_blocks n S (wrState s) \<Longrightarrow> t = receive_image hw lay a xs s \<Longrightarrow>
    cache_ok t \<and> counted_blocks n (S \<union> blk_no ` set xs) (wrState t) \<and> ms t = ms s \<and> restarted t = restarted s \<and>
    (xs \<noteq> [] \<longrightarrow> resetTime t = ms s + (if S \<union> blk_no ` set xs = {..<n} then 30 else 500)) \<and>
    (\<forall>b. in_rom b \<longrightarrow> (\<forall>x\<in>set xs. covers x b \<longrightarrow> view lay t b = blk_byte x b) \<and>
       ((\<forall>x\<in>set xs. \<not> covers x b) \<longrightarrow> view lay t b = view lay s b))"
proof (induction xs arbitrary: s S t)
  case Nil
  then show ?case by (simp add: receive_image_def)
next
  case (Cons x xs)
  define u where "u = deliver hw lay a (blk_data x) s"
  have x: "block_of lay n (blk_data x) (blk_target x) (blk_no x) (blk_len x)" and xs: "image_of lay n xs"
    and once: "\<And>y b. y \<in> set xs \<Longrightarrow> covers x b \<Longrightarrow> covers y b \<Longrightarrow> x = y"
    using Cons.prems(2) by (auto simp: image_of_def)
  note d = deliver_block [OF hw lay a Cons.prems(1) x n Cons.prems(3), folded u_def]
  have "t = receive_image hw lay a xs u" using Cons.prems(4) by (simp add: receive_image_def u_def)
  note ih = Cons.IH [OF d(2) xs d(3) this]
  have sets: "insert (blk_no x) S \<union> blk_no ` set xs = S \<union> blk_no ` set (x # xs)" by auto
  have u: "view lay u b = (if covers x b then blk_byte x b else view lay s b)" if "in_rom b" for b
    using d(1) that by (simp add: stored_def covers_def blk_byte_def)
  have rom: "(\<forall>x\<in>set xs. covers x b \<longrightarrow> view lay t b = blk_byte x b) \<and>
      ((\<forall>x\<in>set xs. \<not> covers x b) \<longrightarrow> view lay t b = view lay u b)" if "in_rom b" for b
    using ih that by blast
  have "(\<forall>y\<in>set (x # xs). covers y b \<longrightarrow> view lay t b = blk_byte y b) \<and>
      ((\<forall>y\<in>set (x # xs). \<not> covers y b) \<longrightarrow> view lay t b = view lay s b)" if b: "in_rom b" for b
  proof (cases "\<exists>y\<in>set xs. covers y b")
    case True
    then obtain y where y: "y \<in> set xs" "covers y b" by blast
    have "view lay t b = blk_byte z b" if z: "z \<in> set (x # xs)" "covers z b" for z
    proof (cases "z \<in> set xs")
      case True
      then show ?thesis using rom [OF b] z(2) by blast
    next
      case False
      then have "z = y" using z once [OF y(1) _ y(2)] by simp
      then show ?thesis using rom [OF b] y by blast
    qed
    then show ?thesis using True by auto
  next
    case False
    then have "view lay t b = view lay u b" using rom [OF b] by blast
    then show ?thesis using False u [OF b] by auto
  qed
  moreover have "resetTime t = ms s + (if S \<union> blk_no ` set (x # xs) = {..<n} then 30 else 500)"
  proof (cases "xs = []")
    case True
    then have "t = u" using \<open>t = receive_image hw lay a xs u\<close> by (simp add: receive_image_def)
    then show ?thesis using d(4) True by simp
  next
    case False
    then show ?thesis using ih d(5) unfolding sets by simp
  qed
  ultimately show ?case using ih d(5,6) unfolding sets by simp
qed

section \<open>The restart\<close>

lemma tick_waiting:
  assumes hw: "fpec_ok hw" "prompt hw" and lay: "page_buffer lay" and c: "cache_ok s"
    and w: "ms s + 1 < resetTime s"
  defines "t \<equiv> ghostfat_1ms hw lay s"
  shows "view lay t = view lay s \<and> cache_ok t \<and> ms t = ms s + 1 \<and> resetTime t = resetTime s \<and> restarted t = restarted s"
proof -
  let ?s = "s\<lparr>ms := ms s + 1\<rparr>"
  have c': "cache_ok ?s" and v: "view lay ?s = view lay s" using c by (simp_all add: cache_ok_def view_def fun_eq_iff)
  note f = flush_view [OF hw lay c']
  have "view lay (flash_flush hw lay ?s) = view lay s"
    using f(1,2) v by (simp add: view_def [of lay "flash_flush hw lay ?s"])
  moreover have "\<not> ms s + 1 \<ge> resetTime s" using w by (simp add: not_le)
  ultimately show ?thesis
    using c' v f(3,4) by (simp add: t_def ghostfat_1ms_def Let_def same_rest_def)
qed

lemma tick_restart:
  assumes hw: "fpec_ok hw" "prompt hw" and lay: "page_buffer lay" and c: "cache_ok s"
    and w: "resetTime s \<noteq> 0" "ms s + 1 \<ge> resetTime s"
  defines "t \<equiv> ghostfat_1ms hw lay s"
  shows "mem t = view lay s \<and> restarted t \<and> backup_read BKP0 t = CMD_APP"
proof -
  let ?s = "s\<lparr>ms := ms s + 1\<rparr>"
  have c': "cache_ok ?s" and v: "view lay ?s = view lay s" using c by (simp_all add: cache_ok_def view_def fun_eq_iff)
  have "t = boot_target_manifest_app (flash_flush hw lay ?s)"
    using w by (simp add: t_def ghostfat_1ms_def Let_def)
  then show ?thesis
    using flush_view(1) [OF hw lay c'] v
    by (simp add: boot_target_manifest_app_def backup_roundtrip)
qed

lemma ticks_waiting:
  assumes hw: "fpec_ok hw" "prompt hw" and lay: "page_buffer lay"
  shows "cache_ok s \<Longrightarrow> unat (ms s) + k < unat (resetTime s) \<Longrightarrow> t = (ghostfat_1ms hw lay ^^ k) s \<Longrightarrow>
    view lay t = view lay s \<and> cache_ok t \<and> ms t = ms s + of_nat k \<and> resetTime t = resetTime s \<and> restarted t = restarted s"
proof (induction k arbitrary: s t)
  case (Suc k)
  let ?u = "ghostfat_1ms hw lay s"
  have m: "unat (ms s + 1) = unat (ms s) + 1"
    using Suc.prems(2) unat_u32_less [of "resetTime s"] unat_add_of_nat [of "ms s" 1] by simp
  have "ms s + 1 < resetTime s" using Suc.prems(2) m by (simp add: word_less_nat_alt)
  note u = tick_waiting [OF hw lay Suc.prems(1) this]
  have "t = (ghostfat_1ms hw lay ^^ k) ?u" using Suc.prems(3) by (simp add: funpow_swap1)
  moreover have "unat (ms ?u) + k < unat (resetTime ?u)" using u m Suc.prems(2) by simp
  ultimately show ?case using Suc.IH [of ?u t] u by (simp add: algebra_simps)
qed simp

lemma restart_after:
  assumes hw: "fpec_ok hw" "prompt hw" and lay: "page_buffer lay" and c: "cache_ok u"
    and r: "resetTime u = ms u + 30" "unat (ms u) + 30 < 2 ^ 32"
  defines "t \<equiv> (ghostfat_1ms hw lay ^^ 30) u"
  shows "mem t = view lay u \<and> restarted t \<and> backup_read BKP0 t = CMD_APP"
proof -
  have m: "unat (ms u + 30) = unat (ms u) + 30" "unat (ms u + 29) = unat (ms u) + 29"
    using r(2) unat_add_of_nat [of "ms u" 30] unat_add_of_nat [of "ms u" 29] by simp_all
  define v where "v = (ghostfat_1ms hw lay ^^ 29) u"
  have "unat (ms u) + 29 < unat (resetTime u)" using r m by simp
  note v = ticks_waiting [OF hw lay c this v_def]
  have v30: "ms v + 1 = ms u + 30" "resetTime v = ms u + 30" "cache_ok v" "view lay v = view lay u"
    using v r by simp_all
  have nz: "resetTime v \<noteq> 0" using v30(2) m(1) by (auto simp: word_unat_eq_iff)
  have "ms v + 1 \<ge> resetTime v" unfolding v30(1,2) by (rule order_refl)
  note e = tick_restart [OF hw lay v30(3) nz this]
  have "t = ghostfat_1ms hw lay v" by (simp add: t_def v_def numeral_eq_Suc)
  then show ?thesis using e v30(4) by simp
qed

lemma image_flashed_lemma:
  assumes hw: "fpec_ok hw" "prompt hw" and lay: "page_buffer lay" and a: "sector_buffer lay a"
    and s: "flashAddr s = NO_CACHE" "\<not> PG (FLASH_CR s)" "\<not> PER (FLASH_CR s)" "counted_blocks n {} (wrState s)"
    and n: "0 < n" "n < 356" and ms: "unat (ms s) + 30 < 2 ^ 32"
    and xs: "image_of lay n xs" "blk_no ` set xs = {..<n}"
    and t: "t = (ghostfat_1ms hw lay ^^ 30) (receive_image hw lay a xs s)"
  shows "restarted t \<and> backup_read BKP0 t = CMD_APP \<and>
    (\<forall>b. in_rom b \<longrightarrow> (\<forall>x\<in>set xs. covers x b \<longrightarrow> mem t b = blk_byte x b) \<and>
       ((\<forall>x\<in>set xs. \<not> covers x b) \<longrightarrow> mem t b = mem s b))"
proof -
  let ?u = "receive_image hw lay a xs s"
  have "cache_ok s" using s by (simp add: cache_ok_def)
  note u = receive_image_view [OF hw lay a n(2) this xs(1) s(4) refl]
  have "xs \<noteq> []" using xs(2) n(1) by auto
  then have r: "resetTime ?u = ms s + 30" "ms ?u = ms s" "cache_ok ?u"
    and rom: "\<forall>b. in_rom b \<longrightarrow> (\<forall>x\<in>set xs. covers x b \<longrightarrow> view lay ?u b = blk_byte x b) \<and>
       ((\<forall>x\<in>set xs. \<not> covers x b) \<longrightarrow> view lay ?u b = view lay s b)"
    using u xs(2) by simp_all
  have "resetTime ?u = ms ?u + 30" "unat (ms ?u) + 30 < 2 ^ 32" using r ms by simp_all
  note e = restart_after [OF hw lay r(3) this]
  moreover have "view lay s = mem s" using s(1) by (simp add: view_def)
  ultimately show ?thesis using rom by (simp add: t)
qed


section \<open>Blocks as bytes\<close>

lemma ld32_bytes:
  assumes "m a = le32 v ! 0" "m (a + 1) = le32 v ! 1" "m (a + 2) = le32 v ! 2" "m (a + 3) = le32 v ! 3"
  shows "ld32 m a = v"
proof -
  have "m a = ucast v" "m (a + 1) = ucast (drop_bit 8 v)" "m (a + 2) = ucast (drop_bit 16 v)"
    "m (a + 2 + 1) = ucast (drop_bit 24 v)"
    using assms by (simp_all add: le32_def ac_simps)
  then show ?thesis unfolding ld32_def ld16_def
    by (intro bit_word_eqI) (auto simp: bit_word_cat_iff bit_simps)
qed

lemma ld32_le32:
  assumes "length xs + 4 \<le> 512"
  shows "ld32 (sector (xs @ le32 v @ ys)) (of_nat (length xs)) = v"
proof -
  have b: "sector (xs @ le32 v @ ys) (of_nat (length xs) + of_nat k) = le32 v ! k" if "k < 4" for k
  proof -
    have "of_nat (length xs) + of_nat k = (of_nat (length xs + k) :: u32)" by simp
    moreover have "unat (of_nat (length xs + k) :: u32) = length xs + k"
      using assms that by (subst unat_of_nat) simp
    moreover have "k < length (le32 v)" using that by (simp add: le32_def)
    ultimately show ?thesis by (simp add: sector_def nth_append del: of_nat_add)
  qed
  from b [of 0] b [of 1] b [of 2] b [of 3] show ?thesis by (intro ld32_bytes) simp_all
qed

text \<open>A sector is its eight header words, the payload and the end mark.\<close>

lemma length_le32 [simp]: "length (le32 v) = 4"
  by (simp add: le32_def)

lemma ld32_at:
  assumes "take 4 (drop k d) = le32 v" "k + 4 \<le> 512"
  shows "ld32 (sector d) (of_nat k) = v"
proof -
  have "length (take 4 (drop k d)) = 4" by (simp add: assms(1))
  then have k: "length (take k d) = k" by simp
  have "d = take k d @ take 4 (drop k d) @ drop 4 (drop k d)" by (simp only: append_take_drop_id)
  then have "d = take k d @ le32 v @ drop 4 (drop k d)" unfolding assms(1) .
  then show ?thesis using ld32_le32 [of "take k d" v "drop 4 (drop k d)"] k assms(2) by simp
qed

definition uf2_sector :: "u32 \<Rightarrow> u32 \<Rightarrow> u32 \<Rightarrow> u32 \<Rightarrow> u32 \<Rightarrow> u8 list \<Rightarrow> u8 list" where
  "uf2_sector opts target len no blocks p =
     le32 UF2_MAGIC_START0 @ le32 UF2_MAGIC_START1 @ le32 opts @ le32 target @ le32 len @ le32 no @ le32 blocks @
     le32 0 @ p @ le32 UF2_MAGIC_END"

lemma uf2_sector_fields:
  assumes "length p = 476" and m_def: "m = sector (uf2_sector opts target len no blocks p)"
  shows "is_uf2_block m 0" "uf2_flags m 0 = opts" "uf2_targetAddr m 0 = target" "uf2_payloadSize m 0 = len"
    "uf2_blockNo m 0 = no" "uf2_numBlocks m 0 = blocks"
proof -
  let ?d = "uf2_sector opts target len no blocks p"
  have at: "ld32 m 0 = UF2_MAGIC_START0" "ld32 m 4 = UF2_MAGIC_START1" "ld32 m 8 = opts" "ld32 m 12 = target"
    "ld32 m 16 = len" "ld32 m 20 = no" "ld32 m 24 = blocks" "ld32 m 508 = UF2_MAGIC_END"
    using ld32_at [of 0 ?d] ld32_at [of 4 ?d] ld32_at [of 8 ?d] ld32_at [of 12 ?d] ld32_at [of 16 ?d]
      ld32_at [of 20 ?d] ld32_at [of 24 ?d] ld32_at [of 508 ?d] assms(1)
    by (simp_all add: m_def uf2_sector_def)
  show "is_uf2_block m 0" "uf2_flags m 0 = opts" "uf2_targetAddr m 0 = target" "uf2_payloadSize m 0 = len"
    "uf2_blockNo m 0 = no" "uf2_numBlocks m 0 = blocks"
    by (simp_all add: is_uf2_block_def uf2_magicStart0_def uf2_magicStart1_def uf2_magicEnd_def uf2_flags_def
        uf2_targetAddr_def uf2_payloadSize_def uf2_blockNo_def uf2_numBlocks_def at)
qed

section \<open>An example\<close>

definition demo_fat :: "memory \<Rightarrow> Fat" where
  "demo_fat m = Boot.extend (demo_boot m)
     (Fat.fields NO_CACHE True False 0 0 0 \<lparr>numBlocks = 0, numWritten = 0, writtenMask = replicate 45 0\<rparr>)"

lemma demo_fat_fields:
  "mem (demo_fat m) = m" "flashAddr (demo_fat m) = NO_CACHE" "\<not> PG (FLASH_CR (demo_fat m))"
  "\<not> PER (FLASH_CR (demo_fat m))" "ms (demo_fat m) = 0"
  by (simp_all add: demo_fat_def demo_boot_def blank_dev_def Dev.extend_def Boot.extend_def Dev.defs Boot.defs Fat.defs)

lemma demo_counted: "counted_blocks n {} (wrState (demo_fat m))"
proof -
  have "replicate 45 (0 :: u8) ! (i div 8) = 0" if "i < 356" for i using that by simp
  then show ?thesis
    by (simp add: counted_blocks_def marked_def demo_fat_def demo_boot_def blank_dev_def Dev.extend_def
        Boot.extend_def Dev.defs Boot.defs Fat.defs)
qed

lemma demo_buffers: "page_buffer demo_layout" "sector_buffer demo_layout 0x20000000"
proof -
  show "page_buffer demo_layout" by (simp add: page_buffer_def demo_layout_def)
  have "\<not> in_rom (0x20000000 + of_nat i) \<and> \<not> in_buffer demo_layout (0x20000000 + of_nat i)" if "i < 512" for i
  proof -
    have u: "unat (0x20000000 + of_nat i :: u32) = 0x20000000 + i" using that unat_add_of_nat [of "0x20000000" i] by simp
    then have "\<not> unat (0x20000000 + of_nat i - (0x20004800 :: u32)) < 1024"
      using that unat_diff_gr [of "0x20000000 + of_nat i :: u32" "0x20004800"] by (simp add: word_less_nat_alt)
    then show ?thesis using u by (simp add: in_rom_def in_buffer_def demo_layout_def)
  qed
  then show "sector_buffer demo_layout 0x20000000" by (simp add: sector_buffer_def free_ram_def)
qed

definition demo_block :: Block where
  "demo_block = \<lparr>blk_data = uf2_sector 0 0x08008000 256 0 1 (replicate 476 7), blk_target = 0x08008000,
     blk_no = 0, blk_len = 256\<rparr>"

lemma demo_image: "image_of demo_layout 1 [demo_block]"
proof -
  note f = uf2_sector_fields [OF _ refl, of "replicate 476 7" 0 "0x08008000" 256 0 1, simplified]
  have "block_of demo_layout 1 (blk_data demo_block) 0x08008000 0 256"
    by (simp add: block_of_def demo_block_def f skipped_block_def UF2_IS_MY_FAMILY_def demo_layout_def
        FLASH_SIZE_OVERRIDE_def)
  then show ?thesis by (simp add: image_of_def demo_block_def)
qed


end
