(* ===== verification/GhostSafety.thy ===== *)
theory GhostSafety
  imports Uf2Laws
begin

text \<open>
  What no sector a host writes can do: change the ROM below the application, or RAM outside the two buffers,
  whatever the bytes of the sector are and however the flash controller fares.
\<close>

unbundle bit_operations_syntax

section \<open>The frame of a write\<close>

definition writable :: "Layout \<Rightarrow> nat \<Rightarrow> u32 \<Rightarrow> bool" where
  "writable lay lo b \<longleftrightarrow> lo \<le> unat b \<and> unat b < 0x08010000 \<or> in_buffer lay b"

definition framed :: "Layout \<Rightarrow> nat \<Rightarrow> memory \<Rightarrow> memory \<Rightarrow> bool" where
  "framed lay lo m m' \<longleftrightarrow> (\<forall>b. \<not> writable lay lo b \<longrightarrow> m' b = m b)"

definition cache_above :: "nat \<Rightarrow> 'a Fat_scheme \<Rightarrow> bool" where
  "cache_above lo s \<longleftrightarrow> flashAddr s = NO_CACHE \<or> unat (flashAddr s) mod 1024 = 0 \<and> lo \<le> unat (flashAddr s)"

lemma framed_refl [simp]: "framed lay lo m m"
  by (simp add: framed_def)

lemma framed_trans: "framed lay lo m m' \<Longrightarrow> framed lay lo m' m'' \<Longrightarrow> framed lay lo m m''"
  by (simp add: framed_def)

lemma flush_framed:
  assumes hw: "fpec_ok hw" and c: "cache_above lo s"
  shows "framed lay lo (mem s) (mem (flash_flush hw lay s))"
    and "flashAddr (flash_flush hw lay s) = NO_CACHE"
proof -
  have "kept_outside lo 0x08010000 (mem t) (mem (snd (base_flash_program_array hw lay p src n t)))"
    if p: "unat p mod 1024 = 0" "lo \<le> unat p" for p src n and t :: "'a Fat_scheme"
  proof -
    let ?r = "t\<lparr>para_dest := p, para_src := src, para_byte_count := of_nat n * 2, para_restart := 0, para_preview := 0\<rparr>"
    have "1024 dvd unat p" using p(1) by (rule mod_0_imp_dvd)
    then have "even (unat p)" by (rule dvd_trans [rotated]) simp
    then have "even_address (para_dest ?r)" by (simp add: even_address_def even_iff_mod_2_eq_zero)
    from baseloader_kept [OF hw this, of "vector_table lay"]
    have "kept_outside (unat p) 0x08010000 (mem t) (mem (baseloader_start hw (vector_table lay) ?r))"
      using p(1) by (simp add: page_address)
    then show ?thesis
      using p(2) by (auto simp: base_flash_program_array_def Let_def elim!: kept_outside_mono)
  qed
  from this [of "flashAddr s" "s\<lparr>lastFlush := ms s, firstFlush := False\<rparr>" "flashBuf lay" 512] c
  have "kept_outside lo 0x08010000 (mem s) (mem (flash_flush hw lay s))"
    by (auto simp: flash_flush_def Let_def cache_above_def)
  then show "framed lay lo (mem s) (mem (flash_flush hw lay s))"
    by (auto simp: framed_def kept_outside_def writable_def)
  show "flashAddr (flash_flush hw lay s) = NO_CACHE" by (simp add: flash_flush_def Let_def)
qed

lemma chunk_framed:
  assumes hw: "fpec_ok hw" and c: "cache_above lo s"
    and d: "lo \<le> unat (FLASH_ADDRESS dst)" "unat dst mod 1024 + n \<le> 1024"
  shows "framed lay lo (mem s) (mem (write_chunk hw lay dst src n s))"
    and "cache_above lo (write_chunk hw lay dst src n s)"
proof -
  let ?s = "s\<lparr>hadWrite := True\<rparr>" and ?p = "FLASH_ADDRESS dst" and ?o = "dst AND (FLASH_PAGE_SIZE - 1)"
  define t where "t = (if ?p \<noteq> flashAddr ?s
      then (flash_flush hw lay ?s)\<lparr>flashAddr := ?p,
             mem := memcpy (mem (flash_flush hw lay ?s)) (flashBuf lay) ?p 1024\<rparr>
      else ?s)"
  have "cache_above lo ?s" using c by (simp add: cache_above_def)
  note f = flush_framed [OF hw this, of lay]
  have t: "framed lay lo (mem s) (mem t)" "flashAddr t = ?p"
    using f(1) by (auto simp: t_def framed_def memcpy_def writable_def in_buffer_def)
  have u: "write_chunk hw lay dst src n s = t\<lparr>mem := memcpy (mem t) (flashBuf lay + ?o) src n\<rparr>"
    by (simp add: write_chunk_def Let_def dst_parts(1) t_def)
  have "?o = of_nat (unat dst mod 1024)" unfolding dst_parts(3) [symmetric] by simp
  then have "in_buffer lay b" if "unat (b - (flashBuf lay + ?o)) < n" for b
    using that unat_diff_offset [of "unat dst mod 1024" n b "flashBuf lay"] d(2)
    unfolding in_buffer_def by auto
  then show "framed lay lo (mem s) (mem (write_chunk hw lay dst src n s))"
    using t(1) by (auto simp: u framed_def memcpy_def writable_def)
  show "cache_above lo (write_chunk hw lay dst src n s)"
    using t(2) d(1) by (simp add: u cache_above_def unat_FLASH_ADDRESS)
qed

section \<open>Whatever the host writes\<close>

text \<open>The host writes sectors, and milliseconds pass, in any order.\<close>

datatype Disk_Event = Sector "u8 list" | Tick

fun disk_step :: "Fpec \<Rightarrow> Layout \<Rightarrow> u32 \<Rightarrow> Disk_Event \<Rightarrow> 'a Fat_scheme \<Rightarrow> 'a Fat_scheme" where
  "disk_step hw lay a (Sector d) s = deliver hw lay a d s"
| "disk_step hw lay a Tick s = ghostfat_1ms hw lay s"

lemma aligned_block:
  fixes target :: u32
  assumes "target AND 0xff = 0" "len \<le> 256"
  shows "unat target mod 1024 + len \<le> 1024"
proof -
  have "(0xff :: u32) = mask 8" by (simp add: mask_eq_exp_minus_1)
  then have "take_bit 8 target = 0" using assms(1) by (simp add: take_bit_eq_mask)
  then have "unat target mod 256 = 0" by (simp add: take_bit_eq_mod unat_mod word_unat_eq_iff)
  moreover have "unat target mod 1024 mod 256 = unat target mod 256" by (simp add: mod_mod_cancel)
  ultimately obtain q where q: "unat target mod 1024 = 256 * q" by (metis mod_0_imp_dvd dvdE)
  then have "q < 4" using mod_less_divisor [of 1024 "unat target"] by linarith
  then show ?thesis using q assms(2) by simp
qed

lemma block_framed:
  assumes hw: "fpec_ok hw" and c: "cache_above (unat (APP_BASE_ADDRESS lay)) s"
    and app: "unat (APP_BASE_ADDRESS lay) mod 1024 = 0"
  shows "framed lay (unat (APP_BASE_ADDRESS lay)) (mem s) (mem (write_block_core hw lay bl quiet s))"
    and "cache_above (unat (APP_BASE_ADDRESS lay)) (write_block_core hw lay bl quiet s)"
proof -
  let ?lo = "unat (APP_BASE_ADDRESS lay)" and ?t = "uf2_targetAddr (mem s) bl"
  let ?n = "uint (uf2_payloadSize (mem s) bl)"
  let ?w = "flash_write hw lay ?t (bl + 32) ?n s"
  have w: "framed lay ?lo (mem s) (mem ?w) \<and> cache_above ?lo ?w" if ok: "\<not> skipped_block lay (mem s) bl"
  proof (cases "valid_write ?t (bl + 32) ?n \<and> ?n > 0")
    case True
    have p: "?t AND 0xff = 0" "uf2_payloadSize (mem s) bl \<le> 256" "APP_BASE_ADDRESS lay \<le> ?t"
      using ok by (auto simp: skipped_block_def not_less)
    have n: "nat ?n \<le> 256" using p(2) by (simp add: word_le_nat_alt nat_uint_eq)
    then have n2: "?n \<le> 1024" by linarith
    have "?w = write_chunk hw lay ?t (bl + 32) (nat ?n) s"
      using True n2 by (simp add: flash_write_def write_loop.simps)
    moreover have "?lo \<le> unat (FLASH_ADDRESS ?t)"
    proof -
      have "?lo div 1024 \<le> unat ?t div 1024" using p(3) by (intro div_le_mono) (simp add: word_le_nat_alt)
      moreover have "?lo = ?lo div 1024 * 1024" using app by auto
      ultimately show ?thesis by (simp add: unat_FLASH_ADDRESS)
    qed
    ultimately show ?thesis using chunk_framed [OF hw c _ aligned_block [OF p(1) n]] by simp
  next
    case False
    then have "?w = s" by (auto simp: flash_write_def write_loop.simps)
    then show ?thesis using c by simp
  qed
  define u where "u = (if skipped_block lay (mem s) bl then s else ?w)"
  have u: "framed lay ?lo (mem s) (mem u)" "cache_above ?lo u" using w c by (simp_all add: u_def)
  let ?x = "write_block_core hw lay bl quiet s"
  have "mem ?x = mem s \<and> flashAddr ?x = flashAddr s \<or> mem ?x = mem u \<and> flashAddr ?x = flashAddr u"
    unfolding write_block_core_def Let_def u_def [symmetric] case_prod_beta
    by (simp add: uf2_timer_start_def)
  then show "framed lay ?lo (mem s) (mem ?x)" "cache_above ?lo ?x"
    using u c by (auto simp: cache_above_def)
qed

lemma disk_step_framed:
  assumes "fpec_ok hw" "cache_above (unat (APP_BASE_ADDRESS lay)) s" "unat (APP_BASE_ADDRESS lay) mod 1024 = 0"
    and "\<not> writable lay (unat (APP_BASE_ADDRESS lay)) b" "\<not> unat (b - a) < 512"
  shows "mem (disk_step hw lay a e s) b = mem s b \<and> cache_above (unat (APP_BASE_ADDRESS lay)) (disk_step hw lay a e s)"
proof (cases e)
  case (Sector d)
  have "cache_above (unat (APP_BASE_ADDRESS lay)) (place a d s)" using assms(2) by (simp add: place_def cache_above_def)
  from block_framed [OF assms(1) this assms(3), of a False] show ?thesis
    using Sector assms(4,5) by (simp add: deliver_def write_block_def framed_def place_def)
next
  case Tick
  let ?s = "s\<lparr>ms := ms s + 1\<rparr>"
  have "cache_above (unat (APP_BASE_ADDRESS lay)) ?s" using assms(2) by (simp add: cache_above_def)
  note f = flush_framed [OF assms(1) this, of lay]
  have "flashAddr (boot_target_manifest_app x) = flashAddr x" "mem (boot_target_manifest_app x) = mem x" for x :: "'a Fat_scheme"
    by (simp_all add: boot_target_manifest_app_def backup_write_def)
  then show ?thesis
    using Tick f assms(2,4) by (auto simp: ghostfat_1ms_def Let_def framed_def cache_above_def)
qed

lemma bootloader_protected_lemma:
  assumes "fpec_ok hw" "unat (APP_BASE_ADDRESS lay) mod 1024 = 0"
    and "\<not> writable lay (unat (APP_BASE_ADDRESS lay)) b" "\<not> unat (b - a) < 512"
  shows "cache_above (unat (APP_BASE_ADDRESS lay)) s \<Longrightarrow> mem (fold (disk_step hw lay a) es s) b = mem s b"
proof (induction es arbitrary: s)
  case (Cons e es)
  then show ?case using disk_step_framed [OF assms(1) Cons.prems assms(2-4), of e] by simp
qed simp

text \<open>C3. The disk cannot damage the bootloader. Whatever sectors the host writes and whenever milliseconds pass between
  them, no byte changes except in the ROM from the start of the application on, in the page buffer, and in the buffer that
  receives the sectors. This holds for forged headers too: the end of a block is computed with wrap-around, so a
  block for the top of the address space passes the checks of the disk and is only stopped by the Baseloader.\<close>

theorem bootloader_protected:
  assumes "fpec_ok hw" "unat (APP_BASE_ADDRESS lay) mod 1024 = 0" "flashAddr s = NO_CACHE"
    and "unat b < unat (APP_BASE_ADDRESS lay) \<or> 0x08010000 \<le> unat b"
    and "\<not> unat (b - flashBuf lay) < 1024" "\<not> unat (b - a) < 512"
  shows "mem (fold (disk_step hw lay a) es s) b = mem s b"
  by (rule bootloader_protected_lemma) (use assms in \<open>auto simp: writable_def in_buffer_def cache_above_def\<close>)

text \<open>A block for the start of the bootloader, and 600 ms.\<close>

theorem bootloader_protected_witness:
  "mem (fold (disk_step f1 demo_layout 0x20000000)
     (Sector (uf2_sector 0 0x08000000 256 0 1 (replicate 476 7)) # replicate 600 Tick) (demo_fat (\<lambda>_. 0x11))) 0x08000000 = 0x11"
  (is "mem (fold ?f ?es ?s) _ = _")
proof -
  have "unat (APP_BASE_ADDRESS demo_layout) = 0x08007400" "flashBuf demo_layout = 0x20004800"
    by (simp_all add: demo_layout_def)
  then show ?thesis
    using bootloader_protected [OF f1_ok(1), where lay = demo_layout and b = "0x08000000" and a = "0x20000000"
        and s = ?s and es = ?es]
    unfolding demo_fat_fields by simp
qed

end
