(* ===== verification/DiskLaws.thy ===== *)
theory DiskLaws
  imports GhostSafety
begin

text \<open>
  The disk the host sees: its FAT leads from the directory entry of \<^verbatim>\<open>CURRENT.UF2\<close> through exactly the
  sectors that show the ROM page by page, and writing these sectors back changes nothing.
\<close>

unbundle bit_operations_syntax

section \<open>The FAT\<close>

definition entry :: "u8 list \<Rightarrow> nat \<Rightarrow> u16" where
  "entry data i = word_cat (data ! (2 * i + 1)) (data ! (2 * i))"

lemma nth_blit: "i + length src \<le> length xs \<Longrightarrow> k < length xs \<Longrightarrow>
    blit xs i src ! k = (if i \<le> k \<and> k < i + length src then src ! (k - i) else xs ! k)"
  by (auto simp: blit_def nth_append min_def)

lemma length_le16 [simp]: "length (le16 v) = 2"
  by (simp add: le16_def)

lemma entry_le16: "word_cat (le16 v ! Suc 0) (le16 v ! 0) = v"
  by (rule bit_word_eqI) (auto simp: le16_def bit_word_cat_iff bit_simps)

definition fat_value :: "nat \<Rightarrow> u16" where
  "fat_value v = (if v = UF2_LAST_SECTOR then 0xffff else of_nat (v + 1))"

definition uf2_cluster :: "nat \<Rightarrow> bool" where
  "uf2_cluster v \<longleftrightarrow> UF2_FIRST_SECTOR \<le> v \<and> v \<le> UF2_LAST_SECTOR"

lemma store_entries:
  "n \<le> 256 \<Longrightarrow> length data = 512 \<Longrightarrow>
    length (fold (store_entry k) [0..<n] data) = 512 \<and>
    (\<forall>j<256. entry (fold (store_entry k) [0..<n] data) j =
       (if j < n \<and> uf2_cluster (k * 256 + j) then fat_value (k * 256 + j) else entry data j))"
proof (induction n)
  case (Suc n)
  define d where "d = fold (store_entry k) [0..<n] data"
  have d: "length d = 512" and ih: "\<forall>j<256. entry d j =
      (if j < n \<and> uf2_cluster (k * 256 + j) then fat_value (k * 256 + j) else entry data j)"
    using Suc by (simp_all add: d_def)
  have f: "fold (store_entry k) [0..<Suc n] data = store_entry k n d" by (simp add: d_def)
  show ?case
  proof (cases "uf2_cluster (k * 256 + n)")
    case True
    then have st: "store_entry k n d = blit d (2 * n) (le16 (fat_value (k * 256 + n)))"
      by (simp add: store_entry_def uf2_cluster_def fat_value_def)
    have "entry (store_entry k n d) j = (if j = n then fat_value (k * 256 + n) else entry d j)" if "j < 256" for j
      using d that Suc.prems(1) by (auto simp: st entry_def nth_blit entry_le16)
    moreover have "length (store_entry k n d) = 512"
      using d Suc.prems(1) by (simp add: st length_blit)
    ultimately show ?thesis unfolding f using ih True by (auto simp: less_Suc_eq)
  next
    case False
    then have "store_entry k n d = d" by (auto simp: store_entry_def uf2_cluster_def)
    then show ?thesis unfolding f using ih d False by (auto simp: less_Suc_eq)
  qed
qed simp

text \<open>The FAT entry of a cluster, read from the copy of the FAT that starts at a sector.\<close>

definition fat_entry :: "memory \<Rightarrow> nat \<Rightarrow> nat \<Rightarrow> u16" where
  "fat_entry m start c = entry (read_block m (of_nat (start + c div 256))) (c mod 256)"

lemma fat_entry_uf2:
  assumes "start = START_FAT0 \<or> start = START_FAT1" "uf2_cluster c"
  shows "fat_entry m start c = fat_value c"
proof -
  have c: "4 \<le> c" "c \<le> 259" using assms(2) by (simp_all add: uf2_cluster_def fat_layout)
  then have q: "c div 256 < 2" by simp
  let ?b = "start + c div 256"
  have b: "unat (of_nat ?b :: u32) = ?b" "?b \<noteq> 0" "?b < START_ROOTDIR"
    using assms(1) q by (auto simp: fat_layout unat_of_nat simp del: of_nat_add)
  have "(let i = ?b - START_FAT0 in if i \<ge> SECTORS_PER_FAT then i - SECTORS_PER_FAT else i) = c div 256"
    using assms(1) q by (auto simp: fat_layout)
  then have r: "read_block m (of_nat ?b) = fat_sector (c div 256) (replicate 512 0)"
    unfolding read_block_def Let_def b(1) if_not_P [OF b(2)] if_P [OF b(3)] by simp
  define d where "d = (if c div 256 = 0
      then fold (\<lambda>i d. poke d i 0xff) [1..<NUM_INFO * 2 + 4] (poke (replicate 512 0 :: u8 list) 0 0xf0) else replicate 512 0)"
  have pokes: "length xs = 512 \<Longrightarrow> set is \<subseteq> {..<512} \<Longrightarrow>
      length (fold (\<lambda>i d. poke d i (0xff :: u8)) is xs) = 512" for xs "is"
    by (induction "is" arbitrary: xs) (auto simp: length_poke)
  have "length (poke (replicate 512 0 :: u8 list) 0 0xf0) = 512" "set [1..<NUM_INFO * 2 + 4] \<subseteq> {..<512}"
    by (auto simp: length_poke NUM_INFO_def)
  then have "length d = 512" unfolding d_def using pokes by auto
  moreover have "c div 256 * 256 + c mod 256 = c" by simp
  ultimately have "entry (fold (store_entry (c div 256)) [0..<256] d) (c mod 256) = fat_value c"
    using store_entries [of 256 d "c div 256"] assms(2) by simp
  then show ?thesis by (simp only: fat_entry_def r fat_sector_def Let_def d_def)
qed

text \<open>A file is the clusters from its start on, up to an end mark; the fuel bounds its length.\<close>

fun cluster_chain :: "(nat \<Rightarrow> u16) \<Rightarrow> nat \<Rightarrow> nat \<Rightarrow> nat list" where
  "cluster_chain next 0 c = []"
| "cluster_chain next (Suc fuel) c = (if 0xfff8 \<le> c then [] else c # cluster_chain next fuel (unat (next c)))"

lemma chain_from:
  assumes "\<And>c. uf2_cluster c \<Longrightarrow> f c = fat_value c" "4 \<le> c" "c \<le> 259" "259 - c < n"
  shows "cluster_chain f (Suc n) c = [c..<260]"
  using assms(2-)
proof (induction "259 - c" arbitrary: c n)
  case 0
  then obtain k where "n = Suc k" by (cases n) simp_all
  moreover have "f 259 = 0xffff" using assms(1) [of 259] by (simp add: uf2_cluster_def fat_value_def fat_layout)
  moreover have "c = 259" using 0 by simp
  moreover have "[259..<260] = [259 :: nat]" by (simp add: upt_rec)
  ultimately show ?case by simp
next
  case (Suc j)
  then obtain k where k: "n = Suc k" by (cases n) simp_all
  have "f c = of_nat (c + 1)"
    using assms(1) [of c] Suc by (simp add: uf2_cluster_def fat_value_def fat_layout)
  moreover have "unat (of_nat (c + 1) :: u16) = c + 1"
    using Suc.prems by (subst unat_of_nat) simp
  moreover have "cluster_chain f (Suc k) (c + 1) = [c + 1..<260]"
    using Suc.hyps(2) Suc.prems k by (intro Suc.hyps(1)) simp_all
  moreover have "[c..<260] = c # [c + 1..<260]" using Suc by (simp add: upt_conv_Cons)
  ultimately show ?case using Suc.prems k by (simp del: of_nat_add cluster_chain.simps add: cluster_chain.simps(2))
qed

section \<open>CURRENT.UF2\<close>

text \<open>The sector of a cluster.\<close>

definition cluster_sector :: "nat \<Rightarrow> nat" where
  "cluster_sector c = START_CLUSTERS + (c - 2)"

lemma length_current_block [simp]: "length (current_block m k addr) = 512"
  by (simp add: current_block_def)

lemma read_current:
  assumes "k < 256"
  shows "read_block m (of_nat (cluster_sector (UF2_FIRST_SECTOR + k))) = current_block m k (of_nat (256 * k))"
proof -
  let ?b = "cluster_sector (UF2_FIRST_SECTOR + k)"
  have b: "?b = 71 + k" by (simp add: cluster_sector_def fat_layout)
  have u: "unat (of_nat (71 + k) :: u32) = 71 + k" using assms by (simp add: unat_of_nat del: of_nat_add)
  have idx: "71 + k - START_CLUSTERS - (NUM_INFO - 1) = k" by (simp add: fat_layout)
  have addr: "of_nat k * 256 = (of_nat (256 * k) :: u32)" by simp
  have "unat (of_nat (256 * k) :: u32) = 256 * k" using assms by (simp add: unat_of_nat del: of_nat_mult)
  then have "of_nat (256 * k) < FLASH_SIZE_OVERRIDE"
    using assms by (simp add: FLASH_SIZE_OVERRIDE_def word_less_nat_alt del: of_nat_mult)
  moreover have "blit (replicate 512 0) 0 (current_block m k a) = current_block m k a" for a
    by (simp add: blit_def)
  ultimately show ?thesis
    unfolding b read_block_def Let_def u addr idx
    by (simp add: fat_layout addr [symmetric])
qed

lemma length_padded_memcpy [simp]: "length (padded_memcpy cs n) = n"
  by (induction cs n rule: padded_memcpy.induct) simp_all

lemma length_DirEntry [simp]: "length (DirEntry name attrs c n) = 32"
  by (simp add: DirEntry_def chars_def)

lemma root_directory_entries:
  "root_directory = DirEntry VOLUME_LABEL 0x28 0 0 @ DirEntry ''INFO_UF2TXT'' 0 2 (of_nat (strlen infoUf2File)) @
     DirEntry ''INDEX   HTM'' 0 3 (of_nat (strlen indexFile)) @
     DirEntry ''CURRENT UF2'' 0 (of_nat UF2_FIRST_SECTOR) (of_nat UF2_SIZE)"
proof -
  have "[0..<NUM_INFO] = [0, 1, 2]" by (simp add: NUM_INFO_def upt_rec)
  moreover have "(2 :: u16) + 2 = of_nat UF2_FIRST_SECTOR" by (simp add: fat_layout)
  ultimately show ?thesis by (simp add: root_directory_def info_def fat_layout)
qed

text \<open>The sectors of the file that starts at a cluster, as the host reads them along one copy of the FAT.\<close>

definition file_sectors :: "memory \<Rightarrow> nat \<Rightarrow> nat \<Rightarrow> u8 list list" where
  "file_sectors m start c = map (\<lambda>c. read_block m (of_nat (cluster_sector c))) (cluster_chain (fat_entry m start) 300 c)"

lemma file_sectors_current:
  assumes "start = START_FAT0 \<or> start = START_FAT1"
  shows "file_sectors m start UF2_FIRST_SECTOR = map (\<lambda>k. current_block m k (of_nat (256 * k))) [0..<256]"
proof -
  have "cluster_chain (fat_entry m start) (Suc 299) 4 = [4..<260]"
    using assms by (intro chain_from) (auto intro: fat_entry_uf2)
  also have "\<dots> = map (\<lambda>k. UF2_FIRST_SECTOR + k) [0..<256]"
    using map_add_upt [of 4 256] by (simp add: fat_layout add.commute)
  finally have "cluster_chain (fat_entry m start) 300 UF2_FIRST_SECTOR = map (\<lambda>k. UF2_FIRST_SECTOR + k) [0..<256]"
    by (simp add: fat_layout)
  then show ?thesis by (simp add: file_sectors_def read_current del: of_nat_mult)
qed


section \<open>Writing it back\<close>

lemma or_rom_base:
  assumes "k < 256"
  shows "of_nat (256 * k) OR 0x8000000 = (0x08000000 + of_nat (256 * k) :: u32)"
    and "unat (0x08000000 + of_nat (256 * k) :: u32) = 0x08000000 + 256 * k"
proof -
  have "(256 * k) div 2 ^ 27 = 0" using assms by simp
  then have "\<not> bit (256 * k) 27" by (simp add: bit_iff_odd)
  then have "bit (of_nat (256 * k) :: u32) n \<Longrightarrow> n \<noteq> 27" for n
    by (auto simp: bit_of_nat_iff simp del: of_nat_mult)
  moreover have p: "push_bit 27 1 = (0x8000000 :: u32)" by (simp add: push_bit_eq_mult)
  have "bit (0x8000000 :: u32) n \<longleftrightarrow> n = 27" for n
    unfolding p [symmetric] bit_push_bit_iff by (auto simp: bit_1_iff)
  ultimately have "of_nat (256 * k) AND (0x8000000 :: u32) = 0"
    by (intro bit_word_eqI) (auto simp: bit_simps)
  then show "of_nat (256 * k) OR 0x8000000 = (0x08000000 + of_nat (256 * k) :: u32)"
    by (simp add: disjunctive_add_eq_or [symmetric] add.commute)
  show "unat (0x08000000 + of_nat (256 * k) :: u32) = 0x08000000 + 256 * k"
    using assms unat_add_of_nat [of "0x08000000" "256 * k"] by simp
qed

lemma current_sector:
  assumes "k < 256"
  shows "current_block m k (of_nat (256 * k)) = uf2_sector 0 (0x08000000 + of_nat (256 * k)) 256 (of_nat k) 256
    (map (\<lambda>i. m (of_nat (256 * k) + of_nat i)) [0..<256] @ replicate 220 0)"
  by (simp add: current_block_def uf2_sector_def or_rom_base(1) [OF assms] del: of_nat_mult)

text \<open>The ROM shows at address 0 as well.\<close>

definition rom_at_zero :: "memory \<Rightarrow> bool" where
  "rom_at_zero m \<longleftrightarrow> (\<forall>i<0x10000. m (of_nat i) = m (0x08000000 + of_nat i))"

lemma current_delivered:
  assumes hw: "fpec_ok hw" "prompt hw" and lay: "page_buffer lay" and a: "sector_buffer lay a"
    and c: "cache_ok s" and w: "counted_blocks 256 S (wrState s)" and k: "k < 256"
    and m: "rom_at_zero m" "rom_eq m (view lay s)"
  defines "t \<equiv> deliver hw lay a (current_block m k (of_nat (256 * k))) s"
  shows "rom_eq (view lay s) (view lay t) \<and> cache_ok t \<and> counted_blocks 256 (insert k S) (wrState t) \<and>
    resetTime t = ms s + (if insert k S = {..<256} then 30 else 500) \<and> ms t = ms s"
proof -
  let ?d = "current_block m k (of_nat (256 * k))" and ?t = "0x08000000 + of_nat (256 * k) :: u32"
  note f = uf2_sector_fields [OF _ refl, of "map (\<lambda>i. m (of_nat (256 * k) + of_nat i)) [0..<256] @ replicate 220 0"
      0 ?t 256 "of_nat k" 256, folded current_sector [OF k]]
  have len: "length (map (\<lambda>i. m (of_nat (256 * k) + of_nat i)) [0..<256] @ replicate 220 0) = 476" by simp
  note f = f [OF len]
  have fam: "UF2_IS_MY_FAMILY (sector ?d) 0" unfolding UF2_IS_MY_FAMILY_def f(2) by simp
  have count: "counts_as 256 ?d k" using f fam k by (simp add: counts_as_def)
  have n: "(256 :: nat) < 356" by simp
  show ?thesis
  proof (cases "skipped_block lay (sector ?d) 0 \<or> k = 255")
    case True
    have "\<not> valid_write 0x0800FF00 (a + 32) 256" by (simp add: valid_write_def)
    then have "skipped_block lay (sector ?d) 0 \<or>
        \<not> valid_write (uf2_targetAddr (sector ?d) 0) (a + 32) (uint (uf2_payloadSize (sector ?d) 0))"
      using True f by auto
    from deliver_unwritten [OF lay a c count n w this, of hw, folded t_def] show ?thesis by blast
  next
    case False
    then have b: "block_of lay 256 ?d ?t k 256"
      using f fam k or_rom_base(2) [OF k] by (simp add: block_of_def del: of_nat_mult)
    note d = deliver_block [OF hw lay a c b n w, folded t_def]
    have "?d ! (32 + unat (x - ?t)) = view lay s x" if x: "unat (x - ?t) < 256" "in_rom x" for x
    proof -
      define j where "j = unat (x - ?t)"
      have xj: "x = 0x08000000 + of_nat (256 * k + j)" using of_nat_unat_diff [of ?t x] by (simp add: j_def)
      have jk: "256 * k + j < 0x10000" using x(1) k by (simp add: j_def)
      have "?d ! (32 + j) = m (of_nat (256 * k) + of_nat j)"
        using x(1) by (simp add: j_def [symmetric] current_block_def nth_append del: of_nat_mult)
      also have "\<dots> = m x"
        unfolding xj using m(1) [unfolded rom_at_zero_def, rule_format, OF jk] by (simp add: ac_simps)
      also have "\<dots> = view lay s x" using m(2) x(2) by (simp add: rom_eq_def in_rom_def)
      finally show ?thesis by (simp add: j_def)
    qed
    then have "rom_eq (view lay s) (view lay t)"
      using d(1) by (auto simp: stored_def rom_eq_def in_rom_def)
    then show ?thesis using d by blast
  qed
qed

lemma current_delivered_all:
  assumes hw: "fpec_ok hw" "prompt hw" and lay: "page_buffer lay" and a: "sector_buffer lay a"
    and m: "rom_at_zero m"
  shows "cache_ok s \<Longrightarrow> counted_blocks 256 S (wrState s) \<Longrightarrow> rom_eq m (view lay s) \<Longrightarrow> set ks \<subseteq> {..<256} \<Longrightarrow>
    t = fold (\<lambda>k. deliver hw lay a (current_block m k (of_nat (256 * k)))) ks s \<Longrightarrow>
    rom_eq m (view lay t) \<and> cache_ok t \<and> ms t = ms s \<and>
    (ks \<noteq> [] \<longrightarrow> resetTime t = ms s + (if S \<union> set ks = {..<256} then 30 else 500))"
proof (induction ks arbitrary: s S t)
  case (Cons k ks)
  define u where "u = deliver hw lay a (current_block m k (of_nat (256 * k))) s"
  have "k < 256" using Cons.prems(4) by simp
  note u = current_delivered [OF hw lay a Cons.prems(1,2) this m Cons.prems(3), folded u_def]
  have "rom_eq m (view lay u)" using Cons.prems(3) u by (simp add: rom_eq_def)
  moreover have "t = fold (\<lambda>k. deliver hw lay a (current_block m k (of_nat (256 * k)))) ks u"
    using Cons.prems(5) by (simp add: u_def)
  ultimately have ih: "rom_eq m (view lay t) \<and> cache_ok t \<and> ms t = ms u \<and>
      (ks \<noteq> [] \<longrightarrow> resetTime t = ms u + (if insert k S \<union> set ks = {..<256} then 30 else 500))"
    using Cons.IH [of u "insert k S" t] u Cons.prems(4) by simp
  have "resetTime t = ms s + (if S \<union> set (k # ks) = {..<256} then 30 else 500)"
    using ih u \<open>t = fold _ ks u\<close> by (cases "ks = []") (simp_all add: Un_insert_right)
  then show ?case using ih u by simp
qed simp


text \<open>C40. The last 256 bytes of the ROM cannot be written over the disk. A block for them passes the check of the
  UF2 layer, is counted and schedules the restart like any other, but the page cache refuses its last address
  and drops it, so the device can restart into an application that misses its end.\<close>

theorem last_bytes_dropped:
  fixes hw :: Fpec
  assumes "page_buffer lay" "sector_buffer lay a" "cache_ok s" "counts_as n d i" "n < 356"
    and "counted_blocks n S (wrState s)" and "uf2_flags (sector d) 0 = 0" "APP_BASE_ADDRESS lay \<le> 0x0800FF00"
    and "uf2_targetAddr (sector d) 0 = 0x0800FF00" "uf2_payloadSize (sector d) 0 = 256"
    and "t = deliver hw lay a d s"
  shows "\<not> skipped_block lay (sector d) 0 \<and> rom_eq (view lay s) (view lay t) \<and>
    counted_blocks n (insert i S) (wrState t) \<and>
    resetTime t = ms s + (if insert i S = {..<n} then 30 else 500)"
proof -
  have "\<not> valid_write (uf2_targetAddr (sector d) 0) (a + 32) (uint (uf2_payloadSize (sector d) 0))"
    using assms(9,10) by (simp add: valid_write_def)
  then have "skipped_block lay (sector d) 0 \<or>
      \<not> valid_write (uf2_targetAddr (sector d) 0) (a + 32) (uint (uf2_payloadSize (sector d) 0))" ..
  note u = deliver_unwritten [OF assms(1-6) this, of hw, folded assms(11)]
  have "\<not> skipped_block lay (sector d) 0"
    using assms(7-10) by (simp add: skipped_block_def FLASH_SIZE_OVERRIDE_def not_less)
  then show ?thesis using u by blast
qed

theorem last_bytes_dropped_witness:
  "view demo_layout (deliver f1 demo_layout 0x20000000 (uf2_sector 0 0x0800FF00 256 0 1 (replicate 476 7))
     (demo_fat (\<lambda>_. 0x11))) 0x0800FF00 = 0x11"
proof -
  let ?d = "uf2_sector 0 0x0800FF00 256 0 1 (replicate 476 7)" and ?s = "demo_fat (\<lambda>_. 0x11)"
  note f = uf2_sector_fields [OF _ refl, of "replicate 476 7" 0 "0x0800FF00" 256 0 1, simplified]
  have c: "cache_ok ?s" and v: "view demo_layout ?s = (\<lambda>_. 0x11)"
    using demo_fat_fields by (simp_all add: cache_ok_def view_def)
  have n: "counts_as 1 ?d 0" by (simp add: counts_as_def f UF2_IS_MY_FAMILY_def)
  have "APP_BASE_ADDRESS demo_layout \<le> 0x0800FF00" by (simp add: demo_layout_def)
  from last_bytes_dropped [OF demo_buffers c n _ demo_counted f(2) this f(3,4) refl, of f1]
  show ?thesis unfolding v by (simp add: rom_eq_def)
qed


end
