(* ===== verification/MscLaws.thy ===== *)
theory MscLaws
  imports Msc DiskLaws
begin

text \<open>
  Transactions of the mass storage interface as a host sees them: a WRITE hands every sector to the block device once and in order, a READ returns
  the blocks of the device, and a command that is not known fails with its reason. The block device is a locale; the UF2 disk
  is interpreted in it, so a file that is copied to the disk over USB is flashed.
\<close>

unbundle bit_operations_syntax

section \<open>The host\<close>

definition host_out :: "'d Disk \<Rightarrow> u8 list \<Rightarrow> 'd Msc \<Rightarrow> 'd Msc" where
  "host_out dev p s = msc_data_rx_cb dev (s\<lparr>out_packet := Some p\<rparr>)"

text \<open>The host takes a packet, if there is one.\<close>

definition host_in :: "'d Disk \<Rightarrow> u8 list list \<times> 'd Msc \<Rightarrow> u8 list list \<times> 'd Msc" where
  "host_in dev x = (case in_packet (snd x) of None \<Rightarrow> x
     | Some p \<Rightarrow> (fst x @ [p], msc_data_tx_cb dev ((snd x)\<lparr>in_packet := None\<rparr>)))"

lemma host_in_some:
  "in_packet s = Some p \<Longrightarrow> host_in dev (got, s) = (got @ [p], msc_data_tx_cb dev (s\<lparr>in_packet := None\<rparr>))"
  by (simp add: host_in_def)

text \<open>A command block, and the commands to write and to read \<open>n\<close> blocks.\<close>

definition command_block :: "u32 \<Rightarrow> u32 \<Rightarrow> u8 \<Rightarrow> u8 list \<Rightarrow> u8 list" where
  "command_block tag len direction cb = le32 0x43425355 @ le32 tag @ le32 len @ [direction, 0, of_nat (length cb)] @
     cb @ replicate (16 - length cb) 0"

definition write_10 :: "u32 \<Rightarrow> nat \<Rightarrow> u8 list" where
  "write_10 lba n = [SCSI_WRITE_10, 0] @ be32 lba @ [0] @ drop 2 (be32 (of_nat n)) @ [0]"

definition read_10 :: "u32 \<Rightarrow> nat \<Rightarrow> u8 list" where
  "read_10 lba n = [SCSI_READ_10, 0] @ be32 lba @ [0] @ drop 2 (be32 (of_nat n)) @ [0]"

definition command_status :: "u32 \<Rightarrow> u8 \<Rightarrow> u8 list" where
  "command_status tag status = le32 CSW_SIGNATURE @ le32 tag @ le32 0 @ [status]"

text \<open>Between two transactions.\<close>

definition msc_idle :: "'d Msc \<Rightarrow> bool" where
  "msc_idle s \<longleftrightarrow> ep_out_size s = 64 \<and> cbw_cnt s = 0 \<and> length (cbw s) = 31 \<and> length (msd_buf s) = 512 \<and>
     bytes_to_read s = 0 \<and> bytes_to_write s = 0 \<and> byte_count s = 0 \<and> block_count s = 0 \<and> current_block_no s = 0 \<and>
     \<not> csw_valid s \<and> csw_sent s = 0 \<and> in_packet s = None \<and> out_packet s = None"

section \<open>Command blocks\<close>

lemma be32_bytes: "be32 v = [ucast (drop_bit 24 v), ucast (drop_bit 16 v), ucast (drop_bit 8 v), ucast v]"
proof -
  have "(ucast (0xff AND x) :: u8) = ucast x" for x :: u32
  proof -
    have m: "(0xff :: u32) = mask 8" by (simp add: mask_eq_exp_minus_1)
    show ?thesis unfolding m by (rule bit_word_eqI) (auto simp: bit_simps)
  qed
  then show ?thesis by (simp add: be32_def)
qed

lemma shl_cat: "shl 24 a OR shl 16 b OR shl 8 c OR shl 0 d = word_cat (word_cat a b :: u16) (word_cat c d :: u16)"
  by (rule bit_word_eqI) (auto simp: shl_def bit_word_cat_iff bit_simps dest: bit_imp_le_length)

lemma word_of_bytes:
  "word_cat (word_cat (ucast (drop_bit 24 v) :: u8) (ucast (drop_bit 16 v) :: u8) :: u16)
     (word_cat (ucast (drop_bit 8 v) :: u8) (ucast v :: u8) :: u16) = v" for v :: u32
  by (rule bit_word_eqI) (auto simp: bit_word_cat_iff bit_simps)

lemma be32_word: "shl 24 (be32 v ! 0) OR shl 16 (be32 v ! Suc 0) OR shl 8 (be32 v ! 2) OR shl 0 (be32 v ! 3) = v"
  by (simp add: be32_bytes shl_cat word_of_bytes)

lemma be32_short:
  assumes "n < 65536" shows "shl 8 (be32 (of_nat n) ! 2) OR shl 0 (be32 (of_nat n) ! 3) = (of_nat n :: u32)"
proof -
  have "drop_bit 16 (of_nat n :: u32) = 0"
    by (rule word_unat_eq_iff [THEN iffD2], unfold unat_drop_bit_eq) (use assms in \<open>simp add: unat_of_nat drop_bit_eq_div\<close>)
  moreover have "drop_bit 24 w = drop_bit 8 (drop_bit 16 w)" for w :: u32 by simp
  ultimately have "ucast (drop_bit 24 (of_nat n :: u32)) = (0 :: u8)" "ucast (drop_bit 16 (of_nat n :: u32)) = (0 :: u8)"
    by (simp_all only: drop_bit_of_0 unsigned_0)
  then show ?thesis using be32_word [of "of_nat n"] by (simp add: be32_bytes shl_def)
qed

lemma length_be32 [simp]: "length (be32 v) = 4" by (simp add: be32_def)

lemma length_command_block: "length cb \<le> 16 \<Longrightarrow> length (command_block tag len d cb) = 31"
  by (simp add: command_block_def)

lemma command_block_bytes:
  assumes "length cb \<le> 16" "cbw s = command_block tag len d cb"
  shows "dCBWTag s = tag" and "i < length cb \<Longrightarrow> CBWCB s i = cb ! i"
proof -
  show "dCBWTag s = tag"
    by (simp add: dCBWTag_def assms(2) command_block_def le32_def nth_append word_of_bytes)
  show "i < length cb \<Longrightarrow> CBWCB s i = cb ! i"
    by (simp add: CBWCB_def assms(2) command_block_def nth_append le32_def)
qed

text \<open>A command block in one packet.\<close>

lemma receive_command:
  assumes "msc_idle s" "length c = 31"
  shows "receive_cbw dev (s\<lparr>out_packet := Some c\<rparr>) =
    (let u = scsi_command dev EVENT_CBW_VALID (s\<lparr>cbw := c, cbw_cnt := 31\<rparr>) in (byte_count u < bytes_to_read u, u))"
proof -
  have e: "s\<lparr>out_packet := None, cbw := c, cbw_cnt := 31\<rparr> = s\<lparr>cbw := c, cbw_cnt := 31\<rparr>"
    using assms(1) by (cases s) (simp add: msc_idle_def)
  then show ?thesis
    using assms by (simp add: receive_cbw_def usbd_ep_read_packet_def msc_idle_def blit_def Let_def e)
qed

section \<open>Writing\<close>

definition no_residue :: "u32 \<Rightarrow> usb_msc_csw" where
  "no_residue tag = \<lparr>dCSWSignature = CSW_SIGNATURE, dCSWTag = tag, dCSWDataResidue = 0, bCSWStatus = CSW_STATUS_SUCCESS\<rparr>"

lemma status_bytes: "csw_buf (no_residue tag) = command_status tag CSW_STATUS_SUCCESS" "length (csw_buf c) = 13"
  by (simp_all add: csw_buf_def no_residue_def command_status_def)

lemma shift_blocks: "push_bit 9 (of_nat n) = (of_nat (512 * n) :: u32)"
  by (simp add: push_bit_eq_mult)

lemma write_started:
  assumes "msc_idle s" "n < 65536" "0 < n"
  shows "host_out dev (command_block tag len d (write_10 lba n)) s =
    s\<lparr>cbw := command_block tag len d (write_10 lba n), cbw_cnt := 31, csw := no_residue tag, lba_start := lba,
      block_count := of_nat n, bytes_to_read := of_nat (512 * n)\<rparr>"
proof -
  let ?cb = "command_block tag len d (write_10 lba n)"
  let ?s = "s\<lparr>cbw := ?cb, cbw_cnt := 31\<rparr>"
  have l: "length (write_10 lba n) = 10" by (simp add: write_10_def)
  have b: "CBWCB ?s i = write_10 lba n ! i" if "i < 10" for i
    using that by (intro command_block_bytes(2)) (simp_all add: l)
  have c: "CBWCB ?s 0 = SCSI_WRITE_10" "CBWCB ?s 2 = be32 lba ! 0" "CBWCB ?s 3 = be32 lba ! Suc 0"
    "CBWCB ?s 4 = be32 lba ! 2" "CBWCB ?s 5 = be32 lba ! 3" "CBWCB ?s 7 = be32 (of_nat n) ! 2"
    "CBWCB ?s 8 = be32 (of_nat n) ! 3"
    by (simp_all add: b) (simp_all add: write_10_def be32_bytes)
  have t: "dCBWTag ?s = tag" by (rule command_block_bytes(1)) (simp_all add: l)
  have bytes: "0 < (of_nat (512 * n) :: u32)"
    using assms(2,3) by (simp add: word_less_nat_alt unat_of_nat del: of_nat_mult)
  have i: "bytes_to_write s = 0" "byte_count s = 0" "csw_sent s = 0" "current_block_no s = 0"
    using assms(1) by (simp_all add: msc_idle_def)
  define u where "u = ?s\<lparr>csw_sent := 0, csw := no_residue tag, bytes_to_write := 0, bytes_to_read := 0, byte_count := 0\<rparr>"
  have cu: "CBWCB u k = CBWCB ?s k" for k by (simp add: u_def CBWCB_def)
  have "scsi_command dev EVENT_CBW_VALID ?s = scsi_write_10 EVENT_CBW_VALID u"
    by (simp add: scsi_command_def Let_def t no_residue_def [symmetric] u_def [symmetric] cu c) (simp add: scsi_codes)
  also have "\<dots> = u\<lparr>lba_start := lba, block_count := of_nat n, current_block_no := 0, bytes_to_read := of_nat (512 * n)\<rparr>"
    by (simp add: scsi_write_10_def Let_def cu c be32_word be32_short [OF assms(2)] shift_blocks)
  finally have u: "scsi_command dev EVENT_CBW_VALID ?s =
      s\<lparr>cbw := ?cb, cbw_cnt := 31, csw := no_residue tag, lba_start := lba, block_count := of_nat n,
        bytes_to_read := of_nat (512 * n)\<rparr>"
    using i by (simp add: u_def)
  show ?thesis
    using bytes i by (simp add: host_out_def msc_data_rx_cb_def receive_command [OF assms(1)] length_command_block l u)
qed

text \<open>While the data arrive: \<open>b\<close> bytes of \<open>n\<close> blocks are there, and the status is sent with the first packet.\<close>

definition writing :: "nat \<Rightarrow> nat \<Rightarrow> 'd Msc \<Rightarrow> bool" where
  "writing n b s \<longleftrightarrow> ep_out_size s = 64 \<and> cbw_cnt s = 31 \<and> CBWCB s 0 = SCSI_WRITE_10 \<and> 0 < n \<and> n < 65536 \<and>
     bytes_to_read s = of_nat (512 * n) \<and> byte_count s = of_nat b \<and> block_count s = of_nat n \<and> bytes_to_write s = 0 \<and>
     out_packet s = None \<and>
     (csw_valid s \<and> csw_sent s = 13 \<and> in_packet s = Some (csw_buf (csw s)) \<or>
      \<not> csw_valid s \<and> csw_sent s = 0 \<and> in_packet s = None)"

definition packet_received :: "u8 list \<Rightarrow> nat \<Rightarrow> 'd Msc \<Rightarrow> 'd Msc" where
  "packet_received p b s = s\<lparr>msd_buf := blit (msd_buf s) (b mod 512) p, byte_count := of_nat (b + length p),
     csw_valid := True, csw_sent := 13, in_packet := Some (csw_buf (csw s)), out_packet := None\<rparr>"

definition sector_received :: "'d Disk \<Rightarrow> u8 list \<Rightarrow> nat \<Rightarrow> 'd Msc \<Rightarrow> 'd Msc" where
  "sector_received dev p b s = (let u = packet_received p b s in
     u\<lparr>disk := write_block_func dev (lba_start s + current_block_no s) (take 512 (msd_buf u)) (disk s),
       current_block_no := current_block_no s + 1\<rparr>)"

lemma offset_in_block: "unat (0x1ff AND of_nat b :: u32) = b mod 512" if "b < 2 ^ 32"
proof -
  have m: "(0x1ff :: u32) = mask 9" by (simp add: mask_eq_exp_minus_1)
  have "unat (0x1ff AND of_nat b :: u32) = unat (of_nat b :: u32) mod 2 ^ 9"
    unfolding m by (simp add: and.commute [of "mask 9"] take_bit_eq_mask [symmetric] unsigned_take_bit_eq)
      (simp add: take_bit_eq_mod)
  then show ?thesis using that by (simp add: unat_of_nat)
qed

lemma offset_aligned:
  assumes "b < 2 ^ 32" shows "0x1ff AND of_nat b = (0 :: u32) \<longleftrightarrow> b mod 512 = 0"
  unfolding word_unat_eq_iff offset_in_block [OF assms] by simp

lemma left_bytes:
  assumes "b + k \<le> 512 * n" "n < 65536"
  shows "sint (of_nat (512 * n) - of_nat b :: u32) = int (512 * n - b)"
    and "(of_nat b :: u32) < of_nat (512 * n) \<longleftrightarrow> b < 512 * n" and "b < 2 ^ 32"
proof -
  have d: "of_nat (512 * n) - of_nat b = (of_nat (512 * n - b) :: u32)" using assms(1) by (simp only: of_nat_diff)
  have "sint (of_nat m :: u32) = int m" if "m < 2 ^ 31" for m
    using that by (simp add: signed_of_nat signed_take_bit_int_eq_self)
  then show "sint (of_nat (512 * n) - of_nat b :: u32) = int (512 * n - b)" unfolding d using assms(2) by simp
  show "(of_nat b :: u32) < of_nat (512 * n) \<longleftrightarrow> b < 512 * n" "b < 2 ^ 32"
    using assms by (simp_all add: word_less_nat_alt unat_of_nat del: of_nat_mult)
qed

lemma write_packet:
  assumes w: "writing n b s" and p: "length p \<le> 64" "b + 64 \<le> 512 * n"
  shows "host_out dev p s =
    (if (b + length p) mod 512 = 0 then sector_received dev p b s else packet_received p b s)"
proof -
  let ?s = "s\<lparr>out_packet := Some p\<rparr>"
  have s: "ep_out_size s = 64" "cbw_cnt s = 31" "CBWCB s 0 = SCSI_WRITE_10" "0 < n" "n < 65536"
    "bytes_to_read s = of_nat (512 * n)" "byte_count s = of_nat b" "block_count s = of_nat n" "bytes_to_write s = 0"
    using w unfolding writing_def by blast+
  note l = left_bytes [OF p(2) s(5)]
  have n: "(0 :: u32) < of_nat n" using s(4,5) by (simp add: word_less_nat_alt unat_of_nat)
  have bp: "b + length p < 2 ^ 32" using p s(5) by simp
  have m: "nat (min 64 (int (512 * n - b))) = 64" using p(2) by simp
  have tk: "take 64 p = p" using p(1) by simp
  define t where "t = s\<lparr>out_packet := None, msd_buf := blit (msd_buf s) (b mod 512) p, byte_count := of_nat (b + length p)\<rparr>"
  define v where "v = (if (b + length p) mod 512 = 0
      then t\<lparr>disk := write_block_func dev (lba_start s + current_block_no s) (take 512 (msd_buf t)) (disk s),
             current_block_no := current_block_no s + 1\<rparr> else t)"
  have rc: "receive_cbw dev ?s = (False, ?s)" by (simp add: receive_cbw_def s(2))
  have rd: "receive_data dev ?s = v"
  proof -
    have "receive_data dev ?s = (if 0x1ff AND of_nat (b + length p) = (0 :: u32)
      then t\<lparr>disk := write_block_func dev (lba_start s + current_block_no s) (take 512 (msd_buf t)) (disk s),
             current_block_no := current_block_no s + 1\<rparr> else t)"
      unfolding receive_data_def Let_def usbd_ep_read_packet_def t_def
      using s n l(1) m tk offset_in_block [OF l(3)] by simp
    then show ?thesis unfolding v_def offset_aligned [OF bp] .
  qed
  have "msc_data_rx_cb dev ?s = send_csw (need_status dev v)"
    using l(2) p(2) s by (simp add: msc_data_rx_cb_def rc rd)
  moreover have cv: "CBWCB v 0 = SCSI_WRITE_10" "csw_valid v = csw_valid s" "csw_sent v = csw_sent s" "csw v = csw s"
    "in_packet v = in_packet s" "ep_out_size v = 64"
    using s(1,3) by (simp_all add: v_def t_def CBWCB_def)
  moreover have "scsi_command dev EVENT_NEED_STATUS v = v"
    using cv(1) by (simp add: scsi_command_def scsi_write_10_def Let_def) (simp add: scsi_codes)
  moreover have "slice (csw_buf c) 0 13 = csw_buf c" for c by (simp add: slice_def status_bytes)
  moreover have "csw_valid s \<and> csw_sent s = 13 \<and> in_packet s = Some (csw_buf (csw s)) \<or>
      \<not> csw_valid s \<and> csw_sent s = 0 \<and> in_packet s = None" using w by (simp add: writing_def)
  ultimately have "host_out dev p s = v\<lparr>csw_valid := True, csw_sent := 13, in_packet := Some (csw_buf (csw s))\<rparr>"
    unfolding host_out_def
    by (elim disjE) (simp_all add: need_status_def send_csw_def usbd_ep_write_packet_def status_bytes)
  then show ?thesis by (simp add: v_def t_def sector_received_def packet_received_def)
qed

text \<open>A sector in eight packets.\<close>

definition packets :: "u8 list \<Rightarrow> u8 list list" where
  "packets d = map (\<lambda>j. slice d (64 * j) 64) [0..<8]"

definition write_all :: "'d Disk \<Rightarrow> u32 \<Rightarrow> nat \<Rightarrow> u8 list list \<Rightarrow> 'd \<Rightarrow> 'd" where
  "write_all dev lba k ds x = fold (\<lambda>(i, d). write_block_func dev (lba + of_nat i) d) (enumerate k ds) x"

lemma writing_received:
  "writing n b s \<Longrightarrow> writing n (b + length p) (packet_received p b s)"
  "writing n b s \<Longrightarrow> writing n (b + length p) (sector_received dev p b s)"
  by (auto simp: writing_def packet_received_def sector_received_def CBWCB_def Let_def)

lemma blit_prefix: "m \<le> length d \<Longrightarrow> blit (blit buf 0 (take m d)) m (slice d m j) = blit buf 0 (take (m + j) d)"
proof -
  assume m: "m \<le> length d"
  have "m + length (take j (drop m d)) = length (take (m + j) d)" using m by simp
  then show ?thesis using m by (simp add: blit_def slice_def take_add) (simp add: add.commute)
qed

lemma packets_prefix:
  assumes w: "writing n (512 * k) s" and k: "k < n" and d: "length d = 512"
  shows "0 < m \<Longrightarrow> m < 8 \<Longrightarrow> fold (host_out dev) (map (\<lambda>j. slice d (64 * j) 64) [0..<m]) s =
    packet_received (take (64 * m) d) (512 * k) s"
proof (induction m)
  case (Suc m)
  let ?p = "slice d (64 * m) 64" and ?u = "packet_received (take (64 * m) d) (512 * k) s"
  have p: "length ?p = 64" using Suc.prems(2) d by (simp add: slice_def)
  have mod: "(512 * k + 64 * m) mod 512 = 64 * m" "(512 * k + 64 * m + 64) mod 512 \<noteq> 0"
  proof -
    show "(512 * k + 64 * m) mod 512 = 64 * m" using Suc.prems(2) by simp
    have "(512 * k + 64 * m + 64) mod 512 = 64 * m + 64" using Suc.prems(2) by (simp add: add.assoc)
    then show "(512 * k + 64 * m + 64) mod 512 \<noteq> 0" by simp
  qed
  have b: "512 * k + 64 * m + 64 \<le> 512 * n"
  proof -
    have "512 * Suc k \<le> 512 * n" using k by (intro mult_le_mono2) simp
    then show ?thesis using Suc.prems(2) by simp
  qed
  show ?case
  proof (cases "m = 0")
    case True
    have "take 64 d = ?p" using True by (simp add: slice_def)
    moreover have "?p \<noteq> []" using p by auto
    then have "host_out dev ?p s = packet_received ?p (512 * k) s"
      using write_packet [OF w, of ?p dev] p b mod True by simp
    ultimately show ?thesis using True by simp
  next
    case False
    then have "fold (host_out dev) (map (\<lambda>j. slice d (64 * j) 64) [0..<m]) s = ?u" using Suc by simp
    moreover have "writing n (512 * k + 64 * m) ?u"
      using writing_received(1) [OF w, of "take (64 * m) d"] d Suc.prems(2) by (simp add: min_def)
    from write_packet [OF this, of ?p dev] p b mod have
      "host_out dev ?p ?u = packet_received ?p (512 * k + 64 * m) ?u" by simp
    moreover have "packet_received ?p (512 * k + 64 * m) ?u = packet_received (take (64 * Suc m) d) (512 * k) s"
      using d Suc.prems(2) p blit_prefix [of "64 * m" d "msd_buf s" 64]
      by (simp add: packet_received_def mod min_def add.commute)
    ultimately show ?thesis by simp
  qed
qed simp

lemma write_sector:
  assumes w: "writing n (512 * k) s" and k: "k < n" and d: "length d = 512" "length (msd_buf s) = 512"
  shows "fold (host_out dev) (packets d) s = sector_received dev d (512 * k) s"
proof -
  let ?u = "packet_received (take 448 d) (512 * k) s" and ?p = "slice d 448 64"
  have p: "length ?p = 64" using d by (simp add: slice_def)
  have b: "512 * k + 448 + 64 \<le> 512 * n"
  proof -
    have "512 * Suc k \<le> 512 * n" using k by (intro mult_le_mono2) simp
    then show ?thesis by simp
  qed
  have "[0..<8] = [0..<7] @ [7 :: nat]" by (simp add: upt_rec)
  then have "fold (host_out dev) (packets d) s = host_out dev ?p ?u"
    unfolding packets_def by (simp only: map_append fold_append comp_def) (simp add: packets_prefix [OF w k d(1), of 7])
  also have "\<dots> = sector_received dev ?p (512 * k + 448) ?u"
  proof -
    have "writing n (512 * k + 448) ?u" using writing_received(1) [OF w, of "take 448 d"] d by simp
    moreover have "512 * k + 448 + 64 = 512 * Suc k" by simp
    then have "(512 * k + 448 + 64) mod 512 = 0" by (simp only: mod_mult_self1_is_0)
    ultimately show ?thesis using write_packet [of n "512 * k + 448" ?u ?p dev] p b by simp
  qed
  also have "\<dots> = sector_received dev d (512 * k) s"
  proof -
    have m: "(512 * k + 448) mod 512 = 448" "512 * k mod 512 = 0"
      by (simp_all only: mod_mult_self4 mod_mult_self1_is_0) simp
    have n: "512 * k + 448 + length ?p = 512 * k + length d" using p d by simp
    have bp: "blit (blit (msd_buf s) 0 (take 448 d)) 448 ?p = blit (msd_buf s) 0 d"
    proof -
      have "448 \<le> length d" "take (448 + 64) d = d" using d by simp_all
      then show ?thesis using blit_prefix [of 448 d "msd_buf s" 64] by metis
    qed
    show ?thesis
      unfolding sector_received_def packet_received_def Let_def m n
      by (simp add: bp)
  qed
  finally show ?thesis .
qed

text \<open>All sectors of a command, and the end of the transaction.\<close>

definition sectors_received :: "'d Disk \<Rightarrow> nat \<Rightarrow> u8 list list \<Rightarrow> u8 list \<Rightarrow> 'd Msc \<Rightarrow> 'd Msc" where
  "sectors_received dev k ds buf s = s\<lparr>msd_buf := buf, byte_count := of_nat (512 * (k + length ds)),
     current_block_no := of_nat (k + length ds), disk := write_all dev (lba_start s) k ds (disk s),
     csw_valid := True, csw_sent := 13, in_packet := Some (csw_buf (csw s)), out_packet := None\<rparr>"

lemma write_sectors:
  "writing n (512 * k) s \<Longrightarrow> k + length ds \<le> n \<Longrightarrow> list_all (\<lambda>d. length d = 512) ds \<Longrightarrow> length (msd_buf s) = 512 \<Longrightarrow>
   current_block_no s = of_nat k \<Longrightarrow> ds \<noteq> [] \<Longrightarrow>
   fold (host_out dev) (concat (map packets ds)) s = sectors_received dev k ds (last ds) s"
proof (induction ds arbitrary: k s)
  case (Cons d ds)
  let ?u = "sector_received dev d (512 * k) s"
  have d: "length d = 512" "k < n" using Cons.prems by simp_all
  have first: "fold (host_out dev) (packets d) s = ?u" by (rule write_sector [OF Cons.prems(1) d(2,1) Cons.prems(4)])
  have m: "512 * k mod 512 = 0" by simp
  have b: "blit (msd_buf s) 0 d = d" using Cons.prems(4) d by (simp add: blit_def)
  have u: "?u = sectors_received dev k [d] d s"
    unfolding sector_received_def packet_received_def sectors_received_def write_all_def Let_def m
    using d Cons.prems(5) by (simp add: b add.commute)
  show ?case
  proof (cases "ds = []")
    case True
    then show ?thesis using first u by simp
  next
    case False
    have "512 * Suc k = 512 * k + length d" using d by simp
    then have "writing n (512 * Suc k) ?u" using writing_received(2) [OF Cons.prems(1)] by metis
    moreover have "length (msd_buf ?u) = 512" "current_block_no ?u = of_nat (Suc k)"
      unfolding u using d by (simp_all add: sectors_received_def)
    ultimately have "fold (host_out dev) (concat (map packets ds)) ?u = sectors_received dev (Suc k) ds (last ds) ?u"
      using Cons.IH Cons.prems(2,3) False by simp
    moreover have "sectors_received dev (Suc k) ds buf ?u = sectors_received dev k (d # ds) buf s" for buf
      unfolding u by (simp add: sectors_received_def write_all_def)
    ultimately show ?thesis using first False by simp
  qed
qed simp

lemma end_of_writing:
  assumes "writing n (512 * n) s" "csw_valid s" "current_block_no s = of_nat n" "length (msd_buf s) = 512" "length (cbw s) = 31"
  shows "fst (host_in dev ([], s)) = [csw_buf (csw s)]" "msc_idle (snd (host_in dev ([], s)))"
    "disk (snd (host_in dev ([], s))) = disk s"
proof -
  have "in_packet s = Some (csw_buf (csw s))" "csw_sent s = 13" "bytes_to_write s = 0" "ep_out_size s = 64"
    "out_packet s = None" using assms(1,2) by (auto simp: writing_def)
  then show "fst (host_in dev ([], s)) = [csw_buf (csw s)]" "msc_idle (snd (host_in dev ([], s)))"
    "disk (snd (host_in dev ([], s))) = disk s"
    using assms(2-5) by (simp_all add: host_in_def msc_data_tx_cb_def need_status_def msc_idle_def Let_def)
qed

definition write_session :: "u32 \<Rightarrow> u32 \<Rightarrow> u8 \<Rightarrow> u32 \<Rightarrow> u8 list list \<Rightarrow> u8 list list" where
  "write_session tag len d lba ds = command_block tag len d (write_10 lba (length ds)) # concat (map packets ds)"

lemma write_command_lemma:
  assumes "msc_idle s" "ds \<noteq> []" "length ds < 65536" "list_all (\<lambda>d. length d = 512) ds"
    and "(got, u) = host_in dev ([], fold (host_out dev) (write_session tag len direction lba ds) s)"
  shows "got = [command_status tag CSW_STATUS_SUCCESS]" "disk u = write_all dev lba 0 ds (disk s)" "msc_idle u"
proof -
  let ?cb = "command_block tag len direction (write_10 lba (length ds))"
  let ?t = "s\<lparr>cbw := ?cb, cbw_cnt := 31, csw := no_residue tag, lba_start := lba,
      block_count := of_nat (length ds), bytes_to_read := of_nat (512 * length ds)\<rparr>"
  have n: "0 < length ds" using assms(2) by simp
  have l: "length (write_10 lba (length ds)) = 10" by (simp add: write_10_def)
  have "CBWCB ?t 0 = SCSI_WRITE_10"
    by (subst command_block_bytes(2) [of "write_10 lba (length ds)"]) (simp_all add: l, simp add: write_10_def)
  then have w: "writing (length ds) (512 * 0) ?t" using assms(1,3) n by (simp add: writing_def msc_idle_def)
  have i: "length (msd_buf ?t) = 512" "current_block_no ?t = of_nat 0" using assms(1) by (simp_all add: msc_idle_def)
  let ?v = "sectors_received dev 0 ds (last ds) ?t"
  have v: "fold (host_out dev) (write_session tag len direction lba ds) s = ?v"
    using write_started [OF assms(1,3) n] write_sectors [OF w _ assms(4) i assms(2), of dev]
    by (simp add: write_session_def)
  have wv: "writing (length ds) (512 * length ds) ?v"
    using w unfolding writing_def sectors_received_def by (simp add: CBWCB_def)
  have "length (last ds) = 512" "length ?cb = 31"
    using assms(2,4) length_command_block [of "write_10 lba (length ds)"] l by (simp_all add: list_all_iff)
  then have "csw_valid ?v" "current_block_no ?v = of_nat (length ds)" "length (msd_buf ?v) = 512" "length (cbw ?v) = 31"
    by (simp_all add: sectors_received_def)
  note e = end_of_writing [OF wv this, of dev]
  show "got = [command_status tag CSW_STATUS_SUCCESS]" "disk u = write_all dev lba 0 ds (disk s)" "msc_idle u"
    using e assms(5) [symmetric] unfolding v by (simp_all add: sectors_received_def status_bytes)
qed

section \<open>Reading\<close>

text \<open>What the interface needs of a device: a block is 512 bytes.\<close>

locale block_device =
  fixes dev :: "'d Disk"
  assumes block_length: "length (read_block_func dev lba d) = 512"

definition block_content :: "'d Disk \<Rightarrow> 'd Msc \<Rightarrow> nat \<Rightarrow> u8 list" where
  "block_content dev s i = read_block_func dev (lba_start s + of_nat i) (disk s)"

definition stream_packet :: "'d Disk \<Rightarrow> 'd Msc \<Rightarrow> nat \<Rightarrow> u8 list" where
  "stream_packet dev s j = slice (block_content dev s (j div 8)) (64 * (j mod 8)) 64"

text \<open>\<open>j\<close> packets of \<open>n\<close> blocks have been handed to the endpoint.\<close>

definition sending :: "'d Disk \<Rightarrow> nat \<Rightarrow> nat \<Rightarrow> 'd Msc \<Rightarrow> bool" where
  "sending dev n j s \<longleftrightarrow> ep_out_size s = 64 \<and> cbw_cnt s = 31 \<and> length (cbw s) = 31 \<and> CBWCB s 0 = SCSI_READ_10 \<and>
     0 < n \<and> n < 65536 \<and> bytes_to_write s = of_nat (512 * n) \<and> bytes_to_read s = 0 \<and> byte_count s = of_nat (64 * j) \<and>
     block_count s = of_nat n \<and> current_block_no s = of_nat ((j + 7) div 8) \<and> length (msd_buf s) = 512 \<and>
     (j mod 8 \<noteq> 0 \<longrightarrow> msd_buf s = block_content dev s (j div 8)) \<and> \<not> csw_valid s \<and> csw_sent s = 0 \<and> out_packet s = None"

definition packet_sent :: "'d Disk \<Rightarrow> nat \<Rightarrow> 'd Msc \<Rightarrow> 'd Msc" where
  "packet_sent dev j s = s\<lparr>msd_buf := block_content dev s (j div 8), current_block_no := of_nat (j div 8 + 1),
     byte_count := of_nat (64 * Suc j), in_packet := Some (stream_packet dev s j)\<rparr>"

lemma read_started:
  assumes "msc_idle s" "n < 65536" "0 < n"
    and t_def: "t = s\<lparr>cbw := command_block tag len d (read_10 lba n), cbw_cnt := 31, csw := no_residue tag, lba_start := lba,
      block_count := of_nat n, bytes_to_write := of_nat (512 * n),
      sense := \<lparr>sense_key = 0, sense_asc = 0, sense_ascq = 0\<rparr>\<rparr>"
  shows "host_out dev (command_block tag len d (read_10 lba n)) s = send_data dev t" and "sending dev n 0 t"
    and "in_packet t = None"
proof -
  let ?cb = "command_block tag len d (read_10 lba n)"
  let ?s = "s\<lparr>cbw := ?cb, cbw_cnt := 31\<rparr>"
  have l: "length (read_10 lba n) = 10" by (simp add: read_10_def)
  have b: "CBWCB ?s i = read_10 lba n ! i" if "i < 10" for i
    using that by (intro command_block_bytes(2)) (simp_all add: l)
  have c: "CBWCB ?s 0 = SCSI_READ_10" "CBWCB ?s 2 = be32 lba ! 0" "CBWCB ?s 3 = be32 lba ! Suc 0"
    "CBWCB ?s 4 = be32 lba ! 2" "CBWCB ?s 5 = be32 lba ! 3" "CBWCB ?s 7 = be32 (of_nat n) ! 2"
    "CBWCB ?s 8 = be32 (of_nat n) ! 3"
    by (simp_all add: b) (simp_all add: read_10_def be32_bytes)
  have tg: "dCBWTag ?s = tag" by (rule command_block_bytes(1)) (simp_all add: l)
  have bytes: "0 < (of_nat (512 * n) :: u32)"
    using assms(2,3) by (simp add: word_less_nat_alt unat_of_nat del: of_nat_mult)
  have i: "bytes_to_read s = 0" "byte_count s = 0" "csw_sent s = 0" using assms(1) by (simp_all add: msc_idle_def)
  define u where "u = ?s\<lparr>csw_sent := 0, csw := no_residue tag, bytes_to_write := 0, bytes_to_read := 0, byte_count := 0\<rparr>"
  have cu: "CBWCB u k = CBWCB ?s k" for k by (simp add: u_def CBWCB_def)
  have "scsi_command dev EVENT_CBW_VALID ?s = scsi_read_10 EVENT_CBW_VALID u"
    by (simp add: scsi_command_def Let_def tg no_residue_def [symmetric] u_def [symmetric] cu c) (simp add: scsi_codes)
  also have "\<dots> = u\<lparr>lba_start := lba, block_count := of_nat n, bytes_to_write := of_nat (512 * n),
      sense := \<lparr>sense_key = 0, sense_asc = 0, sense_ascq = 0\<rparr>\<rparr>"
    by (simp add: scsi_read_10_def Let_def cu c be32_word be32_short [OF assms(2)] shift_blocks set_sbc_status_good_def
        set_sbc_status_def)
  finally have u: "scsi_command dev EVENT_CBW_VALID ?s = t" using i by (simp add: u_def t_def)
  have "byte_count t = 0" "bytes_to_read t = 0" "bytes_to_write t = of_nat (512 * n)" using i by (simp_all add: t_def)
  then show "host_out dev ?cb s = send_data dev t"
    using bytes by (simp add: host_out_def msc_data_rx_cb_def receive_command [OF assms(1)] length_command_block l u)
  have "CBWCB t 0 = SCSI_READ_10" using c(1) by (simp add: t_def CBWCB_def)
  then show "sending dev n 0 t" "in_packet t = None"
    using assms(1-3) length_command_block [of "read_10 lba n"] by (simp_all add: sending_def t_def msc_idle_def l)
qed

lemma blocks_fetched:
  "j mod 8 = 0 \<Longrightarrow> (j + 7) div 8 = j div 8" "j mod 8 \<noteq> 0 \<Longrightarrow> (j + 7) div 8 = j div 8 + 1"
  "(Suc j + 7) div 8 = j div 8 + 1"
proof -
  have split: "(j + 7) div 8 = j div 8 + (j mod 8 + 7) div 8" using div_add1_eq [of j 7 8] by simp
  show "j mod 8 = 0 \<Longrightarrow> (j + 7) div 8 = j div 8" unfolding split by simp
  have r: "j mod 8 < 8" by simp
  have "(j mod 8 + 7) div 8 = 1" if "j mod 8 \<noteq> 0" by (rule div_nat_eqI) (use r that in simp_all)
  then show "j mod 8 \<noteq> 0 \<Longrightarrow> (j + 7) div 8 = j div 8 + 1" unfolding split by simp
  show "(Suc j + 7) div 8 = j div 8 + 1" by simp
qed

context block_device
begin

lemma send_next:
  assumes s: "sending dev n j s" "in_packet s = None" and j: "j < 8 * n"
  shows "send_data dev s = packet_sent dev j s" and "sending dev n (Suc j) (packet_sent dev j s)"
proof -
  have f: "ep_out_size s = 64" "n < 65536" "bytes_to_write s = of_nat (512 * n)" "byte_count s = of_nat (64 * j)"
    "block_count s = of_nat n" "current_block_no s = of_nat ((j + 7) div 8)" "length (msd_buf s) = 512"
    "j mod 8 \<noteq> 0 \<Longrightarrow> msd_buf s = block_content dev s (j div 8)" "0 < n" using s(1) by (simp_all add: sending_def)
  have b: "64 * j + 64 \<le> 512 * n" using j by simp
  note l = left_bytes [OF b f(2)]
  have pos: "(0 :: u32) < of_nat n" using f(2,9) by (simp add: word_less_nat_alt unat_of_nat)
  have o: "64 * j mod 512 = 64 * (j mod 8)" using mod_mult_mult1 [of 64 j 8] by simp
  have len: "length (block_content dev s i) = 512" for i by (simp add: block_content_def block_length)
  let ?v = "s\<lparr>msd_buf := block_content dev s (j div 8), current_block_no := of_nat (j div 8 + 1)\<rparr>"
  have fill: "fill_block dev s = ?v"
  proof (cases "j mod 8 = 0")
    case True
    then have "(j + 7) div 8 = j div 8" by (rule blocks_fetched)
    moreover have "blit (msd_buf s) 0 (block_content dev s i) = block_content dev s i" for i using len f(7) by (simp add: blit_def)
    ultimately show ?thesis
      using True pos f offset_aligned [OF l(3)] o by (simp add: fill_block_def block_content_def [symmetric] del: of_nat_mult)
  next
    case False
    then have "(j + 7) div 8 = j div 8 + 1" by (rule blocks_fetched)
    then have "s = ?v" using False f(6,8) by (cases s) simp
    then show ?thesis
      using False f offset_aligned [OF l(3)] o by (simp add: fill_block_def del: of_nat_mult)
  qed
  have m: "nat (min 64 (int (512 * n - 64 * j))) = 64" using b by simp
  have sl: "length (stream_packet dev s j) = 64"
  proof -
    have "j mod 8 < 8" by simp
    then have "64 * (j mod 8) + 64 \<le> 512" by linarith
    then show ?thesis by (simp add: stream_packet_def len length_slice)
  qed
  have "uint (64 :: u8) = 64" by simp
  then show "send_data dev s = packet_sent dev j s"
    unfolding send_data_def fill Let_def
    using f s(2) l(1) m offset_in_block [OF l(3)] o sl
    by (simp add: usbd_ep_write_packet_def packet_sent_def stream_packet_def [symmetric] del: of_nat_mult)
  have "(Suc j + 7) div 8 = j div 8 + 1" by (rule blocks_fetched)
  moreover have "Suc j div 8 = j div 8" if "Suc j mod 8 \<noteq> 0" using that by (simp add: div_Suc)
  ultimately show "sending dev n (Suc j) (packet_sent dev j s)"
    using s(1) len by (auto simp: sending_def packet_sent_def block_content_def CBWCB_def)
qed

lemma host_reads:
  assumes "sending dev n 0 s" "in_packet s = None" "k < 8 * n"
  shows "\<exists>u. (host_in dev ^^ k) ([], send_data dev s) = (map (stream_packet dev s) [0..<k], u) \<and>
    sending dev n (Suc k) u \<and> in_packet u = Some (stream_packet dev s k) \<and> lba_start u = lba_start s \<and>
    disk u = disk s \<and> csw u = csw s"
  using assms(3)
proof (induction k)
  case 0
  then show ?case using send_next [OF assms(1,2)] by (simp add: packet_sent_def)
next
  case (Suc k)
  then obtain u where u: "(host_in dev ^^ k) ([], send_data dev s) = (map (stream_packet dev s) [0..<k], u)"
    "sending dev n (Suc k) u" "in_packet u = Some (stream_packet dev s k)" "lba_start u = lba_start s"
    "disk u = disk s" "csw u = csw s" by auto
  let ?u = "u\<lparr>in_packet := None\<rparr>"
  have su: "sending dev n (Suc k) ?u" using u(2) by (simp add: sending_def CBWCB_def block_content_def)
  have bound: "64 * Suc k + 64 \<le> 512 * n" "n < 65536" using Suc.prems u(2) by (simp_all add: sending_def)
  have "byte_count ?u < bytes_to_write ?u"
    using left_bytes(2) [OF bound] Suc.prems u(2) by (simp add: sending_def del: of_nat_mult)
  then have tx: "msc_data_tx_cb dev ?u = packet_sent dev (Suc k) ?u"
    using send_next(1) [OF su _ Suc.prems] by (simp add: msc_data_tx_cb_def)
  have "stream_packet dev ?u j = stream_packet dev s j" for j using u(4,5) by (simp add: stream_packet_def block_content_def)
  moreover have "sending dev n (Suc (Suc k)) (packet_sent dev (Suc k) ?u)" using send_next(2) [OF su _ Suc.prems] by simp
  moreover have "(host_in dev ^^ Suc k) ([], send_data dev s)
      = (map (stream_packet dev s) [0..<Suc k], packet_sent dev (Suc k) ?u)"
    using u(1,3) tx by (simp add: host_in_some)
  ultimately show ?case using u(4-6) by (intro exI [of _ "packet_sent dev (Suc k) ?u"]) (simp add: packet_sent_def)
qed

lemma end_of_reading:
  assumes "sending dev n (8 * n) s" "in_packet s = Some p"
  shows "(host_in dev ^^ 2) (got, s) = (got @ [p, csw_buf (csw s)], snd ((host_in dev ^^ 2) (got, s)))"
    and "msc_idle (snd ((host_in dev ^^ 2) (got, s)))" and "disk (snd ((host_in dev ^^ 2) (got, s))) = disk s"
proof -
  have f: "ep_out_size s = 64" "n < 65536" "bytes_to_write s = of_nat (512 * n)" "byte_count s = of_nat (64 * (8 * n))"
    "block_count s = of_nat n" "current_block_no s = of_nat ((8 * n + 7) div 8)" "length (msd_buf s) = 512"
    "0 < n" "cbw_cnt s = 31" "length (cbw s) = 31" "CBWCB s 0 = SCSI_READ_10" "\<not> csw_valid s" "csw_sent s = 0"
    "out_packet s = None" using assms(1) by (simp_all add: sending_def)
  have bc: "byte_count s = bytes_to_write s" using f(3,4) by simp
  have cb: "current_block_no s = of_nat n" using f(6) by simp
  have pos: "(0 :: u32) < of_nat n" using f(2,8) by (simp add: word_less_nat_alt unat_of_nat)
  let ?u = "s\<lparr>in_packet := None, current_block_no := 0\<rparr>"
  have "CBWCB ?u 0 = SCSI_READ_10" using f(11) by (simp add: CBWCB_def)
  then have "scsi_command dev EVENT_NEED_STATUS ?u = ?u"
    by (simp add: scsi_command_def scsi_read_10_def Let_def) (simp add: scsi_codes)
  moreover have "slice (csw_buf c) 0 13 = csw_buf c" for c by (simp add: slice_def status_bytes)
  ultimately have tx: "msc_data_tx_cb dev (s\<lparr>in_packet := None\<rparr>)
      = ?u\<lparr>csw_valid := True, in_packet := Some (csw_buf (csw s)), csw_sent := 13\<rparr>"
    using f bc cb pos
    by (simp add: msc_data_tx_cb_def need_status_def send_csw_def usbd_ep_write_packet_def status_bytes Let_def)
  have e: "msc_idle (msc_data_tx_cb dev (?u\<lparr>csw_valid := True, csw_sent := 13, in_packet := None\<rparr>))"
    "disk (msc_data_tx_cb dev (?u\<lparr>csw_valid := True, csw_sent := 13, in_packet := None\<rparr>)) = disk s"
    using f bc by (simp_all add: msc_data_tx_cb_def need_status_def msc_idle_def Let_def)
  show "(host_in dev ^^ 2) (got, s) = (got @ [p, csw_buf (csw s)], snd ((host_in dev ^^ 2) (got, s)))"
    "msc_idle (snd ((host_in dev ^^ 2) (got, s)))" "disk (snd ((host_in dev ^^ 2) (got, s))) = disk s"
    using assms(2) tx e by (simp_all add: host_in_def numeral_2_eq_2)
qed

lemma read_command_lemma:
  assumes "msc_idle s" "0 < n" "n < 65536"
    and "(got, u) = (host_in dev ^^ (8 * n + 1)) ([], host_out dev (command_block tag len d (read_10 lba n)) s)"
  shows "got = concat (map (\<lambda>i. packets (read_block_func dev (lba + of_nat i) (disk s))) [0..<n])
      @ [command_status tag CSW_STATUS_SUCCESS]"
    and "disk u = disk s" and "msc_idle u"
proof -
  define t where "t = s\<lparr>cbw := command_block tag len d (read_10 lba n), cbw_cnt := 31, csw := no_residue tag,
      lba_start := lba, block_count := of_nat n, bytes_to_write := of_nat (512 * n),
      sense := \<lparr>sense_key = 0, sense_asc = 0, sense_ascq = 0\<rparr>\<rparr>"
  note rs = read_started(1) [OF assms(1,3,2) t_def, of dev] read_started(2) [OF assms(1,3,2) t_def, of dev]
    read_started(3) [OF assms(1,3,2) t_def]
  have k: "8 * n - 1 < 8 * n" "8 * n + 1 = 2 + (8 * n - 1)" "Suc (8 * n - 1) = 8 * n" using assms(2) by simp_all
  from host_reads [OF rs(2,3) k(1)] obtain v where
    v: "(host_in dev ^^ (8 * n - 1)) ([], send_data dev t) = (map (stream_packet dev t) [0..<8 * n - 1], v)"
    "sending dev n (8 * n) v" "in_packet v = Some (stream_packet dev t (8 * n - 1))" "disk v = disk t" "csw v = csw t"
    unfolding k(3) by auto
  have p: "(got, u) = (host_in dev ^^ 2) (map (stream_packet dev t) [0..<8 * n - 1], v)"
    unfolding assms(4) k(2) funpow_add comp_def rs(1) v(1) ..
  note e = end_of_reading [OF v(2,3), of "map (stream_packet dev t) [0..<8 * n - 1]", folded p]
  have "[0..<8 * n] = [0..<8 * n - 1] @ [8 * n - 1]" using k(3) upt_Suc_append [of 0 "8 * n - 1"] by simp
  then have "got = map (stream_packet dev t) [0..<8 * n] @ [csw_buf (csw v)]" using e(1) by simp
  moreover have "map (stream_packet dev t) [0..<8 * m] = concat (map (\<lambda>i. packets (block_content dev t i)) [0..<m])" for m
  proof (induction m)
    case (Suc m)
    have "[0..<8 * Suc m] = [0..<8 * m] @ map (\<lambda>j. 8 * m + j) [0..<8]"
      using upt_add_eq_append [of 0 "8 * m" 8] by (simp add: map_add_upt add.commute)
    moreover have "stream_packet dev t (8 * m + j) = slice (block_content dev t m) (64 * j) 64" if "j < 8" for j
      using that by (simp add: stream_packet_def)
    ultimately show ?case using Suc by (simp add: packets_def comp_def)
  qed simp
  ultimately show "got = concat (map (\<lambda>i. packets (read_block_func dev (lba + of_nat i) (disk s))) [0..<n])
      @ [command_status tag CSW_STATUS_SUCCESS]"
    using v(5) by (simp add: block_content_def t_def status_bytes)
  show "disk u = disk s" "msc_idle u" using e(2,3) v(4) by (simp_all add: t_def)
qed

end

text \<open>C13. A command to write reaches the block device exactly. After a command block for some sectors and their packets, the device has been given each
  sector once, in order, under its own number; the host then reads one packet, the status with the tag of its command,
  and the interface is ready for the next command.\<close>

theorem write_command:
  assumes "msc_idle s" "ds \<noteq> []" "length ds < 65536" "list_all (\<lambda>d. length d = 512) ds"
    and "(got, u) = host_in dev ([], fold (host_out dev) (write_session tag len direction lba ds) s)"
  shows "got = [command_status tag CSW_STATUS_SUCCESS] \<and>
    disk u = fold (\<lambda>(i, d). write_block_func dev (lba + of_nat i) d) (enumerate 0 ds) (disk s) \<and> msc_idle u"
  using write_command_lemma [OF assms] by (simp add: write_all_def)

section \<open>Errors\<close>

text \<open>The commands the interface knows.\<close>

definition known_commands :: "u8 set" where
  "known_commands = {SCSI_TEST_UNIT_READY, SCSI_REQUEST_SENSE, SCSI_FORMAT_UNIT, SCSI_READ_6, SCSI_WRITE_6, SCSI_INQUIRY,
     SCSI_MODE_SENSE_6, SCSI_SEND_DIAGNOSTIC, SCSI_READ_CAPACITY, SCSI_READ_10, SCSI_PREVENT_ALLOW_MEDIUM_REMOVAL,
     SCSI_READ_FORMAT_CAPACITIES, SCSI_WRITE_10}"

definition illegal_request :: sbc_sense_info where
  "illegal_request = \<lparr>sense_key = 0x05, sense_asc = 0x20, sense_ascq = 0\<rparr>"

lemma unknown_step:
  assumes "CBWCB s 0 \<notin> known_commands"
  shows "scsi_command dev EVENT_NEED_STATUS s = s\<lparr>sense := illegal_request, bytes_to_write := 0, bytes_to_read := 0,
      csw := (csw s)\<lparr>bCSWStatus := CSW_STATUS_FAILED\<rparr>\<rparr>"
    and "scsi_command dev EVENT_CBW_VALID s = s\<lparr>csw_sent := 0,
      csw := (no_residue (dCBWTag s))\<lparr>bCSWStatus := CSW_STATUS_FAILED\<rparr>, sense := illegal_request,
      bytes_to_write := 0, bytes_to_read := 0, byte_count := 0\<rparr>"
  using assms
  by (simp_all add: scsi_command_def known_commands_def Let_def CBWCB_def set_sbc_status_def illegal_request_def
      no_residue_def)

lemma unknown_command_lemma:
  assumes "msc_idle s" "cb \<noteq> []" "length cb \<le> 16" "hd cb \<notin> known_commands"
    and "(got, u) = host_in dev ([], host_out dev (command_block tag len d cb) s)"
  shows "got = [command_status tag CSW_STATUS_FAILED]" "sense u = illegal_request" "disk u = disk s" "msc_idle u"
proof -
  let ?c = "command_block tag len d cb"
  let ?s = "s\<lparr>cbw := ?c, cbw_cnt := 31\<rparr>"
  have "CBWCB ?s 0 = cb ! 0" using assms(2,3) by (intro command_block_bytes(2)) simp_all
  then have code: "CBWCB ?s 0 \<notin> known_commands" using assms(2,4) by (simp add: hd_conv_nth)
  have tg: "dCBWTag ?s = tag" by (rule command_block_bytes(1)) (use assms(3) in simp_all)
  have c: "length ?c = 31" using assms(3) by (rule length_command_block)
  let ?w = "(no_residue tag)\<lparr>bCSWStatus := CSW_STATUS_FAILED\<rparr>"
  define v where "v = ?s\<lparr>csw := ?w, sense := illegal_request\<rparr>"
  have v: "scsi_command dev EVENT_CBW_VALID ?s = v"
    using unknown_step(2) [OF code] assms(1) by (simp add: tg v_def msc_idle_def)
  have "CBWCB v 0 \<notin> known_commands" using code by (simp add: v_def CBWCB_def)
  then have "scsi_command dev EVENT_NEED_STATUS v = v"
    using unknown_step(1) [of v] assms(1) by (simp add: v_def msc_idle_def no_residue_def)
  moreover have "slice (csw_buf x) 0 13 = csw_buf x" for x by (simp add: slice_def status_bytes)
  ultimately have "host_out dev ?c s = v\<lparr>csw_valid := True, in_packet := Some (csw_buf ?w), csw_sent := 13\<rparr>"
    using assms(1) unfolding host_out_def msc_data_rx_cb_def receive_command [OF assms(1) c] v
    by (simp add: need_status_def send_csw_def usbd_ep_write_packet_def v_def msc_idle_def status_bytes)
  moreover have "csw_buf ?w = command_status tag CSW_STATUS_FAILED"
    by (simp add: csw_buf_def no_residue_def command_status_def)
  ultimately show "got = [command_status tag CSW_STATUS_FAILED]" "sense u = illegal_request" "disk u = disk s" "msc_idle u"
    using assms(1,5) c
    by (simp_all add: host_in_def msc_data_tx_cb_def need_status_def v_def msc_idle_def Let_def)
qed

text \<open>The reason of the last failure.\<close>

definition sense_response :: "sbc_sense_info \<Rightarrow> u8 list" where
  "sense_response i = [0x70, 0, sense_key i, 0, 0, 0, 0, 0x0a, 0, 0, 0, 0, sense_asc i, sense_ascq i, 0, 0, 0, 0]"

definition request_sense :: "u32 \<Rightarrow> u8 list" where
  "request_sense tag = command_block tag 18 0x80 [SCSI_REQUEST_SENSE, 0, 0, 0, 18, 0]"

lemma request_sense_lemma:
  assumes "msc_idle s" and "(got, u) = (host_in dev ^^ 2) ([], host_out dev (request_sense tag) s)"
  shows "got = [sense_response (sense s), command_status tag CSW_STATUS_SUCCESS]" "disk u = disk s" "msc_idle u"
proof -
  let ?c = "request_sense tag"
  let ?s = "s\<lparr>cbw := ?c, cbw_cnt := 31\<rparr>"
  have code: "CBWCB ?s 0 = SCSI_REQUEST_SENSE" "CBWCB ?s 4 = 18"
    by (subst command_block_bytes(2) [of "[SCSI_REQUEST_SENSE, 0, 0, 0, 18, 0]"]; simp add: request_sense_def)+
  have tg: "dCBWTag ?s = tag"
    by (rule command_block_bytes(1)) (simp_all add: request_sense_def)
  have c: "length ?c = 31" unfolding request_sense_def by (rule length_command_block) simp
  define buf where "buf = sense_response (sense s) @ drop 18 (msd_buf s)"
  define v where "v = ?s\<lparr>csw := no_residue tag, bytes_to_write := 18, msd_buf := buf\<rparr>"
  have b: "poke (poke (poke (blit (msd_buf s) 0 spc3_request_sense) 2 k) 12 a) 13 q
      = sense_response \<lparr>sense_key = k, sense_asc = a, sense_ascq = q\<rparr> @ drop 18 (msd_buf s)" for k a q
    by (simp add: blit_def spc3_request_sense_def sense_response_def poke_def) (simp add: numeral_eq_Suc)
  have v: "scsi_command dev EVENT_CBW_VALID ?s = v"
  proof -
    let ?u = "?s\<lparr>csw_sent := 0, csw := no_residue tag, bytes_to_write := 0, bytes_to_read := 0, byte_count := 0\<rparr>"
    have cu: "CBWCB ?u k = CBWCB ?s k" for k by (simp add: CBWCB_def)
    have "scsi_command dev EVENT_CBW_VALID ?s = scsi_request_sense EVENT_CBW_VALID ?u"
      by (simp add: scsi_command_def Let_def tg no_residue_def [symmetric] cu code) (simp add: scsi_codes)
    also have "\<dots> = v"
      using assms(1) by (simp add: scsi_request_sense_def Let_def cu code b v_def buf_def msc_idle_def sense_response_def)
    finally show ?thesis .
  qed
  have i: "ep_out_size s = 64" "byte_count s = 0" "bytes_to_read s = 0" "block_count s = 0" "in_packet s = None"
    "\<not> csw_valid s" "csw_sent s = 0" "length (cbw s) = 31" "length (msd_buf s) = 512" "current_block_no s = 0"
    "out_packet s = None" using assms(1) by (simp_all add: msc_idle_def)
  have sl: "slice buf 0 18 = sense_response (sense s)" "length buf = 512"
    using i(9) by (simp_all add: buf_def slice_def sense_response_def)
  have lr: "length (sense_response x) = 18" for x by (simp add: sense_response_def)
  have o: "host_out dev ?c s = v\<lparr>byte_count := 18, in_packet := Some (sense_response (sense s))\<rparr>"
    using i sl lr unfolding host_out_def msc_data_rx_cb_def receive_command [OF assms(1) c] v
    by (simp add: send_data_def fill_block_def usbd_ep_write_packet_def v_def Let_def)
  let ?x = "v\<lparr>byte_count := 18, in_packet := None\<rparr>"
  have "CBWCB ?x 0 = SCSI_REQUEST_SENSE" using code(1) by (simp add: v_def CBWCB_def)
  then have "scsi_command dev EVENT_NEED_STATUS ?x = ?x"
    by (simp add: scsi_command_def scsi_request_sense_def Let_def) (simp add: scsi_codes)
  moreover have "slice (command_status tag x) 0 13 = command_status tag x" "length (command_status tag x) = 13" for x
    by (simp_all add: slice_def command_status_def)
  ultimately have t: "msc_data_tx_cb dev ?x
      = ?x\<lparr>csw_valid := True, in_packet := Some (command_status tag CSW_STATUS_SUCCESS), csw_sent := 13\<rparr>"
    using i by (simp add: msc_data_tx_cb_def need_status_def send_csw_def usbd_ep_write_packet_def v_def Let_def status_bytes)
  show "got = [sense_response (sense s), command_status tag CSW_STATUS_SUCCESS]" "disk u = disk s" "msc_idle u"
    using assms(2) t i sl(2) c unfolding o
    by (simp_all add: host_in_some numeral_2_eq_2)
      (simp_all add: msc_data_tx_cb_def need_status_def v_def msc_idle_def Let_def)
qed

text \<open>C15. A command the interface does not know fails, and the host can learn why. Whatever its other bytes, it is answered
  with one status packet that says so; the sense data that a request returns next are those of an illegal request with an
  invalid operation code; the block device is not touched, and the interface is ready again after each of the two commands.\<close>

theorem unknown_command:
  assumes "msc_idle s" "cb \<noteq> []" "length cb \<le> 16" "hd cb \<notin> known_commands"
    and "(got, u) = host_in dev ([], host_out dev (command_block tag len direction cb) s)"
    and "(got2, v) = (host_in dev ^^ 2) ([], host_out dev (request_sense tag2) u)"
  shows "got = [command_status tag CSW_STATUS_FAILED] \<and>
    got2 = [sense_response \<lparr>sense_key = sense_key_value SBC_SENSE_KEY_ILLEGAL_REQUEST,
        sense_asc = asc_value SBC_ASC_INVALID_COMMAND_OPERATION_CODE, sense_ascq = ascq_value SBC_ASCQ_NA\<rparr>,
      command_status tag2 CSW_STATUS_SUCCESS] \<and> disk v = disk s \<and> msc_idle u \<and> msc_idle v"
  using unknown_command_lemma [OF assms(1-5)] request_sense_lemma [OF _ assms(6)] by (simp add: illegal_request_def)

text \<open>C16. A short packet makes the interface write past its buffer. The position in the 512 bytes of \<^verbatim>\<open>msd_buf\<close> is the count of bytes modulo 512, and
  a packet is stored there whole: when the host starts the data of a write of two sectors or more with a packet of fewer than
  64 bytes and goes on with full ones, the ninth packet ends as many bytes behind the buffer as the short one had,
  and no sector has been handed to the device by then.\<close>

theorem short_packet_overrun:
  assumes "msc_idle s" "1 < n" "n < 65536" "length p = k" "0 < k" "k < 64"
    and "length ps = 8" "list_all (\<lambda>q. length q = 64) ps"
    and "t = fold (host_out dev) (command_block tag len direction (write_10 lba n) # p # ps) s"
  shows "length (msd_buf t) = 512 + k \<and> disk t = disk s"
proof -
  let ?cb = "command_block tag len direction (write_10 lba n)"
  define u where "u = host_out dev ?cb s"
  have us: "u = s\<lparr>cbw := ?cb, cbw_cnt := 31, csw := no_residue tag, lba_start := lba,
      block_count := of_nat n, bytes_to_read := of_nat (512 * n)\<rparr>"
    unfolding u_def by (rule write_started) (use assms in simp_all)
  have l: "length (write_10 lba n) = 10" by (simp add: write_10_def)
  have "CBWCB u 0 = SCSI_WRITE_10"
    unfolding us by (subst command_block_bytes(2) [of "write_10 lba n"]) (simp_all add: l, simp add: write_10_def)
  then have w: "writing n 0 u" using assms(1-3) by (simp add: us writing_def msc_idle_def)
  have n: "2 \<le> n" using assms(2) by simp
  have "writing n (k + 64 * m) (fold (host_out dev) (take m ps) (host_out dev p u)) \<and>
      length (msd_buf (fold (host_out dev) (take m ps) (host_out dev p u))) = max 512 (k + 64 * m) \<and>
      disk (fold (host_out dev) (take m ps) (host_out dev p u)) = disk s" if "m \<le> 8" for m
    using that
  proof (induction m)
    case 0
    have "host_out dev p u = packet_received p 0 u"
      using write_packet [OF w, of p dev] assms(4-6) n by simp
    moreover have "writing n k (packet_received p 0 u)" using writing_received(1) [OF w, of p] assms(4) by simp
    moreover have "length (msd_buf u) = 512" "disk u = disk s" using assms(1) by (simp_all add: us msc_idle_def)
    ultimately show ?case using assms(4-6) by (simp add: packet_received_def length_blit)
  next
    case (Suc m)
    let ?v = "fold (host_out dev) (take m ps) (host_out dev p u)" and ?q = "ps ! m"
    have m: "m < 8" and ih: "writing n (k + 64 * m) ?v" "length (msd_buf ?v) = max 512 (k + 64 * m)" "disk ?v = disk s"
      using Suc by simp_all
    have q: "length ?q = 64" using assms(7,8) m by (simp add: list_all_length)
    have b: "k + 64 * m < 512" using m assms(6) by simp
    have "k + 64 * m + 64 \<noteq> 512" using assms(5,6) by (cases "m \<le> 6") linarith+
    moreover have "k + 64 * m + 64 < 1024" "0 < k + 64 * m + 64" using assms(5,6) m by simp_all
    moreover have "x mod 512 \<noteq> 0" if "x \<noteq> 512" "x < 1024" "0 < x" for x :: nat
    proof
      assume "x mod 512 = 0"
      then obtain r where "x = 512 * r" by (metis mod_0_imp_dvd dvdE)
      then show False using that by simp
    qed
    ultimately have md: "(k + 64 * m + 64) mod 512 \<noteq> 0" by simp
    have "k + 64 * m + 64 \<le> 512 * n" using b n by simp
    then have h: "host_out dev ?q ?v = packet_received ?q (k + 64 * m) ?v"
      using write_packet [OF ih(1), of ?q dev] q md by simp
    have "fold (host_out dev) (take (Suc m) ps) (host_out dev p u) = packet_received ?q (k + 64 * m) ?v"
      using h m assms(7) by (simp add: take_Suc_conv_app_nth)
    moreover have "length (msd_buf ?v) = 512" using ih(2) b by simp
    moreover have "writing n (k + 64 * Suc m) (packet_received ?q (k + 64 * m) ?v)"
      using writing_received(1) [OF ih(1), of ?q] q by (simp add: ac_simps)
    ultimately show ?case using b q ih(3) by (simp add: packet_received_def blit_def)
  qed
  from this [of 8] show ?thesis using assms(6,7,9) by (simp add: u_def)
qed

section \<open>A concrete interface\<close>

text \<open>A disk as a map from block numbers to blocks, behind the interface as it is set up.\<close>

definition map_disk :: "(u32 \<Rightarrow> u8 list) Disk" where
  "map_disk = \<lparr>read_block_func = (\<lambda>lba d. take 512 (d lba @ replicate 512 0)), write_block_func = (\<lambda>lba b d. d(lba := b))\<rparr>"

definition blank_msc :: "'d \<Rightarrow> 'd Msc" where
  "blank_msc d = custom_usb_msc_init 64 ''BluePill'' ''UF2 Bootloader'' ''2.1'' 8000
     \<lparr>ep_out_size = 0, vendor_id = [], product_id = [], product_revision_level = [], msc_block_count = 0, cbw_cnt = 0,
      cbw = replicate 31 0, bytes_to_read = 0, bytes_to_write = 0, byte_count = 0, lba_start = 0, block_count = 0,
      current_block_no = 0, msd_buf = replicate 512 0, csw_valid = False, csw_sent = 0,
      csw = \<lparr>dCSWSignature = 0, dCSWTag = 0, dCSWDataResidue = 0, bCSWStatus = 0\<rparr>,
      sense = \<lparr>sense_key = 0, sense_asc = 0, sense_ascq = 0\<rparr>, out_packet = None, in_packet = None, disk = d\<rparr>"

lemma blank_idle: "msc_idle (blank_msc d)" "disk (blank_msc d) = d"
  by (simp_all add: blank_msc_def custom_usb_msc_init_def set_sbc_status_good_def set_sbc_status_def msc_idle_def)

theorem write_command_witness:
  "disk (snd (host_in map_disk ([], fold (host_out map_disk)
     (write_session 7 1024 0 100 [replicate 512 1, replicate 512 2]) (blank_msc (\<lambda>_. []))))) 101 = replicate 512 2"
proof -
  let ?x = "host_in map_disk ([], fold (host_out map_disk)
     (write_session 7 1024 0 100 [replicate 512 1, replicate 512 2]) (blank_msc (\<lambda>_. [])))"
  have "(fst ?x, snd ?x) = ?x" by simp
  from write_command [OF blank_idle(1) _ _ _ this] show ?thesis by (simp add: map_disk_def blank_idle(2))
qed

theorem unknown_command_witness:
  "fst (host_in map_disk ([], host_out map_disk (command_block 7 0 0 [0xFF]) (blank_msc (\<lambda>_. []))))
     = [command_status 7 CSW_STATUS_FAILED]"
proof -
  let ?x = "host_in map_disk ([], host_out map_disk (command_block 7 0 0 [0xFF]) (blank_msc (\<lambda>_. [])))"
  let ?y = "(host_in map_disk ^^ 2) ([], host_out map_disk (request_sense 8) (snd ?x))"
  have "(0xFF :: u8) \<notin> known_commands" by (simp add: known_commands_def scsi_codes)
  then have code: "hd [0xFF :: u8] \<notin> known_commands" by simp
  have x: "(fst ?x, snd ?x) = ?x" and y: "(fst ?y, snd ?y) = ?y" by simp_all
  from unknown_command [OF blank_idle(1) _ _ code x y] show ?thesis by simp
qed

theorem short_packet_overrun_witness:
  "length (msd_buf (fold (host_out map_disk)
     (command_block 7 1024 0 (write_10 100 2) # replicate 10 1 # replicate 8 (replicate 64 2)) (blank_msc (\<lambda>_. [])))) = 522"
  using short_packet_overrun [OF blank_idle(1), where p = "replicate 10 1" and k = 10 and n = 2 and dev = map_disk and
      ps = "replicate 8 (replicate 64 2)", OF _ _ _ _ _ _ _ refl, of 7 1024 0 100 "\<lambda>_. []"]
  by (simp add: list_all_iff)

end
