(* ===== verification/MscDisk.thy ===== *)
theory MscDisk
  imports MscLaws
begin

text \<open>
  The UF2 disk behind the mass storage interface: a host that copies a UF2 file to the disk over USB has it flashed, and what it
  reads are the sectors of the disk.
\<close>

unbundle bit_operations_syntax

text \<open>The functions of \<^verbatim>\<open>ghostfat.c\<close> as the interface gets them; its buffer lies at \<open>a\<close>.\<close>

definition ghost_disk :: "Fpec \<Rightarrow> Layout \<Rightarrow> u32 \<Rightarrow> 'a Fat_scheme Disk" where
  "ghost_disk hw lay a = \<lparr>read_block_func = (\<lambda>lba s. read_block (mem s) lba),
     write_block_func = (\<lambda>lba d s. deliver hw lay a d s)\<rparr>"

section \<open>Sectors have 512 bytes\<close>

lemma length_chars [simp]: "length (chars cs) = length cs" by (simp add: chars_def)

lemma length_fold_poke: "(\<And>i. i \<in> set is \<Longrightarrow> i < length d) \<Longrightarrow> length (fold (\<lambda>i d. poke d i v) is d) = length d"
  by (induction "is" arbitrary: d) (simp_all add: length_poke)

lemma length_store_entries:
  "(\<And>i. i \<in> set is \<Longrightarrow> i < 256) \<Longrightarrow> length d = 512 \<Longrightarrow> length (fold (store_entry k) is d) = 512"
proof (induction "is" arbitrary: d)
  case (Cons i "is")
  have "length (store_entry k i d) = 512" using Cons.prems(1) [of i] Cons.prems(2) by (simp add: store_entry_def Let_def length_blit)
  then show ?case using Cons by simp
qed simp

lemma length_fat_sector: "length d = 512 \<Longrightarrow> length (fat_sector k d) = 512"
proof -
  assume d: "length d = 512"
  then have p: "length (poke d 0 0xf0) = 512" by (simp add: length_poke)
  have "length (fold (\<lambda>i d. poke d i 0xff) [1..<NUM_INFO * 2 + 4] (poke d 0 0xf0)) = 512"
    by (subst length_fold_poke) (auto simp: p NUM_INFO_def)
  then show ?thesis unfolding fat_sector_def Let_def using d by (intro length_store_entries) auto
qed

lemma length_root_directory: "length root_directory = 128"
  by (simp add: root_directory_def NUM_INFO_def numeral_3_eq_3)

lemma length_BootBlock: "length BootBlock = 62"
  by (simp add: BootBlock_def VOLUME_LABEL_def)

lemma length_text_sector: "Suc k < NUM_INFO \<Longrightarrow> snd (info ! k) = Some content \<Longrightarrow> length (cstr content) \<le> 512"
  by (auto simp: NUM_INFO_def info_def less_Suc_eq numeral_3_eq_3 infoUf2File_def indexFile_def cstr_def)

lemma length_read_block: "length (read_block m k) = 512"
proof -
  let ?data = "replicate 512 (0 :: u8)"
  have boot: "length (poke (poke (blit ?data 0 BootBlock) 510 0x55) 511 0xaa) = 512"
    by (simp add: length_poke length_blit length_BootBlock)
  have root: "length (blit ?data 0 root_directory) = 512" by (simp add: length_blit length_root_directory)
  have fat: "length (fat_sector i ?data) = 512" for i by (simp add: length_fat_sector)
  have text_file: "length (case snd (info ! i) of Some content \<Rightarrow> blit ?data 0 (chars (cstr content)) | None \<Rightarrow> ?data) = 512"
    if "i < NUM_INFO - 1" for i
    using that length_text_sector [of i] by (auto split: option.split simp: length_blit)
  have cur: "length (blit ?data 0 (current_block m i x)) = 512" for i x by (simp add: length_blit)
  show ?thesis unfolding read_block_def Let_def by (auto simp: boot root fat text_file cur)
qed

interpretation ghost: block_device "ghost_disk hw lay a"
  by unfold_locales (simp add: ghost_disk_def length_read_block)

section \<open>Reading\<close>

text \<open>C14. Reading the disk over USB. A command to read some sectors from \<open>lba\<close> on is answered with the sectors of the disk in their order, each in eight packets of
  64 bytes, and then with one status packet that carries the tag of the command; the disk is not changed and the interface is ready for the next
  command.\<close>

theorem read_command:
  assumes "msc_idle s" "0 < n" "n < 65536"
    and "(got, u) = (host_in (ghost_disk hw lay a) ^^ (8 * n + 1))
      ([], host_out (ghost_disk hw lay a) (command_block tag len direction (read_10 lba n)) s)"
  shows "got = concat (map (\<lambda>i. packets (read_block (mem (disk s)) (lba + of_nat i))) [0..<n])
      @ [command_status tag CSW_STATUS_SUCCESS] \<and> disk u = disk s \<and> msc_idle u"
  using ghost.read_command_lemma [OF assms] by (simp add: ghost_disk_def)

section \<open>A file is copied\<close>

text \<open>The commands of a copy: tag, first sector and sectors of each.\<close>

definition copy_sectors :: "'d Disk \<Rightarrow> (u32 \<times> u32 \<times> u8 list list) list \<Rightarrow> 'd Msc \<Rightarrow> 'd Msc" where
  "copy_sectors dev cs s = fold (\<lambda>(tag, lba, ds) s.
     snd (host_in dev ([], fold (host_out dev) (write_session tag (of_nat (512 * length ds)) 0 lba ds) s))) cs s"

definition copied_sectors :: "(u32 \<times> u32 \<times> u8 list list) list \<Rightarrow> u8 list list" where
  "copied_sectors cs = concat (map (\<lambda>(tag, lba, ds). ds) cs)"

definition write_commands :: "(u32 \<times> u32 \<times> u8 list list) list \<Rightarrow> bool" where
  "write_commands cs = list_all (\<lambda>(tag, lba, ds). ds \<noteq> [] \<and> length ds < 65536 \<and> list_all (\<lambda>d. length d = 512) ds) cs"

lemma ghost_write_all:
  "write_all (ghost_disk hw lay a) lba k ds x = fold (deliver hw lay a) ds x"
  by (induction ds arbitrary: k x) (simp_all add: write_all_def ghost_disk_def)

lemma copied:
  "msc_idle s \<Longrightarrow> write_commands cs \<Longrightarrow>
   msc_idle (copy_sectors (ghost_disk hw lay a) cs s) \<and>
   disk (copy_sectors (ghost_disk hw lay a) cs s) = fold (deliver hw lay a) (copied_sectors cs) (disk s)"
proof (induction cs arbitrary: s)
  case Nil
  then show ?case by (simp add: copy_sectors_def copied_sectors_def)
next
  case (Cons c cs)
  obtain tag lba ds where c: "c = (tag, lba, ds)" by (cases c)
  let ?dev = "ghost_disk hw lay a"
  let ?x = "host_in ?dev ([], fold (host_out ?dev) (write_session tag (of_nat (512 * length ds)) 0 lba ds) s)"
  have x: "(fst ?x, snd ?x) = ?x" by simp
  have ds: "ds \<noteq> []" "length ds < 65536" "list_all (\<lambda>d. length d = 512) ds" "write_commands cs"
    using Cons.prems(2) by (auto simp: write_commands_def c)
  note w = write_command_lemma(2,3) [OF Cons.prems(1) ds(1-3) x]
  have "copy_sectors ?dev (c # cs) s = copy_sectors ?dev cs (snd ?x)" by (simp add: copy_sectors_def c)
  then show ?case
    using Cons.IH [OF w(2) ds(4)] w(1) by (simp add: copied_sectors_def c ghost_write_all)
qed



theorem read_command_witness:
  "length (fst ((host_in (ghost_disk f1 demo_layout 0x20000000) ^^ 17) ([], host_out (ghost_disk f1 demo_layout 0x20000000)
     (command_block 7 1024 0x80 (read_10 0 2)) (blank_msc (demo_fat (\<lambda>_. 0)))))) = 17"
proof -
  let ?x = "(host_in (ghost_disk f1 demo_layout 0x20000000) ^^ (8 * 2 + 1))
    ([], host_out (ghost_disk f1 demo_layout 0x20000000) (command_block 7 1024 0x80 (read_10 0 2)) (blank_msc (demo_fat (\<lambda>_. 0))))"
  have "(fst ?x, snd ?x) = ?x" by simp
  from read_command [OF blank_idle(1) _ _ this] have
    "fst ?x = concat (map (\<lambda>i. packets (read_block (mem (disk (blank_msc (demo_fat (\<lambda>_. 0))))) (0 + of_nat i))) [0..<2])
      @ [command_status 7 CSW_STATUS_SUCCESS]" by simp
  then show ?thesis by (simp add: packets_def length_concat comp_def numeral_2_eq_2)
qed

end
