(* ===== verification/Hf2.thy ===== *)
theory Hf2
  imports GhostFat
begin

text \<open>
  The HF2 protocol of the bootloader (\<^verbatim>\<open>stm32/bootloader/hf2.c\<close>, \<^verbatim>\<open>uf2hid.h\<close>): messages from the host arrive in USB packets of
  at most 64 bytes, a tag byte and up to 63 bytes of data, and are put together in a buffer; commands
  read and flash the ROM and restart the device; responses are cut into packets again. A new bootloader
  is staged where the application is and compared with the running one.

  The buffers are regions of the memory. \<^verbatim>\<open>usbd_ep_write_packet\<close> is a call of the USB library: the packets it is
  given are collected in \<open>hf2_sent\<close>. Log output and \<^verbatim>\<open>rx_time\<close>, which nothing reads, are left out.
\<close>

unbundle bit_operations_syntax

section \<open>State\<close>

text \<open>Where the linker puts the buffers.\<close>

record Buffers =
  hf2_buffer :: u32
  hf2_buffer_mini :: u32
  hf2_rx_buf :: u32

record Hf2 = Fat +
  hf2_connected :: bool
  hf2_connected_calls :: nat
  hf2_pkt :: u32
  bootloader_changed :: bool
  remDataToSend :: u32
  remDataToSendLength :: u32
  remDataToSendFlag :: u8
  restart_request :: StartupMode
  new_base_vector :: u32
  new_app_start :: u32
  new_bootloader_size :: u32
  new_baseloader_size :: u32
  hf2_sent :: "u8 list list"

definition HF2_CMD_BININFO :: u32 where "HF2_CMD_BININFO = 1"
definition HF2_CMD_INFO :: u32 where "HF2_CMD_INFO = 2"
definition HF2_CMD_RESET_INTO_APP :: u32 where "HF2_CMD_RESET_INTO_APP = 3"
definition HF2_CMD_RESET_INTO_BOOTLOADER :: u32 where "HF2_CMD_RESET_INTO_BOOTLOADER = 4"
definition HF2_CMD_START_FLASH :: u32 where "HF2_CMD_START_FLASH = 5"
definition HF2_CMD_WRITE_FLASH_PAGE :: u32 where "HF2_CMD_WRITE_FLASH_PAGE = 6"
definition HF2_CMD_READ_WORDS :: u32 where "HF2_CMD_READ_WORDS = 8"

lemmas hf2_commands = HF2_CMD_BININFO_def HF2_CMD_INFO_def HF2_CMD_RESET_INTO_APP_def
  HF2_CMD_RESET_INTO_BOOTLOADER_def HF2_CMD_START_FLASH_def HF2_CMD_WRITE_FLASH_PAGE_def HF2_CMD_READ_WORDS_def

definition HF2_FLAG_SERIAL_OUT :: u8 where "HF2_FLAG_SERIAL_OUT = 0x80"
definition HF2_FLAG_CMDPKT_LAST :: u8 where "HF2_FLAG_CMDPKT_LAST = 0x40"
definition HF2_FLAG_CMDPKT_BODY :: u8 where "HF2_FLAG_CMDPKT_BODY = 0x00"
definition HF2_FLAG_MASK :: u8 where "HF2_FLAG_MASK = 0xC0"
definition HF2_SIZE_MASK :: u8 where "HF2_SIZE_MASK = 63"

definition HF2_STATUS_OK :: u16 where "HF2_STATUS_OK = 0"
definition HF2_STATUS_INVALID_CMD :: u16 where "HF2_STATUS_INVALID_CMD = 1"

definition HF2_BUF_SIZE :: u32 where "HF2_BUF_SIZE = 1024 + 64"
definition HF2_PAGE_SIZE :: u32 where "HF2_PAGE_SIZE = 256"

definition USER_FLASH_END :: u32 where
  "USER_FLASH_END = 0x08000000 + FLASH_SIZE_OVERRIDE"

text \<open>The end of the range wraps as \<^verbatim>\<open>uint32_t\<close>.\<close>

definition VALID_FLASH_ADDR :: "u32 \<Rightarrow> u32 \<Rightarrow> bool" where
  "VALID_FLASH_ADDR addr sz \<longleftrightarrow> FLASH_BASE \<le> addr \<and> addr + sz \<le> USER_FLASH_END"

text \<open>The fields of a message in the buffer at \<open>pkt\<close>: its size, then the command; the response lies over the
  command, its tag where the command number was.\<close>

definition pkt_size :: "memory \<Rightarrow> u32 \<Rightarrow> u16" where "pkt_size m pkt = ld16 m pkt"
definition pkt_buf :: "u32 \<Rightarrow> u32" where "pkt_buf pkt = pkt + 2"
definition cmd_command_id :: "memory \<Rightarrow> u32 \<Rightarrow> u32" where "cmd_command_id m pkt = ld32 m (pkt_buf pkt)"
definition cmd_tag :: "memory \<Rightarrow> u32 \<Rightarrow> u16" where "cmd_tag m pkt = ld16 m (pkt_buf pkt + 4)"
definition cmd_target_addr :: "memory \<Rightarrow> u32 \<Rightarrow> u32" where "cmd_target_addr m pkt = ld32 m (pkt_buf pkt + 8)"
definition cmd_num_words :: "memory \<Rightarrow> u32 \<Rightarrow> u32" where "cmd_num_words m pkt = ld32 m (pkt_buf pkt + 12)"
definition cmd_flash_data :: "u32 \<Rightarrow> u32" where "cmd_flash_data pkt = pkt_buf pkt + 12"
definition resp_data :: "u32 \<Rightarrow> u32" where "resp_data pkt = pkt_buf pkt + 4"

text \<open>A list of bytes written to memory, and a stretch of memory as a list.\<close>

fun store_bytes :: "u32 \<Rightarrow> u8 list \<Rightarrow> memory \<Rightarrow> memory" where
  "store_bytes a [] m = m"
| "store_bytes a (b # bs) m = store_bytes (a + 1) bs (m(a := b))"

definition bytes_at :: "memory \<Rightarrow> u32 \<Rightarrow> nat \<Rightarrow> u8 list" where
  "bytes_at m a n = map (\<lambda>i. m (a + of_nat i)) [0..<n]"

section \<open>Sending\<close>

text \<open>The next packet of a response: 64 bytes, cleared first. All the 63 bytes of data of a packet may be the end of the message,
  but only a shorter packet is marked as the last one.\<close>

definition tx_packet :: "memory \<Rightarrow> u32 \<Rightarrow> u32 \<Rightarrow> u8 \<Rightarrow> u8 list" where
  "tx_packet m a s flag = take 64 ((flag OR ucast s) # bytes_at m a (unat s) @ replicate 63 0)"

definition pokeSend :: "u32 \<Rightarrow> u32 \<Rightarrow> u8 \<Rightarrow> 'a Hf2_scheme \<Rightarrow> 'a Hf2_scheme" where
  "pokeSend dataToSend dataToSendLength dataToSendFlag st =
     (if dataToSendLength = 0 then st
      else
        let short = (sint dataToSendLength < 63);
            s = (if short then dataToSendLength else 63);
            flag = (if short then dataToSendFlag
                    else if dataToSendFlag = HF2_FLAG_CMDPKT_LAST then HF2_FLAG_CMDPKT_BODY else dataToSendFlag);
            st = st\<lparr>hf2_sent := hf2_sent st @ [tx_packet (mem st) dataToSend s flag]\<rparr>
        in if dataToSendLength - s > 0
           then st\<lparr>remDataToSend := dataToSend + s, remDataToSendLength := dataToSendLength - s,
                   remDataToSendFlag := dataToSendFlag\<rparr>
           else st\<lparr>remDataToSendLength := 0\<rparr>)"

definition send_hf2_response :: "u32 \<Rightarrow> u32 \<Rightarrow> 'a Hf2_scheme \<Rightarrow> 'a Hf2_scheme" where
  "send_hf2_response pkt len s = pokeSend (pkt_buf pkt) (4 + len) HF2_FLAG_CMDPKT_LAST s"

text \<open>A packet of serial output, outside any message: \<open>dev\<close> says whether the USB device exists.\<close>

definition hf2_transmit :: "bool \<Rightarrow> u32 \<Rightarrow> u16 \<Rightarrow> 'a Hf2_scheme \<Rightarrow> int \<times> 'a Hf2_scheme" where
  "hf2_transmit dev buf len st =
     (if \<not> hf2_connected st \<or> \<not> dev \<or> buf = 0 then (- 1, st)
      else if len = 0 then (0, st)
      else
        let s = (if len < 63 then ucast len else (63 :: u32))
        in (int (unat s),
            st\<lparr>hf2_sent := hf2_sent st @ [tx_packet (mem st) buf s (HF2_FLAG_CMDPKT_LAST OR HF2_FLAG_SERIAL_OUT)]\<rparr>))"

text \<open>The transmit callback: a packet has been sent. With nothing left to send it carries out the restart asked for.\<close>

definition hf2_data_tx_cb :: "'a Hf2_scheme \<Rightarrow> 'a Hf2_scheme" where
  "hf2_data_tx_cb s =
     (let s = (if remDataToSendLength s > 0
               then pokeSend (remDataToSend s) (remDataToSendLength s) (remDataToSendFlag s) s else s)
      in if remDataToSendLength s = 0 \<and> restart_request s \<noteq> UNKNOWN_MODE
         then let s0 = s\<lparr>restart_request := UNKNOWN_MODE\<rparr>
              in case restart_request s of
                   BASELOADER_MODE \<Rightarrow> boot_target_manifest_baseloader s0
                 | BOOTLOADER_MODE \<Rightarrow> boot_target_manifest_bootloader s0
                 | APPLICATION_MODE \<Rightarrow> boot_target_manifest_app s0
                 | UNKNOWN_MODE \<Rightarrow> s0
         else s)"

section \<open>Flashing\<close>

text \<open>The new bootloader, complete in its staging area, is compared with the running one. If they differ, the
  first bytes of the new one, with its Baseloader, are copied behind it. The result says whether they differ.\<close>

definition handle_bootloader_update ::
  "Fpec \<Rightarrow> Layout \<Rightarrow> u32 \<Rightarrow> u32 \<Rightarrow> u32 \<Rightarrow> u32 \<Rightarrow> u32 \<Rightarrow> 'a Hf2_scheme \<Rightarrow> bool \<times> 'a Hf2_scheme" where
  "handle_bootloader_update hw lay old_app_start old_app_start_offset bootloader_size baseloader_size target_addr s =
     (if memcmp_eq (mem s) old_app_start FLASH_BASE (unat bootloader_size) then (False, s)
      else
        let s = flash_write hw lay (target_addr + old_app_start_offset) old_app_start (sint baseloader_size) s
        in (True, flash_flush hw lay s))"

text \<open>The first packet of an image, and every packet for the start of the ROM, forgets the image before; the table of
  the new bootloader is looked for in its staging area until it is there.\<close>

definition find_vector :: "Layout \<Rightarrow> u32 \<Rightarrow> 'a Hf2_scheme \<Rightarrow> 'a Hf2_scheme" where
  "find_vector lay target_addr s =
     (let m = mem s; table = base_vector_table lay;
          old_app_start = FLASH_ADDRESS (vector_application m table);
          s = (if new_app_start s = 0 \<or> target_addr = FLASH_BASE
               then s\<lparr>new_base_vector := 0, new_app_start := old_app_start,
                      new_bootloader_size := vector_application m table - FLASH_BASE,
                      new_baseloader_size := vector_baseloader_end m table - FLASH_BASE,
                      bootloader_changed := False\<rparr>
               else s)
      in if new_base_vector s = 0 \<and> IS_VALID_BASE_VECTOR_TABLE m table old_app_start
         then let v = BASE_VECTOR_TABLE table old_app_start;
                  app = FLASH_ADDRESS (vector_application m v)
              in s\<lparr>new_base_vector := v, new_app_start := app, new_bootloader_size := app - FLASH_BASE,
                   new_baseloader_size := vector_baseloader_end m v - FLASH_BASE\<rparr>
         else s)"

text \<open>Where a page goes: a page of the bootloader to the staging area; the first page of the application
  completes the bootloader, which is compared.\<close>

definition place_page :: "Fpec \<Rightarrow> Layout \<Rightarrow> u32 \<Rightarrow> 'a Hf2_scheme \<Rightarrow> u32 \<times> 'a Hf2_scheme" where
  "place_page hw lay target_addr s =
     (let old_app_start = FLASH_ADDRESS (vector_application (mem s) (base_vector_table lay));
          old_app_start_offset = old_app_start - FLASH_BASE
      in if target_addr < new_app_start s then (target_addr + old_app_start_offset, s)
         else if new_base_vector s \<noteq> 0 \<and> target_addr = new_app_start s \<and> \<not> bootloader_changed s
              then
                let s = flash_flush hw lay s;
                    (changed, s) = handle_bootloader_update hw lay old_app_start old_app_start_offset
                       (new_bootloader_size s) (new_baseloader_size s) target_addr s
                in (target_addr, s\<lparr>bootloader_changed := changed\<rparr>)
              else (target_addr, s))"

definition handle_flash_write :: "Fpec \<Rightarrow> Layout \<Rightarrow> u32 \<Rightarrow> 'a Hf2_scheme \<Rightarrow> 'a Hf2_scheme" where
  "handle_flash_write hw lay pkt s =
     (let target_addr = cmd_target_addr (mem s) pkt;
          s = send_hf2_response pkt 0 s;
          s = find_vector lay target_addr s;
          (target_addr, s) = place_page hw lay target_addr s
      in if VALID_FLASH_ADDR target_addr HF2_PAGE_SIZE \<and> \<not> bootloader_changed s
         then flash_write hw lay target_addr (cmd_flash_data pkt) (uint HF2_PAGE_SIZE) s
         else s)"

section \<open>Commands\<close>

text \<open>The result of \<^verbatim>\<open>BININFO\<close> as it lies in memory.\<close>

definition bininfo :: "StartupMode \<Rightarrow> u8 list" where
  "bininfo mode = le32 (if mode = BOOTLOADER_MODE then 1 else 2) @ le32 HF2_PAGE_SIZE @
     le32 (FLASH_SIZE_OVERRIDE div HF2_PAGE_SIZE) @ le32 HF2_BUF_SIZE @ le32 UF2_FAMILY"

definition set_connected :: "'a Hf2_scheme \<Rightarrow> 'a Hf2_scheme" where
  "set_connected s = (if hf2_connected s then s
     else s\<lparr>hf2_connected := True, hf2_connected_calls := Suc (hf2_connected_calls s)\<rparr>)"

definition handle_command :: "Fpec \<Rightarrow> Layout \<Rightarrow> u32 \<Rightarrow> 'a Hf2_scheme \<Rightarrow> 'a Hf2_scheme" where
  "handle_command hw lay pkt s0 =
     (let s = set_connected s0;
          cmdId = cmd_command_id (mem s) pkt;
          s = s\<lparr>mem := st16 (pkt_buf pkt) (cmd_tag (mem s) pkt) (mem s)\<rparr>;
          s = s\<lparr>mem := st16 (pkt_buf pkt + 2) HF2_STATUS_OK (mem s)\<rparr>
      in if cmdId = HF2_CMD_BININFO then
           let (mode, s) = boot_target_get_startup_mode (APP_BASE_ADDRESS lay) s
           in send_hf2_response pkt 20 (s\<lparr>mem := store_bytes (resp_data pkt) (bininfo mode) (mem s)\<rparr>)
         else if cmdId = HF2_CMD_INFO then
           send_hf2_response pkt (of_nat (length infoUf2File))
             (s\<lparr>mem := store_bytes (resp_data pkt) (chars infoUf2File) (mem s)\<rparr>)
         else if cmdId = HF2_CMD_START_FLASH then
           let (mode, s) = boot_target_get_startup_mode (APP_BASE_ADDRESS lay) (send_hf2_response pkt 0 s)
           in if mode = APPLICATION_MODE then boot_target_manifest_bootloader s else s
         else if cmdId = HF2_CMD_WRITE_FLASH_PAGE then
           let (mode, s) = boot_target_get_startup_mode (APP_BASE_ADDRESS lay) s
           in if mode = APPLICATION_MODE then send_hf2_response pkt 0 (s\<lparr>restart_request := BOOTLOADER_MODE\<rparr>)
              else handle_flash_write hw lay pkt s
         else if cmdId = HF2_CMD_RESET_INTO_APP then
           let s = flash_flush hw lay s
           in send_hf2_response pkt 0
                (s\<lparr>restart_request := (if bootloader_changed s then BASELOADER_MODE else APPLICATION_MODE)\<rparr>)
         else if cmdId = HF2_CMD_RESET_INTO_BOOTLOADER then
           send_hf2_response pkt 0
             (s\<lparr>restart_request := (if bootloader_changed s then BASELOADER_MODE else BOOTLOADER_MODE)\<rparr>)
         else if cmdId = HF2_CMD_READ_WORDS then
           let (mode, s) = boot_target_get_startup_mode (APP_BASE_ADDRESS lay) s
           in if mode = APPLICATION_MODE then send_hf2_response pkt 0 (s\<lparr>restart_request := BOOTLOADER_MODE\<rparr>)
              else
                let n = push_bit 2 (cmd_num_words (mem s) pkt)
                in send_hf2_response pkt n
                     (s\<lparr>mem := memcpy (mem s) (resp_data pkt) (cmd_target_addr (mem s) pkt) (unat n)\<rparr>)
         else send_hf2_response pkt 0 (s\<lparr>mem := st16 (pkt_buf pkt + 2) HF2_STATUS_INVALID_CMD (mem s)\<rparr>))"

section \<open>Receiving\<close>

text \<open>The buffer is chosen with the first packet. A message too long for it is only reported to the log.\<close>

definition choose_pkt :: "Layout \<Rightarrow> Buffers \<Rightarrow> 'a Hf2_scheme \<Rightarrow> 'a Hf2_scheme" where
  "choose_pkt lay bufs s =
     (if hf2_pkt s \<noteq> 0 then s
      else
        let (mode, s) = boot_target_get_startup_mode (APP_BASE_ADDRESS lay) s
        in s\<lparr>hf2_pkt := (if mode = BOOTLOADER_MODE then hf2_buffer bufs else hf2_buffer_mini bufs)\<rparr>)"

definition append_packet :: "u32 \<Rightarrow> u32 \<Rightarrow> nat \<Rightarrow> memory \<Rightarrow> memory" where
  "append_packet pkt rx len m =
     (let m = memcpy m (pkt_buf pkt + ucast (pkt_size m pkt)) (rx + 1) len
      in st16 pkt (pkt_size m pkt + of_nat len) m)"

text \<open>The receive callback for a packet: \<^verbatim>\<open>usbd_ep_read_packet\<close> stores its bytes in \<^verbatim>\<open>rx_buf\<close>.\<close>

definition hf2_data_rx_cb :: "Fpec \<Rightarrow> Layout \<Rightarrow> Buffers \<Rightarrow> u8 list \<Rightarrow> 'a Hf2_scheme \<Rightarrow> 'a Hf2_scheme" where
  "hf2_data_rx_cb hw lay bufs data s =
     (let rx = hf2_rx_buf bufs;
          s = s\<lparr>mem := store_bytes rx (take 64 data) (mem s)\<rparr>
      in if data = [] then s
         else
           let tag = mem s rx;
               s = choose_pkt lay bufs s;
               pkt = hf2_pkt s;
               s = s\<lparr>mem := append_packet pkt rx (unat (tag AND HF2_SIZE_MASK)) (mem s)\<rparr>;
               tag = tag AND HF2_FLAG_MASK
           in if tag \<noteq> HF2_FLAG_CMDPKT_BODY
              then let s = (if tag = HF2_FLAG_CMDPKT_LAST then handle_command hw lay pkt s else s)
                   in s\<lparr>mem := st16 pkt 0 (mem s)\<rparr>
              else s)"

text \<open>The set-up clears the large buffer in Bootloader Mode.\<close>

definition hf2_setup :: "Layout \<Rightarrow> Buffers \<Rightarrow> 'a Hf2_scheme \<Rightarrow> 'a Hf2_scheme" where
  "hf2_setup lay bufs s =
     (let (mode, s) = boot_target_get_startup_mode (APP_BASE_ADDRESS lay) s
      in if mode = BOOTLOADER_MODE then s\<lparr>mem := memset0 (mem s) (hf2_buffer bufs) 1090\<rparr> else s)"

end
