(* ===== verification/Hf2Laws.thy ===== *)
theory Hf2Laws
  imports Hf2 Uf2Laws
begin

text \<open>
  The transport of HF2: a message cut into packets by the host arrives whole in the buffer and is handled once, and the packets of a
  response put together are the response, unless its length is a multiple of the payload of a packet.
\<close>

unbundle bit_operations_syntax

section \<open>Bytes in memory\<close>

definition held :: "memory \<Rightarrow> u32 \<Rightarrow> u8 list \<Rightarrow> bool" where
  "held m a xs \<longleftrightarrow> (\<forall>i<length xs. m (a + of_nat i) = xs ! i)"

lemma held_bytes: "held m a xs \<longleftrightarrow> bytes_at m a (length xs) = xs"
proof
  show "held m a xs \<Longrightarrow> bytes_at m a (length xs) = xs"
    by (intro nth_equalityI) (simp_all add: held_def bytes_at_def)
  show "bytes_at m a (length xs) = xs \<Longrightarrow> held m a xs"
    unfolding held_def bytes_at_def by (metis (no_types, lifting) add_0 nth_map_upt diff_zero)
qed

lemma store_bytes_at:
  "length xs \<le> 2 ^ 32 \<Longrightarrow> store_bytes a xs m b = (if unat (b - a) < length xs then xs ! unat (b - a) else m b)"
proof (induction xs arbitrary: a m)
  case (Cons x xs)
  have s: "unat (b - (a + 1)) < length xs \<longleftrightarrow> 1 \<le> unat (b - a) \<and> unat (b - a) < 1 + length xs"
    using unat_diff_offset [of 1 "length xs" b a] Cons.prems by simp
  show ?case
  proof (cases "b = a")
    case False
    then have "unat (b - a) \<noteq> 0" by (simp add: unat_eq_zero)
    moreover from this have "unat (b - (a + 1)) = unat (b - a) - 1"
      using unat_minus_one [of "b - a"] by (simp add: algebra_simps unat_eq_zero)
    ultimately show ?thesis using Cons s False by (cases "unat (b - a)") auto
  next
    case True
    then have "\<not> unat (b - (a + 1)) < length xs" using s by simp
    then show ?thesis using Cons True by simp
  qed
qed simp

section \<open>Where the buffers are\<close>

definition buffers_ok :: "Layout \<Rightarrow> Buffers \<Rightarrow> bool" where
  "buffers_ok lay bufs \<longleftrightarrow>
     0x20000000 \<le> unat (hf2_buffer bufs) \<and> unat (hf2_buffer bufs) + 1090 < 0x20005000 \<and>
     0x20000000 \<le> unat (hf2_rx_buf bufs) \<and> unat (hf2_rx_buf bufs) + 64 \<le> 0x20005000 \<and>
     (unat (hf2_rx_buf bufs) + 64 \<le> unat (hf2_buffer bufs) \<or>
      unat (hf2_buffer bufs) + 1090 \<le> unat (hf2_rx_buf bufs)) \<and>
     free_ram lay (hf2_buffer bufs) 1090 \<and> free_ram lay (hf2_rx_buf bufs) 64"

definition in_pkt :: "Buffers \<Rightarrow> u32 \<Rightarrow> bool" where
  "in_pkt bufs b \<longleftrightarrow> unat (b - hf2_buffer bufs) < 1090"

definition in_rx :: "Buffers \<Rightarrow> u32 \<Rightarrow> bool" where
  "in_rx bufs b \<longleftrightarrow> unat (b - hf2_rx_buf bufs) < 64"

lemma rx_apart:
  assumes "buffers_ok lay bufs" "in_rx bufs b"
  shows "\<not> in_pkt bufs b"
proof -
  let ?r = "hf2_rx_buf bufs" and ?p = "hf2_buffer bufs" and ?i = "unat (b - hf2_rx_buf bufs)"
  have i: "?i < 64" using assms(2) by (simp add: in_rx_def)
  have "b = ?r + of_nat ?i" by simp
  then have b: "unat b = unat ?r + ?i"
    using assms(1) i unat_add_of_nat [of ?r ?i] by (simp add: buffers_ok_def)
  show ?thesis
  proof (cases "?p \<le> b")
    case True
    then have "unat (b - ?p) = unat b - unat ?p" by (rule unat_diff_le)
    then show ?thesis using assms(1) b i True by (auto simp: in_pkt_def buffers_ok_def word_le_nat_alt)
  next
    case False
    then have "unat (b - ?p) = 2 ^ 32 - unat ?p + unat b" by (intro unat_diff_gr) simp
    moreover have "unat ?p < 0x20005000" using assms(1) by (simp add: buffers_ok_def)
    ultimately show ?thesis by (simp add: in_pkt_def)
  qed
qed

section \<open>A message arrives\<close>

lemma append_packet_spec:
  assumes pre: "held m (pkt_buf pkt) pre" "pkt_size m pkt = of_nat (length pre)"
    and len: "length pre + length d \<le> 1088"
    and d: "\<forall>i<length d. m (rx + 1 + of_nat i) = d ! i"
  defines "m' \<equiv> append_packet pkt rx (length d) m"
  shows "held m' (pkt_buf pkt) (pre @ d)" and "pkt_size m' pkt = of_nat (length (pre @ d))"
    and "\<not> unat (b - pkt) < 1090 \<Longrightarrow> m' b = m b"
proof -
  let ?j = "2 + length pre"
  have sz: "ucast (pkt_size m pkt) = (of_nat (length pre) :: u32)"
  proof -
    have "unat (of_nat (length pre) :: u16) = length pre" using len by (simp add: unat_of_nat)
    then show ?thesis using len by (simp add: pre(2) word_unat_eq_iff unat_of_nat unsigned_ucast_eq take_bit_nat_eq_self)
  qed
  have dest: "pkt_buf pkt + ucast (pkt_size m pkt) = pkt + of_nat ?j" by (simp add: sz pkt_buf_def)
  define m1 where "m1 = memcpy m (pkt + of_nat ?j) (rx + 1) (length d)"
  have in_d: "unat (b - (pkt + of_nat ?j)) < length d \<longleftrightarrow> ?j \<le> unat (b - pkt) \<and> unat (b - pkt) < ?j + length d" for b
    using unat_diff_offset [of ?j "length d" b pkt] len by simp
  have off: "unat (b - (pkt + of_nat ?j)) = unat (b - pkt) - ?j" if "?j \<le> unat (b - pkt)" for b
  proof -
    have "b - (pkt + of_nat ?j) = (b - pkt) - of_nat ?j" by simp
    moreover have "unat (of_nat ?j :: u32) = ?j" using len by (subst unat_of_nat) simp
    ultimately show ?thesis using that by (simp only: unat_diff_le word_le_nat_alt)
  qed
  have m1: "m1 b = (if ?j \<le> unat (b - pkt) \<and> unat (b - pkt) < ?j + length d then d ! (unat (b - pkt) - ?j) else m b)" for b
  proof (cases "?j \<le> unat (b - pkt) \<and> unat (b - pkt) < ?j + length d")
    case True
    then have "unat (b - pkt) - ?j < length d" by auto
    then have "m (rx + 1 + of_nat (unat (b - pkt) - ?j)) = d ! (unat (b - pkt) - ?j)" using d by blast
    moreover have "b - (pkt + of_nat ?j) = of_nat (unat (b - pkt) - ?j)"
      unfolding off [OF conjunct1 [OF True], symmetric] by simp
    ultimately show ?thesis using True in_d by (simp add: m1_def memcpy_def)
  next
    case False
    show ?thesis unfolding m1_def memcpy_def in_d if_not_P [OF False] by (rule refl)
  qed
  have m': "m' = st16 pkt (of_nat (length (pre @ d))) m1"
  proof -
    have "pkt_size m1 pkt = pkt_size m pkt" by (simp add: pkt_size_def ld16_def m1)
    then show ?thesis unfolding m'_def append_packet_def Let_def dest m1_def [symmetric] by (simp add: pre(2))
  qed
  show "pkt_size m' pkt = of_nat (length (pre @ d))" by (simp add: m' pkt_size_def)
  have low: "m' b = m1 b" if "2 \<le> unat (b - pkt)" for b
    using that by (auto simp: m' st16_def)
  then show "\<not> unat (b - pkt) < 1090 \<Longrightarrow> m' b = m b" using len by (simp add: m1)
  show "held m' (pkt_buf pkt) (pre @ d)"
    unfolding held_def
  proof (intro allI impI)
    fix i assume i: "i < length (pre @ d)"
    let ?b = "pkt_buf pkt + of_nat i"
    have "?b - pkt = of_nat (2 + i)" by (simp add: pkt_buf_def)
    moreover have "unat (of_nat (2 + i) :: u32) = 2 + i" using i len by (subst unat_of_nat) simp
    ultimately have b: "unat (?b - pkt) = 2 + i" by (simp only:)
    show "m' ?b = (pre @ d) ! i"
    proof (cases "i < length pre")
      case True
      then show ?thesis using low [of ?b] pre(1) b by (simp add: m1 held_def nth_append)
    next
      case False
      then show ?thesis using low [of ?b] b i by (simp add: m1 nth_append)
    qed
  qed
qed

text \<open>How the host cuts a message.\<close>

function fragments :: "u8 list \<Rightarrow> u8 list list" where
  "fragments msg =
     (if length msg \<le> 63 then [(HF2_FLAG_CMDPKT_LAST OR of_nat (length msg)) # msg]
      else ((HF2_FLAG_CMDPKT_BODY OR 63) # take 63 msg) # fragments (drop 63 msg))"
  by pat_completeness auto
termination by (relation "measure length") auto

declare fragments.simps [simp del]

lemma tag_bits:
  assumes "n \<le> 63"
  shows "unat ((HF2_FLAG_CMDPKT_LAST OR of_nat n) AND HF2_SIZE_MASK) = n"
    and "(HF2_FLAG_CMDPKT_LAST OR of_nat n) AND HF2_FLAG_MASK = HF2_FLAG_CMDPKT_LAST"
    and "unat ((HF2_FLAG_CMDPKT_BODY OR of_nat n) AND HF2_SIZE_MASK) = n"
    and "(HF2_FLAG_CMDPKT_BODY OR of_nat n) AND HF2_FLAG_MASK = HF2_FLAG_CMDPKT_BODY"
proof -
  have "\<forall>n\<in>set [0..<64]. unat ((HF2_FLAG_CMDPKT_LAST OR of_nat n) AND HF2_SIZE_MASK) = n
    \<and> (HF2_FLAG_CMDPKT_LAST OR of_nat n) AND HF2_FLAG_MASK = HF2_FLAG_CMDPKT_LAST
    \<and> unat ((HF2_FLAG_CMDPKT_BODY OR of_nat n) AND HF2_SIZE_MASK) = n
    \<and> (HF2_FLAG_CMDPKT_BODY OR of_nat n) AND HF2_FLAG_MASK = HF2_FLAG_CMDPKT_BODY" by code_simp
  moreover have "n \<in> set [0..<64]" using assms by simp
  ultimately show "unat ((HF2_FLAG_CMDPKT_LAST OR of_nat n) AND HF2_SIZE_MASK) = n"
    "(HF2_FLAG_CMDPKT_LAST OR of_nat n) AND HF2_FLAG_MASK = HF2_FLAG_CMDPKT_LAST"
    "unat ((HF2_FLAG_CMDPKT_BODY OR of_nat n) AND HF2_SIZE_MASK) = n"
    "(HF2_FLAG_CMDPKT_BODY OR of_nat n) AND HF2_FLAG_MASK = HF2_FLAG_CMDPKT_BODY" by blast+
qed

definition handled :: "Fpec \<Rightarrow> Layout \<Rightarrow> u32 \<Rightarrow> 'a Hf2_scheme \<Rightarrow> 'a Hf2_scheme" where
  "handled hw lay pkt s = (let t = handle_command hw lay pkt s in t\<lparr>mem := st16 pkt 0 (mem t)\<rparr>)"

text \<open>One packet, in Bootloader Mode.\<close>

lemma rx_packet:
  assumes bufs: "buffers_ok lay bufs" and s: "startup_mode s = BOOTLOADER_MODE"
      "hf2_pkt s = 0 \<or> hf2_pkt s = hf2_buffer bufs"
    and pre: "held (mem s) (pkt_buf (hf2_buffer bufs)) pre" "pkt_size (mem s) (hf2_buffer bufs) = of_nat (length pre)"
    and len: "length pre + length d \<le> 1088" "length d \<le> 63"
    and flag: "flag = HF2_FLAG_CMDPKT_LAST \<or> flag = HF2_FLAG_CMDPKT_BODY"
  obtains m where
    "hf2_data_rx_cb hw lay bufs ((flag OR of_nat (length d)) # d) s =
       (let s' = s\<lparr>hf2_pkt := hf2_buffer bufs, mem := m\<rparr>
        in if flag = HF2_FLAG_CMDPKT_LAST then handled hw lay (hf2_buffer bufs) s' else s')"
    "held m (pkt_buf (hf2_buffer bufs)) (pre @ d)" "pkt_size m (hf2_buffer bufs) = of_nat (length (pre @ d))"
    "\<forall>b. \<not> in_pkt bufs b \<longrightarrow> \<not> in_rx bufs b \<longrightarrow> m b = mem s b"
proof -
  let ?pkt = "hf2_buffer bufs" and ?rx = "hf2_rx_buf bufs" and ?data = "(flag OR of_nat (length d)) # d"
  define m1 where "m1 = store_bytes ?rx ?data (mem s)"
  have at: "m1 b = (if unat (b - ?rx) < length ?data then ?data ! unat (b - ?rx) else mem s b)" for b
    unfolding m1_def by (rule store_bytes_at) (use len in simp)
  have tag: "m1 ?rx = flag OR of_nat (length d)" by (simp add: at)
  have same: "m1 b = mem s b" if "in_pkt bufs b" for b
  proof -
    have "\<not> in_rx bufs b" using rx_apart [OF bufs] that by blast
    then show ?thesis using at [of b] len(2) by (simp add: in_rx_def)
  qed
  have buf: "in_pkt bufs (?pkt + of_nat j)" if "j < 1090" for j using that by (simp add: in_pkt_def unat_of_nat)
  have "m1 (pkt_buf ?pkt + of_nat i) = pre ! i" if "i < length pre" for i
  proof -
    have "in_pkt bufs (?pkt + of_nat (2 + i))" by (rule buf) (use that len(1) in simp)
    then have "in_pkt bufs (pkt_buf ?pkt + of_nat i)" by (simp add: pkt_buf_def add.assoc)
    then show ?thesis using same pre(1) that by (simp add: held_def)
  qed
  then have "held m1 (pkt_buf ?pkt) pre" by (simp add: held_def)
  moreover have "pkt_size m1 ?pkt = of_nat (length pre)"
    using pre(2) same [OF buf [of 0]] same [OF buf [of 1]] by (simp add: pkt_size_def ld16_def)
  moreover have "\<forall>i<length d. m1 (?rx + 1 + of_nat i) = d ! i"
  proof (intro allI impI)
    fix i assume i: "i < length d"
    have "?rx + 1 + of_nat i - ?rx = of_nat (Suc i)" by simp
    moreover have "unat (of_nat (Suc i) :: u32) = Suc i" using i len by (subst unat_of_nat) simp
    ultimately have "unat (?rx + 1 + of_nat i - ?rx) = Suc i" by (simp only:)
    then show "m1 (?rx + 1 + of_nat i) = d ! i" using at [of "?rx + 1 + of_nat i"] i by simp
  qed
  ultimately have a: "held (append_packet ?pkt ?rx (length d) m1) (pkt_buf ?pkt) (pre @ d)"
      "pkt_size (append_packet ?pkt ?rx (length d) m1) ?pkt = of_nat (length (pre @ d))"
      "\<And>b. \<not> unat (b - ?pkt) < 1090 \<Longrightarrow> append_packet ?pkt ?rx (length d) m1 b = m1 b"
    using append_packet_spec [OF _ _ len(1)] by blast+
  have t64: "take 64 ?data = ?data" using len(2) by simp
  have ch: "choose_pkt lay bufs (s\<lparr>mem := m1\<rparr>) = s\<lparr>hf2_pkt := ?pkt, mem := m1\<rparr>"
    using s by (auto simp: choose_pkt_def boot_target_get_startup_mode_def)
  have bits: "unat ((flag OR of_nat (length d)) AND HF2_SIZE_MASK) = length d"
    "(flag OR of_nat (length d)) AND HF2_FLAG_MASK = flag"
    using flag tag_bits [OF len(2)] by auto
  have ne: "HF2_FLAG_CMDPKT_LAST \<noteq> HF2_FLAG_CMDPKT_BODY"
    by (simp add: HF2_FLAG_CMDPKT_LAST_def HF2_FLAG_CMDPKT_BODY_def)
  have "hf2_data_rx_cb hw lay bufs ?data s =
     (let s' = s\<lparr>hf2_pkt := ?pkt, mem := append_packet ?pkt ?rx (length d) m1\<rparr>
      in if flag = HF2_FLAG_CMDPKT_LAST then handled hw lay ?pkt s' else s')"
    unfolding hf2_data_rx_cb_def Let_def t64 m1_def [symmetric]
    using flag ne bits by (auto simp: ch tag handled_def Let_def)
  moreover have "\<forall>b. \<not> in_pkt bufs b \<longrightarrow> \<not> in_rx bufs b \<longrightarrow> append_packet ?pkt ?rx (length d) m1 b = mem s b"
    using a(3) at len(2) by (auto simp: in_pkt_def in_rx_def)
  ultimately show ?thesis using that a(1,2) by blast
qed

lemma receive_fragments:
  assumes bufs: "buffers_ok lay bufs"
  shows "startup_mode s = BOOTLOADER_MODE \<Longrightarrow> hf2_pkt s = 0 \<or> hf2_pkt s = hf2_buffer bufs \<Longrightarrow>
    held (mem s) (pkt_buf (hf2_buffer bufs)) pre \<Longrightarrow> pkt_size (mem s) (hf2_buffer bufs) = of_nat (length pre) \<Longrightarrow>
    length pre + length msg \<le> 1088 \<Longrightarrow>
    \<exists>m. fold (hf2_data_rx_cb hw lay bufs) (fragments msg) s =
        handled hw lay (hf2_buffer bufs) (s\<lparr>hf2_pkt := hf2_buffer bufs, mem := m\<rparr>) \<and>
      held m (pkt_buf (hf2_buffer bufs)) (pre @ msg) \<and> pkt_size m (hf2_buffer bufs) = of_nat (length (pre @ msg)) \<and>
      (\<forall>b. \<not> in_pkt bufs b \<longrightarrow> \<not> in_rx bufs b \<longrightarrow> m b = mem s b)"
proof (induction msg arbitrary: pre s rule: fragments.induct)
  case (1 msg)
  show ?case
  proof (cases "length msg \<le> 63")
    case True
    obtain m where m: "hf2_data_rx_cb hw lay bufs ((HF2_FLAG_CMDPKT_LAST OR of_nat (length msg)) # msg) s =
        (let s' = s\<lparr>hf2_pkt := hf2_buffer bufs, mem := m\<rparr>
         in if HF2_FLAG_CMDPKT_LAST = HF2_FLAG_CMDPKT_LAST then handled hw lay (hf2_buffer bufs) s' else s')"
      "held m (pkt_buf (hf2_buffer bufs)) (pre @ msg)" "pkt_size m (hf2_buffer bufs) = of_nat (length (pre @ msg))"
      "\<forall>b. \<not> in_pkt bufs b \<longrightarrow> \<not> in_rx bufs b \<longrightarrow> m b = mem s b"
      by (rule rx_packet [OF bufs "1.prems"(1-5) True disjI1 [OF refl], where hw = hw])
    show ?thesis
      by (rule exI [of _ m]) (use m True in \<open>simp add: fragments.simps [of msg] Let_def\<close>)
  next
    case False
    have t: "length (take 63 msg) = 63" using False by simp
    have l: "length pre + length (take 63 msg) \<le> 1088" "length (take 63 msg) \<le> 63" using "1.prems"(5) t by simp_all
    obtain m where m: "hf2_data_rx_cb hw lay bufs ((HF2_FLAG_CMDPKT_BODY OR of_nat (length (take 63 msg))) # take 63 msg) s =
        (let s' = s\<lparr>hf2_pkt := hf2_buffer bufs, mem := m\<rparr>
         in if HF2_FLAG_CMDPKT_BODY = HF2_FLAG_CMDPKT_LAST then handled hw lay (hf2_buffer bufs) s' else s')"
      and h: "held m (pkt_buf (hf2_buffer bufs)) (pre @ take 63 msg)"
        "pkt_size m (hf2_buffer bufs) = of_nat (length (pre @ take 63 msg))"
        "\<forall>b. \<not> in_pkt bufs b \<longrightarrow> \<not> in_rx bufs b \<longrightarrow> m b = mem s b"
      by (rule rx_packet [OF bufs "1.prems"(1-4) l disjI2 [OF refl], where hw = hw])
    have ne: "HF2_FLAG_CMDPKT_BODY \<noteq> HF2_FLAG_CMDPKT_LAST"
      by (simp add: HF2_FLAG_CMDPKT_LAST_def HF2_FLAG_CMDPKT_BODY_def)
    let ?s = "s\<lparr>hf2_pkt := hf2_buffer bufs, mem := m\<rparr>"
    have "hf2_data_rx_cb hw lay bufs ((HF2_FLAG_CMDPKT_BODY OR 63) # take 63 msg) s = ?s"
      using m ne t by (simp add: Let_def)
    then have f: "fold (hf2_data_rx_cb hw lay bufs) (fragments msg) s
        = fold (hf2_data_rx_cb hw lay bufs) (fragments (drop 63 msg)) ?s"
      using False by (subst fragments.simps) simp
    have "length (pre @ take 63 msg) + length (drop 63 msg) \<le> 1088" using "1.prems"(5) False by simp
    from "1.IH" [OF False, where s = ?s, OF _ _ _ _ this] h "1.prems"(1)
    obtain m' where m': "fold (hf2_data_rx_cb hw lay bufs) (fragments (drop 63 msg)) ?s =
        handled hw lay (hf2_buffer bufs) (?s\<lparr>hf2_pkt := hf2_buffer bufs, mem := m'\<rparr>)"
      "held m' (pkt_buf (hf2_buffer bufs)) ((pre @ take 63 msg) @ drop 63 msg)"
      "pkt_size m' (hf2_buffer bufs) = of_nat (length ((pre @ take 63 msg) @ drop 63 msg))"
      "\<forall>b. \<not> in_pkt bufs b \<longrightarrow> \<not> in_rx bufs b \<longrightarrow> m' b = mem ?s b" by auto
    show ?thesis
      by (rule exI [of _ m'], unfold f) (use m' h(3) in simp)
  qed
qed

text \<open>C17. A message arrives whole and is handled once. However long it is, up to the size of the large buffer, the packets the host cuts it into put exactly its
  bytes into the buffer, touch no other memory than the two buffers, and the last one has the command carried out
  on it; after that the buffer is free for the next message.\<close>

theorem message_received:
  assumes "buffers_ok lay bufs" "startup_mode s = BOOTLOADER_MODE" "hf2_pkt s = 0 \<or> hf2_pkt s = hf2_buffer bufs"
    and "pkt_size (mem s) (hf2_buffer bufs) = 0" "length msg \<le> 1088"
    and "t = fold (hf2_data_rx_cb hw lay bufs) (fragments msg) s"
  shows "\<exists>m. bytes_at m (pkt_buf (hf2_buffer bufs)) (length msg) = msg \<and>
    pkt_size m (hf2_buffer bufs) = of_nat (length msg) \<and>
    (\<forall>b. unat (b - hf2_buffer bufs) < 1090 \<or> unat (b - hf2_rx_buf bufs) < 64 \<or> m b = mem s b) \<and>
    (let u = handle_command hw lay (hf2_buffer bufs) (s\<lparr>hf2_pkt := hf2_buffer bufs, mem := m\<rparr>)
     in t = u\<lparr>mem := st16 (hf2_buffer bufs) 0 (mem u)\<rparr>)"
proof -
  have "held (mem s) (pkt_buf (hf2_buffer bufs)) []" by (simp add: held_def)
  from receive_fragments [OF assms(1-3) this, of msg hw] assms(4,5)
  obtain m where m: "fold (hf2_data_rx_cb hw lay bufs) (fragments msg) s =
        handled hw lay (hf2_buffer bufs) (s\<lparr>hf2_pkt := hf2_buffer bufs, mem := m\<rparr>)"
      "held m (pkt_buf (hf2_buffer bufs)) msg" "pkt_size m (hf2_buffer bufs) = of_nat (length msg)"
      "\<forall>b. \<not> in_pkt bufs b \<longrightarrow> \<not> in_rx bufs b \<longrightarrow> m b = mem s b" by auto
  show ?thesis
    by (rule exI [of _ m]) (use m assms(6) in \<open>auto simp: held_bytes handled_def Let_def in_pkt_def in_rx_def\<close>)
qed

section \<open>A response leaves\<close>

text \<open>The host puts packets together: what it has of a message, and the messages that are complete.\<close>

fun host_rx :: "u8 list \<times> u8 list list \<Rightarrow> u8 list \<Rightarrow> u8 list \<times> u8 list list" where
  "host_rx (part, complete) p =
     (let d = take (unat (hd p AND HF2_SIZE_MASK)) (tl p); tag = hd p AND HF2_FLAG_MASK
      in if tag = HF2_FLAG_CMDPKT_LAST then ([], complete @ [part @ d])
         else if tag = HF2_FLAG_CMDPKT_BODY then (part @ d, complete)
         else (part, complete))"

lemma host_packet:
  assumes "n \<le> 63" "flag = HF2_FLAG_CMDPKT_LAST \<or> flag = HF2_FLAG_CMDPKT_BODY"
  shows "host_rx (part, complete) (tx_packet m a (of_nat n) flag) =
    (if flag = HF2_FLAG_CMDPKT_LAST then ([], complete @ [part @ bytes_at m a n]) else (part @ bytes_at m a n, complete))"
proof -
  have u: "unat (of_nat n :: u32) = n" using assms(1) by (simp add: unat_of_nat)
  have c: "ucast (of_nat n :: u32) = (of_nat n :: u8)" using assms(1) by (simp add: word_unat_eq_iff unat_of_nat unsigned_ucast_eq take_bit_nat_eq_self)
  have "take n (take 63 (bytes_at m a n @ replicate 63 0)) = bytes_at m a n"
    using assms(1) by (simp add: bytes_at_def)
  moreover have "HF2_FLAG_CMDPKT_LAST \<noteq> HF2_FLAG_CMDPKT_BODY"
    by (simp add: HF2_FLAG_CMDPKT_LAST_def HF2_FLAG_CMDPKT_BODY_def)
  ultimately show ?thesis
    using assms(2) tag_bits [OF assms(1)] by (auto simp: tx_packet_def u c Let_def)
qed

lemma bytes_at_append: "k \<le> n \<Longrightarrow> bytes_at m a k @ bytes_at m (a + of_nat k) (n - k) = bytes_at m a n"
  by (intro nth_equalityI) (auto simp: bytes_at_def nth_append of_nat_diff algebra_simps)

lemma positive_word: "0 < n \<Longrightarrow> n < 2 ^ 32 \<Longrightarrow> of_nat n > (0 :: u32)"
  by (simp add: word_less_nat_alt unat_of_nat)

lemma poke_short:
  assumes "0 < n" "n < 63"
  shows "pokeSend a (of_nat n) HF2_FLAG_CMDPKT_LAST s =
    s\<lparr>hf2_sent := hf2_sent s @ [tx_packet (mem s) a (of_nat n) HF2_FLAG_CMDPKT_LAST], remDataToSendLength := 0\<rparr>"
proof -
  have "sint (of_nat n :: u32) = int n" using assms by (simp add: signed_of_nat signed_take_bit_int_eq_self)
  moreover have "of_nat n \<noteq> (0 :: u32)" using assms by (simp add: word_unat_eq_iff unat_of_nat)
  ultimately show ?thesis using assms by (simp add: pokeSend_def Let_def)
qed

lemma poke_long:
  assumes "63 \<le> n" "n < 2 ^ 31"
  shows "pokeSend a (of_nat n) HF2_FLAG_CMDPKT_LAST s =
    (let s = s\<lparr>hf2_sent := hf2_sent s @ [tx_packet (mem s) a 63 HF2_FLAG_CMDPKT_BODY]\<rparr>
     in if n = 63 then s\<lparr>remDataToSendLength := 0\<rparr>
        else s\<lparr>remDataToSend := a + 63, remDataToSendLength := of_nat (n - 63),
               remDataToSendFlag := HF2_FLAG_CMDPKT_LAST\<rparr>)"
proof -
  have "sint (of_nat n :: u32) = int n" using assms by (simp add: signed_of_nat signed_take_bit_int_eq_self)
  moreover have "of_nat n \<noteq> (0 :: u32)" using assms by (simp add: word_unat_eq_iff unat_of_nat)
  moreover have "of_nat n - (63 :: u32) = of_nat (n - 63)" using assms by (simp add: of_nat_diff)
  moreover have "of_nat (n - 63) > (0 :: u32) \<longleftrightarrow> n \<noteq> 63"
    using positive_word [of "n - 63"] assms by (cases "n = 63") (auto simp del: of_nat_diff)
  ultimately show ?thesis using assms by (simp add: pokeSend_def Let_def)
qed

lemma response_packets:
  "0 < n \<Longrightarrow> n < 2 ^ 31 \<Longrightarrow> restart_request s = UNKNOWN_MODE \<Longrightarrow>
    t = (hf2_data_tx_cb ^^ ((n - 1) div 63)) (pokeSend a (of_nat n) HF2_FLAG_CMDPKT_LAST s) \<Longrightarrow>
    remDataToSendLength t = 0 \<and> (\<exists>ps. hf2_sent t = hf2_sent s @ ps \<and>
      foldl host_rx (part, complete) ps = (if n mod 63 = 0 then (part @ bytes_at (mem s) a n, complete)
        else ([], complete @ [part @ bytes_at (mem s) a n])))"
proof (induction n arbitrary: a s part t rule: less_induct)
  case (less n)
  consider "n < 63" | "n = 63" | "63 < n" by linarith
  then show ?case
  proof cases
    case 1
    then have k: "(n - 1) div 63 = 0" "n mod 63 \<noteq> 0" using less.prems(1) by simp_all
    have "foldl host_rx (part, complete) [tx_packet (mem s) a (of_nat n) HF2_FLAG_CMDPKT_LAST]
        = ([], complete @ [part @ bytes_at (mem s) a n])"
      using 1 host_packet [of n HF2_FLAG_CMDPKT_LAST] by simp
    then show ?thesis
      using less.prems(1,4) 1 k
      by (intro conjI exI [of _ "[tx_packet (mem s) a (of_nat n) HF2_FLAG_CMDPKT_LAST]"]) (simp_all add: poke_short)
  next
    case 2
    have ne: "HF2_FLAG_CMDPKT_BODY \<noteq> HF2_FLAG_CMDPKT_LAST"
      by (simp add: HF2_FLAG_CMDPKT_LAST_def HF2_FLAG_CMDPKT_BODY_def)
    have "foldl host_rx (part, complete) [tx_packet (mem s) a 63 HF2_FLAG_CMDPKT_BODY]
        = (part @ bytes_at (mem s) a 63, complete)"
      using ne host_packet [of 63 HF2_FLAG_CMDPKT_BODY part complete "mem s" a] by simp
    moreover have "t = s\<lparr>hf2_sent := hf2_sent s @ [tx_packet (mem s) a 63 HF2_FLAG_CMDPKT_BODY], remDataToSendLength := 0\<rparr>"
      using less.prems(4) 2 poke_long [of 63 a s] by (simp add: Let_def)
    ultimately show ?thesis
      using 2 by (intro conjI exI [of _ "[tx_packet (mem s) a 63 HF2_FLAG_CMDPKT_BODY]"]) simp_all
  next
    case 3
    have ne: "HF2_FLAG_CMDPKT_BODY \<noteq> HF2_FLAG_CMDPKT_LAST"
      by (simp add: HF2_FLAG_CMDPKT_LAST_def HF2_FLAG_CMDPKT_BODY_def)
    let ?p = "tx_packet (mem s) a 63 HF2_FLAG_CMDPKT_BODY" and ?n = "n - 63"
    define u where "u = pokeSend a (of_nat n) HF2_FLAG_CMDPKT_LAST s"
    have u: "hf2_sent u = hf2_sent s @ [?p]" "remDataToSend u = a + 63" "remDataToSendLength u = of_nat ?n"
      "remDataToSendFlag u = HF2_FLAG_CMDPKT_LAST" "restart_request u = UNKNOWN_MODE" "mem u = mem s"
      using 3 poke_long [of n a s] less.prems(2,3) by (simp_all add: u_def Let_def)
    have n: "0 < ?n" "?n < n" "?n < 2 ^ 31" using 3 less.prems(2) by simp_all
    have "of_nat ?n > (0 :: u32)" using n by (intro positive_word) simp_all
    moreover have "restart_request (pokeSend x y z u) = UNKNOWN_MODE" for x y z
      using u(5) by (simp add: pokeSend_def Let_def)
    ultimately have step: "hf2_data_tx_cb u = pokeSend (a + 63) (of_nat ?n) HF2_FLAG_CMDPKT_LAST u"
      by (simp only: hf2_data_tx_cb_def Let_def u if_True simp_thms if_False)
    have "(n - 1) div 63 = Suc ((?n - 1) div 63)"
    proof -
      have "n - 1 = (?n - 1) + 63" using 3 by simp
      then show ?thesis by (simp only: div_add_self2)
    qed
    then have t: "t = (hf2_data_tx_cb ^^ ((?n - 1) div 63)) (pokeSend (a + 63) (of_nat ?n) HF2_FLAG_CMDPKT_LAST u)"
      using less.prems(4) by (simp add: u_def [symmetric] funpow_swap1 step)
    obtain ps where ps: "remDataToSendLength t = 0" "hf2_sent t = hf2_sent u @ ps"
      "foldl host_rx (part @ bytes_at (mem s) a 63, complete) ps =
        (if ?n mod 63 = 0 then ((part @ bytes_at (mem s) a 63) @ bytes_at (mem u) (a + 63) ?n, complete)
         else ([], complete @ [(part @ bytes_at (mem s) a 63) @ bytes_at (mem u) (a + 63) ?n]))"
      using less.IH [OF n(2,1,3) u(5) t] by blast
    have b: "bytes_at (mem s) a 63 @ bytes_at (mem s) (a + 63) ?n = bytes_at (mem s) a n"
      using 3 bytes_at_append [of 63 n "mem s" a] by simp
    have "?n mod 63 = n mod 63" using 3 by (metis le_mod_geq less_imp_le not_less)
    moreover have "host_rx (part, complete) ?p = (part @ bytes_at (mem s) a 63, complete)"
      using ne host_packet [of 63 HF2_FLAG_CMDPKT_BODY part complete "mem s" a] by simp
    ultimately show ?thesis
      using ps u b by (intro conjI exI [of _ "?p # ps"]) simp_all
  qed
qed

text \<open>C18. A response reaches the host, except when its length is a multiple of 63. The packets it is cut into, one sent at once and the
  others by the transmit callback, put together are tag, status and data; but a packet is marked as the last one only if it is not
  full, so the host never completes a response of 63, 126 or more such bytes, and reading 62 words hangs it.\<close>

theorem response_received:
  assumes "restart_request s = UNKNOWN_MODE" "hf2_sent s = []" "len < 2 ^ 30"
    and "t = (hf2_data_tx_cb ^^ ((3 + len) div 63)) (send_hf2_response pkt (of_nat len) s)"
  shows "remDataToSendLength t = 0 \<and> foldl host_rx ([], []) (hf2_sent t) =
    (if (4 + len) mod 63 = 0 then (bytes_at (mem s) (pkt_buf pkt) (4 + len), [])
     else ([], [bytes_at (mem s) (pkt_buf pkt) (4 + len)]))"
proof -
  have "0 < 4 + len" "4 + len < 2 ^ 31" using assms(3) by simp_all
  from response_packets [OF this assms(1), of t "pkt_buf pkt" "[]" "[]"] show ?thesis
    using assms(2,4) by (auto simp: send_hf2_response_def)
qed

section \<open>An example\<close>

definition demo_bufs :: Buffers where
  "demo_bufs = \<lparr>hf2_buffer = 0x20004000, hf2_buffer_mini = 0x20003F00, hf2_rx_buf = 0x20003E00\<rparr>"

definition demo_hf2 :: "memory \<Rightarrow> Hf2" where
  "demo_hf2 m = (Fat.extend (demo_fat m) (Hf2.fields False 0 0 False 0 0 0 UNKNOWN_MODE 0 0 0 0 []))
     \<lparr>startup_mode := BOOTLOADER_MODE\<rparr>"

lemma demo_hf2_fields:
  "mem (demo_hf2 m) = m" "startup_mode (demo_hf2 m) = BOOTLOADER_MODE" "hf2_pkt (demo_hf2 m) = 0"
  "hf2_sent (demo_hf2 m) = []" "restart_request (demo_hf2 m) = UNKNOWN_MODE" "flashAddr (demo_hf2 m) = NO_CACHE"
  "\<not> PG (FLASH_CR (demo_hf2 m))" "\<not> PER (FLASH_CR (demo_hf2 m))" "remDataToSendLength (demo_hf2 m) = 0"
  by (simp_all add: demo_hf2_def demo_fat_def demo_boot_def blank_dev_def Dev.extend_def Boot.extend_def
      Fat.extend_def Dev.defs Boot.defs Fat.defs Hf2.defs)

lemma demo_free: "0x20000000 \<le> unat a \<Longrightarrow> unat a + n \<le> 0x20004800 \<Longrightarrow> free_ram demo_layout a n"
  unfolding free_ram_def
proof (intro allI impI)
  fix i assume "0x20000000 \<le> unat a" "unat a + n \<le> 0x20004800" "i < n"
  moreover from this have u: "unat (a + of_nat i) = unat a + i" by (intro unat_add_of_nat) simp
  moreover from calculation have "\<not> unat (a + of_nat i - (0x20004800 :: u32)) < 1024"
    using unat_diff_gr [of "a + of_nat i" "0x20004800"] by (simp add: word_less_nat_alt)
  ultimately show "\<not> in_rom (a + of_nat i) \<and> \<not> in_buffer demo_layout (a + of_nat i)"
    by (simp add: in_rom_def in_buffer_def demo_layout_def)
qed

lemma demo_bufs_ok: "buffers_ok demo_layout demo_bufs"
  by (simp add: buffers_ok_def demo_bufs_def demo_free)

theorem message_received_witness:
  "hf2_connected (fold (hf2_data_rx_cb f1 demo_layout demo_bufs)
     (fragments (replicate 100 9)) (demo_hf2 (\<lambda>_. 0)))"
proof -
  have "pkt_size (\<lambda>_. 0) a = 0" for a by (simp add: pkt_size_def ld16_def word_cat_eq)
  then have z: "pkt_size (mem (demo_hf2 (\<lambda>_. 0))) (hf2_buffer demo_bufs) = 0" by (simp add: demo_hf2_fields)
  obtain m where m: "bytes_at m (pkt_buf (hf2_buffer demo_bufs)) 100 = replicate 100 9"
    and t: "fold (hf2_data_rx_cb f1 demo_layout demo_bufs) (fragments (replicate 100 9)) (demo_hf2 (\<lambda>_. 0)) =
      (let u = handle_command f1 demo_layout (hf2_buffer demo_bufs)
           (demo_hf2 (\<lambda>_. 0)\<lparr>hf2_pkt := hf2_buffer demo_bufs, mem := m\<rparr>)
       in u\<lparr>mem := st16 (hf2_buffer demo_bufs) 0 (mem u)\<rparr>)"
    using message_received [OF demo_bufs_ok demo_hf2_fields(2) disjI1 [OF demo_hf2_fields(3)] z _ refl,
        of "replicate 100 9" f1] by (auto simp: Let_def)
  have h: "held m (pkt_buf (hf2_buffer demo_bufs)) (replicate 100 9)" using m by (simp add: held_bytes)
  have b: "m (pkt_buf (hf2_buffer demo_bufs) + of_nat i) = 9" if "i < 4" for i
    using h that by (simp add: held_def)
  have w: "word_cat (9 :: u8) (9 :: u8) = (0x0909 :: u16)" "word_cat (0x0909 :: u16) (0x0909 :: u16) = (0x09090909 :: u32)"
    by (simp_all add: word_cat_eq push_bit_eq_mult)
  have "ld16 m (pkt_buf (hf2_buffer demo_bufs)) = 0x0909" "ld16 m (pkt_buf (hf2_buffer demo_bufs) + 2) = 0x0909"
    using b [of 0] b [of 1] b [of 2] b [of 3] by (simp_all add: ld16_def w add.assoc)
  then have "cmd_command_id m (hf2_buffer demo_bufs) = 0x09090909"
    by (simp add: cmd_command_id_def ld32_def w)
  then show ?thesis
    by (simp add: t Let_def handle_command_def hf2_commands send_hf2_response_def pokeSend_def set_connected_def)
qed

theorem response_received_witness:
  "snd (foldl host_rx ([], []) (hf2_sent ((hf2_data_tx_cb ^^ 3)
     (send_hf2_response 0x20004000 (of_nat 248) (demo_hf2 (\<lambda>_. 0)))))) = []"
  using response_received [OF demo_hf2_fields(5,4) _ refl, of 248 "0x20004000"] by simp

end
