(* ===== verification/Hf2Update.thy ===== *)
theory Hf2Update
  imports Hf2Laws
begin

text \<open>
  A new bootloader sent over HF2, from the first page to the restart that runs it: its pages are staged where the application was, the Base Vector
  Table is found among them, the comparison notices the change and copies the new Baseloader behind them, and after the
  restart the Baseloader installs what was sent.
\<close>

unbundle bit_operations_syntax

section \<open>Copying within the ROM\<close>

lemma chunk_page: "flashAddr (write_chunk hw lay dst src n s) = FLASH_ADDRESS dst"
  by (simp add: write_chunk_def Let_def dst_parts(1))

lemma view_uncached: "flashAddr s = NO_CACHE \<or> \<not> unat (b - flashAddr s) < 1024 \<Longrightarrow> view lay s b = mem s b"
  by (auto simp: view_def)

lemma rom_chunk:
  assumes hw: "fpec_ok hw" "prompt hw" and lay: "page_buffer lay" and c: "cache_ok s"
    and p: "rom_page (FLASH_ADDRESS dst)" "unat dst mod 1024 + n \<le> 1024"
    and src: "\<And>d. unat d < n \<Longrightarrow> in_rom (src + d) \<and> \<not> unat (src + d - FLASH_ADDRESS dst) < 1024"
  defines "u \<equiv> write_chunk hw lay dst src n s"
  shows "stored (view lay s) (view lay u) dst (\<lambda>i. view lay s (src + i)) n"
    and "same_ram lay (mem s) (mem u)" and "cache_ok u" and "same_rest s u"
proof -
  let ?s = "s\<lparr>hadWrite := True\<rparr>" and ?p = "FLASH_ADDRESS dst"
  have "cache_ok ?s" using c by (simp add: cache_ok_def)
  note pc = page_cached [OF hw lay this p(1)]
  have v: "view lay ?s = view lay s" by (simp add: view_def fun_eq_iff)
  have "mem (load_page hw lay ?p ?s) (src + d) = view lay s (src + d)" if "unat d < n" for d
  proof -
    have "view lay (load_page hw lay ?p ?s) (src + d) = mem (load_page hw lay ?p ?s) (src + d)"
      using src [OF that] pc(1) by (intro view_uncached) simp
    moreover have "view lay ?s (src + d) = view lay (load_page hw lay ?p ?s) (src + d)"
      using pc(2) src [OF that] unfolding rom_eq_def in_rom_def by blast
    ultimately show ?thesis using v by simp
  qed
  from chunk_stored [OF hw lay c p this]
  show "stored (view lay s) (view lay u) dst (\<lambda>i. view lay s (src + i)) n" "same_ram lay (mem s) (mem u)"
    "cache_ok u" "same_rest s u" by (simp_all add: u_def)
qed

lemma stored_split:
  assumes "stored m m1 dst data k" "stored m1 m2 (dst + of_nat k) (\<lambda>i. data (of_nat k + i)) j" "k + j \<le> 2 ^ 32"
  shows "stored m m2 dst data (k + j)"
  unfolding stored_def
proof (intro allI impI)
  fix b assume b: "in_rom b"
  have "unat (b - (dst + of_nat k)) < j \<longleftrightarrow> k \<le> unat (b - dst) \<and> unat (b - dst) < k + j"
    using assms(3) by (rule unat_diff_offset)
  moreover have "of_nat k + (b - (dst + of_nat k)) = b - dst" by (simp add: algebra_simps)
  ultimately show "m2 b = (if unat (b - dst) < k + j then data (b - dst) else m b)"
    using assms(1,2) b by (auto simp: stored_def)
qed

lemma same_ram_trans: "same_ram lay m m' \<Longrightarrow> same_ram lay m' m'' \<Longrightarrow> same_ram lay m m''"
  by (simp add: same_ram_def)

lemma same_rest_trans: "same_rest s t \<Longrightarrow> same_rest t u \<Longrightarrow> same_rest s u"
  by (simp add: same_rest_def)

lemma rom_copy:
  assumes hw: "fpec_ok hw" "prompt hw" and lay: "page_buffer lay"
  shows "cache_ok s \<Longrightarrow> unat dst mod 1024 = 0 \<Longrightarrow> 0x08000000 \<le> unat dst \<Longrightarrow> unat dst + n \<le> 0x08010000 \<Longrightarrow>
    unat src + n \<le> unat dst \<Longrightarrow> u = write_loop hw lay dst src (int n) s \<Longrightarrow>
    stored (view lay s) (view lay u) dst (\<lambda>i. view lay s (src + i)) n \<and> same_ram lay (mem s) (mem u) \<and>
    cache_ok u \<and> same_rest s u"
proof (induction n arbitrary: s dst src rule: less_induct)
  case (less n)
  show ?case
  proof (cases "n = 0")
    case True
    then show ?thesis using less.prems by (simp add: write_loop.simps stored_def same_ram_def same_rest_def)
  next
    case False
    define k where "k = min n 1024"
    have k: "0 < k" "k \<le> n" "k \<le> 1024" "n - k < n" using False by (auto simp: k_def)
    define v where "v = write_chunk hw lay dst src k s"
    have unroll: "u = write_loop hw lay (dst + of_nat k) (src + of_nat k) (int (n - k)) v"
      using less.prems(6) False by (subst (asm) write_loop.simps) (auto simp: Let_def k_def v_def min_def of_nat_diff)
    have fa: "FLASH_ADDRESS dst = dst"
      using less.prems(2) by (simp add: word_unat_eq_iff unat_FLASH_ADDRESS) auto
    have page: "rom_page (FLASH_ADDRESS dst)"
    proof -
      have "unat dst < 0x08010000" using less.prems(4) False by simp
      moreover have "unat dst div 1024 * 1024 = unat dst" using less.prems(2) by auto
      moreover have "unat dst div 1024 < 0x20040" using calculation(1) by (simp add: less_mult_imp_div_less)
      ultimately show ?thesis using less.prems(2,3) unfolding fa rom_page_def by linarith
    qed
    have src: "in_rom (src + d) \<and> \<not> unat (src + d - FLASH_ADDRESS dst) < 1024" if "unat d < n" for d
    proof -
      have "src + d = src + of_nat (unat d)" by simp
      then have u: "unat (src + d) = unat src + unat d"
        using unat_add_of_nat [of src "unat d"] less.prems(4,5) that by simp
      then have lt: "src + d < dst" using less.prems(5) that by (simp add: word_less_nat_alt)
      have "unat (src + d - dst) = 2 ^ 32 - unat dst + unat (src + d)" using lt by (rule unat_diff_gr)
      then show ?thesis using u less.prems(4,5) that unfolding fa by (simp add: in_rom_def)
    qed
    have "unat dst mod 1024 + k \<le> 1024" using less.prems(2) k by simp
    from rom_chunk [OF hw lay less.prems(1) page this, of src] src k
    have c: "stored (view lay s) (view lay v) dst (\<lambda>i. view lay s (src + i)) k"
      "same_ram lay (mem s) (mem v)" "cache_ok v" "same_rest s v" by (simp_all add: v_def)
    show ?thesis
    proof (cases "n = k")
      case True
      then have "u = v" unfolding unroll by (simp add: write_loop.simps)
      then show ?thesis using c True by simp
    next
      case more: False
      then have k4: "k = 1024" using k by (simp add: k_def min_def split: if_splits)
      have ud: "unat (dst + of_nat k) = unat dst + k" "unat (src + of_nat k) = unat src + k"
        using less.prems(4,5) k by (auto intro!: unat_add_of_nat simp del: of_nat_numeral)
      have e: "unat (dst + of_nat k) mod 1024 = 0" "0x08000000 \<le> unat (dst + of_nat k)"
        "unat (dst + of_nat k) + (n - k) \<le> 0x08010000" "unat (src + of_nat k) + (n - k) \<le> unat (dst + of_nat k)"
        unfolding ud using less.prems k k4 by auto
      note ih = less.IH [OF k(4) c(3) e unroll]
      have data: "view lay v (src + of_nat k + i) = view lay s (src + (of_nat k + i))" if "unat i < n - k" for i
      proof -
        have ui: "unat (of_nat k + i) < n"
          using that k unat_word_ariths(1) [of "of_nat k" i] by (simp add: unat_of_nat)
        note r = src [OF this]
        then have "\<not> unat (src + (of_nat k + i) - dst) < k" using k fa by auto
        then show ?thesis using c(1) r by (simp add: stored_def add.assoc)
      qed
      have "stored (view lay v) (view lay u) (dst + of_nat k) (\<lambda>i. view lay s (src + (of_nat k + i))) (n - k)"
        by (rule stored_data [OF conjunct1 [OF ih] data])
      from stored_split [OF c(1) this] k less.prems(4) have
        "stored (view lay s) (view lay u) dst (\<lambda>i. view lay s (src + i)) n" by simp
      then show ?thesis using ih c same_ram_trans same_rest_trans by blast
    qed
  qed
qed

section \<open>What flashing leaves alone\<close>

lemma array_more:
  "Dev.more (snd (base_flash_program_array hw lay d a n s)) = Dev.more s" for s :: "'a Fat_scheme"
  by (simp add: base_flash_program_array_def Let_def more_simps)

lemma flush_keeps:
  "Fat.more (flash_flush hw lay s) = Fat.more s" "startup_mode (flash_flush hw lay s) = startup_mode s"
  using fat_more [OF array_more [of hw lay "flashAddr s" "flashBuf lay" 512 "s\<lparr>lastFlush := ms s, firstFlush := False\<rparr>"]]
  by (simp_all add: flash_flush_def Let_def)

lemma chunk_keeps:
  "Fat.more (write_chunk hw lay dst src n s) = Fat.more s" "startup_mode (write_chunk hw lay dst src n s) = startup_mode s"
  by (simp_all add: write_chunk_def Let_def flush_keeps)

lemma loop_keeps:
  "Fat.more (write_loop hw lay dst src n s) = Fat.more s \<and> startup_mode (write_loop hw lay dst src n s) = startup_mode s"
proof (induction hw lay dst src n s rule: write_loop.induct)
  case (1 hw lay dst src n s)
  show ?case
  proof (cases "n > 0")
    case True
    then show ?thesis using 1 by (subst (1 2) write_loop.simps) (simp add: Let_def chunk_keeps)
  next
    case False
    then show ?thesis by (subst (1 2) write_loop.simps) simp
  qed
qed

lemma write_keeps:
  "Fat.more (flash_write hw lay dst src n s) = Fat.more s" "startup_mode (flash_write hw lay dst src n s) = startup_mode s"
  using loop_keeps [of hw lay dst src n s] by (simp_all add: flash_write_def)

lemma hf2_fields:
  assumes "Fat.more s = Fat.more t"
  shows "hf2_pkt s = hf2_pkt t" "bootloader_changed s = bootloader_changed t"
    "remDataToSendLength s = remDataToSendLength t" "restart_request s = restart_request t"
    "new_base_vector s = new_base_vector t" "new_app_start s = new_app_start t"
    "new_bootloader_size s = new_bootloader_size t" "new_baseloader_size s = new_baseloader_size t"
  using assms by (cases s; cases t; simp)+

section \<open>A page arrives\<close>

definition page_message :: "u16 \<Rightarrow> u32 \<Rightarrow> u8 list \<Rightarrow> u8 list" where
  "page_message tag target data = le32 HF2_CMD_WRITE_FLASH_PAGE @ le16 tag @ [0, 0] @ le32 target @ data"

definition reset_message :: "u16 \<Rightarrow> u8 list" where
  "reset_message tag = le32 HF2_CMD_RESET_INTO_APP @ le16 tag @ [0, 0]"

text \<open>The host sends a message, and the packets of the response are taken from the device.\<close>

definition exchange :: "Fpec \<Rightarrow> Layout \<Rightarrow> Buffers \<Rightarrow> u8 list \<Rightarrow> 'a Hf2_scheme \<Rightarrow> 'a Hf2_scheme" where
  "exchange hw lay bufs msg s = hf2_data_tx_cb (fold (hf2_data_rx_cb hw lay bufs) (fragments msg) s)"

definition idle :: "Buffers \<Rightarrow> 'a Hf2_scheme \<Rightarrow> bool" where
  "idle bufs s \<longleftrightarrow> startup_mode s = BOOTLOADER_MODE \<and> (hf2_pkt s = 0 \<or> hf2_pkt s = hf2_buffer bufs) \<and>
     pkt_size (mem s) (hf2_buffer bufs) = 0 \<and> restart_request s = UNKNOWN_MODE \<and> remDataToSendLength s = 0 \<and>
     cache_ok s"

text \<open>The same state but for the buffers of HF2 and what it has sent.\<close>

definition same_flash :: "Buffers \<Rightarrow> 'a Hf2_scheme \<Rightarrow> 'a Hf2_scheme \<Rightarrow> bool" where
  "same_flash bufs s t \<longleftrightarrow>
     (\<forall>b. \<not> in_pkt bufs b \<longrightarrow> \<not> in_rx bufs b \<longrightarrow> mem t b = mem s b) \<and> flashAddr t = flashAddr s \<and>
     FLASH_CR t = FLASH_CR s \<and> startup_mode t = startup_mode s \<and> bootloader_changed t = bootloader_changed s \<and>
     new_base_vector t = new_base_vector s \<and> new_app_start t = new_app_start s \<and>
     new_bootloader_size t = new_bootloader_size s \<and> new_baseloader_size t = new_baseloader_size s \<and>
     restart_request t = restart_request s \<and> remDataToSendLength t = 0 \<and> hf2_pkt t = hf2_buffer bufs"

definition flash_page :: "Fpec \<Rightarrow> Layout \<Rightarrow> u32 \<Rightarrow> u32 \<Rightarrow> 'a Hf2_scheme \<Rightarrow> 'a Hf2_scheme" where
  "flash_page hw lay pkt target s =
     (let (T, t) = place_page hw lay target (find_vector lay target s)
      in if VALID_FLASH_ADDR T 256 \<and> \<not> bootloader_changed t then flash_write hw lay T (cmd_flash_data pkt) 256 t else t)"

lemma held_ld32:
  assumes "held m a xs" "take 4 (drop k xs) = le32 v"
  shows "ld32 m (a + of_nat k) = v"
proof -
  have "length (take 4 (drop k xs)) = 4" by (simp add: assms(2))
  then have "k + 4 \<le> length xs" by simp
  then have "m (a + of_nat (k + j)) = take 4 (drop k xs) ! j" if "j < 4" for j
    using assms(1) [unfolded held_def, rule_format, of "k + j"] that by simp
  from this [of 0] this [of 1] this [of 2] this [of 3] show ?thesis
    unfolding assms(2) by (intro ld32_bytes) (simp_all add: ac_simps)
qed

lemma ack: "send_hf2_response pkt 0 s = s\<lparr>hf2_sent := hf2_sent s @ [tx_packet (mem s) (pkt_buf pkt) 4 HF2_FLAG_CMDPKT_LAST],
    remDataToSendLength := 0\<rparr>"
  using poke_short [of 4 "pkt_buf pkt" s] by (simp add: send_hf2_response_def)

lemma flash_page_keeps:
  "remDataToSendLength (flash_page hw lay pkt target s) = remDataToSendLength s"
  "restart_request (flash_page hw lay pkt target s) = restart_request s"
  "hf2_pkt (flash_page hw lay pkt target s) = hf2_pkt s"
  "startup_mode (flash_page hw lay pkt target s) = startup_mode s"
proof -
  note w = hf2_fields [OF write_keeps(1)] hf2_fields [OF flush_keeps(1)] write_keeps(2) flush_keeps(2)
  have f: "remDataToSendLength (find_vector lay target s) = remDataToSendLength s"
    "restart_request (find_vector lay target s) = restart_request s"
    "hf2_pkt (find_vector lay target s) = hf2_pkt s" "startup_mode (find_vector lay target s) = startup_mode s"
    by (simp_all add: find_vector_def Let_def)
  have p: "remDataToSendLength (snd (place_page hw lay target t)) = remDataToSendLength t"
    "restart_request (snd (place_page hw lay target t)) = restart_request t"
    "hf2_pkt (snd (place_page hw lay target t)) = hf2_pkt t"
    "startup_mode (snd (place_page hw lay target t)) = startup_mode t" for t :: "'a Hf2_scheme"
    by (simp_all add: place_page_def handle_bootloader_update_def Let_def case_prod_beta w)
  show "remDataToSendLength (flash_page hw lay pkt target s) = remDataToSendLength s"
    "restart_request (flash_page hw lay pkt target s) = restart_request s"
    "hf2_pkt (flash_page hw lay pkt target s) = hf2_pkt s"
    "startup_mode (flash_page hw lay pkt target s) = startup_mode s"
    by (simp_all add: flash_page_def case_prod_beta w p f)
qed

lemma held_drop:
  assumes "held m a xs" "\<And>j. k \<le> j \<Longrightarrow> j < length xs \<Longrightarrow> m' (a + of_nat j) = m (a + of_nat j)"
  shows "held m' (a + of_nat k) (drop k xs)"
  unfolding held_def
proof (intro allI impI)
  fix i assume i: "i < length (drop k xs)"
  then have "k \<le> k + i" "k + i < length xs" by auto
  then have "m' (a + of_nat (k + i)) = xs ! (k + i)" using assms unfolding held_def by metis
  then show "m' (a + of_nat k + of_nat i) = drop k xs ! i" using i by (simp add: add.assoc)
qed

lemma other_bytes:
  assumes "2 \<le> j" "j < 1088" shows "st16 a v m (a + of_nat j) = m (a + of_nat j)"
proof -
  have "unat (of_nat j :: u32) = j" using assms(2) by (simp add: unat_of_nat)
  then have "of_nat j \<noteq> (0 :: u32)" "of_nat j \<noteq> (1 :: u32)" using assms(1) by auto
  then show ?thesis by (simp add: st16_def)
qed

text \<open>The acknowledged command: the response lies over its first four bytes.\<close>

definition acknowledged :: "u32 \<Rightarrow> u16 \<Rightarrow> 'a Hf2_scheme \<Rightarrow> 'a Hf2_scheme" where
  "acknowledged pkt tag s = (set_connected s)\<lparr>mem := st16 (pkt_buf pkt + 2) HF2_STATUS_OK (st16 (pkt_buf pkt) tag (mem s))\<rparr>"

lemma acknowledged_fields:
  "mem (set_connected s) = mem s"
  "mem (acknowledged pkt tag s) = st16 (pkt_buf pkt + 2) HF2_STATUS_OK (st16 (pkt_buf pkt) tag (mem s))"
  "flashAddr (acknowledged pkt tag s) = flashAddr s" "FLASH_CR (acknowledged pkt tag s) = FLASH_CR s"
  "startup_mode (acknowledged pkt tag s) = startup_mode s"
  "bootloader_changed (acknowledged pkt tag s) = bootloader_changed s"
  "new_base_vector (acknowledged pkt tag s) = new_base_vector s" "new_app_start (acknowledged pkt tag s) = new_app_start s"
  "new_bootloader_size (acknowledged pkt tag s) = new_bootloader_size s"
  "new_baseloader_size (acknowledged pkt tag s) = new_baseloader_size s"
  "restart_request (acknowledged pkt tag s) = restart_request s" "hf2_pkt (acknowledged pkt tag s) = hf2_pkt s"
  by (simp_all add: acknowledged_def set_connected_def)

lemma acknowledged_far:
  assumes "4 \<le> j" "j < 1088"
  shows "mem (acknowledged pkt tag s) (pkt_buf pkt + of_nat j) = mem s (pkt_buf pkt + of_nat j)"
proof -
  have "pkt_buf pkt + of_nat j = pkt_buf pkt + 2 + of_nat (j - 2)" using assms by (simp add: of_nat_diff)
  then show ?thesis
    using other_bytes [of "j - 2" "pkt_buf pkt + 2"] other_bytes [of j "pkt_buf pkt"] assms
    by (simp only: acknowledged_fields)
qed

lemma acknowledged_outside:
  assumes "buffers_ok lay bufs" "\<not> in_pkt bufs b"
  shows "mem (acknowledged (hf2_buffer bufs) tag s) b = mem s b"
proof -
  have "b \<noteq> hf2_buffer bufs + of_nat j" if "j < 1090" for j
    using assms(2) that by (auto simp: in_pkt_def unat_of_nat)
  from this [of 2] this [of 3] this [of 4] this [of 5] show ?thesis
    by (simp add: acknowledged_fields st16_def pkt_buf_def ac_simps)
qed

lemma tx_idle: "remDataToSendLength s = 0 \<Longrightarrow> restart_request s = UNKNOWN_MODE \<Longrightarrow> hf2_data_tx_cb s = s"
  by (simp add: hf2_data_tx_cb_def)

lemma message_exchange:
  assumes "buffers_ok lay bufs" "idle bufs s" "length msg \<le> 1088"
  obtains m where "held m (pkt_buf (hf2_buffer bufs)) msg"
    "\<forall>b. \<not> in_pkt bufs b \<longrightarrow> \<not> in_rx bufs b \<longrightarrow> m b = mem s b"
    "exchange hw lay bufs msg s
       = hf2_data_tx_cb (handled hw lay (hf2_buffer bufs) (s\<lparr>hf2_pkt := hf2_buffer bufs, mem := m\<rparr>))"
proof -
  have "held (mem s) (pkt_buf (hf2_buffer bufs)) []" by (simp add: held_def)
  from receive_fragments [OF assms(1) _ _ this, of msg hw] assms(2,3)
  obtain m where m: "fold (hf2_data_rx_cb hw lay bufs) (fragments msg) s =
      handled hw lay (hf2_buffer bufs) (s\<lparr>hf2_pkt := hf2_buffer bufs, mem := m\<rparr>)"
    "held m (pkt_buf (hf2_buffer bufs)) msg" "\<forall>b. \<not> in_pkt bufs b \<longrightarrow> \<not> in_rx bufs b \<longrightarrow> m b = mem s b"
    unfolding idle_def by auto
  show ?thesis by (rule that [OF m(2,3)]) (simp add: exchange_def m(1))
qed

lemma page_exchange:
  assumes bufs: "buffers_ok lay bufs" and s: "idle bufs s" and len: "length data = 256"
  obtains u where "same_flash bufs s u" "held (mem u) (cmd_flash_data (hf2_buffer bufs)) data"
    "exchange hw lay bufs (page_message tag target data) s =
       (let t = flash_page hw lay (hf2_buffer bufs) target u in t\<lparr>mem := st16 (hf2_buffer bufs) 0 (mem t)\<rparr>)"
proof -
  let ?pkt = "hf2_buffer bufs" and ?msg = "page_message tag target data"
  have l: "length ?msg = 268" using len by (simp add: page_message_def le16_def)
  then have "length ?msg \<le> 1088" by simp
  then obtain m where m: "held m (pkt_buf ?pkt) ?msg" "\<forall>b. \<not> in_pkt bufs b \<longrightarrow> \<not> in_rx bufs b \<longrightarrow> m b = mem s b"
    and ex: "exchange hw lay bufs ?msg s = hf2_data_tx_cb (handled hw lay ?pkt (s\<lparr>hf2_pkt := ?pkt, mem := m\<rparr>))"
    using message_exchange [OF bufs s] by blast
  let ?s = "s\<lparr>hf2_pkt := ?pkt, mem := m\<rparr>"
  define x where "x = acknowledged ?pkt (cmd_tag m ?pkt) ?s"
  define u where "u = send_hf2_response ?pkt 0 x"
  have u: "mem u = mem x" "flashAddr u = flashAddr x" "FLASH_CR u = FLASH_CR x" "startup_mode u = startup_mode x"
    "bootloader_changed u = bootloader_changed x" "new_base_vector u = new_base_vector x"
    "new_app_start u = new_app_start x" "new_bootloader_size u = new_bootloader_size x"
    "new_baseloader_size u = new_baseloader_size x" "restart_request u = restart_request x" "hf2_pkt u = hf2_pkt x"
    "remDataToSendLength u = 0" by (simp_all add: u_def ack)
  have "mem x (pkt_buf ?pkt + of_nat j) = m (pkt_buf ?pkt + of_nat j)" if "8 \<le> j" "j < 268" for j
    using acknowledged_far [of j ?pkt "cmd_tag m ?pkt" ?s] that by (simp add: x_def)
  then have h: "held (mem x) (pkt_buf ?pkt + of_nat 8) (drop 8 ?msg)" "held (mem x) (pkt_buf ?pkt + of_nat 12) (drop 12 ?msg)"
    using l by (intro held_drop [OF m(1)]; simp)+
  have d: "drop 8 ?msg = le32 target @ data" "drop 12 ?msg = data"
    by (simp_all add: page_message_def le16_def)
  have tgt: "cmd_target_addr (mem x) ?pkt = target"
    using held_ld32 [OF h(1), of 0 target] d(1) by (simp add: cmd_target_addr_def)
  have id: "cmd_command_id m ?pkt = HF2_CMD_WRITE_FLASH_PAGE"
    using held_ld32 [OF m(1), of 0] by (simp add: cmd_command_id_def page_message_def)
  have mode: "startup_mode x = BOOTLOADER_MODE" using s by (simp add: x_def acknowledged_fields idle_def)
  have "handle_command hw lay ?pkt ?s = handle_flash_write hw lay ?pkt x"
    using mode id
    by (simp add: handle_command_def Let_def acknowledged_fields(1) hf2_commands boot_target_get_startup_mode_def
        x_def acknowledged_def)
  also have "\<dots> = flash_page hw lay ?pkt target u"
    by (simp add: handle_flash_write_def tgt Let_def u_def [symmetric] flash_page_def HF2_PAGE_SIZE_def case_prod_beta)
  finally have hc: "handle_command hw lay ?pkt ?s = flash_page hw lay ?pkt target u" .
  have rest: "remDataToSendLength (flash_page hw lay ?pkt target u) = 0"
    "restart_request (flash_page hw lay ?pkt target u) = UNKNOWN_MODE"
    using s by (simp_all add: flash_page_keeps u x_def acknowledged_fields idle_def)
  have "exchange hw lay bufs ?msg s =
      (let t = flash_page hw lay ?pkt target u in t\<lparr>mem := st16 ?pkt 0 (mem t)\<rparr>)"
    unfolding ex handled_def hc Let_def using rest by (intro tx_idle) simp_all
  moreover have "same_flash bufs s u"
    using m(2) acknowledged_outside [OF bufs, of _ "cmd_tag m ?pkt" ?s]
    by (simp add: same_flash_def u x_def acknowledged_fields(3-))
  moreover have "held (mem u) (cmd_flash_data ?pkt) data"
    using h(2) d(2) by (simp add: u(1) cmd_flash_data_def)
  ultimately show ?thesis using that by blast
qed

lemma rom_not_hf2:
  assumes "buffers_ok lay bufs" "in_rom b \<or> in_buffer lay b"
  shows "\<not> in_pkt bufs b" "\<not> in_rx bufs b"
  using assms free_ram_byte [of lay "hf2_buffer bufs" 1090 b] free_ram_byte [of lay "hf2_rx_buf bufs" 64 b]
  by (auto simp: buffers_ok_def in_pkt_def in_rx_def)

lemma cached_in_buffer: "unat (b - p) < 1024 \<Longrightarrow> in_buffer lay (flashBuf lay + (b - p))"
  by (simp add: in_buffer_def)

lemma view_rom_cong:
  assumes "\<And>b. in_rom b \<or> in_buffer lay b \<Longrightarrow> mem t b = mem s b" "flashAddr t = flashAddr s" "in_rom b"
  shows "view lay t b = view lay s b"
  using assms cached_in_buffer [of b "flashAddr s" lay] by (auto simp: view_def)

lemma same_flash_rom:
  assumes "buffers_ok lay bufs" "same_flash bufs s u"
  shows "in_rom b \<or> in_buffer lay b \<Longrightarrow> mem u b = mem s b" and "in_rom b \<Longrightarrow> view lay u b = view lay s b"
proof -
  have m: "mem u b = mem s b" if "in_rom b \<or> in_buffer lay b" for b
    using rom_not_hf2 [OF assms(1) that] assms(2) by (simp add: same_flash_def)
  show "in_rom b \<or> in_buffer lay b \<Longrightarrow> mem u b = mem s b" by (rule m)
  show "in_rom b \<Longrightarrow> view lay u b = view lay s b"
    by (rule view_rom_cong) (use m assms(2) in \<open>auto simp: same_flash_def\<close>)
qed

lemma clear_pkt:
  assumes "buffers_ok lay bufs" and t'_def: "t' = t\<lparr>mem := st16 (hf2_buffer bufs) 0 (mem t)\<rparr>"
  shows "in_rom b \<or> in_buffer lay b \<Longrightarrow> mem t' b = mem t b" and "in_rom b \<Longrightarrow> view lay t' b = view lay t b"
    and "pkt_size (mem t') (hf2_buffer bufs) = 0"
proof -
  have m: "mem t' b = mem t b" if "in_rom b \<or> in_buffer lay b" for b
  proof -
    have "\<not> in_pkt bufs b" using rom_not_hf2 [OF assms(1) that] by simp
    then have "b \<noteq> hf2_buffer bufs" "b \<noteq> hf2_buffer bufs + 1" by (auto simp: in_pkt_def)
    then show ?thesis by (simp add: t'_def st16_def)
  qed
  show "in_rom b \<or> in_buffer lay b \<Longrightarrow> mem t' b = mem t b" by (rule m)
  show "in_rom b \<Longrightarrow> view lay t' b = view lay t b"
    by (rule view_rom_cong) (use m in \<open>auto simp: t'_def\<close>)
  show "pkt_size (mem t') (hf2_buffer bufs) = 0" by (simp add: t'_def pkt_size_def)
qed

section \<open>Images\<close>

definition old_start :: "Layout \<Rightarrow> u32" where
  "old_start lay = FLASH_ADDRESS (application_start lay)"

text \<open>The image as it will lie in memory, and its Base Vector Table.\<close>

definition image_mem :: "u8 list \<Rightarrow> memory" where
  "image_mem img = (\<lambda>a. img ! unat (a - FLASH_BASE))"

definition image_table :: "Layout \<Rightarrow> u32" where
  "image_table lay = BASE_VECTOR_TABLE (base_vector_table lay) FLASH_BASE"

definition baseloader_size :: "Layout \<Rightarrow> u8 list \<Rightarrow> u32" where
  "baseloader_size lay img = vector_baseloader_end (image_mem img) (image_table lay) - FLASH_BASE"

text \<open>A bootloader image: whole pages, a valid table whose application starts at its end, and a Baseloader that with the table
  is a part of it; it fits behind the start of the application together with the copy of the Baseloader.\<close>

definition bootloader_image :: "Layout \<Rightarrow> u8 list \<Rightarrow> bool" where
  "bootloader_image lay img \<longleftrightarrow> 2048 \<le> length img \<and> length img mod 1024 = 0 \<and>
     IS_VALID_BASE_VECTOR_TABLE (image_mem img) (base_vector_table lay) FLASH_BASE \<and>
     unat (FLASH_ADDRESS (vector_application (image_mem img) (image_table lay))) = 0x08000000 + length img \<and>
     unat (base_vector_table lay AND 1023) + 24 \<le> unat (baseloader_size lay img) \<and>
     unat (baseloader_size lay img) \<le> length img \<and>
     unat (application_start lay) + length img + max 1024 (unat (baseloader_size lay img)) < 0x08010000"

text \<open>The running bootloader: its table is below the application and names it.\<close>

definition running :: "Layout \<Rightarrow> memory \<Rightarrow> bool" where
  "running lay m \<longleftrightarrow> vector_application m (base_vector_table lay) = application_start lay \<and>
     unat (base_vector_table lay) + 24 \<le> unat (old_start lay) \<and> 0x08000800 \<le> unat (old_start lay) \<and>
     unat (base_vector_table lay AND 1023) + 24 \<le> 1024"

lemma shifted_word:
  assumes "\<And>j. j < n \<Longrightarrow> m (a + of_nat j) = m' (b + of_nat j)" "k + 4 \<le> n"
  shows "ld32 m (a + of_nat k) = ld32 m' (b + of_nat k)"
proof -
  have "m (a + of_nat k + of_nat i) = m' (b + of_nat k + of_nat i)" if "i < 4" for i
    using assms(1) [of "k + i"] assms(2) that by (simp add: add.assoc)
  from this [of 0] this [of 1] this [of 2] this [of 3] show ?thesis
    by (simp add: ld32_def ld16_def add.assoc)
qed

lemma shifted_table:
  assumes "\<And>j. j < 24 \<Longrightarrow> m (t + of_nat j) = m' (t' + of_nat j)"
  shows "vector_magic_number m t = vector_magic_number m' t'" "vector_baseloader m t = vector_baseloader m' t'"
    "vector_baseloader_end m t = vector_baseloader_end m' t'" "vector_application m t = vector_application m' t'"
    "vector_magic_number2 m t = vector_magic_number2 m' t'"
  using shifted_word [of 24 m t m' t' 0, OF assms] shifted_word [of 24 m t m' t' 8, OF assms]
    shifted_word [of 24 m t m' t' 12, OF assms] shifted_word [of 24 m t m' t' 16, OF assms]
    shifted_word [of 24 m t m' t' 20, OF assms]
  by (simp_all add: vector_magic_number_def vector_baseloader_def vector_baseloader_end_def vector_application_def
      vector_magic_number2_def)

lemma old_page: "FLASH_ADDRESS (old_start lay) = old_start lay" "unat (old_start lay) mod 1024 = 0"
  by (simp_all add: old_start_def word_unat_eq_iff unat_FLASH_ADDRESS)

lemma old_below: "unat (old_start lay) \<le> unat (application_start lay)"
  by (simp add: old_start_def unat_FLASH_ADDRESS)

lemma staged_address:
  assumes "bootloader_image lay img" "n \<le> length img + max 1024 (unat (baseloader_size lay img))"
  shows "unat (old_start lay + of_nat n) = unat (old_start lay) + n" "unat (old_start lay) + n < 0x08010000"
proof -
  show lt: "unat (old_start lay) + n < 0x08010000" using assms old_below [of lay] by (simp add: bootloader_image_def)
  then show "unat (old_start lay + of_nat n) = unat (old_start lay) + n" by (intro unat_add_of_nat) simp
qed

lemma image_room:
  assumes "bootloader_image lay img"
  shows "unat (old_start lay) + length img + 1024 < 0x08010000"
    "unat (old_start lay) + length img + unat (baseloader_size lay img) < 0x08010000"
  using assms old_below [of lay] unfolding bootloader_image_def by linarith+

text \<open>The table in a page that holds the first page of the image.\<close>

lemma page_table:
  assumes "unat (base_vector_table lay AND 1023) + 24 \<le> 1024" "FLASH_ADDRESS p = p"
    and "\<And>j. j < unat (base_vector_table lay AND 1023) + 24 \<Longrightarrow> m (p + of_nat j) = img ! j"
  defines "t \<equiv> BASE_VECTOR_TABLE (base_vector_table lay) p"
  shows "vector_magic_number m t = vector_magic_number (image_mem img) (image_table lay)"
    "vector_baseloader m t = vector_baseloader (image_mem img) (image_table lay)"
    "vector_baseloader_end m t = vector_baseloader_end (image_mem img) (image_table lay)"
    "vector_application m t = vector_application (image_mem img) (image_table lay)"
    "vector_magic_number2 m t = vector_magic_number2 (image_mem img) (image_table lay)"
proof -
  let ?o = "unat (base_vector_table lay AND 1023)"
  have o: "base_vector_table lay AND 1023 = of_nat ?o" by simp
  have fb: "FLASH_ADDRESS FLASH_BASE = FLASH_BASE"
    by (simp add: word_unat_eq_iff unat_FLASH_ADDRESS FLASH_BASE_def)
  have t: "t = p + of_nat ?o" "image_table lay = FLASH_BASE + of_nat ?o"
    by (simp_all add: t_def image_table_def BASE_VECTOR_TABLE_def FLASH_PAGE_SIZE_def assms(2) fb)
  have "m (t + of_nat j) = image_mem img (image_table lay + of_nat j)" if "j < 24" for j
  proof -
    have "t + of_nat j = p + of_nat (?o + j)" "image_table lay + of_nat j = FLASH_BASE + of_nat (?o + j)"
      by (simp_all add: t add.assoc)
    moreover have "unat (of_nat (?o + j) :: u32) = ?o + j"
      using assms(1) that by (subst unat_of_nat) simp
    ultimately show ?thesis using assms(3) [of "?o + j"] that by (simp add: image_mem_def add.assoc)
  qed
  from shifted_table [of m t "image_mem img" "image_table lay", OF this]
  show "vector_magic_number m t = vector_magic_number (image_mem img) (image_table lay)"
    "vector_baseloader m t = vector_baseloader (image_mem img) (image_table lay)"
    "vector_baseloader_end m t = vector_baseloader_end (image_mem img) (image_table lay)"
    "vector_application m t = vector_application (image_mem img) (image_table lay)"
    "vector_magic_number2 m t = vector_magic_number2 (image_mem img) (image_table lay)" by simp_all
qed

section \<open>Staging\<close>

text \<open>The first \<open>n\<close> bytes of the image are where the application was; \<open>rom\<close> is the ROM before.\<close>

definition staged_bytes :: "Layout \<Rightarrow> u8 list \<Rightarrow> memory \<Rightarrow> nat \<Rightarrow> memory" where
  "staged_bytes lay img rom n = (\<lambda>b. if unat (b - old_start lay) < n then img ! unat (b - old_start lay) else rom b)"

definition vectors :: "Layout \<Rightarrow> u8 list \<Rightarrow> bool \<Rightarrow> 'a Hf2_scheme \<Rightarrow> bool" where
  "vectors lay img found s \<longleftrightarrow> \<not> bootloader_changed s \<and>
     (if found then new_base_vector s = BASE_VECTOR_TABLE (base_vector_table lay) (old_start lay) \<and>
        new_app_start s = FLASH_BASE + of_nat (length img) \<and> new_bootloader_size s = of_nat (length img) \<and>
        new_baseloader_size s = baseloader_size lay img
      else new_base_vector s = 0 \<and> new_app_start s = old_start lay)"

text \<open>After \<open>k\<close> pages of 256 bytes. The ROM page of the table is written with the fifth, and the table found with the sixth.\<close>

definition staging :: "Layout \<Rightarrow> Buffers \<Rightarrow> u8 list \<Rightarrow> memory \<Rightarrow> nat \<Rightarrow> 'a Hf2_scheme \<Rightarrow> bool" where
  "staging lay bufs img rom k s \<longleftrightarrow> idle bufs s \<and>
     (\<forall>b. in_rom b \<longrightarrow> view lay s b = staged_bytes lay img rom (256 * k) b) \<and>
     (k \<le> 4 \<longrightarrow> (\<forall>b. in_rom b \<longrightarrow> mem s b = rom b)) \<and>
     flashAddr s = (if k = 0 then NO_CACHE else FLASH_ADDRESS (old_start lay + of_nat (256 * (k - 1)))) \<and>
     (0 < k \<longrightarrow> vectors lay img (5 < k) s)"

lemma unat_above: "\<not> unat (b - p) < n" if "unat b < unat p" "n + unat p \<le> 4294967296" for b p :: u32
proof -
  have "unat (b - p) = 2 ^ 32 - unat p + unat b" using that(1) by (intro unat_diff_gr) (simp add: word_less_nat_alt)
  then show ?thesis using that(2) by simp
qed

lemma staged_page:
  assumes img: "bootloader_image lay img" and k: "256 * k < length img + 1024"
  shows "unat (FLASH_ADDRESS (old_start lay + of_nat (256 * k))) = unat (old_start lay) + 256 * k div 1024 * 1024"
proof -
  have "256 * k \<le> length img + max 1024 (unat (baseloader_size lay img))" using k by simp
  then have "unat (old_start lay + of_nat (256 * k)) = unat (old_start lay) + 256 * k"
    using staged_address(1) [OF img] by blast
  moreover have "(unat (old_start lay) + 256 * k) div 1024 * 1024 = unat (old_start lay) + 256 * k div 1024 * 1024"
  proof -
    obtain q where "unat (old_start lay) = 1024 * q" using old_page(2) [of lay] by (metis mod_0_imp_dvd dvdE)
    then show ?thesis by simp
  qed
  ultimately show ?thesis by (simp add: unat_FLASH_ADDRESS)
qed

text \<open>What the table lookups read while the image is being staged.\<close>

lemma staging_low:
  assumes img: "bootloader_image lay img" and st: "staging lay bufs img rom k s"
    and k: "256 * k \<le> length img" and b: "unat b < unat (old_start lay)"
  shows "mem s b = rom b"
proof -
  have o: "unat (old_start lay) + length img < 0x08010000" using staged_address(2) [OF img, of "length img"] by simp
  have rb: "in_rom b" using b o by (simp add: in_rom_def)
  show ?thesis
  proof (cases "k \<le> 4")
    case True
    then show ?thesis using st rb by (simp add: staging_def)
  next
    case False
    have "unat (flashAddr s) = unat (old_start lay) + 256 * (k - 1) div 1024 * 1024"
      using st False staged_page [OF img, of "k - 1"] k by (simp add: staging_def)
    moreover have "256 * (k - 1) div 1024 * 1024 \<le> 256 * (k - 1)" by (rule div_times_less_eq_dividend)
    ultimately have "unat b < unat (flashAddr s)" "1024 + unat (flashAddr s) \<le> 4294967296"
      using b o k by linarith+
    then have "view lay s b = mem s b" using unat_above by (intro view_uncached) blast
    moreover have "\<not> unat (b - old_start lay) < 256 * k" using b o k by (intro unat_above) simp_all
    ultimately show ?thesis using st rb by (simp add: staging_def staged_bytes_def)
  qed
qed

lemma table_in_page:
  assumes "unat (base_vector_table lay AND 1023) + 24 \<le> 1024" "unat (old_start lay) + 1024 \<le> 0x08010000" "j < 24"
  shows "BASE_VECTOR_TABLE (base_vector_table lay) (old_start lay) + of_nat j
      = old_start lay + of_nat (unat (base_vector_table lay AND 1023) + j)"
    and "in_rom (BASE_VECTOR_TABLE (base_vector_table lay) (old_start lay) + of_nat j)"
proof -
  let ?o = "unat (base_vector_table lay AND 1023)"
  show e: "BASE_VECTOR_TABLE (base_vector_table lay) (old_start lay) + of_nat j = old_start lay + of_nat (?o + j)"
    by (simp add: BASE_VECTOR_TABLE_def FLASH_PAGE_SIZE_def old_page add.assoc)
  have "unat (old_start lay + of_nat (?o + j)) = unat (old_start lay) + (?o + j)"
    using assms by (intro unat_add_of_nat) simp
  then show "in_rom (BASE_VECTOR_TABLE (base_vector_table lay) (old_start lay) + of_nat j)"
    unfolding e in_rom_def using assms by linarith
qed

lemma valid_cong:
  assumes "\<And>j. j < 24 \<Longrightarrow> m (BASE_VECTOR_TABLE t x + of_nat j) = m' (BASE_VECTOR_TABLE t x + of_nat j)"
  shows "IS_VALID_BASE_VECTOR_TABLE m t x = IS_VALID_BASE_VECTOR_TABLE m' t x"
  using shifted_table [of m "BASE_VECTOR_TABLE t x" m' "BASE_VECTOR_TABLE t x", OF assms]
  by (simp add: IS_VALID_BASE_VECTOR_TABLE_def)

lemma running_table:
  assumes "running lay rom" "unat (old_start lay) < 0x08010000"
    and "\<And>b. unat b < unat (old_start lay) \<Longrightarrow> m b = rom b"
  shows "vector_application m (base_vector_table lay) = application_start lay"
proof -
  have "m (base_vector_table lay + of_nat j) = rom (base_vector_table lay + of_nat j)" if "j < 24" for j
  proof -
    have "unat (base_vector_table lay + of_nat j) = unat (base_vector_table lay) + j"
      using assms(1,2) that by (intro unat_add_of_nat) (simp add: running_def)
    then show ?thesis using assms(1,3) that by (simp add: running_def)
  qed
  from shifted_table(4) [of m "base_vector_table lay" rom "base_vector_table lay", OF this] assms(1)
  show ?thesis by (simp add: running_def)
qed

lemma staging_vector:
  assumes bufs: "buffers_ok lay bufs" and img: "bootloader_image lay img" and run: "running lay rom"
    and fresh: "\<not> IS_VALID_BASE_VECTOR_TABLE rom (base_vector_table lay) (old_start lay)"
    and st: "staging lay bufs img rom k s" and u: "same_flash bufs s u" and k: "256 * k \<le> length img"
  defines "v \<equiv> find_vector lay (FLASH_BASE + of_nat (256 * k)) u"
  shows "vectors lay img (4 < k) v" and "vector_application (mem u) (base_vector_table lay) = application_start lay"
proof -
  let ?t = "base_vector_table lay" and ?old = "old_start lay"
  have o: "unat ?old + length img + 1024 < 0x08010000" using image_room(1) [OF img] .
  have low: "mem u b = rom b" if "unat b < unat ?old" for b
    using staging_low [OF img st k that] same_flash_rom(1) [OF bufs u, of b] that o by (simp add: in_rom_def)
  show app: "vector_application (mem u) ?t = application_start lay"
    by (rule running_table [OF run _ low]) (use o in simp)
  have fa: "FLASH_ADDRESS (application_start lay) = ?old" by (simp add: old_start_def)
  have nz: "?old \<noteq> 0" "FLASH_BASE + of_nat (length img) \<noteq> 0"
  proof -
    show "?old \<noteq> 0" using run by (auto simp: running_def)
    have "unat (FLASH_BASE + of_nat (length img)) = 0x08000000 + length img"
      using unat_add_of_nat [of FLASH_BASE "length img"] o by (simp add: FLASH_BASE_def)
    then show "FLASH_BASE + of_nat (length img) \<noteq> 0" by auto
  qed
  have tgt: "FLASH_BASE + of_nat (256 * k) = FLASH_BASE \<longleftrightarrow> k = 0"
  proof -
    have "unat (of_nat (256 * k) :: u32) = 256 * k" using k o by (subst unat_of_nat) simp
    then show ?thesis by (auto simp del: of_nat_mult)
  qed
  have off: "unat (?t AND 1023) + 24 \<le> 1024" using run by (simp add: running_def)
  have old1024: "unat ?old + 1024 \<le> 0x08010000" using o by simp
  note tp = table_in_page [OF off old1024]
  have invalid: "\<not> IS_VALID_BASE_VECTOR_TABLE (mem u) ?t ?old" if "k \<le> 4"
  proof -
    have "mem u (BASE_VECTOR_TABLE ?t ?old + of_nat j) = rom (BASE_VECTOR_TABLE ?t ?old + of_nat j)" if "j < 24" for j
      using same_flash_rom(1) [OF bufs u] st tp(2) [OF that] \<open>k \<le> 4\<close> by (simp add: staging_def)
    from valid_cong [of "mem u" ?t ?old rom, OF this] fresh show ?thesis by simp
  qed
  have fields: "new_base_vector u = new_base_vector s" "new_app_start u = new_app_start s"
    "new_bootloader_size u = new_bootloader_size s" "new_baseloader_size u = new_baseloader_size s"
    "bootloader_changed u = bootloader_changed s" using u by (simp_all add: same_flash_def)
  have vs: "0 < k \<Longrightarrow> vectors lay img (5 < k) s" using st by (simp add: staging_def)
  consider "k = 0" | "0 < k" "k \<le> 4" | "k = 5" | "5 < k" by linarith
  then show "vectors lay img (4 < k) v"
  proof cases
    case 1
    then show ?thesis using invalid by (simp add: v_def find_vector_def Let_def app fa vectors_def)
  next
    case 2
    then have "new_base_vector s = 0" "new_app_start s = ?old" "\<not> bootloader_changed s"
      using vs by (simp_all add: vectors_def)
    then show ?thesis using 2 invalid tgt nz by (simp add: v_def find_vector_def Let_def app fa vectors_def fields)
  next
    case 3
    then have vs5: "new_base_vector s = 0" "new_app_start s = ?old" "\<not> bootloader_changed s"
      using vs by (simp_all add: vectors_def)
    have page: "mem u (?old + of_nat j) = img ! j" if "j < unat (?t AND 1023) + 24" for j
    proof -
      have uj: "unat (?old + of_nat j) = unat ?old + j" "j < 1024" using that off o by (auto intro: unat_add_of_nat)
      then have rb: "in_rom (?old + of_nat j)" using o by (simp add: in_rom_def)
      have "256 * 4 < length img + 1024" using k 3 by linarith
      then have "unat (flashAddr s) = unat ?old + 1024"
        using st 3 staged_page [OF img, of 4] by (simp add: staging_def)
      then have "view lay s (?old + of_nat j) = mem s (?old + of_nat j)"
        using uj o by (intro view_uncached disjI2 unat_above) simp_all
      moreover have "unat (?old + of_nat j - ?old) = j" using uj(2) by (simp add: unat_of_nat)
      ultimately show ?thesis
        using same_flash_rom(1) [OF bufs u, of "?old + of_nat j"] st rb 3 uj(2) by (simp add: staging_def staged_bytes_def)
    qed
    note pt = page_table [OF off old_page(1) page]
    have "IS_VALID_BASE_VECTOR_TABLE (mem u) ?t ?old"
      using img by (simp add: IS_VALID_BASE_VECTOR_TABLE_def bootloader_image_def pt(1,5) image_table_def)
    moreover have "FLASH_ADDRESS (vector_application (image_mem img) (image_table lay)) = FLASH_BASE + of_nat (length img)"
      using img o by (simp add: bootloader_image_def word_unat_eq_iff FLASH_BASE_def unat_word_ariths(1) unat_of_nat)
    ultimately show ?thesis
      using 3 vs5 tgt nz
      by (simp add: v_def find_vector_def Let_def app fa vectors_def fields pt(3,4) baseloader_size_def)
  next
    case 4
    have "BASE_VECTOR_TABLE ?t ?old \<noteq> 0"
    proof -
      have "unat (BASE_VECTOR_TABLE ?t ?old) = unat ?old + unat (?t AND 1023)"
        using tp(1) [of 0] unat_add_of_nat [of ?old "unat (?t AND 1023)"] off o by simp
      then show ?thesis using run by (auto simp: running_def)
    qed
    then show ?thesis
      using 4 vs tgt nz by (simp add: v_def find_vector_def Let_def app fa vectors_def fields)
  qed
qed

lemma chunk_no_flush:
  assumes lay: "page_buffer lay" and p: "flashAddr s = NO_CACHE \<or> flashAddr s = FLASH_ADDRESS dst"
    and n: "unat dst mod 1024 + n \<le> 1024" and b: "in_rom b"
  shows "mem (write_chunk hw lay dst src n s) b = mem s b"
proof -
  have ok: "dst AND (FLASH_PAGE_SIZE - 1) = of_nat (unat dst mod 1024)"
    unfolding dst_parts(3) [symmetric] by simp
  have "\<not> unat (b - (flashBuf lay + (dst AND (FLASH_PAGE_SIZE - 1)))) < n" "\<not> unat (b - flashBuf lay) < 1024"
    using rom_apart [OF lay b n] rom_apart [OF lay b, of 0 1024] unfolding ok by simp_all
  then show ?thesis
    using p by (auto simp: write_chunk_def Let_def dst_parts(1) memcpy_def flash_flush_def)
qed

lemma find_vector_keeps:
  "mem (find_vector lay target s) = mem s" "flashAddr (find_vector lay target s) = flashAddr s"
  "FLASH_CR (find_vector lay target s) = FLASH_CR s"
  by (simp_all add: find_vector_def Let_def)

lemma staging_step:
  assumes hw: "fpec_ok hw" "prompt hw" and lay: "page_buffer lay"
    and bufs: "buffers_ok lay bufs" and img: "bootloader_image lay img" and run: "running lay rom"
    and fresh: "\<not> IS_VALID_BASE_VECTOR_TABLE rom (base_vector_table lay) (old_start lay)"
    and st: "staging lay bufs img rom k s" and k: "256 * k < length img"
  shows "staging lay bufs img rom (Suc k)
    (exchange hw lay bufs (page_message tag (FLASH_BASE + of_nat (256 * k)) (take 256 (drop (256 * k) img))) s)"
proof -
  let ?old = "old_start lay" and ?pkt = "hf2_buffer bufs" and ?data = "take 256 (drop (256 * k) img)"
  let ?T = "FLASH_BASE + of_nat (256 * k)" and ?D = "old_start lay + of_nat (256 * k)"
  have o: "unat ?old + length img + 1024 < 0x08010000" using image_room(1) [OF img] .
  have o2: "0x08000800 \<le> unat ?old" using run by (simp add: running_def)
  have k2: "256 * k + 256 \<le> length img"
  proof -
    have "length img mod 1024 = 0" using img by (simp add: bootloader_image_def)
    then obtain q where "length img = 1024 * q" by (metis mod_0_imp_dvd dvdE)
    then have q: "length img = 256 * (4 * q)" by simp
    then have "k < 4 * q" using k by (simp only: mult_less_cancel1)
    then have "256 * Suc k \<le> 256 * (4 * q)" by (intro mult_le_mono2 Suc_leI)
    then show ?thesis unfolding q by simp
  qed
  then have dl: "length ?data = 256" by simp
  have idle: "idle bufs s" using st by (simp add: staging_def)
  obtain u where u: "same_flash bufs s u" and h: "held (mem u) (cmd_flash_data ?pkt) ?data"
    and ex: "exchange hw lay bufs (page_message tag ?T ?data) s =
       (let t = flash_page hw lay ?pkt ?T u in t\<lparr>mem := st16 ?pkt 0 (mem t)\<rparr>)"
    using page_exchange [OF bufs idle dl] by blast
  define v where "v = find_vector lay ?T u"
  have v: "mem v = mem u" "flashAddr v = flashAddr u" "FLASH_CR v = FLASH_CR u"
    by (simp_all add: v_def find_vector_keeps)
  note sv = staging_vector [OF bufs img run fresh st u less_imp_le [OF k], folded v_def]
  have uT: "unat ?T = 0x08000000 + 256 * k"
    using unat_add_of_nat [of FLASH_BASE "256 * k"] k2 o by (simp add: FLASH_BASE_def)
  have uD: "unat ?D = unat ?old + 256 * k" using k2 o by (intro unat_add_of_nat) simp
  have lt: "?T < new_app_start v"
  proof (cases "4 < k")
    case True
    then have "unat (new_app_start v) = 0x08000000 + length img"
      using sv(1) o unat_add_of_nat [of FLASH_BASE "length img"] by (simp add: vectors_def FLASH_BASE_def)
    then show ?thesis using uT k by (simp add: word_less_nat_alt)
  next
    case False
    then have "new_app_start v = ?old" using sv(1) by (simp add: vectors_def)
    then show ?thesis using uT o2 False by (simp add: word_less_nat_alt)
  qed
  have off: "?T + (?old - FLASH_BASE) = ?D" by simp
  have "place_page hw lay ?T v = (?D, v)"
    using lt sv(2) off unfolding place_page_def Let_def v(1) by (simp add: old_start_def)
  moreover have "VALID_FLASH_ADDR ?D 256"
  proof -
    have "unat (?D + of_nat 256) = unat ?D + 256" using uD k2 o by (intro unat_add_of_nat) simp
    then show ?thesis using uD k2 o o2
      by (simp add: VALID_FLASH_ADDR_def USER_FLASH_END_def FLASH_SIZE_OVERRIDE_def FLASH_BASE_def word_le_nat_alt)
  qed
  moreover have "\<not> bootloader_changed v" using sv(1) by (simp add: vectors_def)
  ultimately have fp: "flash_page hw lay ?pkt ?T u = flash_write hw lay ?D (cmd_flash_data ?pkt) 256 v"
    by (simp add: flash_page_def v_def)
  define w where "w = flash_write hw lay ?D (cmd_flash_data ?pkt) 256 v"
  define t where "t = w\<lparr>mem := st16 ?pkt 0 (mem w)\<rparr>"
  have ext: "exchange hw lay bufs (page_message tag ?T ?data) s = t"
    unfolding ex fp w_def t_def Let_def by (rule refl)
  have cv: "cache_ok v" using idle u v by (simp add: idle_def cache_ok_def same_flash_def)
  have pageD: "unat (FLASH_ADDRESS ?D) = unat ?old + 256 * k div 1024 * 1024"
    using k by (intro staged_page [OF img]) simp
  have modD: "unat ?D mod 1024 + nat 256 \<le> 1024"
  proof -
    obtain q where q: "unat ?old = 1024 * q" using old_page(2) [of lay] by (metis mod_0_imp_dvd dvdE)
    have "unat ?D mod 1024 = 256 * k mod 1024" unfolding uD q by simp
    also have "\<dots> = 256 * (k mod 4)" using mult_mod_right [of 256 k 4] by simp
    also have "\<dots> \<le> 256 * 3" by (intro mult_le_mono2) (use mod_less_divisor [of 4 k] in linarith)
    finally show ?thesis by simp
  qed
  have romD: "rom_page (FLASH_ADDRESS ?D)"
  proof -
    have le: "256 * k div 1024 * 1024 \<le> 256 * k" by (rule div_times_less_eq_dividend)
    have "unat (FLASH_ADDRESS ?D) mod 1024 = 0" by (simp add: unat_FLASH_ADDRESS)
    then show ?thesis unfolding rom_page_def using le pageD o o2 k2 by linarith
  qed
  have fd: "cmd_flash_data ?pkt = ?pkt + of_nat 14" by (simp add: cmd_flash_data_def pkt_buf_def)
  have pk: "0x20000000 \<le> unat ?pkt" "unat ?pkt + 1090 < 0x20005000" "free_ram lay ?pkt 1090"
    using bufs by (simp_all add: buffers_ok_def)
  have free: "free_ram lay (cmd_flash_data ?pkt) (nat 256)"
    unfolding fd using free_ram_part [OF pk(3), of 14 256] by simp
  have valid: "valid_write ?D (cmd_flash_data ?pkt) 256"
  proof -
    have "unat (?D + of_nat 256) = unat ?D + 256" using uD k2 o by (intro unat_add_of_nat) simp
    moreover have "unat (cmd_flash_data ?pkt) = unat ?pkt + 14" unfolding fd using pk by (intro unat_add_of_nat) simp
    moreover from this have "unat (cmd_flash_data ?pkt + of_nat 256) = unat ?pkt + 14 + 256"
      using pk unat_add_of_nat [of "cmd_flash_data ?pkt" 256] by simp
    ultimately show ?thesis using uD k2 o o2 pk
      by (simp add: valid_write_def Let_def word_le_nat_alt word_less_nat_alt)
  qed
  note wv = write_view [OF hw lay cv romD modD _ free valid, folded w_def]
  have chunk: "w = write_chunk hw lay ?D (cmd_flash_data ?pkt) 256 v"
    using valid by (simp add: w_def flash_write_def write_loop.simps)
  have faw: "flashAddr w = FLASH_ADDRESS ?D" unfolding chunk by (rule chunk_page)
  note cp = clear_pkt [OF bufs t_def]
  have idt: "idle bufs t"
    using cp(3) wv(3) idle u flash_page_keeps [of hw lay ?pkt ?T u]
    unfolding fp w_def [symmetric] by (simp add: idle_def same_flash_def t_def cache_ok_def)
  have vw: "view lay t b = staged_bytes lay img rom (256 * Suc k) b" if b: "in_rom b" for b
  proof -
    have vs: "view lay v b = staged_bytes lay img rom (256 * k) b"
    proof -
      have "view lay v = view lay u" unfolding view_def v(1,2) by (rule refl)
      moreover have "view lay s b = staged_bytes lay img rom (256 * k) b" using st b unfolding staging_def by blast
      ultimately show ?thesis using same_flash_rom(2) [OF bufs u b] by simp
    qed
    have io: "unat (b - ?D) < 256 \<longleftrightarrow> 256 * k \<le> unat (b - ?old) \<and> unat (b - ?old) < 256 * k + 256"
      using k2 o by (intro unat_diff_offset) simp
    have sw: "view lay t b = (if unat (b - ?D) < 256 then mem v (cmd_flash_data ?pkt + (b - ?D)) else view lay v b)"
      using cp(2) [OF b] wv(1) b by (simp add: stored_def)
    show ?thesis
    proof (cases "unat (b - ?D) < 256")
      case True
      define j where "j = unat (b - ?D)"
      have bj: "b - ?D = of_nat j" by (simp add: j_def)
      have "b - ?old = of_nat (256 * k + j)" using bj by (simp add: algebra_simps)
      moreover have "unat (of_nat (256 * k + j) :: u32) = 256 * k + j"
        using True k2 o by (subst unat_of_nat) (simp add: j_def)
      ultimately have ub: "unat (b - ?old) = 256 * k + j" by (simp only:)
      have "j < length ?data" unfolding dl j_def by (rule True)
      then have "mem u (cmd_flash_data ?pkt + of_nat j) = ?data ! j" using h unfolding held_def by blast
      then have "mem v (cmd_flash_data ?pkt + (b - ?D)) = ?data ! j" unfolding bj v(1) .
      then show ?thesis using sw True ub k2 by (simp add: staged_bytes_def j_def)
    next
      case False
      then show ?thesis using sw vs io by (auto simp: staged_bytes_def)
    qed
  qed
  have low: "mem t b = rom b" if b: "in_rom b" and k3: "Suc k \<le> 4" for b
  proof -
    have "flashAddr v = NO_CACHE \<or> flashAddr v = FLASH_ADDRESS ?D"
    proof (cases "k = 0")
      case True
      then show ?thesis using st u v by (simp add: staging_def same_flash_def)
    next
      case False
      have "256 * (k - 1) < length img + 1024" using k by simp
      note sp = staged_page [OF img this]
      have "256 * (k - 1) div 1024 = 0" "256 * k div 1024 = 0" using k3 by simp_all
      then have "unat (FLASH_ADDRESS (?old + of_nat (256 * (k - 1)))) = unat (FLASH_ADDRESS ?D)"
        unfolding sp pageD by simp
      then show ?thesis using False st u v by (simp add: staging_def same_flash_def word_unat_eq_iff)
    qed
    then have "mem w b = mem v b" unfolding chunk using modD by (intro chunk_no_flush [OF lay _ _ b]) simp_all
    then show ?thesis using cp(1) [of b] b v(1) same_flash_rom(1) [OF bufs u, of b] st k3 by (simp add: staging_def)
  qed
  have "vectors lay img (5 < Suc k) t"
    using sv(1) hf2_fields [OF write_keeps(1) [of hw lay ?D "cmd_flash_data ?pkt" 256 v]]
    by (simp add: vectors_def t_def w_def)
  then show ?thesis
    unfolding ext staging_def using idt vw low faw by (simp add: t_def)
qed

section \<open>The last page, and what follows\<close>

text \<open>The ROM once the bootloader is staged and the start of it copied behind it.\<close>

definition prepared_bytes :: "Layout \<Rightarrow> u8 list \<Rightarrow> memory \<Rightarrow> memory" where
  "prepared_bytes lay img rom = (\<lambda>b. let d = b - (old_start lay + of_nat (length img))
     in if unat d < unat (baseloader_size lay img) then img ! unat d else staged_bytes lay img rom (length img) b)"

definition prepared :: "Layout \<Rightarrow> Buffers \<Rightarrow> u8 list \<Rightarrow> memory \<Rightarrow> 'a Hf2_scheme \<Rightarrow> bool" where
  "prepared lay bufs img rom s \<longleftrightarrow> idle bufs s \<and> bootloader_changed s \<and> flashAddr s = NO_CACHE \<and>
     new_base_vector s \<noteq> 0 \<and> new_app_start s = FLASH_BASE + of_nat (length img) \<and>
     (\<forall>b. in_rom b \<longrightarrow> mem s b = prepared_bytes lay img rom b)"

lemma vector_nonzero:
  assumes "running lay rom" "bootloader_image lay img"
  shows "BASE_VECTOR_TABLE (base_vector_table lay) (old_start lay) \<noteq> 0"
proof -
  let ?o = "unat (base_vector_table lay AND 1023)"
  have "unat (old_start lay + of_nat ?o) = unat (old_start lay) + ?o"
    using assms(1) image_room(1) [OF assms(2)] by (intro unat_add_of_nat) (simp add: running_def)
  then have "unat (old_start lay + of_nat ?o) \<noteq> 0" using assms(1) by (simp add: running_def)
  moreover have "BASE_VECTOR_TABLE (base_vector_table lay) (old_start lay) = old_start lay + of_nat ?o"
    by (simp add: BASE_VECTOR_TABLE_def FLASH_PAGE_SIZE_def old_page)
  ultimately show ?thesis by (metis unat_0)
qed

lemma small_sint: "unat w < 2 ^ 31 \<Longrightarrow> sint w = int (unat w)" for w :: u32
proof -
  have "sint (of_nat n :: u32) = int n" if "n < 2 ^ 31" for n
    using that by (simp add: signed_of_nat signed_take_bit_int_eq_self)
  from this [of "unat w"] show "unat w < 2 ^ 31 \<Longrightarrow> sint w = int (unat w)" by simp
qed

text \<open>The comparison, and the copy of the Baseloader.\<close>

lemma update_prepared:
  assumes hw: "fpec_ok hw" "prompt hw" and lay: "page_buffer lay" and img: "bootloader_image lay img"
    and run: "running lay rom" and c: "cache_ok x" "flashAddr x = NO_CACHE"
    and x: "\<And>b. in_rom b \<Longrightarrow> mem x b = staged_bytes lay img rom (length img) b"
    and differs: "i < length img" "0x08000000 + i < unat (old_start lay)" "rom (FLASH_BASE + of_nat i) \<noteq> img ! i"
    and r: "handle_bootloader_update hw lay (old_start lay) (old_start lay - FLASH_BASE) (of_nat (length img))
        (baseloader_size lay img) (FLASH_BASE + of_nat (length img)) x = (changed, z)"
  shows "changed" "\<And>b. in_rom b \<Longrightarrow> mem z b = prepared_bytes lay img rom b" "cache_ok z" "flashAddr z = NO_CACHE"
    "Fat.more z = Fat.more x" "startup_mode z = startup_mode x"
proof -
  let ?old = "old_start lay" and ?n = "unat (baseloader_size lay img)"
  let ?D = "?old + of_nat (length img)"
  have o: "unat ?old + length img + 1024 < 0x08010000" "unat ?old + length img + ?n < 0x08010000"
    using image_room [OF img] .
  have o2: "0x08000800 \<le> unat ?old" using run by (simp add: running_def)
  have n: "24 \<le> ?n" "?n \<le> length img" using img by (auto simp: bootloader_image_def)
  have at: "in_rom (?old + of_nat j)" "mem x (?old + of_nat j) = img ! j" if "j < length img" for j
  proof -
    have "unat (?old + of_nat j) = unat ?old + j" using that o by (intro unat_add_of_nat) simp
    then show rb: "in_rom (?old + of_nat j)" using that o by (simp add: in_rom_def)
    have "unat (of_nat j :: u32) = j" using that o by (simp add: unat_of_nat)
    then show "mem x (?old + of_nat j) = img ! j" using x [OF rb] that by (simp add: staged_bytes_def)
  qed
  have "\<not> memcmp_eq (mem x) ?old FLASH_BASE (length img)"
  proof
    assume "memcmp_eq (mem x) ?old FLASH_BASE (length img)"
    then have "mem x (FLASH_BASE + of_nat i) = img ! i" using at(2) differs(1) by (simp add: memcmp_eq_iff)
    moreover have u: "unat (FLASH_BASE + of_nat i) = 0x08000000 + i"
      using differs(1) o unat_add_of_nat [of FLASH_BASE i] by (simp add: FLASH_BASE_def)
    moreover have "\<not> unat (FLASH_BASE + of_nat i - ?old) < length img"
      using u differs(2) o by (intro unat_above) simp_all
    ultimately show False using x [of "FLASH_BASE + of_nat i"] differs o by (simp add: staged_bytes_def in_rom_def)
  qed
  moreover have ln: "unat (of_nat (length img) :: u32) = length img" using o by (simp add: unat_of_nat)
  moreover have off: "FLASH_BASE + of_nat (length img) + (?old - FLASH_BASE) = ?D" by simp
  moreover have si: "sint (baseloader_size lay img) = int ?n"
    using o by (intro small_sint) simp
  ultimately have "(changed, z) = (True, flash_flush hw lay (flash_write hw lay ?D ?old (int ?n) x))"
    using r by (simp add: handle_bootloader_update_def Let_def add.commute)
  moreover define y where "y = flash_write hw lay ?D ?old (int ?n) x"
  ultimately have z: "changed" "z = flash_flush hw lay y" by simp_all
  show "changed" by (rule z(1))
  have uD: "unat ?D = unat ?old + length img" using o by (intro unat_add_of_nat) simp
  have "valid_write ?D ?old (int ?n)"
  proof -
    have "unat (?D + of_nat ?n) = unat ?D + ?n" "unat (?old + of_nat ?n) = unat ?old + ?n"
      by (rule unat_add_of_nat, use uD o in simp)+
    then show ?thesis using uD o o2
      by (simp add: valid_write_def Let_def word_le_nat_alt word_less_nat_alt del: of_nat_add) 
  qed
  then have y: "y = write_loop hw lay ?D ?old (int ?n) x" by (simp add: y_def flash_write_def)
  have modD: "unat ?D mod 1024 = 0" unfolding uD using old_page(2) [of lay] img by (simp add: bootloader_image_def mod_add_eq [symmetric, of "unat ?old"])
  note cp = rom_copy [OF hw lay c(1) modD _ _ _ y]
  have cp: "stored (view lay x) (view lay y) ?D (\<lambda>i. view lay x (?old + i)) ?n" "cache_ok y"
    using cp uD o o2 n by simp_all
  note fv = flush_view [OF hw lay cp(2), folded z(2)]
  show "cache_ok z" "flashAddr z = NO_CACHE" using fv by simp_all
  have vx: "view lay x = mem x" using c(2) by (simp add: view_def)
  show "mem z b = prepared_bytes lay img rom b" if b: "in_rom b" for b
  proof (cases "unat (b - ?D) < ?n")
    case True
    have "mem x (?old + of_nat (unat (b - ?D))) = img ! unat (b - ?D)" using True n by (intro at(2)) simp
    then show ?thesis using cp(1) b True fv(1) vx by (simp add: stored_def prepared_bytes_def Let_def)
  next
    case False
    then show ?thesis using cp(1) b fv(1) vx x by (simp add: stored_def prepared_bytes_def Let_def)
  qed
  show "Fat.more z = Fat.more x" "startup_mode z = startup_mode x"
    by (simp_all add: z(2) y_def flush_keeps write_keeps)
qed

lemma whole_pages:
  assumes "bootloader_image lay img"
  shows "256 * (length img div 256) = length img" "8 \<le> length img div 256"
proof -
  have "length img mod 1024 = 0" using assms by (simp add: bootloader_image_def)
  then obtain q where "length img = 1024 * q" by (metis mod_0_imp_dvd dvdE)
  then have q: "length img = 256 * (4 * q)" by simp
  then show "256 * (length img div 256) = length img" by simp
  have "2048 \<le> length img" using assms by (simp add: bootloader_image_def)
  then show "8 \<le> length img div 256" by simp
qed

lemma image_end:
  assumes "bootloader_image lay img"
  shows "unat (FLASH_BASE + of_nat (length img)) = 0x08000000 + length img"
  using unat_add_of_nat [of FLASH_BASE "length img"] image_room(1) [OF assms] by (simp add: FLASH_BASE_def)

lemma staging_complete:
  assumes hw: "fpec_ok hw" "prompt hw" and lay: "page_buffer lay"
    and bufs: "buffers_ok lay bufs" and img: "bootloader_image lay img" and run: "running lay rom"
    and fresh: "\<not> IS_VALID_BASE_VECTOR_TABLE rom (base_vector_table lay) (old_start lay)"
    and st: "staging lay bufs img rom (length img div 256) s" and data: "length data = 256"
    and differs: "i < length img" "0x08000000 + i < unat (old_start lay)" "rom (FLASH_BASE + of_nat i) \<noteq> img ! i"
  shows "prepared lay bufs img rom
    (exchange hw lay bufs (page_message tag (FLASH_BASE + of_nat (length img)) data) s)"
proof -
  let ?old = "old_start lay" and ?pkt = "hf2_buffer bufs" and ?T = "FLASH_BASE + of_nat (length img)"
  note wp = whole_pages [OF img]
  have idle: "idle bufs s" using st by (simp add: staging_def)
  obtain u where u: "same_flash bufs s u"
    and ex: "exchange hw lay bufs (page_message tag ?T data) s =
       (let t = flash_page hw lay ?pkt ?T u in t\<lparr>mem := st16 ?pkt 0 (mem t)\<rparr>)"
    using page_exchange [OF bufs idle data] by blast
  define v where "v = find_vector lay ?T u"
  have v: "mem v = mem u" "flashAddr v = flashAddr u" "FLASH_CR v = FLASH_CR u"
    by (simp_all add: v_def find_vector_keeps)
  have "256 * (length img div 256) \<le> length img" by (simp only: wp(1))
  note sv = staging_vector [OF bufs img run fresh st u this, unfolded wp(1), folded v_def]
  have vec: "new_base_vector v \<noteq> 0" "new_app_start v = ?T" "new_bootloader_size v = of_nat (length img)"
    "new_baseloader_size v = baseloader_size lay img" "\<not> bootloader_changed v"
    using sv(1) wp(2) vector_nonzero [OF run img] by (simp_all add: vectors_def)
  define x where "x = flash_flush hw lay v"
  have cv: "cache_ok v" using idle u v by (simp add: idle_def cache_ok_def same_flash_def)
  note fv = flush_view [OF hw lay cv, folded x_def]
  have xm: "mem x b = staged_bytes lay img rom (length img) b" if b: "in_rom b" for b
  proof -
    have "view lay v = view lay u" unfolding view_def v(1,2) by (rule refl)
    moreover have "view lay s b = staged_bytes lay img rom (length img) b"
      using st b wp(1) unfolding staging_def by metis
    ultimately show ?thesis using fv(1) same_flash_rom(2) [OF bufs u b] by simp
  qed
  have xs: "new_bootloader_size x = of_nat (length img)" "new_baseloader_size x = baseloader_size lay img"
    "new_base_vector x \<noteq> 0" "new_app_start x = ?T"
    using vec hf2_fields [OF flush_keeps(1) [of hw lay v]] by (simp_all add: x_def)
  obtain changed z where r: "handle_bootloader_update hw lay ?old (?old - FLASH_BASE) (of_nat (length img))
      (baseloader_size lay img) ?T x = (changed, z)" by (cases "handle_bootloader_update hw lay ?old
      (?old - FLASH_BASE) (of_nat (length img)) (baseloader_size lay img) ?T x")
  note up = update_prepared [OF hw lay img run fv(3,2) xm differs r]
  have fa: "FLASH_ADDRESS (application_start lay) = ?old" by (simp add: old_start_def)
  have "place_page hw lay ?T v = (?T, z\<lparr>bootloader_changed := True\<rparr>)"
    using vec r up(1) unfolding place_page_def Let_def v(1) sv(2) fa by (simp add: x_def [symmetric] xs)
  then have fp: "flash_page hw lay ?pkt ?T u = z\<lparr>bootloader_changed := True\<rparr>"
    by (simp add: flash_page_def v_def)
  define w where "w = z\<lparr>bootloader_changed := True\<rparr>"
  define t where "t = w\<lparr>mem := st16 ?pkt 0 (mem w)\<rparr>"
  have ext: "exchange hw lay bufs (page_message tag ?T data) s = t"
    unfolding ex fp w_def t_def Let_def by (rule refl)
  note cp = clear_pkt [OF bufs t_def]
  have "idle bufs t"
    using cp(3) up(3) idle u flash_page_keeps [of hw lay ?pkt ?T u]
    unfolding fp w_def [symmetric] by (simp add: idle_def same_flash_def t_def cache_ok_def w_def)
  moreover have "mem t b = prepared_bytes lay img rom b" if "in_rom b" for b
    using cp(1) [of b] up(2) that by (simp add: w_def)
  moreover have "new_base_vector t \<noteq> 0" "new_app_start t = ?T"
    using xs(3,4) hf2_fields [OF up(5)] by (simp_all add: t_def w_def)
  ultimately show ?thesis unfolding ext prepared_def using up(4) by (simp add: t_def w_def)
qed

text \<open>Pages of the application change nothing any more.\<close>

lemma prepared_page:
  assumes bufs: "buffers_ok lay bufs" and img: "bootloader_image lay img" and run: "running lay rom"
    and s: "prepared lay bufs img rom s" and data: "length data = 256"
    and target: "FLASH_BASE + of_nat (length img) \<le> target"
  shows "prepared lay bufs img rom (exchange hw lay bufs (page_message tag target data) s)"
proof -
  let ?pkt = "hf2_buffer bufs"
  have idle: "idle bufs s" using s by (simp add: prepared_def)
  obtain u where u: "same_flash bufs s u"
    and ex: "exchange hw lay bufs (page_message tag target data) s =
       (let t = flash_page hw lay ?pkt target u in t\<lparr>mem := st16 ?pkt 0 (mem t)\<rparr>)"
    using page_exchange [OF bufs idle data] by blast
  have e: "unat (FLASH_BASE + of_nat (length img)) = 0x08000000 + length img" by (rule image_end [OF img])
  have "0 < length img" using img by (auto simp: bootloader_image_def)
  then have nb: "target \<noteq> FLASH_BASE" using e target by (auto simp: word_le_nat_alt FLASH_BASE_def)
  have nz: "FLASH_BASE + of_nat (length img) \<noteq> 0" using e by (metis add_is_0 unat_0 zero_neq_numeral)
  have us: "new_base_vector u \<noteq> 0" "new_app_start u = FLASH_BASE + of_nat (length img)" "bootloader_changed u"
    "flashAddr u = NO_CACHE" using s u by (simp_all add: prepared_def same_flash_def)
  have "find_vector lay target u = u" using us nb nz by (simp add: find_vector_def Let_def)
  then have fp: "flash_page hw lay ?pkt target u = u"
    using us target by (simp add: flash_page_def place_page_def Let_def not_less)
  define t where "t = u\<lparr>mem := st16 ?pkt 0 (mem u)\<rparr>"
  have ext: "exchange hw lay bufs (page_message tag target data) s = t"
    unfolding ex fp t_def Let_def by (rule refl)
  note cp = clear_pkt [OF bufs t_def]
  have "idle bufs t"
    using cp(3) idle u by (simp add: idle_def same_flash_def t_def cache_ok_def)
  moreover have "mem t b = prepared_bytes lay img rom b" if "in_rom b" for b
    using cp(1) [of b] same_flash_rom(1) [OF bufs u, of b] s that by (simp add: prepared_def)
  ultimately show ?thesis unfolding ext prepared_def using us by (simp add: t_def)
qed

text \<open>The restart that ends the session.\<close>

lemma prepared_reset:
  assumes bufs: "buffers_ok lay bufs" and s: "prepared lay bufs img rom s"
    and t_def: "t = exchange hw lay bufs (reset_message tag) s"
  shows "restarted t" "backup_read BKP0 t = CMD_BASE" "\<And>b. in_rom b \<Longrightarrow> mem t b = prepared_bytes lay img rom b"
    "\<not> PG (FLASH_CR t)" "\<not> PER (FLASH_CR t)"
proof -
  let ?pkt = "hf2_buffer bufs"
  have idle: "idle bufs s" using s by (simp add: prepared_def)
  have l: "length (reset_message tag) = 8" by (simp add: reset_message_def le16_def)
  then have "length (reset_message tag) \<le> 1088" by simp
  then obtain m where m: "held m (pkt_buf ?pkt) (reset_message tag)"
    "\<forall>b. \<not> in_pkt bufs b \<longrightarrow> \<not> in_rx bufs b \<longrightarrow> m b = mem s b"
    and ex: "t = hf2_data_tx_cb (handled hw lay ?pkt (s\<lparr>hf2_pkt := ?pkt, mem := m\<rparr>))"
    using message_exchange [OF bufs idle] unfolding t_def by blast
  let ?s = "s\<lparr>hf2_pkt := ?pkt, mem := m\<rparr>"
  define x where "x = acknowledged ?pkt (cmd_tag m ?pkt) ?s"
  have id: "cmd_command_id m ?pkt = HF2_CMD_RESET_INTO_APP"
    using held_ld32 [OF m(1), of 0] by (simp add: cmd_command_id_def reset_message_def)
  have xf: "flashAddr x = NO_CACHE" "bootloader_changed x" "FLASH_CR x = FLASH_CR s"
    using s by (simp_all add: x_def acknowledged_fields prepared_def)
  have "flash_flush hw lay x = x\<lparr>lastFlush := ms x\<rparr>" using xf by (simp add: flash_flush_def Let_def)
  then have "handle_command hw lay ?pkt ?s =
      send_hf2_response ?pkt 0 (x\<lparr>lastFlush := ms x, restart_request := BASELOADER_MODE\<rparr>)"
    using id xf(2)
    by (simp add: handle_command_def Let_def acknowledged_fields(1) hf2_commands x_def acknowledged_def)
  then have t: "\<exists>y. t = boot_target_manifest_baseloader y \<and> FLASH_CR y = FLASH_CR s \<and> mem y = st16 ?pkt 0 (mem x)"
    unfolding ex handled_def by (simp add: ack Let_def hf2_data_tx_cb_def) (rule exI, rule conjI, rule refl, simp add: xf)
  then obtain y where y: "t = boot_target_manifest_baseloader y" "FLASH_CR y = FLASH_CR s" "mem y = st16 ?pkt 0 (mem x)"
    by blast
  show "restarted t" "backup_read BKP0 t = CMD_BASE"
    by (simp_all add: y(1) boot_target_manifest_baseloader_def backup_roundtrip)
  have "mem t = st16 ?pkt 0 (mem x)" "FLASH_CR t = FLASH_CR s"
    by (simp_all add: y boot_target_manifest_baseloader_def backup_write_def)
  then show "\<not> PG (FLASH_CR t)" "\<not> PER (FLASH_CR t)" using idle by (simp_all add: idle_def cache_ok_def)
  show "mem t b = prepared_bytes lay img rom b" if b: "in_rom b" for b
  proof -
    have out: "\<not> in_pkt bufs b" "\<not> in_rx bufs b" using rom_not_hf2 [OF bufs] b by blast+
    have "mem x b = mem s b"
      using acknowledged_outside [OF bufs out(1), of "cmd_tag m ?pkt" ?s] m(2) out by (simp add: x_def)
    moreover have "mem t b = mem x b"
      using out(1) \<open>mem t = _\<close> by (auto simp: st16_def in_pkt_def)
    ultimately show ?thesis using s b by (simp add: prepared_def)
  qed
qed

end
