(* ===== verification/Hf2Session.thy ===== *)
theory Hf2Session
  imports Hf2Update
begin

text \<open>
  The whole session that replaces the bootloader over HF2: the pages of the image, those of the application behind it, the command
  that restarts the device, the start in Baseloader Mode and the copy by the new Baseloader.
\<close>

unbundle bit_operations_syntax

definition image_pages :: "(nat \<Rightarrow> u16) \<Rightarrow> u8 list \<Rightarrow> u8 list list" where
  "image_pages tag img =
     map (\<lambda>k. page_message (tag k) (FLASH_BASE + of_nat (256 * k)) (take 256 (drop (256 * k) img))) [0..<length img div 256]"

definition app_pages :: "(u16 \<times> u32 \<times> u8 list) list \<Rightarrow> u8 list list" where
  "app_pages ps = map (\<lambda>(tag, target, data). page_message tag target data) ps"

definition update_session :: "(nat \<Rightarrow> u16) \<Rightarrow> u8 list \<Rightarrow> u8 list \<Rightarrow> (u16 \<times> u32 \<times> u8 list) list \<Rightarrow> u8 list list" where
  "update_session tag img first ps =
     image_pages tag img @ app_pages ((0, FLASH_BASE + of_nat (length img), first) # ps) @ [reset_message 0]"

section \<open>The pages\<close>

lemma staging_start:
  assumes "idle bufs s" "flashAddr s = NO_CACHE"
  shows "staging lay bufs img (mem s) 0 s"
  using assms by (simp add: staging_def staged_bytes_def view_def)

lemma staging_all:
  assumes hw: "fpec_ok hw" "prompt hw" and lay: "page_buffer lay"
    and bufs: "buffers_ok lay bufs" and img: "bootloader_image lay img" and run: "running lay rom"
    and fresh: "\<not> IS_VALID_BASE_VECTOR_TABLE rom (base_vector_table lay) (old_start lay)"
    and st: "staging lay bufs img rom 0 s"
  shows "staging lay bufs img rom (length img div 256) (fold (exchange hw lay bufs) (image_pages tag img) s)"
proof -
  have "staging lay bufs img rom n (fold (exchange hw lay bufs) (map (\<lambda>k. page_message (tag k)
      (FLASH_BASE + of_nat (256 * k)) (take 256 (drop (256 * k) img))) [0..<n]) s)" if "n \<le> length img div 256" for n
    using that
  proof (induction n)
    case 0
    then show ?case using st by simp
  next
    case (Suc n)
    from Suc.prems have "256 * Suc n \<le> 256 * (length img div 256)" by (rule mult_le_mono2)
    then have "256 * Suc n \<le> length img" unfolding whole_pages(1) [OF img] .
    then have "256 * n < length img" by simp
    moreover have "staging lay bufs img rom n (fold (exchange hw lay bufs) (map (\<lambda>k. page_message (tag k)
      (FLASH_BASE + of_nat (256 * k)) (take 256 (drop (256 * k) img))) [0..<n]) s)" using Suc by simp
    ultimately show ?case using staging_step [OF hw lay bufs img run fresh] by simp
  qed
  then show ?thesis by (simp add: image_pages_def)
qed

lemma prepared_pages:
  assumes bufs: "buffers_ok lay bufs" and img: "bootloader_image lay img" and run: "running lay rom"
  shows "prepared lay bufs img rom s \<Longrightarrow>
    \<forall>(tag, target, data) \<in> set ps. FLASH_BASE + of_nat (length img) \<le> target \<and> length data = 256 \<Longrightarrow>
    prepared lay bufs img rom (fold (exchange hw lay bufs) (app_pages ps) s)"
proof (induction ps arbitrary: s)
  case Nil
  then show ?case by (simp add: app_pages_def)
next
  case (Cons p ps)
  then show ?case using prepared_page [OF bufs img run Cons.prems(1)]
    by (auto simp: app_pages_def split: prod.splits)
qed

section \<open>What the next start finds\<close>

lemma prepared_at:
  assumes img: "bootloader_image lay img" and run: "running lay rom"
    and m: "\<And>b. in_rom b \<Longrightarrow> m b = prepared_bytes lay img rom b"
  shows "j < length img \<Longrightarrow> m (old_start lay + of_nat j) = img ! j"
    and "j < unat (baseloader_size lay img) \<Longrightarrow> m (old_start lay + of_nat (length img) + of_nat j) = img ! j"
proof -
  let ?old = "old_start lay" and ?D = "old_start lay + of_nat (length img)"
  have o: "unat ?old + length img + unat (baseloader_size lay img) < 0x08010000"
    and o2: "0x08000800 \<le> unat ?old"
    using image_room [OF img] run by (auto simp: running_def)
  have D: "unat ?D = unat ?old + length img" using o by (intro unat_add_of_nat) simp
  show "m (?old + of_nat j) = img ! j" if j: "j < length img"
  proof -
    have u: "unat (?old + of_nat j) = unat ?old + j" using j o by (intro unat_add_of_nat) simp
    then have "\<not> unat (?old + of_nat j - ?D) < unat (baseloader_size lay img)"
      using D o j by (intro unat_above) simp_all
    moreover have "unat (of_nat j :: u32) = j" using j o by (simp add: unat_of_nat)
    ultimately show ?thesis using m u o j by (simp add: in_rom_def prepared_bytes_def staged_bytes_def Let_def)
  qed
  show "m (?D + of_nat j) = img ! j" if j: "j < unat (baseloader_size lay img)"
  proof -
    have "unat (?D + of_nat j) = unat ?D + j" using j o D by (intro unat_add_of_nat) simp
    moreover have "unat (of_nat j :: u32) = j" using j o by (simp add: unat_of_nat)
    ultimately show ?thesis using m D o j by (simp add: in_rom_def prepared_bytes_def Let_def)
  qed
qed

lemma prepared_staged:
  assumes img: "bootloader_image lay img" and run: "running lay rom"
    and m: "\<And>b. in_rom b \<Longrightarrow> m b = prepared_bytes lay img rom b"
  shows "staged lay m (length img)"
    and "new_baseloader lay m (length img) =
      vector_baseloader (image_mem img) (image_table lay) - FLASH_BASE + (old_start lay + of_nat (length img))"
proof -
  let ?t = "base_vector_table lay" and ?D = "old_start lay + of_nat (length img)"
  have fa: "FLASH_ADDRESS (application_start lay) = old_start lay" by (simp add: old_start_def)
  have off: "unat (?t AND 1023) + 24 \<le> 1024" using run by (simp add: running_def)
  have sizes: "unat (?t AND 1023) + 24 \<le> unat (baseloader_size lay img)" "2048 \<le> length img"
    using img by (auto simp: bootloader_image_def)
  have D: "unat ?D = unat (old_start lay) + length img"
    using image_room(1) [OF img] by (intro unat_add_of_nat) simp
  have "unat ?D mod 1024 = 0"
    unfolding D using old_page(2) [of lay] img by (simp add: bootloader_image_def mod_add_eq [symmetric, of "unat (old_start lay)"])
  then have fD: "FLASH_ADDRESS ?D = ?D" by (simp add: word_unat_eq_iff unat_FLASH_ADDRESS) auto
  have at: "m (old_start lay + of_nat j) = img ! j" "m (?D + of_nat j) = img ! j" if "j < unat (?t AND 1023) + 24" for j
    using prepared_at [OF img run, of m j] m that off sizes by simp_all
  have tables: "vector_magic_number m (BASE_VECTOR_TABLE ?t p) = vector_magic_number (image_mem img) (image_table lay)"
    "vector_baseloader m (BASE_VECTOR_TABLE ?t p) = vector_baseloader (image_mem img) (image_table lay)"
    "vector_application m (BASE_VECTOR_TABLE ?t p) = vector_application (image_mem img) (image_table lay)"
    "vector_magic_number2 m (BASE_VECTOR_TABLE ?t p) = vector_magic_number2 (image_mem img) (image_table lay)"
    if "p = old_start lay \<or> p = ?D" for p
  proof -
    have "FLASH_ADDRESS p = p" using that fD old_page(1) by auto
    moreover have "m (p + of_nat j) = img ! j" if "j < unat (?t AND 1023) + 24" for j
      using at [OF that] \<open>p = _ \<or> p = _\<close> by auto
    ultimately show "vector_magic_number m (BASE_VECTOR_TABLE ?t p) = vector_magic_number (image_mem img) (image_table lay)"
      "vector_baseloader m (BASE_VECTOR_TABLE ?t p) = vector_baseloader (image_mem img) (image_table lay)"
      "vector_application m (BASE_VECTOR_TABLE ?t p) = vector_application (image_mem img) (image_table lay)"
      "vector_magic_number2 m (BASE_VECTOR_TABLE ?t p) = vector_magic_number2 (image_mem img) (image_table lay)"
      using page_table [OF off] by blast+
  qed
  note one = tables [OF disjI1 [OF refl]] and two = tables [OF disjI2 [OF refl]]
  have B: "BASE_VECTOR_TABLE ?t (application_start lay) = BASE_VECTOR_TABLE ?t (old_start lay)"
    by (simp add: BASE_VECTOR_TABLE_def fa old_page(1))
  have iv: "vector_magic_number (image_mem img) (image_table lay) = BASE_MAGIC_NUMBER"
    "vector_magic_number2 (image_mem img) (image_table lay) = BASE_MAGIC_NUMBER2"
    "unat (FLASH_ADDRESS (vector_application (image_mem img) (image_table lay))) = 0x08000000 + length img"
    "unat (application_start lay) + length img + 1024 < 0x08010000"
    using img by (auto simp: bootloader_image_def IS_VALID_BASE_VECTOR_TABLE_def image_table_def)
  have "IS_VALID_BASE_VECTOR_TABLE m ?t (application_start lay)"
    unfolding IS_VALID_BASE_VECTOR_TABLE_def B one(1) one(4) using iv by simp
  moreover have "IS_VALID_BASE_VECTOR_TABLE m ?t ?D"
    unfolding IS_VALID_BASE_VECTOR_TABLE_def two(1) two(4) using iv by simp
  moreover have "0x08000400 \<le> unat (old_start lay)" "0 < length img" using run sizes by (auto simp: running_def)
  ultimately show "staged lay m (length img)" unfolding staged_def fa B one(3) using iv off by simp
  show "new_baseloader lay m (length img) =
      vector_baseloader (image_mem img) (image_table lay) - FLASH_BASE + (old_start lay + of_nat (length img))"
    by (simp add: new_baseloader_def Let_def fa two(2))
qed

section \<open>The update\<close>

lemma next_start_flash: "next_start app t = (m, r) \<Longrightarrow> FLASH_CR r = FLASH_CR t"
  by (auto simp: next_start_def boot_target_get_startup_mode_def Let_def reboot_def backup_write_def split: if_splits)

lemma session_lemma:
  assumes hw: "fpec_ok hw" "prompt hw" and lay: "page_buffer lay" and bufs: "buffers_ok lay bufs"
    and img: "bootloader_image lay img" and run: "running lay (mem s)"
    and fresh: "\<not> IS_VALID_BASE_VECTOR_TABLE (mem s) (base_vector_table lay) (old_start lay)"
    and s: "idle bufs s" "flashAddr s = NO_CACHE"
    and differs: "i < length img" "0x08000000 + i < unat (old_start lay)" "mem s (FLASH_BASE + of_nat i) \<noteq> img ! i"
    and ps: "length first = 256"
      "\<forall>(tag, target, data) \<in> set ps. FLASH_BASE + of_nat (length img) \<le> target \<and> length data = 256"
    and t_def: "t = fold (exchange hw lay bufs) (update_session tag img first ps) s"
  shows "restarted t" "backup_read BKP0 t = CMD_BASE" "\<And>b. in_rom b \<Longrightarrow> mem t b = prepared_bytes lay img (mem s) b"
    "\<not> PG (FLASH_CR t)" "\<not> PER (FLASH_CR t)"
proof -
  let ?u = "fold (exchange hw lay bufs) (image_pages tag img) s"
  let ?v = "exchange hw lay bufs (page_message 0 (FLASH_BASE + of_nat (length img)) first) ?u"
  note st = staging_all [OF hw lay bufs img run fresh staging_start [OF s], of tag]
  have "prepared lay bufs img (mem s) ?v"
    by (rule staging_complete [OF hw lay bufs img run fresh st ps(1) differs])
  note pp = prepared_pages [OF bufs img run this ps(2), of hw]
  have t: "t = exchange hw lay bufs (reset_message 0) (fold (exchange hw lay bufs) (app_pages ps) ?v)"
    by (simp add: t_def update_session_def app_pages_def)
  show "restarted t" "backup_read BKP0 t = CMD_BASE" "\<not> PG (FLASH_CR t)" "\<not> PER (FLASH_CR t)"
    using prepared_reset [OF bufs pp t] by blast+
  show "mem t b = prepared_bytes lay img (mem s) b" if "in_rom b" for b
    using prepared_reset(3) [OF bufs pp t that] .
qed

text \<open>C1. The bootloader is replaced over HF2. A host sends the pages of a new bootloader in their order, one page at least behind it,
  further pages of an application, and the command that restarts the device. The bootloader stages the image where
  the application was, finds its Base Vector Table there, sees that it differs from the running bootloader
  and copies the new Baseloader behind it. The device then restarts, comes up in Baseloader Mode, and the copy of the
  new Baseloader leaves the image, byte for byte, at the start of the ROM and restarts again. The image
  must fit behind the start of the application together with its Baseloader, and the page of the application must
  not hold a Base Vector Table from before.\<close>

theorem hf2_bootloader_update:
  assumes "fpec_ok hw" "prompt hw" and "page_buffer lay" "buffers_ok lay bufs"
    and "bootloader_image lay img" and "running lay (mem s)"
    and "\<not> IS_VALID_BASE_VECTOR_TABLE (mem s) (base_vector_table lay) (old_start lay)"
    and "idle bufs s" "flashAddr s = NO_CACHE"
    and "i < length img" "0x08000000 + i < unat (old_start lay)" "mem s (FLASH_BASE + of_nat i) \<noteq> img ! i"
    and "length first = 256"
      "\<forall>(tag, target, data) \<in> set ps. FLASH_BASE + of_nat (length img) \<le> target \<and> length data = 256"
    and "t = fold (exchange hw lay bufs) (update_session tag img first ps) s"
    and "next_start (APP_BASE_ADDRESS lay) t = (m, r)"
    and "ram_buffer (flashBuf lay)" "sizeof_vector_table lay \<le> 1024"
    and "start = vector_baseloader (image_mem img) (image_table lay) - FLASH_BASE + (old_start lay + of_nat (length img))"
      "start \<noteq> 0" "code start = baseloader_start hw vt"
    and "u = prepare_baseloader lay code p r"
  shows "restarted t \<and> m = BASELOADER_MODE \<and> restarted u \<and> (\<forall>j < length img. mem u (FLASH_BASE + of_nat j) = img ! j)"
proof -
  note sl = session_lemma [OF assms(1-15)]
  note ns = next_start_cases(1) [OF assms(16) sl(2)]
  have rm: "mem r b = prepared_bytes lay img (mem s) b" if "in_rom b" for b using sl(3) [OF that] ns by simp
  note ps = prepared_staged [of lay img "mem s" "mem r", OF assms(5,6) rm]
  have st: "staged lay (mem r) (length img)" and nb: "new_baseloader lay (mem r) (length img) = start"
    using ps assms(19) by simp_all
  have cr: "FLASH_CR r = FLASH_CR t" using next_start_flash [OF assms(16)] .
  have "\<not> PG (FLASH_CR r)" "\<not> PER (FLASH_CR r)" using sl(4,5) cr by simp_all
  note bu = bootloader_update_lemma [where code = code and vt = vt and p = p, OF assms(1,2) this assms(17,18) st, unfolded nb,
      OF assms(20,21), folded assms(22)]
  have "mem u (FLASH_BASE + of_nat j) = img ! j" if j: "j < length img" for j
  proof -
    have o: "unat (old_start lay) + length img + 1024 < 0x08010000" "0x08000800 \<le> unat (old_start lay)"
      using image_room(1) [OF assms(5)] assms(6) by (simp_all add: running_def)
    have uj: "unat (of_nat j :: u32) = j" using j o by (simp add: unat_of_nat)
    have "unat (FLASH_BASE + of_nat j) = 0x08000000 + j"
      using j o unat_add_of_nat [of FLASH_BASE j] by (simp add: FLASH_BASE_def)
    then have "unat (FLASH_BASE + of_nat j) < 0x08010000" using j o by simp
    then have "mem u (FLASH_BASE + of_nat j) = mem r (FLASH_ADDRESS (application_start lay) + of_nat j)"
      using bu uj j by simp
    then show ?thesis using prepared_at(1) [OF assms(5,6) _ j, of "mem r"] rm by (simp add: old_start_def)
  qed
  then show ?thesis using sl(1) ns bu by simp
qed

section \<open>A concrete session\<close>

text \<open>An image of 2 KB with a Baseloader of 1 KB, and a bootloader whose application starts at 0x08007400.\<close>

definition demo_mem :: memory where
  "demo_mem = demo_table 0x08000150 (st32 0x0800015C 0x08000400 (\<lambda>a. if a = 0x08000000 then 0x42 else 0x11))"

definition demo_image :: "u8 list" where
  "demo_image = map (\<lambda>i. demo_mem (FLASH_BASE + of_nat i)) [0..<2048]"

definition old_rom :: memory where
  "old_rom = st32 0x08000160 0x08007400 (\<lambda>_. 0)"

lemma demo_image_word:
  assumes "0x08000000 \<le> unat a" "unat a + 4 \<le> 0x08000800" shows "ld32 (image_mem demo_image) a = ld32 demo_mem a"
proof -
  have "image_mem demo_image (a + of_nat j) = demo_mem (a + of_nat j)" if "j < 4" for j
  proof -
    have u: "unat (a + of_nat j) = unat a + j" using assms that by (intro unat_add_of_nat) simp
    have "unat (a + of_nat j - FLASH_BASE) = unat (a + of_nat j) - unat FLASH_BASE"
      using u assms by (intro unat_sub) (simp add: FLASH_BASE_def word_le_nat_alt)
    then have "unat (a + of_nat j - FLASH_BASE) < 2048" using u assms that by (simp add: FLASH_BASE_def)
    then show ?thesis by (simp add: image_mem_def demo_image_def)
  qed
  from shifted_word [of 4 "image_mem demo_image" a demo_mem a 0, OF this] show ?thesis by simp
qed

lemma demo_image_table:
  "image_table demo_layout = 0x08000150" "old_start demo_layout = 0x08007400"
  "vector_magic_number (image_mem demo_image) 0x08000150 = BASE_MAGIC_NUMBER"
  "vector_baseloader (image_mem demo_image) 0x08000150 = 0x08000169"
  "vector_baseloader_end (image_mem demo_image) 0x08000150 = 0x08000400"
  "vector_application (image_mem demo_image) 0x08000150 = 0x08000801"
  "vector_magic_number2 (image_mem demo_image) 0x08000150 = BASE_MAGIC_NUMBER2"
proof -
  have f: "FLASH_ADDRESS 0x08007400 = 0x08007400" "FLASH_ADDRESS 0x08000000 = 0x08000000"
    by (simp_all add: FLASH_ADDRESS_push push_bit_eq_mult drop_bit_eq_div)
  show "image_table demo_layout = 0x08000150" "old_start demo_layout = 0x08007400"
    by (simp_all add: image_table_def old_start_def demo_layout_def BASE_VECTOR_TABLE_def FLASH_PAGE_SIZE_def
        FLASH_BASE_def f)
  show "vector_magic_number (image_mem demo_image) 0x08000150 = BASE_MAGIC_NUMBER"
    "vector_baseloader (image_mem demo_image) 0x08000150 = 0x08000169"
    "vector_baseloader_end (image_mem demo_image) 0x08000150 = 0x08000400"
    "vector_application (image_mem demo_image) 0x08000150 = 0x08000801"
    "vector_magic_number2 (image_mem demo_image) 0x08000150 = BASE_MAGIC_NUMBER2"
    by (simp_all add: vector_magic_number_def vector_baseloader_def vector_baseloader_end_def vector_application_def
        vector_magic_number2_def demo_image_word demo_mem_def demo_table_def ld32_st32_other)
qed

lemma demo_bootloader_image: "bootloader_image demo_layout demo_image" "running demo_layout old_rom"
proof -
  have f: "FLASH_ADDRESS 0x08000801 = 0x08000800"
    by (simp add: FLASH_ADDRESS_push push_bit_eq_mult drop_bit_eq_div)
  have l: "length demo_image = 2048" by (simp add: demo_image_def)
  have b: "BASE_VECTOR_TABLE (base_vector_table demo_layout) FLASH_BASE = 0x08000150"
    using demo_image_table(1) by (simp add: image_table_def)
  show "bootloader_image demo_layout demo_image"
    unfolding bootloader_image_def IS_VALID_BASE_VECTOR_TABLE_def b baseloader_size_def demo_image_table l f
    by (simp add: demo_layout_def FLASH_BASE_def)
  show "running demo_layout old_rom"
    unfolding running_def demo_image_table(2)
    by (simp add: vector_application_def demo_layout_def old_rom_def)
qed

definition demo_session :: Hf2 where
  "demo_session = fold (exchange f1 demo_layout demo_bufs)
     (update_session (\<lambda>_. 0) demo_image (replicate 256 0) [(0, 0x08000900, replicate 256 1)]) (demo_hf2 old_rom)"

theorem hf2_bootloader_update_witness:
  "mem (prepare_baseloader demo_layout (\<lambda>_. baseloader_start f1 0x08000000) 0
     (snd (next_start 0x08007400 demo_session))) 0x08000000 = 0x42"
proof -
  let ?s = "demo_hf2 old_rom" and ?code = "\<lambda>_. baseloader_start f1 0x08000000"
  let ?start = "vector_baseloader (image_mem demo_image) (image_table demo_layout) - FLASH_BASE
    + (old_start demo_layout + of_nat (length demo_image))"
  let ?ps = "[(0 :: u16, 0x08000900 :: u32, replicate 256 (1 :: u8))]"
  have l: "length demo_image = 2048" by (simp add: demo_image_def)
  have f: "FLASH_ADDRESS 0x08007400 = 0x08007400"
    by (simp add: FLASH_ADDRESS_push push_bit_eq_mult drop_bit_eq_div)
  have "ld32 old_rom 0x08007550 \<noteq> BASE_MAGIC_NUMBER"
    by (simp add: old_rom_def ld32_st32_other BASE_MAGIC_NUMBER_def) code_simp
  moreover have "BASE_VECTOR_TABLE (base_vector_table demo_layout) 0x08007400 = 0x08007550"
    by (simp add: BASE_VECTOR_TABLE_def demo_layout_def FLASH_PAGE_SIZE_def f)
  ultimately have fresh: "\<not> IS_VALID_BASE_VECTOR_TABLE (mem ?s) (base_vector_table demo_layout) (old_start demo_layout)"
    unfolding demo_image_table(2) IS_VALID_BASE_VECTOR_TABLE_def
    by (simp add: vector_magic_number_def demo_hf2_fields(1))
  have page: "page_buffer demo_layout" "ram_buffer (flashBuf demo_layout)" "sizeof_vector_table demo_layout \<le> 1024"
    by (simp_all add: page_buffer_def ram_buffer_def demo_layout_def)
  have run: "running demo_layout (mem ?s)" using demo_bootloader_image(2) by (simp add: demo_hf2_fields(1))
  have "ld16 old_rom 0x20004000 = 0"
    by (simp add: old_rom_def) code_simp
  then have idle: "idle demo_bufs ?s"
    by (simp add: idle_def demo_hf2_fields pkt_size_def demo_bufs_def cache_ok_def)
  have first: "demo_image ! 0 = 0x42" by (simp add: demo_image_def) code_simp
  have "mem ?s (FLASH_BASE + of_nat 0) = 0" unfolding demo_hf2_fields(1) by code_simp
  then have differs: "0 < length demo_image" "0x08000000 + 0 < unat (old_start demo_layout)"
    "mem ?s (FLASH_BASE + of_nat 0) \<noteq> demo_image ! 0"
    unfolding first l demo_image_table(2) by simp_all
  have ps: "\<forall>(tag, target, data) \<in> set ?ps. FLASH_BASE + of_nat (length demo_image) \<le> target \<and> length data = 256"
    by (simp add: l FLASH_BASE_def)
  have start: "?start \<noteq> 0" unfolding demo_image_table l by (simp add: FLASH_BASE_def)
  obtain m r where r: "next_start (APP_BASE_ADDRESS demo_layout) demo_session = (m, r)"
    by (cases "next_start (APP_BASE_ADDRESS demo_layout) demo_session")
  have a: "APP_BASE_ADDRESS demo_layout = 0x08007400" by (simp add: demo_layout_def)
  from hf2_bootloader_update [where code = ?code and vt = "0x08000000" and p = 0, OF f1_ok page(1) demo_bufs_ok
      demo_bootloader_image(1) run fresh idle demo_hf2_fields(6) differs _ ps demo_session_def r page(2,3) refl start refl refl]
  have "\<forall>j < length demo_image. mem (prepare_baseloader demo_layout ?code 0 r) (FLASH_BASE + of_nat j) = demo_image ! j"
    by simp
  then have "mem (prepare_baseloader demo_layout ?code 0 r) (FLASH_BASE + of_nat 0) = demo_image ! 0"
    using differs(1) by blast
  then show ?thesis using r a first by (simp add: FLASH_BASE_def)
qed

end
