(* ===== verification/Spec2Isabelle.thy ===== *)
theory Spec2Isabelle
  imports Countries UartSession NetworkLaws SpiFaults SensorLaws LoggerLaws TargetLaws Bme280Laws NanoLaws MscDisk Hf2Session
begin

text \<open>
  A verification library for the firmware of this repository: a sensor node on the STM32 Blue Pill that reads a BME280 sensor over
  SPI or I2C and sends the readings to the Sigfox network through a Wisol module on a UART.

  \<^bold>\<open>The program.\<close> The tasks run on the cocoOS kernel, one at a time, and give up the processor only at kernel calls. A Sensor Task
  (\<^verbatim>\<open>src/sensor.cpp\<close>) polls its sensor under the semaphore of the port and posts the readings to the Network Task
  (\<^verbatim>\<open>src/wisol.cpp\<close>), which remembers them, throttles (\<^verbatim>\<open>src/aggregate.cpp\<close>) and turns a message into a list of AT commands. It posts
  the commands one by one to the UART Task (\<^verbatim>\<open>src/uart.cpp\<close>), which sends the characters and collects the response of the module
  until the expected markers or a timeout. The SPI driver (\<^verbatim>\<open>stm32/spiint\<close>) transfers by DMA; a simulator (\<^verbatim>\<open>stm32/simulator\<close>)
  records what the sensor driver sends and replays it in one burst before the driver runs. The ticks of the real-time clock
  (\<^verbatim>\<open>stm32/bluepill/timer.cpp\<close>, \<^verbatim>\<open>stm32/hal\<close>) drive the kernel.
  The firmware lies behind a USB bootloader (\<^verbatim>\<open>stm32/bootloader\<close>), which a host gives new code as UF2 blocks on a virtual disk
  (\<^verbatim>\<open>ghostfat.c\<close>) or as pages of the HF2 protocol (\<^verbatim>\<open>hf2.c\<close>). A page cache in RAM collects the bytes of a ROM page. A new bootloader
  is staged where the application was; after a restart its Baseloader (\<^verbatim>\<open>stm32/baseloader\<close>) copies it over the old one.

  \<^bold>\<open>Theories and sources.\<close>
  \<^item> \<open>Prelude\<close>: arrays of fixed length, C strings in buffers with the functions of \<^verbatim>\<open>string.h\<close>, C integers.
  \<^item> \<open>NetTypes\<close>, \<open>Countries\<close>: messages and contexts (\<^verbatim>\<open>sigfox.h\<close>, \<^verbatim>\<open>wisol.h\<close>, \<^verbatim>\<open>uart.h\<close>, \<^verbatim>\<open>sensor.h\<close>), the country enumeration.
  \<^item> \<open>WisolCmd\<close> (\<^verbatim>\<open>wisol.cpp\<close> below the task: commands, steps, responses, conversion); \<open>CmdList\<close>, \<open>Response\<close>: the steps ask for exactly
    their commands, processing stays inside its buffers, the downlink is extracted.
  \<^item> \<open>Aggregate\<close> (\<^verbatim>\<open>aggregate.cpp\<close>); \<open>SensorStore\<close>, \<open>Payload\<close>: the saved sensors refine a map, the payload is the digits of the readings.
  \<^item> \<open>UartTask\<close> (\<^verbatim>\<open>uart.cpp\<close>), \<open>UartPort\<close> (\<^verbatim>\<open>stm32/uartint\<close>); \<open>UartLaws\<close> verifies the receive loop against the locale \<open>uart_port\<close>, which
    \<open>UartPort\<close> interprets for the interrupt-driven port and for the simulated module; \<open>UartSession\<close> puts both together.
  \<^item> \<open>Network\<close>: the Network Task as a step relation cut at its kernel calls; \<open>NetworkLaws\<close>: invariant, progress, the Begin Step.
  \<^item> \<open>Simulator\<close>, \<open>Trail\<close>: the trail of a simulator and what is read back from it.
  \<^item> \<open>Spi\<close>, \<open>SpiOps\<close>, \<open>SpiPorts\<close> (\<^verbatim>\<open>spiint.cpp\<close>: transfers and DMA interrupts, waiting and configuration, ports and the Arduino interface);
    \<open>SpiLaws\<close>, \<open>SpiSession\<close>, \<open>SpiReplay\<close>, \<open>SpiCycle\<close>, \<open>SpiFaults\<close>: completion, waiting, replay as one transfer, the
    round of capture, replay and simulation, and the behaviour under timeout and mismatch.
  \<^item> \<open>MsgQueue\<close>, \<open>Kernel\<close> (\<^verbatim>\<open>lib/cocoOS_5.0.3\<close>); \<open>QueueLaws\<close>: the ring buffer refines a bounded list; \<open>KernelLaws\<close>, \<open>KernelSched\<close>: every
    reachable state is well formed, the highest priority runs, signals hand over, waits end at their tick.
  \<^item> \<open>SensorTask\<close>, \<open>SensorLaws\<close> (\<^verbatim>\<open>sensor.cpp\<close>): sensor tasks in a world of other tasks and interrupts; exclusive use of a port.
  \<^item> \<open>Logger\<close>, \<open>LoggerLaws\<close> (\<^verbatim>\<open>stm32/logger\<close>): the log refines a stream (locale \<open>text_log\<close>), numbers are printed as digits.
  \<^item> \<open>Target\<close>, \<open>TargetLaws\<close> (\<^verbatim>\<open>timer.cpp\<close>, \<^verbatim>\<open>codal_target_hal.cpp\<close>, \<^verbatim>\<open>CmTimer.cpp\<close>): the clock interrupt down to a waiting task.
  \<^item> \<open>I2c\<close>, \<open>I2cLaws\<close> (\<^verbatim>\<open>stm32/i2cint\<close>): the polled driver and the recorded sensor; both interpret the locale \<open>byte_stream\<close>.
  \<^item> \<open>Bme280\<close>, \<open>Bme280Laws\<close> (\<^verbatim>\<open>lib/BME280\<close>): the sensor library over I2C and SPI; the locale \<open>register_port\<close> is what it needs.
  \<^item> \<open>NanoFloat\<close>, \<open>NanoLaws\<close> (\<^verbatim>\<open>lib/nano-float\<close>): the floating-point functions over qfplib.
  \<^item> \<open>Flash\<close> (\<^verbatim>\<open>baseloader.c\<close>, \<^verbatim>\<open>prepare_baseloader\<close> of \<^verbatim>\<open>bootloader.c\<close>): programming the flash memory, the copy of the Baseloader with its
    checks, the staged bootloader; \<open>FlashLaws\<close>, \<open>Baseloader\<close>: a copy is exact, stays inside its area, and reports a controller that hangs.
  \<^item> \<open>BootTarget\<close> (\<^verbatim>\<open>target_stm32f103.c\<close>, \<^verbatim>\<open>backup.c\<close>): startup modes and requests that outlive a restart.
  \<^item> \<open>GhostFat\<close> (\<^verbatim>\<open>ghostfat.c\<close>, \<^verbatim>\<open>uf2.h\<close>): the sectors of the disk, UF2 blocks, the page cache; \<open>GhostLaws\<close>: the cache with the ROM behind it is one
    memory, \<open>view\<close>, on which a write is a plain store; \<open>Uf2Laws\<close>: an image is flashed, whatever the order of its blocks; \<open>GhostSafety\<close>: no
    sector a host writes changes the bootloader; \<open>DiskLaws\<close>: what the disk shows as the current image can be written back.
  \<^item> \<open>Msc\<close> (\<^verbatim>\<open>msc.c\<close>): SCSI commands in bulk-only transport; \<open>MscLaws\<close>: writing, reading (in the locale \<open>block_device\<close>), failing
    commands and the overrun after a short packet; \<open>MscDisk\<close> interprets the locale for the UF2 disk: a UF2 file copied over USB is flashed.
  \<^item> \<open>Hf2\<close> (\<^verbatim>\<open>hf2.c\<close>, \<^verbatim>\<open>uf2hid.h\<close>): packets, commands, staging; \<open>Hf2Laws\<close>: messages and responses arrive whole; \<open>Hf2Update\<close>, \<open>Hf2Session\<close>: the
    pages of a new bootloader, from the first message to the restart that runs it.
  \<^item> This theory: a payload on its way through conversion, UART Task, module and response processing.

  \<^bold>\<open>How the code is modelled.\<close> A struct is a record, an enum a datatype, static variables of a file are the fields of a state
  record that is passed and returned. Integers keep their width as words; the sequence number alone is an \<open>int\<close>. An array is a list of the
  array's length; a store outside makes it longer, so an invariant on the length says that no store leaves the array. Pointers
  to static buffers are tokens, and a text in a message is the contents at the time of the post. Function pointers are data
  (which response function) or arguments (sensor drivers, callbacks of the clock). A result None is a null pointer followed, a failed
  \<^verbatim>\<open>os_assert\<close>, or a loop that is still waiting when its inputs are used up; theorems that a result exists say which inputs are enough.
  Task code is cut at the kernel calls, and between two cuts \<open>world_step\<close> and the step relation of the network let the other tasks and interrupts
  act; one reading of the clock serves an atomic step. Registers of the hardware that the code polls, and the clock it
  reads in a loop, are lists with one entry for each round.

  \<^bold>\<open>Bounds and fuel.\<close> The walks around a ring buffer have the size of the queue as fuel, which visits every slot once. A forced flush does 100
  rounds, as the code does; a full buffer of 512 needs 9 chunks of 60. Polling the bootloader is bounded by the number of calls that report
  activity. A register read has fuel 256, since its counter is a byte. The receive queue of the UART, a vendored lock-free
  queue, is a bounded queue of 37 bytes. The Baseloader polls a busy controller 257 times, as the code does; its copy loop ends because every
  round uses up a half-word, and the loop over the pages of a write because every round uses up bytes.

  \<^bold>\<open>Parameters.\<close> Code that is not in the repository is an argument: qfplib (\<open>Qfp\<close>, with the documented laws \<open>documented\<close> and, where a theorem
  is about exact arithmetic, \<open>exact_arith\<close>), the compiler's floating-point operations of the sensor library (\<open>Floating\<close>), the functions
  of a sensor driver (\<open>Driver\<close>), the flash controller (\<open>Fpec\<close>, with the documented laws \<open>fpec_ok\<close> and, where an operation must end in time,
  \<open>prompt\<close>), and the addresses the linker gives (\<open>Layout\<close>, \<open>Buffers\<close>). Sensor values are binary floating-point numbers rounded to 24 bits; infinities occur only in \<open>NanoFloat\<close>.

  \<^bold>\<open>Not modelled.\<close> The USB descriptors and the glue to libopencm3 in the bootloader, its DFU interface, which is disabled, and its serial
  interface; the CODAL wrappers for pins, serial and buses, whose base classes
  are not in the repository and whose interrupts are disabled; the display task, disabled and not compilable; panic, sleep modes and the set-up of
  clocks, pins and peripheral registers, which only write registers; the log output of the other components, except the log of a UART
  response; dumps of SPI data; two simulators open on one port; the round-robin scheduler, which is not compiled; \<^verbatim>\<open>EnvironmentCalculations\<close>,
  which nothing calls.
\<close>

section \<open>From a payload to its downlink\<close>

lemma send_text:
  assumes "plain payload" "length payload \<le> 26" "length uartData = MAX_UART_SEND_MSG_SIZE + 1"
    "convertCmdToUART (send_cmd payload True) uartMsg uartData ok fail resp tid = (msg, b)"
  shows "take MAX_UART_SEND_MSG_SIZE (cstr (um_sendData msg)) = (''AT$SF='' @ payload @ '',1'') @ [END_OF_RESPONSE]"
    and "um_markerChar msg = END_OF_RESPONSE" and "um_expectedMarkerCount msg = 2" and "um_timeout msg = DOWNLINK_TIMEOUT"
    and "um_responseMsg msg = Some resp" and "um_responseTaskID msg = tid"
proof -
  have s: "cmd_sendData (send_cmd payload True) = Some ''AT$SF=''" "cmd_payload (send_cmd payload True) = Some payload"
    "cmd_sendData2 (send_cmd payload True) = Some '',1''" "cmd_expectedMarkerCount (send_cmd payload True) = 2"
    by (simp_all add: send_cmd_def mk_cmd_def)
  have p: "plain ''AT$SF=''" "plain '',1''" by (simp_all add: plain_def NUL_def)
  note c = convert_facts [OF assms(3) s(1), of uartMsg ok fail resp tid]
  show "take MAX_UART_SEND_MSG_SIZE (cstr (um_sendData msg)) = (''AT$SF='' @ payload @ '',1'') @ [END_OF_RESPONSE]"
    using c assms p s by (auto simp: opt_text_def cstr_plain)
  show "um_expectedMarkerCount msg = 2" "um_timeout msg = DOWNLINK_TIMEOUT" "um_responseMsg msg = Some resp"
    using c assms(4) s by auto
  show "um_markerChar msg = END_OF_RESPONSE" "um_responseTaskID msg = tid"
    using assms(4) s by (auto simp: convertCmdToUART_def Let_def)
qed

lemma downlink_reply:
  assumes "plain payload"
  shows "sim_reply (''AT$SF='' @ payload @ '',1'') = (downlink_response, DOWNLINK_TIMEOUT)"
proof -
  let ?c = "''AT$SF='' @ payload @ '',1''"
  have c: "cstr ?c = ?c" "cstr '',1'' = '',1''" "cstr ''AT$SF='' = ''AT$SF=''" using assms by (simp_all add: cstr_plain NUL_def)
  have other: "\<not> strcmp_eq ?c CMD_NONE" "\<not> strcmp_eq ?c CMD_OUTPUT_POWER_MAX" "\<not> strcmp_eq ?c CMD_GET_CHANNEL"
    "\<not> strcmp_eq ?c CMD_RESET_CHANNEL" "\<not> strcmp_eq ?c CMD_GET_ID" "\<not> strcmp_eq ?c CMD_GET_PAC"
    "\<not> strcmp_eq ?c CMD_EMULATOR_DISABLE" "\<not> strcmp_eq ?c CMD_EMULATOR_ENABLE"
    unfolding strcmp_eq_def c(1) by (simp_all add: cstr_plain NUL_def)
  have "strncmp_eq (strlen CMD_SEND_MESSAGE) ?c CMD_SEND_MESSAGE"
    unfolding strncmp_eq_def strlen_def c by simp
  moreover have "drop (strlen ?c - strlen CMD_SEND_MESSAGE_RESPONSE) ?c = '',1''"
    unfolding strlen_def c by simp
  ultimately show ?thesis
    using other by (simp add: sim_reply_def strcmp_eq_def)
qed

lemma downlink_texts:
  "payload_of END_OF_RESPONSE downlink_response = ''OK'' @ [CHR 0x0A] @ ''RX=01 23 45 67 89 AB CD EF''"
  "markers_in END_OF_RESPONSE downlink_response = 1" "length downlink_response = 30"
  by (simp_all add: payload_of_def markers_in_def downlink_response_def NUL_def)


definition demo_uart_msg :: UARTMsg where
  "demo_uart_msg = \<lparr>um_sendData = [], um_timeout = 0, um_markerChar = NUL, um_expectedMarkerCount = 0, um_successEvent = 0,
     um_failureEvent = 0, um_responseMsg = None, um_responseTaskID = 0\<rparr>"

definition demo_sending :: Net where
  "demo_sending = (demo_net [])\<lparr>ns_ctx := Response.demo_ctx\<lparr>nc_pendingProcessFunc := Some GetDownlink\<rparr>\<rparr>"


end
